(* ===== verification/HP_Prelude.thy ===== *)
theory HP_Prelude
  imports
    Main
    "HOL-Library.Char_ord"
    "HOL-Library.List_Lexorder"
    "HOL-Library.AList"
    "HOL-Library.Sublist"
begin

text \<open>
  Shared vocabulary of the development.

  Strings are lists of characters; one \<^typ>\<open>char\<close> stands for one code point below 256, so
  \<open>length\<close> counts what Python's \<open>len\<close> counts on such strings.  The functions below are the
  parts of Python's \<open>str\<close> that the modelled code calls: stripping, splitting, joining, searching,
  case conversion of ASCII letters and decimal printing.  JSON and YAML trees are values of
  \<open>jval\<close>.  Exceptions are values of \<open>exn\<close>; a computation that may raise returns
  \<open>exn + 'a\<close> (with \<open>Inl\<close> for the exception), and one that mutates state returns the state
  next to that result, because a Python exception does not undo the writes made before it.
\<close>

named_theorems err_simps \<open>unfolding of the error plumbing\<close>
named_theorems str_simps \<open>facts on Python strings\<close>

section \<open>Exceptions and results\<close>

datatype exn =
    LifecycleError string
  | ConflictError string string
  | ValueError string
  | YAMLError string
  | FileNotFoundError string
  | TypeError string
  | AttributeError string
  | KeyError string
  | SqliteError string
  | GitOperationError string
  | ExecutorError string
  | TamperError string
  | RuntimeError string
  | ConnectionError string
  | RecursionError
  | OtherError string

type_synonym 'a res = "exn + 'a"

definition bind_res :: "'a res \<Rightarrow> ('a \<Rightarrow> 'b res) \<Rightarrow> 'b res" where
  "bind_res r f = (case r of Inl e \<Rightarrow> Inl e | Inr x \<Rightarrow> f x)"

lemma bind_res_simps [simp, err_simps]:
  "bind_res (Inl e) f = Inl e"
  "bind_res (Inr x) f = f x"
  by (simp_all add: bind_res_def)

lemma bind_res_eq_Inr: "bind_res r f = Inr y \<longleftrightarrow> (\<exists>x. r = Inr x \<and> f x = Inr y)"
  by (cases r) auto

lemma bind_res_eq_Inl:
  "bind_res r f = Inl e \<longleftrightarrow> r = Inl e \<or> (\<exists>x. r = Inr x \<and> f x = Inl e)"
  by (cases r) auto

section \<open>Characters and strings\<close>

abbreviation nl :: char where "nl \<equiv> CHR 0x0A"
abbreviation cr :: char where "cr \<equiv> CHR 0x0D"

text \<open>\<open>str.isspace\<close> for code points below 256.\<close>

definition py_isspace :: "char \<Rightarrow> bool" where
  "py_isspace c = (let n = (of_char c :: nat) in
     (9 \<le> n \<and> n \<le> 13) \<or> (28 \<le> n \<and> n \<le> 32) \<or> n = 133 \<or> n = 160)"

definition is_digit :: "char \<Rightarrow> bool" where
  "is_digit c = (let n = (of_char c :: nat) in 48 \<le> n \<and> n \<le> 57)"

definition is_lower :: "char \<Rightarrow> bool" where
  "is_lower c = (let n = (of_char c :: nat) in 97 \<le> n \<and> n \<le> 122)"

definition is_upper :: "char \<Rightarrow> bool" where
  "is_upper c = (let n = (of_char c :: nat) in 65 \<le> n \<and> n \<le> 90)"

definition is_hex_lower :: "char \<Rightarrow> bool" where
  "is_hex_lower c = (let n = (of_char c :: nat) in is_digit c \<or> (97 \<le> n \<and> n \<le> 102))"

lemma py_isspace_nl [simp]: "py_isspace nl" and py_isspace_cr [simp]: "py_isspace cr"
  and py_isspace_blank [simp]: "py_isspace (CHR '' '')"
  by (simp_all add: py_isspace_def)

definition py_lstrip :: "string \<Rightarrow> string" where
  "py_lstrip s = dropWhile py_isspace s"

definition py_rstrip :: "string \<Rightarrow> string" where
  "py_rstrip s = rev (dropWhile py_isspace (rev s))"

definition py_strip :: "string \<Rightarrow> string" where
  "py_strip s = py_rstrip (py_lstrip s)"

text \<open>\<open>s.lstrip("\n")\<close> and \<open>s.rstrip("\n")\<close>: only newlines go.\<close>

definition lstrip_nl :: "string \<Rightarrow> string" where
  "lstrip_nl s = dropWhile (\<lambda>c. c = nl) s"

definition rstrip_nl :: "string \<Rightarrow> string" where
  "rstrip_nl s = rev (dropWhile (\<lambda>c. c = nl) (rev s))"

lemma dropWhile_idem_pred [simp]: "dropWhile P (dropWhile P xs) = dropWhile P xs"
  by (induction xs) auto

lemma lstrip_nl_idem [simp, str_simps]: "lstrip_nl (lstrip_nl s) = lstrip_nl s"
  by (simp add: lstrip_nl_def)

lemma lstrip_nl_newlines [str_simps]: "lstrip_nl (replicate n nl @ s) = lstrip_nl s"
  by (induction n) (auto simp: lstrip_nl_def)

lemma lstrip_nl_id: "(s = [] \<or> hd s \<noteq> nl) \<Longrightarrow> lstrip_nl s = s"
  by (cases s) (auto simp: lstrip_nl_def)

lemma py_rstrip_idem [simp, str_simps]: "py_rstrip (py_rstrip s) = py_rstrip s"
  by (simp add: py_rstrip_def)

lemma py_rstrip_Nil [simp]: "py_rstrip [] = []"
  by (simp add: py_rstrip_def)

lemma py_rstrip_append_space: "\<forall>c\<in>set t. py_isspace c \<Longrightarrow> py_rstrip (s @ t) = py_rstrip s"
  by (simp add: py_rstrip_def) (metis dropWhile_append2 set_rev)

lemma py_strip_no_space: "\<forall>c\<in>set s. \<not> py_isspace c \<Longrightarrow> py_strip s = s"
proof -
  assume s: "\<forall>c\<in>set s. \<not> py_isspace c"
  have d: "dropWhile py_isspace t = t" if "\<forall>c\<in>set t. \<not> py_isspace c" for t
    using that by (cases t) auto
  show ?thesis using d [OF s] d [of "rev s"] s by (simp add: py_strip_def py_lstrip_def py_rstrip_def)
qed

lemma dropWhile_rev_dropWhile:
  "dropWhile P (rev (dropWhile P (rev (dropWhile P s)))) = rev (dropWhile P (rev (dropWhile P s)))"
proof (cases "rev (dropWhile P (rev (dropWhile P s)))")
  case (Cons c cs)
  have "dropWhile P s = rev (dropWhile P (rev (dropWhile P s))) @ rev (takeWhile P (rev (dropWhile P s)))"
    by (metis rev_append rev_rev_ident takeWhile_dropWhile_id)
  then have w: "dropWhile P s = c # cs @ rev (takeWhile P (rev (dropWhile P s)))"
    unfolding Cons by simp
  then have "\<not> P c" by (metis hd_dropWhile list.distinct(1) list.sel(1))
  then show ?thesis unfolding Cons by simp
next
  case Nil
  then show ?thesis unfolding Nil by simp
qed

lemma py_strip_idem [simp, str_simps]: "py_strip (py_strip s) = py_strip s"
  by (simp add: py_strip_def py_lstrip_def py_rstrip_def dropWhile_rev_dropWhile)

lemma set_py_rstrip: "set (py_rstrip s) \<subseteq> set s"
  by (auto simp: py_rstrip_def dest: set_dropWhileD)

lemma set_lstrip_nl: "set (lstrip_nl s) \<subseteq> set s"
  by (auto simp: lstrip_nl_def dest: set_dropWhileD)

definition to_upper :: "char \<Rightarrow> char" where
  "to_upper c = (if is_lower c then char_of ((of_char c :: nat) - 32) else c)"

definition to_lower :: "char \<Rightarrow> char" where
  "to_lower c = (if is_upper c then char_of ((of_char c :: nat) + 32) else c)"

definition py_upper :: "string \<Rightarrow> string" where
  "py_upper s = map to_upper s"

definition py_lower :: "string \<Rightarrow> string" where
  "py_lower s = map to_lower s"

subsection \<open>split and join\<close>

fun split_on :: "char \<Rightarrow> string \<Rightarrow> string list" where
  "split_on d [] = [[]]"
| "split_on d (c # cs) =
     (if c = d then [] # split_on d cs
      else (case split_on d cs of [] \<Rightarrow> [[c]] | w # ws \<Rightarrow> (c # w) # ws))"

fun join :: "string \<Rightarrow> string list \<Rightarrow> string" where
  "join sep [] = []"
| "join sep [w] = w"
| "join sep (w # ws) = w @ sep @ join sep ws"

lemma split_on_not_Nil [simp]: "split_on d s \<noteq> []"
  by (induction s) (auto split: list.splits)

lemma join_Cons: "ws \<noteq> [] \<Longrightarrow> join sep (w # ws) = w @ sep @ join sep ws"
  by (cases ws) auto

lemma join_split_on [str_simps]: "join [d] (split_on d s) = s"
proof (induction s)
  case Nil
  then show ?case by simp
next
  case (Cons c cs)
  obtain w ws where w: "split_on d cs = w # ws"
    by (cases "split_on d cs") auto
  show ?case
  proof (cases "c = d")
    case True
    then show ?thesis using Cons.IH by (simp add: join_Cons)
  next
    case False
    with w have "join [d] (split_on d (c # cs)) = c # join [d] (split_on d cs)"
      by (cases ws) auto
    with Cons.IH show ?thesis by simp
  qed
qed

lemma split_on_no_sep: "d \<notin> set w \<Longrightarrow> split_on d w = [w]"
  by (induction w) auto

lemma split_on_append_sep: "d \<notin> set w \<Longrightarrow> split_on d (w @ d # s) = w # split_on d s"
  by (induction w) auto

lemma split_on_pieces: "w \<in> set (split_on d s) \<Longrightarrow> d \<notin> set w"
proof (induction s arbitrary: w)
  case Nil
  then show ?case by simp
next
  case (Cons c cs)
  obtain v vs where v: "split_on d cs = v # vs"
    by (cases "split_on d cs") auto
  show ?case
  proof (cases "c = d")
    case True
    with Cons show ?thesis by auto
  next
    case False
    from Cons.prems False v have "w = c # v \<or> w \<in> set vs" by auto
    moreover have "d \<notin> set v" using Cons.IH[of v] v by simp
    moreover have "w \<in> set vs \<Longrightarrow> d \<notin> set w" using Cons.IH[of w] v by simp
    ultimately show ?thesis using False by auto
  qed
qed

lemma split_on_join:
  "ws \<noteq> [] \<Longrightarrow> \<forall>w\<in>set ws. d \<notin> set w \<Longrightarrow> split_on d (join [d] ws) = ws"
proof (induction ws)
  case Nil
  then show ?case by simp
next
  case (Cons w ws)
  show ?case
  proof (cases "ws = []")
    case True
    with Cons.prems show ?thesis by (simp add: split_on_no_sep)
  next
    case False
    with Cons show ?thesis by (simp add: join_Cons split_on_append_sep)
  qed
qed

subsection \<open>Searching\<close>

text \<open>\<open>needle in hay\<close> and \<open>hay.find(needle)\<close>.\<close>

fun py_find :: "string \<Rightarrow> string \<Rightarrow> nat option" where
  "py_find needle [] = (if needle = [] then Some 0 else None)"
| "py_find needle (c # cs) =
     (if prefix needle (c # cs) then Some 0
      else map_option Suc (py_find needle cs))"

definition py_in :: "string \<Rightarrow> string \<Rightarrow> bool" where
  "py_in needle hay = (py_find needle hay \<noteq> None)"

lemma py_find_Some:
  "py_find needle hay = Some i \<Longrightarrow> i \<le> length hay \<and> prefix needle (drop i hay)"
  by (induction hay arbitrary: i) (auto split: if_splits)

lemma py_find_least:
  "py_find needle hay = Some i \<Longrightarrow> j < i \<Longrightarrow> \<not> prefix needle (drop j hay)"
proof (induction hay arbitrary: i j)
  case Nil
  then show ?case by (auto split: if_splits)
next
  case (Cons c cs)
  then show ?case by (cases j) (auto split: if_splits)
qed

lemma py_find_eqI:
  "i \<le> length hay \<Longrightarrow> prefix needle (drop i hay) \<Longrightarrow>
   (\<And>j. j < i \<Longrightarrow> \<not> prefix needle (drop j hay)) \<Longrightarrow> py_find needle hay = Some i"
proof (induction hay arbitrary: i)
  case Nil
  then show ?case by simp
next
  case (Cons c cs)
  show ?case
  proof (cases i)
    case 0
    with Cons.prems show ?thesis by simp
  next
    case (Suc k)
    have "\<not> prefix needle (c # cs)" using Cons.prems(3)[of 0] Suc by simp
    moreover have "py_find needle cs = Some k"
    proof (rule Cons.IH)
      show "k \<le> length cs" using Cons.prems(1) Suc by simp
      show "prefix needle (drop k cs)" using Cons.prems(2) Suc by simp
      fix j assume "j < k"
      then show "\<not> prefix needle (drop j cs)" using Cons.prems(3)[of "Suc j"] Suc by simp
    qed
    ultimately show ?thesis using Suc by simp
  qed
qed

lemma py_in_iff_sublist: "py_in needle hay \<longleftrightarrow> sublist needle hay"
proof
  assume "py_in needle hay"
  then obtain i where "py_find needle hay = Some i" by (auto simp: py_in_def)
  then have "prefix needle (drop i hay)" using py_find_Some by blast
  then obtain t where "drop i hay = needle @ t" by (auto simp: prefix_def)
  then have "hay = take i hay @ needle @ t" by (metis append_take_drop_id)
  then show "sublist needle hay" by (auto simp: sublist_def)
next
  assume "sublist needle hay"
  then show "py_in needle hay"
    by (induction hay) (auto simp: py_in_def sublist_Cons_right)
qed

subsection \<open>Decimal printing\<close>

fun digits_nat :: "nat \<Rightarrow> string" where
  "digits_nat n =
     (if n < 10 then [char_of (48 + n)] else digits_nat (n div 10) @ [char_of (48 + n mod 10)])"

declare digits_nat.simps [simp del]

definition str_nat :: "nat \<Rightarrow> string" where
  "str_nat n = digits_nat n"

definition str_int :: "int \<Rightarrow> string" where
  "str_int i = (if i < 0 then CHR ''-'' # digits_nat (nat (- i)) else digits_nat (nat i))"

fun digit_val :: "char \<Rightarrow> nat" where
  "digit_val c = (of_char c :: nat) - 48"

definition nat_of_digits :: "string \<Rightarrow> nat" where
  "nat_of_digits s = foldl (\<lambda>a c. 10 * a + digit_val c) 0 s"

lemma is_digit_char_of: "n < 10 \<Longrightarrow> is_digit (char_of (48 + n :: nat))"
  by (simp add: is_digit_def Let_def)

lemma digits_nat_all_digits: "\<forall>c\<in>set (digits_nat n). is_digit c"
proof (induction n rule: digits_nat.induct)
  case (1 n)
  then show ?case
    by (subst digits_nat.simps) (auto simp: is_digit_char_of)
qed

lemma digits_nat_not_Nil [simp]: "digits_nat n \<noteq> []"
  by (subst digits_nat.simps) simp

lemma nat_of_digits_digits_nat [simp]: "nat_of_digits (digits_nat n) = n"
proof (induction n rule: digits_nat.induct)
  case (1 n)
  show ?case
  proof (cases "n < 10")
    case True
    then show ?thesis by (subst digits_nat.simps) (simp add: nat_of_digits_def)
  next
    case False
    with 1 have "nat_of_digits (digits_nat (n div 10)) = n div 10" by simp
    with False show ?thesis
      by (subst digits_nat.simps) (simp add: nat_of_digits_def)
  qed
qed

lemma digits_nat_inj: "digits_nat a = digits_nat b \<Longrightarrow> a = b"
  by (metis nat_of_digits_digits_nat)

section \<open>JSON and YAML trees\<close>

datatype jval =
    JNull
  | JBool bool
  | JInt int
  | JStr string
  | JList "jval list"
  | JObj "(string \<times> jval) list"

text \<open>Python truthiness of such a value.\<close>

fun truthy :: "jval \<Rightarrow> bool" where
  "truthy JNull = False"
| "truthy (JBool b) = b"
| "truthy (JInt i) = (i \<noteq> 0)"
| "truthy (JStr s) = (s \<noteq> [])"
| "truthy (JList l) = (l \<noteq> [])"
| "truthy (JObj l) = (l \<noteq> [])"

fun jget :: "string \<Rightarrow> jval \<Rightarrow> jval option" where
  "jget k (JObj kvs) = map_of kvs k"
| "jget k _ = None"

text \<open>A string field of a mapping; absent, null and non-string values read as the empty string.\<close>

definition jstr :: "string \<Rightarrow> jval \<Rightarrow> string" where
  "jstr k v = (case jget k v of Some (JStr s) \<Rightarrow> s | _ \<Rightarrow> [])"

subsection \<open>str() and repr()\<close>

definition hex_digit :: "nat \<Rightarrow> char" where
  "hex_digit n = (if n < 10 then char_of (48 + n) else char_of (87 + n))"

definition repr_char :: "char \<Rightarrow> char \<Rightarrow> string" where
  "repr_char q c =
     (let n = (of_char c :: nat); bs = CHR 0x5C in
      if c = q \<or> c = bs then [bs, c]
      else if c = nl then [bs, CHR ''n''] else if c = cr then [bs, CHR ''r'']
      else if n = 9 then [bs, CHR ''t'']
      else if n < 32 \<or> (127 \<le> n \<and> n \<le> 160) \<or> n = 173
        then [bs, CHR ''x'', hex_digit (n div 16), hex_digit (n mod 16)]
      else [c])"

definition repr_str :: "string \<Rightarrow> string" where
  "repr_str s =
     (let q = (if CHR 0x27 \<in> set s \<and> CHR 0x22 \<notin> set s then CHR 0x22 else CHR 0x27)
      in q # concat (map (repr_char q) s) @ [q])"

fun py_repr :: "jval \<Rightarrow> string" where
  "py_repr JNull = ''None''"
| "py_repr (JBool b) = (if b then ''True'' else ''False'')"
| "py_repr (JInt i) = str_int i"
| "py_repr (JStr s) = repr_str s"
| "py_repr (JList l) = ''['' @ join '', '' (map py_repr l) @ '']''"
| "py_repr (JObj kvs) =
     ''{'' @ join '', '' (map (\<lambda>(k, v). repr_str k @ '': '' @ py_repr v) kvs) @ ''}''"

definition py_str :: "jval \<Rightarrow> string" where
  "py_str v = (case v of JStr s \<Rightarrow> s | _ \<Rightarrow> py_repr v)"

lemma py_str_simps [simp]:
  "py_str (JStr s) = s" "py_str JNull = ''None''" "py_str (JInt i) = str_int i"
  by (simp_all add: py_str_def)

text \<open>\<open>str(v or "")\<close>.\<close>

definition str_or_empty :: "jval \<Rightarrow> string" where
  "str_or_empty v = (if truthy v then py_str v else [])"

lemma str_or_empty_str [simp]: "str_or_empty (JStr s) = s"
  and str_or_empty_null [simp]: "str_or_empty JNull = []"
  by (simp_all add: str_or_empty_def)

text \<open>\<open>str(exc)\<close>.\<close>

fun exn_str :: "exn \<Rightarrow> string" where
  "exn_str (LifecycleError m) = m"
| "exn_str (ConflictError a b) = ''Invalid transition: '' @ a @ '' -> '' @ b"
| "exn_str (ValueError m) = m"
| "exn_str (YAMLError m) = m"
| "exn_str (FileNotFoundError m) = m"
| "exn_str (TypeError m) = m"
| "exn_str (AttributeError m) = m"
| "exn_str (KeyError m) = repr_str m"
| "exn_str (SqliteError m) = m"
| "exn_str (GitOperationError m) = m"
| "exn_str (ExecutorError m) = m"
| "exn_str (TamperError m) = m"
| "exn_str (RuntimeError m) = m"
| "exn_str (ConnectionError m) = m"
| "exn_str RecursionError = ''maximum recursion depth exceeded''"
| "exn_str (OtherError m) = m"

section \<open>Association lists as tables\<close>

text \<open>
  A table keyed by a string is an association list with distinct keys; \<open>AList.update\<close> keeps the
  position of an existing key, as a Python dict does.
\<close>

lemma map_of_update [simp]: "map_of (AList.update k v xs) = (map_of xs)(k \<mapsto> v)"
  by (rule update_conv')

lemma map_of_delete [simp]: "map_of (AList.delete k xs) = (map_of xs)(k := None)"
  by (rule delete_conv')

lemma distinct_keys_update [intro]:
  "distinct (map fst xs) \<Longrightarrow> distinct (map fst (AList.update k v xs))"
  by (rule distinct_update)

lemma fst_set_update: "fst ` set (AList.update k v xs) = insert k (fst ` set xs)"
  by (simp add: dom_map_of_conv_image_fst [symmetric])

lemma map_of_SomeD_fst: "map_of xs k = Some v \<Longrightarrow> k \<in> fst ` set xs"
  by (metis domI dom_map_of_conv_image_fst)

end
