(* ===== verification/Artifact_Models.thy ===== *)
theory Artifact_Models
  imports HP_Prelude
begin

text \<open>
  The data model of artifacts: \<^verbatim>\<open>artifacts/models.py\<close>.  Enumerations, the frontmatter
  record, the validators of identifiers, targets and host-provision specs, the normalised body
  hash, the extraction of fenced YAML blocks and the table of status transitions.

  SHA-256 and PyYAML's \<open>safe_load\<close> are arguments: \<open>digest\<close> maps a string to its hex digest and
  \<open>yaml\<close> maps a text to a tree or raises.  Frontmatter keys that the code reads with
  \<open>fm.get(k)\<close> are \<open>option\<close> fields; a key that is present with a null value reads as absent.
\<close>

section \<open>Enumerations\<close>

datatype artifact_kind =
    ANSIBLE_PLAYBOOK
  | PROXMOX_API_SEQUENCE
  | HTTP_SEQUENCE
  | COMPOSITE
  | SHELL_SCRIPT
  | HOST_PROVISION
  | GUEST_NETWORK
  | KB_NOTE

fun kind_value :: "artifact_kind \<Rightarrow> string" where
  "kind_value ANSIBLE_PLAYBOOK = ''ansible-playbook''"
| "kind_value PROXMOX_API_SEQUENCE = ''proxmox-api-sequence''"
| "kind_value HTTP_SEQUENCE = ''http-sequence''"
| "kind_value COMPOSITE = ''composite''"
| "kind_value SHELL_SCRIPT = ''shell-script''"
| "kind_value HOST_PROVISION = ''host-provision''"
| "kind_value GUEST_NETWORK = ''guest-network''"
| "kind_value KB_NOTE = ''kb-note''"

definition all_kinds :: "artifact_kind list" where
  "all_kinds = [ANSIBLE_PLAYBOOK, PROXMOX_API_SEQUENCE, HTTP_SEQUENCE, COMPOSITE, SHELL_SCRIPT,
                HOST_PROVISION, GUEST_NETWORK, KB_NOTE]"

text \<open>\<open>ArtifactKind(s)\<close>: the member with that value, or \<open>ValueError\<close>.\<close>

definition kind_of_value :: "string \<Rightarrow> artifact_kind option" where
  "kind_of_value s = find (\<lambda>k. kind_value k = s) all_kinds"

lemma kind_of_value_value [simp]: "kind_of_value (kind_value k) = Some k"
  by (cases k) (simp_all add: kind_of_value_def all_kinds_def)

lemma kind_of_value_Some: "kind_of_value s = Some k \<Longrightarrow> kind_value k = s"
  by (auto simp: kind_of_value_def find_Some_iff)

datatype artifact_status =
    PROPOSED | APPROVED | REJECTED | APPLIED | FAILED | SUPERSEDED | REVOKED

fun status_value :: "artifact_status \<Rightarrow> string" where
  "status_value PROPOSED = ''proposed''"
| "status_value APPROVED = ''approved''"
| "status_value REJECTED = ''rejected''"
| "status_value APPLIED = ''applied''"
| "status_value FAILED = ''failed''"
| "status_value SUPERSEDED = ''superseded''"
| "status_value REVOKED = ''revoked''"

lemma status_value_inj: "status_value a = status_value b \<Longrightarrow> a = b"
  by (cases a; cases b) simp_all

datatype idempotence = VIA_PRECHECK | DECLARED_NATURAL | REPLAY_ONLY

fun idempotence_value :: "idempotence \<Rightarrow> string" where
  "idempotence_value VIA_PRECHECK = ''via-precheck''"
| "idempotence_value DECLARED_NATURAL = ''declared-natural''"
| "idempotence_value REPLAY_ONLY = ''replay-only''"

definition idempotence_of_value :: "string \<Rightarrow> idempotence option" where
  "idempotence_of_value s =
     find (\<lambda>i. idempotence_value i = s) [VIA_PRECHECK, DECLARED_NATURAL, REPLAY_ONLY]"

datatype target_kind = VM | LXC | NODE | CLUSTER | SERVICE | NETWORK | GLOBAL

fun target_kind_value :: "target_kind \<Rightarrow> string" where
  "target_kind_value VM = ''vm''"
| "target_kind_value LXC = ''lxc''"
| "target_kind_value NODE = ''node''"
| "target_kind_value CLUSTER = ''cluster''"
| "target_kind_value SERVICE = ''service''"
| "target_kind_value NETWORK = ''network''"
| "target_kind_value GLOBAL = ''global''"

definition target_kind_of_value :: "string \<Rightarrow> target_kind option" where
  "target_kind_of_value s =
     find (\<lambda>k. target_kind_value k = s) [VM, LXC, NODE, CLUSTER, SERVICE, NETWORK, GLOBAL]"

section \<open>Targets\<close>

text \<open>
  A target travels as a plain mapping (\<open>dict[str, Any]\<close>); \<open>Target(**d)\<close> is used only to check it.
\<close>

type_synonym dict = "(string \<times> jval) list"

definition dget :: "string \<Rightarrow> dict \<Rightarrow> jval" where
  "dget k d = (case map_of d k of None \<Rightarrow> JNull | Some v \<Rightarrow> v)"

definition dget_str :: "string \<Rightarrow> dict \<Rightarrow> string" where
  "dget_str k d = (case map_of d k of Some (JStr s) \<Rightarrow> s | _ \<Rightarrow> [])"

record target =
  tgt_kind :: target_kind
  tgt_host :: "string option"
  tgt_vmid :: "int option"
  tgt_node :: "string option"
  tgt_service :: "string option"
  tgt_network :: "string option"

text \<open>Field coercion of the base model: \<open>str | None\<close> and \<open>int | None\<close> fields.\<close>

fun opt_str_field :: "jval \<Rightarrow> string option res" where
  "opt_str_field JNull = Inr None"
| "opt_str_field (JStr s) = Inr (Some s)"
| "opt_str_field _ = Inl (ValueError ''Input should be a valid string'')"

fun opt_int_field :: "jval \<Rightarrow> int option res" where
  "opt_int_field JNull = Inr None"
| "opt_int_field (JInt i) = Inr (Some i)"
| "opt_int_field (JBool b) = Inr (Some (if b then 1 else 0))"
| "opt_int_field (JStr s) =
     (if s \<noteq> [] \<and> list_all is_digit s then Inr (Some (int (nat_of_digits s)))
      else Inl (ValueError ''Input should be a valid integer''))"
| "opt_int_field _ = Inl (ValueError ''Input should be a valid integer'')"

definition validate_sub_fields :: "target \<Rightarrow> target res" where
  "validate_sub_fields t =
     (let k = tgt_kind t in
      if k \<in> {VM, LXC} \<and> tgt_vmid t = None
        then Inl (ValueError (''target.kind='' @ target_kind_value k @ '': vmid is required''))
      else if k \<in> {VM, LXC} \<and> tgt_node t = None
        then Inl (ValueError (''target.kind='' @ target_kind_value k @ '': node is required''))
      else if k = NODE \<and> tgt_node t = None
        then Inl (ValueError ''target.kind=node: node is required'')
      else if k = CLUSTER \<and> tgt_node t \<noteq> None
        then Inl (ValueError ''target.kind=cluster: node MUST NOT be set'')
      else if k = SERVICE \<and> tgt_service t = None
        then Inl (ValueError ''target.kind=service: service is required'')
      else if k = NETWORK \<and> tgt_network t = None
        then Inl (ValueError ''target.kind=network: network is required'')
      else Inr t)"

definition make_target :: "dict \<Rightarrow> target res" where
  "make_target d =
     (case dget ''kind'' d of
        JStr ks \<Rightarrow>
          (case target_kind_of_value ks of
             None \<Rightarrow> Inl (ValueError ''kind'')
           | Some k \<Rightarrow>
               bind_res (opt_str_field (dget ''host'' d)) (\<lambda>h.
               bind_res (opt_int_field (dget ''vmid'' d)) (\<lambda>v.
               bind_res (opt_str_field (dget ''node'' d)) (\<lambda>n.
               bind_res (opt_str_field (dget ''service'' d)) (\<lambda>s.
               bind_res (opt_str_field (dget ''network'' d)) (\<lambda>w.
                 validate_sub_fields
                   \<lparr>tgt_kind = k, tgt_host = h, tgt_vmid = v, tgt_node = n,
                    tgt_service = s, tgt_network = w\<rparr>))))))
      | _ \<Rightarrow> Inl (ValueError ''kind''))"

lemma validate_sub_fields_id: "validate_sub_fields t = Inr t' \<Longrightarrow> t' = t"
  by (auto simp: validate_sub_fields_def Let_def split: if_splits)

lemma validate_sub_fields_guest:
  "validate_sub_fields t = Inr t' \<Longrightarrow> tgt_kind t \<in> {VM, LXC} \<Longrightarrow>
   tgt_vmid t \<noteq> None \<and> tgt_node t \<noteq> None"
  by (auto simp: validate_sub_fields_def Let_def split: if_splits)

section \<open>Frontmatter\<close>

record producer =
  pb_session :: string
  pb_agent :: string
  pb_user :: string
  pb_at :: string

text \<open>\<open>approved_by\<close>, \<open>rejected_by\<close> and \<open>revoked_by\<close> have the same shape.\<close>

record signoff =
  so_user :: string
  so_at :: string
  so_role :: "string option"
  so_reason :: "string option"

record frontmatter =
  fm_id :: string
  fm_kind :: artifact_kind
  fm_intent :: string
  fm_status :: artifact_status
  fm_mutating :: bool
  fm_produced_by :: producer
  fm_hash :: string
  fm_target :: "dict option"
  fm_idempotence :: "string option"
  fm_approved_by :: "signoff option"
  fm_applied_at :: "string option"
  fm_failed_at :: "string option"
  fm_failure_reason :: "string option"
  fm_supersedes :: "string list option"
  fm_superseded_by :: "string option"
  fm_rejected_by :: "signoff option"
  fm_revoked_by :: "signoff option"
  fm_tags :: "string list option"
  fm_rollback :: "bool option"
  fm_replay_safe :: "bool option"
  fm_requires_snapshot :: "bool option"
  fm_note_kind :: "string option"
  fm_skip_if :: "string option"

definition validate_mutating_fields :: "frontmatter \<Rightarrow> frontmatter res" where
  "validate_mutating_fields fm =
     (if fm_mutating fm \<and> fm_target fm = None
        then Inl (ValueError ''mutating artifacts require a target'')
      else if fm_mutating fm \<and> fm_idempotence fm = None
        then Inl (ValueError ''mutating artifacts require idempotence'')
      else if \<not> fm_mutating fm \<and> fm_kind fm = KB_NOTE \<and> fm_idempotence fm \<noteq> None
        then Inl (ValueError ''kb-note must not have idempotence'')
      else Inr fm)"

section \<open>Identifiers\<close>

text \<open>
  The patterns are anchored with \<open>^...$\<close> and used with \<open>re.match\<close>.  In Python \<open>$\<close> also
  matches just before a newline that ends the string, which \<open>dollar\<close> writes out.
\<close>

definition dollar :: "(string \<Rightarrow> bool) \<Rightarrow> string \<Rightarrow> bool" where
  "dollar P s = (P s \<or> (s \<noteq> [] \<and> last s = nl \<and> P (butlast s)))"

definition slug_char :: "char \<Rightarrow> bool" where
  "slug_char c = (is_lower c \<or> is_digit c \<or> c = CHR ''-'')"

text \<open>\<open>[a-z0-9-]{1,60}(-[a-f0-9]{6})?\<close>, as a full match.\<close>

definition slug_rest :: "string \<Rightarrow> bool" where
  "slug_rest r =
     ((1 \<le> length r \<and> length r \<le> 60 \<and> list_all slug_char r)
      \<or> (8 \<le> length r \<and> length r \<le> 67
          \<and> list_all slug_char (take (length r - 7) r)
          \<and> r ! (length r - 7) = CHR ''-''
          \<and> list_all is_hex_lower (drop (length r - 6) r)))"

definition id_core :: "string \<Rightarrow> bool" where
  "id_core s =
     (11 < length s
      \<and> list_all is_digit (take 4 s) \<and> s ! 4 = CHR ''-''
      \<and> list_all is_digit (take 2 (drop 5 s)) \<and> s ! 7 = CHR ''-''
      \<and> list_all is_digit (take 2 (drop 8 s)) \<and> s ! 10 = CHR ''-''
      \<and> slug_rest (drop 11 s))"

definition validate_artifact_id :: "string \<Rightarrow> bool" where
  "validate_artifact_id s = dollar id_core s"

section \<open>The body hash\<close>

definition drop_trailing_empty :: "string list \<Rightarrow> string list" where
  "drop_trailing_empty ls = rev (dropWhile (\<lambda>l. l = []) (rev ls))"

definition normalize_body :: "string \<Rightarrow> string" where
  "normalize_body body =
     join [nl] (drop_trailing_empty (map py_rstrip (split_on nl body)) @ [[]])"

definition compute_body_hash :: "(string \<Rightarrow> string) \<Rightarrow> string \<Rightarrow> string" where
  "compute_body_hash digest body = ''sha256:'' @ digest (normalize_body body)"

section \<open>Fenced YAML blocks\<close>

text \<open>
  \<open>re.search("```yaml\\s+NAME\\s*\\n(.*?)```", body, re.DOTALL)\<close>: the first position where the
  opening fence matches and a closing fence follows.  \<open>\\s+\<close> consumes the whole run of blanks
  before the name; \<open>\\s*\\n\<close> backtracks to the last newline of the run after it.
\<close>

definition backticks :: string where
  "backticks = ''```''"

definition after_prefix :: "string \<Rightarrow> string \<Rightarrow> string option" where
  "after_prefix p s = (if prefix p s then Some (drop (length p) s) else None)"

text \<open>The rest after the last newline of the leading run of blanks; None if the run has none.\<close>

definition after_last_nl :: "string \<Rightarrow> string option" where
  "after_last_nl s =
     (let ws = takeWhile py_isspace s; tail = dropWhile (\<lambda>c. c \<noteq> nl) (rev ws)
      in if tail = [] then None else Some (drop (length tail) s))"

definition fence_here :: "string \<Rightarrow> string \<Rightarrow> string option" where
  "fence_here name s =
     (case after_prefix (backticks @ ''yaml'') s of
        None \<Rightarrow> None
      | Some r \<Rightarrow>
          (if r = [] \<or> \<not> py_isspace (hd r) then None
           else (case after_prefix name (py_lstrip r) of
                   None \<Rightarrow> None
                 | Some r2 \<Rightarrow>
                     (case after_last_nl r2 of
                        None \<Rightarrow> None
                      | Some r3 \<Rightarrow> map_option (\<lambda>i. take i r3) (py_find backticks r3)))))"

fun find_fence :: "string \<Rightarrow> string \<Rightarrow> string option" where
  "find_fence name [] = None"
| "find_fence name (c # cs) =
     (case fence_here name (c # cs) of
        Some block \<Rightarrow> Some block
      | None \<Rightarrow> find_fence name cs)"

definition extract_composite_steps :: "(string \<Rightarrow> jval res) \<Rightarrow> string \<Rightarrow> jval res" where
  "extract_composite_steps yaml body =
     (case find_fence ''composite-spec'' body of
        None \<Rightarrow> Inr (JList [])
      | Some content \<Rightarrow>
          bind_res (yaml (py_strip content)) (\<lambda>parsed.
            case parsed of
              JObj kvs \<Rightarrow>
                (case map_of kvs ''steps'' of
                   None \<Rightarrow> Inr (JList [])
                 | Some steps \<Rightarrow> Inr steps)
            | _ \<Rightarrow> Inr (JList [])))"

text \<open>\<open>for step in steps\<close>: what iterating the value yields, or the exception it raises.\<close>

fun iter_steps :: "jval \<Rightarrow> jval list res" where
  "iter_steps (JList l) = Inr l"
| "iter_steps (JObj []) = Inr []"
| "iter_steps (JStr []) = Inr []"
| "iter_steps (JObj _) = Inl (AttributeError ''str has no attribute get'')"
| "iter_steps (JStr _) = Inl (AttributeError ''str has no attribute get'')"
| "iter_steps _ = Inl (TypeError ''object is not iterable'')"

section \<open>Host-provision specs\<close>

datatype service_state = STARTED | STOPPED | RESTARTED | ENABLED | DISABLED

fun service_state_of_value :: "string \<Rightarrow> service_state option" where
  "service_state_of_value s =
     (if s = ''started'' then Some STARTED else if s = ''stopped'' then Some STOPPED
      else if s = ''restarted'' then Some RESTARTED else if s = ''enabled'' then Some ENABLED
      else if s = ''disabled'' then Some DISABLED else None)"

definition is_alnum :: "char \<Rightarrow> bool" where
  "is_alnum c = (is_lower c \<or> is_upper c \<or> is_digit c)"

definition package_name_re :: "string \<Rightarrow> bool" where
  "package_name_re = dollar (\<lambda>s. s \<noteq> [] \<and> is_alnum (hd s)
     \<and> list_all (\<lambda>c. is_alnum c \<or> c \<in> set ''+._-'') (tl s))"

definition service_name_re :: "string \<Rightarrow> bool" where
  "service_name_re = dollar (\<lambda>s. s \<noteq> [] \<and> (is_alnum (hd s) \<or> hd s = CHR ''@'')
     \<and> list_all (\<lambda>c. is_alnum c \<or> c \<in> set ''@._-'') (tl s))"

definition config_path_re :: "string \<Rightarrow> bool" where
  "config_path_re = dollar (\<lambda>s. 2 \<le> length s \<and> hd s = CHR ''/''
     \<and> list_all (\<lambda>c. is_alnum c \<or> c \<in> set ''_./-'') (tl s))"

definition file_mode_re :: "string \<Rightarrow> bool" where
  "file_mode_re = dollar (\<lambda>s. (length s = 3 \<or> length s = 4)
     \<and> list_all (\<lambda>c. c \<in> set ''01234567'') s)"

record hp_service =
  svc_name :: string
  svc_state :: service_state

record hp_config_file =
  cf_path :: string
  cf_content :: string
  cf_mode :: string

record hp_spec =
  hps_packages :: "string list"
  hps_services :: "hp_service list"
  hps_config_files :: "hp_config_file list"

definition parse_service :: "jval \<Rightarrow> hp_service res" where
  "parse_service v =
     (case (jget ''name'' v, jget ''state'' v) of
        (Some (JStr n), Some (JStr st)) \<Rightarrow>
          (if \<not> service_name_re n then Inl (ValueError (''invalid service name: '' @ n))
           else (case service_state_of_value st of
                   None \<Rightarrow> Inl (ValueError ''state'')
                 | Some s \<Rightarrow> Inr \<lparr>svc_name = n, svc_state = s\<rparr>))
      | _ \<Rightarrow> Inl (ValueError ''Field required''))"

definition validate_path :: "string \<Rightarrow> bool" where
  "validate_path p = (\<not> (py_in ''..'' p \<or> \<not> config_path_re p))"

definition parse_config_file :: "jval \<Rightarrow> hp_config_file res" where
  "parse_config_file v =
     (case (jget ''path'' v, jget ''content'' v) of
        (Some (JStr p), Some (JStr c)) \<Rightarrow>
          (case jget ''mode'' v of
             None \<Rightarrow>
               (if validate_path p then Inr \<lparr>cf_path = p, cf_content = c, cf_mode = ''0644''\<rparr>
                else Inl (ValueError (''invalid config_file path: '' @ p)))
           | Some (JStr m) \<Rightarrow>
               (if \<not> validate_path p then Inl (ValueError (''invalid config_file path: '' @ p))
                else if \<not> file_mode_re m then Inl (ValueError (''invalid config_file mode: '' @ m))
                else Inr \<lparr>cf_path = p, cf_content = c, cf_mode = m\<rparr>)
           | Some _ \<Rightarrow> Inl (ValueError ''Input should be a valid string''))
      | _ \<Rightarrow> Inl (ValueError ''Field required''))"

definition parse_package :: "jval \<Rightarrow> string res" where
  "parse_package v =
     (case v of
        JStr n \<Rightarrow> (if package_name_re n then Inr n
                   else Inl (ValueError (''invalid package name: '' @ n)))
      | _ \<Rightarrow> Inl (ValueError ''Input should be a valid string''))"

fun traverse :: "('a \<Rightarrow> 'b res) \<Rightarrow> 'a list \<Rightarrow> 'b list res" where
  "traverse f [] = Inr []"
| "traverse f (x # xs) = bind_res (f x) (\<lambda>y. bind_res (traverse f xs) (\<lambda>ys. Inr (y # ys)))"

definition list_field :: "(jval \<Rightarrow> 'b res) \<Rightarrow> jval option \<Rightarrow> 'b list res" where
  "list_field f v =
     (case v of
        None \<Rightarrow> Inr []
      | Some (JList l) \<Rightarrow> traverse f l
      | Some _ \<Rightarrow> Inl (ValueError ''Input should be a valid list''))"

definition model_validate_hp :: "jval \<Rightarrow> hp_spec res" where
  "model_validate_hp v =
     bind_res (list_field parse_package (jget ''packages'' v)) (\<lambda>ps.
     bind_res (list_field parse_service (jget ''services'' v)) (\<lambda>ss.
     bind_res (list_field parse_config_file (jget ''config_files'' v)) (\<lambda>cs.
       if ps = [] \<and> ss = [] \<and> cs = []
       then Inl (ValueError ''host-provision spec must declare at least one of packages / services / config_files'')
       else Inr \<lparr>hps_packages = ps, hps_services = ss, hps_config_files = cs\<rparr>)))"

definition parse_host_provision_spec :: "(string \<Rightarrow> jval res) \<Rightarrow> string \<Rightarrow> hp_spec res" where
  "parse_host_provision_spec yaml body =
     (case find_fence ''host-provision-spec'' body of
        None \<Rightarrow> Inl (ValueError ''missing ```yaml host-provision-spec``` block'')
      | Some content \<Rightarrow>
          (case yaml (py_strip content) of
             Inl (YAMLError m) \<Rightarrow> Inl (ValueError (''host-provision spec is not valid YAML: '' @ m))
           | Inl e \<Rightarrow> Inl e
           | Inr (JObj kvs) \<Rightarrow>
               (case model_validate_hp (JObj kvs) of
                  Inl (ValueError m) \<Rightarrow> Inl (ValueError (''invalid host-provision spec: '' @ m))
                | r \<Rightarrow> r)
           | Inr _ \<Rightarrow> Inl (ValueError ''host-provision spec must be a YAML mapping'')))"

section \<open>Status transitions\<close>

fun valid_transitions :: "artifact_status \<Rightarrow> artifact_status set" where
  "valid_transitions PROPOSED = {APPROVED, REJECTED, PROPOSED}"
| "valid_transitions APPROVED = {APPLIED, FAILED, REVOKED}"
| "valid_transitions FAILED = {APPROVED, REVOKED}"
| "valid_transitions APPLIED = {SUPERSEDED, REVOKED}"
| "valid_transitions REJECTED = {}"
| "valid_transitions SUPERSEDED = {}"
| "valid_transitions REVOKED = {}"

definition terminal_status :: "artifact_status \<Rightarrow> bool" where
  "terminal_status s = (s \<in> {REJECTED, SUPERSEDED, REVOKED})"

lemma terminal_no_transition: "terminal_status s \<longleftrightarrow> valid_transitions s = {}"
  by (cases s) (simp_all add: terminal_status_def)

section \<open>Facts about identifiers\<close>

lemma slug_char_safe: "slug_char c \<Longrightarrow> c \<noteq> CHR ''/'' \<and> c \<noteq> CHR ''.'' \<and> c \<noteq> nl"
  by (auto simp: slug_char_def is_lower_def is_digit_def Let_def)

lemma hex_is_slug: "is_hex_lower c \<Longrightarrow> slug_char c"
  by (auto simp: is_hex_lower_def slug_char_def is_lower_def Let_def)

lemma slug_rest_chars: "slug_rest r \<Longrightarrow> list_all slug_char r"
proof -
  assume r: "slug_rest r"
  show ?thesis
  proof (cases "list_all slug_char r")
    case False
    with r have len: "8 \<le> length r" and a: "list_all slug_char (take (length r - 7) r)"
      and d: "r ! (length r - 7) = CHR ''-''" and h: "list_all is_hex_lower (drop (length r - 6) r)"
      by (auto simp: slug_rest_def)
    have suc: "Suc (length r - 7) = length r - 6" using len by simp
    have "drop (length r - 7) r = r ! (length r - 7) # drop (length r - 6) r"
      unfolding suc [symmetric] by (rule Cons_nth_drop_Suc [symmetric]) (use len in simp)
    moreover have "r = take (length r - 7) r @ drop (length r - 7) r" by simp
    ultimately have eq: "r = take (length r - 7) r @ CHR ''-'' # drop (length r - 6) r"
      using d by metis
    have "list_all slug_char (take (length r - 7) r @ CHR ''-'' # drop (length r - 6) r)"
      using a h slug_char_def [of "CHR ''-''"] by (auto simp: list_all_iff hex_is_slug)
    with eq show ?thesis by metis
  qed simp
qed

lemma id_split:
  assumes len: "11 < length (s :: string)"
  shows "s = take 4 s @ [s ! 4] @ take 2 (drop 5 s) @ [s ! 7] @ take 2 (drop 8 s) @ [s ! 10]
             @ drop 11 s"
proof -
  have "\<exists>a b c d e f g h i j k r. s = a # b # c # d # e # f # g # h # i # j # k # r"
    using len by (auto simp: Suc_le_length_iff numeral_eq_Suc less_eq_Suc_le)
  then show ?thesis by (auto simp: numeral_eq_Suc)
qed

lemma id_core_chars: "id_core s \<Longrightarrow> list_all slug_char s"
proof -
  assume s: "id_core s"
  then have len: "11 < length s" by (simp add: id_core_def)
  have digit: "list_all is_digit xs \<Longrightarrow> list_all slug_char xs" for xs
    by (auto simp: list_all_iff slug_char_def)
  have dash: "slug_char (CHR ''-'')" by (simp add: slug_char_def)
  have "list_all slug_char
      (take 4 s @ [s ! 4] @ take 2 (drop 5 s) @ [s ! 7] @ take 2 (drop 8 s) @ [s ! 10] @ drop 11 s)"
    using s digit dash slug_rest_chars by (simp add: id_core_def)
  with id_split [OF len] show ?thesis by metis
qed

lemma id_core_safe: "id_core s \<Longrightarrow> CHR ''/'' \<notin> set s \<and> CHR ''.'' \<notin> set s \<and> nl \<notin> set s"
  using id_core_chars slug_char_safe by (fastforce simp: list_all_iff)

section \<open>Facts about the body hash\<close>

lemma drop_trailing_empty_idem [simp]:
  "drop_trailing_empty (drop_trailing_empty ls) = drop_trailing_empty ls"
  by (simp add: drop_trailing_empty_def)

lemma drop_trailing_empty_snoc_Nil [simp]:
  "drop_trailing_empty (ls @ [[]]) = drop_trailing_empty ls"
  by (simp add: drop_trailing_empty_def)

lemma set_drop_trailing_empty: "set (drop_trailing_empty ls) \<subseteq> set ls"
  by (auto simp: drop_trailing_empty_def dest: set_dropWhileD)

lemma map_py_rstrip_normal:
  "\<forall>l\<in>set ls. py_rstrip l = l \<Longrightarrow> map py_rstrip ls = ls"
  by (induction ls) auto

lemma split_normalize_body:
  "split_on nl (normalize_body body) =
     drop_trailing_empty (map py_rstrip (split_on nl body)) @ [[]]"
  unfolding normalize_body_def
proof (rule split_on_join)
  show "\<forall>w\<in>set (drop_trailing_empty (map py_rstrip (split_on nl body)) @ [[]]). nl \<notin> set w"
  proof
    fix w assume "w \<in> set (drop_trailing_empty (map py_rstrip (split_on nl body)) @ [[]])"
    then consider "w = []" | v where "v \<in> set (split_on nl body)" "w = py_rstrip v"
      using set_drop_trailing_empty by fastforce
    then show "nl \<notin> set w"
      using split_on_pieces set_py_rstrip by cases (simp, blast)
  qed
qed simp

lemma normalize_body_idem [simp]: "normalize_body (normalize_body body) = normalize_body body"
proof -
  have "map py_rstrip (drop_trailing_empty (map py_rstrip (split_on nl body)))
        = drop_trailing_empty (map py_rstrip (split_on nl body))"
    by (rule map_py_rstrip_normal) (use set_drop_trailing_empty in fastforce)
  then show ?thesis
    by (simp add: normalize_body_def [of "normalize_body body"] split_normalize_body)
       (simp add: normalize_body_def)
qed

text \<open>Trailing blanks on a line and trailing blank lines do not matter.\<close>

lemma normalize_body_trailing_newlines:
  "normalize_body (body @ replicate n nl) = normalize_body body"
proof -
  have "split_on nl (body @ replicate n nl) = split_on nl body @ replicate n []"
  proof (induction body)
    case Nil
    then show ?case by (induction n) auto
  next
    case (Cons c cs)
    then show ?case by (cases "split_on nl cs") auto
  qed
  moreover have "drop_trailing_empty (ls @ replicate n []) = drop_trailing_empty ls" for ls
    by (simp add: drop_trailing_empty_def, subst dropWhile_append2) auto
  ultimately show ?thesis by (simp add: normalize_body_def)
qed

end
