(* ===== verification/Artifact_Store.thy ===== *)
theory Artifact_Store
  imports Artifact_Models
begin

text \<open>
  The artifact store: \<^verbatim>\<open>artifacts/store.py\<close> and \<^verbatim>\<open>artifacts/file_store.py\<close>.

  The first part is the store as it is on disk: a table from resolved paths to file texts, the
  path derived from an identifier, the text format and its parser.  The second part is the store
  the lifecycle code sees, a table from identifiers to a frontmatter and a body.  The refinement
  between the two is \<open>read_after_write\<close>: what comes back from disk is the frontmatter that was
  written and \<open>stored_body\<close> of the body that was written.  The contract that the lifecycle
  relies on is the locale \<open>doc_store\<close>.

  PyYAML is an argument (\<open>dump\<close>, \<open>load\<close>); what the code relies on is \<open>yaml_faithful\<close>.
  Running git is not modelled beyond its outcome: \<open>git_ok\<close> says whether \<open>git add\<close> under the
  repository lock succeeded, and a failure is raised after the file was written.
\<close>

section \<open>Classifying git errors\<close>

datatype git_category = TIMEOUT | LOCK_CONTENTION | AUTH | NETWORK_DOWN | CORRUPT | UNKNOWN

text \<open>
  A pattern is a list of literal pieces joined by \<open>.*\<close>.  The dot does not cross a newline, so a
  search succeeds when some line contains the pieces in order; case is ignored.
\<close>

fun pieces_in_order :: "string list \<Rightarrow> string \<Rightarrow> bool" where
  "pieces_in_order [] s = True"
| "pieces_in_order (p # ps) s =
     (case py_find p s of
        None \<Rightarrow> False
      | Some i \<Rightarrow> pieces_in_order ps (drop (i + length p) s))"

definition pat_search :: "string list \<Rightarrow> string \<Rightarrow> bool" where
  "pat_search pat s =
     list_ex (\<lambda>line. pieces_in_order (map py_lower pat) (py_lower line)) (split_on nl s)"

definition lock_patterns :: "string list list" where
  "lock_patterns =
     [[''another git process seems to be running''],
      [''lock file'', ''already exists''],
      [''Unable to create'', ''.lock''],
      [''fatal: Unable to create'', ''.lock'']]"

definition auth_patterns :: "string list list" where
  "auth_patterns =
     [[''permission denied (publickey''],
      [''load key '', '': Permission denied''],
      [''authentication failed''],
      [''correct access rights''],
      [''host key verification failed'']]"

definition network_patterns :: "string list list" where
  "network_patterns =
     [[''fatal: could not read from remote''],
      [''fatal: the remote end hung up''],
      [''fatal: unable to access''],
      [''fatal: Connection timed out''],
      [''fatal: Could not resolve host''],
      [''fatal: early EOF'']]"

definition corrupt_patterns :: "string list list" where
  "corrupt_patterns =
     [[''fatal: bad object''],
      [''fatal: corrupt''],
      [''fatal: object directory''],
      [''error: object file'', ''is empty'']]"

definition classify_stderr :: "string \<Rightarrow> git_category" where
  "classify_stderr stderr =
     (if list_ex (\<lambda>p. pat_search p stderr) lock_patterns then LOCK_CONTENTION
      else if list_ex (\<lambda>p. pat_search p stderr) auth_patterns then AUTH
      else if list_ex (\<lambda>p. pat_search p stderr) network_patterns then NETWORK_DOWN
      else if list_ex (\<lambda>p. pat_search p stderr) corrupt_patterns then CORRUPT
      else UNKNOWN)"

section \<open>Paths\<close>

type_synonym path = "string list"

definition id_prefix :: "string \<Rightarrow> bool" where
  "id_prefix s =
     (8 \<le> length s
      \<and> list_all is_digit (take 4 s) \<and> s ! 4 = CHR ''-''
      \<and> list_all is_digit (take 2 (drop 5 s)) \<and> s ! 7 = CHR ''-'')"

text \<open>\<open>Path.resolve\<close> on components, for a tree without symbolic links.\<close>

fun push_component :: "path \<Rightarrow> string \<Rightarrow> path" where
  "push_component p c =
     (if c = [] \<or> c = ''.'' then p
      else if c = ''..'' then butlast p
      else p @ [c])"

definition resolve_components :: "path \<Rightarrow> string list \<Rightarrow> path" where
  "resolve_components root cs = foldl push_component root cs"

definition resolve_path :: "path \<Rightarrow> string \<Rightarrow> path res" where
  "resolve_path root i =
     (if \<not> id_prefix i then Inl (ValueError (''Invalid artifact ID: '' @ i))
      else
        let year = take 4 i; month = take 2 (drop 5 i);
            resolved = resolve_components root ([year, month] @ split_on (CHR ''/'') (i @ ''.md''))
        in if prefix root resolved then Inr resolved
           else Inl (ValueError (''Artifact ID escapes store root: '' @ i)))"

text \<open>\<open>relative_path\<close>: what the database mirror records as \<open>file_path\<close>.\<close>

definition relative_path :: "path \<Rightarrow> string \<Rightarrow> string res" where
  "relative_path root i =
     bind_res (resolve_path root i) (\<lambda>p. Inr (join ''/'' (drop (length root) p)))"

section \<open>The text format\<close>

definition compose_file :: "string \<Rightarrow> string \<Rightarrow> string" where
  "compose_file yml body = ''---'' @ [nl] @ yml @ ''---'' @ [nl, nl] @ body"

definition extract_body :: "string \<Rightarrow> nat \<Rightarrow> string" where
  "extract_body text e = lstrip_nl (drop (e + 4) text)"

definition closing_fence :: string where
  "closing_fence = nl # ''---''"

definition parse_text :: "(string \<Rightarrow> 'fm res) \<Rightarrow> string \<Rightarrow> ('fm \<times> string) res" where
  "parse_text load text =
     (if \<not> prefix ''---'' text then Inl (ValueError ''missing frontmatter delimiter'')
      else (case py_find closing_fence (drop 3 text) of
              None \<Rightarrow> Inl (ValueError ''missing closing frontmatter delimiter'')
            | Some e \<Rightarrow>
                bind_res (load (take e (drop 3 text))) (\<lambda>fm.
                  Inr (fm, extract_body text (e + 3)))))"

text \<open>Reading a text file translates \<open>\r\n\<close> and a lone \<open>\r\<close> to \<open>\n\<close>; writing does not translate.\<close>

fun universal_newlines :: "string \<Rightarrow> string" where
  "universal_newlines [] = []"
| "universal_newlines (c # cs) =
     (if c = cr then
        (case cs of
           [] \<Rightarrow> [nl]
         | d # ds \<Rightarrow> (if d = nl then nl # universal_newlines ds else nl # universal_newlines cs))
      else c # universal_newlines cs)"

type_synonym disk = "(path \<times> string) list"

definition disk_write :: "path \<Rightarrow> disk \<Rightarrow> string \<Rightarrow> string \<Rightarrow> string \<Rightarrow> disk res" where
  "disk_write root d i yml body =
     bind_res (resolve_path root i) (\<lambda>p. Inr (AList.update p (compose_file yml body) d))"

definition disk_read :: "(string \<Rightarrow> 'fm res) \<Rightarrow> path \<Rightarrow> disk \<Rightarrow> string \<Rightarrow> ('fm \<times> string) res" where
  "disk_read load root d i =
     bind_res (resolve_path root i) (\<lambda>p.
       case map_of d p of
         None \<Rightarrow> Inl (FileNotFoundError (''Artifact not found: '' @ i))
       | Some text \<Rightarrow> parse_text load (universal_newlines text))"

definition disk_exists :: "path \<Rightarrow> disk \<Rightarrow> string \<Rightarrow> bool" where
  "disk_exists root d i =
     (case resolve_path root i of Inl _ \<Rightarrow> False | Inr p \<Rightarrow> map_of d p \<noteq> None)"

text \<open>
  \<open>list\<close>: the files \<open>YYYY/MM/*.md\<close> in sorted order, parsed, with unreadable files skipped, and
  filtered.  \<open>texts\<close> gives the searchable fields as text (\<open>str(fm[field])\<close> for the fields that
  are present).
\<close>

definition listed_path :: "path \<Rightarrow> path \<Rightarrow> bool" where
  "listed_path root p =
     (case drop (length root) p of
        [y, m, f] \<Rightarrow> prefix root p
          \<and> dollar (\<lambda>s. length s = 4 \<and> list_all is_digit s) y
          \<and> dollar (\<lambda>s. length s = 2 \<and> list_all is_digit s) m
          \<and> suffix ''.md'' f
      | _ \<Rightarrow> False)"

definition artifact_matches :: "(frontmatter \<Rightarrow> string list) \<Rightarrow> frontmatter \<Rightarrow> string \<Rightarrow> bool" where
  "artifact_matches texts fm needle =
     list_ex (\<lambda>v. py_in needle (py_lower v)) (texts fm)"

definition disk_list ::
  "(string \<Rightarrow> frontmatter res) \<Rightarrow> (frontmatter \<Rightarrow> string list) \<Rightarrow> path \<Rightarrow> disk
   \<Rightarrow> artifact_status option \<Rightarrow> artifact_kind option \<Rightarrow> string option \<Rightarrow> frontmatter list" where
  "disk_list load texts root d status kind q =
     (let needle = (case q of None \<Rightarrow> [] | Some s \<Rightarrow> py_lower (py_strip s));
          files = sort_key fst (filter (\<lambda>(p, _). listed_path root p) d);
          parsed = List.map_filter (\<lambda>(_, text).
                     case parse_text load (universal_newlines text) of
                       Inr (fm, _) \<Rightarrow> Some fm | Inl _ \<Rightarrow> None) files
      in filter (\<lambda>fm. (case status of None \<Rightarrow> True | Some s \<Rightarrow> fm_status fm = s)
                    \<and> (case kind of None \<Rightarrow> True | Some k \<Rightarrow> fm_kind fm = k)
                    \<and> (needle = [] \<or> artifact_matches texts fm needle)) parsed)"

section \<open>The store as the lifecycle sees it\<close>

text \<open>What a body becomes when it is written and read back.\<close>

definition stored_body :: "string \<Rightarrow> string" where
  "stored_body body = lstrip_nl (universal_newlines body)"

type_synonym doc = "frontmatter \<times> string"
type_synonym files = "(string \<times> doc) list"

definition store_read :: "files \<Rightarrow> string \<Rightarrow> doc res" where
  "store_read fs i =
     (if \<not> id_prefix i then Inl (ValueError (''Invalid artifact ID: '' @ i))
      else (case map_of fs i of
              None \<Rightarrow> Inl (FileNotFoundError (''Artifact not found: '' @ i))
            | Some d \<Rightarrow> Inr d))"

definition store_write :: "files \<Rightarrow> string \<Rightarrow> frontmatter \<Rightarrow> string \<Rightarrow> files" where
  "store_write fs i fm body = AList.update i (fm, stored_body body) fs"

definition store_exists :: "files \<Rightarrow> string \<Rightarrow> bool" where
  "store_exists fs i = (id_prefix i \<and> map_of fs i \<noteq> None)"

definition store_list ::
  "files \<Rightarrow> artifact_status option \<Rightarrow> artifact_kind option \<Rightarrow> frontmatter list" where
  "store_list fs status kind =
     filter (\<lambda>fm. (case status of None \<Rightarrow> True | Some s \<Rightarrow> fm_status fm = s)
                \<and> (case kind of None \<Rightarrow> True | Some k \<Rightarrow> fm_kind fm = k))
       (map (\<lambda>(_, fm, _). fm) (sort_key fst fs))"

section \<open>Newline translation\<close>

lemma universal_newlines_no_cr: "cr \<notin> set (universal_newlines s)"
  by (induction s rule: universal_newlines.induct) (auto split: list.splits)

lemma universal_newlines_id: "cr \<notin> set s \<Longrightarrow> universal_newlines s = s"
  by (induction s rule: universal_newlines.induct) (auto split: list.splits)

lemma universal_newlines_idem [simp]:
  "universal_newlines (universal_newlines s) = universal_newlines s"
  by (simp add: universal_newlines_id universal_newlines_no_cr)

lemma universal_newlines_append:
  "cr \<notin> set a \<Longrightarrow> universal_newlines (a @ b) = a @ universal_newlines b"
  by (induction a) auto

lemma stored_body_idem [simp]: "stored_body (stored_body b) = stored_body b"
proof -
  have "cr \<notin> set (lstrip_nl (universal_newlines b))"
    using set_lstrip_nl universal_newlines_no_cr by blast
  then show ?thesis by (simp add: stored_body_def universal_newlines_id)
qed

lemma stored_body_id: "cr \<notin> set b \<Longrightarrow> b = [] \<or> hd b \<noteq> nl \<Longrightarrow> stored_body b = b"
  by (simp add: stored_body_def universal_newlines_id lstrip_nl_id)

section \<open>The contract of the store\<close>

locale doc_store =
  fixes rd :: "'s \<Rightarrow> string \<Rightarrow> ('fm \<times> string) res"
    and wr :: "'s \<Rightarrow> string \<Rightarrow> 'fm \<Rightarrow> string \<Rightarrow> 's"
    and ok_id :: "string \<Rightarrow> bool"
    and view :: "string \<Rightarrow> string"
  assumes read_write_same: "ok_id i \<Longrightarrow> rd (wr s i fm b) i = Inr (fm, view b)"
    and read_write_other: "i \<noteq> j \<Longrightarrow> rd (wr s i fm b) j = rd s j"
    and view_idem: "view (view b) = view b"
begin

definition updates :: "(string \<times> 'fm \<times> string) list \<Rightarrow> 's \<Rightarrow> 's" where
  "updates us s = fold (\<lambda>(i, fm, b) st. wr st i fm b) us s"

lemma updates_Nil [simp]: "updates [] s = s"
  by (simp add: updates_def)

lemma updates_Cons [simp]: "updates ((i, fm, b) # us) s = updates us (wr s i fm b)"
  by (simp add: updates_def)

lemma read_updates_other: "j \<notin> fst ` set us \<Longrightarrow> rd (updates us s) j = rd s j"
  by (induction us arbitrary: s) (auto simp: read_write_other)

text \<open>The last write to an identifier decides what is read.\<close>

lemma read_updates_last:
  "ok_id i \<Longrightarrow> i \<notin> fst ` set vs \<Longrightarrow> rd (updates (us @ (i, fm, b) # vs) s) i = Inr (fm, view b)"
  by (induction us arbitrary: s) (auto simp: read_updates_other read_write_same)

text \<open>Rewriting the frontmatter over a body that was read keeps the body.\<close>

lemma rewrite_keeps_body:
  "ok_id i \<Longrightarrow> b = view b0 \<Longrightarrow> rd (wr s i fm b) i = Inr (fm, b)"
  by (simp add: read_write_same view_idem)

end

interpretation store: doc_store store_read store_write id_prefix stored_body
  by unfold_locales (auto simp: store_read_def store_write_def)

lemma store_read_same [simp]: "id_prefix i \<Longrightarrow> store_read (store_write fs i fm b) i = Inr (fm, stored_body b)"
  by (rule store.read_write_same)

lemma store_read_other [simp]: "i \<noteq> j \<Longrightarrow> store_read (store_write fs i fm b) j = store_read fs j"
  by (rule store.read_write_other)

lemma store_read_Inr: "store_read fs i = Inr d \<longleftrightarrow> id_prefix i \<and> map_of fs i = Some d"
  by (auto simp: store_read_def split: option.splits)

lemma map_of_store_write [simp]:
  "map_of (store_write fs i fm b) = (map_of fs)(i \<mapsto> (fm, stored_body b))"
  by (simp add: store_write_def)

lemma distinct_store_write:
  "distinct (map fst fs) \<Longrightarrow> distinct (map fst (store_write fs i fm b))"
  by (auto simp: store_write_def)

lemma set_store_list:
  "set (store_list fs status kind) =
     {fm. (\<exists>i b. (i, fm, b) \<in> set fs)
        \<and> (\<forall>s. status = Some s \<longrightarrow> fm_status fm = s) \<and> (\<forall>k. kind = Some k \<longrightarrow> fm_kind fm = k)}"
  by (force simp: store_list_def split: option.splits)

section \<open>Paths stay inside the store\<close>

lemma id_core_prefix: "id_core s \<Longrightarrow> id_prefix s"
  by (auto simp: id_core_def id_prefix_def)

lemma resolve_path_inside: "resolve_path root i = Inr p \<Longrightarrow> prefix root p"
  by (auto simp: resolve_path_def Let_def split: if_splits)

lemma digits_not_dots: "list_all is_digit s \<Longrightarrow> s \<noteq> [] \<Longrightarrow> s \<noteq> ''.'' \<and> s \<noteq> ''..''"
  by (auto simp: is_digit_def Let_def)

lemma resolve_path_well_formed:
  assumes "id_core i"
  shows "resolve_path root i = Inr (root @ [take 4 i, take 2 (drop 5 i), i @ ''.md''])"
proof -
  have len: "11 < length i" and y: "list_all is_digit (take 4 i)"
    and m: "list_all is_digit (take 2 (drop 5 i))"
    using assms by (auto simp: id_core_def)
  have "CHR ''/'' \<notin> set (i @ ''.md'')" using id_core_safe [OF assms] by simp
  then have sp: "split_on (CHR ''/'') (i @ ''.md'') = [i @ ''.md'']" by (rule split_on_no_sep)
  have yn: "take 4 i \<noteq> []" and mn: "take 2 (drop 5 i) \<noteq> []" using len by auto
  have i: "i @ ''.md'' \<noteq> ''..''" using len by (auto simp: append_eq_Cons_conv)
  show ?thesis
    using digits_not_dots [OF y yn] digits_not_dots [OF m mn] yn mn i id_core_prefix [OF assms]
    by (simp add: resolve_path_def resolve_components_def sp Let_def)
qed

section \<open>The disk format round trip\<close>

text \<open>
  What the code relies on of PyYAML for one frontmatter: the dump is a block of lines, its lines
  are not \<open>---\<close> markers, it has no carriage return, and loading it gives the value back (a
  leading newline is not significant).
\<close>

definition yaml_faithful :: "('fm \<Rightarrow> string) \<Rightarrow> (string \<Rightarrow> 'fm res) \<Rightarrow> 'fm \<Rightarrow> bool" where
  "yaml_faithful dump load fm =
     (let y = butlast (dump fm) in
        dump fm = y @ [nl] \<and> cr \<notin> set y \<and> \<not> py_in closing_fence (nl # y)
        \<and> load (nl # y) = Inr fm)"

lemma fence_overlap:
  "a \<noteq> [] \<Longrightarrow> prefix closing_fence (a @ closing_fence @ r) \<Longrightarrow> prefix closing_fence a"
  by (cases a; cases "tl a"; cases "tl (tl a)"; cases "tl (tl (tl a))")
     (auto simp: closing_fence_def)

lemma closing_fence_first:
  assumes "\<not> py_in closing_fence (nl # y)"
  shows "py_find closing_fence (nl # y @ closing_fence @ r) = Some (Suc (length y))"
proof (rule py_find_eqI)
  show "prefix closing_fence (drop (Suc (length y)) (nl # y @ closing_fence @ r))"
    by (simp add: closing_fence_def)
  fix j assume j: "j < Suc (length y)"
  show "\<not> prefix closing_fence (drop j (nl # y @ closing_fence @ r))"
  proof
    assume p: "prefix closing_fence (drop j (nl # y @ closing_fence @ r))"
    let ?a = "drop j (nl # y)"
    have d: "drop j (nl # y @ closing_fence @ r) = ?a @ closing_fence @ r"
      using j by (simp add: drop_Cons' split: if_splits)
    have ne: "?a \<noteq> []" using j by simp
    from p d have pr: "prefix closing_fence (?a @ closing_fence @ r)" by simp
    have "prefix closing_fence ?a" by (rule fence_overlap [OF ne pr])
    then have "sublist closing_fence (nl # y)"
      by (metis append_take_drop_id prefix_def sublist_appendI append.assoc)
    with assms show False by (simp add: py_in_iff_sublist)
  qed
qed simp

lemma parse_compose:
  assumes "yaml_faithful dump load fm"
  shows "parse_text load (universal_newlines (compose_file (dump fm) body)) =
           Inr (fm, stored_body body)"
proof -
  obtain y where y: "dump fm = y @ [nl]" "cr \<notin> set y" "\<not> py_in closing_fence (nl # y)"
      "load (nl # y) = Inr fm"
    using assms by (auto simp: yaml_faithful_def Let_def)
  have "compose_file (dump fm) body = (''---'' @ nl # y @ closing_fence @ [nl, nl]) @ body"
    by (simp add: compose_file_def y closing_fence_def)
  moreover have "cr \<notin> set (''---'' @ nl # y @ closing_fence @ [nl, nl])"
    using y by (simp add: closing_fence_def)
  ultimately have composed: "universal_newlines (compose_file (dump fm) body) =
      ''---'' @ nl # y @ closing_fence @ [nl, nl] @ universal_newlines body"
    by (metis universal_newlines_append append.assoc append_Cons)
  have f: "py_find closing_fence (nl # y @ closing_fence @ [nl, nl] @ universal_newlines body)
      = Some (Suc (length y))"
    by (rule closing_fence_first [OF y(3)])
  have d: "drop (Suc (length y) + 3 + 4) (''---'' @ nl # y @ closing_fence @ [nl, nl]
      @ universal_newlines body) = [nl, nl] @ universal_newlines body"
    by (simp add: closing_fence_def numeral_eq_Suc)
  have l: "lstrip_nl (nl # nl # universal_newlines body) = lstrip_nl (universal_newlines body)"
    by (simp add: lstrip_nl_def)
  show ?thesis
    unfolding composed parse_text_def extract_body_def stored_body_def
    using f y(4) l d by (simp add: numeral_eq_Suc del: py_find.simps)
qed

section \<open>Properties\<close>

text \<open>
  round trip through the disk.  Reading an artifact just written gives back its frontmatter
  and the body as \<open>stored_body\<close> leaves it (newlines translated, leading newlines stripped); every
  other well-formed artifact reads as before.
\<close>

theorem read_after_write:
  assumes "id_core i" and "yaml_faithful dump load fm"
    and "disk_write base d i (dump fm) body = Inr d'"
  shows "disk_read load base d' i = Inr (fm, stored_body body)
         \<and> (\<forall>j. id_core j \<and> j \<noteq> i \<longrightarrow> disk_read load base d' j = disk_read load base d j)"
proof -
  have d': "d' = AList.update (base @ [take 4 i, take 2 (drop 5 i), i @ ''.md''])
                (compose_file (dump fm) body) d"
    using assms by (simp add: disk_write_def resolve_path_well_formed)
  show ?thesis
    using assms by (auto simp: d' disk_read_def resolve_path_well_formed parse_compose)
qed

theorem read_after_write_witness:
  "\<exists>d'. disk_write [''base''] [] ''2026-01-02-leaf'' [CHR ''k'', nl] ''echo'' = Inr d'
     \<and> disk_read (\<lambda>y. Inr y) [''base''] d' ''2026-01-02-leaf'' = Inr ([nl, CHR ''k''], ''echo'')"
proof -
  have c: "id_core ''2026-01-02-leaf''" by code_simp
  have y: "yaml_faithful (\<lambda>_. [CHR ''k'', nl]) (\<lambda>y. Inr y) [nl, CHR ''k'']" by code_simp
  have b: "stored_body ''echo'' = ''echo''" by code_simp
  obtain d' where w: "disk_write [''base''] [] ''2026-01-02-leaf'' [CHR ''k'', nl] ''echo'' = Inr d'"
    using c by (auto simp: disk_write_def resolve_path_well_formed)
  then show ?thesis using read_after_write [OF c y, of "[''base'']" "[]" "''echo''" d'] b by simp
qed

text \<open>
  path containment.  Whatever string is presented as an identifier, the file the store opens
  lies below its base directory; a well-formed identifier names exactly \<open>YYYY/MM/<id>.md\<close>, so
  distinct well-formed identifiers never share a file.
\<close>

theorem resolve_path_contained:
  shows "(\<forall>p. resolve_path base i = Inr p \<longrightarrow> (\<exists>rest. p = base @ rest))
         \<and> (id_core i \<longrightarrow> relative_path base i =
              Inr (take 4 i @ ''/'' @ take 2 (drop 5 i) @ ''/'' @ i @ ''.md''))
         \<and> (id_core i \<and> id_core j \<and> resolve_path base i = resolve_path base j \<longrightarrow> i = j)"
  using resolve_path_inside by (auto simp: prefix_def relative_path_def resolve_path_well_formed)

theorem resolve_path_contained_witness:
  "relative_path [''base''] ''2026-01-02-leaf'' = Inr ''2026/01/2026-01-02-leaf.md''"
proof -
  have "id_core ''2026-01-02-leaf''" by code_simp
  then show ?thesis using resolve_path_contained [of "[''base'']" "''2026-01-02-leaf''"] by simp
qed

text \<open>
  Classification order.  A publickey refusal is an authentication error even though ssh prints
  the generic remote-read failure after it, unless git reported lock contention.
\<close>

lemma classify_auth_before_network:
  assumes "pat_search [''permission denied (publickey''] stderr"
    and "\<not> list_ex (\<lambda>p. pat_search p stderr) lock_patterns"
  shows "classify_stderr stderr = AUTH"
  using assms by (simp add: classify_stderr_def auth_patterns_def)

end
