(* ===== verification/Skip_If.thy ===== *)
theory Skip_If
  imports HP_Prelude
begin

text \<open>
  The precheck evaluator: \<^verbatim>\<open>executor/skip_if.py\<close>.  An artifact step may carry a
  \<open>skip_if\<close> expression; it is parsed by \<open>ast.parse\<close> (an argument of the model, since it is
  CPython's own parser), checked statically when the artifact is proposed
  (\<open>validate_skip_if_expression\<close>) and evaluated against the precheck response when it is applied
  (\<open>safe_eval_skip_if\<close>).  The value \<open>False\<close> runs the mutating step, so the point of the module is
  that an expression that cannot be decided never evaluates to \<open>False\<close>.

  Values are those an expression can reach: the literals, the containers, the target mapping and
  the two response proxies.  Attributes of built-in objects (\<open>getattr(5, "real")\<close>, bound
  methods) and object identity beyond the singletons are the fields \<open>rt_attr\<close> and \<open>rt_is\<close> of
  a \<open>runtime\<close>.
\<close>

section \<open>Syntax trees\<close>

datatype pconst = CNone | CBool bool | CInt int | CStr string

datatype boolop = OpAnd | OpOr
datatype unaryop = OpNot | OpUSub | OpUAdd | OpInvert
datatype cmpop =
    CmpEq | CmpNotEq | CmpLt | CmpLtE | CmpGt | CmpGtE | CmpIn | CmpNotIn | CmpIs | CmpIsNot

text \<open>
  \<open>Other\<close> is a node of any class that neither function names (\<open>BinOp\<close>, \<open>IfExp\<close>, \<open>Slice\<close>,
  \<open>JoinedStr\<close>, \<open>Starred\<close>, \dots), with its children.
\<close>

datatype pexpr =
    Constant pconst
  | Name string
  | Subscript pexpr pexpr
  | Attribute pexpr string
  | BoolOp boolop "pexpr list"
  | UnaryOp unaryop pexpr
  | Compare pexpr "(cmpop \<times> pexpr) list"
  | Call pexpr "pexpr list"
  | ListE "pexpr list"
  | TupleE "pexpr list"
  | SetE "pexpr list"
  | DictE "(pexpr option \<times> pexpr) list"
  | Lambda pexpr
  | NamedExpr pexpr pexpr
  | Comprehension "pexpr list"
  | Other string "pexpr list"

definition child_opt :: "'a option \<Rightarrow> 'a list" where
  "child_opt x = (case x of None \<Rightarrow> [] | Some e \<Rightarrow> [e])"

fun children :: "pexpr \<Rightarrow> pexpr list" where
  "children (Constant _) = []"
| "children (Name _) = []"
| "children (Subscript v s) = [v, s]"
| "children (Attribute v _) = [v]"
| "children (BoolOp _ es) = es"
| "children (UnaryOp _ e) = [e]"
| "children (Compare l cs) = l # map snd cs"
| "children (Call f es) = f # es"
| "children (ListE es) = es"
| "children (TupleE es) = es"
| "children (SetE es) = es"
| "children (DictE kvs) = concat (map (child_opt \<circ> fst) kvs) @ map snd kvs"
| "children (Lambda e) = [e]"
| "children (NamedExpr t v) = [t, v]"
| "children (Comprehension es) = es"
| "children (Other _ es) = es"

section \<open>Values\<close>

datatype pval =
    VNone
  | VBool bool
  | VInt int
  | VStr string
  | VList "pval list"
  | VTuple "pval list"
  | VSet "pval list"
  | VDict "(pval \<times> pval) list"
  | VResponse int "(string \<times> string) list" pval
  | VPveResponse int pval
  | VObject string

record runtime =
  rt_attr :: "pval \<Rightarrow> string \<Rightarrow> pval option"
  rt_is :: "pval \<Rightarrow> pval \<Rightarrow> bool"

fun ptruthy :: "pval \<Rightarrow> bool" where
  "ptruthy VNone = False"
| "ptruthy (VBool b) = b"
| "ptruthy (VInt i) = (i \<noteq> 0)"
| "ptruthy (VStr s) = (s \<noteq> [])"
| "ptruthy (VList l) = (l \<noteq> [])"
| "ptruthy (VTuple l) = (l \<noteq> [])"
| "ptruthy (VSet l) = (l \<noteq> [])"
| "ptruthy (VDict l) = (l \<noteq> [])"
| "ptruthy _ = True"

fun as_int :: "pval \<Rightarrow> int option" where
  "as_int (VInt i) = Some i"
| "as_int (VBool b) = Some (if b then 1 else 0)"
| "as_int _ = None"

text \<open>Python's \<open>==\<close>: numbers compare across \<open>bool\<close> and \<open>int\<close>, sets and dicts without order.\<close>

function py_eq :: "pval \<Rightarrow> pval \<Rightarrow> bool" where
  "py_eq VNone b = (b = VNone)"
| "py_eq (VBool x) b = (as_int b = Some (if x then 1 else 0))"
| "py_eq (VInt x) b = (as_int b = Some x)"
| "py_eq (VStr s) b = (b = VStr s)"
| "py_eq (VList xs) b =
     (case b of
        VList ys \<Rightarrow> length xs = length ys \<and> list_all (\<lambda>(x, y). py_eq x y) (zip xs ys)
      | _ \<Rightarrow> False)"
| "py_eq (VTuple xs) b =
     (case b of
        VTuple ys \<Rightarrow> length xs = length ys \<and> list_all (\<lambda>(x, y). py_eq x y) (zip xs ys)
      | _ \<Rightarrow> False)"
| "py_eq (VSet xs) b =
     (case b of
        VSet ys \<Rightarrow> length xs = length ys \<and> list_all (\<lambda>x. list_ex (py_eq x) ys) xs
      | _ \<Rightarrow> False)"
| "py_eq (VDict xs) b =
     (case b of
        VDict ys \<Rightarrow> length xs = length ys
          \<and> list_all (\<lambda>(k, v). list_ex (\<lambda>(k', v'). py_eq k k' \<and> py_eq v v') ys) xs
      | _ \<Rightarrow> False)"
| "py_eq (VResponse sc hs j) b = (b = VResponse sc hs j)"
| "py_eq (VPveResponse sc env) b = (b = VPveResponse sc env)"
| "py_eq (VObject n) b = (b = VObject n)"
  by pat_completeness auto

lemma size_in_list: "x \<in> set xs \<Longrightarrow> size (x :: pval) < Suc (size_list size xs)"
  by (simp add: less_Suc_eq_le size_list_estimation')

lemma size_in_pairs:
  assumes "(k, v) \<in> set xs"
  shows "size (k :: pval) < Suc (size_list (size_prod size size) xs)"
    and "size (v :: pval) < Suc (size_list (size_prod size size) xs)"
proof -
  have "size_prod size size (k, v) \<le> size_list (size_prod size size) xs"
    by (rule size_list_estimation' [OF assms]) simp
  then show "size k < Suc (size_list (size_prod size size) xs)"
    and "size v < Suc (size_list (size_prod size size) xs)" by simp_all
qed

termination py_eq
  by (relation "measure (\<lambda>(a, b). size a)")
     (auto dest: set_zip_leftD size_in_list size_in_pairs)

definition py_mem :: "pval \<Rightarrow> pval list \<Rightarrow> bool" where
  "py_mem x ys = list_ex (py_eq x) ys"

fun hashable :: "pval \<Rightarrow> bool" where
  "hashable (VList _) = False"
| "hashable (VSet _) = False"
| "hashable (VDict _) = False"
| "hashable (VTuple xs) = list_all hashable xs"
| "hashable _ = True"

fun str_lt :: "string \<Rightarrow> string \<Rightarrow> bool" where
  "str_lt [] t = (t \<noteq> [])"
| "str_lt (c # cs) t =
     (case t of
        [] \<Rightarrow> False
      | d # ds \<Rightarrow> (of_char c :: nat) < of_char d \<or> (c = d \<and> str_lt cs ds))"

text \<open>Python's \<open><\<close>; \<open>None\<close> where it raises \<open>TypeError\<close>.\<close>

fun py_lt :: "pval \<Rightarrow> pval \<Rightarrow> bool option"
and py_lt_list :: "pval list \<Rightarrow> pval list \<Rightarrow> bool option" where
  "py_lt (VInt a) b = (case as_int b of Some j \<Rightarrow> Some (a < j) | None \<Rightarrow> None)"
| "py_lt (VBool a) b =
     (case as_int b of Some j \<Rightarrow> Some ((if a then 1 else 0) < j) | None \<Rightarrow> None)"
| "py_lt (VStr s) b = (case b of VStr t \<Rightarrow> Some (str_lt s t) | _ \<Rightarrow> None)"
| "py_lt (VList xs) b = (case b of VList ys \<Rightarrow> py_lt_list xs ys | _ \<Rightarrow> None)"
| "py_lt (VTuple xs) b = (case b of VTuple ys \<Rightarrow> py_lt_list xs ys | _ \<Rightarrow> None)"
| "py_lt (VSet xs) b =
     (case b of
        VSet ys \<Rightarrow> Some (length xs < length ys \<and> list_all (\<lambda>x. py_mem x ys) xs) | _ \<Rightarrow> None)"
| "py_lt a b = None"
| "py_lt_list [] ys = Some (ys \<noteq> [])"
| "py_lt_list (x # xs) ys =
     (case ys of
        [] \<Rightarrow> Some False
      | y # ys' \<Rightarrow> (if py_eq x y then py_lt_list xs ys' else py_lt x y))"

section \<open>Evaluation\<close>

datatype serr = Unsafe string | Undecided string | PyError string

type_synonym 'a sres = "serr + 'a"

definition bind_s :: "'a sres \<Rightarrow> ('a \<Rightarrow> 'b sres) \<Rightarrow> 'b sres" where
  "bind_s r f = (case r of Inl e \<Rightarrow> Inl e | Inr x \<Rightarrow> f x)"

lemma bind_s_simps [simp, err_simps]: "bind_s (Inl e) f = Inl e" "bind_s (Inr x) f = f x"
  by (simp_all add: bind_s_def)

definition lt_res :: "bool option \<Rightarrow> bool sres" where
  "lt_res r = (case r of None \<Rightarrow> Inl (PyError ''TypeError'') | Some b \<Rightarrow> Inr b)"

definition py_contains :: "pval \<Rightarrow> pval \<Rightarrow> bool sres" where
  "py_contains x c =
     (case c of
        VList ys \<Rightarrow> Inr (py_mem x ys)
      | VTuple ys \<Rightarrow> Inr (py_mem x ys)
      | VSet ys \<Rightarrow> (if hashable x then Inr (py_mem x ys) else Inl (PyError ''TypeError''))
      | VDict kvs \<Rightarrow>
          (if hashable x then Inr (py_mem x (map fst kvs)) else Inl (PyError ''TypeError''))
      | VStr s \<Rightarrow> (case x of VStr n \<Rightarrow> Inr (py_in n s) | _ \<Rightarrow> Inl (PyError ''TypeError''))
      | VPveResponse _ (VList ys) \<Rightarrow> Inr (py_mem x ys)
      | VPveResponse _ (VDict _) \<Rightarrow> Inl (PyError ''KeyError'')
      | _ \<Rightarrow> Inl (PyError ''TypeError''))"

definition py_is :: "runtime \<Rightarrow> pval \<Rightarrow> pval \<Rightarrow> bool" where
  "py_is rt a b =
     (if a \<in> {VNone, VBool True, VBool False} \<or> b \<in> {VNone, VBool True, VBool False} then a = b
      else rt_is rt a b)"

fun compare_op :: "runtime \<Rightarrow> cmpop \<Rightarrow> pval \<Rightarrow> pval \<Rightarrow> bool sres" where
  "compare_op rt CmpEq a b = Inr (py_eq a b)"
| "compare_op rt CmpNotEq a b = Inr (\<not> py_eq a b)"
| "compare_op rt CmpLt a b = lt_res (py_lt a b)"
| "compare_op rt CmpGt a b = lt_res (py_lt b a)"
| "compare_op rt CmpLtE a b =
     (if py_lt a b = None then Inl (PyError ''TypeError'')
      else Inr (py_lt a b = Some True \<or> py_eq a b))"
| "compare_op rt CmpGtE a b =
     (if py_lt b a = None then Inl (PyError ''TypeError'')
      else Inr (py_lt b a = Some True \<or> py_eq a b))"
| "compare_op rt CmpIn a b = py_contains a b"
| "compare_op rt CmpNotIn a b = bind_s (py_contains a b) (\<lambda>r. Inr (\<not> r))"
| "compare_op rt CmpIs a b = Inr (py_is rt a b)"
| "compare_op rt CmpIsNot a b = Inr (\<not> py_is rt a b)"

definition list_index :: "pval list \<Rightarrow> pval \<Rightarrow> pval option" where
  "list_index xs k =
     (case as_int k of
        None \<Rightarrow> None
      | Some i \<Rightarrow>
          (let j = (if i < 0 then int (length xs) + i else i)
           in if 0 \<le> j \<and> j < int (length xs) then Some (xs ! nat j) else None))"

text \<open>\<open>value[key]\<close>; None stands for \<open>KeyError\<close>, \<open>IndexError\<close> and \<open>TypeError\<close>.\<close>

fun py_getitem :: "pval \<Rightarrow> pval \<Rightarrow> pval option" where
  "py_getitem (VDict kvs) k =
     (if hashable k then map_option snd (find (\<lambda>(k', _). py_eq k k') kvs) else None)"
| "py_getitem (VList xs) k = list_index xs k"
| "py_getitem (VTuple xs) k = list_index xs k"
| "py_getitem (VStr s) k = list_index (map (\<lambda>c. VStr [c]) s) k"
| "py_getitem (VPveResponse _ env) k = py_getitem env k"
| "py_getitem _ k = None"

definition headers_dict :: "(string \<times> string) list \<Rightarrow> pval" where
  "headers_dict hs = VDict (map (\<lambda>(k, v). (VStr k, VStr v)) hs)"

definition py_getattr :: "runtime \<Rightarrow> pval \<Rightarrow> string \<Rightarrow> pval option" where
  "py_getattr rt v attr =
     (case v of
        VResponse sc hs body \<Rightarrow>
          (if attr = ''status_code'' then Some (VInt sc)
           else if attr = ''headers'' then Some (headers_dict hs)
           else if attr = ''json'' then Some body
           else None)
      | VPveResponse sc env \<Rightarrow>
          (if attr = ''status_code'' then Some (VInt sc)
           else if attr = ''headers'' then Some (VDict [])
           else if attr = ''json'' then Some env
           else if attr = ''envelope'' then Some env
           else None)
      | _ \<Rightarrow> rt_attr rt v attr)"

definition of_const :: "pconst \<Rightarrow> pval" where
  "of_const c =
     (case c of CNone \<Rightarrow> VNone | CBool b \<Rightarrow> VBool b | CInt i \<Rightarrow> VInt i | CStr s \<Rightarrow> VStr s)"

definition allowed_names :: "string \<Rightarrow> pval option" where
  "allowed_names n =
     (if n = ''True'' then Some (VBool True) else if n = ''False'' then Some (VBool False)
      else if n = ''None'' then Some VNone else None)"

definition eval_name :: "(string \<Rightarrow> pval option) \<Rightarrow> string \<Rightarrow> pval sres" where
  "eval_name ctx n =
     (case allowed_names n of
        Some v \<Rightarrow> Inr v
      | None \<Rightarrow> (case ctx n of Some v \<Rightarrow> Inr v | None \<Rightarrow> Inl (Unsafe (''unknown name: '' @ n))))"

fun bool_op :: "boolop \<Rightarrow> pval \<Rightarrow> pval \<Rightarrow> pval" where
  "bool_op OpAnd a b = (if ptruthy a then b else a)"
| "bool_op OpOr a b = (if ptruthy a then a else b)"

fun dict_insert :: "pval \<Rightarrow> pval \<Rightarrow> (pval \<times> pval) list \<Rightarrow> (pval \<times> pval) list" where
  "dict_insert k v [] = [(k, v)]"
| "dict_insert k v ((k', v') # kvs) =
     (if py_eq k k' then (k', v) # kvs else (k', v') # dict_insert k v kvs)"

fun set_insert :: "pval list \<Rightarrow> pval \<Rightarrow> pval list" where
  "set_insert xs x = (if py_mem x xs then xs else xs @ [x])"

text \<open>Left to right over the operands; the chain of comparisons stops at the first false one.\<close>

fun traverse_s :: "('a \<Rightarrow> 'b sres) \<Rightarrow> 'a list \<Rightarrow> 'b list sres" where
  "traverse_s f [] = Inr []"
| "traverse_s f (x # xs) = bind_s (f x) (\<lambda>y. bind_s (traverse_s f xs) (\<lambda>ys. Inr (y # ys)))"

fun eval_cmp :: "runtime \<Rightarrow> ('e \<Rightarrow> pval sres) \<Rightarrow> pval \<Rightarrow> (cmpop \<times> 'e) list \<Rightarrow> pval sres" where
  "eval_cmp rt f left [] = Inr (VBool True)"
| "eval_cmp rt f left ((op, e) # cs) =
     bind_s (f e) (\<lambda>right.
     bind_s (compare_op rt op left right) (\<lambda>b.
       if b then eval_cmp rt f right cs else Inr (VBool False)))"

fun eval_dict :: "('e \<Rightarrow> pval sres) \<Rightarrow> (pval \<times> pval) list \<Rightarrow> ('e option \<times> 'e) list \<Rightarrow> pval sres" where
  "eval_dict f acc [] = Inr (VDict acc)"
| "eval_dict f acc ((k, e) # kvs) =
     (case k of
        None \<Rightarrow> Inl (Unsafe ''dict unpacking (**) not allowed'')
      | Some ke \<Rightarrow>
          bind_s (f e) (\<lambda>v.
          bind_s (f ke) (\<lambda>kv.
            if hashable kv then eval_dict f (dict_insert kv v acc) kvs
            else Inl (PyError ''TypeError''))))"

lemma bind_s_cong [fundef_cong]:
  "r = r' \<Longrightarrow> (\<And>x. r' = Inr x \<Longrightarrow> f x = g x) \<Longrightarrow> bind_s r f = bind_s r' g"
  by (cases r') auto

lemma traverse_s_cong [fundef_cong]:
  "xs = ys \<Longrightarrow> (\<And>x. x \<in> set ys \<Longrightarrow> f x = g x) \<Longrightarrow> traverse_s f xs = traverse_s g ys"
  by (induction xs arbitrary: ys) (auto intro: bind_s_cong)

lemma eval_cmp_agree:
  "\<forall>(op, e)\<in>set cs. f e = g e \<Longrightarrow> eval_cmp rt f v cs = eval_cmp rt g v cs"
  by (induction cs arbitrary: v) (auto intro!: bind_s_cong)

lemma eval_cmp_cong [fundef_cong]:
  "cs = ds \<Longrightarrow> (\<And>op e. (op, e) \<in> set ds \<Longrightarrow> f e = g e) \<Longrightarrow> eval_cmp rt f v cs = eval_cmp rt g v ds"
  by (auto intro: eval_cmp_agree)

lemma eval_dict_agree:
  "\<forall>(k, e)\<in>set kvs. f e = g e \<and> (\<forall>x. k = Some x \<longrightarrow> f x = g x)
   \<Longrightarrow> eval_dict f acc kvs = eval_dict g acc kvs"
  by (induction kvs arbitrary: acc) (auto intro!: bind_s_cong split: option.splits)

lemma eval_dict_cong [fundef_cong]:
  "kvs = kws \<Longrightarrow> (\<And>k e. (k, e) \<in> set kws \<Longrightarrow> f e = g e)
   \<Longrightarrow> (\<And>k e. (Some k, e) \<in> set kws \<Longrightarrow> f k = g k)
   \<Longrightarrow> eval_dict f acc kvs = eval_dict g acc kws"
  by (auto intro!: eval_dict_agree)

lemma size_in_exprs: "x \<in> set es \<Longrightarrow> size (x :: pexpr) \<le> size_list size es"
  by (simp add: size_list_estimation')

lemma size_in_cmps: "(op, x) \<in> set cs \<Longrightarrow> size (x :: pexpr) \<le> size_list (size_prod (\<lambda>_. 0) size) cs"
  using size_list_estimation' [of "(op, x)" cs "size x" "size_prod (\<lambda>_. 0) size"] by simp

lemma size_in_items:
  assumes "(k, x) \<in> set kvs"
  shows "size (x :: pexpr) \<le> size_list (size_prod (size_option size) size) kvs"
    and "k = Some y \<Longrightarrow> size (y :: pexpr) \<le> size_list (size_prod (size_option size) size) kvs"
  using size_list_estimation' [OF assms, of "size x" "size_prod (size_option size) size"]
    size_list_estimation' [OF assms, of "size y" "size_prod (size_option size) size"]
  by auto

lemmas size_in = size_in_exprs size_in_cmps size_in_items(1) size_in_items(2) [OF _ refl]

function eval_node :: "runtime \<Rightarrow> (string \<Rightarrow> pval option) \<Rightarrow> pexpr \<Rightarrow> pval sres" where
  "eval_node rt ctx (Constant c) = Inr (of_const c)"
| "eval_node rt ctx (Name n) = eval_name ctx n"
| "eval_node rt ctx (Subscript v s) =
     bind_s (eval_node rt ctx v) (\<lambda>x.
     bind_s (case s of
               Constant c \<Rightarrow> Inr (of_const c)
             | Name n \<Rightarrow> eval_name ctx n
             | _ \<Rightarrow> Inl (Unsafe ''complex subscript not allowed'')) (\<lambda>k.
       Inr (case py_getitem x k of Some r \<Rightarrow> r | None \<Rightarrow> VNone)))"
| "eval_node rt ctx (Attribute v attr) =
     (if prefix ''__'' attr \<and> suffix ''__'' attr
        then Inl (Unsafe (''dunder attribute access not allowed: '' @ attr))
      else if prefix ''_'' attr
        then Inl (Unsafe (''private attribute access not allowed: '' @ attr))
      else bind_s (eval_node rt ctx v) (\<lambda>x.
        case py_getattr rt x attr of
          Some r \<Rightarrow> Inr r
        | None \<Rightarrow> Inl (Undecided (''the precheck response has no '' @ attr))))"
| "eval_node rt ctx (BoolOp op es) =
     bind_s (traverse_s (eval_node rt ctx) es) (\<lambda>vs.
       case vs of
         [] \<Rightarrow> Inl (PyError ''IndexError'')
       | w # ws \<Rightarrow> Inr (foldl (bool_op op) w ws))"
| "eval_node rt ctx (UnaryOp op e) =
     (if op = OpNot then bind_s (eval_node rt ctx e) (\<lambda>v. Inr (VBool (\<not> ptruthy v)))
      else Inl (Unsafe ''unary op not allowed''))"
| "eval_node rt ctx (Compare l cs) =
     bind_s (eval_node rt ctx l) (\<lambda>v. eval_cmp rt (eval_node rt ctx) v cs)"
| "eval_node rt ctx (Call f es) = Inl (Unsafe ''function call not allowed'')"
| "eval_node rt ctx (ListE es) =
     bind_s (traverse_s (eval_node rt ctx) es) (\<lambda>vs. Inr (VList vs))"
| "eval_node rt ctx (TupleE es) =
     bind_s (traverse_s (eval_node rt ctx) es) (\<lambda>vs. Inr (VTuple vs))"
| "eval_node rt ctx (SetE es) =
     bind_s (traverse_s (eval_node rt ctx) es) (\<lambda>vs.
       if list_all hashable vs then Inr (VSet (foldl set_insert [] vs))
       else Inl (PyError ''TypeError''))"
| "eval_node rt ctx (DictE kvs) = eval_dict (eval_node rt ctx) [] kvs"
| "eval_node rt ctx (Lambda e) = Inl (Unsafe ''node type not allowed: Lambda'')"
| "eval_node rt ctx (NamedExpr t v) = Inl (Unsafe ''node type not allowed: NamedExpr'')"
| "eval_node rt ctx (Comprehension es) = Inl (Unsafe ''node type not allowed'')"
| "eval_node rt ctx (Other n es) = Inl (Unsafe (''node type not allowed: '' @ n))"
  by pat_completeness auto

termination eval_node
  by (relation "measure (\<lambda>(rt, ctx, e). size e)")
     (auto dest: size_in simp: less_Suc_eq_le)

text \<open>The two names an expression may use besides the constants.\<close>

definition skip_context :: "pval \<Rightarrow> pval \<Rightarrow> string \<Rightarrow> pval option" where
  "skip_context response tgt n =
     (if n = ''response'' then Some response else if n = ''target'' then Some tgt else None)"

definition safe_eval_skip_if ::
  "(string \<Rightarrow> pexpr option) \<Rightarrow> runtime \<Rightarrow> string \<Rightarrow> pval \<Rightarrow> pval \<Rightarrow> bool sres" where
  "safe_eval_skip_if ast_parse rt expression response tgt =
     (case ast_parse expression of
        None \<Rightarrow> Inl (Undecided ''skip_if is not a valid expression'')
      | Some tree \<Rightarrow>
          (case eval_node rt (skip_context response tgt) tree of
             Inl (Undecided m) \<Rightarrow> Inl (Undecided m)
           | Inl (Unsafe m) \<Rightarrow> Inl (Undecided (''skip_if was refused by the evaluator: '' @ m))
           | Inl (PyError m) \<Rightarrow> Inl (Undecided (''skip_if could not be evaluated: '' @ m))
           | Inr v \<Rightarrow> Inr (ptruthy v)))"

section \<open>Response proxies\<close>

definition excluded_response_headers :: "string set" where
  "excluded_response_headers =
     {''authorization'', ''cookie'', ''set-cookie'', ''set-cookie2'', ''x-auth-token''}"

text \<open>The dict comprehension: a later header with the same lower-cased name wins.\<close>

definition safe_headers :: "(string \<times> string) list \<Rightarrow> (string \<times> string) list" where
  "safe_headers raw =
     fold (\<lambda>(k, v) acc.
        if py_lower k \<in> excluded_response_headers then acc
        else AList.update (py_lower k) v acc) raw []"

definition make_response_proxy :: "int \<Rightarrow> (string \<times> string) list \<Rightarrow> pval option \<Rightarrow> pval" where
  "make_response_proxy status_code raw_headers json_body =
     VResponse status_code (safe_headers raw_headers)
       (case json_body of None \<Rightarrow> VNone | Some b \<Rightarrow> b)"

definition make_pve_response_proxy :: "int \<Rightarrow> pval \<Rightarrow> pval" where
  "make_pve_response_proxy status_code envelope = VPveResponse status_code envelope"

section \<open>The propose-time check\<close>

text \<open>\<open>ast.walk\<close>: breadth first.\<close>

lemma size_children: "c \<in> set (children e) \<Longrightarrow> size c < size e"
  by (cases e) (auto dest: size_in simp: less_Suc_eq_le child_opt_def split: option.splits)

definition node_weight :: "pexpr \<Rightarrow> nat" where
  "node_weight e = 2 * size e + 1"

lemma weight_children: "sum_list (map node_weight (children e)) < node_weight e"
proof -
  have opt: "sum_list (map node_weight (concat (map (child_opt \<circ> fst) kvs)))
      + sum_list (map (node_weight \<circ> snd) kvs)
      \<le> 2 * size_list (size_prod (size_option size) size) kvs"
    for kvs :: "(pexpr option \<times> pexpr) list"
    by (induction kvs) (auto simp: child_opt_def node_weight_def split: option.splits)
  have cmp: "sum_list (map (node_weight \<circ> snd) cs) \<le> 2 * size_list (size_prod (\<lambda>_. 0) size) cs"
    for cs :: "(cmpop \<times> pexpr) list"
    by (induction cs) (auto simp: node_weight_def)
  have lst: "sum_list (map node_weight es) \<le> 2 * size_list size es" for es
    by (induction es) (auto simp: node_weight_def)
  show ?thesis
  proof (cases e)
    case (Compare l cs)
    then show ?thesis using cmp [of cs] by (simp add: node_weight_def)
  next
    case (DictE kvs)
    then show ?thesis using opt [of kvs] by (simp add: node_weight_def [of "DictE kvs"])
  next
    case (BoolOp op es)
    then show ?thesis using lst [of es] by (simp add: node_weight_def [of "BoolOp op es"])
  next
    case (Call f es)
    then show ?thesis using lst [of es] by (simp add: node_weight_def)
  next
    case (ListE es)
    then show ?thesis using lst [of es] by (simp add: node_weight_def [of "ListE es"])
  next
    case (TupleE es)
    then show ?thesis using lst [of es] by (simp add: node_weight_def [of "TupleE es"])
  next
    case (SetE es)
    then show ?thesis using lst [of es] by (simp add: node_weight_def [of "SetE es"])
  next
    case (Comprehension es)
    then show ?thesis using lst [of es] by (simp add: node_weight_def [of "Comprehension es"])
  next
    case (Other n es)
    then show ?thesis using lst [of es] by (simp add: node_weight_def [of "Other n es"])
  qed (simp_all add: node_weight_def)
qed

function walk_queue :: "pexpr list \<Rightarrow> pexpr list" where
  "walk_queue [] = []"
| "walk_queue (e # q) = e # walk_queue (q @ children e)"
  by pat_completeness auto

termination walk_queue
  by (relation "measure (\<lambda>q. sum_list (map node_weight q))") (auto simp: weight_children)

definition walk :: "pexpr \<Rightarrow> pexpr list" where
  "walk tree = walk_queue [tree]"

definition static_allowed_names :: "string set" where
  "static_allowed_names = {''response'', ''target'', ''True'', ''False'', ''None''}"

fun node_errors :: "pexpr \<Rightarrow> string list" where
  "node_errors (Call f es) = [''skip_if: function calls are not allowed'']"
| "node_errors (Lambda e) = [''skip_if: lambda expressions are not allowed'']"
| "node_errors (Comprehension es) = [''skip_if: comprehensions are not allowed'']"
| "node_errors (NamedExpr t v) = [''skip_if: the walrus operator is not allowed'']"
| "node_errors (Attribute v attr) =
     (if prefix ''_'' attr
      then [''skip_if: private attribute access '' @ attr @ '' is not allowed''] else [])"
| "node_errors (Name n) =
     (if n \<notin> static_allowed_names then [''skip_if: '' @ n @ '' is not bound''] else [])"
| "node_errors _ = []"

definition validate_skip_if_expression ::
  "(string \<Rightarrow> pexpr option) \<Rightarrow> string \<Rightarrow> string list" where
  "validate_skip_if_expression ast_parse expression =
     (case ast_parse expression of
        None \<Rightarrow> [''skip_if syntax error'']
      | Some tree \<Rightarrow> concat (map node_errors (walk tree)))"

section \<open>The check against the evaluator\<close>

lemma walk_queue_start: "e \<in> set q \<Longrightarrow> e \<in> set (walk_queue q)"
  by (induction q rule: walk_queue.induct) auto

lemma walk_queue_closed:
  "e \<in> set (walk_queue q) \<Longrightarrow> c \<in> set (children e) \<Longrightarrow> c \<in> set (walk_queue q)"
  by (induction q rule: walk_queue.induct) (auto intro: walk_queue_start)

text \<open>The nodes the evaluator handles but the static check does not look at.\<close>

fun simple_slice :: "pexpr \<Rightarrow> bool" where
  "simple_slice (Constant _) = True"
| "simple_slice (Name _) = True"
| "simple_slice _ = False"

fun evaluator_node :: "pexpr \<Rightarrow> bool" where
  "evaluator_node (Subscript v s) = simple_slice s"
| "evaluator_node (UnaryOp op e) = (op = OpNot)"
| "evaluator_node (DictE kvs) = list_all (\<lambda>(k, _). k \<noteq> None) kvs"
| "evaluator_node (Other n es) = False"
| "evaluator_node _ = True"

definition not_unsafe :: "'a sres \<Rightarrow> bool" where
  "not_unsafe r = (\<forall>m. r \<noteq> Inl (Unsafe m))"

lemma not_unsafe_Inr [simp]: "not_unsafe (Inr x)"
  and not_unsafe_Undecided [simp]: "not_unsafe (Inl (Undecided m))"
  and not_unsafe_PyError [simp]: "not_unsafe (Inl (PyError m))"
  by (simp_all add: not_unsafe_def)

lemma not_unsafe_bind [intro!]:
  "not_unsafe r \<Longrightarrow> (\<And>x. r = Inr x \<Longrightarrow> not_unsafe (f x)) \<Longrightarrow> not_unsafe (bind_s r f)"
  by (cases r) (auto simp: not_unsafe_def)

lemma not_unsafe_compare [simp]: "not_unsafe (compare_op rt op a b)"
proof -
  have c: "not_unsafe (py_contains a b)"
    by (auto simp: py_contains_def split: pval.splits)
  show ?thesis
    using c by (cases op) (auto simp: lt_res_def split: option.splits)
qed

lemma not_unsafe_traverse: "\<forall>x\<in>set xs. not_unsafe (f x) \<Longrightarrow> not_unsafe (traverse_s f xs)"
  by (induction xs) auto

lemma not_unsafe_cmp: "\<forall>(op, e)\<in>set cs. not_unsafe (f e) \<Longrightarrow> not_unsafe (eval_cmp rt f v cs)"
  by (induction cs arbitrary: v) auto

lemma not_unsafe_dict:
  "\<forall>(k, e)\<in>set kvs. not_unsafe (f e) \<and> (\<exists>x. k = Some x \<and> not_unsafe (f x))
   \<Longrightarrow> not_unsafe (eval_dict f acc kvs)"
  by (induction kvs arbitrary: acc) auto

lemma not_unsafe_name: "node_errors (Name n) = [] \<Longrightarrow> not_unsafe (eval_name (skip_context r t) n)"
  by (auto simp: eval_name_def allowed_names_def skip_context_def static_allowed_names_def
      split: if_splits option.splits)

definition checked_nodes :: "pexpr set \<Rightarrow> bool" where
  "checked_nodes N =
     (\<forall>n\<in>N. node_errors n = [] \<and> evaluator_node n \<and> set (children n) \<subseteq> N)"

lemma checked_not_unsafe:
  "checked_nodes N \<Longrightarrow> e \<in> N \<Longrightarrow> not_unsafe (eval_node rt (skip_context r t) e)"
proof (induction e rule: measure_induct_rule [where f = size])
  case (less e)
  have IH: "not_unsafe (eval_node rt (skip_context r t) c)" if "c \<in> set (children e)" for c
    using that less size_children [OF that] by (auto simp: checked_nodes_def)
  have ok: "node_errors e = []" "evaluator_node e"
    using less.prems by (auto simp: checked_nodes_def)
  have sub: "set (children e) \<subseteq> N" using less.prems by (auto simp: checked_nodes_def)
  show ?case
  proof (cases e)
    case (Subscript v s)
    have "not_unsafe (case s of Constant c \<Rightarrow> Inr (of_const c)
        | Name n \<Rightarrow> eval_name (skip_context r t) n
        | _ \<Rightarrow> Inl (Unsafe ''complex subscript not allowed''))"
      using ok Subscript IH [of s] by (cases s) auto
    then show ?thesis using Subscript IH [of v] by auto
  next
    case (Attribute v attr)
    have "\<not> prefix ''_'' attr" and "\<not> prefix ''__'' attr"
      using ok Attribute by (auto split: if_splits simp: prefix_def)
    then show ?thesis using Attribute IH [of v] by (auto split: option.splits)
  next
    case (BoolOp op es)
    then show ?thesis using IH not_unsafe_traverse [of es] by (auto split: list.splits)
  next
    case (Compare l cs)
    then have "\<forall>(op, x)\<in>set cs. not_unsafe (eval_node rt (skip_context r t) x)"
      by (auto intro!: IH) force
    then show ?thesis using Compare IH [of l] by (auto intro: not_unsafe_cmp)
  next
    case (DictE kvs)
    have "\<forall>(k, e)\<in>set kvs. not_unsafe (eval_node rt (skip_context r t) e)
        \<and> (\<exists>x. k = Some x \<and> not_unsafe (eval_node rt (skip_context r t) x))"
    proof (intro ballI, clarify, intro conjI)
      fix k x assume kx: "(k, x) \<in> set kvs"
      show "not_unsafe (eval_node rt (skip_context r t) x)"
        using kx DictE by (intro IH) force
      obtain y where y: "k = Some y" using kx ok DictE by (auto simp: list_all_iff)
      then show "\<exists>x. k = Some x \<and> not_unsafe (eval_node rt (skip_context r t) x)"
        using kx DictE by (intro exI [of _ y] conjI IH) (force simp: child_opt_def)+
    qed
    then show ?thesis using DictE by (simp add: not_unsafe_dict)
  next
    case (Name n)
    then show ?thesis using ok not_unsafe_name [of n r t] by simp
  qed (use ok IH in \<open>auto simp: not_unsafe_traverse intro!: not_unsafe_bind\<close>)
qed

lemma walk_checked:
  assumes "concat (map node_errors (walk e)) = []" and "list_all evaluator_node (walk e)"
  shows "checked_nodes (set (walk e))"
  using assms walk_queue_closed [of _ "[e]"]
  by (fastforce simp: checked_nodes_def walk_def list_all_iff)

lemma walk_self: "e \<in> set (walk e)"
  by (simp add: walk_def walk_queue_start)

section \<open>The header filter\<close>

definition header_step :: "string \<times> string \<Rightarrow> (string \<times> string) list \<Rightarrow> (string \<times> string) list" where
  "header_step = (\<lambda>(k, v) acc.
     if py_lower k \<in> excluded_response_headers then acc else AList.update (py_lower k) v acc)"

lemma safe_headers_step: "safe_headers raw = fold header_step raw []"
  by (simp add: safe_headers_def header_step_def)

lemma header_step_keys:
  "fst ` set (fold header_step raw acc) =
     fst ` set acc \<union> ((\<lambda>(k, _). py_lower k) ` set raw - excluded_response_headers)"
proof (induction raw arbitrary: acc)
  case Nil
  then show ?case by simp
next
  case (Cons kv raw)
  obtain k v where kv: "kv = (k, v)" by fastforce
  show ?case
  proof (cases "py_lower k \<in> excluded_response_headers")
    case True
    then have "header_step kv acc = acc" by (simp add: header_step_def kv)
    with True show ?thesis by (simp add: Cons.IH kv)
  next
    case False
    then have "fst ` set (header_step kv acc) = insert (py_lower k) (fst ` set acc)"
      by (simp add: header_step_def kv fst_set_update)
    with False show ?thesis by (simp add: Cons.IH kv insert_Diff_if)
  qed
qed

lemma safe_headers_keys:
  "fst ` set (safe_headers raw) = (\<lambda>(k, _). py_lower k) ` set raw - excluded_response_headers"
  by (simp add: safe_headers_step header_step_keys)

section \<open>Properties\<close>



text \<open>
  the propose-time check is sound for the constructs the evaluator implements.  If it reports
  nothing and the tree holds only evaluator constructs (plain subscripts, \<open>not\<close> as the one unary
  operator, no dict unpacking, no node of another class), then evaluation at apply time is never
  refused as unsafe, whatever the response and the target are.
\<close>

theorem checked_expression_not_refused:
  assumes "ast_parse expr = Some tree"
    and "validate_skip_if_expression ast_parse expr = []"
    and "list_all evaluator_node (walk tree)"
  shows "eval_node rt (skip_context response tgt) tree \<noteq> Inl (Unsafe m)"
proof -
  have "concat (map node_errors (walk tree)) = []"
    using assms(1,2) by (simp add: validate_skip_if_expression_def)
  then have "checked_nodes (set (walk tree))" using assms(3) by (rule walk_checked)
  then have "not_unsafe (eval_node rt (skip_context response tgt) tree)"
    using checked_not_unsafe walk_self by blast
  then show ?thesis by (simp add: not_unsafe_def)
qed

theorem checked_expression_not_refused_witness:
  "\<forall>m. eval_node \<lparr>rt_attr = \<lambda>_ _. None, rt_is = \<lambda>_ _. False\<rparr>
     (skip_context (VResponse 200 [] VNone) (VDict []))
     (Compare (Attribute (Name ''response'') ''status_code'') [(CmpEq, Constant (CInt 200))])
   \<noteq> Inl (Unsafe m)"
  by (intro allI, rule checked_expression_not_refused [of
        "\<lambda>_. Some (Compare (Attribute (Name ''response'') ''status_code'') [(CmpEq, Constant (CInt 200))])"
        "''response.status_code == 200''"])
     (simp_all add: validate_skip_if_expression_def walk_def static_allowed_names_def)

text \<open>
  the check is weaker than the evaluator.  It accepts \<open>response.status_code == -1\<close>, which the
  evaluator refuses on every response, although it is meant to mirror the evaluator's refusals.
\<close>

theorem check_misses_unary_minus:
  "let tree = Compare (Attribute (Name ''response'') ''status_code'')
                [(CmpEq, UnaryOp OpUSub (Constant (CInt 1)))]
   in validate_skip_if_expression (\<lambda>_. Some tree) ''response.status_code == -1'' = []
      \<and> (\<forall>rt sc hs body tgt. safe_eval_skip_if (\<lambda>_. Some tree) rt ''response.status_code == -1''
             (VResponse sc hs body) tgt
           = Inl (Undecided ''skip_if was refused by the evaluator: unary op not allowed''))"
  by (simp add: validate_skip_if_expression_def walk_def static_allowed_names_def
      safe_eval_skip_if_def eval_name_def allowed_names_def skip_context_def py_getattr_def)

text \<open>
  no credential header reaches an expression.  The headers an expression can read are the
  lower-cased response headers less the excluded ones.
\<close>

theorem proxy_headers_filtered:
  "\<exists>hs j. make_response_proxy sc raw body = VResponse sc hs j
     \<and> fst ` set hs = (\<lambda>(k, _). py_lower k) ` set raw - excluded_response_headers"
  by (simp add: make_response_proxy_def safe_headers_keys)

end
