(* ===== verification/Secrets.thy ===== *)
theory Secrets
  imports Artifact_Models
begin

text \<open>
  Vault references in artifact bodies: \<^verbatim>\<open>executor/secrets.py\<close>.  \<open>resolve\<close> substitutes
  references at execute time and returns the values it used; \<open>redact\<close> takes them out of what is
  logged; \<open>literal_secrets\<close> finds credentials written out in full.

  The three regular expressions are matched deterministically: in each of them the character
  classes that follow one another are disjoint, so the longest run is the only one that can lead
  to a match.  \<open>get_secret\<close> of the vault is an argument; a secret is the mapping from its fields to
  \<open>str(value)\<close>.
\<close>

section \<open>Matching a reference\<close>

definition name_char :: "char \<Rightarrow> bool" where
  "name_char c = (is_alnum c \<or> c = CHR ''_'' \<or> c = CHR ''-'')"

text \<open>\<open>\s*\}\}\<close> and what follows it.\<close>

definition close_braces :: "string \<Rightarrow> string option" where
  "close_braces s = after_prefix ''}}'' (py_lstrip s)"

definition match_ref :: "string \<Rightarrow> ((string \<times> string option) \<times> string) option" where
  "match_ref s =
     (case after_prefix ''{{'' s of
        None \<Rightarrow> None
      | Some r0 \<Rightarrow>
          (case after_prefix ''vault.'' (py_lstrip r0) of
             None \<Rightarrow> None
           | Some r1 \<Rightarrow>
               (let name = takeWhile name_char r1; r2 = dropWhile name_char r1 in
                if name = [] \<or> \<not> is_alnum (hd name) then None
                else if r2 \<noteq> [] \<and> hd r2 = CHR ''.'' then
                  (let field = takeWhile name_char (tl r2) in
                   if field = [] then None
                   else map_option (Pair (name, Some field))
                          (close_braces (dropWhile name_char (tl r2))))
                else map_option (Pair (name, None)) (close_braces r2))))"

lemma after_prefix_length: "after_prefix p s = Some r \<Longrightarrow> length r + length p = length s"
  by (auto simp: after_prefix_def split: if_splits dest: prefix_length_le)

lemma length_py_lstrip: "length (py_lstrip s) \<le> length s"
  by (simp add: py_lstrip_def length_dropWhile_le)

lemma close_braces_length: "close_braces s = Some r \<Longrightarrow> length r < length s"
  using after_prefix_length [of "''}}''" "py_lstrip s" r] length_py_lstrip [of s]
  by (simp add: close_braces_def)

lemma match_ref_length: "match_ref s = Some (nf, rest) \<Longrightarrow> length rest < length s"
proof -
  assume m: "match_ref s = Some (nf, rest)"
  obtain r0 where r0: "after_prefix ''{{'' s = Some r0"
    using m by (auto simp: match_ref_def split: option.splits)
  obtain r1 where r1: "after_prefix ''vault.'' (py_lstrip r0) = Some r1"
    using m r0 by (auto simp: match_ref_def split: option.splits)
  have len: "length r1 < length s"
    using after_prefix_length [OF r0] after_prefix_length [OF r1] length_py_lstrip [of r0] by simp
  obtain t where t: "close_braces t = Some rest" "length t \<le> length r1"
  proof -
    let ?r2 = "dropWhile name_char r1"
    have a: "length ?r2 \<le> length r1" by (rule length_dropWhile_le)
    have b: "length (dropWhile name_char (tl ?r2)) \<le> length r1"
      using length_dropWhile_le [of name_char "tl ?r2"] a by simp
    show ?thesis using m r0 r1 a b that
      by (auto simp: match_ref_def Let_def split: if_splits)
  qed
  with len close_braces_length [OF t(1)] show ?thesis by simp
qed

text \<open>\<open>finditer\<close>: the matches from left to right, without overlap.\<close>

function find_refs :: "string \<Rightarrow> (string \<times> string option) list" where
  "find_refs s =
     (if s = [] then []
      else case match_ref s of
             Some (nf, rest) \<Rightarrow> nf # find_refs rest
           | None \<Rightarrow> find_refs (tl s))"
  by auto

termination find_refs
  by (relation "measure length") (auto dest: match_ref_length)

declare find_refs.simps [simp del]

definition field_or_value :: "string option \<Rightarrow> string" where
  "field_or_value f = (case f of None \<Rightarrow> ''value'' | Some x \<Rightarrow> x)"

definition references :: "string \<Rightarrow> (string \<times> string) list" where
  "references text = map (\<lambda>(n, f). (n, field_or_value f)) (find_refs text)"

section \<open>Resolution\<close>

text \<open>
  \<open>pattern.sub\<close> for one pair: the pattern has the field as an optional group, so it also matches a
  reference to the same name that gives no field.
\<close>

definition sub_hits :: "string \<Rightarrow> string \<Rightarrow> string \<times> string option \<Rightarrow> bool" where
  "sub_hits name field nf = (fst nf = name \<and> (snd nf = None \<or> snd nf = Some field))"

function sub_ref :: "string \<Rightarrow> string \<Rightarrow> string \<Rightarrow> string \<Rightarrow> string" where
  "sub_ref name field v s =
     (if s = [] then []
      else case match_ref s of
             Some (nf, rest) \<Rightarrow>
               (if sub_hits name field nf then v @ sub_ref name field v rest
                else hd s # sub_ref name field v (tl s))
           | None \<Rightarrow> hd s # sub_ref name field v (tl s))"
  by auto

termination sub_ref
  by (relation "measure (\<lambda>(_, _, _, s). length s)") (auto dest: match_ref_length)

declare sub_ref.simps [simp del]

type_synonym secret = "(string \<times> string) list"

definition cached_secret ::
  "(string \<Rightarrow> secret res) \<Rightarrow> (string \<times> secret) list \<Rightarrow> string \<Rightarrow> secret res" where
  "cached_secret get_secret cache name =
     (case map_of cache name of
        Some s \<Rightarrow> Inr s
      | None \<Rightarrow>
          (case get_secret name of
             Inr s \<Rightarrow> Inr s
           | Inl _ \<Rightarrow> Inl (OtherError (''vault credential '' @ name @ '' could not be read''))))"

fun resolve_loop ::
  "(string \<Rightarrow> secret res) \<Rightarrow> (string \<times> string) list \<Rightarrow> (string \<times> secret) list
   \<Rightarrow> string \<Rightarrow> string list \<Rightarrow> (string \<times> string list) res" where
  "resolve_loop get_secret [] cache resolved values = Inr (resolved, values)"
| "resolve_loop get_secret ((name, field) # refs) cache resolved values =
     bind_res (cached_secret get_secret cache name) (\<lambda>s.
       case map_of s field of
         None \<Rightarrow> Inl (OtherError (''vault credential '' @ name @ '' has no field '' @ field))
       | Some v \<Rightarrow>
           resolve_loop get_secret refs (AList.update name s cache)
             (sub_ref name field v resolved) (values @ [v]))"

definition resolve ::
  "string \<Rightarrow> (string \<Rightarrow> secret res) option \<Rightarrow> (string \<times> string list) res" where
  "resolve text vault =
     (if references text = [] then Inr (text, [])
      else case vault of
             None \<Rightarrow> Inl (OtherError ''this artifact references vault credentials but no vault is configured'')
           | Some get_secret \<Rightarrow> resolve_loop get_secret (references text) [] text [])"

section \<open>Redaction\<close>

definition redacted :: string where
  "redacted = ''***''"

text \<open>\<open>s.replace(old, new)\<close> for a non-empty \<open>old\<close>.\<close>

function py_replace :: "string \<Rightarrow> string \<Rightarrow> string \<Rightarrow> string" where
  "py_replace old new s =
     (if s = [] \<or> old = [] then s
      else if prefix old s then new @ py_replace old new (drop (length old) s)
      else hd s # py_replace old new (tl s))"
  by auto

termination py_replace
  by (relation "measure (\<lambda>(_, _, s). length s)") auto

declare py_replace.simps [simp del]

definition redact :: "string \<Rightarrow> string list \<Rightarrow> string" where
  "redact text values =
     (if text = [] \<or> values = [] then text
      else foldl (\<lambda>out v. if v \<noteq> [] then py_replace v redacted out else out) text values)"

section \<open>Literal credentials\<close>

text \<open>\<open>\w\<close> for code points below 256.\<close>

definition word_char :: "char \<Rightarrow> bool" where
  "word_char c =
     (let n = (of_char c :: nat) in
      is_alnum c \<or> c = CHR ''_'' \<or> n \<in> {170, 178, 179, 181, 185, 186, 188, 189, 190}
      \<or> (192 \<le> n \<and> n \<noteq> 215 \<and> n \<noteq> 247))"

definition secret_keys :: "string list" where
  "secret_keys =
     [''password'', ''passwd'', ''secret'', ''apikey'', ''api_key'', ''api-key'', ''token'',
      ''privatekey'', ''private_key'', ''private-key'']"

text \<open>The key that starts here, case ignored, with a word boundary on either side.\<close>

definition key_here :: "bool \<Rightarrow> string \<Rightarrow> string option" where
  "key_here after_word s =
     (if after_word then None
      else map_option (\<lambda>k. take (length k) s)
             (find (\<lambda>k. prefix k (py_lower s)
                \<and> (drop (length k) s = [] \<or> \<not> word_char (hd (drop (length k) s)))) secret_keys))"

definition drop_quote :: "string \<Rightarrow> string" where
  "drop_quote s = (if s \<noteq> [] \<and> (hd s = CHR 0x22 \<or> hd s = CHR 0x27) then tl s else s)"

definition is_vault_ref_start :: "string \<Rightarrow> bool" where
  "is_vault_ref_start s =
     (case after_prefix ''{{'' s of
        None \<Rightarrow> False
      | Some r \<Rightarrow> prefix ''vault.'' (py_lower (py_lstrip r)))"

definition angle_placeholder :: "string \<Rightarrow> bool" where
  "angle_placeholder s =
     (s \<noteq> [] \<and> hd s = CHR ''<'' \<and> tl s \<noteq> [] \<and> hd (tl s) \<noteq> CHR ''>'' \<and> CHR ''>'' \<in> set (tl s))"

definition is_placeholder :: "string \<Rightarrow> bool" where
  "is_placeholder s =
     (prefix ''changeme'' (py_lower s) \<or> prefix ''xxx'' (py_lower s) \<or> prefix ''...'' s
      \<or> angle_placeholder s \<or> prefix ''${'' s)"

definition value_char :: "char \<Rightarrow> bool" where
  "value_char c = (\<not> py_isspace c \<and> c \<noteq> CHR 0x22 \<and> c \<noteq> CHR 0x27 \<and> c \<noteq> CHR ''#'')"

text \<open>The key and the rest after the value, if an assignment of a literal starts here.\<close>

definition match_literal :: "bool \<Rightarrow> string \<Rightarrow> (string \<times> string) option" where
  "match_literal after_word s =
     (case key_here after_word s of
        None \<Rightarrow> None
      | Some k \<Rightarrow>
          (let r = py_lstrip (drop (length k) s) in
           if r = [] \<or> (hd r \<noteq> CHR '':'' \<and> hd r \<noteq> CHR ''='') then None
           else let v = drop_quote (py_lstrip (tl r)) in
             if is_vault_ref_start v \<or> is_placeholder v then None
             else if length (takeWhile value_char v) < 8 then None
             else Some (k, dropWhile value_char v)))"

lemma match_literal_length:
  assumes "match_literal a s = Some (k, rest)"
  shows "length rest < length s"
proof -
  let ?r = "py_lstrip (drop (length k) s)"
  let ?v = "drop_quote (py_lstrip (tl ?r))"
  have r: "?r \<noteq> []" and rest: "rest = dropWhile value_char ?v"
    using assms by (auto simp: match_literal_def Let_def split: option.splits if_splits)
  have "length rest \<le> length ?v" unfolding rest by (rule length_dropWhile_le)
  also have "\<dots> \<le> length (py_lstrip (tl ?r))" by (simp add: drop_quote_def)
  also have "\<dots> \<le> length (tl ?r)" by (rule length_py_lstrip)
  also have "\<dots> < length ?r" using r by (cases ?r) auto
  also have "\<dots> \<le> length s" using length_py_lstrip [of "drop (length k) s"] by simp
  finally show ?thesis .
qed

text \<open>
  What follows a match is the end, a blank, a quote or a hash mark, where no key starts, so the
  boundary flag does not matter there.
\<close>

function literal_scan :: "bool \<Rightarrow> string \<Rightarrow> string list" where
  "literal_scan after_word s =
     (if s = [] then []
      else case match_literal after_word s of
             Some (k, rest) \<Rightarrow> k # literal_scan True rest
           | None \<Rightarrow> literal_scan (word_char (hd s)) (tl s))"
  by auto

termination literal_scan
  by (relation "measure (\<lambda>(_, s). length s)") (auto dest: match_literal_length)

declare literal_scan.simps [simp del]

definition add_new :: "string list \<Rightarrow> string \<Rightarrow> string list" where
  "add_new found key = (if key \<in> set found then found else found @ [key])"

definition literal_secrets :: "string \<Rightarrow> string list" where
  "literal_secrets text = foldl add_new [] (literal_scan False text)"

section \<open>What redaction guarantees\<close>

lemma py_replace_Nil [simp]: "py_replace old new [] = []"
  by (simp add: py_replace.simps)

text \<open>
  A text \<open>w\<close> without stars that occurs after replacing something by stars occurred before it: the
  stars cut the result into pieces of the original.
\<close>

lemma py_replace_empty [simp]: "py_replace [] new s = s"
  by (subst py_replace.simps) simp

lemma py_replace_hit:
  "v \<noteq> [] \<Longrightarrow> prefix v s \<Longrightarrow>
   py_replace v redacted s = redacted @ py_replace v redacted (drop (length v) s)"
  by (cases "s = []") (simp_all add: py_replace.simps [of v redacted s])

lemma py_replace_miss:
  "\<not> prefix v s \<Longrightarrow> py_replace v redacted s = (case s of [] \<Rightarrow> [] | c # cs \<Rightarrow> c # py_replace v redacted cs)"
  by (cases s) (auto simp: py_replace.simps [of v redacted "_ # _"])

lemma sublist_after_stars:
  "CHR ''*'' \<notin> set w \<Longrightarrow> w \<noteq> [] \<Longrightarrow> sublist w (redacted @ t) \<longleftrightarrow> sublist w t"
  by (cases w) (auto simp: redacted_def sublist_Cons_right)

lemma prefix_py_replace:
  "CHR ''*'' \<notin> set w \<Longrightarrow> prefix w (py_replace v redacted s) \<Longrightarrow> prefix w s"
proof (induction w arbitrary: s)
  case Nil
  then show ?case by simp
next
  case (Cons c w)
  show ?case
  proof (cases "v = []")
    case True
    then show ?thesis using Cons.prems by simp
  next
    case ne: False
    show ?thesis
    proof (cases "prefix v s")
      case True
      then show ?thesis using Cons.prems py_replace_hit [OF ne True] by (auto simp: redacted_def)
    next
      case False
      then show ?thesis using Cons py_replace_miss [OF False] by (cases s) auto
    qed
  qed
qed

lemma sublist_py_replace:
  assumes w: "CHR ''*'' \<notin> set w" "w \<noteq> []"
  shows "sublist w (py_replace v redacted s) \<Longrightarrow> sublist w s"
proof (induction s rule: measure_induct_rule [where f = length])
  case (less s)
  show ?case
  proof (cases "v = [] \<or> s = []")
    case True
    then show ?thesis using less.prems by auto
  next
    case ne: False
    show ?thesis
    proof (cases "prefix v s")
      case True
      then have "sublist w (py_replace v redacted (drop (length v) s))"
        using less.prems ne w by (simp add: py_replace_hit sublist_after_stars)
      then have "sublist w (drop (length v) s)" using less.IH ne by simp
      then show ?thesis 
        by (metis append_take_drop_id sublist_appendI sublist_def append.assoc)
    next
      case False
      obtain c cs where s: "s = c # cs" using ne by (cases s) auto
      have r: "py_replace v redacted s = c # py_replace v redacted cs"
        using False s by (simp add: py_replace_miss)
      from less.prems [unfolded r] consider "prefix w (c # py_replace v redacted cs)"
        | "sublist w (py_replace v redacted cs)"
        by (auto simp: sublist_Cons_right)
      then show ?thesis
      proof cases
        case 1
        then have "prefix w s" using prefix_py_replace [OF w(1)] r by metis
        then show ?thesis by (rule prefix_imp_sublist)
      next
        case 2
        then show ?thesis using less.IH [of cs] s by (simp add: sublist_Cons_right)
      qed
    qed
  qed
qed

lemma py_replace_removes:
  assumes v: "CHR ''*'' \<notin> set v" "v \<noteq> []"
  shows "\<not> sublist v (py_replace v redacted s)"
proof (induction s rule: measure_induct_rule [where f = length])
  case (less s)
  show ?case
  proof (cases "prefix v s")
    case True
    then have "length (drop (length v) s) < length s" using v by (cases s) auto
    then show ?thesis using less.IH True v by (simp add: py_replace_hit sublist_after_stars)
  next
    case False
    show ?thesis
    proof (cases s)
      case Nil
      then show ?thesis using v by simp
    next
      case (Cons c cs)
      have r: "py_replace v redacted s = c # py_replace v redacted cs"
        using False Cons by (simp add: py_replace_miss)
      have "\<not> prefix v (py_replace v redacted s)"
        using False prefix_py_replace [OF v(1)] by blast
      moreover have "\<not> sublist v (py_replace v redacted cs)" using less.IH Cons by simp
      ultimately show ?thesis unfolding r by (simp add: sublist_Cons_right)
    qed
  qed
qed

definition redact_one :: "string \<Rightarrow> string \<Rightarrow> string" where
  "redact_one out v = (if v \<noteq> [] then py_replace v redacted out else out)"

lemma redact_fold: "redact tx values = foldl redact_one tx values"
proof -
  have "foldl redact_one [] vs = []" for vs
    by (induction vs) (auto simp: redact_one_def)
  moreover have "redact_one = (\<lambda>out v. if v \<noteq> [] then py_replace v redacted out else out)"
    by (intro ext) (simp add: redact_one_def)
  ultimately show ?thesis by (simp add: redact_def)
qed

lemma sublist_redact_fold:
  "CHR ''*'' \<notin> set w \<Longrightarrow> w \<noteq> [] \<Longrightarrow> sublist w (foldl redact_one tx vs) \<Longrightarrow> sublist w tx"
  by (induction vs arbitrary: tx) (auto simp: redact_one_def dest: sublist_py_replace split: if_splits)

lemma redact_removes:
  "v \<in> set vs \<Longrightarrow> v \<noteq> [] \<Longrightarrow> CHR ''*'' \<notin> set v \<Longrightarrow> \<not> sublist v (foldl redact_one tx vs)"
proof (induction vs arbitrary: tx)
  case (Cons u vs)
  show ?case
  proof (cases "v \<in> set vs")
    case True
    then show ?thesis using Cons by simp
  next
    case False
    then have "u = v" using Cons.prems by simp
    then have "\<not> sublist v (redact_one tx u)"
      using Cons.prems by (simp add: redact_one_def py_replace_removes)
    then show ?thesis using sublist_redact_fold Cons.prems by auto
  qed
qed simp

section \<open>What resolution guarantees\<close>

lemma resolve_loop_values:
  assumes "\<forall>n s. map_of cache n = Some s \<longrightarrow> get_secret n = Inr s"
  shows "resolve_loop get_secret refs cache tx vs = Inr (out, ws) \<Longrightarrow>
    \<exists>us. ws = vs @ us \<and> list_all2 (\<lambda>(n, f) v. \<exists>s. get_secret n = Inr s \<and> map_of s f = Some v) refs us"
  using assms
proof (induction refs arbitrary: cache tx vs)
  case Nil
  then show ?case by simp
next
  case (Cons nf refs)
  obtain n f where nf: "nf = (n, f)" by fastforce
  obtain s v where s: "cached_secret get_secret cache n = Inr s" and v: "map_of s f = Some v"
    and rec: "resolve_loop get_secret refs (AList.update n s cache) (sub_ref n f v tx) (vs @ [v])
              = Inr (out, ws)"
    using Cons.prems(1) nf by (auto simp: bind_res_eq_Inr split: option.splits)
  have g: "get_secret n = Inr s"
    using s Cons.prems(2) by (auto simp: cached_secret_def split: option.splits sum.splits)
  have "\<forall>m t. map_of (AList.update n s cache) m = Some t \<longrightarrow> get_secret m = Inr t"
    using g Cons.prems(2) by simp
  then obtain us where us: "ws = (vs @ [v]) @ us"
    and "list_all2 (\<lambda>(n, f) v. \<exists>s. get_secret n = Inr s \<and> map_of s f = Some v) refs us"
    using Cons.IH [OF rec] by auto
  then show ?case using g v nf by (intro exI [of _ "v # us"]) auto
qed

section \<open>Properties\<close>

text \<open>
  C34: redaction is complete.  After \<open>redact(text, values)\<close> no non-empty secret value without a star
  occurs in the text, in whatever order the values come and however they overlap; and nothing is
  brought into the text by it: any star-free string of the result was in the input.
\<close>

theorem redact_complete:
  assumes "v \<in> set values" and "v \<noteq> []" and "CHR ''*'' \<notin> set v"
  shows "\<not> py_in v (redact tx values)
         \<and> (\<forall>w. w \<noteq> [] \<and> CHR ''*'' \<notin> set w \<and> py_in w (redact tx values) \<longrightarrow> py_in w tx)"
  using redact_removes [OF assms] sublist_redact_fold
  by (auto simp: redact_fold py_in_iff_sublist)

theorem redact_complete_witness:
  "\<not> py_in ''hunter2'' (redact ''pw=hunter2 again hunter2'' [''tok'', ''hunter2''])"
  using redact_complete [of "''hunter2''" "[''tok'', ''hunter2'']" "''pw=hunter2 again hunter2''"]
  by simp

text \<open>
  resolution never guesses.  If it succeeds then every reference of the body named a readable
  secret that has the field, and the values it returns for redaction are exactly those, in order;
  a body without references is returned as it is, whether or not a vault is configured.
\<close>

theorem resolve_sound:
  assumes "resolve tx vault = Inr (out, values)"
  shows "(references tx = [] \<longrightarrow> out = tx \<and> values = [])
    \<and> (references tx \<noteq> [] \<longrightarrow>
        (\<exists>get_secret. vault = Some get_secret
          \<and> list_all2 (\<lambda>(n, f) v. \<exists>s. get_secret n = Inr s \<and> map_of s f = Some v)
              (references tx) values))"
  using assms resolve_loop_values [of "[]" _ "references tx" tx "[]" out "values"]
  by (auto simp: resolve_def split: if_splits option.splits)

lemmas secret_eval = references_def find_refs.simps match_ref_def after_prefix_def py_lstrip_def
  name_char_def is_alnum_def is_lower_def is_upper_def is_digit_def py_isspace_def close_braces_def
  field_or_value_def resolve_def cached_secret_def sub_ref.simps sub_hits_def Let_def

theorem resolve_sound_witness:
  "\<exists>get_secret :: string \<Rightarrow> secret res. Some (\<lambda>_. Inr [(''password'', ''hunter2'')]) = Some get_secret
     \<and> list_all2 (\<lambda>(n, f) v. \<exists>s. get_secret n = Inr s \<and> map_of s f = Some v)
          (references ''pw={{ vault.db.password }}'') [''hunter2'']"
proof -
  have r: "references ''pw={{ vault.db.password }}'' \<noteq> []"
    by (simp add: secret_eval)
  have "resolve ''pw={{ vault.db.password }}'' (Some (\<lambda>_. Inr [(''password'', ''hunter2'')]))
      = Inr (''pw=hunter2'', [''hunter2''])"
    by (simp add: secret_eval)
  then show ?thesis by (rule resolve_sound [THEN conjunct2, THEN mp, OF _ r])
qed

text \<open>
  a reference without a field can get the wrong one.  \<open>{{ vault.db }}\<close> means the field \<open>value\<close>,
  but the substitution for \<open>{{ vault.db.password }}\<close> also replaces it, so the second reference here
  is filled with the password although the secret has a value.
\<close>

theorem resolve_wrong_field:
  "references ''{{vault.db.password}} {{vault.db}}'' = [(''db'', ''password''), (''db'', ''value'')]
   \<and> resolve ''{{vault.db.password}} {{vault.db}}''
        (Some (\<lambda>_. Inr [(''password'', ''P''), (''value'', ''V'')]))
      = Inr (''P P'', [''P'', ''V''])"
  by (simp add: secret_eval)

text \<open>
  a secret that contains another leaks.  Values are taken out in the order they were resolved, so a
  value that is a part of a later one breaks it up, and the rest of the longer secret stays in the
  log.
\<close>

theorem redact_leaks_remainder:
  "redact ''token=hunter2-extended'' [''hunter2'', ''hunter2-extended''] = ''token=***-extended''"
  by (simp add: redact_def py_replace.simps redacted_def)

end
