(* ===== verification/Rollback.thy ===== *)
theory Rollback
  imports Secrets
begin

text \<open>
  Which artifacts can be reversed: \<^verbatim>\<open>executor/rollback.py\<close>.  \<open>rollback\<close> in the frontmatter is
  derived from the kind and the body at propose time.
\<close>

section \<open>Rollback fences\<close>

definition rollback_fence_by_kind :: "artifact_kind \<Rightarrow> string option" where
  "rollback_fence_by_kind k =
     (case k of
        ANSIBLE_PLAYBOOK \<Rightarrow> Some ''ansible-rollback''
      | PROXMOX_API_SEQUENCE \<Rightarrow> Some ''proxmox-api-rollback''
      | HTTP_SEQUENCE \<Rightarrow> Some ''http-rollback''
      | SHELL_SCRIPT \<Rightarrow> Some ''shell-rollback''
      | _ \<Rightarrow> None)"

definition always_reversible :: "artifact_kind \<Rightarrow> bool" where
  "always_reversible k = (k \<in> {COMPOSITE, HOST_PROVISION})"

definition kind_can_roll_back :: "artifact_kind \<Rightarrow> bool" where
  "kind_can_roll_back k = (rollback_fence_by_kind k \<noteq> None \<or> always_reversible k)"

text \<open>
  \<open>^```\s*\w+\s+FENCE\s*$\<close> with \<open>re.MULTILINE\<close>: at the start of a line; the last part holds when the
  run of blanks after the fence name holds a newline or reaches the end of the body.
\<close>

definition opening_fence_here :: "string \<Rightarrow> string \<Rightarrow> bool" where
  "opening_fence_here fence s =
     (case after_prefix backticks s of
        None \<Rightarrow> False
      | Some r \<Rightarrow>
          (let r1 = py_lstrip r; r2 = dropWhile word_char r1 in
           takeWhile word_char r1 \<noteq> [] \<and> r2 \<noteq> [] \<and> py_isspace (hd r2)
           \<and> (case after_prefix fence (py_lstrip r2) of
                None \<Rightarrow> False
              | Some r3 \<Rightarrow>
                  (let ws = takeWhile py_isspace r3 in nl \<in> set ws \<or> ws = r3))))"

fun line_starts :: "string \<Rightarrow> string list" where
  "line_starts [] = []"
| "line_starts (c # cs) = (if c = nl then cs # line_starts cs else line_starts cs)"

definition has_rollback_section :: "artifact_kind \<Rightarrow> string \<Rightarrow> bool" where
  "has_rollback_section k body =
     (case rollback_fence_by_kind k of
        None \<Rightarrow> False
      | Some fence \<Rightarrow> list_ex (opening_fence_here fence) (body # line_starts body))"

definition derive_rollback :: "artifact_kind \<Rightarrow> string \<Rightarrow> bool" where
  "derive_rollback k body = (if always_reversible k then True else has_rollback_section k body)"

section \<open>Properties\<close>

lemma derive_implies_can: "derive_rollback k body \<Longrightarrow> kind_can_roll_back k"
  by (auto simp: derive_rollback_def has_rollback_section_def kind_can_roll_back_def
      split: if_splits option.splits)

lemma kb_note_irreversible [simp]: "\<not> kind_can_roll_back KB_NOTE" "\<not> kind_can_roll_back GUEST_NETWORK"
  by (simp_all add: kind_can_roll_back_def rollback_fence_by_kind_def always_reversible_def)

end
