(* ===== verification/Net_IPv4.thy ===== *)
theory Net_IPv4
  imports HP_Prelude
begin

text \<open>
  The part of Python's \<open>ipaddress\<close> module that the guest network and the address allocator use:
  parsing and printing IPv4 addresses and networks, and membership.  An address is the number it
  stands for, below \<open>2^32\<close>; a network is its address and its prefix length.
\<close>

type_synonym ipv4 = nat

section \<open>Addresses\<close>

text \<open>An octet has one to three decimal digits, no leading zero and a value up to 255.\<close>

definition parse_octet :: "string \<Rightarrow> nat option" where
  "parse_octet s =
     (if s = [] \<or> \<not> list_all is_digit s \<or> 3 < length s then None
      else if s \<noteq> ''0'' \<and> hd s = CHR ''0'' then None
      else if 255 < nat_of_digits s then None
      else Some (nat_of_digits s))"

definition parse_ipv4 :: "string \<Rightarrow> ipv4 option" where
  "parse_ipv4 s =
     (case map parse_octet (split_on (CHR ''.'') s) of
        [Some a, Some b, Some c, Some d] \<Rightarrow> Some (((a * 256 + b) * 256 + c) * 256 + d)
      | _ \<Rightarrow> None)"

definition str_ipv4 :: "ipv4 \<Rightarrow> string" where
  "str_ipv4 a =
     join ''.'' [digits_nat (a div 16777216 mod 256), digits_nat (a div 65536 mod 256),
                 digits_nat (a div 256 mod 256), digits_nat (a mod 256)]"

section \<open>Networks\<close>

record ipv4_net =
  net_addr :: ipv4
  net_len :: nat

definition net_size :: "ipv4_net \<Rightarrow> nat" where
  "net_size n = 2 ^ (32 - net_len n)"

definition in_net :: "ipv4 \<Rightarrow> ipv4_net \<Rightarrow> bool" where
  "in_net a n = (a - a mod net_size n = net_addr n)"

definition str_net :: "ipv4_net \<Rightarrow> string" where
  "str_net n = str_ipv4 (net_addr n) @ ''/'' @ digits_nat (net_len n)"

text \<open>The mask after the slash: a prefix length, a netmask or a host mask.\<close>

definition mask_of_len :: "nat \<Rightarrow> nat" where
  "mask_of_len p = 2 ^ 32 - 2 ^ (32 - p)"

definition parse_mask :: "string \<Rightarrow> nat option" where
  "parse_mask s =
     (if s \<noteq> [] \<and> list_all is_digit s \<and> nat_of_digits s \<le> 32 then Some (nat_of_digits s)
      else case parse_ipv4 s of
             None \<Rightarrow> None
           | Some m \<Rightarrow>
               (case find (\<lambda>p. m = mask_of_len p) [0..<33] of
                  Some p \<Rightarrow> Some p
                | None \<Rightarrow> find (\<lambda>p. 2 ^ 32 - 1 - m = mask_of_len p) [0..<33]))"

text \<open>\<open>ip_network(text, strict=True)\<close>, where it gives an IPv4 network.\<close>

definition parse_net :: "string \<Rightarrow> ipv4_net option" where
  "parse_net s =
     (case split_on (CHR ''/'') s of
        [a] \<Rightarrow> map_option (\<lambda>i. \<lparr>net_addr = i, net_len = 32\<rparr>) (parse_ipv4 a)
      | [a, m] \<Rightarrow>
          (case (parse_ipv4 a, parse_mask m) of
             (Some i, Some p) \<Rightarrow>
               (if i mod 2 ^ (32 - p) = 0 then Some \<lparr>net_addr = i, net_len = p\<rparr> else None)
           | _ \<Rightarrow> None)
      | _ \<Rightarrow> None)"

section \<open>Round trips\<close>

lemma digits_nat_length: "n < 10 ^ k \<Longrightarrow> 0 < k \<Longrightarrow> length (digits_nat n) \<le> k"
proof (induction k arbitrary: n)
  case (Suc k)
  show ?case
  proof (cases "n < 10")
    case True
    then show ?thesis by (subst digits_nat.simps) simp
  next
    case False
    then have k: "0 < k" using Suc.prems by (cases k) auto
    have "n div 10 < 10 ^ k" using Suc.prems by (simp add: less_mult_imp_div_less mult.commute)
    then have "length (digits_nat (n div 10)) \<le> k" using Suc.IH k by blast
    then show ?thesis using False by (subst digits_nat.simps) simp
  qed
qed simp

lemma digits_nat_no_leading_zero: "0 < n \<Longrightarrow> hd (digits_nat n) \<noteq> CHR ''0''"
proof (induction n rule: digits_nat.induct)
  case (1 n)
  show ?case
  proof (cases "n < 10")
    case True
    have "char_of (48 + n) \<noteq> (CHR ''0'' :: char)"
    proof
      assume "char_of (48 + n) = (CHR ''0'' :: char)"
      then have "(of_char (char_of (48 + n) :: char) :: nat) = of_char (CHR ''0'')" by simp
      then show False using True 1(2) by simp
    qed
    then show ?thesis using True by (subst digits_nat.simps) simp
  next
    case False
    then have "hd (digits_nat (n div 10)) \<noteq> CHR ''0''" using 1 by simp
    then show ?thesis using False by (subst digits_nat.simps) (simp add: hd_append)
  qed
qed

lemma parse_octet_digits: "n < 256 \<Longrightarrow> parse_octet (digits_nat n) = Some n"
proof -
  assume n: "n < 256"
  have len: "length (digits_nat n) \<le> 3" using digits_nat_length [of n 3] n by simp
  have all: "list_all is_digit (digits_nat n)" using digits_nat_all_digits by (simp add: list_all_iff)
  have lead: "digits_nat n \<noteq> ''0'' \<Longrightarrow> hd (digits_nat n) \<noteq> CHR ''0''"
  proof (cases n)
    case 0
    then show "digits_nat n \<noteq> ''0'' \<Longrightarrow> ?thesis" by (simp add: digits_nat.simps)
  qed (simp add: digits_nat_no_leading_zero)
  show ?thesis using n len all lead by (auto simp: parse_octet_def)
qed

lemma digits_nat_no_char: "\<not> is_digit c \<Longrightarrow> c \<notin> set (digits_nat n)"
  using digits_nat_all_digits by blast

lemma not_digit [simp]: "\<not> is_digit (CHR ''.'')" "\<not> is_digit (CHR ''/'')" "\<not> is_digit (CHR ''-'')"
  by (simp_all add: is_digit_def)

lemma split_str_ipv4:
  "split_on (CHR ''.'') (str_ipv4 a) =
     [digits_nat (a div 16777216 mod 256), digits_nat (a div 65536 mod 256),
      digits_nat (a div 256 mod 256), digits_nat (a mod 256)]"
  unfolding str_ipv4_def by (rule split_on_join) (auto simp: digits_nat_no_char)

lemma octets_value:
  assumes "(a :: nat) < 2 ^ 32"
  shows "((a div 16777216 mod 256 * 256 + a div 65536 mod 256) * 256 + a div 256 mod 256) * 256
           + a mod 256 = a"
proof -
  have c: "a div 65536 = a div 256 div 256" and d: "a div 16777216 = a div 256 div 256 div 256"
    by (simp_all add: div_mult2_eq [symmetric])
  have "a div 16777216 < 256" using assms by (simp add: less_mult_imp_div_less)
  then have "a div 16777216 mod 256 * 256 + a div 65536 mod 256 = a div 256 div 256"
    unfolding c d by (simp add: div_mult_mod_eq)
  then show ?thesis by (simp only: div_mult_mod_eq)
qed

lemma parse_str_ipv4: "a < 2 ^ 32 \<Longrightarrow> parse_ipv4 (str_ipv4 a) = Some a"
  by (simp only: parse_ipv4_def split_str_ipv4 list.map parse_octet_digits mod_less_divisor
      zero_less_numeral list.case option.case octets_value)

lemma parse_octet_bound: "parse_octet s = Some n \<Longrightarrow> n < 256"
  by (auto simp: parse_octet_def split: if_splits)

lemma parse_ipv4_bound: "parse_ipv4 s = Some a \<Longrightarrow> a < 2 ^ 32"
proof -
  assume "parse_ipv4 s = Some a"
  then obtain w x y z where o: "Some w \<in> set (map parse_octet (split_on (CHR ''.'') s))"
      "Some x \<in> set (map parse_octet (split_on (CHR ''.'') s))"
      "Some y \<in> set (map parse_octet (split_on (CHR ''.'') s))"
      "Some z \<in> set (map parse_octet (split_on (CHR ''.'') s))"
    and a: "a = ((w * 256 + x) * 256 + y) * 256 + z"
    unfolding parse_ipv4_def by (auto split: list.splits option.splits simp del: set_map)
  have "w < 256" "x < 256" "y < 256" "z < 256"
    using o parse_octet_bound by (auto simp: image_iff)
  then show ?thesis unfolding a by simp
qed

lemma str_ipv4_no_char: "\<not> is_digit c \<Longrightarrow> c \<noteq> CHR ''.'' \<Longrightarrow> c \<notin> set (str_ipv4 a)"
  by (auto simp: str_ipv4_def digits_nat_no_char)

lemma str_ipv4_not_Nil [simp]: "str_ipv4 a \<noteq> []"
  by (simp add: str_ipv4_def)

text \<open>A network as \<open>ip_network\<close> returns it.\<close>

definition wf_net :: "ipv4_net \<Rightarrow> bool" where
  "wf_net n = (net_addr n < 2 ^ 32 \<and> net_len n \<le> 32 \<and> net_addr n mod net_size n = 0)"

lemma find_upt_bound: "find P [0..<n] = Some p \<Longrightarrow> p < n"
  by (auto simp: find_Some_iff)

lemma parse_mask_bound: "parse_mask s = Some p \<Longrightarrow> p \<le> 32"
  using find_upt_bound [of _ 33 p] by (fastforce simp: parse_mask_def split: if_splits option.splits)

lemma parse_net_wf: "parse_net s = Some n \<Longrightarrow> wf_net n"
  by (auto simp: parse_net_def wf_net_def net_size_def parse_mask_bound dest: parse_ipv4_bound
      split: list.splits option.splits if_splits)

lemma parse_str_net: "wf_net n \<Longrightarrow> parse_net (str_net n) = Some n"
proof -
  assume n: "wf_net n"
  have "split_on (CHR ''/'') (str_net n) = [str_ipv4 (net_addr n), digits_nat (net_len n)]"
    by (simp add: str_net_def split_on_append_sep split_on_no_sep str_ipv4_no_char digits_nat_no_char)
  moreover have "parse_mask (digits_nat (net_len n)) = Some (net_len n)"
    using n digits_nat_all_digits by (auto simp: parse_mask_def wf_net_def list_all_iff)
  ultimately show ?thesis
    using n by (simp add: parse_net_def parse_str_ipv4 wf_net_def net_size_def)
qed

lemma in_net_bounds:
  "wf_net n \<Longrightarrow> in_net a n \<longleftrightarrow> net_addr n \<le> a \<and> a < net_addr n + net_size n"
proof -
  assume n: "wf_net n"
  then obtain k where k: "net_addr n = k * net_size n" 
    by (metis wf_net_def mod_eq_0_iff_dvd dvd_def mult.commute)
  have pos: "0 < net_size n" by (simp add: net_size_def)
  have "a - a mod net_size n = (a div net_size n) * net_size n"
    by (simp add: minus_mod_eq_div_mult)
  moreover have "(a div net_size n = k) = (k * net_size n \<le> a \<and> a < k * net_size n + net_size n)"
    using pos by (metis add.commute div_nat_eqI dividend_less_div_times less_eq_div_iff_mult_less_eq
        mult.commute mult_Suc order_refl)
  ultimately show ?thesis using pos k by (simp add: in_net_def)
qed

end
