(* ===== verification/Guest_Network.thy ===== *)
theory Guest_Network
  imports Net_IPv4 Artifact_Models
begin

text \<open>
  The guest network: \<^verbatim>\<open>provision/guest_network.py\<close>, the lock-out guard of
  \<^verbatim>\<open>adapters/pve_sdn.py\<close> it calls, and \<^verbatim>\<open>parse_guest_network_spec\<close> of
  \<^verbatim>\<open>artifacts/models.py\<close>.  A desired network is validated when it is constructed; \<open>survey\<close>
  reads the cluster, \<open>plan\<close> is desired minus current and \<open>execute\<close> runs the steps of a plan.

  The Proxmox gateway is an argument: a record of reads for the survey, and for execute a function
  from an operation name to a state transformer.  Cluster rows are JSON mappings.  The texts of
  errors that quote the \<open>ipaddress\<close> module give its usual message.
\<close>

section \<open>Validators\<close>

definition validate_name :: "jval \<Rightarrow> string \<Rightarrow> string res" where
  "validate_name v field_name =
     (let t = py_strip (str_or_empty v) in
      if dollar (\<lambda>s. 1 \<le> length s \<and> length s \<le> 8 \<and> is_lower (hd s)
                   \<and> list_all (\<lambda>c. is_lower c \<or> is_digit c) (tl s)) t
      then Inr t
      else Inl (ValueError (field_name @ '' must be 1-8 characters, lower-case letters and digits, ''
             @ ''starting with a letter (PVE stores it in an 8-character field); got '' @ repr_str t)))"

definition validate_network :: "jval \<Rightarrow> string \<Rightarrow> ipv4_net res" where
  "validate_network v field_name =
     (let t = py_strip (str_or_empty v) in
      case parse_net t of
        Some n \<Rightarrow> Inr n
      | None \<Rightarrow> Inl (ValueError (field_name @ '' must be an IPv4 CIDR like 198.51.100.0/24: ''
                   @ repr_str t @ '' does not appear to be an IPv4 or IPv6 network'')))"

definition validate_address :: "jval \<Rightarrow> string \<Rightarrow> ipv4 res" where
  "validate_address v field_name =
     (let t = py_strip (str_or_empty v) in
      case parse_ipv4 t of
        Some a \<Rightarrow> Inr a
      | None \<Rightarrow> Inl (ValueError (field_name @ '' must be an IPv4 address: ''
                   @ repr_str t @ '' does not appear to be an IPv4 or IPv6 address'')))"

definition flag :: "jval \<Rightarrow> bool" where
  "flag v =
     (case v of
        JBool b \<Rightarrow> b
      | JInt i \<Rightarrow> i \<noteq> 0
      | _ \<Rightarrow> py_lower (py_strip (py_str v)) \<in> {''1'', ''true'', ''yes'', ''on''})"

definition parse_range :: "string \<Rightarrow> (ipv4 \<times> ipv4) res" where
  "parse_range raw =
     (case map py_strip (split_on (CHR ''-'') raw) of
        [a, b] \<Rightarrow>
          (if a = [] \<or> b = [] then Inl (ValueError ''dhcp_range must be start-end'')
           else bind_res (validate_address (JStr a) ''dhcp_range start'') (\<lambda>s.
                bind_res (validate_address (JStr b) ''dhcp_range end'') (\<lambda>e. Inr (s, e))))
      | _ \<Rightarrow> Inl (ValueError ''dhcp_range must be start-end''))"

section \<open>The desired network\<close>

record desired_network =
  dg_zone :: string
  dg_vnet :: string
  dg_subnet_cidr :: string
  dg_gateway :: string
  dg_snat :: bool
  dg_dhcp :: bool
  dg_dhcp_range :: string
  dg_dhcp_dns_server :: string
  dg_isolate_cidrs :: "string list"

definition range_string :: "ipv4 \<Rightarrow> ipv4 \<Rightarrow> string" where
  "range_string s e = str_ipv4 s @ ''-'' @ str_ipv4 e"

text \<open>The checks on the DHCP range; the result is the value the field is left with.\<close>

definition check_range :: "jval \<Rightarrow> bool \<Rightarrow> ipv4_net \<Rightarrow> ipv4 \<Rightarrow> string res" where
  "check_range v dhcp subnet gateway =
     (let raw = py_strip (str_or_empty v) in
      if raw \<noteq> [] then
        bind_res (parse_range raw) (\<lambda>(s, e).
          if \<not> in_net s subnet
            then Inl (ValueError (''dhcp_range start address '' @ str_ipv4 s @ '' is not inside subnet''))
          else if \<not> in_net e subnet
            then Inl (ValueError (''dhcp_range end address '' @ str_ipv4 e @ '' is not inside subnet''))
          else if e < s then Inl (ValueError ''dhcp_range ends before it starts'')
          else if s \<le> gateway \<and> gateway \<le> e
            then Inl (ValueError ''dhcp_range contains the gateway'')
          else Inr (range_string s e))
      else if dhcp then Inl (ValueError ''dhcp is on but no dhcp_range is set'')
      else Inr (str_or_empty v))"

definition check_dns :: "jval \<Rightarrow> string res" where
  "check_dns v =
     (if py_strip (str_or_empty v) = [] then Inr (str_or_empty v)
      else bind_res (validate_address (JStr (py_strip (str_or_empty v))) ''dhcp_dns_server'') (\<lambda>a.
             Inr (str_ipv4 a)))"

fun check_cidrs :: "jval list \<Rightarrow> string list res" where
  "check_cidrs [] = Inr []"
| "check_cidrs (raw # rest) =
     (let t = py_strip (str_or_empty raw) in
      if t = [] then check_cidrs rest
      else bind_res (validate_network (JStr t) ''isolate_cidrs'') (\<lambda>n.
           bind_res (check_cidrs rest) (\<lambda>cs. Inr (str_net n # cs))))"

text \<open>
  \<open>DesiredGuestNetwork(**d)\<close>: the dataclass defaults and \<open>__post_init__\<close>.  \<open>isolate_cidrs\<close> is a
  list by the time it gets here.
\<close>

definition dget_or :: "string \<Rightarrow> jval \<Rightarrow> dict \<Rightarrow> jval" where
  "dget_or k dflt d = (case map_of d k of None \<Rightarrow> dflt | Some v \<Rightarrow> v)"

fun jlist :: "jval \<Rightarrow> jval list" where
  "jlist (JList l) = l"
| "jlist _ = []"

definition desired_guest_network :: "dict \<Rightarrow> desired_network res" where
  "desired_guest_network d =
     bind_res (validate_name (dget ''zone'' d) ''zone'') (\<lambda>zone.
     bind_res (validate_name (dget ''vnet'' d) ''vnet'') (\<lambda>vnet.
     bind_res (validate_network (dget ''subnet_cidr'' d) ''subnet_cidr'') (\<lambda>subnet.
     bind_res (validate_address (dget ''gateway'' d) ''gateway'') (\<lambda>gateway.
       if \<not> in_net gateway subnet
       then Inl (ValueError (''gateway '' @ str_ipv4 gateway @ '' is not inside subnet '' @ str_net subnet))
       else
         let snat = flag (dget_or ''snat'' (JBool True) d);
             dhcp = flag (dget_or ''dhcp'' (JBool True) d) in
         bind_res (check_range (dget_or ''dhcp_range'' (JStr []) d) dhcp subnet gateway) (\<lambda>rng.
         bind_res (check_dns (dget_or ''dhcp_dns_server'' (JStr []) d)) (\<lambda>dns.
         bind_res (check_cidrs (jlist (dget ''isolate_cidrs'' d))) (\<lambda>cidrs.
           Inr \<lparr>dg_zone = zone, dg_vnet = vnet, dg_subnet_cidr = str_net subnet,
                dg_gateway = str_ipv4 gateway, dg_snat = snat, dg_dhcp = dhcp,
                dg_dhcp_range = rng, dg_dhcp_dns_server = dns, dg_isolate_cidrs = cidrs\<rparr>)))))))"

definition to_dict :: "desired_network \<Rightarrow> dict" where
  "to_dict g =
     [(''zone'', JStr (dg_zone g)), (''vnet'', JStr (dg_vnet g)),
      (''subnet_cidr'', JStr (dg_subnet_cidr g)), (''gateway'', JStr (dg_gateway g)),
      (''snat'', JBool (dg_snat g)), (''dhcp'', JBool (dg_dhcp g)),
      (''dhcp_range'', JStr (dg_dhcp_range g)), (''dhcp_dns_server'', JStr (dg_dhcp_dns_server g)),
      (''isolate_cidrs'', JList (map JStr (dg_isolate_cidrs g)))]"

text \<open>
  \<open>start, end = self.dhcp_range.split("-", 1)\<close> raises when the field is non-empty and has no dash
  (a blank range with DHCP off).
\<close>

definition dhcp_range_param :: "desired_network \<Rightarrow> string list res" where
  "dhcp_range_param g =
     (if dg_dhcp_range g = [] then Inr []
      else case py_find ''-'' (dg_dhcp_range g) of
             None \<Rightarrow> Inl (ValueError ''not enough values to unpack (expected 2, got 1)'')
           | Some i \<Rightarrow> Inr [''start-address='' @ take i (dg_dhcp_range g)
                          @ '',end-address='' @ drop (Suc i) (dg_dhcp_range g)])"

fun words_by :: "(char \<Rightarrow> bool) \<Rightarrow> string \<Rightarrow> string \<Rightarrow> string list" where
  "words_by P acc [] = (if acc = [] then [] else [rev acc])"
| "words_by P acc (c # cs) =
     (if P c then (if acc = [] then words_by P [] cs else rev acc # words_by P [] cs)
      else words_by P (c # acc) cs)"

definition split_cidrs :: "jval \<Rightarrow> string list" where
  "split_cidrs raw =
     (case raw of
        JNull \<Rightarrow> []
      | JList l \<Rightarrow> filter (\<lambda>s. s \<noteq> []) (map (py_strip \<circ> py_str) l)
      | _ \<Rightarrow> words_by (\<lambda>c. c = CHR '','' \<or> py_isspace c) [] (py_str raw))"

section \<open>The spec in an artifact body\<close>

definition gn_allowed :: "string list" where
  "gn_allowed = [''zone'', ''vnet'', ''subnet_cidr'', ''gateway'', ''snat'', ''dhcp'', ''dhcp_range'',
                 ''dhcp_dns_server'', ''isolate_cidrs'']"

definition update_all :: "dict \<Rightarrow> dict \<Rightarrow> dict" where
  "update_all d e = foldl (\<lambda>m (k, v). AList.update k v m) d e"

definition gn_merge :: "desired_network option \<Rightarrow> dict \<Rightarrow> dict" where
  "gn_merge defaults parsed =
     (let base = (case defaults of None \<Rightarrow> [] | Some g \<Rightarrow> to_dict g);
          merged = update_all base (filter (\<lambda>(_, v). v \<noteq> JNull) parsed);
          iso = (case map_of merged ''isolate_cidrs'' of
                   None \<Rightarrow> JList []
                 | Some (JList l) \<Rightarrow> JList l
                 | Some v \<Rightarrow> JList (map JStr (split_cidrs v)))
      in AList.update ''isolate_cidrs'' iso merged)"

definition parse_guest_network_spec ::
  "(string \<Rightarrow> jval res) \<Rightarrow> string \<Rightarrow> desired_network option \<Rightarrow> desired_network res" where
  "parse_guest_network_spec yaml body defaults =
     (case find_fence ''guest-network-spec'' body of
        None \<Rightarrow> Inl (ValueError ''missing ```yaml guest-network-spec``` block'')
      | Some content \<Rightarrow>
          (case yaml (py_strip content) of
             Inl (YAMLError m) \<Rightarrow> Inl (ValueError (''guest-network spec is not valid YAML: '' @ m))
           | Inl e \<Rightarrow> Inl e
           | Inr (JObj parsed) \<Rightarrow>
               (let unknown = filter (\<lambda>k. k \<notin> set gn_allowed) (remdups (map fst parsed)) in
                if unknown \<noteq> []
                then Inl (ValueError (''unknown guest-network field(s): '' @ join '', '' (sort unknown)))
                else
                  let merged = gn_merge defaults parsed;
                      missing = filter (\<lambda>f. \<not> truthy (dget f merged))
                                  [''zone'', ''vnet'', ''subnet_cidr'', ''gateway''] in
                  if missing \<noteq> []
                  then Inl (ValueError (''guest-network spec is missing '' @ join '', '' missing
                              @ '' and this instance has no setting to fill it in''))
                  else case desired_guest_network merged of
                         Inl (ValueError m) \<Rightarrow> Inl (ValueError (''invalid guest-network spec: '' @ m))
                       | r \<Rightarrow> r)
           | Inr _ \<Rightarrow> Inl (ValueError ''guest-network spec must be a YAML mapping'')))"

section \<open>The fence\<close>

definition accept_rule :: "string \<Rightarrow> string \<Rightarrow> string \<Rightarrow> string \<Rightarrow> string \<Rightarrow> dict" where
  "accept_rule direction proto dport gateway comment =
     [(''type'', JStr direction), (''action'', JStr ''ACCEPT''), (''proto'', JStr proto),
      (''dport'', JStr dport), (''dest'', JStr gateway), (''enable'', JInt 1),
      (''comment'', JStr comment)]"

definition drop_rule :: "string \<Rightarrow> string \<Rightarrow> string \<Rightarrow> dict" where
  "drop_rule direction dest comment =
     [(''type'', JStr direction), (''action'', JStr ''DROP''), (''dest'', JStr dest),
      (''enable'', JInt 1), (''comment'', JStr comment)]"

definition fence_rules :: "desired_network \<Rightarrow> string \<Rightarrow> dict list" where
  "fence_rules g direction =
     (if dg_dhcp g
      then [accept_rule direction ''udp'' ''67:68'' (dg_gateway g)
              ''DHCP from the guest subnet's own dnsmasq'']
      else [])
     @ map (\<lambda>proto. accept_rule direction proto ''53'' (dg_gateway g)
              ''DNS to the guest subnet's own resolver'') [''udp'', ''tcp'']
     @ map (\<lambda>cidr. drop_rule direction cidr (''guests never reach '' @ cidr)) (dg_isolate_cidrs g)
     @ [drop_rule direction (dg_gateway g @ ''/32'')
          ''the gateway is a router for guests, not a host they talk to'']"

definition fence_rule_writes :: "desired_network \<Rightarrow> string \<Rightarrow> (nat \<times> dict) list" where
  "fence_rule_writes g direction =
     (let ordered = fence_rules g direction in
      map (\<lambda>i. (i, AList.update ''pos'' (JInt 0) (ordered ! i))) (rev [0..<length ordered]))"

definition rule_identity :: "dict \<Rightarrow> string list" where
  "rule_identity r =
     map (\<lambda>k. py_str (dget_or k (JStr []) r)) [''type'', ''action'', ''proto'', ''dport'', ''dest'']"

section \<open>Survey\<close>

record survey_state =
  sv_zones :: "dict list"
  sv_vnets :: "dict list"
  sv_subnets :: "dict list"
  sv_vnet_firewall_options :: dict
  sv_vnet_firewall_rules :: "dict list"
  sv_datacenter_firewall_options :: dict
  sv_datacenter_firewall_read :: bool
  sv_node :: string
  sv_nftables :: "bool option"
  sv_pending :: "string list"
  sv_errors :: "string list"

definition overlay_pending :: "dict \<Rightarrow> dict" where
  "overlay_pending row =
     (case map_of row ''pending'' of
        Some (JObj p) \<Rightarrow> (if p \<noteq> [] then update_all row p else row)
      | _ \<Rightarrow> row)"

definition row_named :: "string \<Rightarrow> dict list \<Rightarrow> string \<Rightarrow> dict option" where
  "row_named k rows name =
     map_option overlay_pending (find (\<lambda>r. py_str (dget_or k (JStr []) r) = name) rows)"

definition sv_zone :: "survey_state \<Rightarrow> string \<Rightarrow> dict option" where
  "sv_zone sv name = row_named ''zone'' (sv_zones sv) name"

definition sv_vnet :: "survey_state \<Rightarrow> string \<Rightarrow> dict option" where
  "sv_vnet sv name = row_named ''vnet'' (sv_vnets sv) name"

definition sv_subnet :: "survey_state \<Rightarrow> string \<Rightarrow> dict option" where
  "sv_subnet sv cidr = row_named ''cidr'' (sv_subnets sv) cidr"

definition firewall_stack :: "survey_state \<Rightarrow> string" where
  "firewall_stack sv =
     (case sv_nftables sv of
        None \<Rightarrow> ''unknown'' | Some b \<Rightarrow> if b then ''nftables'' else ''legacy'')"

definition datacenter_firewall_enabled :: "survey_state \<Rightarrow> bool" where
  "datacenter_firewall_enabled sv =
     flag (dget_or ''enable'' (JInt 0) (sv_datacenter_firewall_options sv))"

definition fence_enforced :: "survey_state \<Rightarrow> bool" where
  "fence_enforced sv = datacenter_firewall_enabled sv"

record pve_reads =
  pr_list_zones :: "dict list res"
  pr_list_vnets :: "dict list res"
  pr_list_subnets :: "string \<Rightarrow> dict list res"
  pr_vnet_firewall_options :: "string \<Rightarrow> dict res"
  pr_vnet_firewall_rules :: "string \<Rightarrow> dict list res"
  pr_cluster_firewall_options :: "dict res"
  pr_list_nodes :: "dict list res"
  pr_node_firewall_options :: "string \<Rightarrow> dict res"
  pr_node_services :: "string \<Rightarrow> dict list res"

text \<open>\<open>try: x = await read() except Exception as exc: errors.append(...)\<close>.\<close>

definition read_or :: "'a \<Rightarrow> string \<Rightarrow> 'a res \<Rightarrow> 'a \<times> string list" where
  "read_or dflt what r =
     (case r of Inr x \<Rightarrow> (x, []) | Inl e \<Rightarrow> (dflt, [what @ exn_str e]))"

definition pending_rows :: "dict list \<Rightarrow> string list" where
  "pending_rows rows =
     List.map_filter (\<lambda>row.
       let st = (let s = dget ''state'' row; p = dget ''pending'' row in
                 py_strip (if truthy s then py_str s else str_or_empty p)) in
       if st \<noteq> [] \<and> st \<noteq> ''0'' then
         Some ((let z = dget ''zone'' row; v = dget ''vnet'' row in
                if truthy z then py_str z else if truthy v then py_str v else ''?'')
               @ '': '' @ st)
       else None) rows"

definition nftables_from_services :: "dict list \<Rightarrow> bool option" where
  "nftables_from_services services =
     (let running = map (\<lambda>svc. let s = dget ''service'' svc; n = dget ''name'' svc in
                           if truthy s then py_str s else str_or_empty n)
                      (filter (\<lambda>svc. py_lower (str_or_empty (dget ''state'' svc)) = ''running'') services)
      in if ''proxmox-firewall'' \<in> set running then Some True
         else if ''pve-firewall'' \<in> set running then Some False
         else None)"

definition resolve_node :: "pve_reads \<Rightarrow> string \<Rightarrow> string \<times> string list" where
  "resolve_node gw node =
     (if py_strip node \<noteq> [] then (py_strip node, [])
      else case pr_list_nodes gw of
             Inl e \<Rightarrow> ([], [''could not list the cluster's nodes: '' @ exn_str e])
           | Inr rows \<Rightarrow>
               (let names = sort (map (\<lambda>r. py_str (dget ''node'' r))
                                   (filter (\<lambda>r. truthy (dget ''node'' r)) rows))
                in (if names = [] then [] else hd names, [])))"

definition read_nftables :: "pve_reads \<Rightarrow> string \<Rightarrow> bool option \<times> string list" where
  "read_nftables gw node =
     (if node = [] then (None, [])
      else
        let (opts, e1) = read_or [] (''could not read the firewall options of node '' @ node @ '': '')
                           (pr_node_firewall_options gw node);
            nft = map_option flag (map_of opts ''nftables'') in
        if nft \<noteq> None then (nft, e1)
        else let (svcs, e2) = read_or [] (''could not read the services of node '' @ node @ '': '')
                                (pr_node_services gw node)
             in (nftables_from_services svcs, e1 @ e2))"

definition survey :: "pve_reads \<Rightarrow> desired_network \<Rightarrow> string \<Rightarrow> survey_state" where
  "survey gw g node =
     (let (zones, e1) = read_or [] ''could not list the SDN zones: '' (pr_list_zones gw);
          (vnets, e2) = read_or [] ''could not list the SDN vnets: '' (pr_list_vnets gw);
          vnet_exists = list_ex (\<lambda>v. py_str (dget_or ''vnet'' (JStr []) v) = dg_vnet g) vnets;
          v = dg_vnet g;
          (subnets, e3) = (if vnet_exists
             then read_or [] (''could not read the subnets of vnet '' @ v @ '': '') (pr_list_subnets gw v)
             else ([], []));
          (opts, e4) = (if vnet_exists
             then read_or [] (''could not read the firewall options of vnet '' @ v @ '': '')
                    (pr_vnet_firewall_options gw v)
             else ([], []));
          (rules, e5) = (if vnet_exists
             then read_or [] (''could not read the firewall rules of vnet '' @ v @ '': '')
                    (pr_vnet_firewall_rules gw v)
             else ([], []));
          (dc, e6) = read_or [] ''could not read the datacenter firewall options: ''
                       (pr_cluster_firewall_options gw);
          (n, e7) = resolve_node gw node;
          (nft, e8) = read_nftables gw n
      in \<lparr>sv_zones = zones, sv_vnets = vnets, sv_subnets = subnets,
          sv_vnet_firewall_options = opts, sv_vnet_firewall_rules = rules,
          sv_datacenter_firewall_options = dc, sv_datacenter_firewall_read = (e6 = []),
          sv_node = n, sv_nftables = nft, sv_pending = pending_rows (zones @ vnets),
          sv_errors = e1 @ e2 @ e3 @ e4 @ e5 @ e6 @ e7 @ e8\<rparr>)"

section \<open>Plan\<close>

record step =
  st_id :: string
  st_description :: string
  st_op :: string
  st_params :: dict

record gn_plan =
  pl_steps :: "step list"
  pl_blockers :: "string list"

definition converged :: "gn_plan \<Rightarrow> bool" where
  "converged p = (pl_steps p = [] \<and> pl_blockers p = [])"

definition zone_needs_update :: "dict \<Rightarrow> desired_network \<Rightarrow> dict" where
  "zone_needs_update row g =
     (let want = (if dg_dhcp g then ''dnsmasq'' else []); have_dhcp = str_or_empty (dget ''dhcp'' row) in
      (if want \<noteq> [] \<and> have_dhcp \<noteq> want then [(''dhcp'', JStr want)] else [])
      @ (if dg_dhcp g \<and> str_or_empty (dget ''ipam'' row) \<noteq> ''pve'' then [(''ipam'', JStr ''pve'')] else []))"

text \<open>One range, whichever of its two spellings the cluster uses, as its sorted parts.\<close>

definition range_parts :: "jval \<Rightarrow> string list" where
  "range_parts v =
     (case v of
        JObj kvs \<Rightarrow> sort (map (\<lambda>(k, x). k @ ''='' @ py_str x) kvs)
      | _ \<Rightarrow> sort (filter (\<lambda>x. x \<noteq> []) (map py_strip (split_on (CHR '','') (py_str v)))))"

definition normalised_ranges :: "jval list \<Rightarrow> string list" where
  "normalised_ranges vals = sort (map (join '','' \<circ> range_parts) vals)"

definition have_ranges :: "dict \<Rightarrow> jval list res" where
  "have_ranges row =
     (let a = dget ''dhcp-range'' row; b = dget ''dhcp_range'' row;
          v = (if truthy a then a else if truthy b then b else JList []) in
      case v of
        JStr x \<Rightarrow> Inr [JStr x]
      | JList l \<Rightarrow> Inr l
      | JObj kvs \<Rightarrow> Inr (map (JStr \<circ> fst) kvs)
      | _ \<Rightarrow> Inl (TypeError ''object is not iterable''))"

definition subnet_needs_update :: "dict \<Rightarrow> desired_network \<Rightarrow> dict res" where
  "subnet_needs_update row g =
     bind_res (dhcp_range_param g) (\<lambda>want.
     bind_res (have_ranges row) (\<lambda>have_range. Inr (
       (if str_or_empty (dget ''gateway'' row) \<noteq> dg_gateway g
          then [(''gateway'', JStr (dg_gateway g))] else [])
       @ (if flag (dget_or ''snat'' (JInt 0) row) \<noteq> dg_snat g
          then [(''snat'', JInt (if dg_snat g then 1 else 0))] else [])
       @ (if normalised_ranges have_range \<noteq> normalised_ranges (map JStr want)
          then [(''dhcp-range'', JList (map JStr want))] else [])
       @ (if dg_dhcp_dns_server g \<noteq> []
              \<and> str_or_empty (dget ''dhcp-dns-server'' row) \<noteq> dg_dhcp_dns_server g
          then [(''dhcp-dns-server'', JStr (dg_dhcp_dns_server g))] else []))))"

definition zone_params :: "desired_network \<Rightarrow> dict" where
  "zone_params g =
     [(''zone'', JStr (dg_zone g)), (''type'', JStr ''simple'')]
     @ (if dg_dhcp g then [(''dhcp'', JStr ''dnsmasq''), (''ipam'', JStr ''pve'')] else [])"

definition subnet_params :: "desired_network \<Rightarrow> dict res" where
  "subnet_params g =
     bind_res (dhcp_range_param g) (\<lambda>rng. Inr (
       [(''subnet'', JStr (dg_subnet_cidr g)), (''type'', JStr ''subnet''),
        (''gateway'', JStr (dg_gateway g)), (''snat'', JInt (if dg_snat g then 1 else 0))]
       @ (if rng \<noteq> [] then [(''dhcp-range'', JList (map JStr rng))] else [])
       @ (if dg_dhcp_dns_server g \<noteq> []
          then [(''dhcp-dns-server'', JStr (dg_dhcp_dns_server g))] else [])))"

definition changes_text :: "dict \<Rightarrow> string" where
  "changes_text changes = join '', '' (map (\<lambda>(k, v). k @ ''='' @ py_str v) (sort_key fst changes))"

definition rule_step :: "desired_network \<Rightarrow> nat \<times> dict \<Rightarrow> step" where
  "rule_step g w =
     (let (pos, rule) = w in
      \<lparr>st_id = ''vnet-firewall-rule-'' @ str_nat pos,
       st_description = ''vnet '' @ dg_vnet g @ '' forward rule '' @ str_nat pos @ '': ''
         @ py_str (dget ''action'' rule) @ '' '' @ py_str (dget_or ''proto'' (JStr ''any'') rule)
         @ '' -> '' @ py_str (dget_or ''dest'' (JStr ''any'') rule),
       st_op = ''create_vnet_firewall_rule'',
       st_params = update_all [(''vnet'', JStr (dg_vnet g))] rule\<rparr>)"

text \<open>The rules of the fence that the chain does not hold yet, in the order they are posted.\<close>

definition missing_writes :: "dict list \<Rightarrow> desired_network \<Rightarrow> string \<Rightarrow> (nat \<times> dict) list" where
  "missing_writes chain g dir =
     filter (\<lambda>(_, rule). rule_identity rule \<notin> set (map rule_identity chain)) (fence_rule_writes g dir)"

definition firewall_steps :: "desired_network \<Rightarrow> survey_state \<Rightarrow> bool \<Rightarrow> step list" where
  "firewall_steps g cur vnet_exists =
     (if dg_isolate_cidrs g = [] then []
      else
        let options = (if vnet_exists then sv_vnet_firewall_options cur else []);
            have_enable = (if vnet_exists then flag (dget_or ''enable'' (JInt 0) options) else False);
            have_policy = (if vnet_exists then str_or_empty (dget ''policy_forward'' options) else []);
            opt_step = (if \<not> have_enable \<or> have_policy \<noteq> ''ACCEPT''
              then [\<lparr>st_id = ''vnet-firewall-options'',
                     st_description = ''turn the vnet firewall on for '' @ dg_vnet g
                       @ '' with a forward policy of ACCEPT (the DROPs below are what fences it)'',
                     st_op = ''set_vnet_firewall_options'',
                     st_params = [(''vnet'', JStr (dg_vnet g)), (''enable'', JInt 1),
                                  (''policy_forward'', JStr ''ACCEPT'')]\<rparr>]
              else []);
            have_rules = (if vnet_exists then sv_vnet_firewall_rules cur else [])
        in opt_step @ map (rule_step g) (missing_writes have_rules g ''forward''))"

definition policy_in :: "dict \<Rightarrow> string" where
  "policy_in options =
     (let p = py_upper (py_strip (str_or_empty (dget ''policy_in'' options)))
      in if p = [] then ''DROP'' else p)"

definition datacenter_firewall_lockout_safe :: "dict \<Rightarrow> bool" where
  "datacenter_firewall_lockout_safe options =
     (if \<not> flag (dget_or ''enable'' (JInt 0) options) then True else policy_in options \<noteq> ''DROP'')"

definition safe_datacenter_firewall_enable :: "dict \<Rightarrow> dict option res" where
  "safe_datacenter_firewall_enable options =
     (if flag (dget_or ''enable'' (JInt 0) options) then Inr None
      else let write = [(''enable'', JInt 1), (''policy_in'', JStr ''ACCEPT'')] in
           if \<not> datacenter_firewall_lockout_safe write
           then Inl (RuntimeError ''refusing to compute a datacenter firewall enable that is not lockout-safe'')
           else Inr (Some write))"

definition datacenter_firewall_steps :: "desired_network \<Rightarrow> survey_state \<Rightarrow> step list res" where
  "datacenter_firewall_steps g cur =
     (if dg_isolate_cidrs g = [] then Inr []
      else if \<not> sv_datacenter_firewall_read cur then Inr []
      else bind_res (safe_datacenter_firewall_enable (sv_datacenter_firewall_options cur)) (\<lambda>w.
        case w of
          None \<Rightarrow> Inr []
        | Some _ \<Rightarrow>
            Inr [\<lparr>st_id = ''ensure-datacenter-firewall'',
                  st_description = ''ensure datacenter firewall enabled (policy_in=ACCEPT) so the per-VM fence enforces - host INPUT stays open, no lockout'',
                  st_op = ''ensure_datacenter_firewall_enabled'', st_params = []\<rparr>]))"

text \<open>The zone, vnet and subnet parts of \<open>plan\<close>: steps and blockers.\<close>

definition plan_zone :: "desired_network \<Rightarrow> dict option \<Rightarrow> step list \<times> string list" where
  "plan_zone g zone_row =
     (case zone_row of
        None \<Rightarrow>
          ([\<lparr>st_id = ''create-zone'',
             st_description = ''create SDN zone '' @ dg_zone g @ '' (simple''
               @ (if dg_dhcp g then '', dnsmasq DHCP, PVE IPAM)'' else '')''),
             st_op = ''create_zone'', st_params = zone_params g\<rparr>], [])
      | Some row \<Rightarrow>
          (let zt = str_or_empty (dget ''type'' row) in
           if zt \<noteq> [] \<and> zt \<noteq> ''simple''
           then ([], [''zone '' @ dg_zone g @ '' already exists with type '' @ repr_str zt @ '', not 'simple'. ''
                     @ ''HomePilot will not repurpose a zone somebody else built - pick another ''
                     @ ''zone name, or remove that zone on the cluster first.''])
           else
             let changes = zone_needs_update row g in
             if changes \<noteq> [] then
               ([\<lparr>st_id = ''update-zone'',
                  st_description = ''update SDN zone '' @ dg_zone g @ '': '' @ changes_text changes,
                  st_op = ''update_zone'',
                  st_params = update_all [(''zone'', JStr (dg_zone g))] changes\<rparr>], [])
             else ([], [])))"

definition plan_vnet :: "desired_network \<Rightarrow> dict option \<Rightarrow> step list \<times> string list" where
  "plan_vnet g vnet_row =
     (case vnet_row of
        None \<Rightarrow>
          ([\<lparr>st_id = ''create-vnet'',
             st_description = ''create vnet '' @ dg_vnet g @ '' in zone '' @ dg_zone g,
             st_op = ''create_vnet'',
             st_params = [(''vnet'', JStr (dg_vnet g)), (''zone'', JStr (dg_zone g)),
                          (''alias'', JStr ''HomePilot guest network'')]\<rparr>], [])
      | Some row \<Rightarrow>
          (let vz = str_or_empty (dget ''zone'' row) in
           if vz \<noteq> [] \<and> vz \<noteq> dg_zone g
           then ([], [''vnet '' @ dg_vnet g @ '' already exists in zone '' @ repr_str vz @ '', not ''
                        @ repr_str (dg_zone g) @ ''. Moving a vnet between zones takes its guests off ''
                        @ ''the wire, so HomePilot will not do it - pick another vnet name.''])
           else ([], [])))"

definition plan_subnet :: "desired_network \<Rightarrow> dict option \<Rightarrow> step list res" where
  "plan_subnet g subnet_row =
     (case subnet_row of
        None \<Rightarrow>
          bind_res (subnet_params g) (\<lambda>ps. Inr
            [\<lparr>st_id = ''create-subnet'',
              st_description = ''create subnet '' @ dg_subnet_cidr g @ '' on vnet '' @ dg_vnet g
                @ '' (gateway '' @ dg_gateway g @ '', SNAT '' @ (if dg_snat g then ''on'' else ''off'') @ '')'',
              st_op = ''create_subnet'',
              st_params = update_all [(''vnet'', JStr (dg_vnet g))] ps\<rparr>])
      | Some row \<Rightarrow>
          bind_res (subnet_needs_update row g) (\<lambda>changes. Inr
            (if changes \<noteq> [] then
               [\<lparr>st_id = ''update-subnet'',
                 st_description = ''update subnet '' @ dg_subnet_cidr g @ '': '' @ changes_text changes,
                 st_op = ''update_subnet'',
                 st_params = update_all
                   [(''vnet'', JStr (dg_vnet g)),
                    (''subnet'', JStr (let i = dget ''id'' row in
                        if truthy i then py_str i else str_or_empty (dget ''subnet'' row)))] changes\<rparr>]
             else [])))"

definition apply_sdn_step :: step where
  "apply_sdn_step =
     \<lparr>st_id = ''apply-sdn'',
      st_description = ''apply the pending SDN configuration (this is what writes it to the nodes; DHCP needs dnsmasq installed there)'',
      st_op = ''apply_sdn'', st_params = []\<rparr>"

definition plan :: "desired_network \<Rightarrow> survey_state \<Rightarrow> gn_plan res" where
  "plan g cur =
     (if sv_errors cur \<noteq> []
      then Inr \<lparr>pl_steps = [], pl_blockers =
             map (\<lambda>err. ''the cluster could not be fully surveyed, so no change is planned: '' @ err)
               (sv_errors cur)\<rparr>
      else
        let (zsteps, zblock) = plan_zone g (sv_zone cur (dg_zone g));
            vnet_row = sv_vnet cur (dg_vnet g);
            (vsteps, vblock) = plan_vnet g vnet_row;
            blockers = zblock @ vblock
        in if blockers \<noteq> [] then Inr \<lparr>pl_steps = [], pl_blockers = blockers\<rparr>
           else
             bind_res (plan_subnet g (if vnet_row \<noteq> None then sv_subnet cur (dg_subnet_cidr g) else None))
               (\<lambda>ssteps.
             bind_res (datacenter_firewall_steps g cur) (\<lambda>dsteps.
               let sdn = zsteps @ vsteps @ ssteps;
                   apply_steps = (if sdn \<noteq> [] \<or> sv_pending cur \<noteq> [] then [apply_sdn_step] else [])
               in Inr \<lparr>pl_steps = sdn @ apply_steps @ firewall_steps g cur (vnet_row \<noteq> None) @ dsteps,
                       pl_blockers = []\<rparr>)))"

section \<open>Execute\<close>

datatype step_status = Done | Failed | Not_attempted

record step_result =
  sr_id :: string
  sr_status :: step_status
  sr_detail :: string

record gn_outcome =
  oc_success :: bool
  oc_log :: "string list"
  oc_failure_reason :: "string option"
  oc_results :: "step_result list"

text \<open>
  The gateway maps an operation name to the effect of calling it: a result or an exception, and the
  state of the cluster after it.
\<close>

type_synonym 's gateway = "string \<Rightarrow> (dict \<Rightarrow> 's \<Rightarrow> jval res \<times> 's) option"

fun execute_loop :: "'s gateway \<Rightarrow> step list \<Rightarrow> step_result list \<Rightarrow> string list \<Rightarrow> 's
    \<Rightarrow> gn_outcome \<times> 's" where
  "execute_loop gw [] results log s =
     (\<lparr>oc_success = True, oc_log = log, oc_failure_reason = None, oc_results = results\<rparr>, s)"
| "execute_loop gw (st # rest) results log s =
     (let (r, s') = (case gw (st_op st) of
                       None \<Rightarrow> (Inl (ValueError (''the PVE gateway has no operation '' @ repr_str (st_op st))), s)
                     | Some op \<Rightarrow> op (st_params st) s)
      in case r of
           Inl e \<Rightarrow>
             (\<lparr>oc_success = False,
               oc_log = log @ (st_id st @ '': FAILED - '' @ exn_str e)
                 # map (\<lambda>k. st_id k @ '': not attempted'') rest,
               oc_failure_reason = Some (st_id st @ '': '' @ exn_str e),
               oc_results = results @ \<lparr>sr_id = st_id st, sr_status = Failed, sr_detail = exn_str e\<rparr>
                 # map (\<lambda>k. \<lparr>sr_id = st_id k, sr_status = Not_attempted, sr_detail = []\<rparr>) rest\<rparr>, s')
         | Inr said \<Rightarrow>
             (let detail = (if truthy said then py_str said else st_description st) in
              execute_loop gw rest
                (results @ [\<lparr>sr_id = st_id st, sr_status = Done, sr_detail = detail\<rparr>])
                (log @ [st_id st @ '': '' @ st_description st @ '' -> '' @ detail]) s'))"

definition execute :: "'s gateway \<Rightarrow> step list \<Rightarrow> 's \<Rightarrow> gn_outcome \<times> 's" where
  "execute gw steps s =
     (let (oc, s') = execute_loop gw steps [] [] s in
      if steps = [] then (oc\<lparr>oc_log := oc_log oc
             @ [''nothing to do: the cluster already matches the desired guest network'']\<rparr>, s')
      else (oc, s'))"

section \<open>Printing and parsing\<close>

lemma digit_not_space [simp]: "is_digit c \<Longrightarrow> \<not> py_isspace c"
  by (auto simp: is_digit_def py_isspace_def Let_def)

lemma dot_not_space [simp]: "\<not> py_isspace (CHR ''.'')" "\<not> py_isspace (CHR ''-'')" "\<not> py_isspace (CHR ''/'')"
  by (simp_all add: py_isspace_def)

lemma str_ipv4_chars: "c \<in> set (str_ipv4 a) \<Longrightarrow> is_digit c \<or> c = CHR ''.''"
  using digits_nat_all_digits by (auto simp: str_ipv4_def)

lemma py_strip_str_ipv4 [simp]: "py_strip (str_ipv4 a) = str_ipv4 a"
  by (rule py_strip_no_space) (auto dest!: str_ipv4_chars)

lemma py_strip_str_net [simp]: "py_strip (str_net n) = str_net n"
  using digits_nat_all_digits [of "net_len n"]
  by (intro py_strip_no_space) (auto simp: str_net_def dest!: str_ipv4_chars)

lemma str_net_not_Nil [simp]: "str_net n \<noteq> []"
  by (simp add: str_net_def)

lemma range_string_chars: "c \<in> set (range_string s e) \<Longrightarrow> is_digit c \<or> c = CHR ''.'' \<or> c = CHR ''-''"
  using str_ipv4_chars by (auto simp: range_string_def)

lemma py_strip_range_string [simp]: "py_strip (range_string s e) = range_string s e"
  by (rule py_strip_no_space) (auto dest!: range_string_chars)

lemma split_range_string [simp]:
  "split_on (CHR ''-'') (range_string s e) = [str_ipv4 s, str_ipv4 e]"
  by (simp add: range_string_def split_on_append_sep split_on_no_sep str_ipv4_no_char)

lemma parse_range_range_string:
  "s < 2 ^ 32 \<Longrightarrow> e < 2 ^ 32 \<Longrightarrow> parse_range (range_string s e) = Inr (s, e)"
  by (simp add: parse_range_def validate_address_def parse_str_ipv4)

lemma validate_address_bound: "validate_address v f = Inr a \<Longrightarrow> a < 2 ^ 32"
  using parse_ipv4_bound by (auto simp: validate_address_def Let_def split: option.splits)

lemma validate_network_wf: "validate_network v f = Inr n \<Longrightarrow> wf_net n"
  by (auto simp: validate_network_def Let_def parse_net_wf split: option.splits)

lemma parse_range_bound: "parse_range raw = Inr (s, e) \<Longrightarrow> s < 2 ^ 32 \<and> e < 2 ^ 32"
  by (auto simp: parse_range_def bind_res_eq_Inr validate_address_bound split: list.splits if_splits
      dest: validate_address_bound)

section \<open>The desired network\<close>

text \<open>What construction establishes.\<close>

definition wf_desired :: "desired_network \<Rightarrow> bool" where
  "wf_desired g =
     (\<exists>subnet gw. wf_net subnet \<and> dg_subnet_cidr g = str_net subnet
        \<and> gw < 2 ^ 32 \<and> dg_gateway g = str_ipv4 gw \<and> in_net gw subnet
        \<and> (if py_strip (dg_dhcp_range g) = [] then \<not> dg_dhcp g
           else \<exists>s e. dg_dhcp_range g = range_string s e \<and> s < 2 ^ 32 \<and> e < 2 ^ 32
                  \<and> in_net s subnet \<and> in_net e subnet \<and> s \<le> e \<and> \<not> (s \<le> gw \<and> gw \<le> e))
        \<and> (py_strip (dg_dhcp_dns_server g) = []
           \<or> (\<exists>a. a < 2 ^ 32 \<and> dg_dhcp_dns_server g = str_ipv4 a))
        \<and> list_all (\<lambda>c. \<exists>n. wf_net n \<and> c = str_net n) (dg_isolate_cidrs g)
        \<and> validate_name (JStr (dg_zone g)) ''zone'' = Inr (dg_zone g)
        \<and> validate_name (JStr (dg_vnet g)) ''vnet'' = Inr (dg_vnet g))"

lemma validate_name_again: "validate_name v f = Inr t \<Longrightarrow> validate_name (JStr t) f = Inr t"
  by (auto simp: validate_name_def Let_def split: if_splits)

lemma check_cidrs_wf: "check_cidrs raws = Inr cs \<Longrightarrow> list_all (\<lambda>c. \<exists>n. wf_net n \<and> c = str_net n) cs"
proof (induction raws arbitrary: cs)
  case (Cons a raws)
  then show ?case
    using validate_network_wf [of "JStr (py_strip (str_or_empty a))" "''isolate_cidrs''"]
    by (auto simp: Let_def bind_res_eq_Inr split: if_splits)
qed simp

lemma check_cidrs_again:
  "list_all (\<lambda>c. \<exists>n. wf_net n \<and> c = str_net n) cs \<Longrightarrow> check_cidrs (map JStr cs) = Inr cs"
  by (induction cs) (auto simp: Let_def validate_network_def parse_str_net)

lemma check_range_wf:
  assumes "check_range v dhcp subnet gw = Inr r"
  shows "if py_strip r = [] then \<not> dhcp
         else \<exists>s e. r = range_string s e \<and> s < 2 ^ 32 \<and> e < 2 ^ 32 \<and> in_net s subnet \<and> in_net e subnet
                \<and> s \<le> e \<and> \<not> (s \<le> gw \<and> gw \<le> e)"
proof (cases "py_strip (str_or_empty v) = []")
  case True
  then show ?thesis using assms by (auto simp: check_range_def Let_def split: if_splits)
next
  case False
  then obtain s e where se: "parse_range (py_strip (str_or_empty v)) = Inr (s, e)"
    and r: "r = range_string s e" and ok: "in_net s subnet" "in_net e subnet" "s \<le> e"
      "\<not> (s \<le> gw \<and> gw \<le> e)"
    using assms by (auto simp: check_range_def Let_def bind_res_eq_Inr split: if_splits)
  have "range_string s e \<noteq> []" by (simp add: range_string_def)
  then show ?thesis using r ok parse_range_bound [OF se] by auto
qed

lemma check_range_again:
  "check_range v dhcp subnet gw = Inr r \<Longrightarrow> check_range (JStr r) dhcp subnet gw = Inr r"
  using check_range_wf [of v dhcp subnet gw r]
  by (auto simp: check_range_def [of "JStr r"] Let_def parse_range_range_string split: if_splits)

lemma check_dns_wf:
  "check_dns v = Inr r \<Longrightarrow> py_strip r = [] \<or> (\<exists>a. a < 2 ^ 32 \<and> r = str_ipv4 a)"
  by (auto simp: check_dns_def bind_res_eq_Inr split: if_splits simp del: power_numeral
      intro: validate_address_bound)

lemma check_dns_again: "check_dns v = Inr r \<Longrightarrow> check_dns (JStr r) = Inr r"
  using check_dns_wf [of v r]
  by (auto simp: check_dns_def [of "JStr r"] validate_address_def parse_str_ipv4)

lemma desired_wf:
  assumes "desired_guest_network d = Inr g"
  shows "wf_desired g"
proof -
  obtain zone vnet subnet gw rng dns cidrs where
    v: "validate_name (dget ''zone'' d) ''zone'' = Inr zone"
       "validate_name (dget ''vnet'' d) ''vnet'' = Inr vnet"
       "validate_network (dget ''subnet_cidr'' d) ''subnet_cidr'' = Inr subnet"
       "validate_address (dget ''gateway'' d) ''gateway'' = Inr gw"
    and gw: "in_net gw subnet"
    and c: "check_range (dget_or ''dhcp_range'' (JStr []) d) (dg_dhcp g) subnet gw = Inr rng"
       "check_dns (dget_or ''dhcp_dns_server'' (JStr []) d) = Inr dns"
       "check_cidrs (jlist (dget ''isolate_cidrs'' d)) = Inr cidrs"
    and g: "dg_zone g = zone" "dg_vnet g = vnet" "dg_subnet_cidr g = str_net subnet"
       "dg_gateway g = str_ipv4 gw" "dg_dhcp_range g = rng" "dg_dhcp_dns_server g = dns"
       "dg_isolate_cidrs g = cidrs"
    using assms by (auto simp: desired_guest_network_def bind_res_eq_Inr Let_def split: if_splits)
  show ?thesis
    unfolding wf_desired_def g
    by (intro exI [of _ subnet] exI [of _ gw] conjI refl gw check_cidrs_wf [OF c(3)]
        check_range_wf [OF c(1)] check_dns_wf [OF c(2)]
        validate_network_wf [OF v(3)] validate_address_bound [OF v(4)]
        validate_name_again [OF v(1)] validate_name_again [OF v(2)])
qed

lemma desired_again:
  assumes "wf_desired g"
  shows "desired_guest_network (to_dict g) = Inr g"
proof -
  obtain subnet gw where w: "wf_net subnet" "dg_subnet_cidr g = str_net subnet" "gw < 2 ^ 32"
    "dg_gateway g = str_ipv4 gw" "in_net gw subnet"
    and r: "if py_strip (dg_dhcp_range g) = [] then \<not> dg_dhcp g
           else \<exists>s e. dg_dhcp_range g = range_string s e \<and> s < 2 ^ 32 \<and> e < 2 ^ 32
                  \<and> in_net s subnet \<and> in_net e subnet \<and> s \<le> e \<and> \<not> (s \<le> gw \<and> gw \<le> e)"
    and n: "py_strip (dg_dhcp_dns_server g) = []
           \<or> (\<exists>a. a < 2 ^ 32 \<and> dg_dhcp_dns_server g = str_ipv4 a)"
    and c: "list_all (\<lambda>c. \<exists>n. wf_net n \<and> c = str_net n) (dg_isolate_cidrs g)"
    and v: "validate_name (JStr (dg_zone g)) ''zone'' = Inr (dg_zone g)"
      "validate_name (JStr (dg_vnet g)) ''vnet'' = Inr (dg_vnet g)"
    using assms unfolding wf_desired_def by blast
  have rng: "check_range (JStr (dg_dhcp_range g)) (dg_dhcp g) subnet gw = Inr (dg_dhcp_range g)"
    using r by (auto simp: check_range_def Let_def parse_range_range_string split: if_splits)
  have dns: "check_dns (JStr (dg_dhcp_dns_server g)) = Inr (dg_dhcp_dns_server g)"
    using n by (auto simp: check_dns_def validate_address_def parse_str_ipv4)
  have vn: "validate_network (JStr (str_net subnet)) ''subnet_cidr'' = Inr subnet"
    "validate_address (JStr (str_ipv4 gw)) ''gateway'' = Inr gw"
    using w by (simp_all add: validate_network_def validate_address_def parse_str_net parse_str_ipv4)
  have fl: "flag (JBool b) = b" for b by (simp add: flag_def)
  show ?thesis
    using check_cidrs_again [OF c]
    by (simp add: desired_guest_network_def to_dict_def dget_def dget_or_def v w vn rng dns fl Let_def)
qed

section \<open>Reading a rule chain\<close>

text \<open>
  An ordered chain decides a packet by the first rule that matches it, and by the policy of the
  chain when none does.  A destination is an address or a CIDR; a port is a number or a range.
\<close>

record packet =
  pk_proto :: string
  pk_dport :: nat
  pk_dest :: ipv4

definition dport_matches :: "string \<Rightarrow> nat \<Rightarrow> bool" where
  "dport_matches spec p =
     (case split_on (CHR '':'') spec of
        [a] \<Rightarrow> nat_of_digits a = p
      | [a, b] \<Rightarrow> nat_of_digits a \<le> p \<and> p \<le> nat_of_digits b
      | _ \<Rightarrow> False)"

definition rule_matches :: "dict \<Rightarrow> packet \<Rightarrow> bool" where
  "rule_matches r pk =
     (flag (dget_or ''enable'' (JInt 0) r)
      \<and> (case map_of r ''proto'' of None \<Rightarrow> True | Some v \<Rightarrow> py_str v = pk_proto pk)
      \<and> (case map_of r ''dport'' of None \<Rightarrow> True | Some v \<Rightarrow> dport_matches (py_str v) (pk_dport pk))
      \<and> (case map_of r ''dest'' of
           None \<Rightarrow> True
         | Some v \<Rightarrow> (case parse_net (py_str v) of None \<Rightarrow> False | Some n \<Rightarrow> in_net (pk_dest pk) n)))"

definition chain_verdict :: "string \<Rightarrow> dict list \<Rightarrow> packet \<Rightarrow> string" where
  "chain_verdict policy rules pk =
     (case find (\<lambda>r. rule_matches r pk) rules of
        None \<Rightarrow> policy
      | Some r \<Rightarrow> py_str (dget ''action'' r))"

lemma parse_net_host:
  assumes "a < 2 ^ 32"
  shows "parse_net (str_ipv4 a) = Some \<lparr>net_addr = a, net_len = 32\<rparr>"
    and "parse_net (str_ipv4 a @ ''/32'') = Some \<lparr>net_addr = a, net_len = 32\<rparr>"
proof -
  show "parse_net (str_ipv4 a) = Some \<lparr>net_addr = a, net_len = 32\<rparr>"
    using assms by (simp add: parse_net_def split_on_no_sep str_ipv4_no_char parse_str_ipv4)
  have "parse_net (str_net \<lparr>net_addr = a, net_len = 32\<rparr>) = Some \<lparr>net_addr = a, net_len = 32\<rparr>"
    by (rule parse_str_net) (use assms in \<open>simp add: wf_net_def net_size_def\<close>)
  moreover have "digits_nat 32 = ''32''" by code_simp
  ultimately show "parse_net (str_ipv4 a @ ''/32'') = Some \<lparr>net_addr = a, net_len = 32\<rparr>"
    by (simp add: str_net_def)
qed

lemma in_net_host [simp]: "in_net x \<lparr>net_addr = a, net_len = 32\<rparr> \<longleftrightarrow> x = a"
  by (auto simp: in_net_def net_size_def)

lemma flag_int [simp]: "flag (JInt i) \<longleftrightarrow> i \<noteq> 0"
  by (simp add: flag_def)

lemma accept_rule_matches:
  "a < 2 ^ 32 \<Longrightarrow> rule_matches (accept_rule dir proto dport (str_ipv4 a) c) pk \<longleftrightarrow>
     pk_proto pk = proto \<and> dport_matches dport (pk_dport pk) \<and> pk_dest pk = a"
  by (auto simp: rule_matches_def accept_rule_def dget_or_def parse_net_host)

lemma drop_rule_matches:
  "parse_net dest = Some n \<Longrightarrow> rule_matches (drop_rule dir dest c) pk \<longleftrightarrow> in_net (pk_dest pk) n"
  by (auto simp: rule_matches_def drop_rule_def dget_or_def)

lemma rule_actions [simp]:
  "py_str (dget ''action'' (accept_rule dir proto dport gw c)) = ''ACCEPT''"
  "py_str (dget ''action'' (drop_rule dir dest c)) = ''DROP''"
  by (simp_all add: accept_rule_def drop_rule_def dget_def)

lemma dport_53 [simp]: "dport_matches ''53'' p \<longleftrightarrow> p = 53"
  and dport_67_68 [simp]: "dport_matches ''67:68'' p \<longleftrightarrow> 67 \<le> p \<and> p \<le> 68"
  by (auto simp: dport_matches_def nat_of_digits_def)

text \<open>The traffic a guest keeps with its gateway, and what the fence closes off.\<close>

definition gateway_service :: "desired_network \<Rightarrow> ipv4 \<Rightarrow> packet \<Rightarrow> bool" where
  "gateway_service g gw pk =
     (pk_dest pk = gw
      \<and> ((pk_proto pk \<in> {''udp'', ''tcp''} \<and> pk_dport pk = 53)
         \<or> (dg_dhcp g \<and> pk_proto pk = ''udp'' \<and> 67 \<le> pk_dport pk \<and> pk_dport pk \<le> 68)))"

definition fenced_off :: "desired_network \<Rightarrow> ipv4 \<Rightarrow> packet \<Rightarrow> bool" where
  "fenced_off g gw pk =
     (pk_dest pk = gw \<or> (\<exists>c\<in>set (dg_isolate_cidrs g). \<exists>n. parse_net c = Some n \<and> in_net (pk_dest pk) n))"

lemma chain_verdict_append:
  "chain_verdict policy (xs @ ys) pk =
     (if list_ex (\<lambda>r. rule_matches r pk) xs then chain_verdict policy xs pk
      else chain_verdict policy ys pk)"
proof -
  have "find P (xs @ ys) = (if list_ex P xs then find P xs else find P ys)" for P :: "dict \<Rightarrow> bool"
    by (induction xs) auto
  then show ?thesis by (simp add: chain_verdict_def)
qed

lemma chain_verdict_uniform:
  "\<forall>r\<in>set xs. py_str (dget ''action'' r) = act \<Longrightarrow>
   chain_verdict policy xs pk = (if list_ex (\<lambda>r. rule_matches r pk) xs then act else policy)"
  by (induction xs) (auto simp: chain_verdict_def)

lemma fence_verdict:
  assumes wf: "wf_desired g" and gw: "dg_gateway g = str_ipv4 gw" "gw < 2 ^ 32"
  shows "chain_verdict policy (fence_rules g dir) pk =
           (if gateway_service g gw pk then ''ACCEPT''
            else if fenced_off g gw pk then ''DROP'' else policy)"
proof -
  define acc where "acc = (if dg_dhcp g
      then [accept_rule dir ''udp'' ''67:68'' (dg_gateway g) ''DHCP from the guest subnet's own dnsmasq'']
      else []) @ map (\<lambda>proto. accept_rule dir proto ''53'' (dg_gateway g)
              ''DNS to the guest subnet's own resolver'') [''udp'', ''tcp'']"
  define drops where "drops =
      map (\<lambda>cidr. drop_rule dir cidr (''guests never reach '' @ cidr)) (dg_isolate_cidrs g)
      @ [drop_rule dir (dg_gateway g @ ''/32'') ''the gateway is a router for guests, not a host they talk to'']"
  have split: "fence_rules g dir = acc @ drops"
    by (simp add: fence_rules_def acc_def drops_def)
  have acc: "list_ex (\<lambda>r. rule_matches r pk) acc \<longleftrightarrow> gateway_service g gw pk"
    using gw by (auto simp: acc_def accept_rule_matches gateway_service_def)
  have cidr: "rule_matches (drop_rule dir c t) pk \<longleftrightarrow> (\<exists>n. parse_net c = Some n \<and> in_net (pk_dest pk) n)"
    if "c \<in> set (dg_isolate_cidrs g)" for c t
    using wf that by (auto simp: wf_desired_def list_all_iff drop_rule_matches parse_str_net)
  have gwr: "rule_matches (drop_rule dir (dg_gateway g @ ''/32'') t) pk \<longleftrightarrow> pk_dest pk = gw" for t
    using gw by (simp add: drop_rule_matches [OF parse_net_host(2)])
  have drops: "list_ex (\<lambda>r. rule_matches r pk) drops \<longleftrightarrow> fenced_off g gw pk"
    using cidr gwr by (auto simp: drops_def fenced_off_def list_ex_iff)
  have u: "\<forall>r\<in>set acc. py_str (dget ''action'' r) = ''ACCEPT''" "\<forall>r\<in>set drops. py_str (dget ''action'' r) = ''DROP''"
    by (auto simp: acc_def drops_def)
  show ?thesis
    unfolding split chain_verdict_append acc
    by (simp add: chain_verdict_uniform [OF u(1)] chain_verdict_uniform [OF u(2)] acc drops)
qed

section \<open>Writing a rule chain\<close>

text \<open>Creating a firewall rule puts it at the top of the chain.\<close>

definition post_rules :: "dict list \<Rightarrow> (nat \<times> dict) list \<Rightarrow> dict list" where
  "post_rules chain writes = foldl (\<lambda>ch (_, rule). rule # ch) chain writes"

definition pinned :: "dict \<Rightarrow> dict" where
  "pinned r = AList.update ''pos'' (JInt 0) r"

lemma post_rules_rev: "post_rules chain (rev ws) = map snd ws @ chain"
  by (induction ws arbitrary: chain) (auto simp: post_rules_def)

lemma fence_rule_writes_rev:
  "fence_rule_writes g dir = rev (zip [0..<length (fence_rules g dir)] (map pinned (fence_rules g dir)))"
proof -
  have "zip [0..<length xs] (map f xs) = map (\<lambda>i. (i, f (xs ! i))) [0..<length xs]"
    for xs :: "dict list" and f :: "dict \<Rightarrow> dict"
    by (rule nth_equalityI) auto
  then show ?thesis by (simp only: fence_rule_writes_def pinned_def rev_map Let_def)
qed

lemma pinned_same:
  "rule_matches (pinned r) pk = rule_matches r pk"
  "py_str (dget ''action'' (pinned r)) = py_str (dget ''action'' r)"
  "rule_identity (pinned r) = rule_identity r"
  by (simp_all add: pinned_def rule_matches_def dget_def dget_or_def rule_identity_def)

lemma chain_verdict_pinned:
  "chain_verdict policy (map pinned rs @ chain) pk = chain_verdict policy (rs @ chain) pk"
proof -
  have "chain_verdict policy (map pinned rs) pk = chain_verdict policy rs pk"
    by (induction rs) (auto simp: chain_verdict_def pinned_same)
  moreover have "list_ex (\<lambda>r. rule_matches r pk) (map pinned rs) = list_ex (\<lambda>r. rule_matches r pk) rs"
    by (induction rs) (auto simp: pinned_same)
  ultimately show ?thesis by (simp add: chain_verdict_append)
qed


section \<open>What a plan means\<close>

text \<open>The cluster matches: the declarative reading of an empty plan.\<close>

definition zone_ok :: "desired_network \<Rightarrow> dict \<Rightarrow> bool" where
  "zone_ok g row =
     (str_or_empty (dget ''type'' row) \<in> {[], ''simple''}
      \<and> (dg_dhcp g \<longrightarrow> str_or_empty (dget ''dhcp'' row) = ''dnsmasq'' \<and> str_or_empty (dget ''ipam'' row) = ''pve''))"

definition vnet_ok :: "desired_network \<Rightarrow> dict \<Rightarrow> bool" where
  "vnet_ok g row = (str_or_empty (dget ''zone'' row) \<in> {[], dg_zone g})"

definition subnet_ok :: "desired_network \<Rightarrow> dict \<Rightarrow> bool" where
  "subnet_ok g row =
     (\<exists>have_r want. have_ranges row = Inr have_r \<and> dhcp_range_param g = Inr want
        \<and> str_or_empty (dget ''gateway'' row) = dg_gateway g
        \<and> flag (dget_or ''snat'' (JInt 0) row) = dg_snat g
        \<and> normalised_ranges have_r = normalised_ranges (map JStr want)
        \<and> (dg_dhcp_dns_server g \<noteq> [] \<longrightarrow>
             str_or_empty (dget ''dhcp-dns-server'' row) = dg_dhcp_dns_server g))"

definition firewall_ok :: "desired_network \<Rightarrow> survey_state \<Rightarrow> bool" where
  "firewall_ok g cur =
     (dg_isolate_cidrs g = []
      \<or> (flag (dget_or ''enable'' (JInt 0) (sv_vnet_firewall_options cur))
         \<and> str_or_empty (dget ''policy_forward'' (sv_vnet_firewall_options cur)) = ''ACCEPT''
         \<and> rule_identity ` set (fence_rules g ''forward'') \<subseteq> rule_identity ` set (sv_vnet_firewall_rules cur)
         \<and> (sv_datacenter_firewall_read cur \<longrightarrow> datacenter_firewall_enabled cur)))"

definition estate_matches :: "desired_network \<Rightarrow> survey_state \<Rightarrow> bool" where
  "estate_matches g cur =
     (sv_errors cur = [] \<and> sv_pending cur = []
      \<and> (\<exists>row. sv_zone cur (dg_zone g) = Some row \<and> zone_ok g row)
      \<and> (\<exists>row. sv_vnet cur (dg_vnet g) = Some row \<and> vnet_ok g row)
      \<and> (\<exists>row. sv_subnet cur (dg_subnet_cidr g) = Some row \<and> subnet_ok g row)
      \<and> firewall_ok g cur)"

lemma zone_needs_update_Nil:
  "zone_needs_update row g = [] \<longleftrightarrow>
     (dg_dhcp g \<longrightarrow> str_or_empty (dget ''dhcp'' row) = ''dnsmasq'' \<and> str_or_empty (dget ''ipam'' row) = ''pve'')"
  by (simp add: zone_needs_update_def Let_def)

lemma plan_zone_Nil: "plan_zone g r = ([], []) \<longleftrightarrow> (\<exists>row. r = Some row \<and> zone_ok g row)"
  by (cases r) (auto simp: plan_zone_def zone_ok_def Let_def zone_needs_update_Nil)

lemma plan_vnet_Nil: "plan_vnet g r = ([], []) \<longleftrightarrow> (\<exists>row. r = Some row \<and> vnet_ok g row)"
  by (cases r) (auto simp: plan_vnet_def vnet_ok_def Let_def)

lemma subnet_needs_update_Nil: "subnet_needs_update row g = Inr [] \<longleftrightarrow> subnet_ok g row"
  by (auto simp: subnet_needs_update_def subnet_ok_def bind_res_eq_Inr split: if_splits)

lemma plan_subnet_Nil: "plan_subnet g r = Inr [] \<longleftrightarrow> (\<exists>row. r = Some row \<and> subnet_ok g row)"
  by (cases r) (auto simp: plan_subnet_def bind_res_eq_Inr subnet_needs_update_Nil [symmetric]
      split: if_splits)

lemma set_fence_rule_writes:
  "snd ` set (fence_rule_writes g dir) = pinned ` set (fence_rules g dir)"
proof -
  have "map snd (fence_rule_writes g dir) = rev (map pinned (fence_rules g dir))"
    unfolding fence_rule_writes_rev by (simp add: rev_map [symmetric])
  then show ?thesis by (metis list.set_map set_rev)
qed

lemma firewall_steps_Nil:
  "firewall_steps g cur True = [] \<longleftrightarrow>
     dg_isolate_cidrs g = []
     \<or> (flag (dget_or ''enable'' (JInt 0) (sv_vnet_firewall_options cur))
        \<and> str_or_empty (dget ''policy_forward'' (sv_vnet_firewall_options cur)) = ''ACCEPT''
        \<and> rule_identity ` set (fence_rules g ''forward'') \<subseteq> rule_identity ` set (sv_vnet_firewall_rules cur))"
proof -
  have "filter (\<lambda>(_, rule). rule_identity rule \<notin> A) (fence_rule_writes g ''forward'') = []
      \<longleftrightarrow> rule_identity ` (snd ` set (fence_rule_writes g ''forward'')) \<subseteq> A" for A
    by (force simp: filter_empty_conv image_subset_iff)
  then have "filter (\<lambda>(_, rule). rule_identity rule \<notin> A) (fence_rule_writes g ''forward'') = []
      \<longleftrightarrow> rule_identity ` set (fence_rules g ''forward'') \<subseteq> A" for A
    by (simp add: set_fence_rule_writes image_image pinned_same)
  then show ?thesis by (auto simp: firewall_steps_def missing_writes_def Let_def)
qed

lemma safe_enable_cases:
  "safe_datacenter_firewall_enable opts =
     Inr (if flag (dget_or ''enable'' (JInt 0) opts) then None
          else Some [(''enable'', JInt 1), (''policy_in'', JStr ''ACCEPT'')])"
  by (simp add: safe_datacenter_firewall_enable_def datacenter_firewall_lockout_safe_def dget_or_def
      policy_in_def dget_def py_upper_def to_upper_def is_lower_def py_strip_no_space py_isspace_def)

lemma datacenter_steps_Nil:
  "datacenter_firewall_steps g cur = Inr [] \<longleftrightarrow>
     dg_isolate_cidrs g = [] \<or> \<not> sv_datacenter_firewall_read cur \<or> datacenter_firewall_enabled cur"
  by (auto simp: datacenter_firewall_steps_def safe_enable_cases datacenter_firewall_enabled_def)

lemma firewall_ok_steps:
  "firewall_ok g cur \<longleftrightarrow> firewall_steps g cur True = [] \<and> datacenter_firewall_steps g cur = Inr []"
  by (auto simp: firewall_ok_def firewall_steps_Nil datacenter_steps_Nil)



text \<open>The kinds of operation in the order the cluster must be told of them.\<close>

definition op_rank :: "step \<Rightarrow> nat" where
  "op_rank st =
     (let n = st_op st in
      if n \<in> {''create_zone'', ''update_zone''} then 0
      else if n = ''create_vnet'' then 1
      else if n \<in> {''create_subnet'', ''update_subnet''} then 2
      else if n = ''apply_sdn'' then 3
      else if n = ''set_vnet_firewall_options'' then 4
      else if n = ''create_vnet_firewall_rule'' then 5
      else if n = ''ensure_datacenter_firewall_enabled'' then 6 else 7)"

lemma sorted_const: "\<forall>x\<in>set xs. f x = (c :: nat) \<Longrightarrow> sorted (map f xs)"
  by (induction xs) auto

lemma rank_zone: "st \<in> set (fst (plan_zone g r)) \<Longrightarrow> op_rank st = 0"
  by (auto simp: plan_zone_def op_rank_def Let_def split: option.splits if_splits)

lemma rank_vnet: "st \<in> set (fst (plan_vnet g r)) \<Longrightarrow> op_rank st = 1"
  by (auto simp: plan_vnet_def op_rank_def Let_def split: option.splits if_splits)

lemma rank_subnet: "plan_subnet g r = Inr ss \<Longrightarrow> st \<in> set ss \<Longrightarrow> op_rank st = 2"
  by (auto simp: plan_subnet_def op_rank_def Let_def bind_res_eq_Inr split: option.splits if_splits)

lemma rank_firewall: "st \<in> set (firewall_steps g cur e) \<Longrightarrow> op_rank st \<in> {4, 5}"
  by (auto simp: firewall_steps_def op_rank_def rule_step_def Let_def split: if_splits)

lemma sorted_firewall: "sorted (map op_rank (firewall_steps g cur e))"
  by (auto simp: firewall_steps_def Let_def sorted_append op_rank_def rule_step_def split_beta
      intro!: sorted_const)

lemma rank_datacenter: "datacenter_firewall_steps g cur = Inr ds \<Longrightarrow> st \<in> set ds \<Longrightarrow> op_rank st = 6"
  by (auto simp: datacenter_firewall_steps_def op_rank_def bind_res_eq_Inr
      split: option.splits if_splits)

text \<open>
  order and refusals of a plan.  A plan with a blocker has no steps; a survey that failed in any
  part plans nothing; otherwise the steps come in the order zone, vnet, subnet, SDN apply, vnet
  firewall options, rules, datacenter switch, each of them one of the creating or updating
  operations.  The datacenter switch is touched only when it was read and found off.
\<close>

theorem plan_ordered:
  assumes "plan g cur = Inr p"
  shows "(pl_blockers p \<noteq> [] \<longrightarrow> pl_steps p = [])
    \<and> (sv_errors cur \<noteq> [] \<longrightarrow> pl_steps p = [] \<and> pl_blockers p \<noteq> [])
    \<and> sorted (map op_rank (pl_steps p))
    \<and> (\<forall>st\<in>set (pl_steps p). op_rank st \<le> 6
         \<and> (op_rank st = 6 \<longrightarrow> sv_datacenter_firewall_read cur \<and> \<not> datacenter_firewall_enabled cur))"
proof (cases "pl_steps p = []")
  case True
  then show ?thesis using assms by (auto simp: plan_def Let_def bind_res_eq_Inr split: if_splits prod.splits)
next
  case False
  define zs vs where "zs = fst (plan_zone g (sv_zone cur (dg_zone g)))"
    and "vs = fst (plan_vnet g (sv_vnet cur (dg_vnet g)))"
  obtain r ss ds where ss: "plan_subnet g r = Inr ss" and ds: "datacenter_firewall_steps g cur = Inr ds"
    and e: "sv_errors cur = []"
    and p: "pl_steps p = (zs @ vs @ ss)
         @ (if zs @ vs @ ss \<noteq> [] \<or> sv_pending cur \<noteq> [] then [apply_sdn_step] else [])
         @ firewall_steps g cur (sv_vnet cur (dg_vnet g) \<noteq> None) @ ds" "pl_blockers p = []"
    using assms False unfolding zs_def vs_def
    by (auto simp: plan_def Let_def bind_res_eq_Inr split: if_splits prod.splits)
  have a: "op_rank apply_sdn_step = 3" by (simp add: op_rank_def apply_sdn_step_def)
  have ranks: "\<forall>x\<in>set zs. op_rank x = 0" "\<forall>x\<in>set vs. op_rank x = 1" "\<forall>x\<in>set ss. op_rank x = 2"
    "\<forall>x\<in>set ds. op_rank x = 6"
    using rank_zone rank_vnet rank_subnet [OF ss] rank_datacenter [OF ds]
    by (auto simp: zs_def vs_def)
  have off: "ds \<noteq> [] \<Longrightarrow> sv_datacenter_firewall_read cur \<and> \<not> datacenter_firewall_enabled cur"
    using ds datacenter_steps_Nil [of g cur] by auto
  have "sorted (map op_rank (pl_steps p))"
    using ranks a rank_firewall [of _ g cur] sorted_firewall
    by (fastforce simp: p sorted_append intro: sorted_const)
  moreover have "\<forall>st\<in>set (pl_steps p). op_rank st \<le> 6
         \<and> (op_rank st = 6 \<longrightarrow> sv_datacenter_firewall_read cur \<and> \<not> datacenter_firewall_enabled cur)"
    using ranks a rank_firewall [of _ g cur] off by (fastforce simp: p split: if_splits)
  ultimately show ?thesis using p e by simp
qed

section \<open>What execute does\<close>

definition call_step :: "'s gateway \<Rightarrow> step \<Rightarrow> 's \<Rightarrow> jval res \<times> 's" where
  "call_step gw st s =
     (case gw (st_op st) of
        None \<Rightarrow> (Inl (ValueError (''the PVE gateway has no operation '' @ repr_str (st_op st))), s)
      | Some op \<Rightarrow> op (st_params st) s)"

fun cluster_after :: "'s gateway \<Rightarrow> step list \<Rightarrow> 's \<Rightarrow> 's" where
  "cluster_after gw [] s = s"
| "cluster_after gw (st # rest) s = cluster_after gw rest (snd (call_step gw st s))"

definition stopped_after :: "nat \<Rightarrow> step list \<Rightarrow> step_status list" where
  "stopped_after k steps =
     (if k < length steps then replicate k Done @ Failed # replicate (length steps - Suc k) Not_attempted
      else replicate (length steps) Done)"

lemma execute_loop_shape:
  "\<exists>k. k \<le> length steps
     \<and> map sr_status (oc_results (fst (execute_loop gw steps rs log s)))
         = map sr_status rs @ stopped_after k steps
     \<and> map sr_id (oc_results (fst (execute_loop gw steps rs log s))) = map sr_id rs @ map st_id steps
     \<and> oc_success (fst (execute_loop gw steps rs log s)) = (k = length steps)
     \<and> snd (execute_loop gw steps rs log s) = cluster_after gw (take (Suc k) steps) s"
proof (induction steps arbitrary: rs log s)
  case Nil
  then show ?case by (simp add: stopped_after_def)
next
  case (Cons st rest)
  obtain r s' where c: "call_step gw st s = (r, s')" by fastforce
  then have c': "(case gw (st_op st) of
        None \<Rightarrow> (Inl (ValueError (''the PVE gateway has no operation '' @ repr_str (st_op st))), s)
      | Some op \<Rightarrow> op (st_params st) s) = (r, s')" by (simp add: call_step_def)
  show ?case
  proof (cases r)
    case (Inl e)
    then show ?thesis
      by (intro exI [of _ 0])
         (simp add: c c' stopped_after_def o_def map_replicate_const)
  next
    case (Inr said)
    define det where "det = (if truthy said then py_str said else st_description st)"
    have ex: "execute_loop gw (st # rest) rs log s =
        execute_loop gw rest (rs @ [\<lparr>sr_id = st_id st, sr_status = Done, sr_detail = det\<rparr>])
          (log @ [st_id st @ '': '' @ st_description st @ '' -> '' @ det]) s'"
      using Inr by (simp add: c' det_def Let_def)
    obtain k where "k \<le> length rest
     \<and> map sr_status (oc_results (fst (execute_loop gw (st # rest) rs log s)))
         = map sr_status (rs @ [\<lparr>sr_id = st_id st, sr_status = Done, sr_detail = det\<rparr>]) @ stopped_after k rest
     \<and> map sr_id (oc_results (fst (execute_loop gw (st # rest) rs log s)))
         = map sr_id (rs @ [\<lparr>sr_id = st_id st, sr_status = Done, sr_detail = det\<rparr>]) @ map st_id rest
     \<and> oc_success (fst (execute_loop gw (st # rest) rs log s)) = (k = length rest)
     \<and> snd (execute_loop gw (st # rest) rs log s) = cluster_after gw (take (Suc k) rest) s'"
      unfolding ex using Cons.IH by blast
    then show ?thesis
      by (intro exI [of _ "Suc k"]) (auto simp: stopped_after_def c simp del: execute_loop.simps)
  qed
qed

text \<open>
  execute stops at the first failure and accounts for every step.  The results name every step in
  order: done up to some point, then the failed one, then the rest as not attempted; success means
  all were done; the cluster was changed by the steps up to and including the failed one only.
\<close>

theorem execute_accounts:
  "\<exists>k \<le> length steps.
     map sr_status (oc_results (fst (execute gw steps s))) = stopped_after k steps
     \<and> map sr_id (oc_results (fst (execute gw steps s))) = map st_id steps
     \<and> oc_success (fst (execute gw steps s)) = (k = length steps)
     \<and> snd (execute gw steps s) = cluster_after gw (take (Suc k) steps) s"
  using execute_loop_shape [of steps gw "[]" "[]" s]
  by (auto simp: execute_def split_beta Let_def)

text \<open>
  a desired network is sound and stable.  What construction accepts has its gateway inside its
  subnet and its DHCP range inside the subnet and clear of the gateway, and constructing it again
  from \<open>to_dict\<close> gives the same network.
\<close>

theorem desired_network_sound:
  assumes "desired_guest_network d = Inr g"
  shows "desired_guest_network (to_dict g) = Inr g
    \<and> (\<exists>subnet gw. parse_net (dg_subnet_cidr g) = Some subnet \<and> parse_ipv4 (dg_gateway g) = Some gw
        \<and> net_addr subnet \<le> gw \<and> gw < net_addr subnet + net_size subnet
        \<and> (dg_dhcp g \<longrightarrow> (\<exists>s e. parse_range (dg_dhcp_range g) = Inr (s, e)
              \<and> net_addr subnet \<le> s \<and> s \<le> e \<and> e < net_addr subnet + net_size subnet
              \<and> (gw < s \<or> e < gw))))"
proof -
  have wf: "wf_desired g" by (rule desired_wf [OF assms])
  then obtain subnet gw where w: "wf_net subnet" "dg_subnet_cidr g = str_net subnet" "gw < 2 ^ 32"
    "dg_gateway g = str_ipv4 gw" "in_net gw subnet"
    and r: "if py_strip (dg_dhcp_range g) = [] then \<not> dg_dhcp g
           else \<exists>s e. dg_dhcp_range g = range_string s e \<and> s < 2 ^ 32 \<and> e < 2 ^ 32
                  \<and> in_net s subnet \<and> in_net e subnet \<and> s \<le> e \<and> \<not> (s \<le> gw \<and> gw \<le> e)"
    unfolding wf_desired_def by blast
  have "dg_dhcp g \<longrightarrow> (\<exists>s e. parse_range (dg_dhcp_range g) = Inr (s, e)
              \<and> net_addr subnet \<le> s \<and> s \<le> e \<and> e < net_addr subnet + net_size subnet
              \<and> (gw < s \<or> e < gw))"
    using r w(1) by (auto simp: parse_range_range_string in_net_bounds not_le split: if_splits)
  then show ?thesis
    using desired_again [OF wf] w by (auto simp: parse_str_net parse_str_ipv4 in_net_bounds)
qed

text \<open>A network to apply the theorems to: 10.9.0.0/24 with 192.168.1.0/24 fenced off.\<close>

definition example_network :: desired_network where
  "example_network =
     \<lparr>dg_zone = ''guest'', dg_vnet = ''guestnet'',
      dg_subnet_cidr = str_net \<lparr>net_addr = 168361984, net_len = 24\<rparr>,
      dg_gateway = str_ipv4 168361985, dg_snat = True, dg_dhcp = True,
      dg_dhcp_range = range_string 168362084 168362183, dg_dhcp_dns_server = [],
      dg_isolate_cidrs = [str_net \<lparr>net_addr = 3232235776, net_len = 24\<rparr>]\<rparr>"

lemma validate_name_example:
  "validate_name (JStr ''guest'') ''zone'' = Inr ''guest''"
  "validate_name (JStr ''guestnet'') ''vnet'' = Inr ''guestnet''"
  by (simp_all add: validate_name_def Let_def dollar_def is_lower_def is_digit_def
      py_strip_no_space py_isspace_def)

lemma example_wf: "wf_desired example_network"
proof -
  have n: "wf_net \<lparr>net_addr = 168361984, net_len = 24\<rparr>" "wf_net \<lparr>net_addr = 3232235776, net_len = 24\<rparr>"
    by (simp_all add: wf_net_def net_size_def)
  have r: "range_string s e \<noteq> []" for s e by (simp add: range_string_def)
  have i: "in_net 168361985 \<lparr>net_addr = 168361984, net_len = 24\<rparr>"
    "in_net 168362084 \<lparr>net_addr = 168361984, net_len = 24\<rparr>"
    "in_net 168362183 \<lparr>net_addr = 168361984, net_len = 24\<rparr>"
    by (simp_all add: in_net_def net_size_def)
  have "\<exists>s e. range_string 168362084 168362183 = range_string s e \<and> s < 2 ^ 32 \<and> e < 2 ^ 32
      \<and> in_net s \<lparr>net_addr = 168361984, net_len = 24\<rparr> \<and> in_net e \<lparr>net_addr = 168361984, net_len = 24\<rparr>
      \<and> s \<le> e \<and> \<not> (s \<le> 168361985 \<and> 168361985 \<le> e)"
    by (intro exI [of _ 168362084] exI [of _ 168362183]) (simp add: i)
  then show ?thesis
    unfolding wf_desired_def example_network_def
    by (intro exI [of _ "\<lparr>net_addr = 168361984, net_len = 24\<rparr>"] exI [of _ 168361985])
       (use n i r validate_name_example in \<open>auto simp: py_strip_no_space\<close>)
qed

lemmas example_ok = desired_again [OF example_wf]

theorem desired_network_sound_witness:
  "desired_guest_network (to_dict example_network) = Inr example_network"
  by (rule desired_network_sound [OF example_ok, THEN conjunct1])


text \<open>A cluster with nothing on it.\<close>

definition empty_survey :: survey_state where
  "empty_survey = \<lparr>sv_zones = [], sv_vnets = [], sv_subnets = [], sv_vnet_firewall_options = [],
     sv_vnet_firewall_rules = [], sv_datacenter_firewall_options = [],
     sv_datacenter_firewall_read = False, sv_node = [], sv_nftables = None, sv_pending = [],
     sv_errors = [''could not list the SDN zones: timeout'']\<rparr>"

lemma plan_empty_survey: "plan example_network empty_survey = Inr \<lparr>pl_steps = [], pl_blockers =
    [''the cluster could not be fully surveyed, so no change is planned: could not list the SDN zones: timeout'']\<rparr>"
  by (simp add: plan_def empty_survey_def)


theorem plan_ordered_witness:
  "\<exists>p. plan example_network empty_survey = Inr p \<and> pl_steps p = [] \<and> pl_blockers p \<noteq> []"
  using plan_ordered [OF plan_empty_survey] plan_empty_survey by (simp add: empty_survey_def)

section \<open>Extending a fence in place\<close>

definition wide_net :: ipv4_net where
  "wide_net = \<lparr>net_addr = 167772160, net_len = 8\<rparr>"

definition grown_network :: desired_network where
  "grown_network = example_network\<lparr>dg_isolate_cidrs := dg_isolate_cidrs example_network @ [str_net wide_net]\<rparr>"

lemma rule_identity_simps [simp]:
  "rule_identity (accept_rule dir proto dport gw c) = [dir, ''ACCEPT'', proto, dport, gw]"
  "rule_identity (drop_rule dir dest c) = [dir, ''DROP'', [], [], dest]"
  by (simp_all add: rule_identity_def accept_rule_def drop_rule_def dget_or_def)

lemma wide_net_new:
  "str_net wide_net \<noteq> str_net \<lparr>net_addr = 3232235776, net_len = 24\<rparr>"
  "str_net wide_net \<noteq> str_ipv4 168361985 @ ''/32''"
proof -
  have w: "parse_net (str_net wide_net) = Some wide_net"
    by (rule parse_str_net) (simp add: wf_net_def net_size_def wide_net_def)
  have "parse_net (str_net \<lparr>net_addr = 3232235776, net_len = 24\<rparr>) = Some \<lparr>net_addr = 3232235776, net_len = 24\<rparr>"
    by (rule parse_str_net) (simp add: wf_net_def net_size_def)
  then show "str_net wide_net \<noteq> str_net \<lparr>net_addr = 3232235776, net_len = 24\<rparr>"
    using w by (auto simp: wide_net_def)
  show "str_net wide_net \<noteq> str_ipv4 168361985 @ ''/32''"
    using w parse_net_host(2) [of 168361985] by (auto simp: wide_net_def)
qed

definition first_chain :: "dict list" where
  "first_chain = post_rules [] (fence_rule_writes example_network ''forward'')"

lemma first_chain_rules: "first_chain = map pinned (fence_rules example_network ''forward'')"
  unfolding first_chain_def fence_rule_writes_rev post_rules_rev by simp

lemma grown_missing:
  "missing_writes first_chain grown_network ''forward'' =
     [(4, pinned (drop_rule ''forward'' (str_net wide_net) (''guests never reach '' @ str_net wide_net)))]"
proof -
  let ?d = "drop_rule ''forward''"
  have r: "fence_rules grown_network ''forward'' =
    [accept_rule ''forward'' ''udp'' ''67:68'' (str_ipv4 168361985) ''DHCP from the guest subnet's own dnsmasq'',
     accept_rule ''forward'' ''udp'' ''53'' (str_ipv4 168361985) ''DNS to the guest subnet's own resolver'',
     accept_rule ''forward'' ''tcp'' ''53'' (str_ipv4 168361985) ''DNS to the guest subnet's own resolver'',
     ?d (str_net \<lparr>net_addr = 3232235776, net_len = 24\<rparr>)
        (''guests never reach '' @ str_net \<lparr>net_addr = 3232235776, net_len = 24\<rparr>),
     ?d (str_net wide_net) (''guests never reach '' @ str_net wide_net),
     ?d (str_ipv4 168361985 @ ''/32'') ''the gateway is a router for guests, not a host they talk to'']"
    by (simp add: fence_rules_def grown_network_def example_network_def)
  have u: "[0..<6] = [0, 1, 2, 3, 4, 5 :: nat]" by (simp add: upt_rec)
  have "map rule_identity first_chain = map rule_identity (fence_rules example_network ''forward'')"
    by (simp add: first_chain_rules pinned_same o_def)
  then have ids: "set (map rule_identity first_chain) =
    {[''forward'', ''ACCEPT'', ''udp'', ''67:68'', str_ipv4 168361985],
     [''forward'', ''ACCEPT'', ''udp'', ''53'', str_ipv4 168361985],
     [''forward'', ''ACCEPT'', ''tcp'', ''53'', str_ipv4 168361985],
     [''forward'', ''DROP'', [], [], str_net \<lparr>net_addr = 3232235776, net_len = 24\<rparr>],
     [''forward'', ''DROP'', [], [], str_ipv4 168361985 @ ''/32'']}"
    by (simp add: fence_rules_def example_network_def)
  show ?thesis
    unfolding missing_writes_def ids fence_rule_writes_rev r
    using wide_net_new by (simp add: u pinned_same)
qed

text \<open>
  a fence is not kept in order when it grows.  The plan posts only the rules that are missing,
  and a posted rule lands on top.  A guest network that isolates one CIDR and is then told to
  isolate a second one that covers the gateway posts the new DROP above the DNS and DHCP rules: the
  resulting chain drops the guest's DNS, while the plan for it reports nothing left to do.
\<close>


theorem grown_fence_out_of_order:
  "let chain = post_rules first_chain (missing_writes first_chain grown_network ''forward'');
       dns = \<lparr>pk_proto = ''udp'', pk_dport = 53, pk_dest = 168361985\<rparr>
   in chain_verdict ''ACCEPT'' (fence_rules grown_network ''forward'') dns = ''ACCEPT''
      \<and> chain_verdict ''ACCEPT'' chain dns = ''DROP''
      \<and> missing_writes chain grown_network ''forward'' = []"
proof -
  let ?w = "drop_rule ''forward'' (str_net wide_net) (''guests never reach '' @ str_net wide_net)"
  let ?dns = "\<lparr>pk_proto = ''udp'', pk_dport = 53, pk_dest = 168361985\<rparr>"
  define chain where "chain = post_rules first_chain (missing_writes first_chain grown_network ''forward'')"
  have chain: "chain = pinned ?w # first_chain"
    by (simp add: chain_def grown_missing post_rules_def)
  have "parse_net (str_net wide_net) = Some wide_net"
    by (rule parse_str_net) (simp add: wf_net_def net_size_def wide_net_def)
  then have "rule_matches ?w ?dns"
    by (simp add: drop_rule_matches) (simp add: in_net_def net_size_def wide_net_def)
  then have v: "chain_verdict ''ACCEPT'' chain ?dns = ''DROP''"
    by (simp add: chain chain_verdict_def pinned_same)
  have a: "chain_verdict ''ACCEPT'' (fence_rules grown_network ''forward'') ?dns = ''ACCEPT''"
    by (simp add: fence_rules_def grown_network_def example_network_def chain_verdict_def
        accept_rule_matches)
  have "missing_writes chain grown_network ''forward'' = []"
  proof -
    have "\<forall>w\<in>set (fence_rule_writes grown_network ''forward'').
        rule_identity (snd w) \<in> set (map rule_identity chain)"
    proof
      fix w assume w: "w \<in> set (fence_rule_writes grown_network ''forward'')"
      show "rule_identity (snd w) \<in> set (map rule_identity chain)"
      proof (cases "rule_identity (snd w) \<in> set (map rule_identity first_chain)")
        case False
        then have "w \<in> set (missing_writes first_chain grown_network ''forward'')"
          using w by (auto simp: missing_writes_def)
        then show ?thesis by (simp add: grown_missing chain pinned_same)
      qed (simp add: chain)
    qed
    then show ?thesis by (auto simp: missing_writes_def filter_empty_conv)
  qed
  then show ?thesis using v a by (simp add: chain_def)
qed

end
