(* ===== verification/Artifact_Validator.thy ===== *)
theory Artifact_Validator
  imports Artifact_Store Skip_If Rollback Guest_Network
begin

text \<open>
  Validation at propose time: \<^verbatim>\<open>artifacts/validator.py\<close>, \<^verbatim>\<open>artifacts/validators.py\<close> and the
  interpolation context of \<^verbatim>\<open>executor/jinja_utils.py\<close>.

  A spec is a record of the keys the code reads.  The functions of other packages come in an
  \<open>ext\<close> record: the SHA-256 digest, PyYAML's \<open>safe_load\<close>, CPython's \<open>ast.parse\<close> and the outcome of
  rendering a Jinja2 template in a context.
\<close>

section \<open>Interpolation and expressions\<close>

datatype ctx_val = Plain jval | AnySecret

datatype jinja_outcome =
    Rendered string
  | TemplateSyntaxError string
  | UndefinedError string
  | SecurityError string
  | RenderError string

record ext =
  x_digest :: "string \<Rightarrow> string"
  x_yaml :: "string \<Rightarrow> jval res"
  x_ast :: "string \<Rightarrow> pexpr option"
  x_render :: "(string \<times> ctx_val) list \<Rightarrow> string \<Rightarrow> jinja_outcome"
  x_now :: string

definition interpolation_context :: "string \<Rightarrow> dict option \<Rightarrow> frontmatter \<Rightarrow> (string \<times> ctx_val) list" where
  "interpolation_context now tgt fm =
     [(''target'', Plain (JObj (case tgt of None \<Rightarrow> [] | Some d \<Rightarrow> d))),
      (''artifact'', Plain (JObj [(''id'', JStr (fm_id fm)), (''intent'', JStr (fm_intent fm))])),
      (''now'', Plain (JStr now))]"

definition safe_context :: "string \<Rightarrow> frontmatter \<Rightarrow> (string \<times> ctx_val) list" where
  "safe_context now fm =
     interpolation_context now (fm_target fm) fm
     @ [(''host'', Plain (JStr [])), (''inventory'', Plain (JList [])), (''vault'', AnySecret),
        (''fact'', Plain (JStr []))]"

definition validate_jinja2_template :: "ext \<Rightarrow> string \<Rightarrow> frontmatter \<Rightarrow> string list" where
  "validate_jinja2_template x template fm =
     (case x_render x (safe_context (x_now x) fm) template of
        Rendered _ \<Rightarrow> []
      | TemplateSyntaxError m \<Rightarrow> [''Jinja2 syntax error: '' @ m]
      | UndefinedError m \<Rightarrow> [''Jinja2 undefined variable: '' @ m]
      | SecurityError m \<Rightarrow> [''Jinja2 security error: '' @ m]
      | RenderError m \<Rightarrow> [''Jinja2 render error: '' @ m])"

definition allowlist_vars :: "string list" where
  "allowlist_vars = [''target'', ''host'', ''inventory'', ''status'', ''kind'', ''fact'',
                     ''environment'', ''vars'']"

definition allowlist_builtins :: "string list" where
  "allowlist_builtins = [''len'', ''str'', ''int'', ''bool'', ''float'']"

fun skip_if_node_errors :: "pexpr \<Rightarrow> string list" where
  "skip_if_node_errors (Call f es) =
     (case f of
        Name n \<Rightarrow> (if n \<in> set allowlist_builtins then []
                   else [''skip_if: function call '' @ n @ '' is not allowed''])
      | _ \<Rightarrow> [''skip_if: only allowlisted builtins can be called''])"
| "skip_if_node_errors (Attribute v attr) = [''skip_if: attribute access .'' @ attr @ '' is not allowed'']"
| "skip_if_node_errors (Subscript v s) =
     (case s of
        Constant (CStr _) \<Rightarrow> []
      | _ \<Rightarrow> [''skip_if: only simple string-key subscripts are allowed''])"
| "skip_if_node_errors (Comprehension es) = [''skip_if: comprehensions are not allowed'']"
| "skip_if_node_errors (Lambda e) = [''skip_if: lambda expressions are not allowed'']"
| "skip_if_node_errors (NamedExpr t v) = [''skip_if: walrus operator is not allowed'']"
| "skip_if_node_errors (Name n) =
     (if prefix ''__'' n then [''skip_if: dunder name '' @ n @ '' is not allowed'']
      else if n \<notin> set allowlist_vars \<and> n \<notin> set allowlist_builtins
              \<and> n \<notin> {''True'', ''False'', ''None''}
      then [''skip_if: variable '' @ n @ '' is not allowlisted''] else [])"
| "skip_if_node_errors _ = []"

definition validate_skip_if :: "(string \<Rightarrow> pexpr option) \<Rightarrow> string \<Rightarrow> string list" where
  "validate_skip_if ast_parse expression =
     (case ast_parse expression of
        None \<Rightarrow> [''skip_if syntax error'']
      | Some tree \<Rightarrow> concat (map skip_if_node_errors (walk tree)))"

definition skip_if_fences :: "artifact_kind \<Rightarrow> string list" where
  "skip_if_fences k =
     (case k of
        PROXMOX_API_SEQUENCE \<Rightarrow> [''proxmox-api-spec'', ''proxmox-api-rollback'']
      | HTTP_SEQUENCE \<Rightarrow> [''http-spec'', ''http-rollback'']
      | _ \<Rightarrow> [])"

definition step_skip_if :: "jval \<Rightarrow> (string \<times> string) list" where
  "step_skip_if st =
     (case st of
        JObj kvs \<Rightarrow>
          (case map_of kvs ''precheck'' of
             Some (JObj pc) \<Rightarrow>
               (if truthy (dget ''skip_if'' pc)
                then [(py_str (dget_or ''id'' (JStr ''?'') kvs), py_str (dget ''skip_if'' pc))] else [])
           | _ \<Rightarrow> [])
      | _ \<Rightarrow> [])"

definition fence_skip_ifs :: "(string \<Rightarrow> jval res) \<Rightarrow> string \<Rightarrow> string \<Rightarrow> (string \<times> string) list res" where
  "fence_skip_ifs yaml body fence =
     (case find_fence fence body of
        None \<Rightarrow> Inr []
      | Some content \<Rightarrow>
          (case yaml (py_strip content) of
             Inl (YAMLError _) \<Rightarrow> Inr []
           | Inl e \<Rightarrow> Inl e
           | Inr (JObj kvs) \<Rightarrow>
               (case map_of kvs ''steps'' of
                  Some (JList steps) \<Rightarrow> Inr (concat (map step_skip_if steps))
                | _ \<Rightarrow> Inr [])
           | Inr _ \<Rightarrow> Inr []))"

definition body_skip_if_expressions ::
  "(string \<Rightarrow> jval res) \<Rightarrow> artifact_kind \<Rightarrow> string \<Rightarrow> (string \<times> string) list res" where
  "body_skip_if_expressions yaml k body =
     bind_res (traverse (fence_skip_ifs yaml body) (skip_if_fences k)) (\<lambda>xs. Inr (concat xs))"

definition validate_artifact_expressions :: "ext \<Rightarrow> frontmatter \<Rightarrow> string \<Rightarrow> string list res" where
  "validate_artifact_expressions x fm body =
     bind_res (body_skip_if_expressions (x_yaml x) (fm_kind fm) body) (\<lambda>exprs. Inr (
       (case fm_skip_if fm of None \<Rightarrow> [] | Some e \<Rightarrow> validate_skip_if (x_ast x) e)
       @ concat (map (\<lambda>(sid, e). map (\<lambda>m. ''step '' @ sid @ '': '' @ m)
            (validate_skip_if_expression (x_ast x) e)) exprs)
       @ (if py_in ''{{'' body \<or> py_in ''{%'' body then validate_jinja2_template x body fm else [])))"

section \<open>Specs per kind\<close>

text \<open>\<open>except ValueError as exc: raise LifecycleError(str(exc))\<close>.\<close>

definition value_error_to_lifecycle :: "'a res \<Rightarrow> 'a res" where
  "value_error_to_lifecycle r =
     (case r of Inl (ValueError m) \<Rightarrow> Inl (LifecycleError m) | _ \<Rightarrow> r)"

text \<open>Set membership of a step identifier: \<open>True\<close> and \<open>1\<close> are one key, containers are none.\<close>

fun hash_key :: "jval \<Rightarrow> jval option" where
  "hash_key (JBool b) = Some (JInt (if b then 1 else 0))"
| "hash_key (JList _) = None"
| "hash_key (JObj _) = None"
| "hash_key v = Some v"

fun check_steps :: "jval list \<Rightarrow> jval list \<Rightarrow> unit res" where
  "check_steps seen [] = Inr ()"
| "check_steps seen (st # rest) =
     (case st of
        JObj kvs \<Rightarrow>
          (let sid = dget ''id'' kvs in
           if \<not> truthy sid then Inl (LifecycleError ''each composite step must have an id'')
           else case hash_key sid of
                  None \<Rightarrow> Inl (TypeError ''unhashable type'')
                | Some k \<Rightarrow>
                    (if k \<in> set seen then Inl (LifecycleError (''duplicate step id: '' @ py_str sid))
                     else if \<not> truthy (dget ''artifact'' kvs)
                     then Inl (LifecycleError (''step '' @ py_str sid @ '' must have an artifact reference''))
                     else check_steps (k # seen) rest))
      | _ \<Rightarrow> Inl (AttributeError ''object has no attribute get''))"

definition validate_composite_spec :: "(string \<Rightarrow> jval res) \<Rightarrow> string \<Rightarrow> unit res" where
  "validate_composite_spec yaml body =
     bind_res (value_error_to_lifecycle (extract_composite_steps yaml body)) (\<lambda>steps.
       if \<not> truthy steps then Inl (LifecycleError ''composite spec must have at least one step'')
       else bind_res (iter_steps steps) (check_steps []))"

definition validate_host_provision_spec :: "(string \<Rightarrow> jval res) \<Rightarrow> string \<Rightarrow> unit res" where
  "validate_host_provision_spec yaml body =
     bind_res (value_error_to_lifecycle (parse_host_provision_spec yaml body)) (\<lambda>_. Inr ())"

definition validate_guest_network_spec :: "(string \<Rightarrow> jval res) \<Rightarrow> string \<Rightarrow> unit res" where
  "validate_guest_network_spec yaml body =
     (case parse_guest_network_spec yaml body None of
        Inl (ValueError m) \<Rightarrow> (if py_in ''is missing'' m then Inr () else Inl (LifecycleError m))
      | Inl e \<Rightarrow> Inl e
      | Inr _ \<Rightarrow> Inr ())"

definition validate_transition :: "artifact_status \<Rightarrow> artifact_status \<Rightarrow> unit res" where
  "validate_transition current tgt =
     (if tgt \<notin> valid_transitions current
      then Inl (ConflictError (status_value current) (status_value tgt)) else Inr ())"

lemma validate_transition_Inr [simp]:
  "validate_transition a b = Inr u \<longleftrightarrow> b \<in> valid_transitions a"
  by (simp add: validate_transition_def)

section \<open>Propose\<close>

record propose_spec =
  ps_id :: string
  ps_kind :: string
  ps_intent :: string
  ps_body :: string
  ps_target :: "dict option"
  ps_idempotence :: "string option"
  ps_produced_by :: producer
  ps_note_kind :: "string option"
  ps_supersedes :: "string list option"
  ps_tags :: "string list option"
  ps_rollback :: "bool option"
  ps_replay_safe :: "bool option"
  ps_requires_snapshot :: "bool option"
  ps_skip_if :: "string option"

datatype event = EvPropose | EvApply

definition guard :: "bool \<Rightarrow> exn \<Rightarrow> unit res" where
  "guard b e = (if b then Inr () else Inl e)"

lemma guard_Inr [simp]: "guard b e = Inr u \<longleftrightarrow> b"
  by (simp add: guard_def)

text \<open>\<open>if target_data and kind != KB_NOTE: Target(**target_data)\<close>; any exception is refused.\<close>

definition check_target :: "artifact_kind \<Rightarrow> dict option \<Rightarrow> unit res" where
  "check_target k tgt =
     (case tgt of
        Some d \<Rightarrow>
          (if d \<noteq> [] \<and> k \<noteq> KB_NOTE then
             (case make_target d of
                Inl e \<Rightarrow> Inl (LifecycleError (''Invalid target: '' @ exn_str e))
              | Inr _ \<Rightarrow> Inr ())
           else Inr ())
      | None \<Rightarrow>
          (if k \<noteq> KB_NOTE
           then Inl (LifecycleError (''Mutating kind '' @ kind_value k @ '' requires a target''))
           else Inr ()))"

definition check_idempotence :: "artifact_kind \<Rightarrow> string option \<Rightarrow> unit res" where
  "check_idempotence k i =
     (if k = KB_NOTE then Inr ()
      else case i of
             None \<Rightarrow> Inl (LifecycleError (''Mutating kind '' @ kind_value k @ '' requires idempotence''))
           | Some s \<Rightarrow>
               (if s = [] then Inl (LifecycleError (''Mutating kind '' @ kind_value k @ '' requires idempotence''))
                else if idempotence_of_value s = None then Inl (LifecycleError (''Invalid idempotence: '' @ s))
                else Inr ()))"

definition check_body :: "ext \<Rightarrow> artifact_kind \<Rightarrow> string \<Rightarrow> unit res" where
  "check_body x k body =
     (case k of
        COMPOSITE \<Rightarrow> validate_composite_spec (x_yaml x) body
      | HOST_PROVISION \<Rightarrow> validate_host_provision_spec (x_yaml x) body
      | GUEST_NETWORK \<Rightarrow> validate_guest_network_spec (x_yaml x) body
      | _ \<Rightarrow> Inr ())"

text \<open>The frontmatter before \<open>rollback\<close> is derived; a list that is empty is not written.\<close>

definition nonempty :: "'a list option \<Rightarrow> 'a list option" where
  "nonempty l = (case l of Some (x # xs) \<Rightarrow> Some (x # xs) | _ \<Rightarrow> None)"

definition propose_frontmatter :: "ext \<Rightarrow> artifact_kind \<Rightarrow> propose_spec \<Rightarrow> frontmatter" where
  "propose_frontmatter x k ps =
     \<lparr>fm_id = ps_id ps, fm_kind = k, fm_intent = ps_intent ps,
      fm_status = (if k = KB_NOTE then APPLIED else PROPOSED),
      fm_mutating = (k \<noteq> KB_NOTE), fm_produced_by = ps_produced_by ps,
      fm_hash = compute_body_hash (x_digest x) (ps_body ps),
      fm_target = nonempty (ps_target ps),
      fm_idempotence =
        (if nonempty (ps_target ps) \<noteq> None \<and> k \<noteq> KB_NOTE then ps_idempotence ps else None),
      fm_approved_by = None,
      fm_applied_at = (if k = KB_NOTE then Some (x_now x) else None),
      fm_failed_at = None, fm_failure_reason = None,
      fm_supersedes = nonempty (ps_supersedes ps),
      fm_superseded_by = None, fm_rejected_by = None, fm_revoked_by = None,
      fm_tags = ps_tags ps, fm_rollback = ps_rollback ps, fm_replay_safe = ps_replay_safe ps,
      fm_requires_snapshot = ps_requires_snapshot ps,
      fm_note_kind = (if k = KB_NOTE then nonempty (ps_note_kind ps) else None),
      fm_skip_if = ps_skip_if ps\<rparr>"

definition check_rollback_claim :: "artifact_kind \<Rightarrow> string \<Rightarrow> bool option \<Rightarrow> unit res" where
  "check_rollback_claim k body claimed =
     (if claimed = Some True \<and> \<not> derive_rollback k body then
        (if \<not> kind_can_roll_back k
         then Inl (LifecycleError (''rollback: true is not possible for kind '' @ kind_value k))
         else Inl (LifecycleError (''rollback: true but the body carries no rollback section for kind ''
                @ kind_value k)))
      else Inr ())"

definition snapshottable_target_kinds :: "string list" where
  "snapshottable_target_kinds = [''vm'', ''lxc'']"

definition check_snapshot_claim :: "dict option \<Rightarrow> bool option \<Rightarrow> unit res" where
  "check_snapshot_claim tgt claimed =
     (if claimed = Some True
         \<and> dget_or ''kind'' (JStr []) (case tgt of None \<Rightarrow> [] | Some d \<Rightarrow> d)
             \<notin> JStr ` set snapshottable_target_kinds
      then Inl (LifecycleError ''requires_snapshot: true cannot be honoured for this target.kind'')
      else Inr ())"

definition check_literals :: "artifact_kind \<Rightarrow> string \<Rightarrow> unit res" where
  "check_literals k body =
     (if k \<in> {HOST_PROVISION, SHELL_SCRIPT} \<and> literal_secrets body \<noteq> []
      then Inl (LifecycleError (''this body appears to contain a literal credential (''
             @ join '', '' (literal_secrets body) @ '')''))
      else Inr ())"

definition validate_propose_spec ::
  "ext \<Rightarrow> files \<Rightarrow> propose_spec \<Rightarrow> (frontmatter \<times> event) res" where
  "validate_propose_spec x fs ps =
     bind_res (guard (validate_artifact_id (ps_id ps))
       (LifecycleError (''Invalid artifact ID format: '' @ ps_id ps))) (\<lambda>_.
     bind_res (guard (\<not> store_exists fs (ps_id ps))
       (LifecycleError (''Artifact ID already exists: '' @ ps_id ps))) (\<lambda>_.
     case kind_of_value (ps_kind ps) of
       None \<Rightarrow> Inl (LifecycleError (''Invalid kind: '' @ ps_kind ps))
     | Some k \<Rightarrow>
     bind_res (guard (ps_body ps \<noteq> []) (LifecycleError ''Body must not be empty'')) (\<lambda>_.
     bind_res (check_target k (ps_target ps)) (\<lambda>_.
     bind_res (check_idempotence k (ps_idempotence ps)) (\<lambda>_.
     bind_res (guard (ps_intent ps \<noteq> [] \<and> length (ps_intent ps) \<le> 200)
       (LifecycleError ''intent must be 1-200 chars'')) (\<lambda>_.
     bind_res (guard (pb_session (ps_produced_by ps) \<noteq> [] \<and> pb_agent (ps_produced_by ps) \<noteq> []
         \<and> pb_user (ps_produced_by ps) \<noteq> [])
       (LifecycleError ''produced_by requires session, agent, user'')) (\<lambda>_.
     bind_res (check_body x k (ps_body ps)) (\<lambda>_.
     bind_res (if k \<noteq> KB_NOTE then check_rollback_claim k (ps_body ps) (ps_rollback ps) else Inr ()) (\<lambda>_.
     bind_res (if k \<noteq> KB_NOTE then check_snapshot_claim (ps_target ps) (ps_requires_snapshot ps)
               else Inr ()) (\<lambda>_.
     bind_res (check_literals k (ps_body ps)) (\<lambda>_.
       let fm0 = propose_frontmatter x k ps;
           fm = (if k \<noteq> KB_NOTE then fm0\<lparr>fm_rollback := Some (derive_rollback k (ps_body ps))\<rparr> else fm0)
       in bind_res (validate_artifact_expressions x fm (ps_body ps)) (\<lambda>errs.
            if errs \<noteq> [] then Inl (LifecycleError (join ''; '' errs))
            else Inr (fm, if k = KB_NOTE then EvApply else EvPropose)))))))))))))"

section \<open>Facts about validation\<close>

lemma bind_unit_Inr: "bind_res (r :: unit res) f = Inr y \<longleftrightarrow> r = Inr () \<and> f () = Inr y"
  by (cases r) auto

lemmas propose_inr = validate_propose_spec_def bind_unit_Inr bind_res_eq_Inr Let_def

text \<open>A step a composite may have: a mapping with a hashable identifier and an artifact.\<close>

definition step_key :: "jval \<Rightarrow> jval option" where
  "step_key st =
     (case st of
        JObj kvs \<Rightarrow>
          (if truthy (dget ''id'' kvs) \<and> truthy (dget ''artifact'' kvs) then hash_key (dget ''id'' kvs)
           else None)
      | _ \<Rightarrow> None)"

lemma check_steps_ok:
  "check_steps seen steps = Inr () \<longleftrightarrow>
     (\<exists>ks. map step_key steps = map Some ks \<and> distinct ks \<and> set ks \<inter> set seen = {})"
proof (induction steps arbitrary: seen)
  case Nil
  then show ?case by simp
next
  case (Cons st rest)
  show ?case
  proof (cases "step_key st")
    case None
    then have "check_steps seen (st # rest) \<noteq> Inr ()"
      by (auto simp: step_key_def Let_def split: jval.splits option.splits if_splits)
    then show ?thesis using None by auto
  next
    case (Some k)
    then have "check_steps seen (st # rest) = Inr () \<longleftrightarrow> k \<notin> set seen \<and> check_steps (k # seen) rest = Inr ()"
      by (auto simp: step_key_def Let_def split: jval.splits option.splits if_splits)
    also have "\<dots> \<longleftrightarrow> (\<exists>ks. map step_key (st # rest) = map Some ks \<and> distinct ks \<and> set ks \<inter> set seen = {})"
    proof
      assume "k \<notin> set seen \<and> check_steps (k # seen) rest = Inr ()"
      then obtain ks where "map step_key rest = map Some ks" "distinct ks"
        "set ks \<inter> set (k # seen) = {}" "k \<notin> set seen"
        using Cons.IH by blast
      then show "\<exists>ks. map step_key (st # rest) = map Some ks \<and> distinct ks \<and> set ks \<inter> set seen = {}"
        using Some by (intro exI [of _ "k # ks"]) auto
    next
      assume "\<exists>ks. map step_key (st # rest) = map Some ks \<and> distinct ks \<and> set ks \<inter> set seen = {}"
      then obtain l ls where "Some k = Some l" "map step_key rest = map Some ls" "distinct (l # ls)"
        "set (l # ls) \<inter> set seen = {}"
        using Some by (auto simp: map_eq_Cons_conv Cons_eq_map_conv)
      then show "k \<notin> set seen \<and> check_steps (k # seen) rest = Inr ()"
        using Cons.IH by auto
    qed
    finally show ?thesis .
  qed
qed

lemma validate_composite_spec_ok:
  assumes "validate_composite_spec yaml body = Inr ()"
  obtains steps ks where "extract_composite_steps yaml body = Inr (JList steps)" "steps \<noteq> []"
    "map step_key steps = map Some ks" "distinct ks"
proof -
  obtain v l where v: "extract_composite_steps yaml body = Inr v" "truthy v" "iter_steps v = Inr l"
    "check_steps [] l = Inr ()"
    using assms
    by (auto simp: validate_composite_spec_def bind_res_eq_Inr value_error_to_lifecycle_def
        split: if_splits sum.splits exn.splits)
  then obtain steps where "v = JList steps" "l = steps" "steps \<noteq> []"
    by (cases v rule: iter_steps.cases) auto
  then show thesis using v that by (auto simp: check_steps_ok)
qed

section \<open>Properties\<close>


definition sample_ext :: ext where
  "sample_ext = \<lparr>x_digest = \<lambda>s. s, x_yaml = \<lambda>_. Inr (JObj []), x_ast = \<lambda>_. None,
     x_render = \<lambda>_ t. Rendered t, x_now = ''2026-01-03T00:00:00Z''\<rparr>"

definition sample_spec :: propose_spec where
  "sample_spec = \<lparr>ps_id = ''2026-01-02-leaf'', ps_kind = ''shell-script'', ps_intent = ''say hello'',
     ps_body = ''echo hello'',
     ps_target = Some [(''kind'', JStr ''vm''), (''vmid'', JInt 7), (''node'', JStr ''pve'')],
     ps_idempotence = Some ''via-precheck'',
     ps_produced_by = \<lparr>pb_session = ''s'', pb_agent = ''a'', pb_user = ''u'', pb_at = ''t''\<rparr>,
     ps_note_kind = None, ps_supersedes = None, ps_tags = None, ps_rollback = None,
     ps_replay_safe = None, ps_requires_snapshot = Some True, ps_skip_if = None\<rparr>"


text \<open>
  a composite that passes validation has steps that are mappings, each with an artifact to run,
  under identifiers that are pairwise different.
\<close>

theorem composite_spec_valid:
  assumes "validate_composite_spec yaml body = Inr ()"
  shows "\<exists>steps ks. extract_composite_steps yaml body = Inr (JList steps) \<and> steps \<noteq> []
           \<and> map step_key steps = map Some ks \<and> distinct ks"
  using validate_composite_spec_ok [OF assms] by blast

definition sample_plan :: string where
  "sample_plan = ''```yaml composite-spec'' @ [nl] @ ''x'' @ [nl] @ ''```''"

theorem composite_spec_valid_witness:
  "\<exists>steps ks. extract_composite_steps (\<lambda>_. Inr (JObj [(''steps'', JList [JObj [(''id'', JStr ''one''),
       (''artifact'', JStr ''2026-01-02-leaf'')]])])) sample_plan = Inr (JList steps) \<and> steps \<noteq> []
     \<and> map step_key steps = map Some ks \<and> distinct ks"
  by (rule composite_spec_valid) code_simp

text \<open>
  the error the composite check lets through.  A body whose YAML does not parse is refused with
  the parser's own exception, not with a \<open>LifecycleError\<close>, because \<open>YAMLError\<close> is not a
  \<open>ValueError\<close>.
\<close>

theorem composite_yaml_error_escapes:
  assumes "find_fence ''composite-spec'' body = Some content" and "yaml (py_strip content) = Inl (YAMLError m)"
  shows "validate_composite_spec yaml body = Inl (YAMLError m)"
  using assms
  by (simp add: validate_composite_spec_def extract_composite_steps_def value_error_to_lifecycle_def)

theorem composite_yaml_error_escapes_witness:
  "validate_composite_spec (\<lambda>_. Inl (YAMLError ''bad'')) sample_plan = Inl (YAMLError ''bad'')"
proof -
  have "find_fence ''composite-spec'' sample_plan = Some [CHR ''x'', nl]" by code_simp
  then show ?thesis by (rule composite_yaml_error_escapes) simp
qed

end
