(* ===== verification/Approval_Code.thy ===== *)
theory Approval_Code
  imports HP_Prelude
begin

text \<open>
  Approval codes: \<^verbatim>\<open>artifacts/approval_code.py\<close> and the table
  \<open>artifact_approval_codes\<close> of \<^verbatim>\<open>db/repository.py\<close>.  A code is minted when an artifact is
  proposed, relayed by a human and checked by the MCP tool; wrong codes are counted and lock the
  artifact.  The random choice of \<open>secrets.choice\<close> is an argument.
\<close>

section \<open>Codes\<close>

definition code_alphabet :: string where
  "code_alphabet = ''ABCDEFGHJKMNPQRSTVWXYZ23456789''"

definition code_length :: nat where
  "code_length = 10"

definition lock_threshold :: nat where
  "lock_threshold = 5"

text \<open>\<open>generate_code\<close> with the indices that were drawn.\<close>

definition generate_code :: "(nat \<Rightarrow> nat) \<Rightarrow> string" where
  "generate_code draw =
     map (\<lambda>i. code_alphabet ! (draw i mod length code_alphabet)) [0..<code_length]"

definition is_ascii_alnum :: "char \<Rightarrow> bool" where
  "is_ascii_alnum c = (is_lower c \<or> is_upper c \<or> is_digit c)"

definition normalize_code :: "string \<Rightarrow> string" where
  "normalize_code raw = py_upper (filter is_ascii_alnum raw)"

definition verify_code :: "string \<Rightarrow> string \<Rightarrow> bool" where
  "verify_code candidate stored = (normalize_code candidate = stored)"

definition format_for_display :: "string \<Rightarrow> string" where
  "format_for_display code =
     (if code = [] then code
      else let mid = length code div 2 in
           if mid \<noteq> 0 then take mid code @ ''-'' @ drop mid code else code)"

section \<open>The table\<close>

record code_row =
  cr_code :: string
  cr_failed :: nat
  cr_locked :: bool

type_synonym codes = "(string \<times> code_row) list"

definition set_approval_code :: "codes \<Rightarrow> string \<Rightarrow> string \<Rightarrow> codes" where
  "set_approval_code t i code = AList.update i \<lparr>cr_code = code, cr_failed = 0, cr_locked = False\<rparr> t"

definition get_approval_code_row :: "codes \<Rightarrow> string \<Rightarrow> code_row option" where
  "get_approval_code_row t i = map_of t i"

definition record_failed_approval :: "codes \<Rightarrow> string \<Rightarrow> nat \<Rightarrow> (nat \<times> bool) \<times> codes" where
  "record_failed_approval t i threshold =
     (case get_approval_code_row t i of
        None \<Rightarrow> ((0, False), t)
      | Some row \<Rightarrow>
          (let attempts = cr_failed row + 1;
               locked = (if attempts \<ge> threshold then True else cr_locked row)
           in ((attempts, locked), AList.update i (row\<lparr>cr_failed := attempts, cr_locked := locked\<rparr>) t)))"

definition reset_approval_lock :: "codes \<Rightarrow> string \<Rightarrow> bool \<times> codes" where
  "reset_approval_lock t i =
     (case map_of t i of
        None \<Rightarrow> (False, t)
      | Some row \<Rightarrow> (True, AList.update i (row\<lparr>cr_failed := 0, cr_locked := False\<rparr>) t))"

definition clear_approval_code :: "codes \<Rightarrow> string \<Rightarrow> codes" where
  "clear_approval_code t i = AList.delete i t"

definition ensure_approval_code :: "(nat \<Rightarrow> nat) \<Rightarrow> codes \<Rightarrow> string \<Rightarrow> string \<times> codes" where
  "ensure_approval_code draw t i =
     (case get_approval_code_row t i of
        Some row \<Rightarrow> (cr_code row, t)
      | None \<Rightarrow> (let code = generate_code draw in (code, set_approval_code t i code)))"

section \<open>The gate\<close>

text \<open>The part of \<open>handle_approve_artifact\<close> that decides on a code, before anything is approved.\<close>

datatype gate_result = Gate_open | Code_required | No_active_code | Gate_locked | Wrong_code bool

definition code_gate :: "codes \<Rightarrow> string \<Rightarrow> string option \<Rightarrow> gate_result \<times> codes" where
  "code_gate t i approval_code =
     (case approval_code of
        None \<Rightarrow> (Code_required, t)
      | Some c \<Rightarrow>
          (if py_strip c = [] then (Code_required, t)
           else case get_approval_code_row t i of
                  None \<Rightarrow> (No_active_code, t)
                | Some row \<Rightarrow>
                    (if cr_locked row then (Gate_locked, t)
                     else if \<not> verify_code c (cr_code row)
                     then (let (st, t') = record_failed_approval t i lock_threshold
                           in (Wrong_code (snd st), t'))
                     else (Gate_open, t))))"

fun attempts :: "codes \<Rightarrow> string \<Rightarrow> string option list \<Rightarrow> codes" where
  "attempts t i [] = t"
| "attempts t i (c # cs) = attempts (snd (code_gate t i c)) i cs"

section \<open>The rate limit\<close>

text \<open>
  \<open>_check_approve_ratelimit\<close>: the calls of each caller in the last minute, on a monotonic clock.
\<close>

definition approve_ratelimit_max :: nat where
  "approve_ratelimit_max = 10"

definition approve_ratelimit_window :: int where
  "approve_ratelimit_window = 60"

definition approve_ratelimit_max_keys :: nat where
  "approve_ratelimit_max_keys = 10000"

type_synonym ratelimit = "(string \<times> int list) list"

definition check_approve_ratelimit :: "int \<Rightarrow> ratelimit \<Rightarrow> string \<Rightarrow> unit res \<times> ratelimit" where
  "check_approve_ratelimit now rl caller =
     (let rl0 = (if length rl > approve_ratelimit_max_keys then [] else rl);
          window = filter (\<lambda>t. now - t < approve_ratelimit_window)
                     (case map_of rl0 caller of None \<Rightarrow> [] | Some w \<Rightarrow> w)
      in if length window \<ge> approve_ratelimit_max
         then (Inl (ValueError ''Rate limit exceeded''), AList.update caller window rl0)
         else (Inr (), AList.update caller (window @ [now]) rl0))"

section \<open>Facts\<close>

lemma alphabet_checked:
  "list_all (\<lambda>c. is_ascii_alnum c \<and> to_upper c = c
     \<and> is_ascii_alnum (to_lower c) \<and> to_upper (to_lower c) = c) code_alphabet"
  by code_simp

lemma alphabet_canonical:
  "c \<in> set code_alphabet \<Longrightarrow> is_ascii_alnum c \<and> to_upper c = c"
  "c \<in> set code_alphabet \<Longrightarrow> is_ascii_alnum (to_lower c) \<and> to_upper (to_lower c) = c"
  using alphabet_checked by (auto simp: list_all_iff)

lemma dash_not_alnum: "\<not> is_ascii_alnum (CHR ''-'')" "to_lower (CHR ''-'') = CHR ''-''"
  by (simp_all add: is_ascii_alnum_def is_lower_def is_upper_def is_digit_def to_lower_def)

lemma normalize_append: "normalize_code (a @ b) = normalize_code a @ normalize_code b"
  by (simp add: normalize_code_def py_upper_def)

lemma normalize_canonical: "set c \<subseteq> set code_alphabet \<Longrightarrow> normalize_code c = c"
  using alphabet_canonical(1) by (induction c) (auto simp: normalize_code_def py_upper_def)

lemma normalize_lower: "set c \<subseteq> set code_alphabet \<Longrightarrow> normalize_code (py_lower c) = c"
  using alphabet_canonical(2)
  by (induction c) (auto simp: normalize_code_def py_upper_def py_lower_def)

lemma generate_code_wf: "length (generate_code draw) = code_length \<and> set (generate_code draw) \<subseteq> set code_alphabet"
proof -
  have "0 < length code_alphabet" by (simp add: code_alphabet_def)
  then show ?thesis by (auto simp: generate_code_def)
qed

lemma normalize_display:
  assumes "set c \<subseteq> set code_alphabet"
  shows "normalize_code (format_for_display c) = c"
    and "normalize_code (py_lower (format_for_display c)) = c"
proof -
  have t: "set (take m c) \<subseteq> set code_alphabet" "set (drop m c) \<subseteq> set code_alphabet" for m
    using assms set_take_subset [of m c] set_drop_subset [of m c] by auto
  have d: "normalize_code ''-'' = []" by (simp add: normalize_code_def dash_not_alnum py_upper_def)
  show "normalize_code (format_for_display c) = c"
    using t assms by (simp only: format_for_display_def Let_def normalize_append d normalize_canonical
        append_Nil append_take_drop_id split: if_splits) simp
  have l: "py_lower (a @ b) = py_lower a @ py_lower b" for a b by (simp add: py_lower_def)
  have dl: "py_lower ''-'' = ''-''" by (simp add: py_lower_def dash_not_alnum)
  show "normalize_code (py_lower (format_for_display c)) = c"
    using t assms by (simp only: format_for_display_def Let_def l dl normalize_append d normalize_lower
        append_Nil append_take_drop_id split: if_splits) simp
qed

text \<open>A wrong code advances the counter; the lock follows it.\<close>

definition counted :: "code_row \<Rightarrow> bool" where
  "counted row = (cr_locked row = (lock_threshold \<le> cr_failed row))"

lemma code_gate_wrong:
  assumes "map_of t i = Some row" and "\<not> cr_locked row" and "py_strip c \<noteq> []"
    and "\<not> verify_code c (cr_code row)"
  shows "map_of (snd (code_gate t i (Some c))) i
           = Some (row\<lparr>cr_failed := Suc (cr_failed row), cr_locked := lock_threshold \<le> Suc (cr_failed row)\<rparr>)"
  using assms by (auto simp: code_gate_def get_approval_code_row_def record_failed_approval_def Let_def)

lemma attempts_locked:
  "map_of t i = Some row \<Longrightarrow> cr_locked row \<Longrightarrow> map_of (attempts t i cs) i = Some row"
  by (induction cs arbitrary: t)
     (auto simp: code_gate_def get_approval_code_row_def split: option.splits)

lemma attempts_count:
  "map_of t i = Some row \<Longrightarrow> counted row \<Longrightarrow> cr_failed row + length cs \<le> lock_threshold \<Longrightarrow>
   list_all (\<lambda>c. py_strip c \<noteq> [] \<and> \<not> verify_code c (cr_code row)) cs \<Longrightarrow>
   map_of (attempts t i (map Some cs)) i
     = Some (row\<lparr>cr_failed := cr_failed row + length cs,
                 cr_locked := lock_threshold \<le> cr_failed row + length cs\<rparr>)"
proof (induction cs arbitrary: t row)
  case Nil
  then show ?case by (simp add: counted_def)
next
  case (Cons c cs)
  let ?r = "row\<lparr>cr_failed := Suc (cr_failed row), cr_locked := lock_threshold \<le> Suc (cr_failed row)\<rparr>"
  have "\<not> cr_locked row" using Cons.prems by (simp add: counted_def)
  then have "map_of (snd (code_gate t i (Some c))) i = Some ?r"
    using Cons.prems by (intro code_gate_wrong) auto
  moreover have "counted ?r" by (simp add: counted_def)
  ultimately show ?case using Cons.IH [of _ ?r] Cons.prems by simp
qed

section \<open>Properties\<close>

text \<open>
  relay round trip.  A minted code has ten characters of the alphabet, and a human may pass it on
  as stored, grouped for display, or grouped in lower case: each form verifies against it.
\<close>

theorem relayed_code_verifies:
  "length (generate_code draw) = 10
   \<and> verify_code (generate_code draw) (generate_code draw)
   \<and> verify_code (format_for_display (generate_code draw)) (generate_code draw)
   \<and> verify_code (py_lower (format_for_display (generate_code draw))) (generate_code draw)"
  using generate_code_wf [of draw] normalize_display [of "generate_code draw"]
    normalize_canonical [of "generate_code draw"]
  by (simp add: verify_code_def code_length_def)

text \<open>
  C37: no guessing.  After five wrong codes against a fresh row the gate stays shut for every further
  attempt, the right code included, until an operator resets the lock; the reset then opens it to
  the right code.
\<close>

theorem five_wrong_codes_lock:
  assumes "map_of t i = Some \<lparr>cr_code = code, cr_failed = 0, cr_locked = False\<rparr>"
    and "length wrong = 5" and "list_all (\<lambda>c. py_strip c \<noteq> [] \<and> \<not> verify_code c code) wrong"
    and "py_strip right \<noteq> []" and "verify_code right code"
  shows "fst (code_gate (attempts t i (map Some wrong @ further)) i (Some right)) = Gate_locked
    \<and> fst (code_gate (snd (reset_approval_lock (attempts t i (map Some wrong @ further)) i)) i (Some right))
        = Gate_open"
proof -
  let ?row = "\<lparr>cr_code = code, cr_failed = 5, cr_locked = True\<rparr>"
  have app: "attempts t i (xs @ ys) = attempts (attempts t i xs) i ys" for xs ys
    by (induction xs arbitrary: t) auto
  have "map_of (attempts t i (map Some wrong)) i = Some ?row"
    using attempts_count [OF assms(1), of wrong] assms(2,3)
    by (simp add: counted_def lock_threshold_def)
  then have "map_of (attempts t i (map Some wrong @ further)) i = Some ?row"
    by (simp add: app attempts_locked)
  then show ?thesis
    using assms(4,5) by (simp add: code_gate_def get_approval_code_row_def reset_approval_lock_def)
qed

theorem five_wrong_codes_lock_witness:
  "fst (code_gate (attempts [(''a'', \<lparr>cr_code = ''ABC'', cr_failed = 0, cr_locked = False\<rparr>)] ''a''
          (map Some (replicate 5 ''XYZ''))) ''a'' (Some ''abc'')) = Gate_locked"
proof -
  have "list_all (\<lambda>c. py_strip c \<noteq> [] \<and> \<not> verify_code c ''ABC'') (replicate 5 ''XYZ'')"
    and "py_strip ''abc'' \<noteq> []" and "verify_code ''abc'' ''ABC''"
    by code_simp+
  then show ?thesis
    using five_wrong_codes_lock [of "[(''a'', \<lparr>cr_code = ''ABC'', cr_failed = 0, cr_locked = False\<rparr>)]"
      "''a''" "''ABC''" "replicate 5 ''XYZ''" "''abc''" "[]"] by simp
qed

end
