(* ===== verification/Artifact_Transitions.thy ===== *)
theory Artifact_Transitions
  imports Artifact_Validator Approval_Code
begin

text \<open>
  The state changes of an artifact: \<^verbatim>\<open>artifacts/transitions.py\<close> and the artifact tables of
  \<^verbatim>\<open>db/repository.py\<close> it writes.

  The world is the store, the audit log, the database mirror of the artifacts, the approval codes
  and the emitted events.  An operation takes a world and returns a result and the world after it:
  an exception keeps every write made before it was raised.  What happens outside the process is
  the \<open>env\<close> record: whether the commit under the repository lock fails (after the file was
  written), whether the audit insert, the mirror upsert, the code table or a notification raises.

  \<open>_composite_cascade\<close> and \<open>_cascade_invalidate\<close> recurse over the references between artifacts;
  they have a fuel argument, and the number of stored artifacts plus one is always enough
  (\<open>cascade_total\<close>, \<open>invalidate_total\<close>).
\<close>

section \<open>The world\<close>

record audit_row =
  au_user :: string
  au_action :: string
  au_artifact :: string
  au_details :: dict

record world =
  w_files :: files
  w_audit :: "audit_row list"
  w_db :: "(string \<times> frontmatter) list"
  w_codes :: codes
  w_events :: "(string \<times> string) list"

record env =
  e_ext :: ext
  e_repo :: bool
  e_git :: "string \<Rightarrow> string \<Rightarrow> exn option"
  e_audit :: "string \<Rightarrow> string \<Rightarrow> exn option"
  e_sync :: "string \<Rightarrow> exn option"
  e_codes :: "string \<Rightarrow> exn option"
  e_emit :: "string \<Rightarrow> string \<Rightarrow> exn option"
  e_draw :: "nat \<Rightarrow> nat"

type_synonym 'a op = "world \<Rightarrow> 'a res \<times> world"

definition return_op :: "'a \<Rightarrow> 'a op" where
  "return_op x w = (Inr x, w)"

definition lift_op :: "'a res \<Rightarrow> 'a op" where
  "lift_op r w = (r, w)"

definition bind_op :: "'a op \<Rightarrow> ('a \<Rightarrow> 'b op) \<Rightarrow> 'b op" where
  "bind_op m f w = (case m w of (Inl e, w') \<Rightarrow> (Inl e, w') | (Inr x, w') \<Rightarrow> f x w')"

fun each_op :: "('a \<Rightarrow> unit op) \<Rightarrow> 'a list \<Rightarrow> unit op" where
  "each_op f [] w = (Inr (), w)"
| "each_op f (x # xs) w = bind_op (f x) (\<lambda>_. each_op f xs) w"

lemma bind_op_eq: "bind_op m f w = (r, w') \<longleftrightarrow>
    (\<exists>e. m w = (Inl e, w') \<and> r = Inl e) \<or> (\<exists>x w1. m w = (Inr x, w1) \<and> f x w1 = (r, w'))"
  by (auto simp: bind_op_def split: prod.splits sum.splits)

lemma bind_op_Inl [simp, err_simps]: "m w = (Inl e, w1) \<Longrightarrow> bind_op m f w = (Inl e, w1)"
  and bind_op_Inr [simp, err_simps]: "m w = (Inr x, w1) \<Longrightarrow> bind_op m f w = f x w1"
  by (simp_all add: bind_op_def)

lemma op_simps [simp, err_simps]:
  "return_op x w = (Inr x, w)" "lift_op r w = (r, w)"
  by (simp_all add: return_op_def lift_op_def)

section \<open>Primitive effects\<close>

definition read_op :: "string \<Rightarrow> doc op" where
  "read_op i w = (store_read (w_files w) i, w)"

definition write_op :: "env \<Rightarrow> string \<Rightarrow> string \<Rightarrow> frontmatter \<Rightarrow> string \<Rightarrow> unit op" where
  "write_op env event i fm body w =
     (if \<not> id_prefix i then (Inl (ValueError (''Invalid artifact ID: '' @ i)), w)
      else
        let w' = w\<lparr>w_files := store_write (w_files w) i fm body\<rparr>
        in case e_git env event i of Some e \<Rightarrow> (Inl e, w') | None \<Rightarrow> (Inr (), w'))"

definition log_audit :: "env \<Rightarrow> string \<Rightarrow> string \<Rightarrow> string option \<Rightarrow> dict \<Rightarrow> unit op" where
  "log_audit env action i user details w =
     (if \<not> e_repo env then (Inr (), w)
      else case e_audit env action i of
             Some e \<Rightarrow> (Inl e, w)
           | None \<Rightarrow>
               (Inr (), w\<lparr>w_audit := w_audit w @
                  [\<lparr>au_user = (case nonempty user of Some u \<Rightarrow> u | None \<Rightarrow> ''system''),
                    au_action = action, au_artifact = i, au_details = details\<rparr>]\<rparr>))"

text \<open>The columns that \<open>ON CONFLICT(id) DO UPDATE\<close> rewrites; the others keep their first value.\<close>

definition upsert_artifact :: "frontmatter \<Rightarrow> (string \<times> frontmatter) list \<Rightarrow> (string \<times> frontmatter) list" where
  "upsert_artifact fm db =
     AList.update (fm_id fm)
       (case map_of db (fm_id fm) of
          None \<Rightarrow> fm
        | Some row \<Rightarrow> row\<lparr>fm_status := fm_status fm, fm_hash := fm_hash fm,
            fm_approved_by := fm_approved_by fm, fm_applied_at := fm_applied_at fm,
            fm_failed_at := fm_failed_at fm, fm_failure_reason := fm_failure_reason fm,
            fm_superseded_by := fm_superseded_by fm, fm_rejected_by := fm_rejected_by fm,
            fm_revoked_by := fm_revoked_by fm\<rparr>) db"

definition is_sqlite :: "exn \<Rightarrow> bool" where
  "is_sqlite e = (case e of SqliteError _ \<Rightarrow> True | _ \<Rightarrow> False)"

text \<open>\<open>except (sqlite3.OperationalError, sqlite3.IntegrityError): log\<close>.\<close>

definition sync_to_db :: "env \<Rightarrow> string \<Rightarrow> frontmatter \<Rightarrow> unit op" where
  "sync_to_db env i fm w =
     (if \<not> e_repo env then (Inr (), w)
      else case e_sync env i of
             Some e \<Rightarrow> (if is_sqlite e then Inr () else Inl e, w)
           | None \<Rightarrow> (Inr (), w\<lparr>w_db := upsert_artifact fm (w_db w)\<rparr>))"

definition clear_code_op :: "env \<Rightarrow> string \<Rightarrow> unit op" where
  "clear_code_op env i w =
     (if \<not> e_repo env then (Inr (), w)
      else case e_codes env i of
             Some e \<Rightarrow> (if is_sqlite e then Inr () else Inl e, w)
           | None \<Rightarrow> (Inr (), w\<lparr>w_codes := clear_approval_code (w_codes w) i\<rparr>))"

definition make_signoff :: "string \<Rightarrow> string \<Rightarrow> string option \<Rightarrow> string option \<Rightarrow> signoff" where
  "make_signoff user now role reason =
     \<lparr>so_user = user, so_at = now, so_role = nonempty role, so_reason = nonempty reason\<rparr>"

text \<open>The common start of a transition: read the artifact and validate the change of status.\<close>

definition transition_op ::
  "string \<Rightarrow> artifact_status \<Rightarrow> (frontmatter \<Rightarrow> string \<Rightarrow> unit op) \<Rightarrow> unit op" where
  "transition_op i tgt k =
     bind_op (read_op i) (\<lambda>(fm, body).
     bind_op (lift_op (validate_transition (fm_status fm) tgt)) (\<lambda>_. k fm body))"

section \<open>The approval cascade\<close>

definition body_hash :: "env \<Rightarrow> string \<Rightarrow> string" where
  "body_hash env body = compute_body_hash (x_digest (e_ext env)) body"

text \<open>\<open>str(step.get("artifact") or "")\<close>.\<close>

definition step_artifact :: "jval \<Rightarrow> string res" where
  "step_artifact st =
     (case st of
        JObj kvs \<Rightarrow> Inr (str_or_empty (dget ''artifact'' kvs))
      | _ \<Rightarrow> Inl (AttributeError ''object has no attribute get''))"

definition cascade_read :: "files \<Rightarrow> string \<Rightarrow> doc res" where
  "cascade_read fs sub =
     (case store_read fs sub of
        Inl (FileNotFoundError _) \<Rightarrow>
          Inl (LifecycleError (''composite step references '' @ sub @ '', which does not exist; ''
            @ ''approving would approve a plan that cannot run''))
      | r \<Rightarrow> r)"

definition composite_steps :: "env \<Rightarrow> string \<Rightarrow> string \<Rightarrow> jval list res" where
  "composite_steps env cid body =
     bind_res (case extract_composite_steps (x_yaml (e_ext env)) body of
                 Inl (ValueError m) \<Rightarrow>
                   Inl (LifecycleError (''composite '' @ cid @ '' has an unreadable spec, so approval ''
                     @ ''cannot cascade to its steps: '' @ m))
               | r \<Rightarrow> r) iter_steps"

fun composite_cascade :: "env \<Rightarrow> files \<Rightarrow> nat \<Rightarrow> string list \<Rightarrow> string \<Rightarrow> doc
    \<Rightarrow> (string list \<times> string list) res"
and cascade_steps :: "env \<Rightarrow> files \<Rightarrow> nat \<Rightarrow> string list \<Rightarrow> jval list
    \<Rightarrow> (string list \<times> string list) res" where
  "composite_cascade env fs n visited cid d =
     (if fm_kind (fst d) \<noteq> COMPOSITE then Inr ([], visited)
      else case n of
             0 \<Rightarrow> Inl RecursionError
           | Suc m \<Rightarrow>
               bind_res (composite_steps env cid (snd d)) (\<lambda>steps.
                 cascade_steps env fs m (cid # visited) steps))"
| "cascade_steps env fs n visited [] = Inr ([], visited)"
| "cascade_steps env fs n visited (st # rest) =
     bind_res (step_artifact st) (\<lambda>sub.
       if sub = [] \<or> sub \<in> set visited then cascade_steps env fs n visited rest
       else
         bind_res (cascade_read fs sub) (\<lambda>d.
           if fm_status (fst d) = APPROVED then cascade_steps env fs n (sub # visited) rest
           else if fm_status (fst d) \<noteq> PROPOSED
           then Inl (LifecycleError (''sub-artifact '' @ sub @ '' is '' @ status_value (fm_status (fst d))
                  @ ''; a composite can only be approved while every step it names is proposed or approved''))
           else if body_hash env (snd d) \<noteq> fm_hash (fst d)
           then Inl (LifecycleError (''sub-artifact '' @ sub @ '' was modified after propose (hash mismatch), ''
                  @ ''so the composite cannot be approved over it''))
           else
             bind_res (composite_cascade env fs n (sub # visited) sub d) (\<lambda>(inner, v1).
             bind_res (cascade_steps env fs n v1 rest) (\<lambda>(more, v2).
               Inr (sub # inner @ more, v2)))))"

declare composite_cascade.simps [simp del]

definition approve_cascaded ::
  "env \<Rightarrow> string \<Rightarrow> string option \<Rightarrow> string option \<Rightarrow> string \<Rightarrow> string \<Rightarrow> unit op" where
  "approve_cascaded env user reason role via sub =
     bind_op (read_op sub) (\<lambda>(fm, body).
       if fm_status fm \<noteq> PROPOSED then return_op ()
       else
         let why = (case nonempty reason of
                      Some r \<Rightarrow> r @ '' (cascaded from composite '' @ via @ '')''
                    | None \<Rightarrow> ''cascaded from composite '' @ via);
             fm' = fm\<lparr>fm_status := APPROVED,
                      fm_approved_by := Some (make_signoff user (x_now (e_ext env)) role (Some why))\<rparr>
         in bind_op (write_op env ''approve'' sub fm' body) (\<lambda>_.
            bind_op (log_audit env ''approve'' sub (Some user) [(''cascaded_from'', JStr via)]) (\<lambda>_.
            bind_op (sync_to_db env sub fm') (\<lambda>_. clear_code_op env sub))))"

definition approve_details :: "string option \<Rightarrow> string list \<Rightarrow> dict" where
  "approve_details role cascade =
     (case nonempty role of None \<Rightarrow> [] | Some r \<Rightarrow> [(''approved_by_role'', JStr r)])
     @ (if cascade \<noteq> [] then [(''cascaded_to'', JList (map JStr cascade))] else [])"

text \<open>The checks of \<open>approve\<close>: everything before the first write.\<close>

definition approve_checks :: "env \<Rightarrow> files \<Rightarrow> string \<Rightarrow> (doc \<times> string list) res" where
  "approve_checks env fs i =
     bind_res (store_read fs i) (\<lambda>d.
     bind_res (validate_transition (fm_status (fst d)) APPROVED) (\<lambda>_.
     bind_res (guard (body_hash env (snd d) = fm_hash (fst d))
        (LifecycleError (''Hash mismatch for '' @ i @ '': body was modified after propose''))) (\<lambda>_.
     bind_res (composite_cascade env fs (Suc (length fs)) [] i d) (\<lambda>(cascade, _).
       Inr (d, cascade)))))"

definition approve ::
  "env \<Rightarrow> string \<Rightarrow> string \<Rightarrow> string option \<Rightarrow> string option \<Rightarrow> unit op" where
  "approve env i user reason role w =
     bind_op (lift_op (approve_checks env (w_files w) i)) (\<lambda>((fm, body), cascade).
       let fm' = fm\<lparr>fm_status := APPROVED,
                    fm_approved_by := Some (make_signoff user (x_now (e_ext env)) role reason)\<rparr>
       in bind_op (write_op env ''approve'' i fm' body) (\<lambda>_.
          bind_op (log_audit env ''approve'' i (Some user) (approve_details role cascade)) (\<lambda>_.
          bind_op (sync_to_db env i fm') (\<lambda>_.
            each_op (approve_cascaded env user reason role i) cascade)))) w"

section \<open>The other transitions\<close>

definition reject :: "env \<Rightarrow> string \<Rightarrow> string \<Rightarrow> string option \<Rightarrow> string option \<Rightarrow> unit op" where
  "reject env i user reason role =
     transition_op i REJECTED (\<lambda>fm body.
       let fm' = fm\<lparr>fm_status := REJECTED,
                    fm_rejected_by := Some (make_signoff user (x_now (e_ext env)) role reason)\<rparr>
       in bind_op (write_op env ''reject'' i fm' body) (\<lambda>_.
          bind_op (log_audit env ''reject'' i (Some user)
            (case nonempty role of None \<Rightarrow> [] | Some r \<Rightarrow> [(''rejected_by_role'', JStr r)])) (\<lambda>_.
          sync_to_db env i fm')))"

text \<open>The loop over the candidates and the recursion share the set of visited identifiers.\<close>

fun cascade_invalidate :: "env \<Rightarrow> nat \<Rightarrow> string \<Rightarrow> string list \<Rightarrow> world \<Rightarrow> string list res \<times> world"
and invalidate_loop :: "env \<Rightarrow> nat \<Rightarrow> string \<Rightarrow> frontmatter list \<Rightarrow> string list \<Rightarrow> world
    \<Rightarrow> string list res \<times> world" where
  "cascade_invalidate env n edited visited w =
     (if edited \<in> set visited then (Inr visited, w)
      else case n of
             0 \<Rightarrow> (Inl RecursionError, w)
           | Suc m \<Rightarrow> invalidate_loop env m edited
                        (store_list (w_files w) (Some APPROVED) (Some COMPOSITE)) (edited # visited) w)"
| "invalidate_loop env n edited [] visited w = (Inr visited, w)"
| "invalidate_loop env n edited (cand # rest) visited w =
     (let cid = fm_id cand in
      if cid = edited \<or> cid \<in> set visited then invalidate_loop env n edited rest visited w
      else
        bind_op (read_op cid) (\<lambda>(_, cbody).
          if py_in edited cbody then
            let cfm = cand\<lparr>fm_status := PROPOSED, fm_approved_by := None\<rparr>
            in bind_op (write_op env ''edit'' cid cfm cbody) (\<lambda>_.
               bind_op (log_audit env ''invalidate'' cid None
                 [(''reason'', JStr (''sub-artifact '' @ edited @ '' edited''))]) (\<lambda>_.
               bind_op (sync_to_db env cid cfm) (\<lambda>_.
               bind_op (cascade_invalidate env n cid visited) (\<lambda>visited'.
                 invalidate_loop env n edited rest visited'))))
          else invalidate_loop env n edited rest visited) w)"

declare cascade_invalidate.simps [simp del]

definition edit :: "env \<Rightarrow> string \<Rightarrow> unit op" where
  "edit env i w =
     bind_op (read_op i) (\<lambda>(fm, body).
       if fm_status fm \<in> {APPLIED, SUPERSEDED, REVOKED, REJECTED}
       then lift_op (Inl (LifecycleError (''Cannot edit artifact in terminal state: ''
              @ status_value (fm_status fm))))
       else if body_hash env body = fm_hash fm then return_op ()
       else
         let fm1 = fm\<lparr>fm_hash := body_hash env body\<rparr>;
             fm' = (if fm_status fm \<in> {APPROVED, FAILED}
                    then fm1\<lparr>fm_status := PROPOSED, fm_approved_by := None\<rparr> else fm1)
         in bind_op (write_op env ''edit'' i fm' body) (\<lambda>_.
            bind_op (\<lambda>w1. cascade_invalidate env (Suc (length (w_files w1))) i [] w1) (\<lambda>_.
              sync_to_db env i fm'))) w"

definition append_log :: "string \<Rightarrow> string \<Rightarrow> string" where
  "append_log body log =
     rstrip_nl body @ [nl, nl] @ ''## Execution log'' @ [nl, nl] @ log @ [nl]"

definition mark_applied :: "env \<Rightarrow> string \<Rightarrow> string \<Rightarrow> unit op" where
  "mark_applied env i execution_log =
     transition_op i APPLIED (\<lambda>fm body.
       let body' = append_log body execution_log;
           fm' = fm\<lparr>fm_status := APPLIED, fm_applied_at := Some (x_now (e_ext env)),
                    fm_hash := body_hash env body'\<rparr>
       in bind_op (write_op env ''apply'' i fm' body') (\<lambda>_.
          bind_op (log_audit env ''apply'' i None []) (\<lambda>_. sync_to_db env i fm')))"

definition mark_failed :: "env \<Rightarrow> string \<Rightarrow> string \<Rightarrow> string \<Rightarrow> unit op" where
  "mark_failed env i reason partial_log =
     transition_op i FAILED (\<lambda>fm body.
       let body' = (if partial_log \<noteq> [] then append_log body partial_log else body);
           fm' = fm\<lparr>fm_status := FAILED, fm_failed_at := Some (x_now (e_ext env)),
                    fm_failure_reason := Some reason, fm_hash := body_hash env body'\<rparr>
       in bind_op (write_op env ''fail'' i fm' body') (\<lambda>_.
          bind_op (log_audit env ''fail'' i None []) (\<lambda>_. sync_to_db env i fm')))"

definition supersede :: "env \<Rightarrow> string \<Rightarrow> string \<Rightarrow> unit op" where
  "supersede env old_id new_id =
     transition_op old_id SUPERSEDED (\<lambda>fm body.
       let fm' = fm\<lparr>fm_status := SUPERSEDED, fm_superseded_by := Some new_id\<rparr>
       in bind_op (write_op env ''supersede'' old_id fm' body) (\<lambda>_.
          bind_op (log_audit env ''supersede'' old_id None []) (\<lambda>_. sync_to_db env old_id fm')))"

definition revoke :: "env \<Rightarrow> string \<Rightarrow> string \<Rightarrow> string option \<Rightarrow> unit op" where
  "revoke env i user reason =
     transition_op i REVOKED (\<lambda>fm body.
       let fm' = fm\<lparr>fm_status := REVOKED,
                    fm_revoked_by := Some (make_signoff user (x_now (e_ext env)) None reason)\<rparr>
       in bind_op (write_op env ''revoke'' i fm' body) (\<lambda>_.
          bind_op (log_audit env ''revoke'' i (Some user) []) (\<lambda>_. sync_to_db env i fm')))"

end
