(* ===== verification/Artifact_Lifecycle.thy ===== *)
theory Artifact_Lifecycle
  imports Artifact_Transitions
begin

text \<open>
  The lifecycle service: \<^verbatim>\<open>artifacts/lifecycle.py\<close> around the transitions, and the coded approval
  of \<^verbatim>\<open>mcp/tools/artifact_tools.py\<close>.  Notifications go through \<open>emit_event\<close>, whose network
  errors are swallowed; indexing a kb-note is outside the model and cannot fail a propose.
\<close>

section \<open>Notifications\<close>

text \<open>\<open>_NetError\<close>: connection errors and every \<open>OSError\<close>, a missing file among them.\<close>

definition is_net :: "exn \<Rightarrow> bool" where
  "is_net e = (case e of ConnectionError _ \<Rightarrow> True | FileNotFoundError _ \<Rightarrow> True | _ \<Rightarrow> False)"

definition swallow :: "(exn \<Rightarrow> bool) \<Rightarrow> unit op \<Rightarrow> unit op" where
  "swallow P m w = (case m w of (Inl e, w') \<Rightarrow> (if P e then Inr () else Inl e, w') | (Inr x, w') \<Rightarrow> (Inr x, w'))"

definition emit_event :: "env \<Rightarrow> string \<Rightarrow> string \<Rightarrow> unit op" where
  "emit_event env name i w =
     (case e_emit env name i of
        Some e \<Rightarrow> (Inl e, w)
      | None \<Rightarrow> (Inr (), w\<lparr>w_events := w_events w @ [(name, i)]\<rparr>))"

text \<open>The tail of a lifecycle method: read the artifact back and announce it.\<close>

definition notify :: "env \<Rightarrow> string \<Rightarrow> string \<Rightarrow> unit op" where
  "notify env name i = swallow is_net (bind_op (read_op i) (\<lambda>_. emit_event env name i))"

section \<open>Propose\<close>

definition mint_code :: "env \<Rightarrow> string \<Rightarrow> unit op" where
  "mint_code env i w =
     (if \<not> e_repo env then (Inr (), w)
      else case e_codes env i of
             Some e \<Rightarrow> (if is_sqlite e then Inr () else Inl e, w)
           | None \<Rightarrow> (Inr (), w\<lparr>w_codes := snd (ensure_approval_code (e_draw env) (w_codes w) i)\<rparr>))"

fun event_name :: "event \<Rightarrow> string" where
  "event_name EvPropose = ''propose''"
| "event_name EvApply = ''apply''"

definition propose :: "env \<Rightarrow> propose_spec \<Rightarrow> string op" where
  "propose env ps w =
     bind_op (lift_op (validate_propose_spec (e_ext env) (w_files w) ps)) (\<lambda>(fm, ev).
       let i = ps_id ps in
       bind_op (write_op env (event_name ev) i fm (ps_body ps)) (\<lambda>_.
       bind_op (sync_to_db env i fm) (\<lambda>_.
       bind_op (mint_code env i) (\<lambda>_.
       bind_op (swallow is_sqlite (log_audit env ''propose'' i (Some (pb_user (fm_produced_by fm)))
          [(''kind'', JStr (kind_value (fm_kind fm))), (''intent'', JStr (take 200 (fm_intent fm)))])) (\<lambda>_.
       bind_op (swallow is_net (emit_event env ''artifact_proposed'' i)) (\<lambda>_. return_op i)))))) w"

section \<open>The wrappers\<close>

definition lc_approve :: "env \<Rightarrow> string \<Rightarrow> string \<Rightarrow> string option \<Rightarrow> unit op" where
  "lc_approve env i user reason =
     bind_op (approve env i user reason None) (\<lambda>_.
     bind_op (clear_code_op env i) (\<lambda>_. notify env ''artifact_approved'' i))"

definition lc_reject :: "env \<Rightarrow> string \<Rightarrow> string \<Rightarrow> string option \<Rightarrow> unit op" where
  "lc_reject env i user reason =
     bind_op (reject env i user reason None) (\<lambda>_.
     bind_op (clear_code_op env i) (\<lambda>_. notify env ''artifact_rejected'' i))"

definition lc_edit :: "env \<Rightarrow> string \<Rightarrow> unit op" where
  "lc_edit env i = edit env i"

definition lc_mark_applied :: "env \<Rightarrow> string \<Rightarrow> string \<Rightarrow> unit op" where
  "lc_mark_applied env i log =
     bind_op (mark_applied env i log) (\<lambda>_. notify env ''artifact_applied'' i)"

definition lc_mark_failed :: "env \<Rightarrow> string \<Rightarrow> string \<Rightarrow> string \<Rightarrow> unit op" where
  "lc_mark_failed env i reason log =
     bind_op (mark_failed env i reason log) (\<lambda>_. notify env ''artifact_failed'' i)"

definition lc_supersede :: "env \<Rightarrow> string \<Rightarrow> string \<Rightarrow> unit op" where
  "lc_supersede env old_id new_id =
     bind_op (supersede env old_id new_id) (\<lambda>_. notify env ''artifact_superseded'' old_id)"

definition lc_revoke :: "env \<Rightarrow> string \<Rightarrow> string \<Rightarrow> string option \<Rightarrow> unit op" where
  "lc_revoke env i user reason =
     bind_op (revoke env i user reason) (\<lambda>_. notify env ''artifact_revoked'' i)"

section \<open>Approval over MCP\<close>

definition gate_error :: "gate_result \<Rightarrow> exn" where
  "gate_error g =
     (case g of
        Code_required \<Rightarrow> ValueError ''approve_artifact requires an approval_code a human relays to you''
      | No_active_code \<Rightarrow> ValueError ''Artifact is not awaiting a coded approval''
      | Gate_locked \<Rightarrow> ValueError ''Approval is locked after too many wrong codes''
      | Wrong_code locked \<Rightarrow>
          ValueError (if locked then ''Incorrect approval code. Approval is now locked'' else ''Incorrect approval code.'')
      | Gate_open \<Rightarrow> ValueError [])"

definition handle_approve_artifact ::
  "env \<Rightarrow> int \<Rightarrow> string \<Rightarrow> string \<Rightarrow> string option \<Rightarrow> ratelimit \<Rightarrow> world
   \<Rightarrow> (doc res \<times> world) \<times> ratelimit" where
  "handle_approve_artifact env now caller i approval_code rl w =
     (case check_approve_ratelimit now rl caller of
        (Inl e, rl') \<Rightarrow> ((Inl e, w), rl')
      | (Inr _, rl') \<Rightarrow>
          (if (case approval_code of None \<Rightarrow> True | Some c \<Rightarrow> py_strip c = [])
           then ((Inl (gate_error Code_required), w), rl')
           else if \<not> e_repo env then ((Inl (RuntimeError ''approval-code store unavailable''), w), rl')
           else
             let (g, codes) = code_gate (w_codes w) i approval_code; w1 = w\<lparr>w_codes := codes\<rparr> in
             if g \<noteq> Gate_open then ((Inl (gate_error g), w1), rl')
             else
               (bind_op (lc_approve env i ''operator-code via MCP'' (Some ''Approved via MCP approval code''))
                  (\<lambda>_. read_op i) w1, rl')))"

end
