(* ===== verification/Artifact_Machine.thy ===== *)
theory Artifact_Machine
  imports Artifact_Lifecycle
begin

text \<open>
  The state machine of an artifact as an abstract specification (\<open>file_step\<close>), the refinement of
  every operation of the lifecycle to it, and what holds in every reachable store.
\<close>

section \<open>Frames\<close>

lemma read_op_simps: "read_op i w = (store_read (w_files w) i, w)"
  by (simp add: read_op_def)

definition keeps_files :: "'a op \<Rightarrow> bool" where
  "keeps_files m = (\<forall>w. w_files (snd (m w)) = w_files w)"

lemma keeps_files_op [simp, intro]:
  "keeps_files (log_audit env a i u d)" "keeps_files (sync_to_db env i fm)"
  "keeps_files (clear_code_op env i)" "keeps_files (return_op x)" "keeps_files (lift_op r)"
  "keeps_files (read_op i)"
  by (auto simp: keeps_files_def log_audit_def sync_to_db_def clear_code_op_def read_op_def
      split: option.splits)

lemma keeps_files_bind [intro]:
  "keeps_files m \<Longrightarrow> (\<And>x. keeps_files (f x)) \<Longrightarrow> keeps_files (bind_op m f)"
  unfolding keeps_files_def bind_op_def
  by (auto split: prod.splits sum.splits) (metis snd_conv)+

lemma keeps_filesD: "keeps_files m \<Longrightarrow> m w = (r, w') \<Longrightarrow> w_files w' = w_files w"
  by (metis keeps_files_def snd_conv)

lemma write_op_cases:
  assumes "write_op env ev i fm body w = (r, w')"
  obtains (bad_id) "\<not> id_prefix i" "w' = w" "r = Inl (ValueError (''Invalid artifact ID: '' @ i))"
    | (written) "id_prefix i" "w' = w\<lparr>w_files := store_write (w_files w) i fm body\<rparr>"
        "r = (case e_git env ev i of Some e \<Rightarrow> Inl e | None \<Rightarrow> Inr ())"
  using assms by (auto simp: write_op_def Let_def split: if_splits option.splits)

text \<open>A write followed by bookkeeping: what the store looks like afterwards.\<close>

lemma write_then_files:
  assumes "bind_op (write_op env ev i fm body) f w = (r, w')" and "\<And>x. keeps_files (f x)" and "id_prefix i"
  shows "w_files w' = store_write (w_files w) i fm body"
proof -
  obtain r1 w1 where w1: "write_op env ev i fm body w = (r1, w1)" by fastforce
  then have f1: "w_files w1 = store_write (w_files w) i fm body"
    using assms(3) by (auto elim: write_op_cases)
  show ?thesis
  proof (cases r1)
    case (Inl e)
    then show ?thesis using assms(1) w1 f1 by simp
  next
    case (Inr x)
    then have "f x w1 = (r, w')" using assms(1) w1 by simp
    then show ?thesis using keeps_filesD [OF assms(2)] f1 by metis
  qed
qed

lemma transition_op_cases:
  assumes "transition_op i tgt k w = (r, w')"
  obtains (refused) e where "r = Inl e" "w' = w"
    | (allowed) fm body where "id_prefix i" "map_of (w_files w) i = Some (fm, body)"
        "tgt \<in> valid_transitions (fm_status fm)" "k fm body w = (r, w')"
proof (cases "store_read (w_files w) i")
  case (Inl e)
  then show thesis using assms refused by (auto simp: transition_op_def read_op_def)
next
  case (Inr d)
  then have m: "id_prefix i" "map_of (w_files w) i = Some d" by (simp_all add: store_read_Inr)
  obtain fm body where d: "d = (fm, body)" by fastforce
  show thesis
  proof (cases "tgt \<in> valid_transitions (fm_status fm)")
    case True
    then show thesis using assms allowed m d Inr
      by (simp add: transition_op_def read_op_def validate_transition_def)
  next
    case False
    then show thesis using assms refused d Inr
      by (auto simp: transition_op_def read_op_def validate_transition_def)
  qed
qed


section \<open>The state machine of an artifact\<close>

text \<open>
  The abstract specification: one change of the store at a time.  \<open>FS_external\<close> is an operator editing
  the body of a stored file by hand, which nothing in the program prevents.
\<close>

inductive file_step :: "env \<Rightarrow> files \<Rightarrow> files \<Rightarrow> bool" for env where
  FS_propose: "validate_propose_spec (e_ext env) fs ps = Inr (fm, ev) \<Longrightarrow>
    file_step env fs (store_write fs (ps_id ps) fm (ps_body ps))"
| FS_approve: "id_prefix i \<Longrightarrow> map_of fs i = Some (fm, b) \<Longrightarrow> APPROVED \<in> valid_transitions (fm_status fm) \<Longrightarrow>
    file_step env fs (store_write fs i (fm\<lparr>fm_status := APPROVED, fm_approved_by := Some so\<rparr>) b)"
| FS_reject: "id_prefix i \<Longrightarrow> map_of fs i = Some (fm, b) \<Longrightarrow> REJECTED \<in> valid_transitions (fm_status fm) \<Longrightarrow>
    file_step env fs (store_write fs i (fm\<lparr>fm_status := REJECTED, fm_rejected_by := Some so\<rparr>) b)"
| FS_apply: "id_prefix i \<Longrightarrow> map_of fs i = Some (fm, b) \<Longrightarrow> APPLIED \<in> valid_transitions (fm_status fm) \<Longrightarrow>
    file_step env fs (store_write fs i
      (fm\<lparr>fm_status := APPLIED, fm_applied_at := t, fm_hash := body_hash env b'\<rparr>) b')"
| FS_fail: "id_prefix i \<Longrightarrow> map_of fs i = Some (fm, b) \<Longrightarrow> FAILED \<in> valid_transitions (fm_status fm) \<Longrightarrow>
    file_step env fs (store_write fs i
      (fm\<lparr>fm_status := FAILED, fm_failed_at := t, fm_failure_reason := rsn, fm_hash := body_hash env b'\<rparr>) b')"
| FS_supersede: "id_prefix i \<Longrightarrow> map_of fs i = Some (fm, b) \<Longrightarrow> SUPERSEDED \<in> valid_transitions (fm_status fm) \<Longrightarrow>
    file_step env fs (store_write fs i (fm\<lparr>fm_status := SUPERSEDED, fm_superseded_by := n\<rparr>) b)"
| FS_revoke: "id_prefix i \<Longrightarrow> map_of fs i = Some (fm, b) \<Longrightarrow> REVOKED \<in> valid_transitions (fm_status fm) \<Longrightarrow>
    file_step env fs (store_write fs i (fm\<lparr>fm_status := REVOKED, fm_revoked_by := Some so\<rparr>) b)"
| FS_rehash: "id_prefix i \<Longrightarrow> map_of fs i = Some (fm, b) \<Longrightarrow> fm_status fm = PROPOSED \<Longrightarrow>
    file_step env fs (store_write fs i (fm\<lparr>fm_hash := body_hash env b\<rparr>) b)"
| FS_demote: "id_prefix i \<Longrightarrow> map_of fs i = Some (fm, b) \<Longrightarrow> fm_status fm \<in> {APPROVED, FAILED} \<Longrightarrow>
    h \<in> {fm_hash fm, body_hash env b} \<Longrightarrow>
    file_step env fs (store_write fs i
      (fm\<lparr>fm_hash := h, fm_status := PROPOSED, fm_approved_by := None\<rparr>) b)"
| FS_external: "id_prefix i \<Longrightarrow> map_of fs i = Some (fm, b) \<Longrightarrow> file_step env fs (store_write fs i fm b')"

inductive_cases file_stepE: "file_step env fs fs'"

abbreviation file_steps :: "env \<Rightarrow> files \<Rightarrow> files \<Rightarrow> bool" where
  "file_steps env \<equiv> (file_step env)\<^sup>*\<^sup>*"

section \<open>The operations refine the state machine\<close>

lemma reject_refines: "reject env i user reason role w = (r, w') \<Longrightarrow> file_steps env (w_files w) (w_files w')"
  unfolding reject_def
  by (erule transition_op_cases)
     (auto simp: Let_def dest!: write_then_files intro!: r_into_rtranclp FS_reject)

lemma mark_applied_refines: "mark_applied env i log w = (r, w') \<Longrightarrow> file_steps env (w_files w) (w_files w')"
  unfolding mark_applied_def
  by (erule transition_op_cases)
     (auto simp: Let_def dest!: write_then_files intro!: r_into_rtranclp FS_apply)

lemma mark_failed_refines: "mark_failed env i rsn log w = (r, w') \<Longrightarrow> file_steps env (w_files w) (w_files w')"
  unfolding mark_failed_def
  by (erule transition_op_cases)
     (auto simp: Let_def dest!: write_then_files intro!: r_into_rtranclp FS_fail split: if_splits)

lemma supersede_refines: "supersede env i n w = (r, w') \<Longrightarrow> file_steps env (w_files w) (w_files w')"
  unfolding supersede_def
  by (erule transition_op_cases)
     (auto simp: Let_def dest!: write_then_files intro!: r_into_rtranclp FS_supersede)

lemma revoke_refines: "revoke env i user reason w = (r, w') \<Longrightarrow> file_steps env (w_files w) (w_files w')"
  unfolding revoke_def
  by (erule transition_op_cases)
     (auto simp: Let_def dest!: write_then_files intro!: r_into_rtranclp FS_revoke)

lemma approve_cascaded_refines:
  assumes "approve_cascaded env user reason role via sub w = (r, w')"
  shows "file_steps env (w_files w) (w_files w')"
proof (cases "store_read (w_files w) sub")
  case (Inl e)
  then show ?thesis using assms by (auto simp: approve_cascaded_def read_op_def)
next
  case (Inr d)
  obtain fm body where d: "d = (fm, body)" by fastforce
  have m: "id_prefix sub" "map_of (w_files w) sub = Some (fm, body)"
    using Inr d by (simp_all add: store_read_Inr)
  show ?thesis
  proof (cases "fm_status fm = PROPOSED")
    case False
    then show ?thesis using assms Inr d by (auto simp: approve_cascaded_def read_op_def)
  next
    case True
    then show ?thesis
      using assms Inr d m
      by (auto simp: approve_cascaded_def read_op_def Let_def dest!: write_then_files
          intro!: r_into_rtranclp FS_approve)
  qed
qed

lemma each_op_refines:
  assumes step: "\<And>x w r w'. f x w = (r, w') \<Longrightarrow> file_steps env (w_files w) (w_files w')"
  shows "each_op f xs w = (r, w') \<Longrightarrow> file_steps env (w_files w) (w_files w')"
proof (induction xs arbitrary: w)
  case (Cons x xs)
  then show ?case
    by (auto simp: bind_op_eq intro: step rtranclp_trans [OF step])
qed simp

lemma approve_checks_Inr:
  assumes "approve_checks env fs i = Inr ((fm, body), cascade)"
  shows "id_prefix i" "map_of fs i = Some (fm, body)" "APPROVED \<in> valid_transitions (fm_status fm)"
    "body_hash env body = fm_hash fm"
    "\<exists>v. composite_cascade env fs (Suc (length fs)) [] i (fm, body) = Inr (cascade, v)"
  using assms by (auto simp: approve_checks_def bind_res_eq_Inr store_read_Inr)

lemma approve_refines:
  assumes "approve env i user reason role w = (r, w')"
  shows "file_steps env (w_files w) (w_files w')"
proof (cases "approve_checks env (w_files w) i")
  case (Inl e)
  then show ?thesis using assms by (auto simp: approve_def)
next
  case (Inr c)
  obtain fm body cascade where c: "c = ((fm, body), cascade)" by (cases c) auto
  note ok = approve_checks_Inr [OF Inr [unfolded c]]
  let ?fm = "fm\<lparr>fm_status := APPROVED,
               fm_approved_by := Some (make_signoff user (x_now (e_ext env)) role reason)\<rparr>"
  have first: "file_step env (w_files w) (store_write (w_files w) i ?fm body)"
    by (rule FS_approve [OF ok(1-3)])
  obtain r1 w1 where w1: "write_op env ''approve'' i ?fm body w = (r1, w1)" by fastforce
  have f1: "w_files w1 = store_write (w_files w) i ?fm body"
    using w1 ok(1) by (auto elim: write_op_cases)
  let ?rest = "bind_op (log_audit env ''approve'' i (Some user) (approve_details role cascade)) (\<lambda>_.
      bind_op (sync_to_db env i ?fm) (\<lambda>_. each_op (approve_cascaded env user reason role i) cascade))"
  have rest: "file_steps env (w_files wa) (w_files wb)" if run: "?rest wa = (rb, wb)" for wa wb rb
  proof -
    obtain ra wc where a: "bind_op (log_audit env ''approve'' i (Some user) (approve_details role cascade))
        (\<lambda>_. sync_to_db env i ?fm) wa = (ra, wc)" by fastforce
    have "keeps_files (bind_op (log_audit env ''approve'' i (Some user) (approve_details role cascade))
        (\<lambda>_. sync_to_db env i ?fm))" by blast
    then have "w_files wc = w_files wa" using a by (rule keeps_filesD)
    moreover have "(\<exists>e. ra = Inl e \<and> wb = wc) \<or> each_op (approve_cascaded env user reason role i) cascade wc = (rb, wb)"
      using run a by (auto simp: bind_op_eq)
    ultimately show ?thesis
      using each_op_refines [OF approve_cascaded_refines] by fastforce
  qed
  have "approve env i user reason role w = bind_op (write_op env ''approve'' i ?fm body) (\<lambda>_. ?rest) w"
    using Inr c by (simp add: approve_def Let_def)
  then have "bind_op (write_op env ''approve'' i ?fm body) (\<lambda>_. ?rest) w = (r, w')" using assms by simp
  then have "(\<exists>e. r = Inl e \<and> w' = w1) \<or> ?rest w1 = (r, w')"
    using w1 by (simp only: bind_op_eq) auto
  then have "file_steps env (w_files w1) (w_files w')" using rest by auto
  with first show ?thesis unfolding f1 by (rule converse_rtranclp_into_rtranclp)
qed

section \<open>Well-formed stores\<close>

definition wf_files :: "files \<Rightarrow> bool" where
  "wf_files fs =
     (distinct (map fst fs)
      \<and> (\<forall>i fm b. map_of fs i = Some (fm, b) \<longrightarrow> fm_id fm = i \<and> id_prefix i \<and> stored_body b = b))"

lemma wf_filesD:
  "wf_files fs \<Longrightarrow> map_of fs i = Some (fm, b) \<Longrightarrow> fm_id fm = i \<and> id_prefix i \<and> stored_body b = b"
  by (auto simp: wf_files_def)

lemma wf_files_write: "wf_files fs \<Longrightarrow> fm_id fm = i \<Longrightarrow> id_prefix i \<Longrightarrow> wf_files (store_write fs i fm b)"
  by (auto simp: wf_files_def distinct_store_write)

lemma id_prefix_snoc: "id_prefix s \<Longrightarrow> id_prefix (s @ [c])"
  by (auto simp: id_prefix_def nth_append)

lemma valid_id_prefix: "validate_artifact_id s \<Longrightarrow> id_prefix s"
proof -
  assume "validate_artifact_id s"
  then consider "id_core s" | "s \<noteq> []" "id_core (butlast s)"
    by (auto simp: validate_artifact_id_def dollar_def)
  then show ?thesis
  proof cases
    case 2
    then have "id_prefix (butlast s @ [last s])" by (intro id_prefix_snoc id_core_prefix)
    then show ?thesis using 2 by simp
  qed (rule id_core_prefix)
qed

lemma propose_frontmatter_facts:
  assumes "validate_propose_spec x fs ps = Inr (fm, ev)"
  shows "fm_id fm = ps_id ps" "id_prefix (ps_id ps)" "map_of fs (ps_id ps) = None"
    "fm_status fm = (if fm_kind fm = KB_NOTE then APPLIED else PROPOSED)"
    "fm_approved_by fm = None" "fm_hash fm = compute_body_hash (x_digest x) (ps_body ps)"
proof -
  obtain k where k: "kind_of_value (ps_kind ps) = Some k"
    using assms by (auto simp: propose_inr split: option.splits)
  have fm: "fm = (if k \<noteq> KB_NOTE then (propose_frontmatter x k ps)
                    \<lparr>fm_rollback := Some (derive_rollback k (ps_body ps))\<rparr> else propose_frontmatter x k ps)"
    and g: "validate_artifact_id (ps_id ps)" "\<not> store_exists fs (ps_id ps)"
    using assms k by (auto simp: propose_inr split: if_splits)
  show "id_prefix (ps_id ps)" by (rule valid_id_prefix [OF g(1)])
  then show "map_of fs (ps_id ps) = None" using g(2) by (cases "map_of fs (ps_id ps)") (auto simp: store_exists_def)
  show "fm_id fm = ps_id ps" "fm_status fm = (if fm_kind fm = KB_NOTE then APPLIED else PROPOSED)"
    "fm_approved_by fm = None" "fm_hash fm = compute_body_hash (x_digest x) (ps_body ps)"
    by (simp_all add: fm propose_frontmatter_def)
qed

lemma file_step_wf: "file_step env fs fs' \<Longrightarrow> wf_files fs \<Longrightarrow> wf_files fs'"
  by (induction rule: file_step.induct)
     (auto intro!: wf_files_write dest: wf_filesD simp: propose_frontmatter_facts)

lemma file_steps_wf: "file_steps env fs fs' \<Longrightarrow> wf_files fs \<Longrightarrow> wf_files fs'"
  by (induction rule: rtranclp_induct) (auto intro: file_step_wf)


section \<open>Invalidation\<close>

text \<open>A listed candidate that is still as it was listed.\<close>

definition fresh_candidate :: "files \<Rightarrow> frontmatter \<Rightarrow> bool" where
  "fresh_candidate fs cand =
     (fm_status cand = APPROVED \<and> fm_kind cand = COMPOSITE \<and> (\<exists>b. map_of fs (fm_id cand) = Some (cand, b)))"

lemma listed_fresh:
  assumes "wf_files fs" and "cand \<in> set (store_list fs (Some APPROVED) (Some COMPOSITE))"
  shows "fresh_candidate fs cand"
proof -
  obtain i b where ib: "(i, cand, b) \<in> set fs" and st: "fm_status cand = APPROVED" "fm_kind cand = COMPOSITE"
    using assms(2) by (auto simp: set_store_list)
  have "map_of fs i = Some (cand, b)"
    using ib assms(1) by (simp add: wf_files_def)
  moreover from this have "fm_id cand = i" using wf_filesD [OF assms(1)] by blast
  ultimately show ?thesis using st by (auto simp: fresh_candidate_def)
qed

text \<open>What a run of the invalidation guarantees of the store.\<close>

definition inval_post :: "env \<Rightarrow> string list \<Rightarrow> world \<Rightarrow> string list res \<times> world \<Rightarrow> bool" where
  "inval_post env visited w rw =
     (file_steps env (w_files w) (w_files (snd rw)) \<and> wf_files (w_files (snd rw))
      \<and> (\<forall>v. fst rw = Inr v \<longrightarrow> set visited \<subseteq> set v
           \<and> (\<forall>j. j \<in> set visited \<or> j \<notin> set v \<longrightarrow> map_of (w_files (snd rw)) j = map_of (w_files w) j)))"

lemma inval_post_trans:
  assumes "inval_post env visited w (Inr v, w1)" and "inval_post env v w1 rw"
  shows "inval_post env visited w rw"
proof -
  have a: "file_steps env (w_files w) (w_files w1)" "set visited \<subseteq> set v"
    "\<And>j. j \<in> set visited \<or> j \<notin> set v \<Longrightarrow> map_of (w_files w1) j = map_of (w_files w) j"
    using assms(1) by (auto simp: inval_post_def)
  have b: "file_steps env (w_files w1) (w_files (snd rw))" "wf_files (w_files (snd rw))"
    "\<And>u. fst rw = Inr u \<Longrightarrow> set v \<subseteq> set u"
    "\<And>u j. fst rw = Inr u \<Longrightarrow> j \<in> set v \<or> j \<notin> set u \<Longrightarrow>
        map_of (w_files (snd rw)) j = map_of (w_files w1) j"
    using assms(2) by (auto simp: inval_post_def)
  show ?thesis
    unfolding inval_post_def
  proof (intro conjI allI impI)
    show "file_steps env (w_files w) (w_files (snd rw))" using a(1) b(1) by (rule rtranclp_trans)
    fix u assume u: "fst rw = Inr u"
    show "set visited \<subseteq> set u" using a(2) b(3) [OF u] by blast
    fix j assume "j \<in> set visited \<or> j \<notin> set u"
    then show "map_of (w_files (snd rw)) j = map_of (w_files w) j"
      using a(2,3) b(3,4) [OF u] by (metis subsetD)
  qed (rule b(2))
qed

lemma inval_post_refl: "wf_files (w_files w) \<Longrightarrow> inval_post env v w (Inr v, w)"
  by (simp add: inval_post_def)

lemma inval_post_Inl:
  "file_steps env (w_files w) (w_files w') \<Longrightarrow> wf_files (w_files w') \<Longrightarrow> inval_post env v w (Inl e, w')"
  by (simp add: inval_post_def)

lemma demote_step:
  assumes "wf_files (w_files w)" and "fresh_candidate (w_files w) cand"
    and "store_read (w_files w) (fm_id cand) = Inr (fm, b)"
  shows "file_step env (w_files w) (store_write (w_files w) (fm_id cand)
           (cand\<lparr>fm_status := PROPOSED, fm_approved_by := None\<rparr>) b)"
proof -
  have m: "id_prefix (fm_id cand)" "map_of (w_files w) (fm_id cand) = Some (cand, b)"
    using assms by (auto simp: fresh_candidate_def store_read_Inr)
  then show ?thesis
    using FS_demote [OF m, of "fm_hash cand" env] assms(2) by (simp add: fresh_candidate_def)
qed

lemma invalidate_post:
  shows "wf_files (w_files w) \<Longrightarrow> inval_post env visited w (cascade_invalidate env n edited visited w)
      \<and> (\<forall>v. fst (cascade_invalidate env n edited visited w) = Inr v \<longrightarrow> edited \<in> set v)"
    and "wf_files (w_files w) \<Longrightarrow> (\<And>c. c \<in> set cands \<Longrightarrow> fm_id c \<notin> set visited \<Longrightarrow> fresh_candidate (w_files w) c)
      \<Longrightarrow> edited \<in> set visited \<Longrightarrow> inval_post env visited w (invalidate_loop env n edited cands visited w)"
proof (induction env n edited visited w and env n edited cands visited w
    rule: cascade_invalidate_invalidate_loop.induct)
  case (1 env n edited visited w)
  show ?case
  proof (cases "edited \<in> set visited \<or> n = 0")
    case True
    then show ?thesis using "1.prems"
      by (auto simp: cascade_invalidate.simps inval_post_refl intro: inval_post_Inl)
  next
    case False
    then obtain m where n: "n = Suc m" by (cases n) auto
    have "inval_post env (edited # visited) w (invalidate_loop env m edited
        (store_list (w_files w) (Some APPROVED) (Some COMPOSITE)) (edited # visited) w)"
      using False n "1.prems" listed_fresh by (intro "1.IH") auto
    then show ?thesis using False n by (auto simp: cascade_invalidate.simps inval_post_def)
  qed
next
  case (2 env n edited visited w)
  then show ?case by (simp add: inval_post_refl)
next
  case (3 env n edited cand rest visited w)
  let ?cid = "fm_id cand"
  show ?case
  proof (cases "?cid = edited \<or> ?cid \<in> set visited")
    case True
    then have "inval_post env visited w (invalidate_loop env n edited rest visited w)"
      using "3.prems" by (intro "3.IH"(1) [OF refl]) auto
    then show ?thesis using True by simp
  next
    case new: False
    then have fresh: "fresh_candidate (w_files w) cand" using "3.prems" by simp
    show ?thesis
    proof (cases "store_read (w_files w) ?cid")
      case (Inl e)
      then show ?thesis using new "3.prems" by (simp add: read_op_def inval_post_Inl)
    next
      case (Inr d)
      obtain fm b where d: "d = (fm, b)" by fastforce
      show ?thesis
      proof (cases "py_in edited b")
        case False
        then have "inval_post env visited w (invalidate_loop env n edited rest visited w)"
          using "3.prems" by (intro "3.IH"(4) [OF refl new False]) auto
        then show ?thesis using False new Inr d by (simp add: read_op_def)
      next
        case True
        let ?cfm = "cand\<lparr>fm_status := PROPOSED, fm_approved_by := None\<rparr>"
        let ?fs = "store_write (w_files w) ?cid ?cfm b"
        have idp: "id_prefix ?cid" using Inr d by (simp add: store_read_Inr)
        have st: "file_step env (w_files w) ?fs"
          using demote_step [OF "3.prems"(1) fresh Inr [unfolded d]] .
        have wf1: "wf_files ?fs" by (rule file_step_wf [OF st "3.prems"(1)])
        let ?book = "\<lambda>_ :: unit. bind_op (log_audit env ''invalidate'' ?cid None
            [(''reason'', JStr (''sub-artifact '' @ edited @ '' edited''))]) (\<lambda>_. sync_to_db env ?cid ?cfm)"
        obtain r1 w1 where w1: "bind_op (write_op env ''edit'' ?cid ?cfm b) ?book w = (r1, w1)" by fastforce
        have f1: "w_files w1 = ?fs" by (rule write_then_files [OF w1 _ idp]) blast
        have run: "invalidate_loop env n edited (cand # rest) visited w =
          (case r1 of Inl e \<Rightarrow> (Inl e, w1)
           | Inr _ \<Rightarrow> bind_op (cascade_invalidate env n ?cid visited)
                        (\<lambda>v. invalidate_loop env n edited rest v) w1)"
          using new Inr d True w1
          by (auto simp: read_op_def Let_def bind_op_def split: prod.splits sum.splits)
        show ?thesis
        proof (cases r1)
          case (Inl e)
          then show ?thesis unfolding run using st f1 wf1 by (auto intro: inval_post_Inl)
        next
          case (Inr u)
          have "inval_post env visited w1 (cascade_invalidate env n ?cid visited w1)
              \<and> (\<forall>v. fst (cascade_invalidate env n ?cid visited w1) = Inr v \<longrightarrow> ?cid \<in> set v)"
            using "3.IH"(2) [OF refl new True refl, of w1] wf1 f1 by simp
          then obtain r2 w2 where w2: "cascade_invalidate env n ?cid visited w1 = (r2, w2)"
            and p2: "inval_post env visited w1 (r2, w2)" and c2: "\<forall>v. r2 = Inr v \<longrightarrow> ?cid \<in> set v"
            by (cases "cascade_invalidate env n ?cid visited w1") auto
          have s2: "file_steps env (w_files w) (w_files w2)" "wf_files (w_files w2)"
            using p2 st f1 by (auto simp: inval_post_def intro: converse_rtranclp_into_rtranclp)
          show ?thesis
          proof (cases r2)
            case (Inl e)
            then show ?thesis unfolding run using Inr w2 s2 by (auto intro: inval_post_Inl)
          next
            case v: (Inr v)
            have post: "inval_post env visited w (Inr v, w2)"
              using p2 c2 s2 new f1 v by (auto simp: inval_post_def)
            then have "inval_post env v w2 (invalidate_loop env n edited rest v w2)"
              using "3.prems" new s2(2)
              by (intro "3.IH"(3) [OF refl new True refl])
                 (fastforce simp: inval_post_def fresh_candidate_def)+
            then show ?thesis unfolding run using Inr v w2 inval_post_trans [OF post] by simp
          qed
        qed
      qed
    qed
  qed
qed

lemma edit_refines:
  assumes "edit env i w = (r, w')" and wf: "wf_files (w_files w)"
  shows "file_steps env (w_files w) (w_files w')"
proof (cases "store_read (w_files w) i")
  case (Inl e)
  then show ?thesis using assms by (auto simp: edit_def read_op_def)
next
  case (Inr d)
  obtain fm b where d: "d = (fm, b)" by fastforce
  have m: "id_prefix i" "map_of (w_files w) i = Some (fm, b)"
    using Inr d by (simp_all add: store_read_Inr)
  show ?thesis
  proof (cases "fm_status fm \<in> {APPLIED, SUPERSEDED, REVOKED, REJECTED} \<or> body_hash env b = fm_hash fm")
    case True
    then show ?thesis using assms Inr d by (auto simp: edit_def read_op_def split: if_splits)
  next
    case False
    define fm' where "fm' = (if fm_status fm \<in> {APPROVED, FAILED}
        then fm\<lparr>fm_hash := body_hash env b, fm_status := PROPOSED, fm_approved_by := None\<rparr>
        else fm\<lparr>fm_hash := body_hash env b\<rparr>)"
    let ?fs = "store_write (w_files w) i fm' b"
    have st: "file_step env (w_files w) ?fs"
    proof (cases "fm_status fm \<in> {APPROVED, FAILED}")
      case True
      then show ?thesis using FS_demote [OF m True, of "body_hash env b" env] by (simp add: fm'_def)
    next
      case False
      then have "fm_status fm = PROPOSED"
        using \<open>\<not> (fm_status fm \<in> {APPLIED, SUPERSEDED, REVOKED, REJECTED} \<or> body_hash env b = fm_hash fm)\<close>
        by (cases "fm_status fm") auto
      then show ?thesis using FS_rehash [OF m, of env] False by (simp add: fm'_def)
    qed
    have wf1: "wf_files ?fs" by (rule file_step_wf [OF st wf])
    have run: "bind_op (write_op env ''edit'' i fm' b) (\<lambda>_.
        bind_op (\<lambda>w1. cascade_invalidate env (Suc (length (w_files w1))) i [] w1) (\<lambda>_. sync_to_db env i fm')) w
        = (r, w')"
      using assms(1) Inr d False by (auto simp: edit_def read_op_def fm'_def Let_def)
    obtain r1 w1 where w1: "write_op env ''edit'' i fm' b w = (r1, w1)" by fastforce
    have f1: "w_files w1 = ?fs" using w1 m(1) by (auto elim: write_op_cases)
    have "(\<exists>e. w' = w1) \<or> (\<exists>r2 w2. cascade_invalidate env (Suc (length (w_files w1))) i [] w1 = (r2, w2)
        \<and> w_files w' = w_files w2)"
      using run w1 keeps_filesD [OF keeps_files_op(2)] by (fastforce simp: bind_op_eq)
    then have "file_steps env ?fs (w_files w')"
      using invalidate_post(1) [of w1 env "[]" "Suc (length (w_files w1))" i] wf1 f1
      by (auto simp: inval_post_def)
    with st show ?thesis by (rule converse_rtranclp_into_rtranclp)
  qed
qed

section \<open>The lifecycle as a whole\<close>

lemma keeps_files_swallow [intro]: "keeps_files m \<Longrightarrow> keeps_files (swallow P m)"
  by (auto simp: keeps_files_def swallow_def split: prod.splits sum.splits) (metis snd_conv)+

lemma keeps_files_lifecycle [simp, intro]:
  "keeps_files (emit_event env n i)" "keeps_files (mint_code env i)" "keeps_files (notify env n i)"
proof -
  show e: "keeps_files (emit_event env n i)"
    by (auto simp: keeps_files_def emit_event_def split: option.splits)
  show "keeps_files (mint_code env i)"
    by (auto simp: keeps_files_def mint_code_def split: option.splits)
  show "keeps_files (notify env n i)" unfolding notify_def using e by blast
qed

lemma then_keeps_files:
  assumes "bind_op m f w = (r, w')" and "\<And>x. keeps_files (f x)"
  shows "\<exists>r1 w1. m w = (r1, w1) \<and> w_files w' = w_files w1"
  using assms(1) keeps_filesD [OF assms(2)] by (fastforce simp: bind_op_eq)

lemma propose_refines:
  assumes "propose env ps w = (r, w')"
  shows "file_steps env (w_files w) (w_files w')"
proof (cases "validate_propose_spec (e_ext env) (w_files w) ps")
  case (Inl e)
  then show ?thesis using assms by (auto simp: propose_def)
next
  case (Inr c)
  obtain fm ev where c: "c = (fm, ev)" by fastforce
  have i: "id_prefix (ps_id ps)" using propose_frontmatter_facts(2) Inr c by blast
  have "bind_op (write_op env (event_name ev) (ps_id ps) fm (ps_body ps)) (\<lambda>_.
       bind_op (sync_to_db env (ps_id ps) fm) (\<lambda>_.
       bind_op (mint_code env (ps_id ps)) (\<lambda>_.
       bind_op (swallow is_sqlite (log_audit env ''propose'' (ps_id ps) (Some (pb_user (fm_produced_by fm)))
          [(''kind'', JStr (kind_value (fm_kind fm))), (''intent'', JStr (take 200 (fm_intent fm)))])) (\<lambda>_.
       bind_op (swallow is_net (emit_event env ''artifact_proposed'' (ps_id ps))) (\<lambda>_. return_op (ps_id ps)))))) w
     = (r, w')"
    using assms Inr c by (simp add: propose_def Let_def)
  then have "w_files w' = store_write (w_files w) (ps_id ps) fm (ps_body ps)"
    using write_then_files [OF _ _ i] by blast
  then show ?thesis using FS_propose [of env "w_files w" ps fm ev] Inr c by auto
qed

text \<open>
  One call into the service, whatever it returns; \<open>WS_external\<close> is an edit of a file by hand.  The
  environment may differ from call to call.
\<close>

inductive world_step :: "world \<Rightarrow> world \<Rightarrow> bool" where
  WS_propose: "propose env ps w = (rs, w') \<Longrightarrow> world_step w w'"
| WS_approve: "lc_approve env i user reason w = (r, w') \<Longrightarrow> world_step w w'"
| WS_mcp_approve: "handle_approve_artifact env now caller i code rl w = ((rd, w'), rl') \<Longrightarrow> world_step w w'"
| WS_reject: "lc_reject env i user reason w = (r, w') \<Longrightarrow> world_step w w'"
| WS_edit: "lc_edit env i w = (r, w') \<Longrightarrow> world_step w w'"
| WS_applied: "lc_mark_applied env i log w = (r, w') \<Longrightarrow> world_step w w'"
| WS_failed: "lc_mark_failed env i rsn log w = (r, w') \<Longrightarrow> world_step w w'"
| WS_supersede: "lc_supersede env i new_id w = (r, w') \<Longrightarrow> world_step w w'"
| WS_revoke: "lc_revoke env i user reason w = (r, w') \<Longrightarrow> world_step w w'"
| WS_external: "id_prefix i \<Longrightarrow> map_of (w_files w) i = Some (fm, b) \<Longrightarrow>
    world_step w (w\<lparr>w_files := store_write (w_files w) i fm b'\<rparr>)"

abbreviation world_steps :: "world \<Rightarrow> world \<Rightarrow> bool" where
  "world_steps \<equiv> world_step\<^sup>*\<^sup>*"

text \<open>Any environment: a step of the machine for some digest, parser and clock.\<close>

definition any_step :: "files \<Rightarrow> files \<Rightarrow> bool" where
  "any_step fs fs' = (\<exists>env. file_step env fs fs')"

lemma file_steps_any: "file_steps env fs fs' \<Longrightarrow> any_step\<^sup>*\<^sup>* fs fs'"
  by (rule rtranclp_mono [THEN predicate2D]) (auto simp: any_step_def)

lemma refines_then:
  assumes "bind_op m f w = (r, w')" and "\<And>x. keeps_files (f x)"
    and "\<And>r1 w1. m w = (r1, w1) \<Longrightarrow> file_steps env (w_files w) (w_files w1)"
  shows "file_steps env (w_files w) (w_files w')"
proof -
  obtain r1 w1 where "m w = (r1, w1)" "w_files w' = w_files w1"
    using then_keeps_files [OF assms(1,2)] by blast
  then show ?thesis using assms(3) by simp
qed

lemma lc_approve_refines: "lc_approve env i user reason w = (r, w') \<Longrightarrow> file_steps env (w_files w) (w_files w')"
  unfolding lc_approve_def by (erule refines_then) (blast intro: approve_refines)+

lemma mcp_approve_refines:
  assumes "handle_approve_artifact env now caller i code rl w = ((r, w'), rl')"
  shows "file_steps env (w_files w) (w_files w')"
proof -
  have "w_files w' = w_files w \<or> (\<exists>codes. bind_op (lc_approve env i ''operator-code via MCP''
      (Some ''Approved via MCP approval code'')) (\<lambda>_. read_op i) (w\<lparr>w_codes := codes\<rparr>) = (r, w'))"
    using assms
    by (auto simp: handle_approve_artifact_def Let_def split: prod.splits sum.splits if_splits)
  then show ?thesis
  proof
    assume "\<exists>codes. bind_op (lc_approve env i ''operator-code via MCP''
      (Some ''Approved via MCP approval code'')) (\<lambda>_. read_op i) (w\<lparr>w_codes := codes\<rparr>) = (r, w')"
    then obtain codes where run: "bind_op (lc_approve env i ''operator-code via MCP''
      (Some ''Approved via MCP approval code'')) (\<lambda>_. read_op i) (w\<lparr>w_codes := codes\<rparr>) = (r, w')" ..
    have "file_steps env (w_files (w\<lparr>w_codes := codes\<rparr>)) (w_files w')"
      by (rule refines_then [OF run]) (blast intro: lc_approve_refines)+
    then show ?thesis by simp
  qed simp
qed

lemma lc_wrapper_refines:
  "lc_reject env i user reason w = (r, w') \<Longrightarrow> file_steps env (w_files w) (w_files w')"
  "lc_mark_applied env i log w = (r, w') \<Longrightarrow> file_steps env (w_files w) (w_files w')"
  "lc_mark_failed env i rsn log w = (r, w') \<Longrightarrow> file_steps env (w_files w) (w_files w')"
  "lc_supersede env i new_id w = (r, w') \<Longrightarrow> file_steps env (w_files w) (w_files w')"
  "lc_revoke env i user reason w = (r, w') \<Longrightarrow> file_steps env (w_files w) (w_files w')"
  unfolding lc_reject_def lc_mark_applied_def lc_mark_failed_def lc_supersede_def lc_revoke_def
  by (erule refines_then; blast intro: reject_refines mark_applied_refines mark_failed_refines
        supersede_refines revoke_refines)+

lemma world_step_refines:
  assumes "world_step w w'" and "wf_files (w_files w)"
  shows "any_step\<^sup>*\<^sup>* (w_files w) (w_files w')"
  using assms
proof cases
  case (WS_external i fm b b')
  then have "file_step env (w_files w) (w_files w')" for env by (auto intro: FS_external)
  then show ?thesis by (auto simp: any_step_def)
qed (auto intro: file_steps_any propose_refines lc_approve_refines mcp_approve_refines edit_refines
      lc_wrapper_refines simp: lc_edit_def)

lemma any_steps_wf: "any_step\<^sup>*\<^sup>* fs fs' \<Longrightarrow> wf_files fs \<Longrightarrow> wf_files fs'"
  by (induction rule: rtranclp_induct) (auto simp: any_step_def intro: file_step_wf)

lemma world_steps_refine:
  "world_steps w w' \<Longrightarrow> wf_files (w_files w) \<Longrightarrow> any_step\<^sup>*\<^sup>* (w_files w) (w_files w') \<and> wf_files (w_files w')"
  by (induction rule: rtranclp_induct)
     (auto dest: world_step_refines any_steps_wf intro: rtranclp_trans)

section \<open>Invariants\<close>

lemma valid_transitions_iff:
  "APPROVED \<in> valid_transitions s \<longleftrightarrow> s \<in> {PROPOSED, FAILED}"
  "REJECTED \<in> valid_transitions s \<longleftrightarrow> s = PROPOSED"
  "APPLIED \<in> valid_transitions s \<longleftrightarrow> s = APPROVED"
  "FAILED \<in> valid_transitions s \<longleftrightarrow> s = APPROVED"
  "SUPERSEDED \<in> valid_transitions s \<longleftrightarrow> s = APPLIED"
  "REVOKED \<in> valid_transitions s \<longleftrightarrow> s \<in> {APPROVED, FAILED, APPLIED}"
  by (cases s; simp)+

text \<open>An approval on record, and the states of a kb-note, which no one approves.\<close>

definition on_record :: "frontmatter \<Rightarrow> bool" where
  "on_record fm =
     (if fm_kind fm = KB_NOTE then fm_status fm \<in> {APPLIED, SUPERSEDED, REVOKED}
      else fm_status fm \<in> {APPROVED, APPLIED, FAILED, SUPERSEDED, REVOKED} \<longrightarrow> fm_approved_by fm \<noteq> None)"

definition all_docs :: "(frontmatter \<Rightarrow> bool) \<Rightarrow> files \<Rightarrow> bool" where
  "all_docs P fs = (\<forall>i fm b. map_of fs i = Some (fm, b) \<longrightarrow> P fm)"

lemma all_docs_write: "all_docs P fs \<Longrightarrow> P fm \<Longrightarrow> all_docs P (store_write fs i fm b)"
  by (auto simp: all_docs_def)

lemma all_docsD: "all_docs P fs \<Longrightarrow> map_of fs i = Some (fm, b) \<Longrightarrow> P fm"
  by (auto simp: all_docs_def)

lemma all_docs_update:
  "all_docs P fs \<Longrightarrow> map_of fs i = Some (fm, b) \<Longrightarrow> (P fm \<Longrightarrow> P fm') \<Longrightarrow> all_docs P (store_write fs i fm' b')"
  using all_docs_write all_docsD by blast

lemma file_step_on_record: "file_step env fs fs' \<Longrightarrow> all_docs on_record fs \<Longrightarrow> all_docs on_record fs'"
proof (induction rule: file_step.induct)
  case (FS_propose fs ps fm ev)
  then show ?case
    by (intro all_docs_write) (auto simp: on_record_def propose_frontmatter_facts)
qed (erule all_docs_update, assumption,
     fastforce simp: on_record_def valid_transitions_iff split: if_splits)+

text \<open>The edges of the status diagram, with the demotion that an edit causes.\<close>

definition status_edge :: "artifact_status \<Rightarrow> artifact_status \<Rightarrow> bool" where
  "status_edge s s' = (s' = s \<or> s' \<in> valid_transitions s \<or> (s \<in> {APPROVED, FAILED} \<and> s' = PROPOSED))"

text \<open>What was reviewed: the fields that no operation changes.\<close>

definition same_subject :: "frontmatter \<Rightarrow> frontmatter \<Rightarrow> bool" where
  "same_subject fm fm' =
     (fm_id fm' = fm_id fm \<and> fm_kind fm' = fm_kind fm \<and> fm_intent fm' = fm_intent fm
      \<and> fm_mutating fm' = fm_mutating fm \<and> fm_produced_by fm' = fm_produced_by fm
      \<and> fm_target fm' = fm_target fm \<and> fm_idempotence fm' = fm_idempotence fm
      \<and> fm_rollback fm' = fm_rollback fm \<and> fm_requires_snapshot fm' = fm_requires_snapshot fm)"

definition doc_edge :: "frontmatter \<Rightarrow> frontmatter \<Rightarrow> bool" where
  "doc_edge fm fm' =
     (same_subject fm fm' \<and> status_edge (fm_status fm) (fm_status fm')
      \<and> (terminal_status (fm_status fm) \<longrightarrow> fm' = fm))"

lemma doc_edge_refl: "doc_edge fm fm"
  by (simp add: doc_edge_def same_subject_def status_edge_def)

lemma file_step_doc_edge:
  "file_step env fs fs' \<Longrightarrow> map_of fs j = Some (fm, b) \<Longrightarrow>
   \<exists>fm' b'. map_of fs' j = Some (fm', b') \<and> doc_edge fm fm'"
proof (induction rule: file_step.induct)
  case (FS_propose fs ps fm' ev)
  then have "ps_id ps \<noteq> j" using propose_frontmatter_facts(3) by fastforce
  then show ?case using FS_propose by (auto simp: doc_edge_refl)
qed (auto simp: doc_edge_def same_subject_def status_edge_def terminal_status_def valid_transitions_iff)

lemma any_steps_doc:
  "any_step\<^sup>*\<^sup>* fs fs' \<Longrightarrow> map_of fs j = Some (fm, b) \<Longrightarrow>
   \<exists>fm' b'. map_of fs' j = Some (fm', b') \<and> same_subject fm fm'
     \<and> status_edge\<^sup>*\<^sup>* (fm_status fm) (fm_status fm') \<and> (terminal_status (fm_status fm) \<longrightarrow> fm' = fm)"
proof (induction rule: rtranclp_induct)
  case base
  then show ?case by (auto simp: same_subject_def)
next
  case (step fs1 fs2)
  then obtain fm1 b1 where 1: "map_of fs1 j = Some (fm1, b1)" "same_subject fm fm1"
    "status_edge\<^sup>*\<^sup>* (fm_status fm) (fm_status fm1)" "terminal_status (fm_status fm) \<longrightarrow> fm1 = fm" by blast
  obtain env where "file_step env fs1 fs2" using step(2) by (auto simp: any_step_def)
  then obtain fm2 b2 where "map_of fs2 j = Some (fm2, b2)" "doc_edge fm1 fm2"
    using file_step_doc_edge 1(1) by blast
  then show ?case using 1 by (auto simp: doc_edge_def same_subject_def intro: rtranclp.rtrancl_into_rtrancl)
qed

definition empty_world :: world where
  "empty_world = \<lparr>w_files = [], w_audit = [], w_db = [], w_codes = [], w_events = []\<rparr>"

lemma empty_world_wf: "wf_files (w_files empty_world)"
  by (simp add: wf_files_def empty_world_def)

lemma any_steps_on_record: "any_step\<^sup>*\<^sup>* fs fs' \<Longrightarrow> all_docs on_record fs \<Longrightarrow> all_docs on_record fs'"
  by (induction rule: rtranclp_induct) (auto simp: any_step_def intro: file_step_on_record)

text \<open>
  C2: no change without an approval.  In every state the service can reach from an empty store, in
  whatever order its operations are called, whatever they return and however bodies are edited by
  hand, an artifact that is approved, applied, failed, superseded or revoked carries the sign-off
  that approved it; only kb-notes, which do not mutate anything, are applied without one.
\<close>

theorem applied_implies_approved:
  assumes "world_steps empty_world w" and "map_of (w_files w) i = Some (fm, b)"
  shows "(fm_kind fm \<noteq> KB_NOTE \<and> fm_status fm \<in> {APPROVED, APPLIED, FAILED, SUPERSEDED, REVOKED}
           \<longrightarrow> fm_approved_by fm \<noteq> None)
         \<and> (fm_kind fm = KB_NOTE \<longrightarrow> fm_status fm \<in> {APPLIED, SUPERSEDED, REVOKED})
         \<and> fm_id fm = i"
proof -
  have r: "any_step\<^sup>*\<^sup>* [] (w_files w)" and wf: "wf_files (w_files w)"
    using world_steps_refine [OF assms(1) empty_world_wf] by (simp_all add: empty_world_def)
  have "all_docs on_record (w_files w)"
    using any_steps_on_record [OF r] by (simp add: all_docs_def)
  then have "on_record fm" using assms(2) by (rule all_docsD)
  then show ?thesis using wf_filesD [OF wf assms(2)] by (auto simp: on_record_def split: if_splits)
qed

definition sample_env :: env where
  "sample_env = \<lparr>e_ext = sample_ext, e_repo = True, e_git = \<lambda>_ _. None, e_audit = \<lambda>_ _. None,
     e_sync = \<lambda>_. None, e_codes = \<lambda>_. None, e_emit = \<lambda>_ _. None, e_draw = \<lambda>_. 0\<rparr>"

definition sample_world :: world where
  "sample_world = snd (lc_approve sample_env ''2026-01-02-leaf'' ''op'' None
     (snd (propose sample_env sample_spec empty_world)))"

lemma sample_reached: "world_steps empty_world sample_world"
proof -
  have "world_step empty_world (snd (propose sample_env sample_spec empty_world))"
    by (rule WS_propose) (rule prod.collapse [symmetric])
  also have "world_step\<^sup>*\<^sup>* \<dots> sample_world"
    unfolding sample_world_def by (rule r_into_rtranclp, rule WS_approve) (rule prod.collapse [symmetric])
  finally show ?thesis .
qed

lemma sample_approved:
  obtains fm b where "map_of (w_files sample_world) ''2026-01-02-leaf'' = Some (fm, b)"
    and "fm_status fm = APPROVED" and "fm_kind fm = SHELL_SCRIPT"
proof -
  have "(case map_of (w_files sample_world) ''2026-01-02-leaf'' of
      Some (fm, b) \<Rightarrow> fm_status fm = APPROVED \<and> fm_kind fm = SHELL_SCRIPT | None \<Rightarrow> False)" by code_simp
  then show thesis using that by (auto split: option.splits)
qed

theorem applied_implies_approved_witness:
  "\<exists>fm b. map_of (w_files sample_world) ''2026-01-02-leaf'' = Some (fm, b)
     \<and> fm_status fm = APPROVED \<and> fm_approved_by fm \<noteq> None"
proof -
  obtain fm b where f: "map_of (w_files sample_world) ''2026-01-02-leaf'' = Some (fm, b)"
    "fm_status fm = APPROVED" "fm_kind fm = SHELL_SCRIPT" by (rule sample_approved)
  show ?thesis using applied_implies_approved [OF sample_reached f(1)] f by auto
qed

text \<open>
  what was reviewed stays.  Along any run, an artifact is never lost, its kind, intent, target,
  producer, idempotence, rollback and snapshot claims never change, its status moves only along the
  transition table or back to \<open>proposed\<close> by an edit, and the frontmatter of a rejected, superseded
  or revoked artifact never changes again.
\<close>

theorem lifecycle_preserves:
  assumes "wf_files (w_files w)" and "world_steps w w'" and "map_of (w_files w) i = Some (fm, b)"
  shows "\<exists>fm' b'. map_of (w_files w') i = Some (fm', b') \<and> same_subject fm fm'
           \<and> status_edge\<^sup>*\<^sup>* (fm_status fm) (fm_status fm')
           \<and> (terminal_status (fm_status fm) \<longrightarrow> fm' = fm)"
  using any_steps_doc [OF conjunct1 [OF world_steps_refine [OF assms(2,1)]] assms(3)] .

theorem lifecycle_preserves_witness:
  "\<exists>fm b fm' b'. map_of (w_files sample_world) ''2026-01-02-leaf'' = Some (fm, b)
     \<and> map_of (w_files (snd (lc_reject sample_env ''2026-01-02-leaf'' ''op'' (Some ''no'') sample_world))) ''2026-01-02-leaf''
         = Some (fm', b')
     \<and> same_subject fm fm' \<and> status_edge\<^sup>*\<^sup>* (fm_status fm) (fm_status fm')"
proof -
  obtain fm b where f: "map_of (w_files sample_world) ''2026-01-02-leaf'' = Some (fm, b)" by (rule sample_approved)
  have wf: "wf_files (w_files sample_world)"
    using world_steps_refine [OF sample_reached empty_world_wf] by simp
  have "world_step sample_world (snd (lc_reject sample_env ''2026-01-02-leaf'' ''op'' (Some ''no'') sample_world))"
    by (rule WS_reject) (rule prod.collapse [symmetric])
  then show ?thesis using lifecycle_preserves [OF wf r_into_rtranclp f] f by blast
qed

end
