(* ===== verification/Artifact_Cascade.thy ===== *)
theory Artifact_Cascade
  imports Artifact_Machine
begin

text \<open>
  The two cascades over composites: an approval carries every proposed sub-artifact with it, an edit
  takes back the approval of every composite that names the edited artifact.  Both recursions end
  with the fuel they are given; the first part shows what the approval cascade computes, the second
  what a whole approval does to the store, the third what an edit leaves approved.
\<close>

section \<open>The cascade terminates\<close>

definition unvisited :: "files \<Rightarrow> string list \<Rightarrow> nat" where
  "unvisited fs visited = card (fst ` set fs - set visited)"

lemma unvisited_mono: "set v \<subseteq> set v' \<Longrightarrow> unvisited fs v' \<le> unvisited fs v"
  by (auto simp: unvisited_def intro!: card_mono)

lemma unvisited_less: "s \<in> fst ` set fs \<Longrightarrow> s \<notin> set v \<Longrightarrow> unvisited fs (s # v) < unvisited fs v"
proof -
  assume "s \<in> fst ` set fs" and "s \<notin> set v"
  then have "card ((fst ` set fs - set v) - {s}) < card (fst ` set fs - set v)"
    by (intro card_Diff1_less) auto
  moreover have "fst ` set fs - set (s # v) = (fst ` set fs - set v) - {s}" by auto
  ultimately show ?thesis unfolding unvisited_def by metis
qed

lemma unvisited_start: "unvisited fs v \<le> length fs"
proof -
  have "unvisited fs v \<le> card (fst ` set fs)" by (auto simp: unvisited_def intro!: card_mono)
  also have "\<dots> \<le> card (set fs)" by (rule card_image_le) simp
  also have "\<dots> \<le> length fs" by (rule card_length)
  finally show ?thesis .
qed

lemma cascade_read_Inr: "cascade_read fs s = Inr d \<Longrightarrow> id_prefix s \<and> map_of fs s = Some d"
  by (auto simp: cascade_read_def store_read_Inr split: sum.splits exn.splits)

lemma cascade_read_total: "cascade_read fs s \<noteq> Inl RecursionError"
  by (auto simp: cascade_read_def store_read_def split: option.splits)

text \<open>What the cascade computes.\<close>

definition cleared :: "env \<Rightarrow> files \<Rightarrow> string \<Rightarrow> bool" where
  "cleared env fs s = (\<exists>fm b. id_prefix s \<and> map_of fs s = Some (fm, b) \<and> fm_status fm = PROPOSED
     \<and> body_hash env b = fm_hash fm)"

definition already_approved :: "files \<Rightarrow> string \<Rightarrow> bool" where
  "already_approved fs s = (\<exists>fm b. map_of fs s = Some (fm, b) \<and> fm_status fm = APPROVED)"

definition refs_in :: "jval list \<Rightarrow> string set \<Rightarrow> bool" where
  "refs_in steps V = (\<forall>st\<in>set steps. \<forall>sub. step_artifact st = Inr sub \<longrightarrow> sub = [] \<or> sub \<in> V)"

definition closed_under :: "env \<Rightarrow> files \<Rightarrow> string \<Rightarrow> string set \<Rightarrow> bool" where
  "closed_under env fs c V = (\<forall>fm b steps. map_of fs c = Some (fm, b) \<longrightarrow> fm_kind fm = COMPOSITE \<longrightarrow>
     composite_steps env c b = Inr steps \<longrightarrow> refs_in steps V)"

definition cascade_ok :: "env \<Rightarrow> files \<Rightarrow> string set \<Rightarrow> string list \<Rightarrow> string set \<Rightarrow> bool" where
  "cascade_ok env fs V out V' =
     (V \<subseteq> V' \<and> distinct out \<and> set out \<inter> V = {} \<and> set out \<subseteq> V'
      \<and> (\<forall>s\<in>set out. cleared env fs s)
      \<and> (\<forall>s\<in>V' - V. s \<in> set out \<or> already_approved fs s)
      \<and> (\<forall>c\<in>set out. closed_under env fs c V'))"

lemma closed_mono: "closed_under env fs c V \<Longrightarrow> V \<subseteq> V' \<Longrightarrow> closed_under env fs c V'"
  by (fastforce simp: closed_under_def refs_in_def)

lemma cascade_ok_refl: "cascade_ok env fs V [] V"
  by (simp add: cascade_ok_def)

lemma cascade_ok_trans:
  assumes "cascade_ok env fs V a V1" and "cascade_ok env fs V1 b V2"
  shows "cascade_ok env fs V (a @ b) V2"
proof -
  have "V \<subseteq> V1" "distinct a" "set a \<inter> V = {}" "set a \<subseteq> V1" "\<forall>s\<in>set a. cleared env fs s"
    "\<forall>s\<in>V1 - V. s \<in> set a \<or> already_approved fs s" "\<forall>c\<in>set a. closed_under env fs c V1"
    using assms(1) by (auto simp: cascade_ok_def)
  moreover have "V1 \<subseteq> V2" "distinct b" "set b \<inter> V1 = {}" "set b \<subseteq> V2" "\<forall>s\<in>set b. cleared env fs s"
    "\<forall>s\<in>V2 - V1. s \<in> set b \<or> already_approved fs s" "\<forall>c\<in>set b. closed_under env fs c V2"
    using assms(2) by (auto simp: cascade_ok_def)
  ultimately show ?thesis
    unfolding cascade_ok_def using closed_mono by (auto 0 3)
qed

lemma cascade_ok_Cons:
  assumes "cascade_ok env fs (insert s V) out V'" and "s \<notin> V" and "cleared env fs s"
    and "closed_under env fs s V'"
  shows "cascade_ok env fs V (s # out) V'"
  using assms by (auto simp: cascade_ok_def)

lemma cascade_sound:
  "composite_cascade env fs n visited cid d = Inr (out, v') \<Longrightarrow> cid \<in> set visited \<or> visited = [] \<Longrightarrow>
     cascade_ok env fs (set (cid # visited)) out (insert cid (set v'))
     \<and> (\<forall>steps. fm_kind (fst d) = COMPOSITE \<longrightarrow> composite_steps env cid (snd d) = Inr steps
          \<longrightarrow> refs_in steps (set v')) \<and> set visited \<subseteq> set v'"
  "cascade_steps env fs n visited steps = Inr (out, v') \<Longrightarrow>
     cascade_ok env fs (set visited) out (set v') \<and> refs_in steps (set v')"
proof (induction env fs n visited cid d and env fs n visited steps arbitrary: out v' and out v'
    rule: composite_cascade_cascade_steps.induct)
  case (1 env fs n visited cid d)
  show ?case
  proof (cases "fm_kind (fst d) = COMPOSITE")
    case False
    then show ?thesis using "1.prems" by (auto simp: composite_cascade.simps cascade_ok_refl)
  next
    case True
    then obtain m steps where m: "n = Suc m" and st: "composite_steps env cid (snd d) = Inr steps"
      and run: "cascade_steps env fs m (cid # visited) steps = Inr (out, v')"
      using "1.prems"(1) by (auto simp: composite_cascade.simps bind_res_eq_Inr split: nat.splits)
    have "cascade_ok env fs (set (cid # visited)) out (set v') \<and> refs_in steps (set v')"
      using "1.IH" [of m steps out v'] True m run by simp
    moreover from this have "cid \<in> set v'" "set visited \<subseteq> set v'" by (auto simp: cascade_ok_def)
    ultimately show ?thesis using st by (simp add: insert_absorb)
  qed
next
  case (2 env fs n visited)
  then show ?case by (auto simp: cascade_ok_refl refs_in_def)
next
  case (3 env fs n visited st rest)
  obtain sub where sub: "step_artifact st = Inr sub"
    using "3.prems" by (auto simp: bind_res_eq_Inr)
  show ?case
  proof (cases "sub = [] \<or> sub \<in> set visited")
    case True
    then have "cascade_steps env fs n visited rest = Inr (out, v')" using "3.prems" sub by simp
    then have ok: "cascade_ok env fs (set visited) out (set v') \<and> refs_in rest (set v')"
      using "3.IH"(1) True by blast
    then show ?thesis using True sub by (auto simp: refs_in_def cascade_ok_def)
  next
    case new: False
    obtain d where d: "cascade_read fs sub = Inr d" using "3.prems" sub new by (auto simp: bind_res_eq_Inr)
    note mem = cascade_read_Inr [OF d]
    show ?thesis
    proof (cases "fm_status (fst d) = APPROVED")
      case True
      then have run: "cascade_steps env fs n (sub # visited) rest = Inr (out, v')"
        using "3.prems" sub new d by simp
      have ok: "cascade_ok env fs (set (sub # visited)) out (set v') \<and> refs_in rest (set v')"
        using "3.IH"(2) [OF new True run] .
      have "already_approved fs sub" using mem True by (cases d) (auto simp: already_approved_def)
      then show ?thesis using ok sub by (auto simp: cascade_ok_def refs_in_def)
    next
      case nap: False
      then have pr: "fm_status (fst d) = PROPOSED" and h: "body_hash env (snd d) = fm_hash (fst d)"
        using "3.prems" sub new d by (auto split: if_splits)
      obtain inner v1 more where c: "composite_cascade env fs n (sub # visited) sub d = Inr (inner, v1)"
        and r: "cascade_steps env fs n v1 rest = Inr (more, v')" and out: "out = sub # inner @ more"
        using "3.prems" sub new d nap pr h by (auto simp: bind_res_eq_Inr)
      have A: "cascade_ok env fs (set (sub # visited)) inner (set v1)"
        and A2: "\<forall>steps. fm_kind (fst d) = COMPOSITE \<longrightarrow> composite_steps env sub (snd d) = Inr steps
              \<longrightarrow> refs_in steps (set v1)"
        using "3.IH"(3) [OF new nap _ _ c] pr h by (auto simp: insert_absorb)
      have B: "cascade_ok env fs (set v1) more (set v') \<and> refs_in rest (set v')"
        by (rule "3.IH"(4) [of sub d v1 more v']) (use new nap pr h c r in auto)
      have V: "set v1 \<subseteq> set v'" using B by (simp add: cascade_ok_def)
      have "cascade_ok env fs (set visited) (sub # inner @ more) (set v')"
      proof (rule cascade_ok_Cons)
        show "cascade_ok env fs (insert sub (set visited)) (inner @ more) (set v')"
          using cascade_ok_trans [OF A] B by simp
        show "sub \<notin> set visited" using new by simp
        show "cleared env fs sub" using mem pr h by (cases d) (auto simp: cleared_def)
        have "closed_under env fs sub (set v1)"
          using A2 mem by (cases d) (auto simp: closed_under_def)
        then show "closed_under env fs sub (set v')" using V by (rule closed_mono)
      qed
      moreover have "sub \<in> set v'" using A V by (auto simp: cascade_ok_def)
      ultimately show ?thesis using B sub out by (auto simp: refs_in_def)
    qed
  qed
qed

lemma cascade_steps_mono:
  "cascade_steps env fs n visited steps = Inr (out, v') \<Longrightarrow> set visited \<subseteq> set v'"
  using cascade_sound(2) by (fastforce simp: cascade_ok_def)

lemma composite_steps_total:
  "\<forall>s. x_yaml (e_ext env) s \<noteq> Inl RecursionError \<Longrightarrow> composite_steps env cid body \<noteq> Inl RecursionError"
proof -
  assume y: "\<forall>s. x_yaml (e_ext env) s \<noteq> Inl RecursionError"
  have "extract_composite_steps (x_yaml (e_ext env)) body \<noteq> Inl RecursionError"
    using y by (auto simp: extract_composite_steps_def bind_res_eq_Inl split: option.splits jval.splits)
  moreover have "iter_steps v \<noteq> Inl RecursionError" for v
    by (cases v rule: iter_steps.cases) auto
  ultimately show ?thesis
    by (auto simp: composite_steps_def bind_res_eq_Inl split: sum.splits exn.splits)
qed

text \<open>One more unit of fuel than there are artifacts left to visit is enough.\<close>

lemma cascade_total:
  "\<forall>s. x_yaml (e_ext env) s \<noteq> Inl RecursionError \<Longrightarrow> cid \<in> set visited \<or> visited = [] \<Longrightarrow>
     unvisited fs (cid # visited) < n \<Longrightarrow> composite_cascade env fs n visited cid d \<noteq> Inl RecursionError"
  "\<forall>s. x_yaml (e_ext env) s \<noteq> Inl RecursionError \<Longrightarrow> unvisited fs visited \<le> n \<Longrightarrow>
     cascade_steps env fs n visited steps \<noteq> Inl RecursionError"
proof (induction env fs n visited cid d and env fs n visited steps
    rule: composite_cascade_cascade_steps.induct)
  case (1 env fs n visited cid d)
  then show ?case
    by (auto simp: composite_cascade.simps bind_res_eq_Inl composite_steps_total split: nat.splits)
next
  case (3 env fs n visited st rest)
  show ?case
  proof (cases "step_artifact st")
    case (Inl e)
    then show ?thesis by (auto simp: step_artifact_def split: jval.splits)
  next
    case sub: (Inr sub)
    show ?thesis
    proof (cases "sub = [] \<or> sub \<in> set visited")
      case True
      then show ?thesis using 3 sub by simp
    next
      case new: False
      show ?thesis
      proof (cases "cascade_read fs sub")
        case (Inl e)
        then show ?thesis using new sub cascade_read_total [of fs sub] by auto
      next
        case (Inr d)
        have "sub \<in> fst ` set fs" using cascade_read_Inr [OF Inr] map_of_SomeD_fst by metis
        then have less: "unvisited fs (sub # visited) < n"
          using unvisited_less [of sub fs visited] new "3.prems"(2) by simp
        have inner: "composite_cascade env fs n (sub # visited) sub d \<noteq> Inl RecursionError"
          if "fm_status (fst d) \<noteq> APPROVED" "\<not> fm_status (fst d) \<noteq> PROPOSED"
            "\<not> body_hash env (snd d) \<noteq> fm_hash (fst d)"
          using "3.IH"(3) [OF new that] "3.prems"(1) less by (simp add: unvisited_def)
        have more: "cascade_steps env fs n v1 rest \<noteq> Inl RecursionError"
          if "fm_status (fst d) \<noteq> APPROVED" "\<not> fm_status (fst d) \<noteq> PROPOSED"
            "\<not> body_hash env (snd d) \<noteq> fm_hash (fst d)"
            "composite_cascade env fs n (sub # visited) sub d = Inr (x, v1)" for x v1
        proof -
          have "set visited \<subseteq> set v1"
            using cascade_sound(1) [OF that(4)] by auto
          then have "unvisited fs v1 \<le> n"
            using unvisited_mono "3.prems"(2) le_trans by blast
          then show ?thesis using "3.IH"(4) [OF new that(1-3), of v1] "3.prems"(1) by simp
        qed
        show ?thesis
          using new sub Inr inner more "3.IH"(2) [OF new] "3.prems"(1) less
          by (auto simp: bind_res_eq_Inl)
      qed
    qed
  qed
qed simp

section \<open>A whole approval\<close>

text \<open>An environment in which git, the database and the code table work.\<close>

definition healthy :: "env \<Rightarrow> bool" where
  "healthy env =
     ((\<forall>ev i. e_git env ev i = None) \<and> (\<forall>a i. e_audit env a i = None) \<and> (\<forall>i. e_sync env i = None)
      \<and> (\<forall>i. e_codes env i = None) \<and> (\<forall>n i. e_emit env n i = None))"

definition succeeds :: "unit op \<Rightarrow> bool" where
  "succeeds m = (\<forall>w. \<exists>w1. m w = (Inr (), w1) \<and> w_files w1 = w_files w)"

lemma succeedsE: "succeeds m \<Longrightarrow> (\<And>w1. m w = (Inr (), w1) \<Longrightarrow> w_files w1 = w_files w \<Longrightarrow> P) \<Longrightarrow> P"
  unfolding succeeds_def by meson

lemma succeeds_bind [intro]: "succeeds m \<Longrightarrow> succeeds m' \<Longrightarrow> succeeds (bind_op m (\<lambda>_. m'))"
  unfolding succeeds_def by (metis bind_op_Inr)

lemma healthy_ops [intro]:
  "healthy env \<Longrightarrow> succeeds (log_audit env a i u d)"
  "healthy env \<Longrightarrow> succeeds (sync_to_db env i fm)"
  "healthy env \<Longrightarrow> succeeds (clear_code_op env i)"
  by (auto simp: healthy_def succeeds_def log_audit_def sync_to_db_def clear_code_op_def)

lemma healthy_write_then:
  assumes "healthy env" and "id_prefix i" and "succeeds m"
  shows "\<exists>w1. bind_op (write_op env ev i fm b) (\<lambda>_. m) w = (Inr (), w1)
           \<and> w_files w1 = store_write (w_files w) i fm b"
proof -
  have "write_op env ev i fm b w = (Inr (), w\<lparr>w_files := store_write (w_files w) i fm b\<rparr>)"
    using assms by (simp add: write_op_def healthy_def)
  moreover obtain w1 where "m (w\<lparr>w_files := store_write (w_files w) i fm b\<rparr>) = (Inr (), w1)"
    "w_files w1 = store_write (w_files w) i fm b"
    using assms(3) [unfolded succeeds_def, rule_format, of "w\<lparr>w_files := store_write (w_files w) i fm b\<rparr>"] by auto
  ultimately show ?thesis by auto
qed

text \<open>The same artifact with a sign-off.\<close>

definition signed :: "frontmatter \<Rightarrow> frontmatter \<Rightarrow> string \<Rightarrow> bool" where
  "signed fm fm' user = (\<exists>so. so_user so = user \<and> fm' = fm\<lparr>fm_status := APPROVED, fm_approved_by := Some so\<rparr>)"

lemma signed_make:
  "signed fm (fm\<lparr>fm_status := APPROVED, fm_approved_by := Some (make_signoff user now role reason)\<rparr>) user"
  unfolding signed_def by (rule exI [of _ "make_signoff user now role reason"]) (simp add: make_signoff_def)

lemma approve_cascaded_healthy:
  assumes "healthy env" and "id_prefix s" and "map_of (w_files w) s = Some (fm, b)" and "fm_status fm = PROPOSED"
  shows "\<exists>w1 fm'. approve_cascaded env user reason role via s w = (Inr (), w1) \<and> signed fm fm' user
           \<and> w_files w1 = store_write (w_files w) s fm' b"
proof -
  have r: "store_read (w_files w) s = Inr (fm, b)" using assms by (simp add: store_read_Inr)
  let ?why = "case nonempty reason of Some r \<Rightarrow> r @ '' (cascaded from composite '' @ via @ '')''
                    | None \<Rightarrow> ''cascaded from composite '' @ via"
  let ?fm = "fm\<lparr>fm_status := APPROVED,
                fm_approved_by := Some (make_signoff user (x_now (e_ext env)) role (Some ?why))\<rparr>"
  have sg: "signed fm ?fm user" by (rule signed_make)
  have s: "succeeds (bind_op (log_audit env ''approve'' s (Some user) [(''cascaded_from'', JStr via)]) (\<lambda>_.
      bind_op (sync_to_db env s ?fm) (\<lambda>_. clear_code_op env s)))"
    using assms(1) by blast
  obtain w1 where "bind_op (write_op env ''approve'' s ?fm b) (\<lambda>_.
      bind_op (log_audit env ''approve'' s (Some user) [(''cascaded_from'', JStr via)]) (\<lambda>_.
      bind_op (sync_to_db env s ?fm) (\<lambda>_. clear_code_op env s))) w = (Inr (), w1)"
    "w_files w1 = store_write (w_files w) s ?fm b"
    using healthy_write_then [OF assms(1,2) s] by blast
  moreover have "approve_cascaded env user reason role via s w = bind_op (write_op env ''approve'' s ?fm b) (\<lambda>_.
      bind_op (log_audit env ''approve'' s (Some user) [(''cascaded_from'', JStr via)]) (\<lambda>_.
      bind_op (sync_to_db env s ?fm) (\<lambda>_. clear_code_op env s))) w"
    using r assms(4) by (simp add: approve_cascaded_def read_op_def Let_def)
  ultimately show ?thesis using sg by (metis (no_types, lifting))
qed

text \<open>The store before and after, for a list of artifacts that were signed.\<close>

definition signed_off :: "files \<Rightarrow> string list \<Rightarrow> string \<Rightarrow> files \<Rightarrow> bool" where
  "signed_off fs is user fs' =
     ((\<forall>s\<in>set is. \<exists>fm fm' b. map_of fs s = Some (fm, b) \<and> map_of fs' s = Some (fm', b) \<and> signed fm fm' user)
      \<and> (\<forall>j. j \<notin> set is \<longrightarrow> map_of fs' j = map_of fs j))"

lemma signed_off_Cons:
  assumes "map_of fs s = Some (fm, b)" and "stored_body b = b" and "signed fm fm' user" and "s \<notin> set is"
    and "signed_off (store_write fs s fm' b) is user fs'"
  shows "signed_off fs (s # is) user fs'"
  using assms by (fastforce simp: signed_off_def split: if_splits)

lemma each_cascaded_healthy:
  assumes h: "healthy env"
  shows "distinct subs \<Longrightarrow> wf_files (w_files w) \<Longrightarrow>
    \<forall>s\<in>set subs. \<exists>fm b. map_of (w_files w) s = Some (fm, b) \<and> fm_status fm = PROPOSED \<Longrightarrow>
    \<exists>w1. each_op (approve_cascaded env user reason role via) subs w = (Inr (), w1)
      \<and> signed_off (w_files w) subs user (w_files w1)"
proof (induction subs arbitrary: w)
  case Nil
  then show ?case by (simp add: signed_off_def)
next
  case (Cons s subs)
  obtain fm b where m: "map_of (w_files w) s = Some (fm, b)" "fm_status fm = PROPOSED" using Cons.prems by auto
  have wf: "id_prefix s" "fm_id fm = s" "stored_body b = b" using wf_filesD [OF Cons.prems(2) m(1)] by auto
  obtain w1 fm' where w1: "approve_cascaded env user reason role via s w = (Inr (), w1)" "signed fm fm' user"
    "w_files w1 = store_write (w_files w) s fm' b"
    using approve_cascaded_healthy [OF h wf(1) m] by blast
  have "fm_id fm' = s" using w1(2) wf(2) by (auto simp: signed_def)
  then have "wf_files (w_files w1)" using w1(3) wf_files_write [OF Cons.prems(2)] wf(1) by simp
  moreover have "\<forall>x\<in>set subs. \<exists>fm b. map_of (w_files w1) x = Some (fm, b) \<and> fm_status fm = PROPOSED"
    using Cons.prems w1(3) by auto
  ultimately obtain w2 where w2: "each_op (approve_cascaded env user reason role via) subs w1 = (Inr (), w2)"
    "signed_off (w_files w1) subs user (w_files w2)"
    using Cons.IH [of w1] Cons.prems(1) by auto
  have "signed_off (w_files w) (s # subs) user (w_files w2)"
    using signed_off_Cons [OF m(1) wf(3) w1(2)] w2(2) w1(3) Cons.prems(1) by simp
  then show ?case using w1(1) w2(1) by simp
qed

lemma approve_healthy:
  assumes h: "healthy env" and wf: "wf_files (w_files w)"
    and ok: "approve_checks env (w_files w) i = Inr ((fm, b), subs)"
  shows "\<exists>w1. approve env i user reason role w = (Inr (), w1) \<and> signed_off (w_files w) (i # subs) user (w_files w1)"
proof -
  note c = approve_checks_Inr [OF ok]
  obtain v where v: "composite_cascade env (w_files w) (Suc (length (w_files w))) [] i (fm, b) = Inr (subs, v)"
    using c(5) by blast
  have casc: "cascade_ok env (w_files w) {i} subs (insert i (set v))"
    using cascade_sound(1) [OF v] by simp
  have i: "stored_body b = b" "fm_id fm = i" using wf_filesD [OF wf c(2)] by auto
  let ?fm = "fm\<lparr>fm_status := APPROVED, fm_approved_by := Some (make_signoff user (x_now (e_ext env)) role reason)\<rparr>"
  have sg: "signed fm ?fm user" by (rule signed_make)
  let ?k = "\<lambda>_ :: unit. bind_op (log_audit env ''approve'' i (Some user) (approve_details role subs)) (\<lambda>_. sync_to_db env i ?fm)"
  have "succeeds (?k ())" using h by blast
  then obtain w1 where w1: "bind_op (write_op env ''approve'' i ?fm b) ?k w = (Inr (), w1)"
    "w_files w1 = store_write (w_files w) i ?fm b"
    using healthy_write_then [OF h c(1)] by blast
  have wf1: "wf_files (w_files w1)" using w1(2) wf_files_write [OF wf] c(1) i(2) by simp
  have "\<forall>s\<in>set subs. \<exists>fm b. map_of (w_files w1) s = Some (fm, b) \<and> fm_status fm = PROPOSED"
  proof
    fix s assume s: "s \<in> set subs"
    then have "s \<noteq> i" "cleared env (w_files w) s" using casc by (auto simp: cascade_ok_def)
    then show "\<exists>fm b. map_of (w_files w1) s = Some (fm, b) \<and> fm_status fm = PROPOSED"
      using w1(2) by (auto simp: cleared_def)
  qed
  moreover have "distinct subs" using casc by (simp add: cascade_ok_def)
  ultimately obtain w2 where w2: "each_op (approve_cascaded env user reason role i) subs w1 = (Inr (), w2)"
    "signed_off (w_files w1) subs user (w_files w2)"
    using each_cascaded_healthy [OF h _ wf1] by blast
  have "approve env i user reason role w = (Inr (), w2)"
  proof -
    obtain x w0 where a: "write_op env ''approve'' i ?fm b w = (Inr x, w0)" "?k x w0 = (Inr (), w1)"
      using w1(1) by (auto simp: bind_op_eq)
    obtain y wl where l: "log_audit env ''approve'' i (Some user) (approve_details role subs) w0 = (Inr y, wl)"
      "sync_to_db env i ?fm wl = (Inr (), w1)"
      using a(2) by (auto simp: bind_op_eq)
    show ?thesis using ok a(1) l w2(1) by (simp add: approve_def Let_def)
  qed
  moreover have "i \<notin> set subs" using casc by (auto simp: cascade_ok_def)
  ultimately show ?thesis using signed_off_Cons [OF c(2) i(1) sg] w2(2) w1(2) by auto
qed


lemma approve_checks_total:
  assumes "\<forall>s. x_yaml (e_ext env) s \<noteq> Inl RecursionError"
  shows "approve_checks env fs i \<noteq> Inl RecursionError"
proof -
  have "unvisited fs [i] < Suc (length fs)" using unvisited_start [of fs "[i]"] by simp
  then have "composite_cascade env fs (Suc (length fs)) [] i d \<noteq> Inl RecursionError" for d
    using cascade_total(1) [OF assms] by simp
  then show ?thesis
    by (auto simp: approve_checks_def bind_res_eq_Inl store_read_def validate_transition_def guard_def
        split: option.splits)
qed

section \<open>Properties of approval\<close>


section \<open>An example store\<close>

definition example_ext :: ext where
  "example_ext = \<lparr>x_digest = \<lambda>s. s,
     x_yaml = \<lambda>_. Inr (JObj [(''steps'', JList [JObj [(''id'', JStr ''one''), (''artifact'', JStr ''2026-01-02-leaf'')]])]),
     x_ast = \<lambda>_. None, x_render = \<lambda>_ t. Rendered t, x_now = ''2026-01-03T00:00:00Z''\<rparr>"

definition example_env :: env where
  "example_env = \<lparr>e_ext = example_ext, e_repo = True, e_git = \<lambda>_ _. None, e_audit = \<lambda>_ _. None,
     e_sync = \<lambda>_. None, e_codes = \<lambda>_. None, e_emit = \<lambda>_ _. None, e_draw = \<lambda>_. 0\<rparr>"

definition example_fm :: "string \<Rightarrow> artifact_kind \<Rightarrow> artifact_status \<Rightarrow> string \<Rightarrow> frontmatter" where
  "example_fm i k st body =
     \<lparr>fm_id = i, fm_kind = k, fm_intent = ''an example'', fm_status = st, fm_mutating = True,
      fm_produced_by = \<lparr>pb_session = ''s'', pb_agent = ''a'', pb_user = ''u'', pb_at = ''t''\<rparr>,
      fm_hash = body_hash example_env body, fm_target = None, fm_idempotence = None,
      fm_approved_by = None, fm_applied_at = None, fm_failed_at = None, fm_failure_reason = None,
      fm_supersedes = None, fm_superseded_by = None, fm_rejected_by = None, fm_revoked_by = None,
      fm_tags = None, fm_rollback = None, fm_replay_safe = None, fm_requires_snapshot = None,
      fm_note_kind = None, fm_skip_if = None\<rparr>"

definition plan_body :: string where
  "plan_body = ''```yaml composite-spec'' @ [nl] @ ''x'' @ [nl] @ ''```''"

definition example_world :: world where
  "example_world = \<lparr>w_files =
     [(''2026-01-01-plan'', example_fm ''2026-01-01-plan'' COMPOSITE PROPOSED plan_body, plan_body),
      (''2026-01-02-leaf'', example_fm ''2026-01-02-leaf'' SHELL_SCRIPT PROPOSED ''echo'', ''echo'')],
     w_audit = [], w_db = [], w_codes = [], w_events = []\<rparr>"

lemma example_healthy: "healthy example_env" "\<forall>s. x_yaml (e_ext example_env) s \<noteq> Inl RecursionError"
  by (simp_all add: healthy_def example_env_def example_ext_def)

lemma example_ids: "id_prefix ''2026-01-01-plan''" "id_prefix ''2026-01-02-leaf''"
  by (simp_all add: id_prefix_def is_digit_def)

lemma example_world_wf: "wf_files (w_files example_world)"
  by (auto simp: wf_files_def example_world_def example_fm_def example_ids plan_body_def
      intro!: stored_body_id split: if_splits)

lemma example_checks:
  "approve_checks example_env (w_files example_world) ''2026-01-01-plan''
     = Inr ((example_fm ''2026-01-01-plan'' COMPOSITE PROPOSED plan_body, plan_body), [''2026-01-02-leaf''])"
proof -
  have f: "find_fence ''composite-spec'' plan_body = Some [CHR ''x'', nl]"
    by (simp add: plan_body_def fence_here_def after_prefix_def backticks_def py_lstrip_def
        after_last_nl_def Let_def py_isspace_def)
  then have s: "composite_steps example_env i plan_body
      = Inr [JObj [(''id'', JStr ''one''), (''artifact'', JStr ''2026-01-02-leaf'')]]" for i
    by (simp add: composite_steps_def extract_composite_steps_def example_env_def example_ext_def)
  show ?thesis
    by (simp add: approve_checks_def example_world_def store_read_def example_ids example_fm_def
        composite_cascade.simps s step_artifact_def dget_def cascade_read_def numeral_eq_Suc
        validate_transition_def guard_def)
qed


section \<open>What an edit leaves approved\<close>

text \<open>An approved composite with its body.\<close>

definition approved_composite :: "files \<Rightarrow> string \<Rightarrow> string \<Rightarrow> bool" where
  "approved_composite fs c b =
     (\<exists>fm. map_of fs c = Some (fm, b) \<and> fm_status fm = APPROVED \<and> fm_kind fm = COMPOSITE)"

definition inval_done :: "files \<Rightarrow> string set \<Rightarrow> files \<Rightarrow> string set \<Rightarrow> bool" where
  "inval_done fs V fs' V' =
     (V \<subseteq> V' \<and> (\<forall>c b. approved_composite fs' c b \<longrightarrow> approved_composite fs c b)
      \<and> (\<forall>x\<in>V'. \<forall>b. \<not> approved_composite fs' x b)
      \<and> (\<forall>x\<in>V' - V. \<forall>c b. approved_composite fs' c b \<longrightarrow> \<not> py_in x b))"

lemma inval_done_refl: "(\<forall>x\<in>V. \<forall>b. \<not> approved_composite fs x b) \<Longrightarrow> inval_done fs V fs V"
  by (simp add: inval_done_def)

lemma inval_done_trans: "inval_done fs V fs1 V1 \<Longrightarrow> inval_done fs1 V1 fs2 V2 \<Longrightarrow> inval_done fs V fs2 V2"
  unfolding inval_done_def by (intro conjI) (blast, blast, blast, blast)

lemma demoted_composites:
  "fm_status fm = PROPOSED \<Longrightarrow> approved_composite (store_write fs i fm b) c d \<longleftrightarrow> c \<noteq> i \<and> approved_composite fs c d"
  by (auto simp: approved_composite_def)

lemma fresh_approved: "fresh_candidate fs cand \<Longrightarrow> \<exists>b. approved_composite fs (fm_id cand) b"
  by (auto simp: fresh_candidate_def approved_composite_def)

lemma approved_listed:
  assumes "wf_files fs" and "approved_composite fs c b"
  shows "\<exists>cand\<in>set (store_list fs (Some APPROVED) (Some COMPOSITE)). fm_id cand = c"
proof -
  obtain fm where m: "map_of fs c = Some (fm, b)" "fm_status fm = APPROVED" "fm_kind fm = COMPOSITE"
    using assms(2) by (auto simp: approved_composite_def)
  then have "(c, fm, b) \<in> set fs" by (simp add: map_of_SomeD)
  then have "fm \<in> set (store_list fs (Some APPROVED) (Some COMPOSITE))" using m by (auto simp: set_store_list)
  moreover have "fm_id fm = c" using wf_filesD [OF assms(1) m(1)] by simp
  ultimately show ?thesis by blast
qed

lemma invalidate_loop_demote:
  assumes "\<not> (fm_id cand = edited \<or> fm_id cand \<in> set visited)"
    and "store_read (w_files w) (fm_id cand) = Inr (fm, b)" and "py_in edited b"
    and "bind_op (write_op env ''edit'' (fm_id cand) (cand\<lparr>fm_status := PROPOSED, fm_approved_by := None\<rparr>) b)
           (\<lambda>_. bind_op (log_audit env ''invalidate'' (fm_id cand) None
              [(''reason'', JStr (''sub-artifact '' @ edited @ '' edited''))])
             (\<lambda>_. sync_to_db env (fm_id cand) (cand\<lparr>fm_status := PROPOSED, fm_approved_by := None\<rparr>))) w = (r1, w1)"
  shows "invalidate_loop env n edited (cand # rest) visited w =
        (case r1 of Inl e \<Rightarrow> (Inl e, w1)
         | Inr _ \<Rightarrow> bind_op (cascade_invalidate env n (fm_id cand) visited)
                      (\<lambda>v. invalidate_loop env n edited rest v) w1)"
  using assms by (auto simp: read_op_def Let_def bind_op_def split: prod.splits sum.splits)

lemma invalidate_complete:
  shows "cascade_invalidate env n edited visited w = (Inr v, w') \<Longrightarrow> wf_files (w_files w) \<Longrightarrow>
      (\<forall>x\<in>set (edited # visited). \<forall>b. \<not> approved_composite (w_files w) x b) \<Longrightarrow>
      inval_done (w_files w) (set visited) (w_files w') (set v)"
    and "invalidate_loop env n edited cands visited w = (Inr v, w') \<Longrightarrow> wf_files (w_files w) \<Longrightarrow>
      (\<And>c. c \<in> set cands \<Longrightarrow> fm_id c \<notin> set visited \<Longrightarrow> fresh_candidate (w_files w) c) \<Longrightarrow>
      edited \<in> set visited \<Longrightarrow> (\<forall>x\<in>set visited. \<forall>b. \<not> approved_composite (w_files w) x b) \<Longrightarrow>
      inval_done (w_files w) (set visited) (w_files w') (set v)
      \<and> (\<forall>cand\<in>set cands. \<forall>b. approved_composite (w_files w') (fm_id cand) b \<longrightarrow> \<not> py_in edited b)"
proof (induction env n edited visited w and env n edited cands visited w arbitrary: v w' and v w'
    rule: cascade_invalidate_invalidate_loop.induct)
  case (1 env n edited visited w)
  show ?case
  proof (cases "edited \<in> set visited")
    case True
    then show ?thesis using "1.prems" by (auto simp: cascade_invalidate.simps intro!: inval_done_refl)
  next
    case False
    let ?cands = "store_list (w_files w) (Some APPROVED) (Some COMPOSITE)"
    obtain m where n: "n = Suc m"
      and run: "invalidate_loop env m edited ?cands (edited # visited) w = (Inr v, w')"
      using "1.prems"(1) False by (auto simp: cascade_invalidate.simps split: nat.splits)
    have D: "inval_done (w_files w) (set (edited # visited)) (w_files w') (set v)
        \<and> (\<forall>cand\<in>set ?cands. \<forall>b. approved_composite (w_files w') (fm_id cand) b \<longrightarrow> \<not> py_in edited b)"
      using "1.IH" [OF False n run "1.prems"(2)] "1.prems"(3) listed_fresh [OF "1.prems"(2)] by simp
    have ed: "\<not> py_in edited b" if "approved_composite (w_files w') c b" for c b
    proof -
      have "approved_composite (w_files w) c b" using D that by (auto simp: inval_done_def)
      then obtain cand where "cand \<in> set ?cands" "fm_id cand = c"
        using approved_listed [OF "1.prems"(2)] by blast
      then show ?thesis using D that by blast
    qed
    show ?thesis
      unfolding inval_done_def
    proof (intro conjI ballI allI impI)
      fix x c b assume "x \<in> set v - set visited" and "approved_composite (w_files w') c b"
      then show "\<not> py_in x b" using ed D by (cases "x = edited") (auto simp: inval_done_def)
    qed (use D in \<open>auto simp: inval_done_def\<close>)
  qed
next
  case (2 env n edited visited w)
  then show ?case by (auto intro: inval_done_refl)
next
  case (3 env n edited cand rest visited w)
  let ?cid = "fm_id cand"
  show ?case
  proof (cases "?cid = edited \<or> ?cid \<in> set visited")
    case True
    then have run: "invalidate_loop env n edited rest visited w = (Inr v, w')" using "3.prems"(1) by simp
    have D: "inval_done (w_files w) (set visited) (w_files w') (set v)
      \<and> (\<forall>cand\<in>set rest. \<forall>b. approved_composite (w_files w') (fm_id cand) b \<longrightarrow> \<not> py_in edited b)"
      using "3.IH"(1) [OF refl True run] "3.prems" by simp
    then show ?thesis using True "3.prems"(4) by (auto simp: inval_done_def)
  next
    case new: False
    then have fresh: "fresh_candidate (w_files w) cand" using "3.prems"(3) by simp
    obtain fm b where d: "store_read (w_files w) ?cid = Inr (fm, b)"
      using "3.prems"(1) new by (auto simp: read_op_def bind_op_eq Let_def)
    have only: "b' = b" if "approved_composite (w_files w) ?cid b'" for b'
      using that d by (auto simp: approved_composite_def store_read_Inr)
    show ?thesis
    proof (cases "py_in edited b")
      case False
      then have run: "invalidate_loop env n edited rest visited w = (Inr v, w')"
        using "3.prems"(1) new d by (simp add: read_op_def)
      have "inval_done (w_files w) (set visited) (w_files w') (set v)
        \<and> (\<forall>cand\<in>set rest. \<forall>b. approved_composite (w_files w') (fm_id cand) b \<longrightarrow> \<not> py_in edited b)"
        using "3.IH"(4) [OF refl new False run] "3.prems" by simp
      then show ?thesis using False only by (auto simp: inval_done_def)
    next
      case True
      let ?cfm = "cand\<lparr>fm_status := PROPOSED, fm_approved_by := None\<rparr>"
      let ?fs = "store_write (w_files w) ?cid ?cfm b"
      have idp: "id_prefix ?cid" using d by (simp add: store_read_Inr)
      have wf1: "wf_files ?fs" by (rule file_step_wf [OF demote_step [OF "3.prems"(2) fresh d] "3.prems"(2)])
      let ?book = "\<lambda>_ :: unit. bind_op (log_audit env ''invalidate'' ?cid None
          [(''reason'', JStr (''sub-artifact '' @ edited @ '' edited''))]) (\<lambda>_. sync_to_db env ?cid ?cfm)"
      obtain r1 w1 where w1: "bind_op (write_op env ''edit'' ?cid ?cfm b) ?book w = (r1, w1)" by fastforce
      have f1: "w_files w1 = ?fs" by (rule write_then_files [OF w1 _ idp]) blast
      note invalidate_loop_demote [OF new d True w1, of n rest]
      then obtain v2 w2 where c2: "cascade_invalidate env n ?cid visited w1 = (Inr v2, w2)"
        and l2: "invalidate_loop env n edited rest v2 w2 = (Inr v, w')"
        using "3.prems"(1) by (auto simp: bind_op_eq split: sum.splits)
      have post: "inval_post env visited w1 (Inr v2, w2)" "?cid \<in> set v2"
        using invalidate_post(1) [of w1 env visited n ?cid] wf1 f1 c2 by simp_all
      have D1: "inval_done (w_files w) (set visited) ?fs (set visited)"
        using "3.prems"(5) by (auto simp: inval_done_def demoted_composites)
      have D2: "inval_done ?fs (set visited) (w_files w2) (set v2)"
        using "3.IH"(2) [OF refl new True refl c2] wf1 f1 "3.prems"(5) by (simp add: demoted_composites)
      have un: "map_of (w_files w2) j = map_of (w_files w) j" if "j \<notin> set v2" for j
        using post that f1 by (auto simp: inval_post_def)
      have D3: "inval_done (w_files w2) (set v2) (w_files w') (set v)
        \<and> (\<forall>cand\<in>set rest. \<forall>b. approved_composite (w_files w') (fm_id cand) b \<longrightarrow> \<not> py_in edited b)"
      proof (rule "3.IH"(3) [OF refl new True refl l2])
        show "wf_files (w_files w2)" using post(1) by (simp add: inval_post_def)
        show "fresh_candidate (w_files w2) c" if "c \<in> set rest" "fm_id c \<notin> set v2" for c
          using "3.prems"(3) [of c] that un D2 by (auto simp: fresh_candidate_def inval_done_def)
        show "edited \<in> set v2" using "3.prems"(4) D2 by (auto simp: inval_done_def)
        show "\<forall>x\<in>set v2. \<forall>b. \<not> approved_composite (w_files w2) x b" using D2 by (auto simp: inval_done_def)
      qed
      have "\<forall>b. \<not> approved_composite (w_files w') ?cid b"
        using D3 post(2) by (auto simp: inval_done_def)
      then show ?thesis using D3 inval_done_trans [OF inval_done_trans [OF D1 D2]] by auto
    qed
  qed
qed


text \<open>Fuel for the invalidation: the identifiers of the store do not change under it.\<close>

lemma write_then_keys:
  "map_of fs i = Some d \<Longrightarrow> fst ` set (store_write fs i fm b) = fst ` set fs"
  by (auto simp: store_write_def fst_set_update dest: map_of_SomeD_fst)

lemma healthy_book:
  assumes "healthy env" and "id_prefix i"
  shows "\<exists>w1. bind_op (write_op env ev i fm b) (\<lambda>_. bind_op (log_audit env a i u d) (\<lambda>_. sync_to_db env i fm)) w
     = (Inr (), w1) \<and> w_files w1 = store_write (w_files w) i fm b"
  using assms by (intro healthy_write_then) blast+

lemma invalidate_total:
  shows "healthy env \<Longrightarrow> wf_files (w_files w) \<Longrightarrow> unvisited (w_files w) (edited # visited) < n \<Longrightarrow>
      \<exists>v w'. cascade_invalidate env n edited visited w = (Inr v, w') \<and> fst ` set (w_files w') = fst ` set (w_files w)"
    and "healthy env \<Longrightarrow> wf_files (w_files w) \<Longrightarrow>
      (\<And>c. c \<in> set cands \<Longrightarrow> fm_id c \<notin> set visited \<Longrightarrow> fresh_candidate (w_files w) c) \<Longrightarrow>
      edited \<in> set visited \<Longrightarrow> unvisited (w_files w) visited \<le> n \<Longrightarrow>
      \<exists>v w'. invalidate_loop env n edited cands visited w = (Inr v, w') \<and> fst ` set (w_files w') = fst ` set (w_files w)"
proof (induction env n edited visited w and env n edited cands visited w
    rule: cascade_invalidate_invalidate_loop.induct)
  case (1 env n edited visited w)
  show ?case
  proof (cases "edited \<in> set visited")
    case True
    then show ?thesis by (simp add: cascade_invalidate.simps)
  next
    case False
    obtain m where n: "n = Suc m" using "1.prems"(3) by (cases n) auto
    then have "unvisited (w_files w) (edited # visited) \<le> m" using "1.prems"(3) by simp
    then show ?thesis
      using "1.IH" [OF False n "1.prems"(1,2)] listed_fresh [OF "1.prems"(2)] False n
      by (simp add: cascade_invalidate.simps)
  qed
next
  case (2 env n edited visited w)
  then show ?case by simp
next
  case (3 env n edited cand rest visited w)
  let ?cid = "fm_id cand"
  show ?case
  proof (cases "?cid = edited \<or> ?cid \<in> set visited")
    case True
    then show ?thesis using "3.IH"(1) [OF refl True "3.prems"(1,2)] "3.prems"(3-5) by simp
  next
    case new: False
    then have fresh: "fresh_candidate (w_files w) cand" using "3.prems"(3) by simp
    then obtain b where m: "map_of (w_files w) ?cid = Some (cand, b)" by (auto simp: fresh_candidate_def)
    then have d: "store_read (w_files w) ?cid = Inr (cand, b)"
      using wf_filesD [OF "3.prems"(2) m] by (simp add: store_read_Inr)
    show ?thesis
    proof (cases "py_in edited b")
      case False
      then show ?thesis using "3.IH"(4) [OF refl new False "3.prems"(1,2)] "3.prems"(3-5) new d
        by (simp add: read_op_def)
    next
      case True
      let ?cfm = "cand\<lparr>fm_status := PROPOSED, fm_approved_by := None\<rparr>"
      let ?fs = "store_write (w_files w) ?cid ?cfm b"
      have wf1: "wf_files ?fs" by (rule file_step_wf [OF demote_step [OF "3.prems"(2) fresh d] "3.prems"(2)])
      have idp: "id_prefix ?cid" using d by (simp add: store_read_Inr)
      obtain w1 where w1: "bind_op (write_op env ''edit'' ?cid ?cfm b) (\<lambda>_. bind_op (log_audit env ''invalidate'' ?cid None
          [(''reason'', JStr (''sub-artifact '' @ edited @ '' edited''))]) (\<lambda>_. sync_to_db env ?cid ?cfm)) w
          = (Inr (), w1)" and f1: "w_files w1 = ?fs"
        using healthy_book [OF "3.prems"(1) idp] by blast
      have wf1': "wf_files (w_files w1)" using wf1 f1 by simp
      have keys1: "fst ` set (w_files w1) = fst ` set (w_files w)" using f1 write_then_keys [OF m] by simp
      have "?cid \<in> fst ` set (w_files w)" using m map_of_SomeD_fst by metis
      then have "unvisited (w_files w) (?cid # visited) < n"
        using unvisited_less [of ?cid "w_files w" visited] new "3.prems"(5) by simp
      then have "unvisited (w_files w1) (?cid # visited) < n" using keys1 by (simp add: unvisited_def)
      then obtain v2 w2 where c2: "cascade_invalidate env n ?cid visited w1 = (Inr v2, w2)"
        and keys2: "fst ` set (w_files w2) = fst ` set (w_files w1)"
        using "3.IH"(2) [OF refl new True refl "3.prems"(1) wf1'] by blast
      have post: "inval_post env visited w1 (Inr v2, w2)" "?cid \<in> set v2"
        using invalidate_post(1) [of w1 env visited n ?cid] wf1 f1 c2 by simp_all
      then have sub: "set visited \<subseteq> set v2" and wf2: "wf_files (w_files w2)" by (auto simp: inval_post_def)
      have un: "map_of (w_files w2) j = map_of (w_files w) j" if "j \<notin> set v2" for j
        using post that f1 by (auto simp: inval_post_def)
      have "unvisited (w_files w2) v2 \<le> n"
        using unvisited_mono [OF sub, of "w_files w"] "3.prems"(5) keys1 keys2 by (simp add: unvisited_def)
      moreover have "fresh_candidate (w_files w2) c" if "c \<in> set rest" "fm_id c \<notin> set v2" for c
        using "3.prems"(3) [of c] that un sub by (auto simp: fresh_candidate_def)
      ultimately obtain v w' where l2: "invalidate_loop env n edited rest v2 w2 = (Inr v, w')"
        and keys: "fst ` set (w_files w') = fst ` set (w_files w2)"
        using "3.IH"(3) [OF refl new True refl "3.prems"(1) wf2] "3.prems"(4) sub by blast
      have "invalidate_loop env n edited (cand # rest) visited w = (Inr v, w')"
        using invalidate_loop_demote [OF new d True w1, of n rest] c2 l2 by (simp add: bind_op_Inr)
      then show ?thesis using keys keys1 keys2 by simp
    qed
  qed
qed

text \<open>
  C4: an edit takes back every approval that rested on the old body.  With git and the database
  working, an edit of an artifact that is not applied, superseded, revoked or rejected returns; if
  the body had changed, the artifact is then proposed with the hash of its new body and without a
  sign-off, no composite that is still approved mentions it, and nothing became approved.
\<close>

theorem edit_invalidates:
  assumes "healthy env" and "wf_files (w_files w)" and "map_of (w_files w) i = Some (fm, b)"
    and "fm_status fm \<in> {PROPOSED, APPROVED, FAILED}" and "body_hash env b \<noteq> fm_hash fm"
    and "fm_status fm = PROPOSED \<longrightarrow> fm_approved_by fm = None"
  shows "\<exists>w'. edit env i w = (Inr (), w')
    \<and> map_of (w_files w') i = Some (fm\<lparr>fm_hash := body_hash env b, fm_status := PROPOSED, fm_approved_by := None\<rparr>, b)
    \<and> (\<forall>c d. approved_composite (w_files w') c d \<longrightarrow> approved_composite (w_files w) c d \<and> \<not> py_in i d)"
proof -
  let ?fm = "fm\<lparr>fm_hash := body_hash env b, fm_status := PROPOSED, fm_approved_by := None\<rparr>"
  have i: "id_prefix i" "fm_id fm = i" "stored_body b = b" using wf_filesD [OF assms(2,3)] by auto
  have fm': "(if fm_status fm \<in> {APPROVED, FAILED} then fm\<lparr>fm_hash := body_hash env b, fm_status := PROPOSED, fm_approved_by := None\<rparr>
      else fm\<lparr>fm_hash := body_hash env b\<rparr>) = ?fm"
    using assms(4,6) by auto
  let ?fs = "store_write (w_files w) i ?fm b"
  define w1 where "w1 = w\<lparr>w_files := ?fs\<rparr>"
  have wr: "write_op env ''edit'' i ?fm b w = (Inr (), w1)"
    using assms(1) i by (simp add: write_op_def healthy_def w1_def)
  have wf1: "wf_files (w_files w1)" using wf_files_write [OF assms(2)] i by (simp add: w1_def)
  have "unvisited (w_files w1) [i] < Suc (length (w_files w1))"
    using unvisited_start [of "w_files w1" "[i]"] by simp
  then obtain v w2 where c: "cascade_invalidate env (Suc (length (w_files w1))) i [] w1 = (Inr v, w2)"
    using invalidate_total(1) [OF assms(1) wf1] by blast
  have none: "\<forall>x\<in>set [i]. \<forall>b. \<not> approved_composite (w_files w1) x b"
    by (simp add: w1_def demoted_composites)
  have D: "inval_done (w_files w1) {} (w_files w2) (set v)"
    using invalidate_complete(1) [OF c wf1] none by simp
  have v: "i \<in> set v"
    using invalidate_post(1) [OF wf1, of env "[]" "Suc (length (w_files w1))" i] c by simp
  have "inval_post env [i] w1 (cascade_invalidate env (Suc (length (w_files w1))) i [] w1)"
    using invalidate_post(2) [OF wf1, of _ "[i]"] listed_fresh [OF wf1] by (simp add: cascade_invalidate.simps)
  then have same: "map_of (w_files w2) i = Some (?fm, b)"
    using c i by (simp add: inval_post_def w1_def)
  obtain w3 where s: "sync_to_db env i ?fm w2 = (Inr (), w3)" "w_files w3 = w_files w2"
    using healthy_ops(2) [OF assms(1)] unfolding succeeds_def by blast
  have run: "edit env i w = (Inr (), w3)"
    using assms(3-5) i wr c s(1) fm' by (auto simp: edit_def read_op_def store_read_Inr store_read_def Let_def)
  have "approved_composite (w_files w) c d \<and> \<not> py_in i d" if "approved_composite (w_files w3) c d" for c d
  proof -
    have "approved_composite (w_files w2) c d" using that s(2) by simp
    then have "approved_composite (w_files w1) c d" "\<not> py_in i d"
      using D v by (auto simp: inval_done_def)
    then show ?thesis by (simp add: w1_def demoted_composites)
  qed
  then show ?thesis using run same s(2) by auto
qed

definition edited_fm :: frontmatter where
  "edited_fm = example_fm ''2026-01-02-leaf'' SHELL_SCRIPT APPROVED ''old''"

definition edited_plan :: string where
  "edited_plan = ''run 2026-01-02-leaf''"

definition edited_world :: world where
  "edited_world = \<lparr>w_files =
     [(''2026-01-01-plan'', example_fm ''2026-01-01-plan'' COMPOSITE APPROVED edited_plan, edited_plan),
      (''2026-01-02-leaf'', edited_fm, ''new'')],
     w_audit = [], w_db = [], w_codes = [], w_events = []\<rparr>"

lemma edited_world_wf: "wf_files (w_files edited_world)"
  by (auto simp: wf_files_def edited_world_def edited_fm_def example_fm_def example_ids edited_plan_def
      intro!: stored_body_id split: if_splits)

theorem edit_invalidates_witness:
  "\<exists>w'. edit example_env ''2026-01-02-leaf'' edited_world = (Inr (), w')
     \<and> approved_composite (w_files edited_world) ''2026-01-01-plan'' edited_plan
     \<and> \<not> approved_composite (w_files w') ''2026-01-01-plan'' edited_plan"
proof -
  have m: "map_of (w_files edited_world) ''2026-01-02-leaf'' = Some (edited_fm, ''new'')"
    by (simp add: edited_world_def)
  have "normalize_body ''new'' \<noteq> normalize_body ''old''" by code_simp
  then have h: "fm_status edited_fm \<in> {PROPOSED, APPROVED, FAILED}"
    "body_hash example_env ''new'' \<noteq> fm_hash edited_fm"
    "fm_status edited_fm = PROPOSED \<longrightarrow> fm_approved_by edited_fm = None"
    by (simp_all add: edited_fm_def example_fm_def body_hash_def compute_body_hash_def example_env_def example_ext_def)
  have p: "py_in ''2026-01-02-leaf'' edited_plan" by (simp add: edited_plan_def py_in_def)
  have a: "approved_composite (w_files edited_world) ''2026-01-01-plan'' edited_plan"
    by (simp add: approved_composite_def edited_world_def example_fm_def)
  show ?thesis using edit_invalidates [OF example_healthy(1) edited_world_wf m h] a p by blast
qed

end
