(* ===== verification/Composite_Order.thy ===== *)
theory Composite_Order
  imports Artifact_Validator
begin

text \<open>
  The order in which a composite runs its steps: \<^verbatim>\<open>executor/composite_lib.py\<close>.

  A step is a mapping read from YAML.  Node identities are dictionary keys (\<open>hash_key\<close>), so a value
  that cannot be hashed raises \<open>TypeError\<close> where Python hashes it.  The sets \<open>visited\<close> and the list
  \<open>order\<close> of the source always grow together, so the model keeps the list only; \<open>visiting\<close> is the
  stack of the recursion.  \<open>visit\<close> terminates because that stack never repeats a step.
\<close>

section \<open>The sort\<close>

definition node_key :: "jval \<Rightarrow> jval res" where
  "node_key v = (case hash_key v of None \<Rightarrow> Inl (TypeError ''unhashable type'') | Some k \<Rightarrow> Inr k)"

text \<open>\<open>step_map\<close> and \<open>deps\<close> in one table: the step and its \<open>depends_on\<close>; a later step replaces an
  earlier one with the same identifier and keeps its place.\<close>

type_synonym step_table = "(jval \<times> (dict \<times> jval)) list"

fun collect_steps :: "step_table \<Rightarrow> jval list \<Rightarrow> step_table res" where
  "collect_steps t [] = Inr t"
| "collect_steps t (st # rest) =
     (case st of
        JObj kvs \<Rightarrow>
          bind_res (node_key (dget_or ''id'' (JStr []) kvs)) (\<lambda>k.
            collect_steps
              (AList.update k (kvs, if truthy (dget ''depends_on'' kvs) then dget ''depends_on'' kvs
                                    else JList []) t) rest)
      | _ \<Rightarrow> Inl (AttributeError ''object has no attribute get''))"

text \<open>\<open>for dep in deps.get(node, [])\<close>: a string iterates over its characters, a mapping over its keys.\<close>

fun iter_deps :: "jval \<Rightarrow> jval list res" where
  "iter_deps (JList l) = Inr l"
| "iter_deps (JStr s) = Inr (map (\<lambda>c. JStr [c]) s)"
| "iter_deps (JObj kvs) = Inr (map (\<lambda>kv. JStr (fst kv)) kvs)"
| "iter_deps _ = Inl (TypeError ''object is not iterable'')"

definition node_deps :: "step_table \<Rightarrow> jval \<Rightarrow> jval list res" where
  "node_deps t k = (case map_of t k of None \<Rightarrow> Inr [] | Some (_, d) \<Rightarrow> iter_deps d)"

definition pending :: "step_table \<Rightarrow> jval list \<Rightarrow> nat" where
  "pending t visiting = card (fst ` set t - set visiting)"

lemma pending_less: "map_of t k \<noteq> None \<Longrightarrow> k \<notin> set visiting \<Longrightarrow> pending t (k # visiting) < pending t visiting"
  unfolding pending_def by (rule psubset_card_mono) (auto simp: map_of_eq_None_iff)

function visit :: "step_table \<Rightarrow> jval list \<Rightarrow> jval \<Rightarrow> jval list \<Rightarrow> jval list res"
and visit_all :: "step_table \<Rightarrow> jval list \<Rightarrow> jval list \<Rightarrow> jval list \<Rightarrow> jval list res" where
  "visit t visiting node order =
     (case node_key node of
        Inl e \<Rightarrow> Inl e
      | Inr k \<Rightarrow>
          if k \<in> set order then Inr order
          else if k \<in> set visiting
          then Inl (ValueError (''Circular dependency detected involving: '' @ py_str node))
          else case map_of t k of
                 None \<Rightarrow> Inr (order @ [k])
               | Some (_, d) \<Rightarrow>
                   (case iter_deps d of
                      Inl e \<Rightarrow> Inl e
                    | Inr ds \<Rightarrow>
                        (case visit_all t (k # visiting) ds order of
                           Inl e \<Rightarrow> Inl e
                         | Inr order' \<Rightarrow> Inr (order' @ [k]))))"
| "visit_all t visiting [] order = Inr order"
| "visit_all t visiting (d # ds) order =
     (case visit t visiting d order of Inl e \<Rightarrow> Inl e | Inr order' \<Rightarrow> visit_all t visiting ds order')"
  by pat_completeness auto
termination
  by (relation "measures [\<lambda>a. case a of Inl (t, v, _, _) \<Rightarrow> pending t v | Inr (t, v, _, _) \<Rightarrow> pending t v,
       \<lambda>a. case a of Inl _ \<Rightarrow> 0 | Inr (_, _, ds, _) \<Rightarrow> Suc (length ds)]")
     (auto simp: pending_less)

declare visit.simps [simp del]

definition topological_sort :: "jval list \<Rightarrow> dict list res" where
  "topological_sort steps =
     bind_res (collect_steps [] steps) (\<lambda>t.
     bind_res (visit_all t [] (map fst t) []) (\<lambda>order.
       Inr (List.map_filter (\<lambda>k. map_option fst (map_of t k)) order)))"

section \<open>Facts about the sort\<close>

text \<open>The dependency graph of a table, on keys.\<close>

definition dep_edge :: "step_table \<Rightarrow> (jval \<times> jval) set" where
  "dep_edge t = {(n, d). \<exists>ds raw. node_deps t n = Inr ds \<and> raw \<in> set ds \<and> node_key raw = Inr d}"

definition deps_ok :: "step_table \<Rightarrow> bool" where
  "deps_ok t = list_all (\<lambda>(k, _, d). case iter_deps d of
       Inl _ \<Rightarrow> False | Inr ds \<Rightarrow> list_all (\<lambda>r. \<not> isl (node_key r)) ds) t"

definition order_ok :: "step_table \<Rightarrow> jval list \<Rightarrow> bool" where
  "order_ok t order =
     (distinct order \<and> (\<forall>xs k ys. order = xs @ k # ys \<longrightarrow> (\<forall>d. (k, d) \<in> dep_edge t \<longrightarrow> d \<in> set xs)))"

lemma order_ok_Nil [simp]: "order_ok t []"
  by (simp add: order_ok_def)

lemma order_ok_snoc:
  assumes "order_ok t order" and "k \<notin> set order" and "\<And>d. (k, d) \<in> dep_edge t \<Longrightarrow> d \<in> set order"
  shows "order_ok t (order @ [k])"
  unfolding order_ok_def
proof (intro conjI allI impI)
  show "distinct (order @ [k])" using assms by (simp add: order_ok_def)
  fix xs n ys d assume o: "order @ [k] = xs @ n # ys" and e: "(n, d) \<in> dep_edge t"
  show "d \<in> set xs"
  proof (cases ys rule: rev_cases)
    case Nil
    then show ?thesis using o e assms(3) by simp
  next
    case (snoc zs z)
    then have "order = xs @ n # zs" using o by simp
    then show ?thesis using assms(1) e by (auto simp: order_ok_def)
  qed
qed

lemma node_key_hash: "node_key v = Inr k \<Longrightarrow> node_key k = Inr k"
  by (cases v rule: hash_key.cases) (auto simp: node_key_def)

lemma visit_sound:
  shows "visit t visiting node order = Inr order' \<Longrightarrow> order_ok t order \<Longrightarrow> set order \<inter> set visiting = {} \<Longrightarrow>
      order_ok t order' \<and> set order \<subseteq> set order' \<and> set order' \<inter> set visiting = {}
      \<and> (\<forall>k. node_key node = Inr k \<longrightarrow> k \<in> set order')"
    and "visit_all t visiting ds order = Inr order' \<Longrightarrow> order_ok t order \<Longrightarrow> set order \<inter> set visiting = {} \<Longrightarrow>
      order_ok t order' \<and> set order \<subseteq> set order' \<and> set order' \<inter> set visiting = {}
      \<and> (\<forall>d\<in>set ds. \<forall>k. node_key d = Inr k \<longrightarrow> k \<in> set order')"
proof (induction t visiting node order and t visiting ds order arbitrary: order' and order'
    rule: visit_visit_all.induct)
  case (1 t visiting node order)
  obtain k where k: "node_key node = Inr k" using "1.prems"(1) by (auto simp: visit.simps split: sum.splits)
  show ?case
  proof (cases "k \<in> set order")
    case True
    then show ?thesis using "1.prems" k by (simp add: visit.simps)
  next
    case new: False
    then have nv: "k \<notin> set visiting" using "1.prems"(1) k by (auto simp: visit.simps)
    show ?thesis
    proof (cases "map_of t k")
      case None
      then have "order' = order @ [k]" using "1.prems"(1) k new nv by (simp add: visit.simps)
      then show ?thesis using "1.prems"(2,3) new nv k None
        by (auto simp: dep_edge_def node_deps_def intro!: order_ok_snoc)
    next
      case (Some p)
      obtain kvs d where p: "p = (kvs, d)" by (cases p)
      obtain ds o1 where ds: "iter_deps d = Inr ds" and o1: "visit_all t (k # visiting) ds order = Inr o1"
        and o': "order' = o1 @ [k]"
        using "1.prems"(1) k new nv Some p by (auto simp: visit.simps split: sum.splits)
      have IH: "order_ok t o1 \<and> set order \<subseteq> set o1 \<and> set o1 \<inter> set (k # visiting) = {}
          \<and> (\<forall>d\<in>set ds. \<forall>k. node_key d = Inr k \<longrightarrow> k \<in> set o1)"
        using "1.IH" [OF k new nv Some p [symmetric] ds o1] "1.prems"(2,3) new by simp
      have "order_ok t (o1 @ [k])"
        using IH Some p ds by (auto simp: dep_edge_def node_deps_def intro!: order_ok_snoc)
      then show ?thesis using IH k nv o' by auto
    qed
  qed
next
  case (2 t visiting order)
  then show ?case by simp
next
  case (3 t visiting d ds order)
  obtain o1 where o1: "visit t visiting d order = Inr o1" and o2: "visit_all t visiting ds o1 = Inr order'"
    using "3.prems"(1) by (auto split: sum.splits)
  have a: "order_ok t o1 \<and> set order \<subseteq> set o1 \<and> set o1 \<inter> set visiting = {}
      \<and> (\<forall>k. node_key d = Inr k \<longrightarrow> k \<in> set o1)"
    by (rule "3.IH"(1) [OF o1 "3.prems"(2,3)])
  have b: "order_ok t order' \<and> set o1 \<subseteq> set order' \<and> set order' \<inter> set visiting = {}
      \<and> (\<forall>d\<in>set ds. \<forall>k. node_key d = Inr k \<longrightarrow> k \<in> set order')"
    using "3.IH"(2) [OF o1 o2] a by blast
  show ?case using a b by auto
qed

text \<open>Under \<open>deps_ok\<close> the only failure is a cycle through the recursion stack.\<close>

lemma not_isl: "\<not> isl r \<longleftrightarrow> (\<exists>x. r = Inr x)"
  by (cases r) auto

lemma deps_okD:
  assumes "deps_ok t" and "map_of t k = Some (kvs, d)"
  shows "\<exists>ds. iter_deps d = Inr ds \<and> (\<forall>r\<in>set ds. \<exists>k'. node_key r = Inr k')"
proof -
  have "(k, kvs, d) \<in> set t" using assms(2) by (rule map_of_SomeD)
  then show ?thesis
    using assms(1)
    by (cases "iter_deps d") (fastforce simp: deps_ok_def list_all_iff not_isl)+
qed

lemma visit_error:
  shows "visit t visiting node order = Inl e \<Longrightarrow> deps_ok t \<Longrightarrow> node_key node = Inr k \<Longrightarrow>
      (\<forall>v\<in>set visiting. (v, k) \<in> (dep_edge t)\<^sup>+) \<Longrightarrow> \<exists>x. (x, x) \<in> (dep_edge t)\<^sup>+"
    and "visit_all t visiting ds order = Inl e \<Longrightarrow> deps_ok t \<Longrightarrow>
      (\<forall>d\<in>set ds. \<exists>k. node_key d = Inr k \<and> (\<forall>v\<in>set visiting. (v, k) \<in> (dep_edge t)\<^sup>+)) \<Longrightarrow>
      \<exists>x. (x, x) \<in> (dep_edge t)\<^sup>+"
proof (induction t visiting node order and t visiting ds order arbitrary: e k and e
    rule: visit_visit_all.induct)
  case (1 t visiting node order)
  have new: "k \<notin> set order" using "1.prems"(1,3) by (auto simp: visit.simps)
  show ?case
  proof (cases "k \<in> set visiting")
    case True
    then show ?thesis using "1.prems"(4) by blast
  next
    case nv: False
    then obtain kvs d where m: "map_of t k = Some (kvs, d)"
      using "1.prems"(1,3) new by (auto simp: visit.simps split: option.splits)
    obtain ds where ds: "iter_deps d = Inr ds" and keys: "\<forall>r\<in>set ds. \<exists>k'. node_key r = Inr k'"
      using deps_okD [OF "1.prems"(2) m] by blast
    have err: "visit_all t (k # visiting) ds order = Inl e"
      using "1.prems"(1,3) new nv m ds by (auto simp: visit.simps split: sum.splits)
    have "\<exists>k'. node_key r = Inr k' \<and> (\<forall>v\<in>set (k # visiting). (v, k') \<in> (dep_edge t)\<^sup>+)" if r: "r \<in> set ds" for r
    proof -
      obtain k' where k': "node_key r = Inr k'" using keys r by blast
      then have "(k, k') \<in> dep_edge t" using m ds r by (auto simp: dep_edge_def node_deps_def)
      then show ?thesis using k' "1.prems"(4) by (auto intro: trancl_into_trancl [of _ k])
    qed
    then show ?thesis using "1.IH" [OF "1.prems"(3) new nv m refl ds err "1.prems"(2)] by blast
  qed
next
  case (2 t visiting order)
  then show ?case by simp
next
  case (3 t visiting d ds order)
  show ?case
  proof (cases "visit t visiting d order")
    case (Inl e1)
    obtain k where "node_key d = Inr k" "\<forall>v\<in>set visiting. (v, k) \<in> (dep_edge t)\<^sup>+" using "3.prems"(3) by auto
    then show ?thesis using "3.IH"(1) [OF Inl "3.prems"(2)] by blast
  next
    case (Inr o1)
    then show ?thesis using "3.IH"(2) [OF Inr _ "3.prems"(2)] "3.prems"(1,3) by auto
  qed
qed

lemma order_ok_trancl:
  assumes "order_ok t order" and "(n, d) \<in> (dep_edge t)\<^sup>+" and "order = xs @ n # ys"
  shows "d \<in> set xs"
  using assms(2)
proof (induction rule: trancl_induct)
  case (base d)
  then show ?case using assms(1,3) by (auto simp: order_ok_def)
next
  case (step m d)
  then obtain as bs where "xs = as @ m # bs" by (auto simp: in_set_conv_decomp)
  then have "order = as @ m # (bs @ n # ys)" using assms(3) by simp
  then have "d \<in> set as" using assms(1) step.hyps(2) unfolding order_ok_def by blast
  then show ?case using \<open>xs = as @ m # bs\<close> by simp
qed

lemma order_ok_acyclic:
  assumes "order_ok t order" and "fst ` set t \<subseteq> set order"
  shows "acyclic (dep_edge t)"
proof (rule acyclicI, intro allI notI)
  fix x assume c: "(x, x) \<in> (dep_edge t)\<^sup>+"
  then obtain d where "(x, d) \<in> dep_edge t" by (meson tranclD)
  then have "map_of t x \<noteq> None" by (auto simp: dep_edge_def node_deps_def split: option.splits)
  then have "x \<in> set order" using assms(2) by (auto simp: map_of_eq_None_iff)
  then obtain xs ys where o: "order = xs @ x # ys" by (auto simp: in_set_conv_decomp)
  then have "x \<in> set xs" using order_ok_trancl [OF assms(1) c] by blast
  then show False using assms(1) o by (auto simp: order_ok_def)
qed

lemma collect_keys:
  "collect_steps t0 steps = Inr t \<Longrightarrow> distinct (map fst t0) \<Longrightarrow> \<forall>k\<in>fst ` set t0. node_key k = Inr k \<Longrightarrow>
     distinct (map fst t) \<and> (\<forall>k\<in>fst ` set t. node_key k = Inr k)"
proof (induction t0 steps rule: collect_steps.induct)
  case (2 t0 st rest)
  obtain kvs k where st: "st = JObj kvs" and k: "node_key (dget_or ''id'' (JStr []) kvs) = Inr k"
    using "2.prems"(1) by (auto simp: bind_res_eq_Inr split: jval.splits)
  show ?case
    using "2.IH" [OF st, of k] "2.prems" st k node_key_hash [OF k]
    by (auto simp: distinct_update fst_set_update)
qed simp

definition step_at :: "step_table \<Rightarrow> jval \<Rightarrow> dict" where
  "step_at t k = fst (the (map_of t k))"

lemma map_filter_steps:
  "List.map_filter (\<lambda>k. map_option fst (map_of t k)) order = map (step_at t) (filter (\<lambda>k. k \<in> fst ` set t) order)"
proof (induction order)
  case (Cons k order)
  then show ?case
    by (cases "map_of t k") (auto simp: step_at_def map_of_eq_None_iff [symmetric] dest: map_of_SomeD_fst)
qed simp

lemma order_ok_filter:
  assumes "order_ok t order" and "filter P order = xs @ k # ys" and "(k, d) \<in> dep_edge t" and "P d"
  shows "d \<in> set xs"
proof -
  have "filter P order = xs @ k # ys \<Longrightarrow> \<exists>as bs. order = as @ k # bs \<and> filter P as = xs"
    by (induction order arbitrary: xs) (auto simp: Cons_eq_append_conv append_eq_Cons_conv split: if_splits, (metis append_Cons filter.simps(1,2))+)
  then obtain as bs where "order = as @ k # bs" "filter P as = xs" using assms(2) by blast
  moreover have "d \<in> set as" using assms(1,3) calculation(1) unfolding order_ok_def by blast
  ultimately show ?thesis using assms(4) by auto
qed

section \<open>Properties\<close>

text \<open>
  C36: the order of a composite.  For steps whose \<open>depends_on\<close> are lists of names, sorting returns
  exactly when the dependency graph has no cycle; what it returns has every step of the table once,
  each after all the steps it depends on.
\<close>

theorem topological_sort_correct:
  assumes "collect_steps [] steps = Inr t" and "deps_ok t"
  shows "(\<not> isl (topological_sort steps) \<longleftrightarrow> acyclic (dep_edge t))
    \<and> (\<forall>ordered. topological_sort steps = Inr ordered \<longrightarrow>
         (\<exists>ks. ordered = map (step_at t) ks \<and> distinct ks \<and> set ks = fst ` set t
            \<and> (\<forall>xs k ys d. ks = xs @ k # ys \<and> (k, d) \<in> dep_edge t \<and> d \<in> fst ` set t \<longrightarrow> d \<in> set xs)))"
proof -
  have keys: "distinct (map fst t)" "\<forall>k\<in>fst ` set t. node_key k = Inr k"
    using collect_keys [OF assms(1)] by simp_all
  show ?thesis
  proof (cases "visit_all t [] (map fst t) []")
    case (Inl e)
    have "\<exists>x. (x, x) \<in> (dep_edge t)\<^sup>+" by (rule visit_error(2) [OF Inl assms(2)]) (use keys in auto)
    then show ?thesis using assms(1) Inl by (auto simp: topological_sort_def acyclic_def)
  next
    case (Inr order)
    have o: "order_ok t order" "fst ` set t \<subseteq> set order"
      using visit_sound(2) [OF Inr] keys by auto
    let ?ks = "filter (\<lambda>k. k \<in> fst ` set t) order"
    have sort: "topological_sort steps = Inr (map (step_at t) ?ks)"
      using assms(1) Inr by (simp add: topological_sort_def map_filter_steps)
    have "distinct ?ks" "set ?ks = fst ` set t" using o by (auto simp: order_ok_def)
    moreover have "d \<in> set xs" if "?ks = xs @ k # ys \<and> (k, d) \<in> dep_edge t \<and> d \<in> fst ` set t" for xs k ys d
      using order_ok_filter [OF o(1)] that by blast
    ultimately have E: "\<exists>ks. map (step_at t) ?ks = map (step_at t) ks \<and> distinct ks \<and> set ks = fst ` set t
        \<and> (\<forall>xs k ys d. ks = xs @ k # ys \<and> (k, d) \<in> dep_edge t \<and> d \<in> fst ` set t \<longrightarrow> d \<in> set xs)"
      by blast
    show ?thesis
    proof (intro conjI allI impI)
      show "\<not> isl (topological_sort steps) \<longleftrightarrow> acyclic (dep_edge t)"
        using sort order_ok_acyclic [OF o] by simp
      fix ordered assume "topological_sort steps = Inr ordered"
      then have "ordered = map (step_at t) ?ks" using sort by simp
      then show "\<exists>ks. ordered = map (step_at t) ks \<and> distinct ks \<and> set ks = fst ` set t
          \<and> (\<forall>xs k ys d. ks = xs @ k # ys \<and> (k, d) \<in> dep_edge t \<and> d \<in> fst ` set t \<longrightarrow> d \<in> set xs)"
        using E by (rule ssubst)
    qed
  qed
qed

lemmas sort_simps = topological_sort_def visit.simps node_key_def dget_or_def dget_def

definition sample_steps :: "jval list" where
  "sample_steps =
     [JObj [(''id'', JStr ''b''), (''artifact'', JStr ''2026-01-02-leaf''), (''depends_on'', JList [JStr ''a''])],
      JObj [(''id'', JStr ''a''), (''artifact'', JStr ''2026-01-01-leaf'')]]"

theorem topological_sort_correct_witness:
  "\<exists>t ks. collect_steps [] sample_steps = Inr t \<and> topological_sort sample_steps = Inr (map (step_at t) ks)
     \<and> ks = [JStr ''a'', JStr ''b''] \<and> acyclic (dep_edge t)"
proof -
  define t where "t = projr (collect_steps [] sample_steps)"
  have c: "collect_steps [] sample_steps = Inr t" "deps_ok t"
    "topological_sort sample_steps = Inr (map (step_at t) [JStr ''a'', JStr ''b''])"
    by (simp_all add: t_def sample_steps_def deps_ok_def step_at_def sort_simps)
  show ?thesis using topological_sort_correct [OF c(1,2)] c by auto
qed

text \<open>
  a scalar \<open>depends_on\<close> is not a dependency.  \<open>depends_on: setup\<close> instead of a list is read as the
  letters of the name, none of which is a step, so the step runs in the written order, before the step
  it names.
\<close>

theorem scalar_depends_on_ignored:
  "topological_sort
     [JObj [(''id'', JStr ''use''), (''depends_on'', JStr ''setup'')], JObj [(''id'', JStr ''setup'')]]
   = Inr [[(''id'', JStr ''use''), (''depends_on'', JStr ''setup'')], [(''id'', JStr ''setup'')]]"
  by (simp add: sort_simps)

end
