(* ===== verification/Executor.thy ===== *)
theory Executor
  imports Artifact_Machine Composite_Order
begin

text \<open>
  The executor: \<^verbatim>\<open>executor/orchestrator.py\<close> and \<^verbatim>\<open>executor/composite.py\<close>.

  Its state \<open>xstate\<close> is the world of the lifecycle, the calls made to the outside (snapshots and the
  handlers of the leaf kinds) in order, and the captures of host state.  What the outside answers is
  a function of the call and of all calls before it, so the cluster and the hosts may be in any state
  and change it with every call; a handler is seen here through the mapping it returns or the
  exception it raises.  Applying a composite applies its steps through \<open>apply\<close> again: the first
  argument of \<open>exec_apply\<close> and \<open>exec_revoke\<close> is the depth that is left, and at depth zero they raise
  \<open>RecursionError\<close> as Python does at its own limit.  No theorem depends on which depth is chosen.
\<close>

section \<open>Snapshot names\<close>

definition pve_snapname_max :: nat where
  "pve_snapname_max = 40"

definition snap_prefix :: string where
  "snap_prefix = ''hp-pre-''"

definition snap_hash_len :: nat where
  "snap_hash_len = 7"

definition snapshot_name_for :: "(string \<Rightarrow> string) \<Rightarrow> string \<Rightarrow> string" where
  "snapshot_name_for sha256_hex artifact_id =
     (let candidate = snap_prefix @ artifact_id in
      if length candidate \<le> pve_snapname_max then candidate
      else
        let digest = take snap_hash_len (sha256_hex artifact_id);
            room = pve_snapname_max - length snap_prefix - 1 - snap_hash_len
        in snap_prefix @ take room artifact_id @ ''-'' @ digest)"

section \<open>State and results\<close>

record handler_result =
  hr_success :: bool
  hr_log :: string
  hr_reason :: "string option"
  hr_pre_state :: "jval option"

record execution_result =
  er_success :: bool
  er_log :: string
  er_snapshot :: "string option"
  er_reason :: "string option"

record revoke_result =
  rr_rolled_back :: bool
  rr_reason :: string
  rr_log :: string

datatype ext_call =
    Snapshot jval jval string jval
  | Wait_task jval string
  | Run artifact_kind frontmatter string bool "jval option"

record xenv =
  x_env :: env
  x_agent :: bool
  x_snapshot :: "ext_call \<Rightarrow> ext_call list \<Rightarrow> jval res"
  x_handler :: "ext_call \<Rightarrow> ext_call list \<Rightarrow> handler_result res"
  x_proxmox_error :: "exn \<Rightarrow> bool"
  x_save_fails :: "string \<Rightarrow> bool"
  x_load_capture :: "string \<Rightarrow> exn option"

record xstate =
  xs_world :: world
  xs_calls :: "ext_call list"
  xs_captures :: "(string \<times> jval) list"

type_synonym 'a xop = "xstate \<Rightarrow> 'a res \<times> xstate"

definition bind_x :: "'a xop \<Rightarrow> ('a \<Rightarrow> 'b xop) \<Rightarrow> 'b xop" where
  "bind_x m f s = (case m s of (Inl e, s') \<Rightarrow> (Inl e, s') | (Inr x, s') \<Rightarrow> f x s')"

definition raise_x :: "exn \<Rightarrow> 'a xop" where
  "raise_x e s = (Inl e, s)"

definition return_x :: "'a \<Rightarrow> 'a xop" where
  "return_x x s = (Inr x, s)"

definition on_world :: "'a op \<Rightarrow> 'a xop" where
  "on_world m s = (case m (xs_world s) of (r, w) \<Rightarrow> (r, s\<lparr>xs_world := w\<rparr>))"

definition call_out :: "(ext_call \<Rightarrow> ext_call list \<Rightarrow> 'a res) \<Rightarrow> ext_call \<Rightarrow> 'a xop" where
  "call_out answer c s = (answer c (xs_calls s), s\<lparr>xs_calls := xs_calls s @ [c]\<rparr>)"

text \<open>\<open>try: m except Exception as exc: h(exc)\<close>.\<close>

definition catch_x :: "'a xop \<Rightarrow> (exn \<Rightarrow> 'a xop) \<Rightarrow> 'a xop" where
  "catch_x m h s = (case m s of (Inl e, s') \<Rightarrow> h e s' | (Inr x, s') \<Rightarrow> (Inr x, s'))"

section \<open>Snapshots\<close>

definition upid_of :: "jval \<Rightarrow> string option" where
  "upid_of result =
     (let d = (case result of JObj kvs \<Rightarrow> dget_or ''data'' result kvs | _ \<Rightarrow> result) in
      case d of JStr s \<Rightarrow> if prefix ''UPID:'' s then Some s else None | _ \<Rightarrow> None)"

text \<open>The snapshot and the wait for its task; the library errors become an \<open>ExecutorError\<close>.\<close>

definition take_snapshot :: "xenv \<Rightarrow> string \<Rightarrow> jval \<Rightarrow> jval \<Rightarrow> string \<Rightarrow> jval \<Rightarrow> string xop" where
  "take_snapshot xe i node vmid snap_name guest_type =
     catch_x
       (bind_x (call_out (x_snapshot xe) (Snapshot node vmid snap_name guest_type)) (\<lambda>result.
          case upid_of result of
            None \<Rightarrow> return_x snap_name
          | Some upid \<Rightarrow>
              bind_x (call_out (x_snapshot xe) (Wait_task node upid)) (\<lambda>_. return_x snap_name)))
       (\<lambda>e. raise_x (if x_proxmox_error xe e
              then ExecutorError (''Pre-apply snapshot required for '' @ i @ '' but failed: '' @ exn_str e)
              else e))"

definition maybe_snapshot :: "xenv \<Rightarrow> frontmatter \<Rightarrow> dict \<Rightarrow> string option xop" where
  "maybe_snapshot xe fm target_data =
     (if fm_requires_snapshot fm = Some False then return_x None
      else
        let vmid = dget ''vmid'' target_data; node = dget ''node'' target_data in
        if vmid = JNull \<or> \<not> truthy node
        then raise_x (ExecutorError (''Pre-apply snapshot required for '' @ fm_id fm
               @ '' but the target names no '' @ (if vmid = JNull then ''vmid'' else ''node'') @ '' to snapshot''))
        else bind_x (take_snapshot xe (fm_id fm) node vmid
               (snapshot_name_for (x_digest (e_ext (x_env xe))) (fm_id fm)) (dget ''kind'' target_data))
               (\<lambda>n. return_x (Some n)))"

section \<open>Handlers\<close>

definition needs_agent :: "artifact_kind \<Rightarrow> bool" where
  "needs_agent k = (k \<in> {ANSIBLE_PLAYBOOK, SHELL_SCRIPT, HOST_PROVISION})"

text \<open>\<open>host_adapter\<close>: the property raises when no agent hub is configured.\<close>

definition host_adapter :: "xenv \<Rightarrow> artifact_kind \<Rightarrow> unit xop" where
  "host_adapter xe k =
     (if needs_agent k \<and> \<not> x_agent xe
      then raise_x (RuntimeError ''no host adapter - the agent hub is required for host operations'')
      else return_x ())"

definition store_pre_state :: "xenv \<Rightarrow> string \<Rightarrow> jval option \<Rightarrow> unit xop" where
  "store_pre_state xe i captured s =
     (case captured of
        None \<Rightarrow> (Inr (), s)
      | Some v \<Rightarrow>
          (if i = [] \<or> x_save_fails xe i then (Inr (), s)
           else (Inr (), s\<lparr>xs_captures := AList.update i v (xs_captures s)\<rparr>)))"

section \<open>Composites\<close>

definition composite_missing :: handler_result where
  "composite_missing = \<lparr>hr_success = False, hr_log = ''No ```yaml composite-spec``` block found'',
     hr_reason = Some ''missing spec'', hr_pre_state = None\<rparr>"

definition composite_failure :: "string list \<Rightarrow> string \<Rightarrow> handler_result" where
  "composite_failure log reason =
     \<lparr>hr_success = False, hr_log = join [nl] log, hr_reason = Some reason, hr_pre_state = None\<rparr>"

definition composite_success :: "string list \<Rightarrow> handler_result" where
  "composite_success log =
     \<lparr>hr_success = True, hr_log = join [nl] log, hr_reason = None, hr_pre_state = None\<rparr>"

text \<open>The start of \<open>execute\<close>: the steps in order, or the result that ends the call.\<close>

definition composite_plan :: "env \<Rightarrow> string \<Rightarrow> (handler_result + dict list) res" where
  "composite_plan env body =
     (case extract_composite_steps (x_yaml (e_ext env)) body of
        Inl (ValueError _) \<Rightarrow> Inr (Inl composite_missing)
      | Inl e \<Rightarrow> Inl e
      | Inr v \<Rightarrow>
          (if \<not> truthy v then Inr (Inl composite_missing)
           else case bind_res (iter_steps v) topological_sort of
                  Inl (ValueError m) \<Rightarrow> Inr (Inl (composite_failure [m] m))
                | Inl e \<Rightarrow> Inl e
                | Inr ordered \<Rightarrow> Inr (Inr ordered)))"

text \<open>\<open>artifact_store.read(sub_artifact_id)\<close>; the store matches the identifier against a pattern, which
  raises on anything but a string.\<close>

definition sub_read :: "jval \<Rightarrow> doc xop" where
  "sub_read a = (case a of JStr i \<Rightarrow> on_world (read_op i)
     | _ \<Rightarrow> raise_x (TypeError ''expected string or bytes-like object''))"

definition step_name :: "dict \<Rightarrow> string" where
  "step_name st = ''['' @ py_str (dget_or ''id'' (JStr ''unknown'') st) @ '']''"

definition step_halts :: "dict \<Rightarrow> bool" where
  "step_halts st = (dget_or ''on_error'' (JStr ''halt'') st = JStr ''halt'')"

definition opt_str :: "string option \<Rightarrow> string" where
  "opt_str o' = (case o' of None \<Rightarrow> ''None'' | Some x \<Rightarrow> x)"

fun composite_apply_steps ::
  "(string \<Rightarrow> execution_result xop) \<Rightarrow> dict list \<Rightarrow> string list \<Rightarrow> bool \<Rightarrow> handler_result xop" where
  "composite_apply_steps sub [] log failed s =
     (Inr (if failed then composite_failure log ''one or more steps did not run or did not succeed''
           else composite_success log), s)"
| "composite_apply_steps sub (st # rest) log failed s =
     (let a = dget_or ''artifact'' (JStr []) st; sid = step_name st;
          log1 = log @ [sid @ '' applying sub-artifact '' @ py_str a] in
      if \<not> truthy a
      then composite_apply_steps sub rest (log @ [sid @ '' names no artifact, so nothing was run'']) True s
      else case sub_read a s of
          (Inl (FileNotFoundError m), s1) \<Rightarrow>
            (let log2 = log1 @ [sid @ '' sub-artifact '' @ py_str a @ '' not found''] in
             if step_halts st
             then (Inr (composite_failure log2 (''sub-artifact '' @ py_str a @ '' not found'')), s1)
             else composite_apply_steps sub rest log2 failed s1)
        | (Inl e, s1) \<Rightarrow> (Inl e, s1)
        | (Inr (fm, _), s1) \<Rightarrow>
            (if fm_status fm = APPLIED
             then composite_apply_steps sub rest (log1 @ [sid @ '' already applied, skipping'']) failed s1
             else case sub (py_str a) s1 of
                 (Inl e, s2) \<Rightarrow>
                   (let log2 = log1 @ [sid @ '' ERROR: '' @ exn_str e] in
                    if step_halts st then (Inr (composite_failure log2 (exn_str e)), s2)
                    else composite_apply_steps sub rest log2 True s2)
               | (Inr r, s2) \<Rightarrow>
                   (if er_success r
                    then composite_apply_steps sub rest (log1 @ [sid @ '' OK'']) failed s2
                    else
                      let log2 = log1 @ [sid @ '' FAILED: '' @ opt_str (er_reason r)] in
                      if step_halts st
                      then (Inr (composite_failure log2 (''sub-artifact '' @ py_str a @ '' failed'')), s2)
                      else composite_apply_steps sub rest log2 True s2)))"

definition composite_apply :: "xenv \<Rightarrow> (string \<Rightarrow> execution_result xop) \<Rightarrow> string \<Rightarrow> handler_result xop" where
  "composite_apply xe sub body s =
     (case composite_plan (x_env xe) body of
        Inl e \<Rightarrow> (Inl e, s)
      | Inr (Inl r) \<Rightarrow> (Inr r, s)
      | Inr (Inr ordered) \<Rightarrow> composite_apply_steps sub ordered [] False s)"

text \<open>Rollback: the sub-artifacts that are applied or approved, read before anything is reversed.\<close>

fun reversible_ids :: "dict list \<Rightarrow> string list xop" where
  "reversible_ids [] s = (Inr [], s)"
| "reversible_ids (st # rest) s =
     (let a = dget_or ''artifact'' (JStr []) st in
      if \<not> truthy a then reversible_ids rest s
      else case sub_read a s of
          (Inl (FileNotFoundError _), s1) \<Rightarrow> reversible_ids rest s1
        | (Inl e, s1) \<Rightarrow> (Inl e, s1)
        | (Inr (fm, _), s1) \<Rightarrow>
            bind_x (reversible_ids rest) (\<lambda>ids.
              return_x (if fm_status fm \<in> {APPLIED, APPROVED} then py_str a # ids else ids)) s1)"

fun composite_rollback_steps ::
  "(string \<Rightarrow> revoke_result xop) \<Rightarrow> string list \<Rightarrow> dict list \<Rightarrow> string list \<Rightarrow> string list \<Rightarrow> handler_result xop" where
  "composite_rollback_steps sub ids [] log not_reversed s =
     (Inr (if not_reversed \<noteq> []
           then composite_failure log (''these sub-artifacts were not reversed: '' @ join '', '' not_reversed)
           else composite_success log), s)"
| "composite_rollback_steps sub ids (st # rest) log not_reversed s =
     (let a = dget_or ''artifact'' (JStr []) st; sid = step_name st in
      if hash_key a = None then (Inl (TypeError ''unhashable type''), s)
      else if a \<in> JStr ` set ids then
        let i = py_str a; log1 = log @ [sid @ '' rollback sub-artifact '' @ i] in
        case sub i s of
          (Inl e, s1) \<Rightarrow>
            composite_rollback_steps sub ids rest
              (log1 @ [sid @ '' rollback failed (best-effort): '' @ exn_str e]) (not_reversed @ [i]) s1
        | (Inr r, s1) \<Rightarrow>
            composite_rollback_steps sub ids rest
              (log1 @ [sid @ '' '' @ (if rr_rolled_back r then ''reversed'' else ''NOT reversed'') @ '': '' @ rr_reason r])
              (if rr_rolled_back r then not_reversed else not_reversed @ [i]) s1
      else composite_rollback_steps sub ids rest log not_reversed s)"

definition composite_rollback :: "xenv \<Rightarrow> (string \<Rightarrow> revoke_result xop) \<Rightarrow> string \<Rightarrow> handler_result xop" where
  "composite_rollback xe sub body s =
     (case composite_plan (x_env xe) body of
        Inl e \<Rightarrow> (Inl e, s)
      | Inr (Inl r) \<Rightarrow> (Inr r, s)
      | Inr (Inr ordered) \<Rightarrow>
          bind_x (reversible_ids (rev ordered)) (\<lambda>ids.
            composite_rollback_steps sub ids (rev ordered) [] []) s)"

section \<open>Apply and replay\<close>

definition result_of :: "handler_result \<Rightarrow> execution_result" where
  "result_of h = \<lparr>er_success = hr_success h, er_log = hr_log h, er_snapshot = None, er_reason = hr_reason h\<rparr>"

definition dispatch :: "xenv \<Rightarrow> (string \<Rightarrow> execution_result xop) \<Rightarrow> frontmatter \<Rightarrow> string \<Rightarrow> execution_result xop" where
  "dispatch xe sub fm body =
     (if fm_kind fm = COMPOSITE
      then bind_x (composite_apply xe sub body) (\<lambda>h. return_x (result_of h))
      else
        bind_x (host_adapter xe (fm_kind fm)) (\<lambda>_.
        bind_x (call_out (x_handler xe) (Run (fm_kind fm) fm body False None)) (\<lambda>h.
        bind_x (if fm_kind fm = HOST_PROVISION then store_pre_state xe (fm_id fm) (hr_pre_state h) else return_x ())
          (\<lambda>_. return_x (result_of h)))))"

definition target_data :: "frontmatter \<Rightarrow> dict" where
  "target_data fm = (case fm_target fm of None \<Rightarrow> [] | Some d \<Rightarrow> d)"

definition wants_snapshot :: "frontmatter \<Rightarrow> bool" where
  "wants_snapshot fm = (fm_mutating fm
     \<and> dget_or ''kind'' (JStr []) (target_data fm) \<in> JStr ` set snapshottable_target_kinds)"

text \<open>The body of the \<open>try\<close>: the snapshot that was taken, and the result or the exception.\<close>

definition attempt :: "xenv \<Rightarrow> (string \<Rightarrow> execution_result xop) \<Rightarrow> frontmatter \<Rightarrow> string \<Rightarrow> xstate
    \<Rightarrow> (string option \<times> execution_result res) \<times> xstate" where
  "attempt xe sub fm body s =
     (case (if wants_snapshot fm then maybe_snapshot xe fm (target_data fm) else return_x None) s of
        (Inl e, s1) \<Rightarrow> ((None, Inl e), s1)
      | (Inr snap, s1) \<Rightarrow> (case dispatch xe sub fm body s1 of (r, s2) \<Rightarrow> ((snap, r), s2)))"

definition audit_x :: "xenv \<Rightarrow> string \<Rightarrow> string \<Rightarrow> string \<Rightarrow> dict \<Rightarrow> unit xop" where
  "audit_x xe action i who details = on_world (log_audit (x_env xe) action i (Some who) details)"

definition reason_detail :: "string option \<Rightarrow> dict" where
  "reason_detail r = [(''reason'', case r of None \<Rightarrow> JNull | Some m \<Rightarrow> JStr m)]"

definition or_unknown :: "string option \<Rightarrow> string" where
  "or_unknown r = (case nonempty r of None \<Rightarrow> ''unknown'' | Some m \<Rightarrow> m)"

text \<open>What \<open>apply\<close> records, per outcome of the attempt.\<close>

definition record_apply :: "xenv \<Rightarrow> string \<Rightarrow> string \<Rightarrow> string option \<Rightarrow> execution_result res \<Rightarrow> execution_result xop" where
  "record_apply xe i who snap r =
     (case r of
        Inl e \<Rightarrow>
          (let partial_log = ''Executor error: '' @ exn_str e in
           bind_x (on_world (lc_mark_failed (x_env xe) i (exn_str e) partial_log)) (\<lambda>_.
           bind_x (audit_x xe ''apply_failed'' i who [(''reason'', JStr (exn_str e))]) (\<lambda>_.
             return_x \<lparr>er_success = False, er_log = partial_log, er_snapshot = snap, er_reason = Some (exn_str e)\<rparr>)))
      | Inr res \<Rightarrow>
          bind_x (if er_success res
             then bind_x (on_world (lc_mark_applied (x_env xe) i (er_log res))) (\<lambda>_.
                  audit_x xe ''apply'' i who (case nonempty snap of None \<Rightarrow> [] | Some n \<Rightarrow> [(''snapshot_id'', JStr n)]))
             else bind_x (on_world (lc_mark_failed (x_env xe) i (or_unknown (er_reason res)) (er_log res))) (\<lambda>_.
                  audit_x xe ''apply_failed'' i who (reason_detail (er_reason res))))
            (\<lambda>_. return_x (res\<lparr>er_snapshot := snap\<rparr>)))"

fun exec_apply :: "xenv \<Rightarrow> nat \<Rightarrow> string \<Rightarrow> string \<Rightarrow> execution_result xop" where
  "exec_apply xe 0 who i s = (Inl RecursionError, s)"
| "exec_apply xe (Suc n) who i s =
     bind_x (on_world (read_op i)) (\<lambda>(fm, body).
       if fm_kind fm = KB_NOTE
       then return_x \<lparr>er_success = True, er_log = ''kb-note auto-applied on propose'', er_snapshot = None, er_reason = None\<rparr>
       else if fm_status fm \<noteq> APPROVED
       then raise_x (ExecutorError (''Artifact '' @ i @ '' status is '' @ status_value (fm_status fm) @ '', expected approved''))
       else if body_hash (x_env xe) body \<noteq> fm_hash fm
       then raise_x (TamperError (''Hash mismatch for '' @ i @ '': body tampered after approval''))
       else (\<lambda>s1. case attempt xe (exec_apply xe n ''composite'') fm body s1 of
               ((snap, r), s2) \<Rightarrow> record_apply xe i who snap r s2)) s"

definition record_replay ::
  "xenv \<Rightarrow> string \<Rightarrow> artifact_status \<Rightarrow> string option \<Rightarrow> execution_result res \<Rightarrow> execution_result xop" where
  "record_replay xe i status snap r =
     (case r of
        Inl e \<Rightarrow>
          (let partial_log = ''Replay error: '' @ exn_str e in
           bind_x (on_world (lc_mark_failed (x_env xe) i (exn_str e) partial_log)) (\<lambda>_.
           bind_x (audit_x xe ''replay_failed'' i ''replay'' [(''reason'', JStr (exn_str e))]) (\<lambda>_.
             return_x \<lparr>er_success = False, er_log = partial_log, er_snapshot = snap, er_reason = Some (exn_str e)\<rparr>)))
      | Inr res \<Rightarrow>
          bind_x (if er_success res
             then bind_x (if status = APPROVED then on_world (lc_mark_applied (x_env xe) i (er_log res)) else return_x ())
                    (\<lambda>_. audit_x xe ''replay'' i ''replay'' [])
             else bind_x (if status = APPROVED
                          then on_world (lc_mark_failed (x_env xe) i (or_unknown (er_reason res)) (er_log res))
                          else return_x ())
                    (\<lambda>_. audit_x xe ''replay_failed'' i ''replay'' (reason_detail (er_reason res))))
            (\<lambda>_. return_x (res\<lparr>er_snapshot := snap\<rparr>)))"

definition replay :: "xenv \<Rightarrow> nat \<Rightarrow> string \<Rightarrow> execution_result xop" where
  "replay xe n i =
     bind_x (on_world (read_op i)) (\<lambda>(fm, body).
       if fm_kind fm = KB_NOTE
       then return_x \<lparr>er_success = True, er_log = ''kb-note: no-op replay'', er_snapshot = None, er_reason = None\<rparr>
       else if fm_replay_safe fm = Some False \<and> fm_status fm = APPLIED
       then raise_x (ExecutorError (''Artifact '' @ i @ '' is not replay-safe. Revoke and create a new artifact.''))
       else if fm_idempotence fm = Some (idempotence_value REPLAY_ONLY) \<and> fm_status fm = APPLIED
       then raise_x (ExecutorError (''Artifact '' @ i @ '' is replay-only. Use revoke + new artifact instead.''))
       else if fm_status fm \<notin> {APPROVED, APPLIED}
       then raise_x (ExecutorError (''Artifact '' @ i @ '' status is '' @ status_value (fm_status fm) @ '', cannot replay''))
       else if body_hash (x_env xe) body \<noteq> fm_hash fm
       then raise_x (TamperError (''Hash mismatch for '' @ i @ '': body tampered after approval''))
       else (\<lambda>s1. case attempt xe (exec_apply xe n ''composite'') fm body s1 of
               ((snap, r), s2) \<Rightarrow> record_replay xe i (fm_status fm) snap r s2))"

section \<open>Revoke\<close>

definition rollback_outcome :: "handler_result res \<Rightarrow> revoke_result" where
  "rollback_outcome r =
     (case r of
        Inl e \<Rightarrow> \<lparr>rr_rolled_back = False, rr_reason = ''rollback failed: '' @ exn_str e, rr_log = []\<rparr>
      | Inr h \<Rightarrow>
          (if \<not> hr_success h
           then \<lparr>rr_rolled_back = False,
                  rr_reason = ''rollback did not run: ''
                    @ (case nonempty (hr_reason h) of Some m \<Rightarrow> m
                       | None \<Rightarrow> if hr_log h \<noteq> [] then hr_log h else ''no reason given''),
                  rr_log = []\<rparr>
           else \<lparr>rr_rolled_back = True, rr_reason = ''rollback executed'', rr_log = hr_log h\<rparr>))"

definition load_capture :: "xenv \<Rightarrow> frontmatter \<Rightarrow> jval option xop" where
  "load_capture xe fm s =
     (if fm_kind fm \<noteq> HOST_PROVISION then (Inr None, s)
      else case x_load_capture xe (fm_id fm) of
             Some e \<Rightarrow> (Inl e, s)
           | None \<Rightarrow> (Inr (map_of (xs_captures s) (fm_id fm)), s))"

definition rollback_handler :: "xenv \<Rightarrow> (string \<Rightarrow> revoke_result xop) \<Rightarrow> frontmatter \<Rightarrow> string \<Rightarrow> handler_result xop" where
  "rollback_handler xe sub fm body =
     (if fm_kind fm = COMPOSITE then composite_rollback xe sub body
      else
        bind_x (host_adapter xe (fm_kind fm)) (\<lambda>_.
        bind_x (load_capture xe fm) (\<lambda>pre.
          call_out (x_handler xe) (Run (fm_kind fm) fm body True pre))))"

definition run_rollback :: "xenv \<Rightarrow> (string \<Rightarrow> revoke_result xop) \<Rightarrow> frontmatter \<Rightarrow> string \<Rightarrow> revoke_result xop" where
  "run_rollback xe sub fm body s =
     (if fm_kind fm \<notin> {ANSIBLE_PLAYBOOK, PROXMOX_API_SEQUENCE, HTTP_SEQUENCE, SHELL_SCRIPT, COMPOSITE, HOST_PROVISION}
      then (Inr \<lparr>rr_rolled_back = False,
              rr_reason = ''kind '' @ repr_str (kind_value (fm_kind fm)) @ '' has no rollback path'', rr_log = []\<rparr>, s)
      else case rollback_handler xe sub fm body s of (r, s1) \<Rightarrow> (Inr (rollback_outcome r), s1))"

definition revoke_rollback :: "xenv \<Rightarrow> (string \<Rightarrow> revoke_result xop) \<Rightarrow> frontmatter \<Rightarrow> string \<Rightarrow> revoke_result xop" where
  "revoke_rollback xe sub fm body =
     (if fm_kind fm = KB_NOTE
      then return_x \<lparr>rr_rolled_back = False, rr_reason = ''no rollback for this artifact'', rr_log = []\<rparr>
      else if fm_rollback fm = Some True then run_rollback xe sub fm body
      else if kind_can_roll_back (fm_kind fm)
      then return_x \<lparr>rr_rolled_back = False,
             rr_reason = ''the artifact carries no rollback section; the host keeps the change'', rr_log = []\<rparr>
      else return_x \<lparr>rr_rolled_back = False,
             rr_reason = ''kind '' @ repr_str (kind_value (fm_kind fm)) @ '' cannot reverse itself; the host keeps the change'',
             rr_log = []\<rparr>)"

definition revoke_details :: "string option \<Rightarrow> revoke_result \<Rightarrow> dict" where
  "revoke_details reason outcome =
     [(''reason'', case reason of None \<Rightarrow> JNull | Some m \<Rightarrow> JStr m),
      (''outcome'', JStr (if rr_rolled_back outcome then ''reversed'' else ''relabelled'')),
      (''rollback_detail'', JStr (rr_reason outcome))]"

fun exec_revoke :: "xenv \<Rightarrow> nat \<Rightarrow> string \<Rightarrow> string option \<Rightarrow> string \<Rightarrow> revoke_result xop" where
  "exec_revoke xe 0 user reason i s = (Inl RecursionError, s)"
| "exec_revoke xe (Suc n) user reason i s =
     bind_x (on_world (read_op i)) (\<lambda>(fm, body).
     bind_x (revoke_rollback xe (exec_revoke xe n ''composite-rollback'' (Some ''composite rollback'')) fm body) (\<lambda>outcome.
     bind_x (on_world (lc_revoke (x_env xe) i user reason)) (\<lambda>_.
     bind_x (audit_x xe ''revoke'' i user (revoke_details reason outcome)) (\<lambda>_.
       return_x outcome)))) s"

end
