(* ===== verification/Executor_Safety.thy ===== *)
theory Executor_Safety
  imports Executor Artifact_Cascade
begin

text \<open>
  What the executor guarantees: nothing runs on a host or a cluster without an approval, a requested
  snapshot comes first, a composite that reports success has applied its steps, and a revoke reports
  a reversal only when the rollback ran.
\<close>

section \<open>The executor monad\<close>

lemma bind_x_eq: "bind_x m f s = (r, s') \<longleftrightarrow>
    (\<exists>e. m s = (Inl e, s') \<and> r = Inl e) \<or> (\<exists>x s1. m s = (Inr x, s1) \<and> f x s1 = (r, s'))"
  by (auto simp: bind_x_def split: prod.splits sum.splits)

lemma bind_x_simps [simp, err_simps]:
  "m s = (Inl e, s1) \<Longrightarrow> bind_x m f s = (Inl e, s1)"
  "m s = (Inr x, s1) \<Longrightarrow> bind_x m f s = f x s1"
  by (simp_all add: bind_x_def)

lemma x_simps [simp, err_simps]:
  "return_x x s = (Inr x, s)" "raise_x e s = (Inl e, s)"
  "call_out ans c s = (ans c (xs_calls s), s\<lparr>xs_calls := xs_calls s @ [c]\<rparr>)"
  by (simp_all add: return_x_def raise_x_def call_out_def)

lemma read_x [simp, err_simps]: "on_world (read_op i) s = (store_read (w_files (xs_world s)) i, s)"
  by (simp add: on_world_def read_op_def)

abbreviation xfiles :: "xstate \<Rightarrow> files" where
  "xfiles s \<equiv> w_files (xs_world s)"

lemma on_world_eq: "on_world m s = (r, s') \<longleftrightarrow> (\<exists>w. m (xs_world s) = (r, w) \<and> s' = s\<lparr>xs_world := w\<rparr>)"
  by (auto simp: on_world_def split: prod.splits)

section \<open>What an apply may change\<close>

text \<open>The only change an apply makes to the store: an approved artifact becomes applied or failed.\<close>

definition retired :: "doc option \<Rightarrow> doc option \<Rightarrow> bool" where
  "retired d d' =
     (d' = d \<or> (\<exists>fm b fm' b'. d = Some (fm, b) \<and> fm_status fm = APPROVED
                  \<and> d' = Some (fm', b') \<and> fm_kind fm' = fm_kind fm \<and> fm_status fm' \<in> {APPLIED, FAILED}))"

definition retires :: "files \<Rightarrow> files \<Rightarrow> bool" where
  "retires fs fs' = (\<forall>i. retired (map_of fs i) (map_of fs' i))"

lemma retired_trans: "retired d d1 \<Longrightarrow> retired d1 d2 \<Longrightarrow> retired d d2"
  by (auto simp: retired_def)

lemma retires_refl [simp, intro]: "retires fs fs"
  by (simp add: retires_def retired_def)

lemma retires_trans [trans]: "retires fs fs1 \<Longrightarrow> retires fs1 fs2 \<Longrightarrow> retires fs fs2"
  unfolding retires_def using retired_trans by blast

lemma retiresD: "retires fs fs' \<Longrightarrow> retired (map_of fs i) (map_of fs' i)"
  by (simp add: retires_def)

lemma retires_approved:
  "retires fs fs' \<Longrightarrow> map_of fs' i = Some (fm, b) \<Longrightarrow> fm_status fm = APPROVED \<Longrightarrow> map_of fs i = Some (fm, b)"
  by (drule retiresD [of _ _ i]) (auto simp: retired_def)

lemma retires_kept:
  "retires fs fs' \<Longrightarrow> map_of fs i = Some (fm, b) \<Longrightarrow> fm_status fm \<noteq> APPROVED \<Longrightarrow> map_of fs' i = Some (fm, b)"
  by (drule retiresD [of _ _ i]) (auto simp: retired_def)

lemma retires_absent: "retires fs fs' \<Longrightarrow> map_of fs' i = None \<longleftrightarrow> map_of fs i = None"
  by (drule retiresD [of _ _ i]) (auto simp: retired_def)

lemma retires_write:
  "map_of fs i = Some (fm, b) \<Longrightarrow> fm_status fm = APPROVED \<Longrightarrow> fm_kind fm' = fm_kind fm \<Longrightarrow>
     fm_status fm' \<in> {APPLIED, FAILED} \<Longrightarrow> retires fs (store_write fs i fm' b')"
  by (auto simp: retires_def retired_def)

text \<open>The calls an approval licenses: the handler of an approved artifact whose body is the approved
  one, and the snapshot of its target.\<close>

definition approved_doc :: "env \<Rightarrow> files \<Rightarrow> frontmatter \<Rightarrow> string \<Rightarrow> bool" where
  "approved_doc env fs fm body =
     (fm_status fm = APPROVED \<and> body_hash env body = fm_hash fm \<and> (\<exists>i. map_of fs i = Some (fm, body)))"

fun licensed :: "env \<Rightarrow> files \<Rightarrow> ext_call \<Rightarrow> bool" where
  "licensed env fs (Run k fm body rollback pre) = (\<not> rollback \<and> k = fm_kind fm \<and> approved_doc env fs fm body)"
| "licensed env fs (Snapshot node vmid name kind) =
     (\<exists>fm body. approved_doc env fs fm body \<and> node = dget ''node'' (target_data fm)
        \<and> vmid = dget ''vmid'' (target_data fm)
        \<and> name = snapshot_name_for (x_digest (e_ext env)) (fm_id fm))"
| "licensed env fs (Wait_task node upid) = True"

lemma approved_doc_retires: "retires fs fs' \<Longrightarrow> approved_doc env fs' fm body \<Longrightarrow> approved_doc env fs fm body"
  unfolding approved_doc_def using retires_approved by blast

lemma licensed_retires: "retires fs fs' \<Longrightarrow> licensed env fs' c \<Longrightarrow> licensed env fs c"
  by (cases c) (simp_all, blast intro: approved_doc_retires, blast intro: approved_doc_retires)

definition by_approval :: "env \<Rightarrow> xstate \<Rightarrow> xstate \<Rightarrow> bool" where
  "by_approval env s s' =
     (retires (xfiles s) (xfiles s')
      \<and> (\<exists>new. xs_calls s' = xs_calls s @ new \<and> (\<forall>c\<in>set new. licensed env (xfiles s) c)))"

lemma by_approval_refl [simp, intro]: "by_approval env s s"
  by (simp add: by_approval_def)

lemma by_approval_trans [trans]:
  assumes "by_approval env s s1" and "by_approval env s1 s2"
  shows "by_approval env s s2"
proof -
  obtain new1 new2 where n: "xs_calls s1 = xs_calls s @ new1" "\<forall>c\<in>set new1. licensed env (xfiles s) c"
    "xs_calls s2 = xs_calls s1 @ new2" "\<forall>c\<in>set new2. licensed env (xfiles s1) c"
    using assms by (auto simp: by_approval_def)
  moreover have "retires (xfiles s) (xfiles s1)" using assms(1) by (simp add: by_approval_def)
  ultimately have "xs_calls s2 = xs_calls s @ (new1 @ new2)" "\<forall>c\<in>set (new1 @ new2). licensed env (xfiles s) c"
    using licensed_retires by auto
  then show ?thesis using assms retires_trans unfolding by_approval_def by blast
qed

lemma by_approval_call: "licensed env (xfiles s) c \<Longrightarrow> by_approval env s (s\<lparr>xs_calls := xs_calls s @ [c]\<rparr>)"
  by (simp add: by_approval_def)

lemma by_approval_world:
  "retires (xfiles s) (w_files w) \<Longrightarrow> by_approval env s (s\<lparr>xs_world := w\<rparr>)"
  by (simp add: by_approval_def)

lemma keeps_notify [simp, intro]: "keeps_files (notify env n i)"
  by (auto simp: keeps_files_def notify_def swallow_def bind_op_def read_op_def emit_event_def
      split: prod.splits sum.splits option.splits)

lemma lc_then_files:
  assumes "bind_op m (\<lambda>_. notify env n i) w = (r, w')"
  shows "\<exists>r1 w1. m w = (r1, w1) \<and> w_files w' = w_files w1 \<and> (\<forall>x. r = Inr x \<longrightarrow> (\<exists>y. r1 = Inr y))"
proof -
  obtain r1 w1 where m: "m w = (r1, w1)" by fastforce
  show ?thesis
  proof (cases r1)
    case (Inl e)
    then show ?thesis using m assms by auto
  next
    case (Inr y)
    then have "notify env n i w1 = (r, w')" using assms m by simp
    then have "w_files w' = w_files w1" using keeps_filesD [OF keeps_notify] by metis
    then show ?thesis using m Inr by auto
  qed
qed

lemma valid_into_applied: "APPLIED \<in> valid_transitions st \<longleftrightarrow> st = APPROVED"
  and valid_into_failed: "FAILED \<in> valid_transitions st \<longleftrightarrow> st = APPROVED"
  and valid_into_revoked: "REVOKED \<in> valid_transitions st \<longleftrightarrow> st \<in> {APPROVED, FAILED, APPLIED}"
  by (cases st; simp)+

text \<open>A mark either leaves the store alone or retires the approved artifact; when it returns, it did.\<close>

definition marked :: "artifact_status \<Rightarrow> string \<Rightarrow> files \<Rightarrow> 'a res \<Rightarrow> files \<Rightarrow> bool" where
  "marked st i fs r fs' =
     (fs' = fs \<and> isl r
      \<or> (\<exists>fm b fm' b'. map_of fs i = Some (fm, b) \<and> fm_status fm = APPROVED \<and> fm_kind fm' = fm_kind fm
           \<and> fm_status fm' = st \<and> fs' = store_write fs i fm' b'))"

lemma marked_write:
  "map_of fs i = Some (fm, b) \<Longrightarrow> fm_status fm = APPROVED \<Longrightarrow> fs' = store_write fs i fm' b' \<Longrightarrow>
     fm_kind fm' = fm_kind fm \<Longrightarrow> fm_status fm' = st \<Longrightarrow> marked st i fs r fs'"
  unfolding marked_def by blast

lemma mark_applied_marks:
  assumes "mark_applied env i log w = (r, w')"
  shows "marked APPLIED i (w_files w) r (w_files w')"
  using assms unfolding mark_applied_def
proof (cases rule: transition_op_cases)
  case (allowed fm b)
  have "w_files w' = store_write (w_files w) i (fm\<lparr>fm_status := APPLIED, fm_applied_at := Some (x_now (e_ext env)),
      fm_hash := body_hash env (append_log b log)\<rparr>) (append_log b log)"
    using allowed(4) by (auto simp: Let_def allowed(1) dest!: write_then_files)
  moreover have "fm_status fm = APPROVED" using allowed(3) by (simp add: valid_into_applied)
  ultimately show ?thesis by (intro marked_write [OF allowed(2)]) (assumption, assumption, simp_all)
qed (auto simp: marked_def)

lemma mark_failed_marks:
  assumes "mark_failed env i rsn log w = (r, w')"
  shows "marked FAILED i (w_files w) r (w_files w')"
  using assms unfolding mark_failed_def
proof (cases rule: transition_op_cases)
  case (allowed fm b)
  let ?b = "if log \<noteq> [] then append_log b log else b"
  have "w_files w' = store_write (w_files w) i (fm\<lparr>fm_status := FAILED, fm_failed_at := Some (x_now (e_ext env)),
      fm_failure_reason := Some rsn, fm_hash := body_hash env ?b\<rparr>) ?b"
    using allowed(4) by (auto simp: Let_def allowed(1) dest!: write_then_files)
  moreover have "fm_status fm = APPROVED" using allowed(3) by (simp add: valid_into_failed)
  ultimately show ?thesis by (intro marked_write [OF allowed(2)]) (assumption, assumption, simp_all)
qed (auto simp: marked_def)

lemma lc_marks:
  assumes "bind_op m (\<lambda>_. notify env n i) w = (r, w')" and "st \<in> {APPLIED, FAILED}"
    and "\<And>r1 w1. m w = (r1, w1) \<Longrightarrow> marked st i (w_files w) r1 (w_files w1)"
  shows "retires (w_files w) (w_files w')"
    and "r = Inr u \<Longrightarrow> \<exists>fm b. map_of (w_files w') i = Some (fm, b) \<and> fm_status fm = st"
proof -
  obtain r1 w1 where m: "m w = (r1, w1)" and f: "w_files w' = w_files w1"
    and r: "\<forall>x. r = Inr x \<longrightarrow> (\<exists>y. r1 = Inr y)"
    using lc_then_files [OF assms(1)] by (elim exE conjE) rule
  show "retires (w_files w) (w_files w')"
    using assms(3) [OF m] assms(2) f by (auto simp: marked_def intro: retires_write)
  show "\<exists>fm b. map_of (w_files w') i = Some (fm, b) \<and> fm_status fm = st" if "r = Inr u"
    using assms(3) [OF m] f r that by (auto simp: marked_def)
qed

lemma mark_applied_files:
  assumes "lc_mark_applied env i log w = (r, w')"
  shows "retires (w_files w) (w_files w')"
    and "r = Inr u \<Longrightarrow> \<exists>fm b. map_of (w_files w') i = Some (fm, b) \<and> fm_status fm = APPLIED"
  using lc_marks [OF assms [unfolded lc_mark_applied_def], of APPLIED] mark_applied_marks by blast+

lemma mark_failed_files:
  assumes "lc_mark_failed env i rsn log w = (r, w')"
  shows "retires (w_files w) (w_files w')"
    and "r = Inr u \<Longrightarrow> \<exists>fm b. map_of (w_files w') i = Some (fm, b) \<and> fm_status fm = FAILED"
  using lc_marks [OF assms [unfolded lc_mark_failed_def], of FAILED] mark_failed_marks by blast+

section \<open>Operations that stay within the approval\<close>

definition guarded :: "env \<Rightarrow> 'a xop \<Rightarrow> bool" where
  "guarded env m = (\<forall>s r s'. m s = (r, s') \<longrightarrow> by_approval env s s')"

lemma guardedD: "guarded env m \<Longrightarrow> m s = (r, s') \<Longrightarrow> by_approval env s s'"
  unfolding guarded_def by blast

lemma guarded_simple [simp, intro]:
  "guarded env (return_x x)" "guarded env (raise_x e)" "guarded env (on_world (read_op i))"
  by (auto simp: guarded_def)

lemma guarded_bind [intro]:
  assumes "guarded env m" and "\<And>x. guarded env (f x)"
  shows "guarded env (bind_x m f)"
  unfolding guarded_def bind_x_eq
proof (intro allI impI, elim disjE exE conjE)
  fix s r s' e assume "m s = (Inl e, s')"
  then show "by_approval env s s'" by (rule guardedD [OF assms(1)])
next
  fix s r s' x s1 assume "m s = (Inr x, s1)" and "f x s1 = (r, s')"
  then show "by_approval env s s'" using guardedD [OF assms(1)] guardedD [OF assms(2)] by_approval_trans by blast
qed

lemma guarded_world:
  assumes "\<And>w r w'. m w = (r, w') \<Longrightarrow> retires (w_files w) (w_files w')"
  shows "guarded env (on_world m)"
  using assms by (auto simp: guarded_def on_world_eq intro!: by_approval_world)

lemma guarded_marks [simp, intro]:
  "guarded e (on_world (lc_mark_applied env i log))" "guarded e (on_world (lc_mark_failed env i rsn log))"
  "guarded e (audit_x xe a i who d)"
  unfolding audit_x_def
  by (blast intro: guarded_world mark_applied_files(1) mark_failed_files(1))+
     (auto intro!: guarded_world dest!: keeps_filesD [rotated])

lemma guarded_record [intro]: "guarded e (record_apply xe i who snap r)" "guarded e (record_replay xe i st snap r)"
  unfolding record_apply_def record_replay_def Let_def by (auto split: sum.splits intro!: guarded_bind)

section \<open>Nothing runs without an approval\<close>

lemma guarded_sub_read [intro]: "guarded env (sub_read a)"
  by (auto simp: guarded_def sub_read_def split: jval.splits)

lemma sub_read_state: "sub_read a s = (r, s') \<Longrightarrow> s' = s"
  by (auto simp: sub_read_def split: jval.splits)

text \<open>The ways one step of a composite goes.\<close>

lemma composite_step_cases:
  fixes st sub rest
  defines "a \<equiv> dget_or ''artifact'' (JStr []) st"
  assumes "composite_apply_steps sub (st # rest) log failed s = (r, s')"
  obtains (unnamed) l where "composite_apply_steps sub rest l True s = (r, s')"
    | (error) e where "r = Inl e" "s' = s"
    | (halted) h r1 where "r = Inr h" "\<not> hr_success h" "s' = s \<or> sub (py_str a) s = (r1, s')"
    | (missing) m l where "truthy a" "sub_read a s = (Inl (FileNotFoundError m), s)" "\<not> step_halts st"
        "composite_apply_steps sub rest l failed s = (r, s')"
    | (already) fm b l where "truthy a" "sub_read a s = (Inr (fm, b), s)" "fm_status fm = APPLIED"
        "composite_apply_steps sub rest l failed s = (r, s')"
    | (ran) fm b x s1 l where "truthy a" "sub_read a s = (Inr (fm, b), s)" "sub (py_str a) s = (Inr x, s1)"
        "er_success x" "composite_apply_steps sub rest l failed s1 = (r, s')"
    | (failed) r1 s1 l where "sub (py_str a) s = (r1, s1)" "composite_apply_steps sub rest l True s1 = (r, s')"
proof -
  obtain r1 s1 where read: "sub_read a s = (r1, s1)" by fastforce
  then have s1: "s1 = s" by (rule sub_read_state)
  note run = assms(2) [unfolded composite_apply_steps.simps(2) Let_def, folded a_def, unfolded read s1 prod.case]
  show thesis
  proof (cases "truthy a")
    case False
    then show thesis using run unnamed by simp
  next
    case named: True
    note run' = run [simplified named if_False not_True_eq_False]
    show thesis
    proof (cases r1)
      case (Inl e)
      show thesis
      proof (cases "\<exists>m. e = FileNotFoundError m")
        case True
        then obtain m where e: "e = FileNotFoundError m" ..
        show thesis
        proof (cases "step_halts st")
          case True
          then show thesis using run' e Inl by (intro halted) (auto simp: composite_failure_def)
        next
          case False
          then show thesis using run' e Inl missing [OF named] read s1 by simp
        qed
      next
        case False
        then show thesis using run' Inl error by (cases e) auto
      qed
    next
      case (Inr d)
      obtain fm b where d: "d = (fm, b)" by fastforce
      show thesis
      proof (cases "fm_status fm = APPLIED")
        case True
        then show thesis using run' Inr d already [OF named] read s1 by simp
      next
        case notyet: False
        obtain r2 s2 where sub: "sub (py_str a) s = (r2, s2)" by fastforce
        show thesis
        proof (cases r2)
          case (Inl e)
          show thesis
          proof (cases "step_halts st")
            case True
            then show thesis using run' Inr d notyet sub Inl by (intro halted) (auto simp: composite_failure_def)
          next
            case False
            then show thesis using run' Inr d notyet sub Inl failed by simp
          qed
        next
          case (Inr x)
          show thesis
          proof (cases "er_success x")
            case True
            then show thesis using run' \<open>r1 = Inr d\<close> d notyet sub Inr ran [OF named] read s1 by simp
          next
            case bad: False
            show thesis
            proof (cases "step_halts st")
              case True
              then show thesis using run' \<open>r1 = Inr d\<close> d notyet sub Inr bad
                by (intro halted) (auto simp: composite_failure_def)
            next
              case False
              then show thesis using run' \<open>r1 = Inr d\<close> d notyet sub Inr bad failed by simp
            qed
          qed
        qed
      qed
    qed
  qed
qed

lemma composite_steps_guarded:
  assumes "\<And>i. guarded env (sub i)"
  shows "composite_apply_steps sub steps log failed s = (r, s') \<Longrightarrow> by_approval env s s'"
proof (induction steps arbitrary: log failed s)
  case (Cons st rest)
  from Cons.prems show ?case
  proof (cases rule: composite_step_cases)
    case (halted h r1)
    then show ?thesis using guardedD [OF assms] by auto
  next
    case (ran fm b x s1 l)
    then show ?thesis using guardedD [OF assms] Cons.IH by_approval_trans by blast
  next
    case (failed r1 s1 l)
    then show ?thesis using guardedD [OF assms] Cons.IH by_approval_trans by blast
  qed (auto intro: Cons.IH)
qed simp

lemma store_pre_state_by: "store_pre_state xe i c s = (r, s') \<Longrightarrow> by_approval env s s'"
  by (auto simp: store_pre_state_def by_approval_def split: option.splits if_splits)

lemma guarded_helpers [intro]: "guarded env (store_pre_state xe i c)" "guarded env (host_adapter xe k)"
  by (auto simp: guarded_def host_adapter_def dest: store_pre_state_by)

lemma dispatch_by:
  assumes "\<And>i. guarded (x_env xe) (sub i)" and "approved_doc (x_env xe) (xfiles s) fm body"
    and "dispatch xe sub fm body s = (r, s')"
  shows "by_approval (x_env xe) s s'"
proof (cases "fm_kind fm = COMPOSITE")
  case True
  have "guarded (x_env xe) (composite_apply xe sub body)"
    unfolding guarded_def composite_apply_def
    by (auto split: sum.splits dest: composite_steps_guarded [OF assms(1)])
  then have "guarded (x_env xe) (bind_x (composite_apply xe sub body) (\<lambda>h. return_x (result_of h)))" by blast
  then show ?thesis using assms(3) True by (auto simp: dispatch_def dest: guardedD)
next
  case False
  let ?c = "Run (fm_kind fm) fm body False None"
  let ?s = "s\<lparr>xs_calls := xs_calls s @ [?c]\<rparr>"
  have call: "by_approval (x_env xe) s ?s" using assms(2) by (intro by_approval_call) simp
  have tail: "guarded (x_env xe) (bind_x (if fm_kind fm = HOST_PROVISION then store_pre_state xe (fm_id fm) (hr_pre_state h)
      else return_x ()) (\<lambda>_. return_x (result_of h)))" for h
    by auto
  show ?thesis
  proof (cases "needs_agent (fm_kind fm) \<and> \<not> x_agent xe")
    case True
    then show ?thesis using assms(3) False by (simp add: dispatch_def host_adapter_def)
  next
    case agent: False
    show ?thesis
    proof (cases "x_handler xe ?c (xs_calls s)")
      case (Inl e)
      then show ?thesis using assms(3) False agent call by (simp add: dispatch_def host_adapter_def)
    next
      case (Inr h)
      then have "bind_x (if fm_kind fm = HOST_PROVISION then store_pre_state xe (fm_id fm) (hr_pre_state h)
          else return_x ()) (\<lambda>_. return_x (result_of h)) ?s = (r, s')"
        using assms(3) False agent by (simp add: dispatch_def host_adapter_def)
      then show ?thesis using call guardedD [OF tail] by_approval_trans by blast
    qed
  qed
qed

definition snapshot_call :: "xenv \<Rightarrow> frontmatter \<Rightarrow> ext_call" where
  "snapshot_call xe fm = Snapshot (dget ''node'' (target_data fm)) (dget ''vmid'' (target_data fm))
     (snapshot_name_for (x_digest (e_ext (x_env xe))) (fm_id fm)) (dget ''kind'' (target_data fm))"

lemma take_snapshot_shape:
  assumes "take_snapshot xe i node vmid name kind s = (r, s')"
  shows "\<exists>waits. s' = s\<lparr>xs_calls := xs_calls s @ Snapshot node vmid name kind # waits\<rparr>
    \<and> (\<forall>c\<in>set waits. \<exists>n u. c = Wait_task n u)
    \<and> (\<forall>x. r = Inr x \<longrightarrow> x = name \<and> \<not> isl (x_snapshot xe (Snapshot node vmid name kind) (xs_calls s)))"
proof (cases "x_snapshot xe (Snapshot node vmid name kind) (xs_calls s)")
  case (Inl e)
  then have "s' = s\<lparr>xs_calls := xs_calls s @ Snapshot node vmid name kind # []\<rparr> \<and> isl r"
    using assms by (auto simp: take_snapshot_def catch_x_def)
  then show ?thesis by (intro exI [of _ "[]"]) auto
next
  case (Inr v)
  show ?thesis
  proof (cases "upid_of v")
    case None
    then have "s' = s\<lparr>xs_calls := xs_calls s @ Snapshot node vmid name kind # []\<rparr> \<and> r = Inr name"
      using assms Inr by (simp add: take_snapshot_def catch_x_def)
    then show ?thesis using Inr by (intro exI [of _ "[]"]) auto
  next
    case (Some u)
    have "s' = s\<lparr>xs_calls := xs_calls s @ Snapshot node vmid name kind # [Wait_task node u]\<rparr>
        \<and> (\<forall>x. r = Inr x \<longrightarrow> x = name)"
      using assms Inr Some
      by (cases "x_snapshot xe (Wait_task node u) (xs_calls s @ [Snapshot node vmid name kind])")
         (auto simp: take_snapshot_def catch_x_def)
    then show ?thesis using Inr by (intro exI [of _ "[Wait_task node u]"]) auto
  qed
qed

lemma maybe_snapshot_shape:
  assumes "maybe_snapshot xe fm (target_data fm) s = (r, s')"
  obtains (none) "s' = s" "\<And>x. r = Inr x \<Longrightarrow> x = None \<and> fm_requires_snapshot fm = Some False"
    | (taken) waits where "s' = s\<lparr>xs_calls := xs_calls s @ snapshot_call xe fm # waits\<rparr>"
        "\<forall>c\<in>set waits. \<exists>n u. c = Wait_task n u"
        "\<And>x. r = Inr x \<Longrightarrow> x = Some (snapshot_name_for (x_digest (e_ext (x_env xe))) (fm_id fm))
             \<and> \<not> isl (x_snapshot xe (snapshot_call xe fm) (xs_calls s))"
proof (cases "fm_requires_snapshot fm = Some False
    \<or> dget ''vmid'' (target_data fm) = JNull \<or> \<not> truthy (dget ''node'' (target_data fm))")
  case True
  then show thesis using assms by (intro none) (auto simp: maybe_snapshot_def Let_def split: if_splits)
next
  case False
  let ?name = "snapshot_name_for (x_digest (e_ext (x_env xe))) (fm_id fm)"
  obtain r1 s1 where t: "take_snapshot xe (fm_id fm) (dget ''node'' (target_data fm)) (dget ''vmid'' (target_data fm))
      ?name (dget ''kind'' (target_data fm)) s = (r1, s1)" by fastforce
  have r: "s' = s1 \<and> (\<forall>x. r = Inr x \<longrightarrow> (\<exists>y. r1 = Inr y \<and> x = Some y))"
    using assms t False by (cases r1) (auto simp: maybe_snapshot_def Let_def)
  obtain waits where w: "s1 = s\<lparr>xs_calls := xs_calls s @ snapshot_call xe fm # waits\<rparr>"
      "\<forall>c\<in>set waits. \<exists>n u. c = Wait_task n u"
      "\<forall>x. r1 = Inr x \<longrightarrow> x = ?name \<and> \<not> isl (x_snapshot xe (snapshot_call xe fm) (xs_calls s))"
    using take_snapshot_shape [OF t] unfolding snapshot_call_def by blast
  show thesis using r w by (intro taken [of waits]) auto
qed

lemma maybe_snapshot_by:
  assumes "approved_doc (x_env xe) (xfiles s) fm body"
    and "maybe_snapshot xe fm (target_data fm) s = (r, s')"
  shows "by_approval (x_env xe) s s' \<and> xs_world s' = xs_world s"
  using assms(2)
proof (cases rule: maybe_snapshot_shape)
  case none
  then show ?thesis by simp
next
  case (taken waits)
  have "licensed (x_env xe) (xfiles s) (snapshot_call xe fm)"
    using assms(1) by (auto simp: snapshot_call_def)
  moreover have "licensed (x_env xe) (xfiles s) c" if "c \<in> set waits" for c
    using taken(2) that by auto
  ultimately show ?thesis
    using taken(1) by (auto simp: by_approval_def)
qed

lemma attempt_by:
  assumes "\<And>i. guarded (x_env xe) (sub i)" and "approved_doc (x_env xe) (xfiles s) fm body"
    and "attempt xe sub fm body s = (p, s')"
  shows "by_approval (x_env xe) s s'"
proof -
  let ?snap = "if wants_snapshot fm then maybe_snapshot xe fm (target_data fm) else return_x None"
  obtain r1 s1 where m: "?snap s = (r1, s1)" by fastforce
  then have b: "by_approval (x_env xe) s s1" and w: "xs_world s1 = xs_world s"
    using maybe_snapshot_by [OF assms(2)] by (auto split: if_splits)
  then have a: "approved_doc (x_env xe) (xfiles s1) fm body" using assms(2) by simp
  show ?thesis
  proof (cases r1)
    case (Inl e)
    then show ?thesis using assms(3) m b by (simp add: attempt_def)
  next
    case (Inr snap)
    then obtain r2 where "dispatch xe sub fm body s1 = (r2, s')"
      using assms(3) m by (auto simp: attempt_def split: prod.splits)
    then have "by_approval (x_env xe) s1 s'" by (rule dispatch_by [where sub = sub, OF assms(1) a])
    then show ?thesis using b by_approval_trans by blast
  qed
qed

lemma store_read_doc: "store_read fs i = Inr (fm, b) \<Longrightarrow> fm_status fm = APPROVED \<Longrightarrow>
    body_hash env b = fm_hash fm \<Longrightarrow> approved_doc env fs fm b"
  by (auto simp: approved_doc_def store_read_Inr)

lemma exec_apply_guarded: "guarded (x_env xe) (exec_apply xe n who i)"
proof (induction n arbitrary: who i)
  case (Suc n)
  show ?case
    unfolding guarded_def
  proof (intro allI impI)
    fix s r s' assume run: "exec_apply xe (Suc n) who i s = (r, s')"
    show "by_approval (x_env xe) s s'"
    proof (cases "store_read (xfiles s) i")
      case (Inl e)
      then show ?thesis using run by simp
    next
      case (Inr d)
      obtain fm b where d: "d = (fm, b)" by fastforce
      show ?thesis
      proof (cases "fm_kind fm \<noteq> KB_NOTE \<and> fm_status fm = APPROVED \<and> body_hash (x_env xe) b = fm_hash fm")
        case False
        then show ?thesis using run Inr d by (auto split: if_splits)
      next
        case True
        then have doc: "approved_doc (x_env xe) (xfiles s) fm b" using store_read_doc Inr d by blast
        obtain snap r1 s1 where att: "attempt xe (exec_apply xe n ''composite'') fm b s = ((snap, r1), s1)"
          by (metis prod.exhaust)
        then have "record_apply xe i who snap r1 s1 = (r, s')" using run Inr d True by simp
        then have "by_approval (x_env xe) s1 s'" by (rule guardedD [OF guarded_record(1)])
        moreover have "by_approval (x_env xe) s s1"
          by (rule attempt_by [where sub = "exec_apply xe n ''composite''", OF Suc.IH doc att])
        ultimately show ?thesis using by_approval_trans by blast
      qed
    qed
  qed
qed (simp add: guarded_def)

lemma replay_by:
  assumes "replay xe n i s = (r, s')" and "store_read (xfiles s) i = Inr (fm, b)" and "fm_status fm = APPROVED"
  shows "by_approval (x_env xe) s s'"
proof (cases "fm_kind fm \<noteq> KB_NOTE \<and> body_hash (x_env xe) b = fm_hash fm")
  case False
  then show ?thesis using assms by (auto simp: replay_def split: if_splits)
next
  case True
  then have doc: "approved_doc (x_env xe) (xfiles s) fm b" using store_read_doc assms by blast
  obtain snap r1 s1 where att: "attempt xe (exec_apply xe n ''composite'') fm b s = ((snap, r1), s1)"
    by (metis prod.exhaust)
  then have "record_replay xe i (fm_status fm) snap r1 s1 = (r, s')" using assms True by (simp add: replay_def)
  then have "by_approval (x_env xe) s1 s'" by (rule guardedD [OF guarded_record(2)])
  moreover have "by_approval (x_env xe) s s1"
    by (rule attempt_by [where sub = "exec_apply xe n ''composite''", OF exec_apply_guarded doc att])
  ultimately show ?thesis using by_approval_trans by blast
qed

section \<open>What a result means\<close>

lemma record_apply_success:
  assumes "record_apply xe i who snap r s = (Inr x, s')" and "er_success x"
  shows "\<exists>fm b. map_of (xfiles s') i = Some (fm, b) \<and> fm_status fm = APPLIED"
proof -
  obtain res where r: "r = Inr res" "er_success res"
    using assms by (cases r) (auto simp: record_apply_def Let_def bind_x_eq split: if_splits)
  obtain s1 where m: "on_world (lc_mark_applied (x_env xe) i (er_log res)) s = (Inr (), s1)"
    and a: "\<exists>d. audit_x xe ''apply'' i who d s1 = (Inr (), s')"
    using assms(1) r by (auto simp: record_apply_def bind_x_eq)
  have "xfiles s' = xfiles s1" using a by (auto simp: audit_x_def on_world_eq dest: keeps_filesD [rotated])
  then show ?thesis using m mark_applied_files(2) by (fastforce simp: on_world_eq)
qed

lemma exec_apply_success:
  assumes "exec_apply xe n who i s = (Inr x, s')" and "er_success x"
  shows "\<exists>fm b. map_of (xfiles s') i = Some (fm, b) \<and> (fm_status fm = APPLIED \<or> fm_kind fm = KB_NOTE)"
proof (cases n)
  case (Suc m)
  then obtain fm b where d: "store_read (xfiles s) i = Inr (fm, b)"
    using assms(1) by (cases "store_read (xfiles s) i") auto
  show ?thesis
  proof (cases "fm_kind fm = KB_NOTE")
    case True
    then show ?thesis using assms(1) Suc d by (auto simp: store_read_Inr)
  next
    case False
    then obtain snap r1 s1 where "record_apply xe i who snap r1 s1 = (Inr x, s')"
      using assms(1) Suc d by (auto split: if_splits prod.splits)
    then show ?thesis using record_apply_success assms(2) by blast
  qed
qed (use assms in simp)

definition step_done :: "files \<Rightarrow> dict \<Rightarrow> bool" where
  "step_done fs st =
     (\<exists>i. dget_or ''artifact'' (JStr []) st = JStr i \<and>
        (case map_of fs i of
           None \<Rightarrow> \<not> step_halts st
         | Some (fm, _) \<Rightarrow> fm_status fm = APPLIED \<or> fm_kind fm = KB_NOTE))"

lemma step_done_retires:
  assumes "retires fs fs'" and "step_done fs st"
  shows "step_done fs' st"
proof -
  obtain i where i: "dget_or ''artifact'' (JStr []) st = JStr i" using assms(2) by (auto simp: step_done_def)
  have "retired (map_of fs i) (map_of fs' i)" using assms(1) by (rule retiresD)
  then show ?thesis using assms(2) i by (auto simp: step_done_def retired_def split: option.splits)
qed

lemma sub_read_found: "sub_read a s = (Inr (fm, b), s') \<Longrightarrow> \<exists>i. a = JStr i \<and> map_of (xfiles s) i = Some (fm, b)"
  by (auto simp: sub_read_def store_read_Inr split: jval.splits)

lemma sub_read_missing:
  "sub_read a s = (Inl (FileNotFoundError m), s') \<Longrightarrow> \<exists>i. a = JStr i \<and> map_of (xfiles s) i = None"
  by (auto simp: sub_read_def store_read_def split: jval.splits if_splits option.splits)

lemma composite_failed_stays:
  "composite_apply_steps sub steps log True s = (Inr h, s') \<Longrightarrow> \<not> hr_success h"
proof (induction steps arbitrary: log s)
  case Nil
  then show ?case by (auto simp: composite_failure_def)
next
  case (Cons st rest)
  from Cons.prems show ?case by (cases rule: composite_step_cases) (auto dest: Cons.IH)
qed

lemma composite_steps_success:
  assumes "\<And>i. guarded env (sub i)"
    and sub: "\<And>i s x s'. sub i s = (Inr x, s') \<Longrightarrow> er_success x \<Longrightarrow>
      \<exists>fm b. map_of (xfiles s') i = Some (fm, b) \<and> (fm_status fm = APPLIED \<or> fm_kind fm = KB_NOTE)"
  shows "composite_apply_steps sub steps log False s = (Inr h, s') \<Longrightarrow> hr_success h \<Longrightarrow>
      \<forall>st\<in>set steps. step_done (xfiles s') st"
proof (induction steps arbitrary: log s)
  case (Cons st rest)
  have later: "retires (xfiles s1) (xfiles s')" if "composite_apply_steps sub rest l f s1 = (Inr h, s')" for l f s1
    using composite_steps_guarded [of env sub, OF assms(1) that] by (simp add: by_approval_def)
  from Cons.prems(1) show ?case
  proof (cases rule: composite_step_cases)
    case (missing m l)
    then have "step_done (xfiles s) st" using sub_read_missing [OF missing(2)] by (auto simp: step_done_def)
    then show ?thesis using Cons.IH [OF missing(4) Cons.prems(2)] step_done_retires [OF later [OF missing(4)]] by simp
  next
    case (already fm b l)
    then have "step_done (xfiles s) st" using sub_read_found [OF already(2)] by (auto simp: step_done_def)
    then show ?thesis using Cons.IH [OF already(4) Cons.prems(2)] step_done_retires [OF later [OF already(4)]] by simp
  next
    case (ran fm b x s1 l)
    then have "step_done (xfiles s1) st"
      using sub_read_found [OF ran(2)] sub [OF ran(3,4)] by (fastforce simp: step_done_def)
    then show ?thesis using Cons.IH [OF ran(5) Cons.prems(2)] step_done_retires [OF later [OF ran(5)]] by simp
  qed (use Cons.prems(2) composite_failed_stays in auto)
qed simp

lemma leaf_dispatch_calls:
  assumes "fm_kind fm \<noteq> COMPOSITE" and "dispatch xe sub fm body s = (r, s')"
  shows "xs_world s' = xs_world s
    \<and> (xs_calls s' = xs_calls s \<and> isl r
       \<or> xs_calls s' = xs_calls s @ [Run (fm_kind fm) fm body False None]
         \<and> (\<forall>x. r = Inr x \<longrightarrow> (\<exists>h. x_handler xe (Run (fm_kind fm) fm body False None) (xs_calls s) = Inr h \<and> x = result_of h)))"
proof (cases "needs_agent (fm_kind fm) \<and> \<not> x_agent xe")
  case True
  then show ?thesis using assms by (auto simp: dispatch_def host_adapter_def)
next
  case False
  then show ?thesis
    using assms
    by (cases "x_handler xe (Run (fm_kind fm) fm body False None) (xs_calls s)";
        cases "fm_kind fm = HOST_PROVISION")
       (auto simp: dispatch_def host_adapter_def store_pre_state_def bind_x_eq split: option.splits if_splits)
qed

lemma leaf_attempt:
  assumes "fm_kind fm \<noteq> COMPOSITE" and "attempt xe sub fm body s = ((snap, r), s')"
  shows "xs_world s' = xs_world s"
    and "wants_snapshot fm \<Longrightarrow> fm_requires_snapshot fm \<noteq> Some False \<Longrightarrow>
      (xs_calls s' = xs_calls s
       \<or> (\<exists>waits runs. xs_calls s' = xs_calls s @ snapshot_call xe fm # waits @ runs
           \<and> (\<forall>c\<in>set waits. \<exists>n u. c = Wait_task n u) \<and> set runs \<subseteq> {Run (fm_kind fm) fm body False None}
           \<and> (runs \<noteq> [] \<longrightarrow> snap = Some (snapshot_name_for (x_digest (e_ext (x_env xe))) (fm_id fm))
                \<and> \<not> isl (x_snapshot xe (snapshot_call xe fm) (xs_calls s)))))"
proof -
  let ?snap = "if wants_snapshot fm then maybe_snapshot xe fm (target_data fm) else return_x None"
  obtain r1 s1 where m: "?snap s = (r1, s1)" by fastforce
  have after: "r1 = Inr snap \<and> dispatch xe sub fm body s1 = (r, s') \<or> isl r1 \<and> s' = s1"
    using assms(2) m by (cases r1) (auto simp: attempt_def split: prod.splits)
  have w1: "xs_world s1 = xs_world s"
  proof (cases "wants_snapshot fm")
    case True
    then show ?thesis using m by (auto elim: maybe_snapshot_shape)
  qed (use m in simp)
  then show "xs_world s' = xs_world s" using after leaf_dispatch_calls [OF assms(1)] by auto
  show "xs_calls s' = xs_calls s
       \<or> (\<exists>waits runs. xs_calls s' = xs_calls s @ snapshot_call xe fm # waits @ runs
           \<and> (\<forall>c\<in>set waits. \<exists>n u. c = Wait_task n u) \<and> set runs \<subseteq> {Run (fm_kind fm) fm body False None}
           \<and> (runs \<noteq> [] \<longrightarrow> snap = Some (snapshot_name_for (x_digest (e_ext (x_env xe))) (fm_id fm))
                \<and> \<not> isl (x_snapshot xe (snapshot_call xe fm) (xs_calls s))))"
    if wants: "wants_snapshot fm" and req: "fm_requires_snapshot fm \<noteq> Some False"
  proof -
    have "maybe_snapshot xe fm (target_data fm) s = (r1, s1)" using m wants by simp
    then show ?thesis
    proof (cases rule: maybe_snapshot_shape)
      case none
      then have "isl r1" using req by (cases r1) auto
      then show ?thesis using after none(1) by auto
    next
      case (taken waits)
      from after show ?thesis
      proof
        assume "isl r1 \<and> s' = s1"
        then show ?thesis using taken(1,2) by (intro disjI2 exI [of _ waits] exI [of _ "[]"]) simp
      next
        assume d: "r1 = Inr snap \<and> dispatch xe sub fm body s1 = (r, s')"
        then obtain runs where "xs_calls s' = xs_calls s1 @ runs" "set runs \<subseteq> {Run (fm_kind fm) fm body False None}"
          using leaf_dispatch_calls [OF assms(1)] by fastforce
        then show ?thesis using taken d by (intro disjI2 exI [of _ waits] exI [of _ runs]) simp
      qed
    qed
  qed
qed

lemma healthy_notify: "healthy env \<Longrightarrow> id_prefix i \<Longrightarrow> succeeds (notify env n i)"
  by (auto simp: succeeds_def notify_def swallow_def bind_op_def read_op_def emit_event_def healthy_def
      store_read_def is_net_def split: prod.splits sum.splits option.splits)

lemma healthy_transition:
  assumes "healthy env" and "id_prefix i" and "map_of (w_files w) i = Some (fm, b)"
    and "st \<in> valid_transitions (fm_status fm)"
    and "k fm b = bind_op (write_op env ev i fm' b') (\<lambda>_. bind_op (log_audit env a i u d) (\<lambda>_. sync_to_db env i fm'))"
  shows "\<exists>w'. bind_op (transition_op i st k) (\<lambda>_. notify env n i) w = (Inr (), w')"
proof -
  obtain w1 where "bind_op (write_op env ev i fm' b') (\<lambda>_. bind_op (log_audit env a i u d) (\<lambda>_. sync_to_db env i fm')) w
      = (Inr (), w1)"
    using healthy_book [OF assms(1,2)] by blast
  then have "transition_op i st k w = (Inr (), w1)"
    using assms(2-5) by (simp add: transition_op_def read_op_def store_read_def validate_transition_def)
  moreover obtain w2 where "notify env n i w1 = (Inr (), w2)"
    using healthy_notify [OF assms(1,2)] by (rule succeedsE)
  ultimately show ?thesis by simp
qed

lemma healthy_mark:
  assumes "healthy env" and "id_prefix i" and "map_of (w_files w) i = Some (fm, b)" and "fm_status fm = APPROVED"
  shows "\<exists>w'. lc_mark_applied env i log w = (Inr (), w')" and "\<exists>w'. lc_mark_failed env i rsn log w = (Inr (), w')"
proof -
  show "\<exists>w'. lc_mark_applied env i log w = (Inr (), w')"
    unfolding lc_mark_applied_def mark_applied_def Let_def
    by (rule healthy_transition [OF assms(1-3)]) (simp add: assms(4), rule refl)
  show "\<exists>w'. lc_mark_failed env i rsn log w = (Inr (), w')"
    unfolding lc_mark_failed_def mark_failed_def Let_def
    by (rule healthy_transition [OF assms(1-3)]) (simp add: assms(4), rule refl)
qed

lemma healthy_audit: "healthy (x_env xe) \<Longrightarrow> \<exists>s1. audit_x xe a i who d s = (Inr (), s1) \<and> xfiles s1 = xfiles s
    \<and> xs_calls s1 = xs_calls s"
proof -
  assume "healthy (x_env xe)"
  then have "succeeds (log_audit (x_env xe) a i (Some who) d)" by blast
  then obtain w1 where "log_audit (x_env xe) a i (Some who) d (xs_world s) = (Inr (), w1)" "w_files w1 = xfiles s"
    by (rule succeedsE)
  then show ?thesis by (simp add: audit_x_def on_world_def)
qed

lemma healthy_record:
  assumes "healthy (x_env xe)" and "id_prefix i" and "map_of (xfiles s) i = Some (fm, b)" and "fm_status fm = APPROVED"
  shows "\<exists>x s' fm' b'. record_apply xe i who snap r s = (Inr x, s') \<and> er_snapshot x = snap
     \<and> xs_calls s' = xs_calls s
     \<and> map_of (xfiles s') i = Some (fm', b')
     \<and> (case r of Inl e \<Rightarrow> \<not> er_success x \<and> fm_status fm' = FAILED
        | Inr res \<Rightarrow> er_success x = er_success res \<and> fm_status fm' = (if er_success res then APPLIED else FAILED))"
proof -
  have applied: "\<exists>w1 fm' b'. lc_mark_applied (x_env xe) i log (xs_world s) = (Inr (), w1)
      \<and> map_of (w_files w1) i = Some (fm', b') \<and> fm_status fm' = APPLIED" for log
    using healthy_mark(1) [OF assms] mark_applied_files(2) by blast
  have failed: "\<exists>w1 fm' b'. lc_mark_failed (x_env xe) i rsn log (xs_world s) = (Inr (), w1)
      \<and> map_of (w_files w1) i = Some (fm', b') \<and> fm_status fm' = FAILED" for rsn log
    using healthy_mark(2) [OF assms] mark_failed_files(2) by blast
  show ?thesis
  proof (cases r)
    case (Inl e)
    obtain w1 fm' b' where w1: "lc_mark_failed (x_env xe) i (exn_str e) (''Executor error: '' @ exn_str e) (xs_world s) = (Inr (), w1)"
      "map_of (w_files w1) i = Some (fm', b')" "fm_status fm' = FAILED" using failed by blast
    obtain s2 where s2: "audit_x xe ''apply_failed'' i who [(''reason'', JStr (exn_str e))] (s\<lparr>xs_world := w1\<rparr>) = (Inr (), s2)"
      "xfiles s2 = w_files w1" "xs_calls s2 = xs_calls s"
      using healthy_audit [OF assms(1)] by fastforce
    show ?thesis using Inl w1 s2 by (simp add: record_apply_def Let_def on_world_def)
  next
    case (Inr res)
    show ?thesis
    proof (cases "er_success res")
      case True
      obtain w1 fm' b' where w1: "lc_mark_applied (x_env xe) i (er_log res) (xs_world s) = (Inr (), w1)"
        "map_of (w_files w1) i = Some (fm', b')" "fm_status fm' = APPLIED" using applied by blast
      obtain s2 where s2: "audit_x xe ''apply'' i who (case nonempty snap of None \<Rightarrow> [] | Some n \<Rightarrow> [(''snapshot_id'', JStr n)])
          (s\<lparr>xs_world := w1\<rparr>) = (Inr (), s2)" "xfiles s2 = w_files w1" "xs_calls s2 = xs_calls s"
        using healthy_audit [OF assms(1)] by fastforce
      show ?thesis using Inr True w1 s2 by (simp add: record_apply_def on_world_def)
    next
      case False
      obtain w1 fm' b' where w1: "lc_mark_failed (x_env xe) i (or_unknown (er_reason res)) (er_log res) (xs_world s) = (Inr (), w1)"
        "map_of (w_files w1) i = Some (fm', b')" "fm_status fm' = FAILED" using failed by blast
      obtain s2 where s2: "audit_x xe ''apply_failed'' i who (reason_detail (er_reason res)) (s\<lparr>xs_world := w1\<rparr>) = (Inr (), s2)"
        "xfiles s2 = w_files w1" "xs_calls s2 = xs_calls s"
        using healthy_audit [OF assms(1)] by fastforce
      show ?thesis using Inr False w1 s2 by (simp add: record_apply_def on_world_def)
    qed
  qed
qed

end
