(* ===== verification/Executor_Properties.thy ===== *)
theory Executor_Properties
  imports Executor_Safety
begin

text \<open>The properties of the executor, with their witnesses.\<close>

section \<open>A sample estate\<close>

text \<open>The artifact of \<open>sample_world\<close>, approved, on a cluster that answers every call with success.\<close>

definition sample_xenv :: xenv where
  "sample_xenv = \<lparr>x_env = sample_env, x_agent = True, x_snapshot = \<lambda>_ _. Inr (JObj [(''data'', JStr ''UPID:1'')]),
     x_handler = \<lambda>_ _. Inr \<lparr>hr_success = True, hr_log = ''done'', hr_reason = None, hr_pre_state = None\<rparr>,
     x_proxmox_error = \<lambda>_. True, x_save_fails = \<lambda>_. False, x_load_capture = \<lambda>_. None\<rparr>"

definition sample_xstate :: xstate where
  "sample_xstate = \<lparr>xs_world = sample_world, xs_calls = [], xs_captures = []\<rparr>"

lemma sample_xenv_healthy: "healthy (x_env sample_xenv)"
  by (simp add: sample_xenv_def sample_env_def healthy_def)

lemma sample_leaf:
  obtains fm b where "map_of (xfiles sample_xstate) ''2026-01-02-leaf'' = Some (fm, b)" "fm_status fm = APPROVED"
    "fm_kind fm = SHELL_SCRIPT" "body_hash (x_env sample_xenv) b = fm_hash fm" "wants_snapshot fm"
    "fm_requires_snapshot fm = Some True" "id_prefix ''2026-01-02-leaf''"
proof -
  have "(case map_of (w_files sample_world) ''2026-01-02-leaf'' of
      Some (fm, b) \<Rightarrow> fm_status fm = APPROVED \<and> fm_kind fm = SHELL_SCRIPT \<and> body_hash sample_env b = fm_hash fm
        \<and> wants_snapshot fm \<and> fm_requires_snapshot fm = Some True \<and> id_prefix ''2026-01-02-leaf''
    | None \<Rightarrow> False)" by code_simp
  then show thesis using that by (auto simp: sample_xstate_def sample_xenv_def split: option.splits)
qed

lemma audit_calls: "audit_x xe a i who d s = (r, s') \<Longrightarrow> xs_calls s' = xs_calls s"
  by (auto simp: audit_x_def on_world_eq)

lemma audit_files: "audit_x xe a i who d s = (r, s') \<Longrightarrow> xfiles s' = xfiles s"
  by (auto simp: audit_x_def on_world_eq dest: keeps_filesD [rotated])

lemma record_calls: "record_apply xe i who snap r s = (x, s') \<Longrightarrow> xs_calls s' = xs_calls s"
  by (cases r) (auto simp: record_apply_def Let_def bind_x_eq on_world_eq dest!: audit_calls split: if_splits)

lemma revoke_marks:
  assumes "lc_revoke env i user reason w = (Inr u, w')"
  shows "\<exists>fm b. map_of (w_files w') i = Some (fm, b) \<and> fm_status fm = REVOKED"
proof -
  obtain r1 w1 where m: "revoke env i user reason w = (r1, w1)" and f: "w_files w' = w_files w1" and r: "\<not> isl r1"
    using lc_then_files [OF assms [unfolded lc_revoke_def]] by (auto simp: not_isl)
  from m [unfolded revoke_def] show ?thesis
  proof (cases rule: transition_op_cases)
    case (allowed fm b)
    have "w_files w1 = store_write (w_files w) i (fm\<lparr>fm_status := REVOKED,
        fm_revoked_by := Some (make_signoff user (x_now (e_ext env)) None reason)\<rparr>) b"
      using allowed(4) by (auto simp: Let_def allowed(1) dest!: write_then_files)
    then show ?thesis using f by simp
  qed (use r in simp)
qed

lemma revoke_rollback_leaf:
  assumes "fm_kind fm \<noteq> COMPOSITE" and "revoke_rollback xe sub fm b s = (Inr x, s')" and "rr_rolled_back x"
  shows "\<exists>pre h. xs_calls s' = xs_calls s @ [Run (fm_kind fm) fm b True pre]
     \<and> x_handler xe (Run (fm_kind fm) fm b True pre) (xs_calls s) = Inr h \<and> hr_success h"
proof -
  obtain r where h: "rollback_handler xe sub fm b s = (r, s')"
    and x: "x = rollback_outcome r"
    using assms(2,3) by (auto simp: revoke_rollback_def run_rollback_def split: if_splits prod.splits)
  then obtain hr where r: "r = Inr hr" "hr_success hr"
    using assms(3) by (auto simp: rollback_outcome_def split: sum.splits if_splits)
  then show ?thesis
    using h assms(1)
    by (auto simp: rollback_handler_def bind_x_eq host_adapter_def load_capture_def split: if_splits option.splits)
qed

lemma composite_plan_refusal: "composite_plan env body = Inr (Inl h) \<Longrightarrow> \<not> hr_success h"
  by (auto simp: composite_plan_def composite_missing_def composite_failure_def split: sum.splits exn.splits if_splits)

lemma exec_apply_refused:
  assumes "exec_apply xe (Suc n) who i s = (r, s')" and "map_of (xfiles s) i = Some (fm, b)"
    and "\<not> (id_prefix i \<and> fm_kind fm \<noteq> KB_NOTE \<and> fm_status fm = APPROVED \<and> body_hash (x_env xe) b = fm_hash fm)"
  shows "s' = s"
proof (cases "id_prefix i")
  case True
  then have "store_read (xfiles s) i = Inr (fm, b)" using assms(2) by (simp add: store_read_def)
  then show ?thesis using assms(1,3) True by (auto split: if_splits)
next
  case False
  then have "isl (store_read (xfiles s) i)" by (simp add: store_read_def)
  then show ?thesis using assms(1) by (cases "store_read (xfiles s) i") auto
qed

section \<open>Properties\<close>

text \<open>
  C1: nothing runs without an approval.  Whatever an apply returns or raises, and however deep the
  composites nest, every call it made to a host or the cluster is the handler of an artifact that was
  approved, with the approved body, when the apply started, or the snapshot of such an artifact's
  target; and the only artifacts it changed were approved and are now applied or failed.
\<close>

theorem apply_only_approved:
  assumes "exec_apply xe n who i s = (r, s')"
  shows "retires (xfiles s) (xfiles s')
    \<and> (\<exists>new. xs_calls s' = xs_calls s @ new \<and> list_all (licensed (x_env xe) (xfiles s)) new)"
  using guardedD [OF exec_apply_guarded assms] by (simp add: by_approval_def list_all_iff)

theorem apply_only_approved_witness:
  "retires (xfiles sample_xstate) (xfiles (snd (exec_apply sample_xenv 2 ''op'' ''2026-01-02-leaf'' sample_xstate)))"
  using apply_only_approved [OF prod.collapse [symmetric]] by blast

text \<open>
  C21: the outcome of an apply.  With git and the database working, applying an approved artifact of a
  leaf kind with an intact body returns; the artifact is applied exactly when the snapshot and the
  handler succeeded, and failed otherwise, and the result says which.
\<close>

theorem apply_outcome:
  assumes "healthy (x_env xe)" and "id_prefix i" and "map_of (xfiles s) i = Some (fm, b)"
    and "fm_kind fm \<noteq> KB_NOTE" and "fm_kind fm \<noteq> COMPOSITE"
    and "fm_status fm = APPROVED" and "body_hash (x_env xe) b = fm_hash fm"
    and "attempt xe (exec_apply xe n ''composite'') fm b s = ((snap, r), s1)"
  shows "\<exists>x s' fm' b'. exec_apply xe (Suc n) who i s = (Inr x, s') \<and> er_snapshot x = snap
     \<and> xs_calls s' = xs_calls s1 \<and> map_of (xfiles s') i = Some (fm', b')
     \<and> er_success x = (case r of Inl _ \<Rightarrow> False | Inr res \<Rightarrow> er_success res)
     \<and> fm_status fm' = (if er_success x then APPLIED else FAILED)"
proof -
  have w: "xs_world s1 = xs_world s" by (rule leaf_attempt(1) [OF assms(5,8)])
  have run: "exec_apply xe (Suc n) who i s = record_apply xe i who snap r s1"
    using assms(2-4,6-8) by (simp add: store_read_def)
  obtain x s' fm' b' where o: "record_apply xe i who snap r s1 = (Inr x, s')" "er_snapshot x = snap"
    "xs_calls s' = xs_calls s1" "map_of (xfiles s') i = Some (fm', b')"
    "case r of Inl e \<Rightarrow> \<not> er_success x \<and> fm_status fm' = FAILED
     | Inr res \<Rightarrow> er_success x = er_success res \<and> fm_status fm' = (if er_success res then APPLIED else FAILED)"
    using healthy_record [OF assms(1,2), of s1 fm b who snap r] assms(3,6) w by auto
  then have "er_success x = (case r of Inl _ \<Rightarrow> False | Inr res \<Rightarrow> er_success res)"
    "fm_status fm' = (if er_success x then APPLIED else FAILED)" by (cases r; simp)+
  then show ?thesis using o(1-4) unfolding run by blast
qed

theorem apply_outcome_witness:
  "\<exists>x s' fm' b'. exec_apply sample_xenv (Suc 0) ''op'' ''2026-01-02-leaf'' sample_xstate = (Inr x, s')
     \<and> map_of (xfiles s') ''2026-01-02-leaf'' = Some (fm', b') \<and> fm_status fm' = (if er_success x then APPLIED else FAILED)"
proof -
  obtain fm b where f: "map_of (xfiles sample_xstate) ''2026-01-02-leaf'' = Some (fm, b)" "fm_status fm = APPROVED"
    "fm_kind fm = SHELL_SCRIPT" "body_hash (x_env sample_xenv) b = fm_hash fm" "id_prefix ''2026-01-02-leaf''"
    by (rule sample_leaf)
  obtain snap r s1 where a: "attempt sample_xenv (exec_apply sample_xenv 0 ''composite'') fm b sample_xstate = ((snap, r), s1)"
    by (metis prod.exhaust)
  have k: "fm_kind fm \<noteq> KB_NOTE" "fm_kind fm \<noteq> COMPOSITE" using f(3) by simp_all
  show ?thesis using apply_outcome [OF sample_xenv_healthy f(5,1) k f(2,4) a] by blast
qed




text \<open>A composite with the given steps, on the sample estate.\<close>

definition plan_xenv :: "jval list \<Rightarrow> xenv" where
  "plan_xenv steps = sample_xenv\<lparr>x_env := sample_env\<lparr>e_ext :=
     sample_ext\<lparr>x_yaml := \<lambda>_. Inr (JObj [(''steps'', JList steps)])\<rparr>\<rparr>\<rparr>"

definition leaf_step :: dict where
  "leaf_step = [(''id'', JStr ''one''), (''artifact'', JStr ''2026-01-02-leaf'')]"

definition gone_step :: dict where
  "gone_step = [(''id'', JStr ''one''), (''artifact'', JStr ''2026-01-02-gone''), (''on_error'', JStr ''continue'')]"

lemma plan_xenv_steps:
  assumes "map_of st ''id'' = Some (JStr ''one'')" and "map_of st ''depends_on'' = None"
  shows "composite_plan (x_env (plan_xenv [JObj st])) sample_plan = Inr (Inr [st])"
proof -
  have "find_fence ''composite-spec'' sample_plan = Some [CHR ''x'', nl]" by code_simp
  then show ?thesis
    using assms by (simp add: composite_plan_def extract_composite_steps_def plan_xenv_def sort_simps)
qed


text \<open>
  a composite can succeed having run nothing.  When none of the artifacts its steps name exists
  and no step halts on errors, applying it reports success without a single call.
\<close>

theorem missing_steps_report_success:
  assumes "composite_plan (x_env xe) body = Inr (Inr ordered)"
    and "\<forall>st\<in>set ordered. \<exists>i. dget_or ''artifact'' (JStr []) st = JStr i \<and> id_prefix i
           \<and> map_of (xfiles s) i = None \<and> \<not> step_halts st"
  shows "\<exists>h. composite_apply xe sub body s = (Inr h, s) \<and> hr_success h"
proof -
  have "\<exists>h. composite_apply_steps sub ordered log False s = (Inr h, s) \<and> hr_success h" for log
    using assms(2)
  proof (induction ordered arbitrary: log)
    case (Cons st rest)
    then obtain i where i: "dget_or ''artifact'' (JStr []) st = JStr i" "id_prefix i" "map_of (xfiles s) i = None"
      "\<not> step_halts st" by auto
    moreover have "i \<noteq> []" using i(2) by (auto simp: id_prefix_def)
    ultimately show ?case using Cons.IH Cons.prems by (simp add: Let_def sub_read_def store_read_def)
  qed (simp add: composite_success_def)
  then show ?thesis using assms(1) by (simp add: composite_apply_def)
qed

theorem missing_steps_report_success_witness:
  "\<exists>h. composite_apply (plan_xenv [JObj gone_step]) (exec_apply sample_xenv 1 ''composite'') sample_plan sample_xstate
     = (Inr h, sample_xstate) \<and> hr_success h"
proof (rule missing_steps_report_success)
  show "composite_plan (x_env (plan_xenv [JObj gone_step])) sample_plan = Inr (Inr [gone_step])"
    by (rule plan_xenv_steps) (simp_all add: gone_step_def)
  have "id_prefix ''2026-01-02-gone'' \<and> map_of (xfiles sample_xstate) ''2026-01-02-gone'' = None" by code_simp
  then show "\<forall>st\<in>set [gone_step]. \<exists>i. dget_or ''artifact'' (JStr []) st = JStr i \<and> id_prefix i
      \<and> map_of (xfiles sample_xstate) i = None \<and> \<not> step_halts st"
    by (simp add: gone_step_def dget_or_def step_halts_def)
qed

text \<open>
  a revoke is honest about the host.  A revoke of an artifact of a leaf kind that reports a
  reversal made exactly one call, the rollback handler of that artifact, and it succeeded; whenever a
  revoke returns, the artifact is revoked.
\<close>

theorem revoke_reports:
  assumes "exec_revoke xe (Suc n) user reason i s = (Inr x, s')" and "map_of (xfiles s) i = Some (fm, b)"
    and "fm_kind fm \<noteq> COMPOSITE"
  shows "(\<exists>fm' b'. map_of (xfiles s') i = Some (fm', b') \<and> fm_status fm' = REVOKED)
    \<and> (rr_rolled_back x \<longrightarrow> (\<exists>pre h. xs_calls s' = xs_calls s @ [Run (fm_kind fm) fm b True pre]
          \<and> x_handler xe (Run (fm_kind fm) fm b True pre) (xs_calls s) = Inr h \<and> hr_success h))"
proof -
  let ?roll = "revoke_rollback xe (exec_revoke xe n ''composite-rollback'' (Some ''composite rollback'')) fm b"
  have read: "store_read (xfiles s) i = Inr (fm, b)"
    using assms(1,2) by (cases "store_read (xfiles s) i") (auto simp: store_read_Inr)
  obtain s1 where roll: "?roll s = (Inr x, s1)"
    and rest: "bind_x (on_world (lc_revoke (x_env xe) i user reason)) (\<lambda>_. bind_x (audit_x xe ''revoke'' i user
        (revoke_details reason x)) (\<lambda>_. return_x x)) s1 = (Inr x, s')"
    using assms(1) read by (auto simp: bind_x_eq)
  obtain w where w: "lc_revoke (x_env xe) i user reason (xs_world s1) = (Inr (), w)"
    and a: "audit_x xe ''revoke'' i user (revoke_details reason x) (s1\<lparr>xs_world := w\<rparr>) = (Inr (), s')"
    using rest by (auto simp: bind_x_eq on_world_eq)
  have f: "xfiles s' = w_files w" and c: "xs_calls s' = xs_calls s1"
    using audit_files [OF a] audit_calls [OF a] by simp_all
  show ?thesis
    using revoke_marks [OF w] f c revoke_rollback_leaf [OF assms(3) roll] by auto
qed

definition reversible_fm :: "artifact_status \<Rightarrow> frontmatter" where
  "reversible_fm st = (example_fm ''2026-01-02-leaf'' SHELL_SCRIPT st ''echo'')\<lparr>fm_rollback := Some True\<rparr>"

definition reversible_state :: "artifact_status \<Rightarrow> xstate" where
  "reversible_state st = \<lparr>xs_world = \<lparr>w_files = [(''2026-01-02-leaf'', reversible_fm st, ''echo'')], w_audit = [],
     w_db = [], w_codes = [], w_events = []\<rparr>, xs_calls = [], xs_captures = []\<rparr>"

lemma reversible_read: "map_of (xfiles (reversible_state st)) ''2026-01-02-leaf'' = Some (reversible_fm st, ''echo'')"
  by (simp add: reversible_state_def)

theorem revoke_reports_witness:
  "\<exists>x s' fm' b'. exec_revoke sample_xenv (Suc 0) ''op'' None ''2026-01-02-leaf'' (reversible_state APPLIED) = (Inr x, s')
     \<and> rr_rolled_back x \<and> length (xs_calls s') = 1
     \<and> map_of (xfiles s') ''2026-01-02-leaf'' = Some (fm', b') \<and> fm_status fm' = REVOKED"
proof -
  let ?run = "exec_revoke sample_xenv (Suc 0) ''op'' None ''2026-01-02-leaf'' (reversible_state APPLIED)"
  have "(case fst ?run of Inr x \<Rightarrow> rr_rolled_back x | Inl _ \<Rightarrow> False)" by code_simp
  then obtain x where x: "fst ?run = Inr x" "rr_rolled_back x" by (auto split: sum.splits)
  then have r: "?run = (Inr x, snd ?run)" by (metis prod.collapse)
  have k: "fm_kind (reversible_fm APPLIED) \<noteq> COMPOSITE" by (simp add: reversible_fm_def example_fm_def)
  have e: "xs_calls (reversible_state APPLIED) = []" by (simp add: reversible_state_def)
  have "length (xs_calls (snd ?run)) = 1" using revoke_reports [OF r reversible_read k] x(2) e by auto
  then show ?thesis using revoke_reports [OF r reversible_read k] x(2) r by blast
qed

text \<open>
  a revoke acts before it checks.  Revoking a shell script that was already revoked runs its
  rollback on the host once more, and only then fails with the conflict.
\<close>

theorem second_revoke_runs_rollback:
  "\<exists>s'. exec_revoke sample_xenv (Suc n) ''op'' None ''2026-01-02-leaf'' (reversible_state REVOKED)
       = (Inl (ConflictError ''revoked'' ''revoked''), s')
     \<and> xs_calls s' = [Run SHELL_SCRIPT (reversible_fm REVOKED) ''echo'' True None]"
proof -
  have i: "id_prefix ''2026-01-02-leaf''" by code_simp
  have "kind_can_roll_back SHELL_SCRIPT" by code_simp
  then show ?thesis
    using i
    by (simp add: reversible_state_def reversible_fm_def example_fm_def store_read_def revoke_rollback_def run_rollback_def
        rollback_handler_def host_adapter_def load_capture_def sample_xenv_def rollback_outcome_def on_world_def lc_revoke_def
        revoke_def transition_op_def read_op_def validate_transition_def)
qed

text \<open>
  replaying an applied artifact can lose its own failure.  When the attempt raises, \<open>replay\<close> marks
  the artifact failed; from \<open>applied\<close> that is no valid transition, so the caller sees the conflict instead
  of the failure and no \<open>replay_failed\<close> row is written.
\<close>

theorem replay_failure_escapes:
  assumes "store_read (xfiles s) i = Inr (fm, b)" and "fm_status fm = APPLIED" and "fm_kind fm \<noteq> KB_NOTE"
    and "fm_kind fm \<noteq> COMPOSITE" and "fm_replay_safe fm \<noteq> Some False"
    and "fm_idempotence fm \<noteq> Some (idempotence_value REPLAY_ONLY)" and "body_hash (x_env xe) b = fm_hash fm"
    and "attempt xe (exec_apply xe n ''composite'') fm b s = ((snap, Inl e), s1)"
  shows "replay xe n i s = (Inl (ConflictError ''applied'' ''failed''), s1)"
proof -
  have w: "xs_world s1 = xs_world s" by (rule leaf_attempt(1) [OF assms(4,8)])
  have "lc_mark_failed (x_env xe) i rsn log (xs_world s1) = (Inl (ConflictError ''applied'' ''failed''), xs_world s1)" for rsn log
    using assms(1,2) w
    by (simp add: lc_mark_failed_def mark_failed_def transition_op_def read_op_def validate_transition_def)
  moreover have "replay xe n i s = record_replay xe i APPLIED snap (Inl e) s1"
    using assms by (simp add: replay_def)
  ultimately show ?thesis by (simp add: record_replay_def Let_def on_world_def)
qed

theorem replay_failure_escapes_witness:
  "replay (sample_xenv\<lparr>x_agent := False\<rparr>) 0 ''2026-01-02-leaf'' (reversible_state APPLIED)
     = (Inl (ConflictError ''applied'' ''failed''), reversible_state APPLIED)"
proof (rule replay_failure_escapes)
  have "id_prefix ''2026-01-02-leaf''" by code_simp
  then show "store_read (xfiles (reversible_state APPLIED)) ''2026-01-02-leaf'' = Inr (reversible_fm APPLIED, ''echo'')"
    using reversible_read by (simp add: store_read_def)
  show "attempt (sample_xenv\<lparr>x_agent := False\<rparr>) (exec_apply (sample_xenv\<lparr>x_agent := False\<rparr>) 0 ''composite'')
      (reversible_fm APPLIED) ''echo'' (reversible_state APPLIED)
    = ((None, Inl (RuntimeError ''no host adapter - the agent hub is required for host operations'')), reversible_state APPLIED)"
    by (simp add: attempt_def wants_snapshot_def target_data_def reversible_fm_def example_fm_def dget_or_def
        dispatch_def host_adapter_def needs_agent_def snapshottable_target_kinds_def image_iff)
qed (simp_all add: reversible_fm_def example_fm_def body_hash_def sample_xenv_def example_env_def example_ext_def
       sample_env_def sample_ext_def)

text \<open>
  snapshot names.  Every name fits Proxmox's limit of forty characters, a short identifier keeps
  its historical name, and two long identifiers share a name only if they agree on their first
  twenty-five characters and on the digest prefix.
\<close>

theorem snapshot_name_bounds:
  assumes "\<forall>x. 7 \<le> length (sha x)"
  shows "length (snapshot_name_for sha i) \<le> 40
    \<and> (length i \<le> 33 \<longrightarrow> snapshot_name_for sha i = ''hp-pre-'' @ i)
    \<and> (33 < length i \<and> 33 < length j \<and> snapshot_name_for sha i = snapshot_name_for sha j
        \<longrightarrow> take 25 i = take 25 j \<and> take 7 (sha i) = take 7 (sha j))"
  using assms
  by (auto simp: snapshot_name_for_def pve_snapname_max_def snap_prefix_def snap_hash_len_def Let_def append_eq_append_conv)

theorem snapshot_name_bounds_witness:
  "length (snapshot_name_for (\<lambda>x. ''0123456789'') ''2026-01-02-a-rather-long-artifact-name'') \<le> 40"
  using snapshot_name_bounds [of "\<lambda>x. ''0123456789''" "''2026-01-02-a-rather-long-artifact-name''"] by simp

definition self_step :: dict where
  "self_step = [(''id'', JStr ''one''), (''artifact'', JStr ''2026-01-01-plan'')]"

text \<open>
  a composite may name itself.  A plan whose only step is the plan itself passes validation at
  propose, and approving it cascades to nothing and is not refused.
\<close>

theorem self_reference_accepted:
  "validate_composite_spec (x_yaml (e_ext (x_env (plan_xenv [JObj self_step])))) sample_plan = Inr ()
   \<and> composite_cascade (x_env (plan_xenv [JObj self_step])) fs (Suc n) [] ''2026-01-01-plan''
       (example_fm ''2026-01-01-plan'' COMPOSITE PROPOSED sample_plan, sample_plan)
     = Inr ([], [''2026-01-01-plan''])"
proof -
  have f: "find_fence ''composite-spec'' sample_plan = Some [CHR ''x'', nl]" by code_simp
  then have x: "extract_composite_steps (x_yaml (e_ext (x_env (plan_xenv [JObj self_step])))) sample_plan
      = Inr (JList [JObj self_step])"
    by (simp add: extract_composite_steps_def plan_xenv_def)
  then show ?thesis
    by (simp add: validate_composite_spec_def value_error_to_lifecycle_def self_step_def dget_def composite_cascade.simps
        composite_steps_def step_artifact_def example_fm_def str_or_empty_def)
qed

end
