(* ===== verification/Replay_Guard.thy ===== *)
theory Replay_Guard
  imports Artifact_Models
begin

text \<open>
  Replay protection of the agent hub: \<^verbatim>\<open>agent_hub/replay.py\<close> and the freshness check of a register
  frame in \<^verbatim>\<open>agent_hub/server.py\<close>.

  A frame is a JSON object (a key occurs once).  The canonical form is a string; its UTF-8 encoding is
  injective and left out, and so are floating-point numbers, which \<open>jval\<close> does not have.  HMAC-SHA256
  is an argument.  Time is in whole seconds.
\<close>

section \<open>The canonical form\<close>

definition canon_char :: "char \<Rightarrow> string" where
  "canon_char c =
     (let n = (of_char c :: nat); bs = CHR 0x5C in
      if c = CHR 0x22 then [bs, CHR 0x22]
      else if c = bs then [bs, bs]
      else if c = nl then [bs, CHR ''n'']
      else if c = cr then [bs, CHR ''r'']
      else if n = 9 then [bs, CHR ''t'']
      else if n < 32 then [bs, CHR ''u'', CHR ''0'', CHR ''0'', hex_digit (n div 16), hex_digit (n mod 16)]
      else [c])"

definition canon_str :: "string \<Rightarrow> string" where
  "canon_str s = CHR 0x22 # concat (map canon_char s) @ [CHR 0x22]"

fun canon :: "jval \<Rightarrow> string" where
  "canon JNull = ''null''"
| "canon (JBool b) = (if b then ''true'' else ''false'')"
| "canon (JStr s) = canon_str s"
| "canon (JInt i) = str_int i"
| "canon (JObj kvs) =
     ''{'' @ join '','' (map (\<lambda>(k, t). canon_str k @ '':'' @ t)
        (sort_key fst (map (\<lambda>(k, v). (k, canon v)) kvs))) @ ''}''"
| "canon (JList vs) = ''['' @ join '','' (map canon vs) @ '']''"

definition canonical_bytes :: "dict \<Rightarrow> string" where
  "canonical_bytes frame = canon (JObj (filter (\<lambda>(k, _). k \<noteq> ''mac'') frame))"

definition compute_mac :: "(string \<Rightarrow> string \<Rightarrow> string) \<Rightarrow> string \<Rightarrow> dict \<Rightarrow> string" where
  "compute_mac hmac key frame = hmac key (canonical_bytes frame)"

definition verify_mac :: "(string \<Rightarrow> string \<Rightarrow> string) \<Rightarrow> string \<Rightarrow> dict \<Rightarrow> string \<Rightarrow> bool" where
  "verify_mac hmac key frame mac = (compute_mac hmac key frame = mac)"

section \<open>Sessions\<close>

record replay_session =
  rs_key :: string
  rs_send_seq :: int
  rs_recv_expected :: int

definition new_session :: "string \<Rightarrow> replay_session" where
  "new_session key = \<lparr>rs_key = key, rs_send_seq = 0, rs_recv_expected = 1\<rparr>"

definition stamp :: "(string \<Rightarrow> string \<Rightarrow> string) \<Rightarrow> replay_session \<Rightarrow> dict \<Rightarrow> dict \<times> replay_session" where
  "stamp hmac ses frame =
     (let seq = rs_send_seq ses + 1;
          out = AList.update ''seq'' (JInt seq) (AList.delete ''mac'' frame)
      in (AList.update ''mac'' (JStr (compute_mac hmac (rs_key ses) out)) out, ses\<lparr>rs_send_seq := seq\<rparr>))"

definition verify :: "(string \<Rightarrow> string \<Rightarrow> string) \<Rightarrow> replay_session \<Rightarrow> dict \<Rightarrow> unit res \<times> replay_session" where
  "verify hmac ses frame =
     (if dget ''seq'' frame \<noteq> JInt (rs_recv_expected ses)
      then (Inl (OtherError (''bad seq: expected '' @ str_int (rs_recv_expected ses) @ '', got ''
              @ py_repr (dget ''seq'' frame))), ses)
      else case dget ''mac'' frame of
             JStr mac \<Rightarrow>
               (if verify_mac hmac (rs_key ses) frame mac
                then (Inr (), ses\<lparr>rs_recv_expected := rs_recv_expected ses + 1\<rparr>)
                else (Inl (OtherError ''bad mac''), ses))
           | _ \<Rightarrow> (Inl (OtherError ''bad mac''), ses))"

fun stamp_all :: "(string \<Rightarrow> string \<Rightarrow> string) \<Rightarrow> replay_session \<Rightarrow> dict list \<Rightarrow> dict list" where
  "stamp_all hmac ses [] = []"
| "stamp_all hmac ses (f # fs) = fst (stamp hmac ses f) # stamp_all hmac (snd (stamp hmac ses f)) fs"

text \<open>The hub reads frames until one is refused, which closes the connection.\<close>

fun verify_all :: "(string \<Rightarrow> string \<Rightarrow> string) \<Rightarrow> replay_session \<Rightarrow> dict list \<Rightarrow> dict list" where
  "verify_all hmac ses [] = []"
| "verify_all hmac ses (f # fs) =
     (case verify hmac ses f of (Inr _, ses') \<Rightarrow> f # verify_all hmac ses' fs | (Inl _, _) \<Rightarrow> [])"

section \<open>Nonces\<close>

definition replay_ts_window :: int where
  "replay_ts_window = 300"

definition nonce_min_hex_len :: nat where
  "nonce_min_hex_len = 32"

text \<open>Agent, then nonce, then the time the entry expires.\<close>

type_synonym nonce_cache = "(string \<times> (string \<times> int) list) list"

definition prune :: "nonce_cache \<Rightarrow> int \<Rightarrow> nonce_cache" where
  "prune seen now =
     filter (\<lambda>(_, bucket). bucket \<noteq> [])
       (map (\<lambda>(aid, bucket). (aid, filter (\<lambda>(_, t). t > now) bucket)) seen)"

definition check_and_record :: "int \<Rightarrow> nonce_cache \<Rightarrow> string \<Rightarrow> string \<Rightarrow> int \<Rightarrow> bool \<times> nonce_cache" where
  "check_and_record window seen agent_id nonce now =
     (let pruned = prune seen now;
          bucket = (case map_of pruned agent_id of None \<Rightarrow> [] | Some b \<Rightarrow> b);
          seen1 = (case map_of pruned agent_id of None \<Rightarrow> pruned @ [(agent_id, [])] | Some _ \<Rightarrow> pruned)
      in if (case map_of bucket nonce of None \<Rightarrow> 0 | Some t \<Rightarrow> t) > now then (False, seen1)
         else (True, AList.update agent_id (AList.update nonce (now + window) bucket) seen1))"

definition check_register_freshness :: "int \<Rightarrow> nonce_cache \<Rightarrow> string \<Rightarrow> dict \<Rightarrow> string option \<times> nonce_cache" where
  "check_register_freshness now seen agent_id frame =
     (case dget ''nonce'' frame of
        JStr nonce \<Rightarrow>
          (if length nonce < nonce_min_hex_len then (Some ''missing or short nonce'', seen)
           else case dget ''ts'' frame of
                  JInt ts \<Rightarrow>
                    (if \<bar>now - ts\<bar> > replay_ts_window then (Some ''stale timestamp'', seen)
                     else case check_and_record replay_ts_window seen agent_id nonce now of
                            (True, seen') \<Rightarrow> (None, seen')
                          | (False, seen') \<Rightarrow> (Some ''duplicate nonce'', seen'))
                | _ \<Rightarrow> (Some ''missing or invalid ts'', seen))
      | _ \<Rightarrow> (Some ''missing or short nonce'', seen))"

section \<open>The canonical form determines the frame\<close>

text \<open>Two values are the same document when they agree up to the order of the keys.\<close>

fun norm :: "jval \<Rightarrow> jval" where
  "norm (JObj kvs) = JObj (sort_key fst (map (\<lambda>(k, v). (k, norm v)) kvs))"
| "norm (JList vs) = JList (map norm vs)"
| "norm v = v"

text \<open>Reading back one escaped character.\<close>

definition hex_val :: "char \<Rightarrow> nat" where
  "hex_val c = (let n = (of_char c :: nat) in if n \<ge> 97 then n - 87 else n - 48)"

definition uncanon :: "string \<Rightarrow> char \<times> string" where
  "uncanon s =
     (if hd s \<noteq> CHR 0x5C then (hd s, tl s)
      else let x = s ! 1; r = drop 2 s in
           if x = CHR ''n'' then (nl, r) else if x = CHR ''r'' then (cr, r) else if x = CHR ''t'' then (CHR 0x09, r)
           else if x = CHR ''u'' then (char_of (16 * hex_val (s ! 4) + hex_val (s ! 5)), drop 6 s)
           else (x, r))"

lemma hex_val_digit: "n < 16 \<Longrightarrow> hex_val (hex_digit n) = n"
  by (auto simp: hex_val_def hex_digit_def Let_def)

lemma char_eqI: "(of_char c :: nat) = of_char d \<Longrightarrow> c = d"
  by (metis char_of_char)

lemma uncanon_char: "uncanon (canon_char c @ r) = (c, r)"
proof -
  have n: "(of_char c :: nat) < 256" by simp
  show ?thesis
  proof (cases "c = CHR 0x22 \<or> c = CHR 0x5C \<or> c = nl \<or> c = cr \<or> (of_char c :: nat) = 9")
    case True
    then show ?thesis by (auto simp: canon_char_def uncanon_def Let_def intro: char_eqI)
  next
    case False
    show ?thesis
    proof (cases "(of_char c :: nat) < 32")
      case True
      let ?n = "of_char c :: nat"
      have "16 * hex_val (hex_digit (?n div 16)) + hex_val (hex_digit (?n mod 16)) = ?n"
        using True by (simp add: hex_val_digit)
      then show ?thesis using False True by (simp add: canon_char_def uncanon_def Let_def)
    next
      case False
      then show ?thesis using \<open>\<not> (c = CHR 0x22 \<or> c = CHR 0x5C \<or> c = nl \<or> c = cr \<or> (of_char c :: nat) = 9)\<close>
        by (auto simp: canon_char_def uncanon_def Let_def)
    qed
  qed
qed

lemma canon_char_code: "canon_char c @ r = canon_char c' @ r' \<Longrightarrow> c = c' \<and> r = r'"
  by (metis uncanon_char prod.inject)

lemma canon_char_start: "canon_char c @ r \<noteq> CHR 0x22 # r'"
  by (auto simp: canon_char_def Let_def split: if_splits)

lemma canon_str_code:
  "canon_str s @ r = canon_str s' @ r' \<Longrightarrow> s = s' \<and> r = r'"
proof -
  have "concat (map canon_char s) @ CHR 0x22 # r = concat (map canon_char s') @ CHR 0x22 # r' \<Longrightarrow> s = s' \<and> r = r'"
  proof (induction s arbitrary: s')
    case Nil
    then show ?case by (cases s') (auto dest: canon_char_start [THEN notE, OF sym])
  next
    case (Cons c s)
    show ?case
    proof (cases s')
      case Nil
      then show ?thesis using Cons.prems canon_char_start by auto
    next
      case (Cons c' t)
      then have "canon_char c @ concat (map canon_char s) @ CHR 0x22 # r
          = canon_char c' @ concat (map canon_char t) @ CHR 0x22 # r'" using Cons.prems by simp
      then show ?thesis using canon_char_code Cons.IH Cons by blast
    qed
  qed
  then show "canon_str s @ r = canon_str s' @ r' \<Longrightarrow> s = s' \<and> r = r'" by (simp add: canon_str_def)
qed

text \<open>A number ends where the next delimiter starts.\<close>

definition delimited :: "string \<Rightarrow> bool" where
  "delimited r = (r = [] \<or> hd r \<in> {CHR '','', CHR '']'', CHR ''}''})"

lemma delimited_no_digit: "delimited (c # r) \<Longrightarrow> \<not> is_digit c"
  by (auto simp: delimited_def is_digit_def Let_def)

lemma digits_code:
  assumes "\<forall>c\<in>set a. is_digit c" "\<forall>c\<in>set b. is_digit c" "delimited r" "delimited r'" "a @ r = b @ r'"
  shows "a = b \<and> r = r'"
proof -
  have "takeWhile is_digit (xs @ t) = xs" if "\<forall>c\<in>set xs. is_digit c" "delimited t" for xs t
    using that delimited_no_digit by (cases t) (auto simp: takeWhile_append takeWhile_eq_all_conv)
  then have "a = b" using assms by metis
  then show ?thesis using assms(5) by simp
qed

lemma str_int_code:
  assumes "delimited r" "delimited r'" "str_int i @ r = str_int j @ r'"
  shows "i = j \<and> r = r'"
proof -
  have minus: "CHR ''-'' # x \<noteq> digits_nat n @ t" for x n t
    using digits_nat_all_digits [of n] by (cases "digits_nat n") (auto simp: is_digit_def Let_def)
  have d: "m = n \<and> r = r'" if "digits_nat m @ r = digits_nat n @ r'" for m n
    using digits_code [OF digits_nat_all_digits digits_nat_all_digits assms(1,2) that] digits_nat_inj by blast
  show ?thesis
    using assms(3) minus minus [THEN not_sym] by (auto simp: str_int_def split: if_splits dest!: d)
qed

lemma sort_key_map: "(\<And>x. key (h x) = key' x) \<Longrightarrow> sort_key key (map h xs) = map h (sort_key key' xs)"
proof (induction xs)
  case (Cons x xs)
  have "insort_key key (h x) (map h ys) = map h (insort_key key' x ys)" for ys
    using Cons.prems by (induction ys) auto
  then show ?case using Cons by simp
qed simp

definition canon_item :: "string \<times> jval \<Rightarrow> string" where
  "canon_item kv = canon_str (fst kv) @ '':'' @ canon (snd kv)"

lemma canon_obj: "canon (JObj kvs) = ''{'' @ join '','' (map canon_item (sort_key fst kvs)) @ ''}''"
proof -
  have "sort_key fst (map (\<lambda>(k, v). (k, canon v)) kvs) = map (\<lambda>(k, v). (k, canon v)) (sort_key fst kvs)"
    by (rule sort_key_map) auto
  moreover have "canon_item = (\<lambda>kv. canon_str (fst kv) @ '':'' @ canon (snd kv))" by (rule ext) (simp add: canon_item_def)
  ultimately show ?thesis by (simp add: case_prod_beta comp_def)
qed

lemma norm_obj: "norm (JObj kvs) = JObj (map (\<lambda>kv. (fst kv, norm (snd kv))) (sort_key fst kvs))"
  by (simp add: sort_key_map [of fst _ fst] case_prod_beta)

lemma join_starts: "\<exists>t. join sep (map f (x # xs)) = f x @ t"
  by (cases xs) auto

lemma join_no_end:
  assumes "f x \<noteq> []" and "hd (f x) \<noteq> e"
  shows "join sep (map f (x # xs)) @ q \<noteq> e # r"
proof
  assume a: "join sep (map f (x # xs)) @ q = e # r"
  obtain t where "join sep (map f (x # xs)) = f x @ t" using join_starts [of sep f x xs] by blast
  then have "f x @ t @ q = e # r" using a by simp
  then have "hd (f x) = e" using assms(1) by (metis hd_append2 list.sel(1))
  then show False using assms(2) by simp
qed

lemma items_code:
  assumes "\<And>x y r r'. x \<in> set xs \<Longrightarrow> delimited r \<Longrightarrow> delimited r' \<Longrightarrow> f x @ r = f y @ r' \<Longrightarrow> g x = g y \<and> r = r'"
    and "\<And>x. f x \<noteq> [] \<and> hd (f x) \<notin> {CHR '']'', CHR ''}''}" and e: "e \<in> {CHR '']'', CHR ''}''}"
  shows "join '','' (map f xs) @ e # r = join '','' (map f ys) @ e # r' \<Longrightarrow> map g xs = map g ys \<and> r = r'"
  using assms(1)
proof (induction xs arbitrary: ys)
  case Nil
  show ?case
  proof (cases ys)
    case Nil
    then show ?thesis using Nil.prems(1) by simp
  next
    case (Cons y ys')
    have "f y \<noteq> []" "hd (f y) \<noteq> e" using assms(2) [of y] e by auto
    then have "join '','' (map f (y # ys')) @ e # r' \<noteq> e # r" by (rule join_no_end)
    then show ?thesis using Nil.prems(1) Cons by (metis append_Nil join.simps(1) list.simps(8))
  qed
next
  case (Cons x xs)
  have "f x \<noteq> []" "hd (f x) \<noteq> e" using assms(2) [of x] e by auto
  then have "join '','' (map f (x # xs)) @ e # r \<noteq> e # r'" by (rule join_no_end)
  then have "ys \<noteq> []" using Cons.prems(1) by (metis append_Nil join.simps(1) list.simps(8))
  then obtain y ys' where ys: "ys = y # ys'" by (cases ys) auto
  have tail: "\<exists>t. join '','' (map f (z # zs)) @ e # q = f z @ t \<and> delimited t
      \<and> (zs = [] \<longrightarrow> t = e # q) \<and> (zs \<noteq> [] \<longrightarrow> t = CHR '','' # join '','' (map f zs) @ e # q)" for z zs q
    using e by (cases zs) (auto simp: delimited_def)
  obtain t where t: "join '','' (map f (x # xs)) @ e # r = f x @ t" "delimited t"
      "xs = [] \<longrightarrow> t = e # r" "xs \<noteq> [] \<longrightarrow> t = CHR '','' # join '','' (map f xs) @ e # r" using tail by blast
  obtain u where u: "join '','' (map f (y # ys')) @ e # r' = f y @ u" "delimited u"
      "ys' = [] \<longrightarrow> u = e # r'" "ys' \<noteq> [] \<longrightarrow> u = CHR '','' # join '','' (map f ys') @ e # r'" using tail by blast
  have eq: "g x = g y \<and> t = u"
    using Cons.prems(2) [of x t u y] t u Cons.prems(1) ys by simp
  show ?case
  proof (cases "xs = []")
    case True
    then have "ys' = []" using t(3) u(3,4) eq e by (cases "ys' = []") auto
    then show ?thesis using True t(3) u(3) eq ys by simp
  next
    case False
    then have ne': "ys' \<noteq> []" using t(4) u(3) eq e by auto
    have "map g xs = map g ys' \<and> r = r'"
    proof (rule Cons.IH)
      show "join '','' (map f xs) @ e # r = join '','' (map f ys') @ e # r'" using t(4) u(4) eq False ne' by simp
    qed (use Cons.prems(2) in auto)
    then show ?thesis using eq ys by simp
  qed
qed

text \<open>The first character tells the constructor.\<close>

fun ctor :: "jval \<Rightarrow> nat" where
  "ctor JNull = 0" | "ctor (JBool _) = 1" | "ctor (JInt _) = 2" | "ctor (JStr _) = 3"
| "ctor (JList _) = 4" | "ctor (JObj _) = 5"

definition shape :: "char \<Rightarrow> nat" where
  "shape c = (if c = CHR ''n'' then 0 else if c \<in> {CHR ''t'', CHR ''f''} then 1
     else if is_digit c \<or> c = CHR ''-'' then 2 else if c = CHR 0x22 then 3
     else if c = CHR ''['' then 4 else if c = CHR ''{'' then 5 else 6)"

lemma digits_nat_Cons: "\<exists>c t. digits_nat n = c # t \<and> is_digit c"
  using digits_nat_all_digits [of n] by (cases "digits_nat n") auto

lemma shape_digit: "is_digit c \<Longrightarrow> shape c = 2"
  by (auto simp: shape_def is_digit_def Let_def)

lemma canon_shape: "canon v \<noteq> [] \<and> shape (hd (canon v)) = ctor v"
proof (cases v)
  case (JInt i)
  obtain c t where "digits_nat (nat i) = c # t" "is_digit c" using digits_nat_Cons by blast
  moreover have "shape (CHR ''-'') = 2" by (simp add: shape_def)
  ultimately show ?thesis using JInt by (simp add: str_int_def shape_digit)
qed (auto simp: canon_str_def shape_def is_digit_def Let_def)

lemma canon_start: "canon v \<noteq> [] \<and> hd (canon v) \<notin> {CHR '']'', CHR ''}''}"
proof -
  have "shape (CHR '']'') = 6" "shape (CHR ''}'') = 6" by (simp_all add: shape_def is_digit_def Let_def)
  moreover have "ctor v < 6" by (cases v) auto
  ultimately show ?thesis using canon_shape [of v] by (metis insertE less_irrefl singletonD)
qed

lemma canon_ctor: "canon v @ r = canon v' @ r' \<Longrightarrow> ctor v' = ctor v"
  using canon_shape [of v] canon_shape [of v'] by (metis hd_append2)

lemma canon_code:
  "delimited r \<Longrightarrow> delimited r' \<Longrightarrow> canon v @ r = canon v' @ r' \<Longrightarrow> norm v = norm v' \<and> r = r'"
proof (induction v arbitrary: v' r r')
  case JNull
  then show ?case using canon_ctor [OF JNull.prems(3)] by (cases v') auto
next
  case (JBool b)
  then show ?case using canon_ctor [OF JBool.prems(3)] by (cases v') (auto split: if_splits)
next
  case (JInt i)
  then show ?case using canon_ctor [OF JInt.prems(3)] by (cases v') (auto dest: str_int_code)
next
  case (JStr s)
  then show ?case using canon_ctor [OF JStr.prems(3)] by (cases v') (auto dest: canon_str_code)
next
  case (JList vs)
  obtain vs' where v': "v' = JList vs'" using canon_ctor [OF JList.prems(3)] by (cases v') auto
  have "join '','' (map canon vs) @ CHR '']'' # r = join '','' (map canon vs') @ CHR '']'' # r'"
    using JList.prems(3) v' by simp
  then have "map norm vs = map norm vs' \<and> r = r'"
    by (rule items_code [rotated -1]) (use JList.IH canon_start in auto)
  then show ?case using v' by simp
next
  case (JObj kvs)
  obtain kvs' where v': "v' = JObj kvs'" using canon_ctor [OF JObj.prems(3)] by (cases v') auto
  let ?g = "\<lambda>kv. (fst kv, norm (snd kv))"
  have "join '','' (map canon_item (sort_key fst kvs)) @ CHR ''}'' # r
      = join '','' (map canon_item (sort_key fst kvs')) @ CHR ''}'' # r'"
    using JObj.prems(3) v' by (simp add: canon_obj del: canon.simps)
  then have "map ?g (sort_key fst kvs) = map ?g (sort_key fst kvs') \<and> r = r'"
  proof (rule items_code [rotated -1])
    fix x y t t' assume x: "x \<in> set (sort_key fst kvs)" and d: "delimited t" "delimited t'"
      and e: "canon_item x @ t = canon_item y @ t'"
    then have "canon_str (fst x) @ CHR '':'' # canon (snd x) @ t = canon_str (fst y) @ CHR '':'' # canon (snd y) @ t'"
      by (simp add: canon_item_def)
    then have "fst x = fst y \<and> canon (snd x) @ t = canon (snd y) @ t'" by (auto dest: canon_str_code)
    moreover have "x \<in> set kvs" "snd x \<in> Basic_BNFs.snds x" using x by (simp_all add: snds.simps)
    ultimately show "?g x = ?g y \<and> t = t'" using JObj.IH d by blast
  qed (auto simp: canon_item_def canon_str_def)
  then show ?case using v' by (simp add: norm_obj del: norm.simps)
qed

lemma canonical_injective:
  assumes "canonical_bytes f = canonical_bytes f'"
  shows "norm (JObj (filter (\<lambda>(k, _). k \<noteq> ''mac'') f)) = norm (JObj (filter (\<lambda>(k, _). k \<noteq> ''mac'') f'))"
proof -
  have "canon (JObj (filter (\<lambda>(k, _). k \<noteq> ''mac'') f)) @ [] = canon (JObj (filter (\<lambda>(k, _). k \<noteq> ''mac'') f')) @ []"
    using assms by (simp add: canonical_bytes_def del: canon.simps)
  then show ?thesis by (rule canon_code [THEN conjunct1, rotated -1]) (simp_all add: delimited_def)
qed

lemma map_of_filter_key: "map_of xs k = map_of (filter (\<lambda>x. fst x = k) xs) k"
  by (induction xs) auto

lemma map_of_sort_key: "map_of (sort_key fst xs) k = map_of xs k"
  by (metis map_of_filter_key sort_key_stable)

lemma norm_field:
  assumes "norm (JObj a) = norm (JObj b)"
  shows "map_option norm (map_of a k) = map_option norm (map_of b k)"
proof -
  have m: "map_of (map (\<lambda>kv. (fst kv, norm (snd kv))) xs) k = map_option norm (map_of xs k)" for xs :: dict
    by (induction xs) auto
  show ?thesis using assms m [of "sort_key fst a"] m [of "sort_key fst b"]
    by (simp add: norm_obj map_of_sort_key del: norm.simps)
qed

lemma norm_JInt: "norm v = JInt n \<longleftrightarrow> v = JInt n"
  by (cases v) auto

section \<open>Sessions: what is accepted is what was sent\<close>

definition unsigned :: "dict \<Rightarrow> dict" where
  "unsigned f = filter (\<lambda>(k, _). k \<noteq> ''mac'') f"

lemma map_of_unsigned: "k \<noteq> ''mac'' \<Longrightarrow> map_of (unsigned f) k = map_of f k"
  by (induction f) (auto simp: unsigned_def)

lemma unsigned_update: "unsigned (AList.update ''mac'' v f) = unsigned f"
  by (induction f) (auto simp: unsigned_def)

lemma mac_update: "compute_mac hmac key (AList.update ''mac'' v f) = compute_mac hmac key f"
  using unsigned_update [of v f] by (simp add: compute_mac_def canonical_bytes_def unsigned_def del: canon.simps)

lemma stamp_fields:
  "dget ''seq'' (fst (stamp hmac ses f)) = JInt (rs_send_seq ses + 1)"
  "dget ''mac'' (fst (stamp hmac ses f)) = JStr (compute_mac hmac (rs_key ses) (fst (stamp hmac ses f)))"
  "snd (stamp hmac ses f) = ses\<lparr>rs_send_seq := rs_send_seq ses + 1\<rparr>"
  by (simp_all add: stamp_def Let_def dget_def mac_update update_conv')

lemma stamp_all_seq:
  "length (stamp_all hmac ses fs) = length fs"
  "i < length fs \<Longrightarrow> dget ''seq'' (stamp_all hmac ses fs ! i) = JInt (rs_send_seq ses + 1 + int i)"
proof -
  show "length (stamp_all hmac ses fs) = length fs" by (induction fs arbitrary: ses) auto
  show "i < length fs \<Longrightarrow> dget ''seq'' (stamp_all hmac ses fs ! i) = JInt (rs_send_seq ses + 1 + int i)"
    by (induction fs arbitrary: ses i) (auto simp: nth_Cons stamp_fields split: nat.splits)
qed

lemma verify_Inr:
  "verify hmac ses f = (Inr u, ses') \<longleftrightarrow>
     dget ''seq'' f = JInt (rs_recv_expected ses) \<and> (\<exists>m. dget ''mac'' f = JStr m \<and> verify_mac hmac (rs_key ses) f m)
     \<and> ses' = ses\<lparr>rs_recv_expected := rs_recv_expected ses + 1\<rparr>"
  by (auto simp: verify_def split: jval.splits)

lemma verify_all_accepts:
  "rs_key ses = rs_key ses' \<Longrightarrow> rs_recv_expected ses' = rs_send_seq ses + 1 \<Longrightarrow>
     verify_all hmac ses' (stamp_all hmac ses fs) = stamp_all hmac ses fs"
proof (induction fs arbitrary: ses ses')
  case (Cons f fs)
  have "verify hmac ses' (fst (stamp hmac ses f)) = (Inr (), ses'\<lparr>rs_recv_expected := rs_recv_expected ses' + 1\<rparr>)"
    using Cons.prems by (simp add: verify_Inr stamp_fields verify_mac_def)
  then show ?case using Cons.IH [of "snd (stamp hmac ses f)" "ses'\<lparr>rs_recv_expected := rs_recv_expected ses' + 1\<rparr>"] Cons.prems
    by (simp add: stamp_fields)
qed simp

lemma verify_all_nth:
  "k < length (verify_all hmac ses ds) \<Longrightarrow>
     dget ''seq'' (verify_all hmac ses ds ! k) = JInt (rs_recv_expected ses + int k)
     \<and> verify_all hmac ses ds ! k \<in> set ds
     \<and> (\<exists>m. dget ''mac'' (verify_all hmac ses ds ! k) = JStr m \<and> verify_mac hmac (rs_key ses) (verify_all hmac ses ds ! k) m)"
proof (induction ds arbitrary: ses k)
  case (Cons d ds)
  obtain ses' where v: "verify hmac ses d = (Inr (), ses')"
    using Cons.prems by (cases "verify hmac ses d"; cases "fst (verify hmac ses d)") auto
  then have ses': "ses' = ses\<lparr>rs_recv_expected := rs_recv_expected ses + 1\<rparr>" by (simp add: verify_Inr)
  show ?case
  proof (cases k)
    case 0
    then have "verify_all hmac ses (d # ds) ! k = d" using v by simp
    then show ?thesis using v 0 unfolding verify_Inr by simp
  next
    case (Suc j)
    then show ?thesis using Cons.IH [of j ses'] Cons.prems v ses' by auto
  qed
qed simp

lemma seq_of_canonical:
  assumes "canonical_bytes d = canonical_bytes f" and "dget ''seq'' d = JInt n"
  shows "dget ''seq'' f = JInt n"
proof -
  have "map_option norm (map_of (unsigned d) ''seq'') = map_option norm (map_of (unsigned f) ''seq'')"
    using canonical_injective [OF assms(1)] by (intro norm_field) (simp add: unsigned_def del: norm.simps)
  then have "map_option norm (map_of d ''seq'') = map_option norm (map_of f ''seq'')"
    by (simp add: map_of_unsigned)
  moreover have "map_of d ''seq'' = Some (JInt n)" using assms(2) by (simp add: dget_def split: option.splits)
  ultimately obtain v where "map_of f ''seq'' = Some v" "norm v = JInt n" by (cases "map_of f ''seq''") auto
  then show ?thesis by (simp add: dget_def norm_JInt)
qed

section \<open>The nonce cache\<close>

text \<open>The cache is a dictionary of dictionaries: a key occurs once.\<close>

definition wf_cache :: "nonce_cache \<Rightarrow> bool" where
  "wf_cache seen \<longleftrightarrow> distinct (map fst seen) \<and> (\<forall>(a, b)\<in>set seen. distinct (map fst b))"

definition expiry :: "nonce_cache \<Rightarrow> string \<Rightarrow> string \<Rightarrow> int option" where
  "expiry seen a n = (case map_of seen a of None \<Rightarrow> None | Some b \<Rightarrow> map_of b n)"

lemma map_of_filter_snd:
  "distinct (map fst b) \<Longrightarrow>
     map_of (filter (\<lambda>(_, t). P t) b) n = (case map_of b n of None \<Rightarrow> None | Some t \<Rightarrow> if P t then Some t else None)"
  by (induction b) (auto split: option.splits simp: map_of_eq_None_iff image_iff)

lemma map_of_map_snd: "map_of (map (\<lambda>(k, v). (k, f v)) b) n = map_option f (map_of b n)"
  by (induction b) auto

lemma distinct_map_fst_filter: "distinct (map fst b) \<Longrightarrow> distinct (map fst (filter P b))"
  by (induction b) (auto simp: image_iff)

lemma wf_prune: "wf_cache seen \<Longrightarrow> wf_cache (prune seen now)"
  by (auto simp: wf_cache_def prune_def comp_def case_prod_beta intro!: distinct_map_fst_filter)

lemma bucket_distinct: "wf_cache seen \<Longrightarrow> map_of seen a = Some b \<Longrightarrow> distinct (map fst b)"
  by (auto simp: wf_cache_def dest!: map_of_SomeD)

lemma map_of_prune:
  assumes "wf_cache seen"
  shows "map_of (prune seen now) a =
     (case map_of seen a of None \<Rightarrow> None
      | Some b \<Rightarrow> (let b' = filter (\<lambda>(_, t). t > now) b in if b' = [] then None else Some b'))"
proof -
  let ?m = "map (\<lambda>(aid, bucket). (aid, filter (\<lambda>(_, t). t > now) bucket)) seen"
  have "distinct (map fst ?m)" using assms by (simp add: wf_cache_def comp_def case_prod_beta)
  then show ?thesis
    by (simp add: prune_def map_of_filter_snd map_of_map_snd Let_def split: option.splits)
qed

lemma expiry_prune:
  assumes "wf_cache seen"
  shows "expiry (prune seen now) a n =
     (case expiry seen a n of None \<Rightarrow> None | Some e \<Rightarrow> if e > now then Some e else None)"
proof (cases "map_of seen a")
  case (Some b)
  have "map_of (filter (\<lambda>(_, t). t > now) b) n
      = (case map_of b n of None \<Rightarrow> None | Some e \<Rightarrow> if e > now then Some e else None)"
    by (rule map_of_filter_snd) (rule bucket_distinct [OF assms Some])
  then show ?thesis using Some by (auto simp: expiry_def map_of_prune [OF assms] Let_def split: option.splits if_splits)
qed (simp add: expiry_def map_of_prune [OF assms])

lemma wf_update:
  assumes "wf_cache seen" and "distinct (map fst b)"
  shows "wf_cache (AList.update a b seen)"
proof -
  have "(x, y) = (a, b) \<or> (x, y) \<in> set seen" if "(x, y) \<in> set (AList.update a b seen)" for x y
    using that by (induction seen) (auto split: if_splits)
  then show ?thesis using assms by (fastforce simp: wf_cache_def distinct_update)
qed

lemma expiry_update:
  "expiry (AList.update a b seen) a' n' = (if a' = a then map_of b n' else expiry seen a' n')"
  by (simp add: expiry_def update_conv')

text \<open>Under the invariant the cache is a finite map from (agent, nonce) to expiry times.\<close>

lemma check_and_record_spec:
  fixes a n :: string
  assumes "wf_cache seen" and "0 \<le> now"
  defines "fresh \<equiv> case expiry seen a n of None \<Rightarrow> True | Some e \<Rightarrow> e \<le> now"
  shows "fst (check_and_record w seen a n now) = fresh"
    and "wf_cache (snd (check_and_record w seen a n now))"
    and "expiry (snd (check_and_record w seen a n now)) a' n' =
           (if fresh \<and> a' = a \<and> n' = n then Some (now + w) else expiry (prune seen now) a' n')"
proof -
  let ?p = "prune seen now"
  define b where "b = (case map_of ?p a of None \<Rightarrow> [] | Some b \<Rightarrow> b)"
  define s1 where "s1 = (case map_of ?p a of None \<Rightarrow> ?p @ [(a, [])] | Some _ \<Rightarrow> ?p)"
  have wfp: "wf_cache ?p" by (rule wf_prune [OF assms(1)])
  have wf1: "wf_cache s1" using wfp by (auto simp: s1_def wf_cache_def map_of_eq_None_iff split: option.splits)
  have e1: "expiry s1 = expiry ?p"
    by (rule ext)+ (auto simp: s1_def expiry_def map_add_def split: option.splits)
  have mb: "map_of b = expiry ?p a" by (rule ext) (simp add: b_def expiry_def split: option.splits)
  have db: "distinct (map fst b)" using bucket_distinct [OF wfp] by (simp add: b_def split: option.splits)
  have test: "(case map_of b n of None \<Rightarrow> 0 | Some t \<Rightarrow> t) > now \<longleftrightarrow> \<not> fresh"
    using assms(2) by (auto simp: mb expiry_prune [OF assms(1)] fresh_def split: option.splits)
  have r: "check_and_record w seen a n now
      = (if \<not> fresh then (False, s1) else (True, AList.update a (AList.update n (now + w) b) s1))"
    by (simp add: check_and_record_def b_def [symmetric] s1_def [symmetric] test Let_def)
  show "fst (check_and_record w seen a n now) = fresh" by (simp add: r)
  show "wf_cache (snd (check_and_record w seen a n now))"
    using wf1 db by (simp add: r wf_update distinct_update)
  show "expiry (snd (check_and_record w seen a n now)) a' n' =
           (if fresh \<and> a' = a \<and> n' = n then Some (now + w) else expiry (prune seen now) a' n')"
    by (simp add: r e1 expiry_update update_conv' mb)
qed

lemma freshness_None:
  "check_register_freshness now seen a f = (None, seen') \<longleftrightarrow>
     (\<exists>n ts. dget ''nonce'' f = JStr n \<and> nonce_min_hex_len \<le> length n \<and> dget ''ts'' f = JInt ts
        \<and> \<bar>now - ts\<bar> \<le> replay_ts_window \<and> check_and_record replay_ts_window seen a n now = (True, seen'))"
  by (auto simp: check_register_freshness_def split: jval.splits prod.splits bool.splits)

lemma freshness_step:
  "snd (check_register_freshness now seen a f) = seen
   \<or> (\<exists>n. dget ''nonce'' f = JStr n
        \<and> snd (check_register_freshness now seen a f) = snd (check_and_record replay_ts_window seen a n now))"
  by (auto simp: check_register_freshness_def split: jval.splits prod.splits bool.splits)

lemma freshness_wf:
  "wf_cache seen \<Longrightarrow> 0 \<le> now \<Longrightarrow> wf_cache (snd (check_register_freshness now seen a f))"
  using freshness_step [of now seen a f] by (auto simp: check_and_record_spec)

lemma freshness_keeps:
  assumes "wf_cache seen" "0 \<le> now" "expiry seen a n = Some e" "now < e"
  shows "expiry (snd (check_register_freshness now seen a' f)) a n = Some e"
    and "a' = a \<Longrightarrow> dget ''nonce'' f = JStr n \<Longrightarrow> fst (check_register_freshness now seen a' f) \<noteq> None"
proof -
  show "expiry (snd (check_register_freshness now seen a' f)) a n = Some e"
    using freshness_step [of now seen a' f] assms by (auto simp: check_and_record_spec expiry_prune)
  show "fst (check_register_freshness now seen a' f) \<noteq> None" if "a' = a" "dget ''nonce'' f = JStr n"
  proof
    assume "fst (check_register_freshness now seen a' f) = None"
    then obtain s where "check_register_freshness now seen a' f = (None, s)" by (metis prod.collapse)
    then have "fst (check_and_record replay_ts_window seen a n now)" using that by (auto simp: freshness_None)
    then show False using assms by (simp add: check_and_record_spec)
  qed
qed

lemma freshness_accepts:
  assumes "wf_cache seen" "0 \<le> now" "fst (check_register_freshness now seen a f) = None"
  obtains n ts where "dget ''nonce'' f = JStr n" "dget ''ts'' f = JInt ts" "\<bar>now - ts\<bar> \<le> replay_ts_window"
    and "expiry (snd (check_register_freshness now seen a f)) a n = Some (now + replay_ts_window)"
proof -
  obtain s where s: "check_register_freshness now seen a f = (None, s)" using assms(3) by (metis prod.collapse)
  then obtain n ts where n: "dget ''nonce'' f = JStr n" "dget ''ts'' f = JInt ts" "\<bar>now - ts\<bar> \<le> replay_ts_window"
    and c: "check_and_record replay_ts_window seen a n now = (True, s)" by (auto simp: freshness_None)
  note spec = check_and_record_spec [OF assms(1,2), of replay_ts_window a n]
  have "expiry (snd (check_and_record replay_ts_window seen a n now)) a n = Some (now + replay_ts_window)"
    using spec(1) spec(3) [of a n] c by auto
  then show thesis using that [OF n] s c by simp
qed

text \<open>The register frames the hub sees, each with the time and the agent that sent it.\<close>

fun register_run :: "nonce_cache \<Rightarrow> (int \<times> string \<times> dict) list \<Rightarrow> string option list" where
  "register_run seen [] = []"
| "register_run seen ((now, a, f) # evs) =
     fst (check_register_freshness now seen a f) # register_run (snd (check_register_freshness now seen a f)) evs"

lemma length_register_run [simp]: "length (register_run seen evs) = length evs"
  by (induction seen evs rule: register_run.induct) auto

lemma run_accepts_ts:
  "j < length evs \<Longrightarrow> evs ! j = (t, a, f) \<Longrightarrow> register_run seen evs ! j = None \<Longrightarrow>
     dget ''ts'' f = JInt ts \<Longrightarrow> \<bar>t - ts\<bar> \<le> replay_ts_window"
proof (induction seen evs arbitrary: j rule: register_run.induct)
  case (2 seen now a' f' evs)
  show ?case
  proof (cases j)
    case 0
    then have "fst (check_register_freshness t seen a f) = None" using 2 by simp
    then obtain s where "check_register_freshness t seen a f = (None, s)" by (metis prod.collapse)
    then show ?thesis using 2(5) by (auto simp: freshness_None)
  next
    case (Suc i)
    then show ?thesis using 2 by auto
  qed
qed simp

lemma recorded_nonce_refused:
  assumes "wf_cache seen" "sorted (map fst evs)" "\<forall>ev\<in>set evs. 0 \<le> fst ev" "expiry seen a n = Some e"
    and "j < length evs" "evs ! j = (t, a, f)" "dget ''nonce'' f = JStr n" "register_run seen evs ! j = None"
  shows "e \<le> t"
  using assms
proof (induction evs arbitrary: seen j)
  case (Cons ev evs)
  obtain t0 a0 f0 where ev: "ev = (t0, a0, f0)" by (cases ev)
  show ?case
  proof (cases "t0 < e")
    case True
    note keep = freshness_keeps [OF Cons.prems(1) _ Cons.prems(4) True]
    have 0: "0 \<le> t0" using Cons.prems(3) ev by simp
    show ?thesis
    proof (cases j)
      case 0
      then have "a0 = a" "f0 = f" "fst (check_register_freshness t0 seen a0 f0) = None" using Cons.prems(6,8) ev by auto
      then show ?thesis using keep(2) [OF \<open>0 \<le> t0\<close>, of a0 f0] Cons.prems(7) by simp
    next
      case (Suc i)
      show ?thesis
        by (rule Cons.IH [where seen = "snd (check_register_freshness t0 seen a0 f0)" and j = i])
          (use Cons.prems Suc ev keep(1) [OF 0] freshness_wf [OF Cons.prems(1) 0] in auto)
    qed
  next
    case False
    have "(t, a, f) \<in> set (ev # evs)" using Cons.prems(5,6) by (metis nth_mem)
    then have "t0 \<le> t" using Cons.prems(2) ev by auto
    then show ?thesis using False by simp
  qed
qed simp

section \<open>Properties\<close>



text \<open>
  a register frame that was accepted at time t can be accepted again only at a time t' in
  t + 300 .. ts + 300, so never when its time stamp ts lay in the past when it was first accepted.
  Times do not decrease and the cache starts empty.
\<close>

theorem register_not_replayed:
  assumes "sorted (map fst evs)" "\<forall>ev\<in>set evs. 0 \<le> fst ev"
    and "i < j" "j < length evs" "evs ! i = (t, a, f)" "evs ! j = (t', a, f)"
    and "register_run [] evs ! i = None" "register_run [] evs ! j = None"
  shows "\<exists>ts. dget ''ts'' f = JInt ts \<and> t \<le> ts \<and> t + replay_ts_window \<le> t' \<and> t' \<le> ts + replay_ts_window"
proof -
  have "\<exists>ts. dget ''ts'' f = JInt ts \<and> t \<le> ts \<and> t + replay_ts_window \<le> t' \<and> t' \<le> ts + replay_ts_window"
    if "wf_cache seen" "register_run seen evs ! i = None" "register_run seen evs ! j = None"
    for seen
    using assms(1-6) that
  proof (induction evs arbitrary: seen i j)
    case (Cons ev evs)
    obtain t0 a0 f0 where ev: "ev = (t0, a0, f0)" by (cases ev)
    have t0: "0 \<le> t0" using Cons.prems(2) ev by simp
    obtain j' where j: "j = Suc j'" using Cons.prems(3) by (cases j) auto
    let ?s = "snd (check_register_freshness t0 seen a0 f0)"
    have wf: "wf_cache ?s" by (rule freshness_wf [OF Cons.prems(7) t0])
    show ?case
    proof (cases i)
      case (Suc i')
      show ?thesis
        by (rule Cons.IH [where seen = ?s and i = i' and j = j']) (use Cons.prems Suc j ev wf in auto)
    next
      case 0
      then have h: "t0 = t" "a0 = a" "f0 = f" "fst (check_register_freshness t seen a f) = None"
        using Cons.prems(5,8) ev by auto
      obtain n ts where n: "dget ''nonce'' f = JStr n" "dget ''ts'' f = JInt ts"
        and e: "expiry ?s a n = Some (t + replay_ts_window)"
        using freshness_accepts [OF Cons.prems(7) _ h(4)] t0 h by metis
      have late: "t + replay_ts_window \<le> t'"
        by (rule recorded_nonce_refused [OF wf _ _ e, of evs j' t' f]) (use Cons.prems j ev n in auto)
      have "\<bar>t' - ts\<bar> \<le> replay_ts_window"
        by (rule run_accepts_ts [OF Cons.prems(4,6,9) n(2)])
      then show ?thesis using late n by auto
    qed
  qed simp
  from this [of "[]"] show ?thesis using assms(7,8) by (simp add: wf_cache_def)
qed

definition sample_register :: dict where
  "sample_register =
     [(''type'', JStr ''register''), (''nonce'', JStr (replicate 32 (CHR ''a''))), (''ts'', JInt 1000)]"

theorem register_not_replayed_witness:
  "\<exists>ts. dget ''ts'' sample_register = JInt ts \<and> 1000 \<le> ts \<and> 1000 + replay_ts_window \<le> 1300
     \<and> 1300 \<le> ts + replay_ts_window"
  by (rule register_not_replayed
       [of "[(1000, ''h1'', sample_register), (1300, ''h1'', sample_register)]" 0 1 1000 "''h1''" sample_register 1300])
    (simp_all add: sample_register_def dget_def check_register_freshness_def check_and_record_def prune_def
       nonce_min_hex_len_def replay_ts_window_def Let_def)

text \<open>
  the two windows do not overlap.  The nonce is forgotten 300 seconds after it was recorded, while the
  time stamp of the frame is still accepted at that moment, so the very same register frame is accepted a
  second time, 300 seconds after the first.
\<close>

theorem register_frame_replayed:
  assumes "0 \<le> t" "dget ''nonce'' f = JStr n" "nonce_min_hex_len \<le> length n" "dget ''ts'' f = JInt t"
  shows "register_run [] [(t, a, f), (t + replay_ts_window, a, f)] = [None, None]"
  using assms
  by (simp add: check_register_freshness_def check_and_record_def prune_def replay_ts_window_def Let_def)

theorem register_frame_replayed_witness:
  "register_run [] [(1000, ''h1'', sample_register), (1000 + replay_ts_window, ''h1'', sample_register)] = [None, None]"
  by (rule register_frame_replayed [where n = "replicate 32 (CHR ''a'')"]) (simp_all add: sample_register_def dget_def nonce_min_hex_len_def)

end
