(* ===== verification/Address_Allocation.thy ===== *)
theory Address_Allocation
  imports Guest_Network
begin

text \<open>
  The address a new guest gets: \<^verbatim>\<open>provision/ip_allocation.py\<close>.

  The cluster is seen through the two reads the allocator makes; what they answer is an argument
  (\<open>proxmox_reads\<close>).  A Python set of addresses is an HOL set.
\<close>

section \<open>Guest configurations\<close>

definition infra_host_floor :: nat where
  "infra_host_floor = 10"

datatype alloc_error =
    AddressAllocationError string
  | SubnetExhaustedError string
  | AddressValueError string

record allocated_address =
  aa_address :: string
  aa_prefixlen :: nat
  aa_gateway :: string
  aa_nameserver :: string

definition ipconfig0 :: "allocated_address \<Rightarrow> string" where
  "ipconfig0 a = ''ip='' @ aa_address a @ ''/'' @ digits_nat (aa_prefixlen a) @ '',gw='' @ aa_gateway a"

text \<open>\<open>part.partition("=")\<close> where the text has an equals sign.\<close>

definition kv_part :: "string \<Rightarrow> (string \<times> string) option" where
  "kv_part part =
     (if CHR ''='' \<in> set part
      then Some (py_lower (py_strip (takeWhile (\<lambda>c. c \<noteq> CHR ''='') part)),
                 py_strip (tl (dropWhile (\<lambda>c. c \<noteq> CHR ''='') part)))
      else None)"

fun kv_parts :: "string list \<Rightarrow> (string \<times> string) list \<Rightarrow> (string \<times> string) list" where
  "kv_parts [] out = out"
| "kv_parts (p # ps) out =
     kv_parts ps (case kv_part p of None \<Rightarrow> out | Some (k, v) \<Rightarrow> AList.update k v out)"

definition kv :: "jval \<Rightarrow> (string \<times> string) list" where
  "kv line = kv_parts (split_on (CHR '','') (str_or_empty line)) []"

definition kv_get :: "string \<Rightarrow> (string \<times> string) list \<Rightarrow> string" where
  "kv_get k d = (case map_of d k of None \<Rightarrow> [] | Some v \<Rightarrow> v)"

text \<open>
  The pattern asks for four groups of one to three digits, a slash and one or two digits; the address
  in front of the slash is then parsed, which fails on an octet above 255 or with a leading zero.
\<close>

definition address_in :: "jval \<Rightarrow> ipv4 option" where
  "address_in v =
     (case split_on (CHR ''/'') (kv_get ''ip'' (kv v)) of
        [a, m] \<Rightarrow> (if m \<noteq> [] \<and> length m \<le> 2 \<and> list_all is_digit m then parse_ipv4 a else None)
      | _ \<Rightarrow> None)"

text \<open>The digits of a key \<open>net<n>\<close>; the dollar of the pattern also accepts a newline at the end.\<close>

definition net_index :: "string \<Rightarrow> string option" where
  "net_index k =
     (if prefix ''net'' k
      then let r = drop 3 k;
               ds = (if r \<noteq> [] \<and> last r = nl then butlast r else r)
           in if ds \<noteq> [] \<and> list_all is_digit ds then Some ds else None
      else None)"

definition claimed_by_nic :: "dict \<Rightarrow> string \<Rightarrow> string \<times> jval \<Rightarrow> ipv4 set" where
  "claimed_by_nic config vnet item =
     (case net_index (fst item) of
        None \<Rightarrow> {}
      | Some i \<Rightarrow>
          (if kv_get ''bridge'' (kv (snd item)) \<noteq> vnet then {}
           else set_option (address_in (snd item)) \<union> set_option (address_in (dget (''ipconfig'' @ i) config))))"

definition claimed_in_config :: "dict \<Rightarrow> string \<Rightarrow> ipv4 set" where
  "claimed_in_config config vnet = \<Union> (set (map (claimed_by_nic config vnet) config))"

section \<open>The scan of the cluster\<close>

record proxmox_reads =
  px_resources :: "jval res"
  px_vm_config :: "string \<Rightarrow> int \<Rightarrow> string \<Rightarrow> jval res"

text \<open>\<open>int(s)\<close> of a string: digits with single underscores between them, a sign and blanks around.\<close>

definition int_digits :: "string \<Rightarrow> nat option" where
  "int_digits s =
     (let parts = split_on (CHR ''_'') s in
      if list_all (\<lambda>p. p \<noteq> [] \<and> list_all is_digit p) parts then Some (nat_of_digits (concat parts)) else None)"

definition int_of_str :: "string \<Rightarrow> int option" where
  "int_of_str s =
     (case py_strip s of
        [] \<Rightarrow> None
      | c # cs \<Rightarrow>
          (if c = CHR ''-'' then map_option (\<lambda>n. - int n) (int_digits cs)
           else if c = CHR ''+'' then map_option int (int_digits cs)
           else map_option int (int_digits (c # cs))))"

definition py_int :: "jval \<Rightarrow> int option" where
  "py_int v = (case v of JInt i \<Rightarrow> Some i | JBool b \<Rightarrow> Some (if b then 1 else 0) | JStr s \<Rightarrow> int_of_str s | _ \<Rightarrow> None)"

definition resource_rows :: "jval \<Rightarrow> jval list" where
  "resource_rows listing =
     (case (case listing of JObj kvs \<Rightarrow> dget_or ''data'' listing kvs | _ \<Rightarrow> listing) of
        JList rows \<Rightarrow> rows
      | _ \<Rightarrow> [])"

text \<open>The node, number and type of the guest a row names; \<open>None\<close> where the loop goes on.\<close>

definition guest_row :: "jval \<Rightarrow> (string \<times> int \<times> string) option" where
  "guest_row row =
     (case row of
        JObj kvs \<Rightarrow>
          (let node = str_or_empty (dget ''node'' kvs); guest_type = str_or_empty (dget ''type'' kvs);
               vmid_raw = dget ''vmid'' kvs in
           if node = [] \<or> guest_type \<notin> {''qemu'', ''lxc''} \<or> vmid_raw = JNull then None
           else map_option (\<lambda>vmid. (node, vmid, guest_type)) (py_int vmid_raw))
      | _ \<Rightarrow> None)"

fun scan_rows :: "proxmox_reads \<Rightarrow> string \<Rightarrow> jval list \<Rightarrow> ipv4 set \<Rightarrow> alloc_error + ipv4 set" where
  "scan_rows px vnet [] claimed = Inr claimed"
| "scan_rows px vnet (row # rows) claimed =
     (case guest_row row of
        None \<Rightarrow> scan_rows px vnet rows claimed
      | Some (node, vmid, guest_type) \<Rightarrow>
          (case px_vm_config px node vmid guest_type of
             Inl exc \<Rightarrow> Inl (AddressAllocationError (''could not read the config of guest '' @ str_int vmid
               @ '' on '' @ node @ '' ('' @ exn_str exc @ '')''))
           | Inr config \<Rightarrow>
               scan_rows px vnet rows
                 (case config of JObj kvs \<Rightarrow> claimed \<union> claimed_in_config kvs vnet | _ \<Rightarrow> claimed)))"

definition claimed_addresses :: "proxmox_reads option \<Rightarrow> string \<Rightarrow> alloc_error + ipv4 set" where
  "claimed_addresses proxmox vnet =
     (case proxmox of
        None \<Rightarrow> Inl (AddressAllocationError ''Proxmox is not configured'')
      | Some px \<Rightarrow>
          (case px_resources px of
             Inl exc \<Rightarrow> Inl (AddressAllocationError (''could not list the cluster's guests: '' @ exn_str exc))
           | Inr listing \<Rightarrow> scan_rows px vnet (resource_rows listing) {}))"

section \<open>Picking an address\<close>

text \<open>\<open>IPv4Network.hosts()\<close>.\<close>

definition hosts :: "ipv4_net \<Rightarrow> ipv4 list" where
  "hosts n =
     (if 31 \<le> net_len n then [net_addr n ..< net_addr n + net_size n]
      else [net_addr n + 1 ..< net_addr n + net_size n - 1])"

definition pick_address :: "desired_network \<Rightarrow> ipv4 set \<Rightarrow> nat \<Rightarrow> alloc_error + ipv4" where
  "pick_address network claimed flr =
     (case parse_net (dg_subnet_cidr network) of
        None \<Rightarrow> Inl (AddressValueError (dg_subnet_cidr network))
      | Some subnet \<Rightarrow>
          (case parse_ipv4 (dg_gateway network) of
             None \<Rightarrow> Inl (AddressValueError (dg_gateway network))
           | Some gateway \<Rightarrow>
               (case find (\<lambda>h. \<not> h - net_addr subnet < flr \<and> \<not> (h = gateway \<or> h \<in> claimed)) (hosts subnet) of
                  Some h \<Rightarrow> Inr h
                | None \<Rightarrow> Inl (SubnetExhaustedError (''no free address left in the guest subnet '' @ str_net subnet)))))"

definition allocate_address :: "proxmox_reads option \<Rightarrow> desired_network \<Rightarrow> string \<Rightarrow> alloc_error + allocated_address" where
  "allocate_address proxmox network nameserver =
     (case claimed_addresses proxmox (dg_vnet network) of
        Inl e \<Rightarrow> Inl e
      | Inr claimed \<Rightarrow>
          (case pick_address network claimed infra_host_floor of
             Inl e \<Rightarrow> Inl e
           | Inr chosen \<Rightarrow>
               (case parse_net (dg_subnet_cidr network) of
                  None \<Rightarrow> Inl (AddressValueError (dg_subnet_cidr network))
                | Some subnet \<Rightarrow>
                    Inr \<lparr>aa_address = str_ipv4 chosen, aa_prefixlen = net_len subnet,
                         aa_gateway = dg_gateway network, aa_nameserver = py_strip nameserver\<rparr>)))"

section \<open>What the scan sees\<close>

text \<open>Some guest of the cluster, with a readable configuration, claims the address on the vnet.\<close>

definition holds_address :: "proxmox_reads \<Rightarrow> string \<Rightarrow> ipv4 \<Rightarrow> bool" where
  "holds_address px vnet a \<longleftrightarrow>
     (\<exists>listing. px_resources px = Inr listing \<and>
        (\<exists>row\<in>set (resource_rows listing). \<exists>node vmid t cfg. guest_row row = Some (node, vmid, t)
           \<and> px_vm_config px node vmid t = Inr (JObj cfg) \<and> a \<in> claimed_in_config cfg vnet))"

lemma scan_rows_Inr:
  "scan_rows px vnet rows C = Inr C' \<Longrightarrow>
     (\<forall>row\<in>set rows. \<forall>node vmid t. guest_row row = Some (node, vmid, t) \<longrightarrow>
        (\<exists>cfg. px_vm_config px node vmid t = Inr cfg)) \<and>
     C' = C \<union> {a. \<exists>row\<in>set rows. \<exists>node vmid t cfg. guest_row row = Some (node, vmid, t)
                 \<and> px_vm_config px node vmid t = Inr (JObj cfg) \<and> a \<in> claimed_in_config cfg vnet}"
proof (induction rows arbitrary: C)
  case (Cons row rows)
  show ?case
  proof (cases "guest_row row")
    case None
    then show ?thesis using Cons.prems Cons.IH [of C] by auto
  next
    case (Some g)
    obtain node vmid t where g: "g = (node, vmid, t)" by (cases g)
    with Some Cons.prems obtain cfg where cfg: "px_vm_config px node vmid t = Inr cfg"
      by (auto split: sum.splits)
    show ?thesis
    proof (cases "\<exists>kvs. cfg = JObj kvs")
      case True
      then obtain kvs where k: "cfg = JObj kvs" by blast
      then show ?thesis using Cons.prems Some g cfg Cons.IH [of "C \<union> claimed_in_config kvs vnet"] by auto
    next
      case False
      then have "scan_rows px vnet rows C = Inr C'" using Cons.prems Some g cfg by (simp split: jval.splits)
      then show ?thesis using Some g cfg False Cons.IH [of C] by auto
    qed
  qed
qed simp

lemma claimed_addresses_Inr:
  assumes "claimed_addresses p vnet = Inr C"
  obtains px listing where "p = Some px" "px_resources px = Inr listing"
    "\<forall>row\<in>set (resource_rows listing). \<forall>node vmid t. guest_row row = Some (node, vmid, t) \<longrightarrow>
        (\<exists>cfg. px_vm_config px node vmid t = Inr cfg)"
    "C = {a. holds_address px vnet a}"
proof -
  obtain px listing where p: "p = Some px" "px_resources px = Inr listing"
    and s: "scan_rows px vnet (resource_rows listing) {} = Inr C"
    using assms by (auto simp: claimed_addresses_def split: option.splits sum.splits)
  have h: "holds_address px vnet a \<longleftrightarrow>
      (\<exists>row\<in>set (resource_rows listing). \<exists>node vmid t cfg. guest_row row = Some (node, vmid, t)
         \<and> px_vm_config px node vmid t = Inr (JObj cfg) \<and> a \<in> claimed_in_config cfg vnet)" for a
    by (simp only: holds_address_def p(2) sum.inject ex_simps simp_thms)
  note r = scan_rows_Inr [OF s, unfolded Un_empty_left, folded h]
  show thesis by (rule that [OF p conjunct1 [OF r] conjunct2 [OF r]])
qed

lemma find_sorted:
  fixes xs :: "nat list"
  shows "sorted_wrt (<) xs \<Longrightarrow>
     find P xs = Some a \<longleftrightarrow> a \<in> set xs \<and> P a \<and> (\<forall>b\<in>set xs. b < a \<longrightarrow> \<not> P b)"
  by (induction xs) (auto 0 3)

lemma pick_address_Inr:
  assumes "parse_net (dg_subnet_cidr g) = Some subnet" "parse_ipv4 (dg_gateway g) = Some gw"
  shows "pick_address g C flr = Inr a \<longleftrightarrow>
     a \<in> set (hosts subnet) \<and> net_addr subnet + flr \<le> a \<and> a \<noteq> gw \<and> a \<notin> C
     \<and> (\<forall>b\<in>set (hosts subnet). b < a \<longrightarrow> b < net_addr subnet + flr \<or> b = gw \<or> b \<in> C)"
proof -
  have ge: "net_addr subnet \<le> h" if "h \<in> set (hosts subnet)" for h
    using that by (auto simp: hosts_def split: if_splits)
  have ord: "sorted_wrt (<) (hosts subnet)" by (simp add: hosts_def)
  let ?P = "\<lambda>h. \<not> h - net_addr subnet < flr \<and> \<not> (h = gw \<or> h \<in> C)"
  have "pick_address g C flr = Inr a \<longleftrightarrow> find ?P (hosts subnet) = Some a"
    using assms by (simp add: pick_address_def split: option.splits)
  also have "\<dots> \<longleftrightarrow> a \<in> set (hosts subnet) \<and> ?P a \<and> (\<forall>b\<in>set (hosts subnet). b < a \<longrightarrow> \<not> ?P b)"
    by (rule find_sorted [OF ord])
  finally show ?thesis using ge by (force simp: less_diff_conv2 not_less)
qed

section \<open>Allocators in general\<close>

text \<open>
  What makes an allocator over a live scan safe: the scan reports every address that is held, and the
  choice avoids what the scan reported.
\<close>

locale address_pool =
  fixes scan :: "'c \<Rightarrow> 'e + ipv4 set"
    and pick :: "ipv4 set \<Rightarrow> 'e + ipv4"
    and holds :: "'c \<Rightarrow> ipv4 \<Rightarrow> bool"
  assumes scan_complete: "scan c = Inr C \<Longrightarrow> holds c a \<Longrightarrow> a \<in> C"
    and pick_free: "pick C = Inr a \<Longrightarrow> a \<notin> C"
begin

lemma not_held: "scan c = Inr C \<Longrightarrow> pick C = Inr a \<Longrightarrow> \<not> holds c a"
  using scan_complete pick_free by blast

lemma granted_once:
  assumes "\<And>i j a C. i < j \<Longrightarrow> j < length cs \<Longrightarrow> scan (cs ! i) = Inr C \<Longrightarrow> pick C = Inr a \<Longrightarrow> holds (cs ! j) a"
    and "i \<noteq> j" "i < length cs" "j < length cs"
    and "scan (cs ! i) = Inr C" "pick C = Inr a" "scan (cs ! j) = Inr D" "pick D = Inr b"
  shows "a \<noteq> b"
  using assms not_held by (metis linorder_neqE_nat)

end

lemma pick_address_free: "pick_address g C flr = Inr a \<Longrightarrow> a \<notin> C"
  by (auto simp: pick_address_def find_Some_iff split: option.splits)

interpretation pool: address_pool "\<lambda>px. claimed_addresses (Some px) vnet"
    "\<lambda>C. pick_address g C infra_host_floor" "\<lambda>px. holds_address px vnet" for vnet g
  by unfold_locales (auto elim: claimed_addresses_Inr simp: pick_address_free)

section \<open>What a guest is given it claims\<close>

lemma hosts_in_net: "wf_net n \<Longrightarrow> a \<in> set (hosts n) \<Longrightarrow> in_net a n"
  by (auto simp: in_net_bounds hosts_def split: if_splits)

lemma wf_net_bound: "wf_net n \<Longrightarrow> in_net a n \<Longrightarrow> a < 2 ^ 32"
proof -
  assume n: "wf_net n" and a: "in_net a n"
  have "net_size n dvd 2 ^ 32" unfolding net_size_def by (rule le_imp_power_dvd) simp
  moreover have "net_size n dvd net_addr n" using n by (auto simp: wf_net_def)
  ultimately obtain m k where m: "2 ^ 32 = net_size n * m" and k: "net_addr n = net_size n * k" unfolding dvd_def by blast
  have "net_size n * k < net_size n * m" using n unfolding m [symmetric] k [symmetric] by (simp add: wf_net_def)
  then have "Suc k \<le> m" by (metis Suc_leI nat_mult_less_cancel_disj)
  then have "net_size n * Suc k \<le> net_size n * m" by (rule mult_le_mono2)
  then have "net_addr n + net_size n \<le> 2 ^ 32" unfolding m k by simp
  then show ?thesis using a n by (simp add: in_net_bounds)
qed

lemma no_space_ipv4: "\<forall>c\<in>set (str_ipv4 a @ ''/'' @ digits_nat p). \<not> py_isspace c"
proof -
  have "\<not> py_isspace c" if "is_digit c" for c using that by (auto simp: is_digit_def py_isspace_def Let_def)
  then show ?thesis using digits_nat_all_digits by (fastforce simp: str_ipv4_def py_isspace_def)
qed

lemma kv_ipconfig0:
  assumes "CHR '','' \<notin> set (aa_gateway a)" "aa_address a = str_ipv4 x"
  shows "kv_get ''ip'' (kv (JStr (ipconfig0 a))) = str_ipv4 x @ ''/'' @ digits_nat (aa_prefixlen a)"
proof -
  let ?v = "str_ipv4 x @ ''/'' @ digits_nat (aa_prefixlen a)"
  have comma: "CHR '','' \<notin> set (''ip='' @ ?v)" "CHR '','' \<notin> set (''gw='' @ aa_gateway a)"
    using assms(1) by (auto simp: str_ipv4_no_char digits_nat_no_char is_digit_def)
  have "split_on (CHR '','') (ipconfig0 a) = [''ip='' @ ?v, ''gw='' @ aa_gateway a]"
    using split_on_append_sep [OF comma(1), of "''gw='' @ aa_gateway a"] split_on_no_sep [OF comma(2)] assms(2)
    by (simp add: ipconfig0_def)
  moreover have "kv_part (''ip='' @ ?v) = Some (''ip'', ?v)"
    using py_strip_no_space [OF no_space_ipv4, of x "aa_prefixlen a"]
    by (simp add: kv_part_def py_strip_no_space py_isspace_def py_lower_def to_lower_def is_upper_def)
  moreover have "kv_part (''gw='' @ aa_gateway a) = Some (''gw'', py_strip (aa_gateway a))"
    by (simp add: kv_part_def py_strip_no_space py_isspace_def py_lower_def to_lower_def is_upper_def)
  ultimately show ?thesis by (simp add: kv_def kv_get_def)
qed

lemma address_in_ipconfig0:
  assumes "CHR '','' \<notin> set (aa_gateway a)" "aa_address a = str_ipv4 x" "x < 2 ^ 32" "aa_prefixlen a \<le> 32"
  shows "address_in (JStr (ipconfig0 a)) = Some x"
proof -
  have "split_on (CHR ''/'') (str_ipv4 x @ ''/'' @ digits_nat (aa_prefixlen a)) = [str_ipv4 x, digits_nat (aa_prefixlen a)]"
    by (simp add: split_on_append_sep split_on_no_sep str_ipv4_no_char digits_nat_no_char)
  moreover have "length (digits_nat (aa_prefixlen a)) \<le> 2" using digits_nat_length [of "aa_prefixlen a" 2] assms(4) by simp
  ultimately show ?thesis
    using digits_nat_all_digits assms(3)
    by (simp add: address_in_def kv_ipconfig0 [OF assms(1,2)] list_all_iff parse_str_ipv4)
qed

lemma claimed_qemu:
  assumes "map_of cfg ''net0'' = Some nic" "kv_get ''bridge'' (kv nic) = vnet"
    and "map_of cfg ''ipconfig0'' = Some (JStr (ipconfig0 a))" "address_in (JStr (ipconfig0 a)) = Some x"
  shows "x \<in> claimed_in_config cfg vnet"
proof -
  have "(''net0'', nic) \<in> set cfg" using assms(1) by (rule map_of_SomeD)
  moreover have "x \<in> claimed_by_nic cfg vnet (''net0'', nic)"
    using assms by (simp add: claimed_by_nic_def net_index_def is_digit_def dget_def)
  ultimately show ?thesis by (auto simp: claimed_in_config_def)
qed

section \<open>Properties\<close>

text \<open>The listing and the configuration of every guest on it can be read.\<close>

definition scan_readable :: "proxmox_reads \<Rightarrow> bool" where
  "scan_readable px \<longleftrightarrow>
     (\<exists>listing. px_resources px = Inr listing \<and>
        (\<forall>row\<in>set (resource_rows listing). \<forall>node vmid t. guest_row row = Some (node, vmid, t) \<longrightarrow>
           (\<exists>cfg. px_vm_config px node vmid t = Inr cfg)))"

lemma scan_rows_readable:
  "(\<forall>row\<in>set rows. \<forall>node vmid t. guest_row row = Some (node, vmid, t) \<longrightarrow>
      (\<exists>cfg. px_vm_config px node vmid t = Inr cfg)) \<Longrightarrow> \<exists>C'. scan_rows px vnet rows C = Inr C'"
proof (induction rows arbitrary: C)
  case (Cons row rows)
  show ?case
  proof (cases "guest_row row")
    case (Some g)
    then obtain node vmid t cfg where "g = (node, vmid, t)" "px_vm_config px node vmid t = Inr cfg"
      using Cons.prems by (cases g) auto
    then show ?thesis using Cons.prems Some by (simp add: Cons.IH)
  qed (use Cons in auto)
qed simp

lemma claimed_iff: "claimed_addresses (Some px) vnet = Inr C \<longleftrightarrow> scan_readable px \<and> C = {a. holds_address px vnet a}"
proof -
  have "scan_readable px \<and> C = {a. holds_address px vnet a}" if "claimed_addresses (Some px) vnet = Inr C" for C
    using that by (elim claimed_addresses_Inr) (auto simp: scan_readable_def)
  moreover have "\<exists>C. claimed_addresses (Some px) vnet = Inr C" if "scan_readable px"
    using that by (auto simp: scan_readable_def claimed_addresses_def scan_rows_readable)
  ultimately show ?thesis by metis
qed

text \<open>The addresses the allocator may hand out.\<close>

definition free_host :: "proxmox_reads \<Rightarrow> string \<Rightarrow> ipv4_net \<Rightarrow> ipv4 \<Rightarrow> ipv4 \<Rightarrow> bool" where
  "free_host px vnet subnet gw a \<longleftrightarrow>
     net_addr subnet + infra_host_floor \<le> a \<and> a + 1 < net_addr subnet + net_size subnet
     \<and> a \<noteq> gw \<and> \<not> holds_address px vnet a"

lemma host_above_floor:
  assumes "net_len n \<le> 32" "net_addr n + infra_host_floor \<le> a"
  shows "a \<in> set (hosts n) \<longleftrightarrow> a + 1 < net_addr n + net_size n"
proof (cases "31 \<le> net_len n")
  case True
  then have "net_len n = 31 \<or> net_len n = 32" using assms(1) by auto
  then show ?thesis using assms(2) by (auto simp: hosts_def net_size_def infra_host_floor_def)
qed (use assms(2) in \<open>auto simp: hosts_def infra_host_floor_def\<close>)

lemma pick_free_host:
  assumes "parse_net (dg_subnet_cidr g) = Some subnet" "parse_ipv4 (dg_gateway g) = Some gw"
  shows "pick_address g {a. holds_address px vnet a} infra_host_floor = Inr a \<longleftrightarrow>
     free_host px vnet subnet gw a \<and> (\<forall>b<a. \<not> free_host px vnet subnet gw b)"
proof -
  have "net_len subnet \<le> 32" using parse_net_wf [OF assms(1)] by (simp add: wf_net_def)
  note above = host_above_floor [OF this]
  show ?thesis unfolding pick_address_Inr [OF assms] free_host_def by (auto simp: above)
qed

lemma allocate_Inr:
  assumes "parse_net (dg_subnet_cidr g) = Some subnet"
  shows "allocate_address p g ns = Inr r \<longleftrightarrow>
     (\<exists>C a. claimed_addresses p (dg_vnet g) = Inr C \<and> pick_address g C infra_host_floor = Inr a
        \<and> r = \<lparr>aa_address = str_ipv4 a, aa_prefixlen = net_len subnet, aa_gateway = dg_gateway g,
               aa_nameserver = py_strip ns\<rparr>)"
  by (auto simp: allocate_address_def assms split: sum.splits)

lemma desired_parts:
  assumes "desired_guest_network d = Inr g"
  obtains subnet gw where "parse_net (dg_subnet_cidr g) = Some subnet" "parse_ipv4 (dg_gateway g) = Some gw"
    "dg_gateway g = str_ipv4 gw"
proof -
  obtain subnet gw where "wf_net subnet" "dg_subnet_cidr g = str_net subnet" "gw < 2 ^ 32" "dg_gateway g = str_ipv4 gw"
    using desired_wf [OF assms] unfolding wf_desired_def by blast
  then show thesis using that by (simp add: parse_str_net parse_str_ipv4)
qed

text \<open>
  C29: the allocator hands out exactly the lowest free address of the guest subnet, at or above the floor,
  that is neither the gateway nor claimed by any guest on the vnet, and it does so exactly when the scan is
  complete and such an address exists; a guest it cannot read makes it refuse.
\<close>

theorem allocate_address_correct:
  assumes "desired_guest_network d = Inr g"
  shows "\<exists>subnet gw. parse_net (dg_subnet_cidr g) = Some subnet \<and> parse_ipv4 (dg_gateway g) = Some gw
    \<and> ((\<exists>r. allocate_address (Some px) g ns = Inr r)
         = (scan_readable px \<and> (\<exists>a. free_host px (dg_vnet g) subnet gw a)))
    \<and> (\<forall>r. allocate_address (Some px) g ns = Inr r \<longrightarrow>
         (\<exists>a. aa_address r = str_ipv4 a \<and> free_host px (dg_vnet g) subnet gw a
            \<and> (\<forall>b<a. \<not> free_host px (dg_vnet g) subnet gw b)))"
proof -
  obtain subnet gw where w: "parse_net (dg_subnet_cidr g) = Some subnet" "parse_ipv4 (dg_gateway g) = Some gw"
    using desired_parts [OF assms] by metis
  let ?F = "free_host px (dg_vnet g) subnet gw"
  have r: "allocate_address (Some px) g ns = Inr r \<longleftrightarrow>
      scan_readable px \<and> (\<exists>a. ?F a \<and> (\<forall>b<a. \<not> ?F b) \<and>
        r = \<lparr>aa_address = str_ipv4 a, aa_prefixlen = net_len subnet, aa_gateway = dg_gateway g, aa_nameserver = py_strip ns\<rparr>)" for r
    unfolding allocate_Inr [OF w(1)] claimed_iff by (auto simp: pick_free_host [OF w])
  have "(\<exists>a. ?F a) \<longleftrightarrow> (\<exists>a. ?F a \<and> (\<forall>b<a. \<not> ?F b))" using exists_least_iff [of ?F] by blast
  then show ?thesis using w by (auto simp: r)
qed

text \<open>A guest of the cluster was built with this address line, on the vnet.\<close>

definition has_guest :: "proxmox_reads \<Rightarrow> string \<Rightarrow> string \<Rightarrow> bool" where
  "has_guest px vnet line \<longleftrightarrow>
     (\<exists>listing. px_resources px = Inr listing \<and>
        (\<exists>row\<in>set (resource_rows listing). \<exists>node vmid t cfg nic. guest_row row = Some (node, vmid, t)
           \<and> px_vm_config px node vmid t = Inr (JObj cfg) \<and> map_of cfg ''net0'' = Some nic
           \<and> kv_get ''bridge'' (kv nic) = vnet \<and> map_of cfg ''ipconfig0'' = Some (JStr line)))"

lemma allocated_held:
  assumes "desired_guest_network d = Inr g" and "allocate_address (Some px) g ns = Inr r"
    and "has_guest px' (dg_vnet g) (ipconfig0 r)"
  obtains C a where "claimed_addresses (Some px) (dg_vnet g) = Inr C" "pick_address g C infra_host_floor = Inr a"
    "aa_address r = str_ipv4 a" "a < 2 ^ 32" "holds_address px' (dg_vnet g) a"
proof -
  obtain subnet gw where w: "parse_net (dg_subnet_cidr g) = Some subnet" "parse_ipv4 (dg_gateway g) = Some gw"
    "dg_gateway g = str_ipv4 gw" using assms(1) by (rule desired_parts)
  obtain C a where c: "claimed_addresses (Some px) (dg_vnet g) = Inr C" "pick_address g C infra_host_floor = Inr a"
    and r: "r = \<lparr>aa_address = str_ipv4 a, aa_prefixlen = net_len subnet, aa_gateway = dg_gateway g, aa_nameserver = py_strip ns\<rparr>"
    using assms(2) unfolding allocate_Inr [OF w(1)] by blast
  have wf: "wf_net subnet" by (rule parse_net_wf [OF w(1)])
  have a: "a < 2 ^ 32" using c(2) wf_net_bound [OF wf hosts_in_net [OF wf]] by (simp add: pick_address_Inr [OF w(1,2)])
  have "address_in (JStr (ipconfig0 r)) = Some a"
    by (rule address_in_ipconfig0) (use a wf w(3) in \<open>simp_all add: r wf_net_def str_ipv4_no_char is_digit_def\<close>)
  then have "holds_address px' (dg_vnet g) a"
    using assms(3) claimed_qemu unfolding has_guest_def holds_address_def by fast
  then show thesis using that c a r by simp
qed

lemma str_ipv4_inject: "a < 2 ^ 32 \<Longrightarrow> b < 2 ^ 32 \<Longrightarrow> str_ipv4 a = str_ipv4 b \<longleftrightarrow> a = b"
  by (metis option.inject parse_str_ipv4)

text \<open>
  no address is handed out twice.  Over any history of the cluster in which every guest that was given
  an address is built with that address line on the vnet before the next allocation scans, two allocations
  never return the same address: what the allocator writes into the guest is what its own scan reads back.
\<close>

theorem allocations_distinct:
  assumes "desired_guest_network d = Inr g"
    and "\<forall>i j r. i < j \<longrightarrow> j < length pxs \<longrightarrow> allocate_address (Some (pxs ! i)) g ns = Inr r
           \<longrightarrow> has_guest (pxs ! j) (dg_vnet g) (ipconfig0 r)"
    and "i < j" "j < length pxs"
    and "allocate_address (Some (pxs ! i)) g ns = Inr r" "allocate_address (Some (pxs ! j)) g ns = Inr r'"
  shows "aa_address r \<noteq> aa_address r'"
proof -
  have "has_guest (pxs ! j) (dg_vnet g) (ipconfig0 r)" using assms(2-5) by blast
  then obtain C a where a: "aa_address r = str_ipv4 a" "a < 2 ^ 32" "holds_address (pxs ! j) (dg_vnet g) a"
    by (rule allocated_held [OF assms(1,5)])
  obtain subnet gw where w: "parse_net (dg_subnet_cidr g) = Some subnet" "parse_ipv4 (dg_gateway g) = Some gw"
    using desired_parts [OF assms(1)] by metis
  obtain D b where b: "claimed_addresses (Some (pxs ! j)) (dg_vnet g) = Inr D" "pick_address g D infra_host_floor = Inr b"
    "aa_address r' = str_ipv4 b"
    using assms(6) unfolding allocate_Inr [OF w(1)] by auto
  have "b < 2 ^ 32" using b(2) wf_net_bound [OF parse_net_wf [OF w(1)] hosts_in_net [OF parse_net_wf [OF w(1)]]]
    by (simp add: pick_address_Inr [OF w])
  moreover have "a \<noteq> b" using pool.not_held [OF b(1,2)] a(3) by blast
  ultimately show ?thesis using a b(3) by (simp add: str_ipv4_inject)
qed

text \<open>A cluster before and after a guest was built with the address the allocator gave.\<close>

definition bare_cluster :: proxmox_reads where
  "bare_cluster = \<lparr>px_resources = Inr (JObj [(''data'', JList [])]), px_vm_config = (\<lambda>_ _ _. Inl (OtherError ''404''))\<rparr>"

definition one_guest :: proxmox_reads where
  "one_guest =
     \<lparr>px_resources = Inr (JObj [(''data'', JList [JObj [(''node'', JStr ''pve1''), (''type'', JStr ''qemu''), (''vmid'', JInt 101)]])]),
      px_vm_config = (\<lambda>_ _ _. Inr (JObj [(''net0'', JStr ''virtio=BC:24:11:00:00:01,bridge=guestnet,firewall=1''),
        (''ipconfig0'', JStr ''ip=10.9.0.10/24,gw=10.9.0.1'')]))\<rparr>"

lemma example_nets:
  "parse_net (dg_subnet_cidr example_network) = Some \<lparr>net_addr = 168361984, net_len = 24\<rparr>"
  "parse_ipv4 (dg_gateway example_network) = Some 168361985"
  by (simp_all add: example_network_def parse_str_net parse_str_ipv4 wf_net_def net_size_def)

lemma example_digits: "digits_nat 10 = ''10''" "digits_nat 11 = ''11''" "digits_nat 9 = ''9''" "digits_nat 0 = ''0''" "digits_nat 1 = ''1''"
  by code_simp+

lemma example_address: "str_ipv4 168361994 = ''10.9.0.10''" "str_ipv4 168361995 = ''10.9.0.11''" "str_ipv4 168361985 = ''10.9.0.1''"
  using example_digits by (simp_all add: str_ipv4_def)

lemma example_pick:
  "pick_address example_network {} infra_host_floor = Inr 168361994"
  "pick_address example_network {168361994} infra_host_floor = Inr 168361995"
  by (auto simp: pick_address_Inr [OF example_nets] hosts_def net_size_def infra_host_floor_def)

lemma example_claims:
  "claimed_addresses (Some bare_cluster) ''guestnet'' = Inr {}"
  "claimed_addresses (Some one_guest) ''guestnet'' = Inr {168361994}"
proof -
  have k: "kv (JStr ''virtio=BC:24:11:00:00:01,bridge=guestnet,firewall=1'')
      = [(''virtio'', ''BC:24:11:00:00:01''), (''bridge'', ''guestnet''), (''firewall'', ''1'')]"
    "kv (JStr ''ip=10.9.0.10/24,gw=10.9.0.1'') = [(''ip'', ''10.9.0.10/24''), (''gw'', ''10.9.0.1'')]"
    by code_simp+
  have a: "address_in (JStr ''ip=10.9.0.10/24,gw=10.9.0.1'') = Some 168361994"
    using parse_str_ipv4 [of 168361994] by (simp add: address_in_def k kv_get_def is_digit_def example_address)
  have n: "net_index ''net0'' = Some ''0''" "net_index ''ipconfig0'' = None" by code_simp+
  show "claimed_addresses (Some bare_cluster) ''guestnet'' = Inr {}"
    by (simp add: claimed_addresses_def bare_cluster_def resource_rows_def dget_or_def)
  show "claimed_addresses (Some one_guest) ''guestnet'' = Inr {168361994}"
    by (simp add: claimed_addresses_def one_guest_def resource_rows_def dget_or_def guest_row_def dget_def Let_def py_int_def
        claimed_in_config_def claimed_by_nic_def n k a kv_get_def) (simp add: address_in_def k kv_get_def)
qed

definition example_grant :: "ipv4 \<Rightarrow> allocated_address" where
  "example_grant a = \<lparr>aa_address = str_ipv4 a, aa_prefixlen = 24, aa_gateway = ''10.9.0.1'', aa_nameserver = []\<rparr>"

lemma example_alloc:
  "allocate_address (Some bare_cluster) example_network [] = Inr (example_grant 168361994)"
  "allocate_address (Some one_guest) example_network [] = Inr (example_grant 168361995)"
proof -
  have d: "dg_vnet example_network = ''guestnet''" "dg_gateway example_network = ''10.9.0.1''"
    by (simp_all add: example_network_def example_address)
  show "allocate_address (Some bare_cluster) example_network [] = Inr (example_grant 168361994)"
    unfolding allocate_Inr [OF example_nets(1)] d example_claims by (auto simp: example_pick example_grant_def py_strip_no_space)
  show "allocate_address (Some one_guest) example_network [] = Inr (example_grant 168361995)"
    unfolding allocate_Inr [OF example_nets(1)] d example_claims by (auto simp: example_pick example_grant_def py_strip_no_space)
qed

lemma example_has_guest: "has_guest one_guest ''guestnet'' (ipconfig0 (example_grant 168361994))"
proof -
  have "kv_get ''bridge'' (kv (JStr ''virtio=BC:24:11:00:00:01,bridge=guestnet,firewall=1'')) = ''guestnet''" by code_simp
  moreover have "digits_nat 24 = ''24''" by code_simp
  ultimately show ?thesis
    by (simp add: has_guest_def one_guest_def resource_rows_def dget_or_def guest_row_def dget_def Let_def py_int_def
        ipconfig0_def example_grant_def example_address)
qed

theorem allocate_address_correct_witness:
  "scan_readable one_guest \<and> (\<exists>subnet gw a. free_host one_guest (dg_vnet example_network) subnet gw a)"
  using allocate_address_correct [OF example_ok, of one_guest "[]"] example_alloc(2) by blast

theorem allocations_distinct_witness: "aa_address (example_grant 168361994) \<noteq> aa_address (example_grant 168361995)"
proof (rule allocations_distinct [OF example_ok, where pxs = "[bare_cluster, one_guest]" and ns = "[]" and i = 0 and j = 1])
  have "dg_vnet example_network = ''guestnet''" by (simp add: example_network_def)
  then show "\<forall>i j r. i < j \<longrightarrow> j < length [bare_cluster, one_guest] \<longrightarrow>
      allocate_address (Some ([bare_cluster, one_guest] ! i)) example_network [] = Inr r \<longrightarrow>
      has_guest ([bare_cluster, one_guest] ! j) (dg_vnet example_network) (ipconfig0 r)"
    by (auto simp: less_Suc_eq numeral_2_eq_2 example_alloc example_has_guest)
qed (simp_all add: example_alloc)

end
