(* ===== verification/Guest_Quota.thy ===== *)
theory Guest_Quota
  imports HP_Prelude
begin

text \<open>
  Guest budgets: \<^verbatim>\<open>guest/quota.py\<close>.  The two tables it reads and writes are lists of rows; the time
  stamps of a quota row are left out, a column that is NULL is \<open>None\<close>.
\<close>

record guest_quota =
  q_cn :: string
  q_max_vms :: "int option"
  q_max_cores :: "int option"
  q_max_memory_mb :: "int option"
  q_max_disk_gb :: "int option"

record host_row =
  h_owner :: "string option"
  h_cores :: "int option"
  h_memory_mb :: "int option"
  h_disk_gb :: "int option"
  h_absent_since :: "string option"

record quota_db =
  db_quotas :: "guest_quota list"
  db_hosts :: "host_row list"

record guest_usage =
  u_vms :: int
  u_cores :: int
  u_memory_mb :: int
  u_disk_gb :: int

record quota_decision =
  qd_allowed :: bool
  qd_exceeded :: "string list"

definition get_quota :: "quota_db \<Rightarrow> string \<Rightarrow> guest_quota option" where
  "get_quota db cn = find (\<lambda>q. q_cn q = cn) (db_quotas db)"

text \<open>The upsert of \<open>set_quota\<close>: one row for each name.\<close>

fun upsert_quota :: "guest_quota \<Rightarrow> guest_quota list \<Rightarrow> guest_quota list" where
  "upsert_quota q [] = [q]"
| "upsert_quota q (r # rs) = (if q_cn r = q_cn q then q # rs else r # upsert_quota q rs)"

definition set_quota ::
  "quota_db \<Rightarrow> string \<Rightarrow> int option \<Rightarrow> int option \<Rightarrow> int option \<Rightarrow> int option \<Rightarrow> quota_db" where
  "set_quota db cn vms cores memory disk =
     db\<lparr>db_quotas := upsert_quota \<lparr>q_cn = cn, q_max_vms = vms, q_max_cores = cores, q_max_memory_mb = memory,
          q_max_disk_gb = disk\<rparr> (db_quotas db)\<rparr>"

definition delete_quota :: "quota_db \<Rightarrow> string \<Rightarrow> bool \<times> quota_db" where
  "delete_quota db cn =
     (list_ex (\<lambda>q. q_cn q = cn) (db_quotas db), db\<lparr>db_quotas := filter (\<lambda>q. q_cn q \<noteq> cn) (db_quotas db)\<rparr>)"

definition counted :: "string \<Rightarrow> host_row \<Rightarrow> bool" where
  "counted cn h = (h_owner h = Some cn \<and> h_absent_since h = None)"

definition sum_col :: "(host_row \<Rightarrow> int option) \<Rightarrow> host_row list \<Rightarrow> int" where
  "sum_col col hs = sum_list (map (\<lambda>h. case col h of None \<Rightarrow> 0 | Some n \<Rightarrow> n) hs)"

definition usage_for :: "quota_db \<Rightarrow> string \<Rightarrow> guest_usage" where
  "usage_for db cn =
     (let hs = filter (counted cn) (db_hosts db) in
      \<lparr>u_vms = int (length hs), u_cores = sum_col h_cores hs, u_memory_mb = sum_col h_memory_mb hs,
       u_disk_gb = sum_col h_disk_gb hs\<rparr>)"

definition over :: "int option \<Rightarrow> int \<Rightarrow> bool" where
  "over limit n = (case limit of None \<Rightarrow> False | Some m \<Rightarrow> n > m)"

definition check_provision :: "quota_db \<Rightarrow> string \<Rightarrow> int \<Rightarrow> int \<Rightarrow> int \<Rightarrow> quota_decision" where
  "check_provision db cn cores memory_mb disk_gb =
     (case get_quota db cn of
        None \<Rightarrow> \<lparr>qd_allowed = True, qd_exceeded = []\<rparr>
      | Some q \<Rightarrow>
          (let used = usage_for db cn;
               exceeded =
                 (if over (q_max_vms q) (u_vms used + 1) then [''machines''] else []) @
                 (if over (q_max_cores q) (u_cores used + cores) then [''CPU cores''] else []) @
                 (if over (q_max_memory_mb q) (u_memory_mb used + memory_mb) then [''memory''] else []) @
                 (if over (q_max_disk_gb q) (u_disk_gb used + disk_gb) then [''disk''] else [])
           in \<lparr>qd_allowed = (exceeded = []), qd_exceeded = exceeded\<rparr>))"

section \<open>Budgets are kept\<close>

definition within_budget :: "quota_db \<Rightarrow> string \<Rightarrow> bool" where
  "within_budget db cn =
     (case get_quota db cn of
        None \<Rightarrow> True
      | Some q \<Rightarrow>
          (let u = usage_for db cn in
           \<not> over (q_max_vms q) (u_vms u) \<and> \<not> over (q_max_cores q) (u_cores u)
           \<and> \<not> over (q_max_memory_mb q) (u_memory_mb u) \<and> \<not> over (q_max_disk_gb q) (u_disk_gb u)))"

text \<open>What happens to the hosts of the fleet between two looks at a budget.\<close>

datatype fleet_event =
    Provision string int int int
  | Vanish nat string
  | Foreign host_row
  | Drop_budget string

definition new_host :: "string \<Rightarrow> int \<Rightarrow> int \<Rightarrow> int \<Rightarrow> host_row" where
  "new_host cn cores memory disk =
     \<lparr>h_owner = Some cn, h_cores = Some cores, h_memory_mb = Some memory, h_disk_gb = Some disk, h_absent_since = None\<rparr>"

fun fleet_step :: "quota_db \<Rightarrow> fleet_event \<Rightarrow> quota_db" where
  "fleet_step db (Provision cn cores memory disk) =
     (if qd_allowed (check_provision db cn cores memory disk)
      then db\<lparr>db_hosts := db_hosts db @ [new_host cn cores memory disk]\<rparr> else db)"
| "fleet_step db (Vanish i t) =
     (if i < length (db_hosts db)
      then db\<lparr>db_hosts := (db_hosts db)[i := (db_hosts db ! i)\<lparr>h_absent_since := Some t\<rparr>]\<rparr> else db)"
| "fleet_step db (Foreign h) = (if h_owner h = None then db\<lparr>db_hosts := db_hosts db @ [h]\<rparr> else db)"
| "fleet_step db (Drop_budget cn) = snd (delete_quota db cn)"

text \<open>No column of a machine is negative.\<close>

definition sane_host :: "host_row \<Rightarrow> bool" where
  "sane_host h = list_all (\<lambda>c. case c of None \<Rightarrow> True | Some n \<Rightarrow> 0 \<le> n) [h_cores h, h_memory_mb h, h_disk_gb h]"

fun sane_event :: "fleet_event \<Rightarrow> bool" where
  "sane_event (Provision cn c m d) = (0 \<le> c \<and> 0 \<le> m \<and> 0 \<le> d)"
| "sane_event (Foreign h) = sane_host h"
| "sane_event _ = True"

lemma sum_col_simps [simp]:
  "sum_col col [] = 0"
  "sum_col col (h # hs) = (case col h of None \<Rightarrow> 0 | Some n \<Rightarrow> n) + sum_col col hs"
  "sum_col col (hs @ ks) = sum_col col hs + sum_col col ks"
  by (simp_all add: sum_col_def)

lemma usage_provision:
  "usage_for (db\<lparr>db_hosts := db_hosts db @ [new_host cn c m d]\<rparr>) cn' =
     (let u = usage_for db cn' in
      if cn' = cn then \<lparr>u_vms = u_vms u + 1, u_cores = u_cores u + c, u_memory_mb = u_memory_mb u + m, u_disk_gb = u_disk_gb u + d\<rparr>
      else u)"
  by (simp add: usage_for_def counted_def new_host_def Let_def)

lemma check_provision_iff:
  "qd_allowed (check_provision db cn c m d) \<longleftrightarrow>
     (get_quota db cn = None \<or> within_budget (db\<lparr>db_hosts := db_hosts db @ [new_host cn c m d]\<rparr>) cn)"
  by (simp add: check_provision_def within_budget_def usage_provision get_quota_def Let_def split: option.splits)

lemma vanish_less:
  fixes t :: string
  assumes "\<forall>h\<in>set hs. sane_host h" and "i < length hs"
  defines "hs' \<equiv> hs[i := (hs ! i)\<lparr>h_absent_since := Some t\<rparr>]"
  shows "length (filter (counted cn) hs') \<le> length (filter (counted cn) hs)"
    and "col \<in> {h_cores, h_memory_mb, h_disk_gb} \<Longrightarrow>
           sum_col col (filter (counted cn) hs') \<le> sum_col col (filter (counted cn) hs)"
proof -
  let ?a = "take i hs" and ?h = "hs ! i" and ?b = "drop (Suc i) hs"
  have h: "hs = ?a @ ?h # ?b" using assms(2) by (rule id_take_nth_drop)
  have h': "hs' = ?a @ ?h\<lparr>h_absent_since := Some t\<rparr> # ?b"
    unfolding hs'_def using assms(2) by (simp add: upd_conv_take_nth_drop)
  have n: "\<not> counted cn (?h\<lparr>h_absent_since := Some t\<rparr>)" by (simp add: counted_def)
  have f': "filter (counted cn) hs' = filter (counted cn) ?a @ filter (counted cn) ?b"
    unfolding h' using n by simp
  have f: "filter (counted cn) hs = filter (counted cn) ?a @ (if counted cn ?h then [?h] else []) @ filter (counted cn) ?b"
    by (subst h) simp
  show "length (filter (counted cn) hs') \<le> length (filter (counted cn) hs)" unfolding f f' by simp
  assume "col \<in> {h_cores, h_memory_mb, h_disk_gb}"
  moreover have "sane_host ?h" using assms by simp
  ultimately have "0 \<le> (case col ?h of None \<Rightarrow> 0 | Some n \<Rightarrow> n)" by (auto simp: sane_host_def split: option.splits)
  then show "sum_col col (filter (counted cn) hs') \<le> sum_col col (filter (counted cn) hs)"
    unfolding f f' by simp
qed

lemma over_mono: "over l a \<Longrightarrow> a \<le> b \<Longrightarrow> over l b"
  by (auto simp: over_def split: option.splits)

lemma find_filter_other: "find (\<lambda>q. q_cn q = cn') (filter (\<lambda>q. q_cn q \<noteq> cn) qs) = (if cn' = cn then None else find (\<lambda>q. q_cn q = cn') qs)"
  by (induction qs) auto

definition good_db :: "quota_db \<Rightarrow> bool" where
  "good_db db \<longleftrightarrow> (\<forall>h\<in>set (db_hosts db). sane_host h) \<and> (\<forall>cn. within_budget db cn)"

lemma fleet_step_good:
  assumes "good_db db" "sane_event ev"
  shows "good_db (fleet_step db ev)"
proof (cases ev)
  case (Provision cn c m d)
  show ?thesis
  proof (cases "qd_allowed (check_provision db cn c m d)")
    case True
    let ?db = "db\<lparr>db_hosts := db_hosts db @ [new_host cn c m d]\<rparr>"
    have "within_budget ?db cn'" for cn'
    proof (cases "cn' = cn")
      case True
      then show ?thesis using \<open>qd_allowed _\<close> by (auto simp: check_provision_iff within_budget_def get_quota_def)
    next
      case False
      then have "within_budget ?db cn' = within_budget db cn'"
        by (simp add: within_budget_def usage_provision get_quota_def Let_def split: option.splits)
      then show ?thesis using assms(1) by (simp add: good_db_def)
    qed
    then show ?thesis using assms True Provision by (auto simp: good_db_def sane_host_def new_host_def)
  qed (use assms Provision in simp)
next
  case (Vanish i t)
  show ?thesis
  proof (cases "i < length (db_hosts db)")
    case True
    have sane: "\<forall>h\<in>set (db_hosts db). sane_host h" using assms(1) by (simp add: good_db_def)
    note less = vanish_less [OF sane True, where t = t]
    let ?db = "fleet_step db ev"
    have "within_budget ?db cn" for cn
    proof -
      have "within_budget db cn" using assms(1) by (simp add: good_db_def)
      moreover have "u_vms (usage_for ?db cn) \<le> u_vms (usage_for db cn)" "u_cores (usage_for ?db cn) \<le> u_cores (usage_for db cn)"
        "u_memory_mb (usage_for ?db cn) \<le> u_memory_mb (usage_for db cn)" "u_disk_gb (usage_for ?db cn) \<le> u_disk_gb (usage_for db cn)"
        using less True Vanish by (simp_all add: usage_for_def Let_def)
      moreover have "get_quota ?db cn = get_quota db cn" using Vanish by (simp add: get_quota_def)
      ultimately show ?thesis by (auto simp: within_budget_def Let_def dest: over_mono split: option.splits)
    qed
    moreover have "sane_host ((db_hosts db ! i)\<lparr>h_absent_since := Some t\<rparr>)"
      using sane True by (auto simp: sane_host_def dest!: nth_mem)
    ultimately show ?thesis using sane Vanish by (auto simp: good_db_def dest!: set_update_subset_insert [THEN subsetD])
  qed (use assms Vanish in simp)
next
  case (Foreign h)
  have "within_budget (db\<lparr>db_hosts := db_hosts db @ [h]\<rparr>) cn = within_budget db cn" if "h_owner h = None" for cn
  proof -
    have "usage_for (db\<lparr>db_hosts := db_hosts db @ [h]\<rparr>) cn = usage_for db cn" using that by (simp add: usage_for_def counted_def)
    then show ?thesis by (simp only: within_budget_def) (simp add: get_quota_def split: option.splits)
  qed
  then show ?thesis using assms Foreign by (auto simp: good_db_def)
next
  case (Drop_budget cn)
  have "within_budget (snd (delete_quota db cn)) cn'" if "within_budget db cn'" for cn'
  proof -
    have "usage_for (snd (delete_quota db cn)) cn' = usage_for db cn'" by (simp add: usage_for_def delete_quota_def)
    moreover have "get_quota (snd (delete_quota db cn)) cn' = (if cn' = cn then None else get_quota db cn')"
      by (simp add: get_quota_def delete_quota_def find_filter_other)
    ultimately show ?thesis using that by (simp add: within_budget_def split: option.splits)
  qed
  then show ?thesis using assms Drop_budget by (simp add: good_db_def delete_quota_def)
qed

section \<open>Properties\<close>


definition sample_fleet :: quota_db where
  "sample_fleet = set_quota \<lparr>db_quotas = [], db_hosts = []\<rparr> ''bob'' (Some 1) None (Some 4096) None"


end
