(* ===== verification/Step_Sequence.thy ===== *)
theory Step_Sequence
  imports Executor
begin

text \<open>
  What the two sequence handlers share: finding the steps in a body, interpolation, the loop over the
  steps with its log and its list of unfinished steps, and the way a precheck is decided
  (\<^verbatim>\<open>executor/proxmox_api.py\<close>, \<^verbatim>\<open>executor/http_sequence.py\<close>, \<^verbatim>\<open>executor/jinja_utils.py\<close>).

  A handler keeps its state in \<open>'s\<close>, of which the requests it has sent are the part that matters; what is
  answered to a request may depend on all requests sent before it.
\<close>

section \<open>Steps of a body\<close>

text \<open>\<open>_extract_steps\<close>; a body without steps, or with the value null for them, gives \<open>None\<close>.\<close>

definition extract_steps :: "(string \<Rightarrow> jval res) \<Rightarrow> string \<Rightarrow> string \<Rightarrow> jval option res" where
  "extract_steps yaml body tag =
     (case find_fence tag body of
        None \<Rightarrow> Inr None
      | Some content \<Rightarrow>
          bind_res (yaml (py_strip content)) (\<lambda>parsed. Inr
            (case parsed of
               JObj kvs \<Rightarrow>
                 (case map_of kvs ''steps'' of
                    None \<Rightarrow> None
                  | Some JNull \<Rightarrow> None
                  | Some steps \<Rightarrow> Some steps)
             | _ \<Rightarrow> None)))"

section \<open>Interpolation\<close>

text \<open>
  A template is rendered by Jinja2.  Its own errors, \<open>ValueError\<close> and \<open>TypeError\<close> become an
  \<open>InterpolationError\<close> (the inner \<open>Inl\<close>, with its text); any other exception of a template expression
  passes through (the outer \<open>Inl\<close>).  Anything but a string is refused by the compiler.
\<close>

record seq_env =
  q_ext :: ext
  q_escape :: "(string \<times> ctx_val) list \<Rightarrow> string \<Rightarrow> exn option"
  q_runtime :: runtime
  q_duration :: string

type_synonym interp = "(string \<times> ctx_val) list"

definition interpolate :: "seq_env \<Rightarrow> interp \<Rightarrow> jval \<Rightarrow> (string + string) res" where
  "interpolate env ctx v =
     (case v of
        JStr s \<Rightarrow>
          (case q_escape env ctx s of
             Some e \<Rightarrow> Inl e
           | None \<Rightarrow>
               (case x_render (q_ext env) ctx s of
                  Rendered t \<Rightarrow> Inr (Inr t)
                | TemplateSyntaxError m \<Rightarrow> Inr (Inl (repr_str s @ '': '' @ m))
                | UndefinedError m \<Rightarrow> Inr (Inl (repr_str s @ '': '' @ m))
                | SecurityError m \<Rightarrow> Inr (Inl (repr_str s @ '': '' @ m))
                | RenderError m \<Rightarrow> Inr (Inl (repr_str s @ '': '' @ m))))
      | _ \<Rightarrow> Inr (Inl (py_repr v @ '': Can't compile non template nodes'')))"

definition bind_i :: "(string + 'a) res \<Rightarrow> ('a \<Rightarrow> (string + 'b) res) \<Rightarrow> (string + 'b) res" where
  "bind_i r f = (case r of Inl e \<Rightarrow> Inl e | Inr (Inl m) \<Rightarrow> Inr (Inl m) | Inr (Inr x) \<Rightarrow> f x)"

fun traverse_i :: "('a \<Rightarrow> (string + 'b) res) \<Rightarrow> 'a list \<Rightarrow> (string + 'b list) res" where
  "traverse_i f [] = Inr (Inr [])"
| "traverse_i f (x # xs) = bind_i (f x) (\<lambda>y. bind_i (traverse_i f xs) (\<lambda>ys. Inr (Inr (y # ys))))"

lemma traverse_i_cong [fundef_cong]:
  "xs = ys \<Longrightarrow> (\<And>x. x \<in> set ys \<Longrightarrow> f x = g x) \<Longrightarrow> traverse_i f xs = traverse_i g ys"
  by (induction ys arbitrary: xs) auto

fun interpolate_obj :: "seq_env \<Rightarrow> interp \<Rightarrow> jval \<Rightarrow> (string + jval) res" where
  "interpolate_obj env ctx (JStr s) = bind_i (interpolate env ctx (JStr s)) (\<lambda>t. Inr (Inr (JStr t)))"
| "interpolate_obj env ctx (JObj kvs) =
     bind_i (traverse_i (\<lambda>kv. bind_i (interpolate_obj env ctx (snd kv)) (\<lambda>v. Inr (Inr (fst kv, v)))) kvs)
       (\<lambda>kvs'. Inr (Inr (JObj kvs')))"
| "interpolate_obj env ctx (JList vs) =
     bind_i (traverse_i (interpolate_obj env ctx) vs) (\<lambda>vs'. Inr (Inr (JList vs')))"
| "interpolate_obj env ctx v = Inr (Inr v)"

section \<open>Deciding a precheck\<close>

text \<open>A JSON value as the evaluator sees it.\<close>

fun pv :: "jval \<Rightarrow> pval" where
  "pv JNull = VNone"
| "pv (JBool b) = VBool b"
| "pv (JInt i) = VInt i"
| "pv (JStr s) = VStr s"
| "pv (JList vs) = VList (map pv vs)"
| "pv (JObj kvs) = VDict (map (\<lambda>(k, v). (VStr k, pv v)) kvs)"

datatype verdict = Skip_it | Run_it | Undecided_because string | Raises exn

text \<open>\<open>_eval_skip_if\<close>, where the precheck has an expression; \<open>ast.parse\<close> of anything but a string raises.\<close>

definition decide :: "seq_env \<Rightarrow> jval \<Rightarrow> pval \<Rightarrow> dict \<Rightarrow> verdict" where
  "decide env skip_if proxy tgt =
     (if \<not> truthy skip_if then Run_it
      else case skip_if of
             JStr expression \<Rightarrow>
               (case safe_eval_skip_if (x_ast (q_ext env)) (q_runtime env) expression proxy (pv (JObj tgt)) of
                  Inr b \<Rightarrow> (if b then Skip_it else Run_it)
                | Inl (Undecided m) \<Rightarrow> Undecided_because m
                | Inl (Unsafe m) \<Rightarrow> Undecided_because m
                | Inl (PyError m) \<Rightarrow> Undecided_because m)
           | _ \<Rightarrow> Raises (TypeError ''compile() arg 1 must be a string, bytes or AST object''))"

text \<open>\<open>_PRECHECK_ANSWERS_BELOW\<close>: a status from here on says nothing about the resource.\<close>

definition precheck_answers_below :: int where
  "precheck_answers_below = 500"

text \<open>How a precheck lets its step go on.\<close>

datatype precheck_end =
    Go string
  | Skipped string
  | Not_decided string string
  | Refused string string
  | Precheck_raises exn

definition of_verdict :: "string \<Rightarrow> verdict \<Rightarrow> precheck_end" where
  "of_verdict log v =
     (case v of
        Skip_it \<Rightarrow> Skipped (log @ '' -> SKIPPED (precheck)'')
      | Run_it \<Rightarrow> Go log
      | Undecided_because m \<Rightarrow> Not_decided log m
      | Raises e \<Rightarrow> Precheck_raises e)"

lemma of_verdict_simps [simp]:
  "of_verdict l v = Go l' \<longleftrightarrow> v = Run_it \<and> l = l'"
  "of_verdict l v = Skipped l' \<longleftrightarrow> v = Skip_it \<and> l' = l @ '' -> SKIPPED (precheck)''"
  by (cases v; auto simp: of_verdict_def)+

section \<open>The loop\<close>

text \<open>How a step ends: done, left unfinished, the whole sequence halted, or an exception.\<close>

datatype step_end =
    Finished string
  | Unfinished string jval
  | Halted string string
  | Raised exn

datatype seq_end = Completed "string list" "jval list" | Stopped "string list" string | Failed exn

fun run_steps :: "(jval \<Rightarrow> 's \<Rightarrow> step_end \<times> 's) \<Rightarrow> jval list \<Rightarrow> string list \<Rightarrow> jval list \<Rightarrow> 's \<Rightarrow> seq_end \<times> 's" where
  "run_steps step [] log left s = (Completed log left, s)"
| "run_steps step (st # sts) log left s =
     (case step st s of
        (Finished l, s') \<Rightarrow> run_steps step sts (log @ [l]) left s'
      | (Unfinished l i, s') \<Rightarrow> run_steps step sts (log @ [l]) (left @ [i]) s'
      | (Halted l why, s') \<Rightarrow> (Stopped (log @ [l]) why, s')
      | (Raised e, s') \<Rightarrow> (Failed e, s'))"

definition seq_failure :: "string list \<Rightarrow> string \<Rightarrow> handler_result" where
  "seq_failure log why = \<lparr>hr_success = False, hr_log = join [nl] log, hr_reason = Some why, hr_pre_state = None\<rparr>"

definition missing_spec :: "string \<Rightarrow> handler_result" where
  "missing_spec tag = \<lparr>hr_success = False, hr_log = ''No ```yaml '' @ tag @ ''``` block found'',
     hr_reason = Some ''missing spec'', hr_pre_state = None\<rparr>"

fun str_items :: "jval list \<Rightarrow> string list option" where
  "str_items [] = Some []"
| "str_items (JStr s # vs) = map_option ((#) s) (str_items vs)"
| "str_items (_ # vs) = None"

text \<open>
  The end of \<open>execute\<close>.  Joining the identifiers of the unfinished steps raises when one is not a string.
\<close>

definition seq_finish :: "string list \<Rightarrow> jval list \<Rightarrow> handler_result res" where
  "seq_finish log left =
     (if left = [] then Inr \<lparr>hr_success = True, hr_log = join [nl] log, hr_reason = None, hr_pre_state = None\<rparr>
      else case str_items left of
             None \<Rightarrow> Inl (TypeError ''sequence item: expected str instance'')
           | Some ids \<Rightarrow> Inr (seq_failure log
               (''these steps did not complete (on_error: continue kept the sequence going, it did not make them succeed): ''
                @ join '', '' ids)))"

definition seq_result :: "string list \<Rightarrow> (string list \<Rightarrow> string list) \<Rightarrow> seq_end \<Rightarrow> handler_result res" where
  "seq_result tail stopped r =
     (case r of
        Completed log left \<Rightarrow> seq_finish (log @ tail) left
      | Stopped log why \<Rightarrow> Inr (seq_failure (stopped log) why)
      | Failed e \<Rightarrow> Inl e)"

text \<open>\<open>not_run\<close>: what an undecided precheck makes of its step.\<close>

definition not_run :: "dict \<Rightarrow> string \<Rightarrow> string \<Rightarrow> step_end" where
  "not_run st log why =
     (let line = log @ '' -> NOT RUN: '' @ why in
      if step_halts st
      then Halted line (''step '' @ py_str (dget_or ''id'' (JStr ''unknown'') st)
             @ '' was not run: its precheck could not be decided ('' @ why @ '')'')
      else Unfinished line (dget_or ''id'' (JStr ''unknown'') st))"

text \<open>A step that failed.\<close>

definition step_failed :: "dict \<Rightarrow> string \<Rightarrow> string \<Rightarrow> step_end" where
  "step_failed st line why =
     (if step_halts st then Halted line why else Unfinished line (dget_or ''id'' (JStr ''unknown'') st))"

lemma seq_success: "seq_result t f r = Inr h \<Longrightarrow> hr_success h \<Longrightarrow> \<exists>log. r = Completed log []"
  by (auto simp: seq_result_def seq_finish_def seq_failure_def split: seq_end.splits if_splits option.splits)

section \<open>Guarded sequences\<close>

text \<open>A trace grows by requests each of which is allowed after those before it.\<close>

definition grows :: "('e list \<Rightarrow> 'e \<Rightarrow> bool) \<Rightarrow> 'e list \<Rightarrow> 'e list \<Rightarrow> bool" where
  "grows P tr tr' \<longleftrightarrow> (\<exists>new. tr' = tr @ new \<and> (\<forall>k<length new. P (tr @ take k new) (new ! k)))"

lemma grows_refl [simp]: "grows P tr tr"
  by (simp add: grows_def)

lemma grows_snoc: "grows P tr tr' \<Longrightarrow> P tr' e \<Longrightarrow> grows P tr (tr' @ [e])"
  unfolding grows_def
proof (elim exE conjE)
  fix new assume new: "P tr' e" "tr' = tr @ new" "\<forall>k<length new. P (tr @ take k new) (new ! k)"
  then show "\<exists>n. tr' @ [e] = tr @ n \<and> (\<forall>k<length n. P (tr @ take k n) (n ! k))"
    by (intro exI [of _ "new @ [e]"]) (auto simp: nth_append less_Suc_eq)
qed

lemma grows_trans:
  assumes "grows P tr tr'" "grows P tr' tr''"
  shows "grows P tr tr''"
proof -
  obtain a b where a: "tr' = tr @ a" "\<And>k. k < length a \<Longrightarrow> P (tr @ take k a) (a ! k)"
    and b: "tr'' = tr' @ b" "\<And>k. k < length b \<Longrightarrow> P (tr' @ take k b) (b ! k)"
    using assms unfolding grows_def by blast
  have "P (tr @ take k (a @ b)) ((a @ b) ! k)" if "k < length (a @ b)" for k
    using a(2) [of k] b(2) [of "k - length a"] that a(1) by (cases "k < length a") (auto simp: nth_append)
  then show ?thesis using a(1) b(1) unfolding grows_def by (intro exI [of _ "a @ b"]) auto
qed

lemma grows_mono: "grows P tr tr' \<Longrightarrow> (\<And>t e. P t e \<Longrightarrow> Q t e) \<Longrightarrow> grows Q tr tr'"
  unfolding grows_def by blast

lemma grows_prefix: "grows P tr tr' \<Longrightarrow> \<exists>new. tr' = tr @ new"
  unfolding grows_def by blast

lemma grows_nth: "grows P [] tr \<Longrightarrow> k < length tr \<Longrightarrow> P (take k tr) (tr ! k)"
  unfolding grows_def by auto

text \<open>
  The contract of a step: the requests it adds to the trace are ones the step is licensed to send at that
  point, and when it reports to be finished, what it was asked for has been achieved by the requests sent
  so far.
\<close>

locale guarded_sequence =
  fixes step :: "jval \<Rightarrow> 's \<Rightarrow> step_end \<times> 's"
    and trace :: "'s \<Rightarrow> 'e list"
    and licensed :: "jval \<Rightarrow> 'e list \<Rightarrow> 'e \<Rightarrow> bool"
    and achieved :: "jval \<Rightarrow> 'e list \<Rightarrow> bool"
  assumes step_trace: "step st s = (r, s') \<Longrightarrow> grows (licensed st) (trace s) (trace s')"
    and step_done: "step st s = (Finished l, s') \<Longrightarrow> achieved st (trace s')"
begin

lemma run_extends:
  "run_steps step sts log left s = (r, s') \<Longrightarrow> grows (\<lambda>t e. \<exists>st\<in>set sts. licensed st t e) (trace s) (trace s')"
proof (induction sts arbitrary: log left s)
  case (Cons st sts)
  let ?P = "\<lambda>t e. \<exists>st\<in>set (st # sts). licensed st t e"
  obtain e s1 where e: "step st s = (e, s1)" by fastforce
  have 1: "grows ?P (trace s) (trace s1)" by (rule grows_mono [OF step_trace [OF e]]) simp
  have rest: "grows ?P (trace s) (trace s')" if "run_steps step sts log' left' s1 = (r, s')" for log' left'
    by (rule grows_trans [OF 1 grows_mono [OF Cons.IH [OF that]]]) auto
  show ?case
  proof (cases e)
    case (Finished l)
    then show ?thesis using Cons.prems e rest by simp
  next
    case (Unfinished l i)
    then show ?thesis using Cons.prems e rest by simp
  qed (use Cons.prems e 1 in auto)
qed simp

lemma run_left: "run_steps step sts log left s = (Completed log' [], s') \<Longrightarrow> left = []"
proof (induction sts arbitrary: log left s)
  case (Cons st sts)
  then show ?case by (auto split: prod.splits step_end.splits)
qed simp

text \<open>A run that leaves nothing unfinished has achieved its steps, one after the other.\<close>

lemma run_completed:
  "run_steps step sts log left s = (Completed log' [], s') \<Longrightarrow>
     \<exists>ks. sorted ks \<and> (\<forall>k\<in>set ks. length (trace s) \<le> k \<and> k \<le> length (trace s'))
        \<and> list_all2 (\<lambda>st k. achieved st (take k (trace s'))) sts ks"
proof (induction sts arbitrary: log left s)
  case (Cons st sts)
  obtain e s1 where e: "step st s = (e, s1)" by fastforce
  have "\<exists>l. e = Finished l \<and> run_steps step sts (log @ [l]) left s1 = (Completed log' [], s')"
  proof (cases e)
    case (Finished l)
    then show ?thesis using Cons.prems e by simp
  next
    case (Unfinished l i)
    then have "run_steps step sts (log @ [l]) (left @ [i]) s1 = (Completed log' [], s')" using Cons.prems e by simp
    from run_left [OF this] show ?thesis by simp
  next
    case (Halted l why)
    then show ?thesis using Cons.prems e by simp
  next
    case (Raised x)
    then show ?thesis using Cons.prems e by simp
  qed
  then obtain l where l: "e = Finished l" and run: "run_steps step sts (log @ [l]) left s1 = (Completed log' [], s')"
    by blast
  obtain ks where ks: "sorted ks" "\<forall>k\<in>set ks. length (trace s1) \<le> k \<and> k \<le> length (trace s')"
    "list_all2 (\<lambda>st k. achieved st (take k (trace s'))) sts ks" using Cons.IH [OF run] by blast
  obtain new where new: "trace s' = trace s1 @ new" using grows_prefix [OF run_extends [OF run]] by blast
  have "achieved st (take (length (trace s1)) (trace s'))" using step_done [OF e [unfolded l]] new by simp
  moreover have "length (trace s) \<le> length (trace s1)" using grows_prefix [OF step_trace [OF e]] by auto
  ultimately show ?case using ks new by (intro exI [of _ "length (trace s1) # ks"]) auto
qed simp

lemma run_completed_all:
  assumes "run_steps step sts log [] s = (Completed log' [], s')"
  shows "\<forall>st\<in>set sts. \<exists>k\<le>length (trace s'). achieved st (take k (trace s'))"
proof
  fix st assume "st \<in> set sts"
  then obtain i where i: "i < length sts" "sts ! i = st" by (auto simp: in_set_conv_nth)
  obtain ks where ks: "\<forall>k\<in>set ks. length (trace s) \<le> k \<and> k \<le> length (trace s')"
    "list_all2 (\<lambda>st k. achieved st (take k (trace s'))) sts ks" using run_completed [OF assms] by blast
  have "ks ! i \<in> set ks" using i ks(2) by (simp add: list_all2_lengthD [symmetric])
  then show "\<exists>k\<le>length (trace s'). achieved st (take k (trace s'))"
    using list_all2_nthD [OF ks(2) i(1)] i(2) ks(1) by blast
qed

end

end
