(* ===== verification/Http_Sequence.thy ===== *)
theory Http_Sequence
  imports Step_Sequence
begin

text \<open>
  The handler of http-sequence artifacts: \<^verbatim>\<open>executor/http_sequence.py\<close>.

  Its state is the cache of clients and the list of requests sent so far.  What the services answer and
  what the vault holds are arguments, functions of the requests sent before; an answer is a response, an
  \<open>httpx.HTTPError\<close> or another exception.  Making a client does not fail, closing one has no effect.
\<close>

section \<open>Clients and requests\<close>

record http_client =
  cl_base_url :: string
  cl_headers :: jval
  cl_verify :: jval

datatype http_request =
    Probe http_client string string
  | Send http_client string string "jval option"

record http_response =
  rsp_status :: int
  rsp_headers :: "(string \<times> string) list"
  rsp_json :: "jval option"

datatype http_error = HTTPError string | Http_raises exn

datatype vault_answer = Secret jval | No_secret | Vault_raises exn

record http_env =
  h_seq :: seq_env
  h_answer :: "http_request \<Rightarrow> http_request list \<Rightarrow> http_error + http_response"
  h_vault :: "jval \<Rightarrow> http_request list \<Rightarrow> vault_answer"

record http_state =
  hs_clients :: "(string \<times> http_client) list"
  hs_trace :: "http_request list"

text \<open>\<open>base_url.rstrip("/")\<close>.\<close>

definition rstrip_slash :: "string \<Rightarrow> string" where
  "rstrip_slash s = rev (dropWhile (\<lambda>c. c = CHR ''/'') (rev s))"

text \<open>
  The credential of a step and its client: an exception, the text of the \<open>ExecutorError\<close> for a credential
  the vault does not have, or the client, which is made once for a base URL and a credential name.
\<close>

definition client_for :: "http_env \<Rightarrow> jval \<Rightarrow> http_state \<Rightarrow> (string + http_client) res \<times> http_state" where
  "client_for env name s =
     (case h_vault env name (hs_trace s) of
        Vault_raises e \<Rightarrow> (Inl e, s)
      | No_secret \<Rightarrow> (Inr (Inl (''Vault credential '' @ CHR 0x27 # py_str name @ CHR 0x27 # '' not found'')), s)
      | Secret (JObj cred) \<Rightarrow>
          (case dget_or ''base_url'' (JStr []) cred of
             JStr b \<Rightarrow>
               (let base_url = rstrip_slash b; key = base_url @ '':'' @ py_str name in
                case map_of (hs_clients s) key of
                  Some c \<Rightarrow> (Inr (Inr c), s)
                | None \<Rightarrow>
                    (let c = \<lparr>cl_base_url = base_url, cl_headers = dget_or ''headers'' (JObj []) cred,
                              cl_verify = dget_or ''verify_tls'' (JBool True) cred\<rparr>
                     in (Inr (Inr c), s\<lparr>hs_clients := AList.update key c (hs_clients s)\<rparr>)))
           | _ \<Rightarrow> (Inl (AttributeError ''object has no attribute rstrip''), s))
      | Secret _ \<Rightarrow> (Inl (AttributeError ''object has no attribute get''), s))"

definition send_request :: "http_env \<Rightarrow> http_request \<Rightarrow> http_state \<Rightarrow> (http_error + http_response) \<times> http_state" where
  "send_request env req s = (h_answer env req (hs_trace s), s\<lparr>hs_trace := hs_trace s @ [req]\<rparr>)"

section \<open>One step\<close>

definition step_cred :: "dict \<Rightarrow> jval" where
  "step_cred st = dget_or ''name'' (JStr []) st"

definition step_id :: "dict \<Rightarrow> string" where
  "step_id st = py_str (dget_or ''id'' (JStr ''unknown'') st)"

definition http_proxy :: "http_response \<Rightarrow> pval" where
  "http_proxy r = make_response_proxy (rsp_status r) (rsp_headers r) (map_option pv (rsp_json r))"

definition http_precheck ::
  "http_env \<Rightarrow> interp \<Rightarrow> dict \<Rightarrow> bool \<Rightarrow> dict \<Rightarrow> string \<Rightarrow> http_state \<Rightarrow> precheck_end \<times> http_state" where
  "http_precheck env ctx tgt rollback st log s =
     (let precheck = dget ''precheck'' st in
      if \<not> truthy precheck \<or> rollback then (Go log, s)
      else case precheck of
        JObj pc \<Rightarrow>
          (case dget_or ''method'' (JStr ''GET'') pc of
             JStr m \<Rightarrow>
               (case interpolate (h_seq env) ctx (dget_or ''path'' (JStr []) pc) of
                  Inl e \<Rightarrow> (Precheck_raises e, s)
                | Inr (Inl msg) \<Rightarrow>
                    (Refused (log @ '' -> REFUSED: precheck path '' @ msg) (''precheck for '' @ step_id st @ '': '' @ msg), s)
                | Inr (Inr path) \<Rightarrow>
                    (let name = dget_or ''name'' (step_cred st) pc in
                     case client_for env name s of
                       (Inl e, s1) \<Rightarrow> (Precheck_raises e, s1)
                     | (Inr (Inl msg), s1) \<Rightarrow>
                         (Not_decided log (''precheck credential '' @ CHR 0x27 # py_str name @ CHR 0x27 # '' not found ('' @ msg @ '')''), s1)
                     | (Inr (Inr client), s1) \<Rightarrow>
                         (let log1 = log @ '' precheck '' @ py_upper m @ '' '' @ path in
                          case send_request env (Probe client (py_upper m) path) s1 of
                            (Inl (Http_raises e), s2) \<Rightarrow> (Precheck_raises e, s2)
                          | (Inl (HTTPError msg), s2) \<Rightarrow> (Not_decided log1 (''precheck did not answer ('' @ msg @ '')''), s2)
                          | (Inr resp, s2) \<Rightarrow>
                              (if precheck_answers_below \<le> rsp_status resp
                               then Not_decided log1 (''precheck answered HTTP '' @ str_int (rsp_status resp)
                                      @ '', which says nothing about the resource'')
                               else of_verdict log1 (decide (h_seq env) (dget ''skip_if'' pc) (http_proxy resp) tgt), s2))))
           | _ \<Rightarrow> (Precheck_raises (AttributeError ''object has no attribute upper''), s))
      | _ \<Rightarrow> (Precheck_raises (AttributeError ''object has no attribute get''), s))"

definition http_request_of :: "http_env \<Rightarrow> interp \<Rightarrow> dict \<Rightarrow> (string + string \<times> string \<times> jval option) res" where
  "http_request_of env ctx st =
     (case dget_or ''method'' (JStr ''GET'') st of
        JStr m \<Rightarrow>
          bind_i (interpolate (h_seq env) ctx (dget_or ''path'' (JStr []) st)) (\<lambda>path.
            if dget ''body'' st = JNull then Inr (Inr (py_upper m, path, None))
            else bind_i (interpolate_obj (h_seq env) ctx (dget ''body'' st)) (\<lambda>b. Inr (Inr (py_upper m, path, Some b))))
      | _ \<Rightarrow> Inl (AttributeError ''object has no attribute upper''))"

definition send_of :: "http_client \<Rightarrow> string \<times> string \<times> jval option \<Rightarrow> http_request" where
  "send_of c q = (case q of (m, path, b) \<Rightarrow> Send c m path (if m \<in> {''POST'', ''PUT'', ''PATCH''} then b else None))"

definition http_act :: "http_env \<Rightarrow> dict \<Rightarrow> string \<times> string \<times> jval option \<Rightarrow> string \<Rightarrow> http_state \<Rightarrow> step_end \<times> http_state" where
  "http_act env st q log s =
     (let what = log @ '' '' @ fst q @ '' '' @ fst (snd q) in
      case client_for env (step_cred st) s of
        (Inl e, s1) \<Rightarrow> (Raised e, s1)
      | (Inr (Inl msg), s1) \<Rightarrow>
          (step_failed st (log @ '' credential '' @ CHR 0x27 # py_str (step_cred st) @ CHR 0x27 # '' not found'') msg, s1)
      | (Inr (Inr client), s1) \<Rightarrow>
          (case send_request env (send_of client q) s1 of
             (Inl (Http_raises e), s2) \<Rightarrow> (Raised e, s2)
           | (Inl (HTTPError msg), s2) \<Rightarrow> (step_failed st (what @ '' -> ERROR: '' @ msg) msg, s2)
           | (Inr resp, s2) \<Rightarrow>
               (let line = what @ '' -> '' @ str_int (rsp_status resp) in
                if 400 \<le> rsp_status resp
                then (step_failed st line (''step '' @ step_id st @ '': HTTP '' @ str_int (rsp_status resp)), s2)
                else (Finished line, s2))))"

definition http_step :: "http_env \<Rightarrow> interp \<Rightarrow> dict \<Rightarrow> bool \<Rightarrow> jval \<Rightarrow> http_state \<Rightarrow> step_end \<times> http_state" where
  "http_step env ctx tgt rollback step s =
     (case step of
        JObj st \<Rightarrow>
          (case http_precheck env ctx tgt rollback st (''['' @ step_id st @ '']'') s of
             (Skipped line, s1) \<Rightarrow> (Finished line, s1)
           | (Not_decided log why, s1) \<Rightarrow> (not_run st log why, s1)
           | (Refused line why, s1) \<Rightarrow> (Halted line why, s1)
           | (Precheck_raises e, s1) \<Rightarrow> (Raised e, s1)
           | (Go log, s1) \<Rightarrow>
               (case http_request_of env ctx st of
                  Inl e \<Rightarrow> (Raised e, s1)
                | Inr (Inl msg) \<Rightarrow>
                    (Halted (log @ '' -> REFUSED: '' @ msg) (''step '' @ step_id st @ '' could not be interpolated: '' @ msg), s1)
                | Inr (Inr q) \<Rightarrow> http_act env st q log s1))
      | _ \<Rightarrow> (Raised (AttributeError ''object has no attribute get''), s))"

section \<open>The handler\<close>

definition http_tag :: "bool \<Rightarrow> string" where
  "http_tag rollback = (if rollback then ''http-rollback'' else ''http-spec'')"

definition http_ctx :: "http_env \<Rightarrow> frontmatter \<Rightarrow> dict \<Rightarrow> interp" where
  "http_ctx env fm tgt = interpolation_context (x_now (q_ext (h_seq env))) (Some tgt) fm"

definition http_execute :: "http_env \<Rightarrow> frontmatter \<Rightarrow> string \<Rightarrow> dict \<Rightarrow> bool \<Rightarrow> http_state \<Rightarrow> handler_result res \<times> http_state" where
  "http_execute env fm body tgt rollback s =
     (case extract_steps (x_yaml (q_ext (h_seq env))) body (http_tag rollback) of
        Inl e \<Rightarrow> (Inl e, s)
      | Inr None \<Rightarrow> (Inr (missing_spec (http_tag rollback)), s)
      | Inr (Some steps) \<Rightarrow>
          (case iter_steps steps of
             Inl e \<Rightarrow> (Inl e, s)
           | Inr sts \<Rightarrow>
               (case run_steps (http_step env (http_ctx env fm tgt) tgt rollback) sts [] [] s of
                  (r, s') \<Rightarrow> (seq_result [''duration='' @ q_duration (h_seq env) @ ''s''] (\<lambda>log. log) r, s'))))"

section \<open>What a step may send, and what it achieves\<close>

definition http_decided :: "http_env \<Rightarrow> dict \<Rightarrow> bool \<Rightarrow> dict \<Rightarrow> http_request list \<Rightarrow> bool" where
  "http_decided env tgt skip st tr \<longleftrightarrow>
     (\<exists>tr0 c m path pc resp. tr = tr0 @ [Probe c m path] \<and> dget ''precheck'' st = JObj pc
        \<and> h_answer env (Probe c m path) tr0 = Inr resp \<and> rsp_status resp < precheck_answers_below
        \<and> decide (h_seq env) (dget ''skip_if'' pc) (http_proxy resp) tgt = (if skip then Skip_it else Run_it))"

fun http_licensed :: "http_env \<Rightarrow> interp \<Rightarrow> dict \<Rightarrow> bool \<Rightarrow> jval \<Rightarrow> http_request list \<Rightarrow> http_request \<Rightarrow> bool" where
  "http_licensed env ctx tgt rollback step tr (Send c m path b) =
     (\<exists>st q. step = JObj st \<and> http_request_of env ctx st = Inr (Inr q) \<and> send_of c q = Send c m path b
        \<and> (rollback \<or> \<not> truthy (dget ''precheck'' st) \<or> http_decided env tgt False st tr))"
| "http_licensed env ctx tgt rollback step tr (Probe c m path) =
     (\<not> rollback \<and> (\<exists>st. step = JObj st \<and> truthy (dget ''precheck'' st)))"

definition http_achieved :: "http_env \<Rightarrow> interp \<Rightarrow> dict \<Rightarrow> bool \<Rightarrow> jval \<Rightarrow> http_request list \<Rightarrow> bool" where
  "http_achieved env ctx tgt rollback step tr \<longleftrightarrow>
     (\<exists>st. step = JObj st \<and>
        ((\<not> rollback \<and> http_decided env tgt True st tr)
         \<or> (\<exists>q tr0 c resp. http_request_of env ctx st = Inr (Inr q) \<and> tr = tr0 @ [send_of c q]
              \<and> h_answer env (send_of c q) tr0 = Inr resp \<and> rsp_status resp < 400)))"

lemma client_for_trace: "client_for env name s = (r, s') \<Longrightarrow> hs_trace s' = hs_trace s"
  by (auto simp: client_for_def Let_def split: vault_answer.splits jval.splits option.splits)

lemma http_precheck_cases:
  assumes "http_precheck env ctx tgt rollback st log s = (r, s')"
  shows "hs_trace s' = hs_trace s \<and> ((\<exists>l. r = Go l) \<longrightarrow> \<not> truthy (dget ''precheck'' st) \<or> rollback) \<and> (\<forall>l. r \<noteq> Skipped l)
    \<or> (\<exists>c m p. hs_trace s' = hs_trace s @ [Probe c m p] \<and> \<not> rollback \<and> truthy (dget ''precheck'' st)
         \<and> ((\<exists>l. r = Go l) \<longrightarrow> http_decided env tgt False st (hs_trace s'))
         \<and> ((\<exists>l. r = Skipped l) \<longrightarrow> http_decided env tgt True st (hs_trace s')))"
proof (cases "\<not> truthy (dget ''precheck'' st) \<or> rollback")
  case True
  then show ?thesis using assms by (auto simp: http_precheck_def)
next
  case no: False
  show ?thesis
  proof (cases "\<exists>pc m path s1 c. dget ''precheck'' st = JObj pc \<and> dget_or ''method'' (JStr ''GET'') pc = JStr m
      \<and> interpolate (h_seq env) ctx (dget_or ''path'' (JStr []) pc) = Inr (Inr path)
      \<and> client_for env (dget_or ''name'' (step_cred st) pc) s = (Inr (Inr c), s1)")
    case False
    then show ?thesis using assms no
      by (auto simp: http_precheck_def Let_def split: jval.splits sum.splits prod.splits dest: client_for_trace)
  next
    case True
    then obtain pc m path s1 c where p: "dget ''precheck'' st = JObj pc" "dget_or ''method'' (JStr ''GET'') pc = JStr m"
      "interpolate (h_seq env) ctx (dget_or ''path'' (JStr []) pc) = Inr (Inr path)"
      and c: "client_for env (dget_or ''name'' (step_cred st) pc) s = (Inr (Inr c), s1)" by blast
    let ?req = "Probe c (py_upper m) path"
    note t = client_for_trace [OF c]
    have s': "hs_trace s' = hs_trace s @ [?req]"
      using assms no p c t by (auto simp: http_precheck_def send_request_def Let_def split: sum.splits http_error.splits)
    have d: "http_decided env tgt skip st (hs_trace s')"
      if "\<exists>resp. h_answer env ?req (hs_trace s) = Inr resp \<and> rsp_status resp < precheck_answers_below
        \<and> decide (h_seq env) (dget ''skip_if'' pc) (http_proxy resp) tgt = (if skip then Skip_it else Run_it)" for skip
      using that p(1) s' unfolding http_decided_def by blast
    have "http_decided env tgt False st (hs_trace s')" if "r = Go l" for l
      using assms no p c t that
      by (intro d) (auto simp: http_precheck_def send_request_def Let_def split: sum.splits http_error.splits if_splits)
    moreover have "http_decided env tgt True st (hs_trace s')" if "r = Skipped l" for l
      using assms no p c t that
      by (intro d) (auto simp: http_precheck_def send_request_def Let_def split: sum.splits http_error.splits if_splits)
    ultimately show ?thesis using s' no by blast
  qed
qed

lemma http_act_cases:
  assumes "http_act env st q log s = (r, s')"
  shows "hs_trace s' = hs_trace s \<and> (\<forall>l. r \<noteq> Finished l)
    \<or> (\<exists>c. hs_trace s' = hs_trace s @ [send_of c q]
         \<and> ((\<exists>l. r = Finished l) \<longrightarrow> (\<exists>resp. h_answer env (send_of c q) (hs_trace s) = Inr resp \<and> rsp_status resp < 400)))"
proof (cases "\<exists>c s1. client_for env (step_cred st) s = (Inr (Inr c), s1)")
  case False
  then show ?thesis using assms
    by (auto simp: http_act_def step_failed_def Let_def split: prod.splits sum.splits if_splits dest: client_for_trace)
next
  case True
  then obtain c s1 where c: "client_for env (step_cred st) s = (Inr (Inr c), s1)" by blast
  then show ?thesis using assms client_for_trace [OF c]
    by (auto simp: http_act_def send_request_def step_failed_def Let_def split: sum.splits http_error.splits if_splits)
qed

lemma http_step_spec:
  assumes "http_step env ctx tgt rollback step s = (r, s')"
  shows "grows (http_licensed env ctx tgt rollback step) (hs_trace s) (hs_trace s')
    \<and> ((\<exists>l. r = Finished l) \<longrightarrow> http_achieved env ctx tgt rollback step (hs_trace s'))"
proof (cases "\<exists>st. step = JObj st")
  case False
  then show ?thesis using assms by (auto simp: http_step_def split: jval.splits)
next
  case True
  then obtain st where st: "step = JObj st" by blast
  let ?L = "http_licensed env ctx tgt rollback step"
  obtain p s1 where p: "http_precheck env ctx tgt rollback st (''['' @ step_id st @ '']'') s = (p, s1)" by fastforce
  note pc = http_precheck_cases [OF p]
  have probe: "?L (hs_trace s) (Probe c m u)" if "\<not> rollback" "truthy (dget ''precheck'' st)" for c m u
    using that st by simp
  have g1: "grows ?L (hs_trace s) (hs_trace s1)"
  proof (cases "hs_trace s1 = hs_trace s")
    case False
    then obtain c m u where c: "hs_trace s1 = hs_trace s @ [Probe c m u]" "\<not> rollback" "truthy (dget ''precheck'' st)"
      using pc by blast
    show ?thesis unfolding c(1) by (rule grows_snoc) (simp, rule probe [OF c(2,3)])
  qed simp
  show ?thesis
  proof (cases "\<exists>l q. p = Go l \<and> http_request_of env ctx st = Inr (Inr q)")
    case False
    then have "s' = s1 \<and> ((\<exists>l. r = Finished l) \<longrightarrow> (\<exists>l. p = Skipped l))"
      using assms st p by (auto simp: http_step_def not_run_def Let_def split: precheck_end.splits sum.splits if_splits)
    then show ?thesis using g1 pc st unfolding http_achieved_def by blast
  next
    case True
    then obtain l q where l: "p = Go l" and q: "http_request_of env ctx st = Inr (Inr q)" by blast
    then have act: "http_act env st q l s1 = (r, s')" using assms st p by (simp add: http_step_def)
    have cleared: "rollback \<or> \<not> truthy (dget ''precheck'' st) \<or> http_decided env tgt False st (hs_trace s1)"
      using pc l by blast
    have lic: "?L (hs_trace s1) (send_of c q)" for c
      using st q cleared by (cases q) (auto simp: send_of_def)
    from http_act_cases [OF act] show ?thesis
    proof
      assume "hs_trace s' = hs_trace s1 \<and> (\<forall>l. r \<noteq> Finished l)"
      then show ?thesis using g1 by simp
    next
      assume "\<exists>c. hs_trace s' = hs_trace s1 @ [send_of c q]
         \<and> ((\<exists>l. r = Finished l) \<longrightarrow> (\<exists>resp. h_answer env (send_of c q) (hs_trace s1) = Inr resp \<and> rsp_status resp < 400))"
      then obtain c where c': "hs_trace s' = hs_trace s1 @ [send_of c q]
        \<and> ((\<exists>l. r = Finished l) \<longrightarrow> (\<exists>resp. h_answer env (send_of c q) (hs_trace s1) = Inr resp \<and> rsp_status resp < 400))" ..
      note c = conjunct1 [OF c'] conjunct2 [OF c']
      have "grows ?L (hs_trace s) (hs_trace s')" unfolding c(1) by (rule grows_snoc [OF g1 lic])
      then show ?thesis using c st q unfolding http_achieved_def by blast
    qed
  qed
qed

interpretation http: guarded_sequence "http_step env ctx tgt rollback" hs_trace
    "http_licensed env ctx tgt rollback" "http_achieved env ctx tgt rollback"
    for env ctx tgt rollback
  by unfold_locales (use http_step_spec in blast)+

section \<open>Properties\<close>

definition fresh_state :: http_state where
  "fresh_state = \<lparr>hs_clients = [], hs_trace = []\<rparr>"

definition http_plan :: "http_env \<Rightarrow> string \<Rightarrow> bool \<Rightarrow> jval list option" where
  "http_plan env body rollback =
     (case extract_steps (x_yaml (q_ext (h_seq env))) body (http_tag rollback) of
        Inr (Some steps) \<Rightarrow> (case iter_steps steps of Inr sts \<Rightarrow> Some sts | Inl _ \<Rightarrow> None)
      | _ \<Rightarrow> None)"

lemma http_execute_planned:
  assumes "http_plan env body rollback = Some sts"
  shows "http_execute env fm body tgt rollback s =
     (case run_steps (http_step env (http_ctx env fm tgt) tgt rollback) sts [] [] s of
        (r, s') \<Rightarrow> (seq_result [''duration='' @ q_duration (h_seq env) @ ''s''] (\<lambda>log. log) r, s'))"
  using assms by (auto simp: http_plan_def http_execute_def split: sum.splits option.splits)

lemma http_execute_unplanned:
  assumes "http_plan env body rollback = None" "http_execute env fm body tgt rollback s = (r, s')"
  shows "s' = s \<and> (\<forall>h. r = Inr h \<longrightarrow> \<not> hr_success h)"
  using assms by (auto simp: http_plan_def http_execute_def missing_spec_def split: sum.splits option.splits)

text \<open>
  the HTTP handler keeps the two promises of the Proxmox handler.  Every request it sends for a step is
  the request of a step of the artifact, and where that step has a precheck and this is not a rollback, the
  probe just before was answered with a status below 500 and the expression decided to run the step.  When
  it reports success, every step in turn was skipped by such a decision or answered with a status below 400.
\<close>

theorem http_guarded_and_achieved:
  assumes "http_execute env fm body tgt rollback fresh_state = (r, s')"
  shows "(\<forall>k<length (hs_trace s'). \<forall>c m path b. hs_trace s' ! k = Send c m path b \<longrightarrow>
      (\<exists>sts st q. http_plan env body rollback = Some sts \<and> JObj st \<in> set sts
         \<and> http_request_of env (http_ctx env fm tgt) st = Inr (Inr q) \<and> send_of c q = Send c m path b
         \<and> (rollback \<or> \<not> truthy (dget ''precheck'' st) \<or> http_decided env tgt False st (take k (hs_trace s')))))
    \<and> (\<forall>h. r = Inr h \<longrightarrow> hr_success h \<longrightarrow>
      (\<exists>sts ks. http_plan env body rollback = Some sts \<and> sorted ks \<and> (\<forall>k\<in>set ks. k \<le> length (hs_trace s'))
         \<and> list_all2 (\<lambda>st k. http_achieved env (http_ctx env fm tgt) tgt rollback st (take k (hs_trace s'))) sts ks))"
proof (cases "http_plan env body rollback")
  case None
  then show ?thesis using http_execute_unplanned [OF None assms] by (auto simp: fresh_state_def)
next
  case (Some sts)
  obtain e s1 where run: "run_steps (http_step env (http_ctx env fm tgt) tgt rollback) sts [] [] fresh_state = (e, s1)"
    by fastforce
  have s1: "s' = s1" and r: "r = seq_result [''duration='' @ q_duration (h_seq env) @ ''s''] (\<lambda>log. log) e"
    using assms run by (simp_all add: http_execute_planned [OF Some])
  let ?P = "\<lambda>t e. \<exists>st\<in>set sts. http_licensed env (http_ctx env fm tgt) tgt rollback st t e"
  have "grows ?P [] (hs_trace s')" using http.run_extends [OF run] s1 by (simp add: fresh_state_def)
  then have lic: "?P (take k (hs_trace s')) (hs_trace s' ! k)" if "k < length (hs_trace s')" for k
    using that by (rule grows_nth)
  have "\<exists>sts st q. http_plan env body rollback = Some sts \<and> JObj st \<in> set sts
         \<and> http_request_of env (http_ctx env fm tgt) st = Inr (Inr q) \<and> send_of c q = Send c m path b
         \<and> (rollback \<or> \<not> truthy (dget ''precheck'' st) \<or> http_decided env tgt False st (take k (hs_trace s')))"
    if "k < length (hs_trace s')" "hs_trace s' ! k = Send c m path b" for k c m path b
    using lic [OF that(1)] Some unfolding that(2) by auto
  moreover have "\<exists>sts ks. http_plan env body rollback = Some sts \<and> sorted ks \<and> (\<forall>k\<in>set ks. k \<le> length (hs_trace s'))
         \<and> list_all2 (\<lambda>st k. http_achieved env (http_ctx env fm tgt) tgt rollback st (take k (hs_trace s'))) sts ks"
    if ok: "r = Inr h" "hr_success h" for h
  proof -
    obtain log where "e = Completed log []" using seq_success [OF ok(1) [unfolded r] ok(2)] by blast
    then show ?thesis using http.run_completed [OF run [unfolded \<open>e = _\<close>]] Some unfolding s1 by blast
  qed
  ultimately show ?thesis by blast
qed

text \<open>A service whose precheck answers 404 and whose change answers 201.\<close>

definition sample_http_step :: dict where
  "sample_http_step =
     [(''id'', JStr ''create''), (''name'', JStr ''dns''), (''method'', JStr ''post''), (''path'', JStr ''/zones''),
      (''body'', JObj [(''zone'', JStr ''lan'')]), (''precheck'', JObj [(''path'', JStr ''/zones/lan'')])]"

definition sample_http_env :: http_env where
  "sample_http_env =
     \<lparr>h_seq = \<lparr>q_ext = \<lparr>x_digest = (\<lambda>s. s), x_yaml = (\<lambda>_. Inr (JObj [(''steps'', JList [JObj sample_http_step])])),
                 x_ast = (\<lambda>_. None), x_render = (\<lambda>_ s. Rendered s), x_now = ''2026-01-02''\<rparr>,
               q_escape = (\<lambda>_ _. None), q_runtime = \<lparr>rt_attr = \<lambda>_ _. None, rt_is = \<lambda>_ _. False\<rparr>, q_duration = ''0.1''\<rparr>,
      h_answer = (\<lambda>req _. case req of
         Probe _ _ _ \<Rightarrow> Inr \<lparr>rsp_status = 404, rsp_headers = [], rsp_json = None\<rparr>
       | Send _ _ _ _ \<Rightarrow> Inr \<lparr>rsp_status = 201, rsp_headers = [], rsp_json = None\<rparr>),
      h_vault = (\<lambda>_ _. Secret (JObj [(''base_url'', JStr ''https://dns.lan/'')]))\<rparr>"

definition sample_client :: http_client where
  "sample_client = \<lparr>cl_base_url = ''https://dns.lan'', cl_headers = JObj [], cl_verify = JBool True\<rparr>"

lemma sample_http_run:
  "\<exists>h s. http_execute sample_http_env fm (''```yaml http-spec'' @ [nl] @ ''steps'' @ [nl] @ ''```'') [] False fresh_state = (Inr h, s)
     \<and> hr_success h \<and> hs_trace s = [Probe sample_client ''GET'' ''/zones/lan'',
          Send sample_client ''POST'' ''/zones'' (Some (JObj [(''zone'', JStr ''lan'')]))]"
proof -
  have f: "find_fence ''http-spec'' (''```yaml http-spec'' @ [nl] @ ''steps'' @ [nl] @ ''```'') = Some (''steps'' @ [nl])" by code_simp
  have u: "py_upper ''post'' = ''POST''" "py_upper ''GET'' = ''GET''" "rstrip_slash ''https://dns.lan/'' = ''https://dns.lan''" by code_simp+
  have q: "x_yaml (q_ext (h_seq sample_http_env)) s = Inr (JObj [(''steps'', JList [JObj sample_http_step])])"
    "interpolate (h_seq sample_http_env) ctx (JStr t) = Inr (Inr t)"
    "h_vault sample_http_env n tr = Secret (JObj [(''base_url'', JStr ''https://dns.lan/'')])"
    "h_answer sample_http_env (Probe c m p) tr = Inr \<lparr>rsp_status = 404, rsp_headers = [], rsp_json = None\<rparr>"
    "h_answer sample_http_env (Send c m p b) tr = Inr \<lparr>rsp_status = 201, rsp_headers = [], rsp_json = None\<rparr>"
    for s ctx t n tr c m p b
    by (simp_all add: sample_http_env_def interpolate_def)
  show ?thesis
    by (simp add: http_execute_def extract_steps_def http_tag_def f [simplified] q http_step_def http_precheck_def http_request_of_def
        dget_def dget_or_def sample_http_step_def bind_i_def u client_for_def step_cred_def step_id_def send_request_def
        precheck_answers_below_def decide_def of_verdict_def http_act_def send_of_def fresh_state_def sample_client_def
        seq_result_def seq_finish_def Let_def)
qed

theorem http_guarded_and_achieved_witness:
  "\<exists>sts. http_plan sample_http_env (''```yaml http-spec'' @ [nl] @ ''steps'' @ [nl] @ ''```'') False = Some sts"
proof -
  obtain fm :: frontmatter where True by simp
  obtain h s where "http_execute sample_http_env fm (''```yaml http-spec'' @ [nl] @ ''steps'' @ [nl] @ ''```'') [] False fresh_state = (Inr h, s)"
    "hr_success h" using sample_http_run by blast
  with http_guarded_and_achieved [OF this(1)] show ?thesis by blast
qed

end
