(* ===== verification/Proxmox_Sequence.thy ===== *)
theory Proxmox_Sequence
  imports Step_Sequence
begin

text \<open>
  The handler of proxmox-api-sequence artifacts: \<^verbatim>\<open>executor/proxmox_api.py\<close>.

  Its state is the list of requests sent to the Proxmox API so far; a constructor says which part of the
  handler sent it.  The answers are an argument: the parsed JSON, a \<open>ProxmoxError\<close> with its status and
  body, or another exception.  Waiting for a task is one request here (\<open>wait_for_task\<close> polls).
\<close>

section \<open>Requests\<close>

datatype pve_request =
    Nodes
  | Precheck string string
  | Act string string "jval option"
  | Wait string string

datatype pve_error = ProxmoxError int string | Pve_raises exn

type_synonym pve_answers = "pve_request \<Rightarrow> pve_request list \<Rightarrow> pve_error + jval"

text \<open>\<open>str(ProxmoxError)\<close> without the method and path in front.\<close>

definition pve_error_text :: "int \<Rightarrow> string \<Rightarrow> string" where
  "pve_error_text code body = ''-> '' @ str_int code @ '': '' @ take 200 body"

section \<open>Tasks\<close>

definition node_for_task :: "dict \<Rightarrow> string \<Rightarrow> string option" where
  "node_for_task tgt upid =
     (let parts = split_on (CHR '':'') upid; node = dget ''node'' tgt in
      if 1 < length parts \<and> parts ! 1 \<noteq> [] then Some (parts ! 1)
      else if truthy node then Some (py_str node) else None)"

definition await_pve_task ::
  "pve_answers \<Rightarrow> dict \<Rightarrow> jval \<Rightarrow> pve_request list \<Rightarrow> (pve_error + string) \<times> pve_request list" where
  "await_pve_task answer tgt resp tr =
     (case upid_of resp of
        None \<Rightarrow> (Inr [], tr)
      | Some upid \<Rightarrow>
          (case node_for_task tgt upid of
             None \<Rightarrow> (Inr '' (task not waited on: no node in the UPID or the target)'', tr)
           | Some node \<Rightarrow>
               (case answer (Wait node upid) tr of
                  Inl e \<Rightarrow> (Inl e, tr @ [Wait node upid])
                | Inr _ \<Rightarrow> (Inr '' (task finished OK)'', tr @ [Wait node upid]))))"

section \<open>One step\<close>

text \<open>The node an online cluster member reports, for a cluster target.\<close>

fun online_node :: "jval list \<Rightarrow> string option res" where
  "online_node [] = Inr None"
| "online_node (JObj n # ns) =
     (if py_lower (py_strip (str_or_empty (dget ''status'' n))) = ''online''
      then let val = (if truthy (dget ''node'' n) then dget ''node'' n else dget ''name'' n) in
           if val = JNull then online_node ns else Inr (Some (py_str val))
      else online_node ns)"
| "online_node (_ # ns) = Inl (AttributeError ''object has no attribute get'')"

definition pick_cluster_node :: "pve_answers \<Rightarrow> pve_request list \<Rightarrow> string option res \<times> pve_request list" where
  "pick_cluster_node answer tr =
     (case answer Nodes tr of
        Inl (ProxmoxError _ _) \<Rightarrow> (Inr None, tr @ [Nodes])
      | Inl (Pve_raises e) \<Rightarrow> (Inl e, tr @ [Nodes])
      | Inr nodes \<Rightarrow>
          ((case nodes of
              JObj kvs \<Rightarrow> (case dget_or ''data'' nodes kvs of JList ns \<Rightarrow> online_node ns | _ \<Rightarrow> Inr None)
            | _ \<Rightarrow> Inl (AttributeError ''object has no attribute get'')), tr @ [Nodes]))"

definition pve_precheck ::
  "seq_env \<Rightarrow> pve_answers \<Rightarrow> interp \<Rightarrow> dict \<Rightarrow> bool \<Rightarrow> dict \<Rightarrow> string \<Rightarrow> pve_request list \<Rightarrow> precheck_end \<times> pve_request list" where
  "pve_precheck env answer ctx tgt rollback st log tr =
     (let precheck = dget ''precheck'' st in
      if \<not> truthy precheck \<or> rollback then (Go log, tr)
      else case precheck of
        JObj pc \<Rightarrow>
          (case dget_or ''method'' (JStr ''GET'') pc of
             JStr m \<Rightarrow>
               (case interpolate env ctx (dget_or ''path'' (JStr []) pc) of
                  Inl e \<Rightarrow> (Precheck_raises e, tr)
                | Inr (Inl msg) \<Rightarrow>
                    (Refused (log @ '' -> REFUSED: precheck path '' @ msg)
                       (''precheck for '' @ py_str (dget_or ''id'' (JStr ''unknown'') st) @ '' could not be interpolated: '' @ msg), tr)
                | Inr (Inr path) \<Rightarrow>
                    (let req = Precheck (py_upper m) path;
                         log1 = log @ '' precheck '' @ py_upper m @ '' '' @ path;
                         r = answer req tr in
                     ((case r of
                         Inl (Pve_raises e) \<Rightarrow> Precheck_raises e
                       | Inl (ProxmoxError code body) \<Rightarrow>
                           (if code \<noteq> 0 \<and> code < precheck_answers_below
                            then of_verdict (log1 @ '' -> HTTP '' @ str_int code)
                                   (decide env (dget ''skip_if'' pc) (make_pve_response_proxy code (pv (JObj [(''data'', JNull)]))) tgt)
                            else Not_decided log1 (''precheck did not answer ('' @ pve_error_text code body @ '')''))
                       | Inr resp \<Rightarrow>
                           of_verdict log1 (decide env (dget ''skip_if'' pc) (make_pve_response_proxy 200 (pv resp)) tgt)),
                      tr @ [req])))
           | _ \<Rightarrow> (Precheck_raises (AttributeError ''object has no attribute upper''), tr))
      | _ \<Rightarrow> (Precheck_raises (AttributeError ''object has no attribute get''), tr))"

text \<open>Method, path and body of the request a step makes.\<close>

definition pve_request_of :: "seq_env \<Rightarrow> interp \<Rightarrow> dict \<Rightarrow> (string + string \<times> string \<times> jval option) res" where
  "pve_request_of env ctx st =
     bind_i (interpolate env ctx (dget_or ''path'' (JStr []) st)) (\<lambda>path.
       case dget_or ''method'' (JStr ''GET'') st of
         JStr m \<Rightarrow>
           (if dget ''body'' st = JNull then Inr (Inr (py_upper m, path, None))
            else bind_i (interpolate_obj env ctx (dget ''body'' st)) (\<lambda>b. Inr (Inr (py_upper m, path, Some b))))
       | _ \<Rightarrow> Inl (AttributeError ''object has no attribute upper''))"

definition mutating_methods :: "string set" where
  "mutating_methods = {''POST'', ''PUT'', ''DELETE'', ''PATCH''}"

definition act_request :: "string \<times> string \<times> jval option \<Rightarrow> pve_request" where
  "act_request q = (case q of (m, path, b) \<Rightarrow> Act m path (if m \<in> mutating_methods then b else None))"

definition pve_act ::
  "pve_answers \<Rightarrow> dict \<Rightarrow> dict \<Rightarrow> string \<times> string \<times> jval option \<Rightarrow> string \<Rightarrow> pve_request list \<Rightarrow> step_end \<times> pve_request list" where
  "pve_act answer tgt st q log tr =
     (let m = fst q; path = fst (snd q);
          failed = (\<lambda>l e tr'. case e of
            Pve_raises x \<Rightarrow> (Raised x, tr')
          | ProxmoxError code body \<Rightarrow>
              (step_failed st (l @ '' '' @ m @ '' '' @ path @ '' -> ERROR '' @ str_int code @ '': '' @ take 200 body)
                 (''step '' @ py_str (dget_or ''id'' (JStr ''unknown'') st) @ '' failed: '' @ pve_error_text code body), tr')) in
      case answer (act_request q) tr of
        Inl e \<Rightarrow> failed log e (tr @ [act_request q])
      | Inr resp \<Rightarrow>
          (let log1 = log @ '' '' @ m @ '' '' @ path @ '' -> OK'' in
           case await_pve_task answer tgt resp (tr @ [act_request q]) of
             (Inl e, tr') \<Rightarrow> failed log1 e tr'
           | (Inr waited, tr') \<Rightarrow> (Finished (log1 @ waited), tr')))"

definition pve_step ::
  "seq_env \<Rightarrow> pve_answers \<Rightarrow> interp \<Rightarrow> dict \<Rightarrow> bool \<Rightarrow> jval \<Rightarrow> pve_request list \<Rightarrow> step_end \<times> pve_request list" where
  "pve_step env answer ctx tgt rollback step tr =
     (case step of
        JObj st \<Rightarrow>
          (let log = ''['' @ py_str (dget_or ''id'' (JStr ''unknown'') st) @ '']'' in
           case pve_request_of env ctx st of
             Inl e \<Rightarrow> (Raised e, tr)
           | Inr (Inl msg) \<Rightarrow>
               (Halted (log @ '' -> REFUSED: '' @ msg)
                  (''step '' @ py_str (dget_or ''id'' (JStr ''unknown'') st) @ '' could not be interpolated: '' @ msg), tr)
           | Inr (Inr q) \<Rightarrow>
               (case pve_precheck env answer ctx tgt rollback st log tr of
                  (Go log1, tr1) \<Rightarrow> pve_act answer tgt st q log1 tr1
                | (Skipped line, tr1) \<Rightarrow> (Finished line, tr1)
                | (Not_decided log1 why, tr1) \<Rightarrow> (not_run st log1 why, tr1)
                | (Refused line why, tr1) \<Rightarrow> (Halted line why, tr1)
                | (Precheck_raises e, tr1) \<Rightarrow> (Raised e, tr1)))
      | _ \<Rightarrow> (Raised (AttributeError ''object has no attribute get''), tr))"

section \<open>The handler\<close>

definition pve_tag :: "bool \<Rightarrow> string" where
  "pve_tag rollback = (if rollback then ''proxmox-api-rollback'' else ''proxmox-api-spec'')"

text \<open>The target the steps see: for a cluster target, with an online node filled in.\<close>

definition pve_target :: "pve_answers \<Rightarrow> dict \<Rightarrow> pve_request list \<Rightarrow> dict res \<times> pve_request list" where
  "pve_target answer tgt tr =
     (if dget ''kind'' tgt = JStr ''cluster''
      then case pick_cluster_node answer tr of
             (Inl e, tr') \<Rightarrow> (Inl e, tr')
           | (Inr n, tr') \<Rightarrow>
               (Inr (case n of None \<Rightarrow> tgt | Some v \<Rightarrow> if v = [] then tgt else AList.update ''node'' (JStr v) tgt), tr')
      else (Inr tgt, tr))"

definition pve_execute ::
  "seq_env \<Rightarrow> pve_answers \<Rightarrow> frontmatter \<Rightarrow> string \<Rightarrow> dict \<Rightarrow> bool \<Rightarrow> pve_request list \<Rightarrow> handler_result res \<times> pve_request list" where
  "pve_execute env answer fm body tgt rollback tr =
     (case extract_steps (x_yaml (q_ext env)) body (pve_tag rollback) of
        Inl e \<Rightarrow> (Inl e, tr)
      | Inr None \<Rightarrow> (Inr (missing_spec (pve_tag rollback)), tr)
      | Inr (Some steps) \<Rightarrow>
          (case pve_target answer tgt tr of
             (Inl e, tr1) \<Rightarrow> (Inl e, tr1)
           | (Inr tgt1, tr1) \<Rightarrow>
               (case iter_steps steps of
                  Inl e \<Rightarrow> (Inl e, tr1)
                | Inr sts \<Rightarrow>
                    (case run_steps (pve_step env answer (interpolation_context (x_now (q_ext env)) (Some tgt1) fm) tgt1 rollback)
                            sts [] [] tr1 of
                       (r, tr2) \<Rightarrow>
                         (seq_result [''duration='' @ q_duration env @ ''s''] (\<lambda>log. log @ [''duration='' @ q_duration env @ ''s'']) r, tr2)))))"

section \<open>What a step may send, and what it achieves\<close>

text \<open>The answer of a precheck as the expression sees it; \<open>None\<close> when it says nothing of the resource.\<close>

definition pve_proxy :: "pve_error + jval \<Rightarrow> pval option" where
  "pve_proxy r =
     (case r of
        Inr resp \<Rightarrow> Some (make_pve_response_proxy 200 (pv resp))
      | Inl (ProxmoxError code _) \<Rightarrow>
          (if code \<noteq> 0 \<and> code < precheck_answers_below
           then Some (make_pve_response_proxy code (pv (JObj [(''data'', JNull)]))) else None)
      | Inl (Pve_raises _) \<Rightarrow> None)"

text \<open>A definite answer to a precheck: a proxy, and an expression decided on it.\<close>

definition pve_decided :: "seq_env \<Rightarrow> pve_answers \<Rightarrow> dict \<Rightarrow> bool \<Rightarrow> dict \<Rightarrow> pve_request list \<Rightarrow> bool" where
  "pve_decided env answer tgt skip st tr \<longleftrightarrow>
     (\<exists>tr0 m path pc proxy. tr = tr0 @ [Precheck m path] \<and> dget ''precheck'' st = JObj pc
        \<and> pve_proxy (answer (Precheck m path) tr0) = Some proxy
        \<and> decide env (dget ''skip_if'' pc) proxy tgt = (if skip then Skip_it else Run_it))"

fun pve_licensed :: "seq_env \<Rightarrow> pve_answers \<Rightarrow> interp \<Rightarrow> dict \<Rightarrow> bool \<Rightarrow> jval \<Rightarrow> pve_request list \<Rightarrow> pve_request \<Rightarrow> bool" where
  "pve_licensed env answer ctx tgt rollback step tr (Act m path b) =
     (\<exists>st q. step = JObj st \<and> pve_request_of env ctx st = Inr (Inr q) \<and> act_request q = Act m path b
        \<and> (rollback \<or> \<not> truthy (dget ''precheck'' st) \<or> pve_decided env answer tgt False st tr))"
| "pve_licensed env answer ctx tgt rollback step tr (Precheck m path) =
     (\<not> rollback \<and> (\<exists>st. step = JObj st \<and> truthy (dget ''precheck'' st)))"
| "pve_licensed env answer ctx tgt rollback step tr (Wait node upid) =
     (\<exists>tr0 m path b resp. tr = tr0 @ [Act m path b] \<and> answer (Act m path b) tr0 = Inr resp
        \<and> upid_of resp = Some upid \<and> node_for_task tgt upid = Some node)"
| "pve_licensed env answer ctx tgt rollback step tr Nodes = False"

definition pve_done :: "pve_answers \<Rightarrow> dict \<Rightarrow> pve_request \<Rightarrow> pve_request list \<Rightarrow> bool" where
  "pve_done answer tgt act tr \<longleftrightarrow>
     (\<exists>tr0 resp. answer act tr0 = Inr resp \<and>
        (case upid_of resp of
           None \<Rightarrow> tr = tr0 @ [act]
         | Some upid \<Rightarrow>
             (case node_for_task tgt upid of
                None \<Rightarrow> tr = tr0 @ [act]
              | Some node \<Rightarrow> tr = tr0 @ [act, Wait node upid] \<and> (\<exists>x. answer (Wait node upid) (tr0 @ [act]) = Inr x))))"

definition pve_achieved :: "seq_env \<Rightarrow> pve_answers \<Rightarrow> interp \<Rightarrow> dict \<Rightarrow> bool \<Rightarrow> jval \<Rightarrow> pve_request list \<Rightarrow> bool" where
  "pve_achieved env answer ctx tgt rollback step tr \<longleftrightarrow>
     (\<exists>st. step = JObj st \<and>
        ((\<not> rollback \<and> pve_decided env answer tgt True st tr)
         \<or> (\<exists>q. pve_request_of env ctx st = Inr (Inr q) \<and> pve_done answer tgt (act_request q) tr)))"

lemma pve_precheck_cases:
  assumes "pve_precheck env answer ctx tgt rollback st log tr = (r, tr')"
  shows "tr' = tr \<and> ((\<exists>l. r = Go l) \<longrightarrow> \<not> truthy (dget ''precheck'' st) \<or> rollback) \<and> (\<forall>l. r \<noteq> Skipped l)
    \<or> (\<exists>m p. tr' = tr @ [Precheck m p] \<and> \<not> rollback \<and> truthy (dget ''precheck'' st)
         \<and> ((\<exists>l. r = Go l) \<longrightarrow> pve_decided env answer tgt False st tr')
         \<and> ((\<exists>l. r = Skipped l) \<longrightarrow> pve_decided env answer tgt True st tr'))"
proof (cases "\<not> truthy (dget ''precheck'' st) \<or> rollback")
  case True
  then show ?thesis using assms by (auto simp: pve_precheck_def)
next
  case no: False
  show ?thesis
  proof (cases "\<exists>pc m path. dget ''precheck'' st = JObj pc \<and> dget_or ''method'' (JStr ''GET'') pc = JStr m
      \<and> interpolate env ctx (dget_or ''path'' (JStr []) pc) = Inr (Inr path)")
    case False
    then show ?thesis using assms no
      by (auto simp: pve_precheck_def Let_def split: jval.splits sum.splits)
  next
    case True
    then obtain pc m path where p: "dget ''precheck'' st = JObj pc" "dget_or ''method'' (JStr ''GET'') pc = JStr m"
      "interpolate env ctx (dget_or ''path'' (JStr []) pc) = Inr (Inr path)" by blast
    let ?req = "Precheck (py_upper m) path"
    have tr': "tr' = tr @ [?req]" using assms no p by (auto simp: pve_precheck_def Let_def)
    have d: "pve_decided env answer tgt skip st tr'"
      if "\<exists>proxy. pve_proxy (answer ?req tr) = Some proxy
            \<and> decide env (dget ''skip_if'' pc) proxy tgt = (if skip then Skip_it else Run_it)" for skip
      using that p(1) tr' unfolding pve_decided_def by blast
    have "pve_decided env answer tgt False st tr'" if "r = Go l" for l
      using assms no p that
      by (intro d) (auto simp: pve_precheck_def pve_proxy_def Let_def split: sum.splits pve_error.splits if_splits)
    moreover have "pve_decided env answer tgt True st tr'" if "r = Skipped l" for l
      using assms no p that
      by (intro d) (auto simp: pve_precheck_def pve_proxy_def Let_def split: sum.splits pve_error.splits if_splits)
    ultimately show ?thesis using tr' no by blast
  qed
qed

lemma await_cases:
  assumes "await_pve_task answer tgt resp tr = (w, tr')"
  shows "(tr' = tr \<and> \<not> isl w \<and> (case upid_of resp of None \<Rightarrow> True | Some u \<Rightarrow> node_for_task tgt u = None))
    \<or> (\<exists>u n. upid_of resp = Some u \<and> node_for_task tgt u = Some n \<and> tr' = tr @ [Wait n u]
         \<and> (\<not> isl w \<longrightarrow> (\<exists>x. answer (Wait n u) tr = Inr x)))"
  using assms by (auto simp: await_pve_task_def split: option.splits sum.splits)

lemma pve_act_cases:
  assumes "pve_act answer tgt st q log tr = (r, tr')"
  shows "(tr' = tr @ [act_request q]
      \<or> (\<exists>resp u n. tr' = tr @ [act_request q, Wait n u] \<and> answer (act_request q) tr = Inr resp
           \<and> upid_of resp = Some u \<and> node_for_task tgt u = Some n))
    \<and> ((\<exists>l. r = Finished l) \<longrightarrow> pve_done answer tgt (act_request q) tr')"
proof (cases "answer (act_request q) tr")
  case (Inl e)
  then show ?thesis using assms
    by (auto simp: pve_act_def step_failed_def Let_def split: pve_error.splits if_splits)
next
  case (Inr resp)
  obtain w tr1 where w: "await_pve_task answer tgt resp (tr @ [act_request q]) = (w, tr1)" by fastforce
  have tr1: "tr' = tr1" using assms Inr w by (auto simp: pve_act_def Let_def split: sum.splits pve_error.splits)
  have fin: "\<not> isl w" if "r = Finished l" for l
    using assms Inr w that by (auto simp: pve_act_def step_failed_def Let_def split: sum.splits pve_error.splits if_splits)
  from await_cases [OF w] show ?thesis
  proof
    assume a: "tr1 = tr @ [act_request q] \<and> \<not> isl w \<and> (case upid_of resp of None \<Rightarrow> True | Some u \<Rightarrow> node_for_task tgt u = None)"
    then have "pve_done answer tgt (act_request q) tr'"
      using Inr tr1 unfolding pve_done_def by (intro exI [of _ tr] exI [of _ resp]) (auto split: option.splits)
    then show ?thesis using a tr1 by blast
  next
    assume "\<exists>u n. upid_of resp = Some u \<and> node_for_task tgt u = Some n \<and> tr1 = (tr @ [act_request q]) @ [Wait n u]
         \<and> (\<not> isl w \<longrightarrow> (\<exists>x. answer (Wait n u) (tr @ [act_request q]) = Inr x))"
    then obtain u n where u: "upid_of resp = Some u" "node_for_task tgt u = Some n" "tr1 = tr @ [act_request q, Wait n u]"
      "\<not> isl w \<longrightarrow> (\<exists>x. answer (Wait n u) (tr @ [act_request q]) = Inr x)" by auto
    have "pve_done answer tgt (act_request q) tr'" if "r = Finished l" for l
      using fin [OF that] u Inr tr1 unfolding pve_done_def by (intro exI [of _ tr] exI [of _ resp]) auto
    then show ?thesis using u Inr tr1 by blast
  qed
qed

lemma pve_step_spec:
  assumes "pve_step env answer ctx tgt rollback step tr = (r, tr')"
  shows "grows (pve_licensed env answer ctx tgt rollback step) tr tr'
    \<and> ((\<exists>l. r = Finished l) \<longrightarrow> pve_achieved env answer ctx tgt rollback step tr')"
proof (cases "\<exists>st q. step = JObj st \<and> pve_request_of env ctx st = Inr (Inr q)")
  case False
  then show ?thesis using assms by (auto simp: pve_step_def Let_def split: jval.splits sum.splits)
next
  case True
  then obtain st q where st: "step = JObj st" and q: "pve_request_of env ctx st = Inr (Inr q)" by blast
  let ?log = "''['' @ py_str (dget_or ''id'' (JStr ''unknown'') st) @ '']''"
  let ?L = "pve_licensed env answer ctx tgt rollback step"
  obtain p tr1 where p: "pve_precheck env answer ctx tgt rollback st ?log tr = (p, tr1)" by fastforce
  note pc = pve_precheck_cases [OF p]
  have g1: "grows ?L tr tr1" using pc st by (auto intro: grows_snoc)
  have rest: "tr' = tr1 \<and> ((\<exists>l. r = Finished l) \<longrightarrow> (\<exists>l. p = Skipped l))" if "\<forall>l. p \<noteq> Go l"
    using assms st q p that
    by (auto simp: pve_step_def not_run_def Let_def split: precheck_end.splits if_splits)
  show ?thesis
  proof (cases "\<exists>l. p = Go l")
    case False
    then have "pve_achieved env answer ctx tgt rollback step tr'" if "r = Finished l" for l
      using rest that pc st unfolding pve_achieved_def by blast
    then show ?thesis using False rest g1 by blast
  next
    case True
    then obtain l where l: "p = Go l" by blast
    then have act: "pve_act answer tgt st q l tr1 = (r, tr')" using assms st q p by (simp add: pve_step_def)
    have cleared: "rollback \<or> \<not> truthy (dget ''precheck'' st) \<or> pve_decided env answer tgt False st tr1"
      using pc l by blast
    obtain m path b where a: "act_request q = Act m path b" by (cases q) (simp add: act_request_def)
    have lic: "?L tr1 (act_request q)" unfolding a pve_licensed.simps using st q cleared a by blast
    have ga: "grows ?L tr (tr1 @ [act_request q])" by (rule grows_snoc [OF g1 lic])
    have w: "?L (tr1 @ [act_request q]) (Wait n u)"
      if "answer (act_request q) tr1 = Inr resp" "upid_of resp = Some u" "node_for_task tgt u = Some n" for resp u n
      using that unfolding a pve_licensed.simps by blast
    have "grows ?L tr tr'"
      using pve_act_cases [OF act] ga grows_snoc [OF ga w] by auto
    moreover have "pve_achieved env answer ctx tgt rollback step tr'" if "r = Finished l'" for l'
      using pve_act_cases [OF act] that st q unfolding pve_achieved_def by blast
    ultimately show ?thesis by blast
  qed
qed

interpretation pve: guarded_sequence "pve_step env answer ctx tgt rollback" "\<lambda>tr. tr"
    "pve_licensed env answer ctx tgt rollback" "pve_achieved env answer ctx tgt rollback"
    for env answer ctx tgt rollback
  by unfold_locales (use pve_step_spec in blast)+

section \<open>Properties\<close>

definition pve_ctx :: "seq_env \<Rightarrow> frontmatter \<Rightarrow> dict \<Rightarrow> interp" where
  "pve_ctx env fm tgt = interpolation_context (x_now (q_ext env)) (Some tgt) fm"

text \<open>The steps an execution runs over, and the target it runs them against.\<close>

definition pve_plan :: "seq_env \<Rightarrow> pve_answers \<Rightarrow> string \<Rightarrow> dict \<Rightarrow> bool \<Rightarrow> (jval list \<times> dict \<times> pve_request list) option" where
  "pve_plan env answer body tgt rollback =
     (case extract_steps (x_yaml (q_ext env)) body (pve_tag rollback) of
        Inr (Some steps) \<Rightarrow>
          (case (pve_target answer tgt [], iter_steps steps) of
             ((Inr tgt1, tr1), Inr sts) \<Rightarrow> Some (sts, tgt1, tr1)
           | _ \<Rightarrow> None)
      | _ \<Rightarrow> None)"

lemma pve_target_trace: "pve_target answer tgt tr = (r, tr1) \<Longrightarrow> tr1 = tr \<or> tr1 = tr @ [Nodes]"
  by (auto simp: pve_target_def pick_cluster_node_def split: if_splits prod.splits sum.splits pve_error.splits)

lemma pve_plan_trace: "pve_plan env answer body tgt rollback = Some (sts, tgt1, tr1) \<Longrightarrow> tr1 = [] \<or> tr1 = [Nodes]"
  using pve_target_trace [of answer tgt "[]"]
  by (auto simp: pve_plan_def split: sum.splits option.splits prod.splits)

lemma pve_execute_planned:
  assumes "pve_plan env answer body tgt rollback = Some (sts, tgt1, tr1)"
  shows "pve_execute env answer fm body tgt rollback [] =
     (case run_steps (pve_step env answer (pve_ctx env fm tgt1) tgt1 rollback) sts [] [] tr1 of
        (r, tr2) \<Rightarrow> (seq_result [''duration='' @ q_duration env @ ''s''] (\<lambda>log. log @ [''duration='' @ q_duration env @ ''s'']) r, tr2))"
  using assms by (auto simp: pve_plan_def pve_execute_def pve_ctx_def split: sum.splits option.splits prod.splits)

lemma pve_execute_unplanned:
  assumes "pve_plan env answer body tgt rollback = None" "pve_execute env answer fm body tgt rollback [] = (r, tr)"
  shows "set tr \<subseteq> {Nodes} \<and> (\<forall>h. r = Inr h \<longrightarrow> \<not> hr_success h)"
  using assms pve_target_trace [of answer tgt "[]"]
  by (auto simp: pve_plan_def pve_execute_def missing_spec_def split: sum.splits option.splits prod.splits)


text \<open>
  success is not an echo.  An execution that reports success has achieved every step, one after the
  other: the step was skipped because its precheck was answered and decided so, or its request was answered
  without an error and the task it started, where it can be waited for, ended well.
\<close>

theorem proxmox_success_achieved:
  assumes "pve_execute env answer fm body tgt rollback [] = (Inr h, tr)" and "hr_success h"
  shows "\<exists>sts tgt1 tr1 ks. pve_plan env answer body tgt rollback = Some (sts, tgt1, tr1)
    \<and> sorted ks \<and> (\<forall>k\<in>set ks. k \<le> length tr)
    \<and> list_all2 (\<lambda>st k. pve_achieved env answer (pve_ctx env fm tgt1) tgt1 rollback st (take k tr)) sts ks"
proof (cases "pve_plan env answer body tgt rollback")
  case None
  then show ?thesis using pve_execute_unplanned [OF None assms(1)] assms(2) by blast
next
  case (Some p)
  then obtain sts tgt1 tr1 where p: "pve_plan env answer body tgt rollback = Some (sts, tgt1, tr1)" by (cases p) auto
  obtain e tr2 where run: "run_steps (pve_step env answer (pve_ctx env fm tgt1) tgt1 rollback) sts [] [] tr1 = (e, tr2)"
    by fastforce
  then have tr: "tr = tr2" and "\<exists>log. e = Completed log []"
    using assms seq_success by (auto simp: pve_execute_planned [OF p])
  then obtain log where "e = Completed log []" by blast
  then show ?thesis using pve.run_completed [OF run [unfolded \<open>e = _\<close>]] p unfolding tr by blast
qed

section \<open>A sample execution\<close>

text \<open>One step that starts a guest unless it runs already; its precheck is answered with 404.\<close>

definition sample_body :: string where
  "sample_body = ''```yaml proxmox-api-spec'' @ [nl] @ ''steps'' @ [nl] @ ''```''"

definition sample_pve_step :: dict where
  "sample_pve_step =
     [(''id'', JStr ''start''), (''method'', JStr ''post''), (''path'', JStr ''/nodes/pve1/qemu/101/status/start''),
      (''precheck'', JObj [(''path'', JStr ''/nodes/pve1/qemu/101/status/current''),
         (''skip_if'', JStr ''response.status_code == 200'')])]"

definition sample_seq_env :: seq_env where
  "sample_seq_env =
     \<lparr>q_ext = \<lparr>x_digest = (\<lambda>s. s), x_yaml = (\<lambda>_. Inr (JObj [(''steps'', JList [JObj sample_pve_step])])),
        x_ast = (\<lambda>_. Some (Compare (Attribute (Name ''response'') ''status_code'') [(CmpEq, Constant (CInt 200))])),
        x_render = (\<lambda>_ s. Rendered s), x_now = ''2026-01-02''\<rparr>,
      q_escape = (\<lambda>_ _. None), q_runtime = \<lparr>rt_attr = \<lambda>_ _. None, rt_is = \<lambda>_ _. False\<rparr>, q_duration = ''0.1''\<rparr>"

definition sample_answers :: pve_answers where
  "sample_answers req tr =
     (case req of
        Precheck _ _ \<Rightarrow> Inl (ProxmoxError 404 ''no such guest'')
      | Act _ _ _ \<Rightarrow> Inr (JObj [(''data'', JStr ''UPID:pve1:0001'')])
      | _ \<Rightarrow> Inr JNull)"

lemma sample_run:
  "\<exists>h. pve_execute sample_seq_env sample_answers fm sample_body [] False [] =
     (Inr h, [Precheck ''GET'' ''/nodes/pve1/qemu/101/status/current'',
              Act ''POST'' ''/nodes/pve1/qemu/101/status/start'' None, Wait ''pve1'' ''UPID:pve1:0001''])
   \<and> hr_success h"
proof -
  have f: "find_fence ''proxmox-api-spec'' sample_body = Some (''steps'' @ [nl])" by code_simp
  have u: "upid_of (JObj [(''data'', JStr ''UPID:pve1:0001'')]) = Some ''UPID:pve1:0001''"
    "node_for_task [] ''UPID:pve1:0001'' = Some ''pve1''" "py_upper ''post'' = ''POST''" "py_upper ''GET'' = ''GET''"
    by code_simp+
  have d: "decide sample_seq_env (JStr ''response.status_code == 200'') (make_pve_response_proxy 404 (VDict [(VStr ''data'', VNone)])) [] = Run_it"
    by (simp add: decide_def sample_seq_env_def safe_eval_skip_if_def eval_name_def allowed_names_def skip_context_def
        py_getattr_def prefix_def make_pve_response_proxy_def of_const_def)
  have q: "x_yaml (q_ext sample_seq_env) s = Inr (JObj [(''steps'', JList [JObj sample_pve_step])])"
    "interpolate sample_seq_env ctx (JStr t) = Inr (Inr t)" for s ctx t
    by (simp_all add: sample_seq_env_def interpolate_def)
  show ?thesis
    by (simp add: pve_execute_def extract_steps_def pve_tag_def f q pve_target_def dget_def dget_or_def
        pve_step_def pve_request_of_def sample_pve_step_def bind_i_def u pve_precheck_def
        sample_answers_def precheck_answers_below_def d of_verdict_def pve_act_def act_request_def mutating_methods_def
        await_pve_task_def seq_result_def seq_finish_def)
qed


theorem proxmox_success_achieved_witness:
  "\<exists>sts tgt1 tr1 ks. pve_plan sample_seq_env sample_answers sample_body [] False = Some (sts, tgt1, tr1) \<and> sorted (ks :: nat list)
     \<and> length ks = length sts"
proof -
  obtain fm :: frontmatter where True by simp
  obtain h tr where "pve_execute sample_seq_env sample_answers fm sample_body [] False [] = (Inr h, tr)" "hr_success h"
    using sample_run by blast
  from proxmox_success_achieved [OF this] obtain sts tgt1 tr1 ks
    where "pve_plan sample_seq_env sample_answers sample_body [] False = Some (sts, tgt1, tr1)" "sorted ks"
      "list_all2 (\<lambda>st k. pve_achieved sample_seq_env sample_answers (pve_ctx sample_seq_env fm tgt1) tgt1 False st (take k tr)) sts ks"
    by blast
  moreover from this(3) have "length ks = length sts" by (simp add: list_all2_lengthD)
  ultimately show ?thesis by blast
qed

end
