(* ===== verification/Shell_Script.thy ===== *)
theory Shell_Script
  imports Executor
begin

text \<open>
  The handler of shell-script artifacts: \<^verbatim>\<open>executor/shell_script.py\<close>.  Its state is the list of calls
  made to the host; what the host answers is an argument, as is the vault.
\<close>

section \<open>The script of a body\<close>

text \<open>A fenced block in any language; the fences of \<^verbatim>\<open>models.py\<close> are the ones in YAML.\<close>

definition lang_fence_here :: "string \<Rightarrow> string \<Rightarrow> string \<Rightarrow> string option" where
  "lang_fence_here lang name s =
     (case after_prefix (backticks @ lang) s of
        None \<Rightarrow> None
      | Some r \<Rightarrow>
          (if r = [] \<or> \<not> py_isspace (hd r) then None
           else (case after_prefix name (py_lstrip r) of
                   None \<Rightarrow> None
                 | Some r2 \<Rightarrow>
                     (case after_last_nl r2 of
                        None \<Rightarrow> None
                      | Some r3 \<Rightarrow> map_option (\<lambda>i. take i r3) (py_find backticks r3)))))"

lemma fence_here_yaml: "fence_here = lang_fence_here ''yaml''"
  by (intro ext) (simp add: fence_here_def lang_fence_here_def)

fun find_lang_fence :: "string \<Rightarrow> string \<Rightarrow> string \<Rightarrow> string option" where
  "find_lang_fence lang name [] = None"
| "find_lang_fence lang name (c # cs) =
     (case lang_fence_here lang name (c # cs) of
        Some block \<Rightarrow> Some block
      | None \<Rightarrow> find_lang_fence lang name cs)"

definition extract_script :: "string \<Rightarrow> string \<Rightarrow> string option" where
  "extract_script body tag = map_option py_strip (find_lang_fence ''bash'' tag body)"

definition idempotence_heading :: string where
  "idempotence_heading = ''## Idempotence preamble''"

text \<open>\<open>^##\s+\<close> at the start of a line.\<close>

definition heading_here :: "string \<Rightarrow> bool" where
  "heading_here s = (prefix ''##'' s \<and> 2 < length s \<and> py_isspace (s ! 2))"

fun upto_heading :: "bool \<Rightarrow> string \<Rightarrow> string" where
  "upto_heading line_start [] = []"
| "upto_heading line_start (c # cs) =
     (if line_start \<and> heading_here (c # cs) then [] else c # upto_heading (c = nl) cs)"

definition validate_idempotence_preamble :: "string \<Rightarrow> string option" where
  "validate_idempotence_preamble body =
     (case py_find idempotence_heading body of
        None \<Rightarrow> Some (''Missing '' @ CHR 0x27 # idempotence_heading @ CHR 0x27 # '' section'')
      | Some idx \<Rightarrow>
          (if py_strip (upto_heading True (drop (idx + length idempotence_heading) body)) = []
           then Some ''Idempotence preamble is empty'' else None))"

section \<open>Running it\<close>

definition script_dir :: string where
  "script_dir = ''/opt/homepilot''"

definition safe_char :: "char \<Rightarrow> bool" where
  "safe_char c = (is_lower c \<or> is_upper c \<or> is_digit c \<or> c = CHR ''_'' \<or> c = CHR ''-'')"

definition remote_script_path :: "string \<Rightarrow> bool \<Rightarrow> string" where
  "remote_script_path artifact_id rollback =
     (let mapped = map (\<lambda>c. if safe_char c then c else CHR ''-'') artifact_id;
          safe = (if mapped = [] then ''artifact'' else mapped)
      in script_dir @ ''/hp-'' @ safe @ ''-'' @ (if rollback then ''rollback'' else ''apply'') @ ''.sh'')"

datatype host_call = Write_file jval string string | Exec jval string

record exec_answer =
  ea_rc :: int
  ea_stdout :: string
  ea_stderr :: string

record shell_env =
  se_write :: "host_call \<Rightarrow> host_call list \<Rightarrow> unit res"
  se_exec :: "host_call \<Rightarrow> host_call list \<Rightarrow> exec_answer res"
  se_vault :: "(string \<Rightarrow> secret res) option"
  se_pve_nodes :: "string list"
  se_duration :: string

definition refusal :: "string \<Rightarrow> string \<Rightarrow> handler_result" where
  "refusal log why = \<lparr>hr_success = False, hr_log = log, hr_reason = Some why, hr_pre_state = None\<rparr>"

definition forbidden_node :: "string list \<Rightarrow> string \<Rightarrow> bool" where
  "forbidden_node nodes host = list_ex (\<lambda>n. py_strip (py_lower host) = py_strip (py_lower n)) nodes"

text \<open>\<open>target.get("host") or target.get("node", "")\<close>.\<close>

definition target_host :: "dict \<Rightarrow> jval" where
  "target_host tgt = (if truthy (dget ''host'' tgt) then dget ''host'' tgt else dget_or ''node'' (JStr []) tgt)"

text \<open>The checks before anything happens: the script and the host, or the result that ends the call.\<close>

definition shell_checks :: "shell_env \<Rightarrow> string \<Rightarrow> dict \<Rightarrow> bool \<Rightarrow> (handler_result + string \<times> jval) res" where
  "shell_checks env body tgt rollback =
     (let tag = (if rollback then ''shell-rollback'' else ''shell-spec'') in
      case extract_script body tag of
        None \<Rightarrow> Inr (Inl (refusal (''No ```bash '' @ tag @ ''``` block found'') ''missing spec''))
      | Some script \<Rightarrow>
          (case (if rollback then None else validate_idempotence_preamble body) of
             Some err \<Rightarrow> Inr (Inl (refusal err err))
           | None \<Rightarrow>
               (if dget_or ''kind'' (JStr []) tgt \<in> {JStr ''node'', JStr ''cluster''}
                then Inr (Inl (refusal (''shell-script forbidden for target.kind='' @ py_str (dget ''kind'' tgt))
                                 ''shell-script cannot target PVE nodes or cluster''))
                else let host = target_host tgt in
                  if \<not> truthy host then Inr (Inl (refusal ''No target host resolved'' ''missing host''))
                  else if se_pve_nodes env = [] then Inr (Inr (script, host))
                  else case host of
                    JStr h \<Rightarrow>
                      (if forbidden_node (se_pve_nodes env) h
                       then Inr (Inl (refusal (''shell-script forbidden for PVE node '' @ CHR 0x27 # h @ [CHR 0x27]) ''forbidden target''))
                       else Inr (Inr (script, host)))
                  | _ \<Rightarrow> Inl (AttributeError ''object has no attribute lower''))))"

definition shell_log :: "shell_env \<Rightarrow> string \<Rightarrow> bool \<Rightarrow> exec_answer \<Rightarrow> string" where
  "shell_log env path rollback a =
     join [nl] ([''$ write '' @ path @ ''  # '' @ (if rollback then ''rollback'' else ''script''), ''$ bash '' @ path,
        ''exit='' @ str_int (ea_rc a), ''stdout:'' @ nl # ea_stdout a]
       @ (if ea_stderr a = [] then [] else [''stderr:'' @ nl # ea_stderr a])
       @ [''duration='' @ se_duration env @ ''s''])"

definition shell_run :: "shell_env \<Rightarrow> jval \<Rightarrow> string \<Rightarrow> bool \<Rightarrow> string \<times> string list \<Rightarrow> host_call list \<Rightarrow> handler_result \<times> host_call list" where
  "shell_run env host path rollback resolved tr =
     (let script = fst resolved; secrets = snd resolved; w = Write_file host path script; x = Exec host (''bash '' @ path) in
      case se_write env w tr of
        Inl e \<Rightarrow> (refusal (redact (''host write error: '' @ exn_str e) secrets) (redact (exn_str e) secrets), tr @ [w])
      | Inr _ \<Rightarrow>
          (case se_exec env x (tr @ [w]) of
             Inl e \<Rightarrow> (refusal (redact (''host exec error: '' @ exn_str e) secrets) (redact (exn_str e) secrets), tr @ [w, x])
           | Inr a \<Rightarrow>
               (let log = redact (shell_log env path rollback a) secrets in
                (if ea_rc a = 0 then \<lparr>hr_success = True, hr_log = log, hr_reason = None, hr_pre_state = None\<rparr>
                 else refusal log (''script exited with rc='' @ str_int (ea_rc a)), tr @ [w, x]))))"

definition shell_execute :: "shell_env \<Rightarrow> string \<Rightarrow> string \<Rightarrow> dict \<Rightarrow> bool \<Rightarrow> host_call list \<Rightarrow> handler_result res \<times> host_call list" where
  "shell_execute env artifact_id body tgt rollback tr =
     (case shell_checks env body tgt rollback of
        Inl e \<Rightarrow> (Inl e, tr)
      | Inr (Inl r) \<Rightarrow> (Inr r, tr)
      | Inr (Inr (script, host)) \<Rightarrow>
          (case resolve script (se_vault env) of
             Inl e \<Rightarrow> (Inr (refusal (exn_str e) (exn_str e)), tr)
           | Inr resolved \<Rightarrow>
               (case shell_run env host (remote_script_path artifact_id rollback) rollback resolved tr of
                  (r, tr') \<Rightarrow> (Inr r, tr'))))"

section \<open>Lemmas\<close>

lemma shell_run_cases:
  assumes "shell_run env host path rollback (script, secrets) tr = (r, tr')"
  defines "w \<equiv> Write_file host path script" and "x \<equiv> Exec host (''bash '' @ path)"
  shows "(tr' = tr @ [w] \<and> isl (se_write env w tr) \<or> tr' = tr @ [w, x] \<and> \<not> isl (se_write env w tr))
    \<and> (hr_success r \<longleftrightarrow> tr' = tr @ [w, x] \<and> (\<exists>a. se_exec env x (tr @ [w]) = Inr a \<and> ea_rc a = 0))
    \<and> (\<exists>text. hr_log r = redact text secrets)
    \<and> (\<forall>why. hr_reason r = Some why \<longrightarrow> (\<exists>text. why = redact text secrets) \<or> (\<exists>n. why = ''script exited with rc='' @ str_int n))"
proof (cases "se_write env w tr")
  case (Inl e)
  then show ?thesis using assms by (auto simp: shell_run_def refusal_def Let_def)
next
  case w: (Inr u)
  show ?thesis
  proof (cases "se_exec env x (tr @ [w])")
    case (Inl e)
    then show ?thesis using assms w by (auto simp: shell_run_def refusal_def Let_def)
  next
    case (Inr a)
    then show ?thesis using assms w by (cases "ea_rc a = 0") (auto simp: shell_run_def refusal_def Let_def)
  qed
qed

lemma refusal_fails [simp]: "\<not> hr_success (refusal l w)" "hr_log (refusal l w) = l" "hr_reason (refusal l w) = Some w"
  by (simp_all add: refusal_def)

lemma shell_checks_refusal: "shell_checks env body tgt rollback = Inr (Inl r) \<Longrightarrow> \<not> hr_success r"
  by (auto simp: shell_checks_def Let_def split: option.splits if_splits jval.splits)

lemma shell_checks_pass:
  assumes "shell_checks env body tgt rollback = Inr (Inr (script, host))"
  shows "extract_script body (if rollback then ''shell-rollback'' else ''shell-spec'') = Some script
    \<and> (\<not> rollback \<longrightarrow> validate_idempotence_preamble body = None)
    \<and> dget ''kind'' tgt \<notin> {JStr ''node'', JStr ''cluster''} \<and> host = target_host tgt \<and> truthy host
    \<and> (\<forall>h. host = JStr h \<longrightarrow> \<not> forbidden_node (se_pve_nodes env) h)"
proof -
  have t: "truthy (target_host tgt)"
    using assms by (rule contrapos_pp) (auto simp: shell_checks_def Let_def split: option.splits)
  have h: "host = target_host tgt"
    using assms by (auto simp: shell_checks_def Let_def split: option.splits if_splits jval.splits)
  have "forbidden_node (se_pve_nodes env) h \<Longrightarrow> target_host tgt = JStr h \<Longrightarrow> False" for h
    using assms t by (auto simp: shell_checks_def forbidden_node_def Let_def split: option.splits if_splits)
  then show ?thesis
    using assms t
    by (auto simp: h shell_checks_def dget_or_def dget_def Let_def split: option.splits if_splits jval.splits)
qed

text \<open>A character that the agent's allowlist accepts in a path.\<close>

lemma remote_script_path_safe:
  "list_all (\<lambda>c. safe_char c \<or> c = CHR ''/'' \<or> c = CHR ''.'') (remote_script_path i rollback)"
proof -
  let ?ok = "\<lambda>c. safe_char c \<or> c = CHR ''/'' \<or> c = CHR ''.''"
  have lits: "list_all ?ok (script_dir @ ''/hp-'')" "list_all ?ok ''artifact''" "list_all ?ok ''-apply.sh''"
    "list_all ?ok ''-rollback.sh''" "safe_char CHR ''-''" by code_simp+
  have "list_all ?ok (map (\<lambda>c. if safe_char c then c else CHR ''-'') i)"
    using lits(5) by (auto simp: list_all_iff)
  then show ?thesis using lits(1-4) by (simp add: remote_script_path_def Let_def)
qed

section \<open>A sample\<close>

definition sample_shell :: shell_env where
  "sample_shell = \<lparr>se_write = \<lambda>_ _. Inr (), se_exec = \<lambda>_ _. Inr \<lparr>ea_rc = 0, ea_stdout = ''got hunter2'', ea_stderr = []\<rparr>,
     se_vault = Some (\<lambda>_. Inr [(''password'', ''hunter2'')]), se_pve_nodes = [''pve1''], se_duration = ''0.1''\<rparr>"

definition sample_script_body :: string where
  "sample_script_body = ''## Idempotence preamble'' @ nl # ''safe to repeat'' @ nl # nl # backticks @ ''bash shell-spec'' @ nl
     # ''login {{ vault.db.password }}'' @ nl # backticks"

definition sample_shell_target :: dict where
  "sample_shell_target = [(''kind'', JStr ''vm''), (''host'', JStr ''web1'')]"

section \<open>Properties\<close>

text \<open>
  the script reaches the host it was approved for, once, and as it was approved.  The only calls ever
  made are the write of the resolved script of the right block to its path under the write prefix and then
  its run; the run follows only a write that succeeded, nothing is called for a node or cluster target or a
  host that is a Proxmox node, and success is reported exactly when the run exits with zero.
\<close>

theorem shell_script_runs_once:
  assumes "shell_execute env i body tgt rollback [] = (r, tr)"
  shows "(tr = [] \<and> (\<forall>h. r = Inr h \<longrightarrow> \<not> hr_success h))
    \<or> (\<exists>script out secrets host h. r = Inr h
         \<and> extract_script body (if rollback then ''shell-rollback'' else ''shell-spec'') = Some script
         \<and> resolve script (se_vault env) = Inr (out, secrets) \<and> host = target_host tgt
         \<and> dget ''kind'' tgt \<notin> {JStr ''node'', JStr ''cluster''}
         \<and> (\<forall>n. host = JStr n \<longrightarrow> \<not> forbidden_node (se_pve_nodes env) n)
         \<and> (let w = Write_file host (remote_script_path i rollback) out;
                x = Exec host (''bash '' @ remote_script_path i rollback) in
            (tr = [w] \<and> isl (se_write env w []) \<or> tr = [w, x] \<and> \<not> isl (se_write env w []))
            \<and> (hr_success h \<longleftrightarrow> tr = [w, x] \<and> (\<exists>a. se_exec env x [w] = Inr a \<and> ea_rc a = 0))))"
proof (cases "\<exists>script host out secrets. shell_checks env body tgt rollback = Inr (Inr (script, host))
    \<and> resolve script (se_vault env) = Inr (out, secrets)")
  case False
  then have "tr = [] \<and> (\<forall>h. r = Inr h \<longrightarrow> \<not> hr_success h)"
    using assms by (auto simp: shell_execute_def shell_checks_refusal split: sum.splits prod.splits)
  then show ?thesis by blast
next
  case True
  then obtain script host out secrets where c: "shell_checks env body tgt rollback = Inr (Inr (script, host))"
    and v: "resolve script (se_vault env) = Inr (out, secrets)" by blast
  obtain h where h: "shell_run env host (remote_script_path i rollback) rollback (out, secrets) [] = (h, tr)" "r = Inr h"
    using assms c v by (auto simp: shell_execute_def split: prod.splits)
  show ?thesis
    unfolding h(2) Let_def
    using shell_run_cases [OF h(1)] shell_checks_pass [OF c] v
    by (intro disjI2 exI [of _ script] exI [of _ out] exI [of _ secrets] exI [of _ host] exI [of _ h]) simp
qed

theorem shell_script_runs_once_witness:
  "\<exists>h. shell_execute sample_shell ''2026-web'' sample_script_body sample_shell_target False []
     = (Inr h, [Write_file (JStr ''web1'') ''/opt/homepilot/hp-2026-web-apply.sh'' ''login hunter2'',
                Exec (JStr ''web1'') ''bash /opt/homepilot/hp-2026-web-apply.sh'']) \<and> hr_success h"
proof -
  obtain r tr where e: "shell_execute sample_shell ''2026-web'' sample_script_body sample_shell_target False [] = (r, tr)"
    by fastforce
  have "case shell_execute sample_shell ''2026-web'' sample_script_body sample_shell_target False [] of
      (r, tr) \<Rightarrow> tr = [Write_file (JStr ''web1'') ''/opt/homepilot/hp-2026-web-apply.sh'' ''login hunter2'',
        Exec (JStr ''web1'') ''bash /opt/homepilot/hp-2026-web-apply.sh'']" by code_simp
  then have tr: "tr = [Write_file (JStr ''web1'') ''/opt/homepilot/hp-2026-web-apply.sh'' ''login hunter2'',
      Exec (JStr ''web1'') ''bash /opt/homepilot/hp-2026-web-apply.sh'']" by (simp add: e)
  have x: "\<exists>a. se_exec sample_shell c cs = Inr a \<and> ea_rc a = 0" for c cs by (simp add: sample_shell_def)
  show ?thesis
    using shell_script_runs_once [OF e] x by (auto simp: e tr Let_def)
qed

text \<open>
  no secret is written to the log.  Whatever the host answers, the log of an execution and the reason of
  a failure hold none of the secret values put into the script (those that are not empty and have no star);
  an exit code in the reason apart.
\<close>

theorem shell_log_redacted:
  assumes "shell_execute env i body tgt rollback [] = (Inr h, tr)" and "tr \<noteq> []"
    and "extract_script body (if rollback then ''shell-rollback'' else ''shell-spec'') = Some script"
    and "resolve script (se_vault env) = Inr (out, secrets)"
    and "v \<in> set secrets" "v \<noteq> []" "CHR ''*'' \<notin> set v"
  shows "\<not> py_in v (hr_log h)
    \<and> (\<forall>why. hr_reason h = Some why \<longrightarrow> \<not> py_in v why \<or> (\<exists>n. why = ''script exited with rc='' @ str_int n))"
proof -
  have clean: "\<not> py_in v (redact tx secrets)" for tx
    using redact_removes [OF assms(5-7)] by (simp add: redact_fold py_in_iff_sublist)
  obtain script' host out' secrets' where c: "shell_checks env body tgt rollback = Inr (Inr (script', host))"
    and v: "resolve script' (se_vault env) = Inr (out', secrets')"
    and run: "shell_run env host (remote_script_path i rollback) rollback (out', secrets') [] = (h, tr)"
    using assms(1,2) by (auto simp: shell_execute_def split: sum.splits prod.splits)
  have "script' = script" using shell_checks_pass [OF c] assms(3) by simp
  then have "shell_run env host (remote_script_path i rollback) rollback (out, secrets) [] = (h, tr)"
    using run v assms(4) by simp
  from shell_run_cases [OF this] clean show ?thesis by metis
qed

theorem shell_log_redacted_witness:
  "\<not> py_in ''hunter2'' (case fst (shell_execute sample_shell ''2026-web'' sample_script_body sample_shell_target False []) of
     Inr h \<Rightarrow> hr_log h | Inl _ \<Rightarrow> ''hunter2'')"
proof -
  have "case shell_execute sample_shell ''2026-web'' sample_script_body sample_shell_target False [] of
      (r, tr) \<Rightarrow> \<not> isl r \<and> tr \<noteq> []" by code_simp
  then obtain h tr where e: "shell_execute sample_shell ''2026-web'' sample_script_body sample_shell_target False [] = (Inr h, tr)"
    and tr: "tr \<noteq> []" by (auto split: prod.splits sum.splits simp: not_isl)
  have b: "extract_script sample_script_body (if False then ''shell-rollback'' else ''shell-spec'')
      = Some ''login {{ vault.db.password }}''" by code_simp
  have v: "resolve ''login {{ vault.db.password }}'' (se_vault sample_shell) = Inr (''login hunter2'', [''hunter2''])"
    by code_simp
  show ?thesis using shell_log_redacted [OF e tr b v, of "''hunter2''"] by (simp add: e)
qed

end
