(* ===== verification/Task_Table.thy ===== *)
theory Task_Table
  imports Executor
begin

text \<open>
  The task table: \<^verbatim>\<open>tasks/repository.py\<close>.  The table is the list of its rows in the order of
  insertion; each operation is one SQL statement (or a read and one guarded statement) and so one
  step.  The fresh UUID and the clock are arguments.  Rows of equal \<open>created_at\<close>, which SQL may
  return in any order, come in the order of insertion.  The JSON text of a result is kept as the
  value it encodes.
\<close>

section \<open>Rows\<close>

datatype task_status = T_pending | T_running | T_succeeded | T_failed | T_cancelled

record task =
  tk_id :: string
  tk_artifact :: "string option"
  tk_action :: string
  tk_status :: task_status
  tk_created :: string
  tk_finished :: "string option"
  tk_error :: "string option"
  tk_result :: "jval option"

type_synonym tasks = "task list"

definition valid_actions :: "string list" where
  "valid_actions = [''apply'', ''revoke'', ''replay'', ''provision'', ''install_agent'', ''create_guest_template'', ''tailnet_join'']"

definition artifactless_actions :: "string list" where
  "artifactless_actions = [''provision'', ''install_agent'', ''create_guest_template'', ''tailnet_join'']"

definition validate_action :: "string \<Rightarrow> string option \<Rightarrow> unit res" where
  "validate_action action artifact =
     (if action \<notin> set valid_actions then Inl (ValueError (''Invalid action: '' @ repr_str action))
      else if action \<in> set artifactless_actions \<and> artifact \<noteq> None
      then Inl (ValueError (''Action '' @ repr_str action @ '' must not carry an artifact_id''))
      else if action \<notin> set artifactless_actions \<and> artifact = None
      then Inl (ValueError (''Action '' @ repr_str action @ '' requires an artifact_id''))
      else Inr ())"

definition live :: "task \<Rightarrow> bool" where
  "live t = (tk_status t = T_pending \<or> tk_status t = T_running)"

definition live_on :: "string \<Rightarrow> task \<Rightarrow> bool" where
  "live_on i t = (tk_artifact t = Some i \<and> live t)"

section \<open>Operations\<close>

definition insert_task :: "string \<Rightarrow> string \<Rightarrow> string option \<Rightarrow> string \<Rightarrow> tasks \<Rightarrow> tasks res" where
  "insert_task tid ts artifact action tab =
     (if tid \<in> tk_id ` set tab then Inl (SqliteError ''UNIQUE constraint failed: tasks.id'')
      else Inr (tab @ [\<lparr>tk_id = tid, tk_artifact = artifact, tk_action = action, tk_status = T_pending,
             tk_created = ts, tk_finished = None, tk_error = None, tk_result = None\<rparr>]))"

definition create_task :: "string \<Rightarrow> string \<Rightarrow> string option \<Rightarrow> string \<Rightarrow> tasks \<Rightarrow> (string \<times> tasks) res" where
  "create_task tid ts artifact action tab =
     bind_res (validate_action action artifact) (\<lambda>_.
     bind_res (insert_task tid ts artifact action tab) (\<lambda>tab'. Inr (tid, tab')))"

definition has_active_task :: "tasks \<Rightarrow> string \<Rightarrow> bool" where
  "has_active_task tab i = list_ex (live_on i) tab"

definition create_task_if_no_active ::
  "string \<Rightarrow> string \<Rightarrow> string \<Rightarrow> string \<Rightarrow> tasks \<Rightarrow> (string option \<times> tasks) res" where
  "create_task_if_no_active tid ts i action tab =
     bind_res (validate_action action (Some i)) (\<lambda>_.
       if has_active_task tab i then Inr (None, tab)
       else bind_res (insert_task tid ts (Some i) action tab) (\<lambda>tab'. Inr (Some tid, tab')))"

definition get_task :: "tasks \<Rightarrow> string \<Rightarrow> task option" where
  "get_task tab tid = find (\<lambda>t. tk_id t = tid) tab"

definition on_task :: "string \<Rightarrow> (task \<Rightarrow> task) \<Rightarrow> tasks \<Rightarrow> tasks" where
  "on_task tid f = map (\<lambda>t. if tk_id t = tid then f t else t)"

definition update_task_status ::
  "string \<Rightarrow> string \<Rightarrow> task_status \<Rightarrow> string option \<Rightarrow> jval option \<Rightarrow> tasks \<Rightarrow> tasks" where
  "update_task_status now tid status err result =
     on_task tid (\<lambda>t. t\<lparr>tk_status := status,
       tk_finished := (if status = T_succeeded \<or> status = T_failed then Some now else None),
       tk_error := err, tk_result := result\<rparr>)"

definition cancel_task :: "string \<Rightarrow> string \<Rightarrow> tasks \<Rightarrow> task option \<times> tasks" where
  "cancel_task now tid tab =
     (case get_task tab tid of
        None \<Rightarrow> (None, tab)
      | Some t \<Rightarrow>
          (if \<not> live t then (Some t, tab)
           else
             let tab' = on_task tid (\<lambda>t. if live t then t\<lparr>tk_status := T_cancelled, tk_finished := Some now\<rparr> else t) tab
             in (get_task tab' tid, tab')))"

definition record_cancel_outcome ::
  "string \<Rightarrow> jval option \<Rightarrow> string option \<Rightarrow> tasks \<Rightarrow> task option \<times> tasks" where
  "record_cancel_outcome tid result err tab =
     (let tab' = on_task tid (\<lambda>t. if tk_status t = T_cancelled then t\<lparr>tk_result := result, tk_error := err\<rparr> else t) tab
      in (get_task tab' tid, tab'))"

text \<open>\<open>ORDER BY created_at DESC\<close>.\<close>

definition newest_first :: "tasks \<Rightarrow> tasks" where
  "newest_first ts = rev (sort_key tk_created (rev ts))"

definition get_active_task :: "tasks \<Rightarrow> string \<Rightarrow> task option" where
  "get_active_task tab i =
     (case newest_first (filter (live_on i) tab) of [] \<Rightarrow> None | t # _ \<Rightarrow> Some t)"

definition of_artifact :: "string option \<Rightarrow> tasks \<Rightarrow> tasks" where
  "of_artifact artifact tab =
     (case artifact of None \<Rightarrow> tab | Some i \<Rightarrow> filter (\<lambda>t. tk_artifact t = Some i) tab)"

definition list_tasks :: "string option \<Rightarrow> nat \<Rightarrow> nat \<Rightarrow> tasks \<Rightarrow> tasks" where
  "list_tasks artifact limit offset tab = take limit (drop offset (newest_first (of_artifact artifact tab)))"

definition count_tasks :: "string option \<Rightarrow> tasks \<Rightarrow> nat" where
  "count_tasks artifact tab = length (of_artifact artifact tab)"

definition fail_orphaned_tasks :: "string \<Rightarrow> tasks \<Rightarrow> nat \<times> tasks" where
  "fail_orphaned_tasks now tab =
     (length (filter live tab),
      map (\<lambda>t. if live t then t\<lparr>tk_status := T_failed, tk_error := Some ''orphaned_after_restart'',
                               tk_finished := Some now\<rparr> else t) tab)"

section \<open>Lemmas\<close>

text \<open>A table is well formed when its identifiers are distinct, every row names an artifact exactly
  when its action is on one, and a row is finished exactly when it is not live.\<close>

definition task_ok :: "task \<Rightarrow> bool" where
  "task_ok t = (validate_action (tk_action t) (tk_artifact t) = Inr () \<and> (tk_finished t = None \<longleftrightarrow> live t))"

definition wf_tasks :: "tasks \<Rightarrow> bool" where
  "wf_tasks tab = (distinct (map tk_id tab) \<and> (\<forall>t\<in>set tab. task_ok t))"

lemma ids_on_task [simp]: "(\<And>t. tk_id (f t) = tk_id t) \<Longrightarrow> map tk_id (on_task tid f tab) = map tk_id tab"
  by (simp add: on_task_def)

lemma set_on_task: "set (on_task tid f tab) = (\<lambda>t. if tk_id t = tid then f t else t) ` set tab"
  by (simp add: on_task_def)

lemma wf_on_task:
  "wf_tasks tab \<Longrightarrow> (\<And>t. tk_id (f t) = tk_id t) \<Longrightarrow> (\<And>t. t \<in> set tab \<Longrightarrow> tk_id t = tid \<Longrightarrow> task_ok (f t)) \<Longrightarrow>
     wf_tasks (on_task tid f tab)"
  by (auto simp: wf_tasks_def set_on_task)

lemma task_unique: "wf_tasks tab \<Longrightarrow> t \<in> set tab \<Longrightarrow> u \<in> set tab \<Longrightarrow> tk_id t = tk_id u \<Longrightarrow> t = u"
  unfolding wf_tasks_def by (metis distinct_map inj_onD)

lemma get_task_Some: "wf_tasks tab \<Longrightarrow> get_task tab tid = Some t \<longleftrightarrow> t \<in> set tab \<and> tk_id t = tid"
  unfolding get_task_def wf_tasks_def find_Some_iff
  by (auto simp: in_set_conv_nth distinct_conv_nth)

lemma get_task_None: "get_task tab tid = None \<longleftrightarrow> tid \<notin> tk_id ` set tab"
  by (auto simp: get_task_def find_None_iff)

lemma insert_task_Inr:
  "insert_task tid ts a act tab = Inr tab' \<longleftrightarrow> tid \<notin> tk_id ` set tab \<and>
     tab' = tab @ [\<lparr>tk_id = tid, tk_artifact = a, tk_action = act, tk_status = T_pending, tk_created = ts,
       tk_finished = None, tk_error = None, tk_result = None\<rparr>]"
  by (auto simp: insert_task_def)

lemma wf_insert: "wf_tasks tab \<Longrightarrow> validate_action act a = Inr () \<Longrightarrow> insert_task tid ts a act tab = Inr tab' \<Longrightarrow> wf_tasks tab'"
  by (auto simp: insert_task_Inr wf_tasks_def task_ok_def live_def)

lemma wf_update_status:
  "wf_tasks tab \<Longrightarrow> st \<noteq> T_cancelled \<Longrightarrow> wf_tasks (update_task_status now tid st err result tab)"
  unfolding update_task_status_def
  by (rule wf_on_task) (auto simp: wf_tasks_def task_ok_def live_def, cases st, auto)

lemma wf_cancel: "wf_tasks tab \<Longrightarrow> wf_tasks (snd (cancel_task now tid tab))"
  by (auto simp: cancel_task_def Let_def task_ok_def live_def wf_tasks_def set_on_task split: option.splits)

lemma wf_orphans: "wf_tasks tab \<Longrightarrow> wf_tasks (snd (fail_orphaned_tasks now tab))"
  by (auto simp: fail_orphaned_tasks_def wf_tasks_def task_ok_def live_def comp_def if_distrib cong: if_cong)

lemma set_newest_first [simp]: "set (newest_first ts) = set ts"
  by (simp add: newest_first_def)

lemma newest_first_Nil [simp]: "newest_first ts = [] \<longleftrightarrow> ts = []"
  using set_newest_first [of ts] by (metis set_empty)

lemma newest_first_Cons: "newest_first ts = t # r \<Longrightarrow> t \<in> set ts"
  by (metis list.set_intros(1) set_newest_first)

lemma get_active_None: "get_active_task tab i = None \<longleftrightarrow> \<not> has_active_task tab i"
  by (auto simp: get_active_task_def has_active_task_def list_ex_iff filter_empty_conv
      dest!: newest_first_Cons split: list.splits)

lemma get_active_Some: "get_active_task tab i = Some t \<Longrightarrow> t \<in> set tab \<and> live_on i t"
  by (auto simp: get_active_task_def dest!: newest_first_Cons split: list.splits)

end
