(* ===== verification/Task_Runner.thy ===== *)
theory Task_Runner
  imports Task_Table Executor_Properties
begin

text \<open>
  The task runner, \<^verbatim>\<open>tasks/runner.py\<close>, and the reconciler it applies through, \<^verbatim>\<open>reconciler/apply.py\<close>.

  The state is the executor's, the task table, the coroutines in flight and the requests whose check
  of the active task is done and whose task is not made yet.  A coroutine is a job in one of three
  phases: created, marked running, and ended with an outcome that is not recorded yet; between two
  phases anything may happen.  The run of the executor itself is one step, so two runs of the
  executor are interleaved only as wholes.
\<close>

section \<open>State\<close>

record outcome =
  oc_status :: task_status
  oc_error :: "string option"
  oc_result :: "jval option"

datatype job_kind = J_apply string | J_replay | J_revoke string "string option"

datatype phase = Created | Begun | Ended outcome

record job =
  jb_task :: string
  jb_artifact :: string
  jb_kind :: job_kind
  jb_phase :: phase

datatype request = Req_revoke string string "string option" | Req_replay string

record runner_env =
  re_x :: xenv
  re_depth :: nat
  re_executor :: bool
  re_reconciler :: bool

record runner_state =
  rs_x :: xstate
  rs_tasks :: tasks
  rs_jobs :: "job list"
  rs_requests :: "request list"

type_synonym reply = "string \<times> string option \<times> string \<times> task_status"

fun job_action :: "job_kind \<Rightarrow> string" where
  "job_action (J_apply who) = ''apply''"
| "job_action J_replay = ''replay''"
| "job_action (J_revoke user reason) = ''revoke''"

section \<open>Applying through the reconciler\<close>

record apply_result =
  ar_success :: bool
  ar_log :: string
  ar_snapshot :: "string option"
  ar_reason :: "string option"
  ar_details :: dict

definition is_executor_error :: "exn \<Rightarrow> bool" where
  "is_executor_error e = (case e of ExecutorError _ \<Rightarrow> True | TamperError _ \<Rightarrow> True | _ \<Rightarrow> False)"

text \<open>What \<open>_log_audit\<close> swallows: SQLite, operating-system and runtime errors.\<close>

definition audit_swallowed :: "exn \<Rightarrow> bool" where
  "audit_swallowed e =
     (case e of SqliteError _ \<Rightarrow> True | FileNotFoundError _ \<Rightarrow> True | ConnectionError _ \<Rightarrow> True
        | RuntimeError _ \<Rightarrow> True | RecursionError \<Rightarrow> True | _ \<Rightarrow> False)"

definition apply_details :: "string \<Rightarrow> execution_result \<Rightarrow> dict" where
  "apply_details who r =
     [(''approved_by'', JStr who), (''execution_log'', JStr (take 500 (er_log r))),
      (''reconciler_source'', JStr ''reconciler:apply'')]
     @ (case nonempty (er_snapshot r) of None \<Rightarrow> [] | Some n \<Rightarrow> [(''snapshot_id'', JStr n)])
     @ (case nonempty (er_reason r) of None \<Rightarrow> [] | Some m \<Rightarrow> [(''failure_reason'', JStr m)])"

definition apply_single :: "xenv \<Rightarrow> nat \<Rightarrow> string \<Rightarrow> string \<Rightarrow> apply_result xop" where
  "apply_single xe n who i s =
     (case exec_apply xe n who i s of
        (Inl e, s1) \<Rightarrow>
          (if is_executor_error e
           then bind_x (catch_x (audit_x xe ''apply_failed'' i who [(''reason'', JStr (exn_str e))])
                  (\<lambda>a. if audit_swallowed a then return_x () else raise_x a)) (\<lambda>_. raise_x e) s1
           else (Inl e, s1))
      | (Inr r, s1) \<Rightarrow>
          (Inr \<lparr>ar_success = er_success r, ar_log = er_log r, ar_snapshot = er_snapshot r,
             ar_reason = er_reason r, ar_details = apply_details who r\<rparr>, s1))"

text \<open>The errors after which \<open>run\<close> goes on with the next artifact.\<close>

definition reconcile_caught :: "exn \<Rightarrow> bool" where
  "reconcile_caught e =
     (is_executor_error e \<or>
      (case e of FileNotFoundError _ \<Rightarrow> True | ConnectionError _ \<Rightarrow> True | ValueError _ \<Rightarrow> True | _ \<Rightarrow> False))"

fun reconcile_loop :: "xenv \<Rightarrow> nat \<Rightarrow> string list \<Rightarrow> (string \<times> bool) list \<Rightarrow> (string \<times> bool) list xop" where
  "reconcile_loop xe n [] results s = (Inr results, s)"
| "reconcile_loop xe n (i # is) results s =
     (case apply_single xe n ''auto-apply'' i s of
        (Inl e, s1) \<Rightarrow>
          (if reconcile_caught e then reconcile_loop xe n is (results @ [(i, False)]) s1 else (Inl e, s1))
      | (Inr r, s1) \<Rightarrow> reconcile_loop xe n is (results @ [(i, ar_success r)]) s1)"

record reconciler_result =
  rc_success :: bool
  rc_skipped :: "string option"
  rc_results :: "(string \<times> bool) list"

definition approved_artifacts :: "files \<Rightarrow> string list" where
  "approved_artifacts fs = filter (\<lambda>i. i \<noteq> []) (map fm_id (store_list fs (Some APPROVED) None))"

definition skipped_run :: "string \<Rightarrow> reconciler_result" where
  "skipped_run why = \<lparr>rc_success = True, rc_skipped = Some why, rc_results = []\<rparr>"

definition reconcile_run :: "xenv \<Rightarrow> nat \<Rightarrow> bool \<Rightarrow> reconciler_result xop" where
  "reconcile_run xe n enabled s =
     (if \<not> enabled then (Inr (skipped_run ''auto_apply_disabled''), s)
      else let approved = approved_artifacts (w_files (xs_world s)) in
        if approved = [] then (Inr (skipped_run ''no_approved_artifacts''), s)
        else bind_x (reconcile_loop xe n approved []) (\<lambda>rs.
          return_x \<lparr>rc_success = (filter (\<lambda>r. \<not> snd r) rs = []), rc_skipped = None, rc_results = rs\<rparr>) s)"

section \<open>What a coroutine does\<close>

definition max_stored_log :: nat where
  "max_stored_log = 20000"

definition stored_log :: "string \<Rightarrow> string" where
  "stored_log log =
     (if max_stored_log < length log
      then ''[earlier output truncated, showing the last 20000 chars]'' @ nl # drop (length log - max_stored_log) log
      else log)"

definition record_outcome :: "bool \<Rightarrow> string \<Rightarrow> string option \<Rightarrow> outcome" where
  "record_outcome success log reason =
     (let kept = stored_log log; payload = (if kept = [] then None else Some (JObj [(''execution_log'', JStr kept)])) in
      if success then \<lparr>oc_status = T_succeeded, oc_error = None, oc_result = payload\<rparr>
      else \<lparr>oc_status = T_failed, oc_error = Some (case nonempty reason of None \<Rightarrow> ''apply failed'' | Some m \<Rightarrow> m),
            oc_result = payload\<rparr>)"

definition failed_with :: "string \<Rightarrow> outcome" where
  "failed_with msg = \<lparr>oc_status = T_failed, oc_error = Some msg, oc_result = None\<rparr>"

definition apply_failure :: "runner_env \<Rightarrow> string \<Rightarrow> exn \<Rightarrow> xstate \<Rightarrow> outcome \<times> xstate" where
  "apply_failure re i e s =
     (failed_with (exn_str e), snd (on_world (lc_mark_failed (x_env (re_x re)) i (exn_str e) []) s))"

definition apply_work :: "runner_env \<Rightarrow> string \<Rightarrow> string \<Rightarrow> xstate \<Rightarrow> outcome \<times> xstate" where
  "apply_work re who i s =
     (if re_reconciler re then
        (case apply_single (re_x re) (re_depth re) who i s of
           (Inl e, s1) \<Rightarrow> apply_failure re i e s1
         | (Inr r, s1) \<Rightarrow> (record_outcome (ar_success r) (ar_log r) (ar_reason r), s1))
      else if re_executor re then
        (case exec_apply (re_x re) (re_depth re) who i s of
           (Inl e, s1) \<Rightarrow> apply_failure re i e s1
         | (Inr r, s1) \<Rightarrow> (record_outcome (er_success r) (er_log r) (er_reason r), s1))
      else (failed_with ''no executor configured - this instance cannot apply artifacts'', s))"

definition replay_work :: "runner_env \<Rightarrow> string \<Rightarrow> xstate \<Rightarrow> outcome \<times> xstate" where
  "replay_work re i s =
     (if \<not> re_executor re then (failed_with ''no executor configured - cannot replay'', s)
      else case replay (re_x re) (re_depth re) i s of
             (Inl e, s1) \<Rightarrow> (failed_with (exn_str e), s1)
           | (Inr r, s1) \<Rightarrow> (record_outcome (er_success r) (er_log r) (er_reason r), s1))"

definition revoke_payload :: "revoke_result \<Rightarrow> jval" where
  "revoke_payload r = JObj [(''rolled_back'', JBool (rr_rolled_back r)), (''rollback_detail'', JStr (rr_reason r)),
     (''execution_log'', JStr (rr_log r))]"

definition revoke_work :: "runner_env \<Rightarrow> string \<Rightarrow> string option \<Rightarrow> string \<Rightarrow> xstate \<Rightarrow> outcome \<times> xstate" where
  "revoke_work re user reason i s =
     (if re_executor re then
        (case exec_revoke (re_x re) (re_depth re) user reason i s of
           (Inl e, s1) \<Rightarrow> (failed_with (exn_str e), s1)
         | (Inr r, s1) \<Rightarrow> (\<lparr>oc_status = T_succeeded, oc_error = None, oc_result = Some (revoke_payload r)\<rparr>, s1))
      else
        (case on_world (lc_revoke (x_env (re_x re)) i user reason) s of
           (Inl e, s1) \<Rightarrow> (failed_with (exn_str e), s1)
         | (Inr _, s1) \<Rightarrow> (\<lparr>oc_status = T_succeeded, oc_error = None, oc_result = None\<rparr>, s1)))"

definition job_work :: "runner_env \<Rightarrow> job \<Rightarrow> xstate \<Rightarrow> outcome \<times> xstate" where
  "job_work re j =
     (case jb_kind j of
        J_apply who \<Rightarrow> apply_work re who (jb_artifact j)
      | J_replay \<Rightarrow> replay_work re (jb_artifact j)
      | J_revoke user reason \<Rightarrow> revoke_work re user reason (jb_artifact j))"

section \<open>Starting\<close>

definition start_job :: "string \<Rightarrow> string \<Rightarrow> job_kind \<Rightarrow> tasks \<Rightarrow> runner_state \<Rightarrow> reply res \<times> runner_state" where
  "start_job tid i kind tab s =
     (Inr (tid, Some i, job_action kind, T_pending),
      s\<lparr>rs_tasks := tab, rs_jobs := rs_jobs s @ [\<lparr>jb_task = tid, jb_artifact = i, jb_kind = kind, jb_phase = Created\<rparr>]\<rparr>)"

text \<open>\<open>store.read\<close> and the check of the status.\<close>

definition read_status :: "files \<Rightarrow> string \<Rightarrow> artifact_status set \<Rightarrow> string \<Rightarrow> unit res" where
  "read_status fs i allowed action =
     (case store_read fs i of
        Inl (FileNotFoundError _) \<Rightarrow> Inl (ValueError (''Artifact not found: '' @ i))
      | Inl e \<Rightarrow> Inl e
      | Inr (fm, _) \<Rightarrow>
          (if fm_status fm \<in> allowed then Inr () else Inl (ConflictError (status_value (fm_status fm)) action)))"

definition start_apply :: "string \<Rightarrow> string \<Rightarrow> string \<Rightarrow> string \<Rightarrow> runner_state \<Rightarrow> reply res \<times> runner_state" where
  "start_apply tid ts i who s =
     (case read_status (xfiles (rs_x s)) i {APPROVED} ''apply'' of
        Inl e \<Rightarrow> (Inl e, s)
      | Inr _ \<Rightarrow>
          (case create_task_if_no_active tid ts i ''apply'' (rs_tasks s) of
             Inl e \<Rightarrow> (Inl e, s)
           | Inr (Some t, tab) \<Rightarrow> start_job t i (J_apply who) tab s
           | Inr (None, _) \<Rightarrow>
               (case get_active_task (rs_tasks s) i of
                  Some t \<Rightarrow> (Inr (tk_id t, tk_artifact t, tk_action t, tk_status t), s)
                | None \<Rightarrow> (Inl (RuntimeError ''task_id unexpectedly None after creation''), s))))"

fun request_artifact :: "request \<Rightarrow> string" where
  "request_artifact (Req_revoke i user reason) = i"
| "request_artifact (Req_replay i) = i"

fun request_blockers :: "request \<Rightarrow> string set" where
  "request_blockers (Req_revoke i user reason) = {''apply'', ''replay''}"
| "request_blockers (Req_replay i) = {''apply'', ''replay'', ''revoke''}"

fun request_kind :: "request \<Rightarrow> job_kind" where
  "request_kind (Req_revoke i user reason) = J_revoke user reason"
| "request_kind (Req_replay i) = J_replay"

fun request_statuses :: "request \<Rightarrow> artifact_status set" where
  "request_statuses (Req_revoke i user reason) = {APPROVED, APPLIED, FAILED}"
| "request_statuses (Req_replay i) = {APPROVED, APPLIED}"

definition request_check :: "request \<Rightarrow> tasks \<Rightarrow> unit res" where
  "request_check rq tab =
     (case get_active_task tab (request_artifact rq) of
        None \<Rightarrow> Inr ()
      | Some t \<Rightarrow>
          (if tk_action t \<in> request_blockers rq then Inl (ValueError (''apply_in_progress: task '' @ tk_id t)) else Inr ()))"

definition request_create :: "string \<Rightarrow> string \<Rightarrow> request \<Rightarrow> runner_state \<Rightarrow> reply res \<times> runner_state" where
  "request_create tid ts rq s =
     (let i = request_artifact rq; k = request_kind rq in
      case read_status (xfiles (rs_x s)) i (request_statuses rq) (job_action k) of
        Inl e \<Rightarrow> (Inl e, s)
      | Inr _ \<Rightarrow>
          (case create_task tid ts (Some i) (job_action k) (rs_tasks s) of
             Inl e \<Rightarrow> (Inl e, s)
           | Inr (t, tab) \<Rightarrow> start_job t i k tab s))"

text \<open>\<open>start_revoke\<close> and \<open>start_replay\<close> when nothing comes between the check and the insert.\<close>

definition start_request :: "string \<Rightarrow> string \<Rightarrow> request \<Rightarrow> runner_state \<Rightarrow> reply res \<times> runner_state" where
  "start_request tid ts rq s =
     (case request_check rq (rs_tasks s) of Inl e \<Rightarrow> (Inl e, s) | Inr _ \<Rightarrow> request_create tid ts rq s)"

definition start_revoke ::
  "string \<Rightarrow> string \<Rightarrow> string \<Rightarrow> string \<Rightarrow> string option \<Rightarrow> runner_state \<Rightarrow> reply res \<times> runner_state" where
  "start_revoke tid ts i user reason = start_request tid ts (Req_revoke i user reason)"

definition start_replay :: "string \<Rightarrow> string \<Rightarrow> string \<Rightarrow> runner_state \<Rightarrow> reply res \<times> runner_state" where
  "start_replay tid ts i = start_request tid ts (Req_replay i)"

section \<open>Running\<close>

definition begin_job :: "string \<Rightarrow> job \<Rightarrow> runner_state \<Rightarrow> runner_state" where
  "begin_job now j s =
     s\<lparr>rs_tasks := update_task_status now (jb_task j) T_running None None (rs_tasks s),
       rs_jobs := map (\<lambda>k. if k = j then j\<lparr>jb_phase := Begun\<rparr> else k) (rs_jobs s)\<rparr>"

definition work_job :: "runner_env \<Rightarrow> job \<Rightarrow> runner_state \<Rightarrow> runner_state" where
  "work_job re j s =
     (case job_work re j (rs_x s) of
        (oc, x) \<Rightarrow> s\<lparr>rs_x := x, rs_jobs := map (\<lambda>k. if k = j then j\<lparr>jb_phase := Ended oc\<rparr> else k) (rs_jobs s)\<rparr>)"

definition end_job :: "string \<Rightarrow> job \<Rightarrow> outcome \<Rightarrow> runner_state \<Rightarrow> runner_state" where
  "end_job now j oc s =
     s\<lparr>rs_tasks := update_task_status now (jb_task j) (oc_status oc) (oc_error oc) (oc_result oc) (rs_tasks s),
       rs_jobs := filter (\<lambda>k. k \<noteq> j) (rs_jobs s)\<rparr>"

text \<open>\<open>_run_apply\<close>, \<open>_run_replay\<close> and \<open>_run_revoke\<close> without interruption.\<close>

definition end_work :: "runner_env \<Rightarrow> string \<Rightarrow> job \<Rightarrow> runner_state \<Rightarrow> runner_state" where
  "end_work re now j s =
     (let oc = fst (job_work re j (rs_x s)) in end_job now (j\<lparr>jb_phase := Ended oc\<rparr>) oc (work_job re j s))"

definition run_job :: "runner_env \<Rightarrow> string \<Rightarrow> job \<Rightarrow> runner_state \<Rightarrow> runner_state" where
  "run_job re now j s = end_work re now (j\<lparr>jb_phase := Begun\<rparr>) (begin_job now j s)"

text \<open>\<open>cancel_task\<close> of the runner: cancel the coroutine if it is in flight, then mark the row.\<close>

definition cancel_run :: "string \<Rightarrow> string \<Rightarrow> runner_state \<Rightarrow> task res \<times> runner_state" where
  "cancel_run now tid s =
     (case cancel_task now tid (rs_tasks s) of
        (r, tab) \<Rightarrow>
          ((case r of None \<Rightarrow> Inl (ValueError (''Task not found: '' @ tid)) | Some t \<Rightarrow> Inr t),
           s\<lparr>rs_tasks := tab, rs_jobs := filter (\<lambda>j. jb_task j \<noteq> tid) (rs_jobs s)\<rparr>))"

text \<open>A restart of the process: the coroutines are gone and the startup sweeps the table.\<close>

definition restart :: "string \<Rightarrow> runner_state \<Rightarrow> runner_state" where
  "restart now s = s\<lparr>rs_tasks := snd (fail_orphaned_tasks now (rs_tasks s)), rs_jobs := [], rs_requests := []\<rparr>"

section \<open>Waiting\<close>

text \<open>
  \<open>await_task\<close> polls after 1, 2, 4, 8 and then every 10 seconds; \<open>snap n\<close> is the table its \<open>n\<close>-th
  poll sees.
\<close>

function await_task :: "(nat \<Rightarrow> tasks) \<Rightarrow> string \<Rightarrow> nat \<Rightarrow> nat \<Rightarrow> nat \<Rightarrow> nat \<Rightarrow> task res \<times> nat" where
  "await_task snap tid timeout n elapsed interval =
     (case get_task (snap n) tid of
        None \<Rightarrow> (Inl (ValueError (''Task not found: '' @ tid)), n)
      | Some t \<Rightarrow>
          (if timeout \<le> elapsed \<or> tk_status t = T_succeeded \<or> tk_status t = T_failed \<or> interval = 0 then (Inr t, n)
           else await_task snap tid timeout (Suc n) (elapsed + interval) (min (interval * 2) 10)))"
  by auto

termination await_task
  by (relation "measure (\<lambda>(snap, tid, timeout, n, elapsed, interval). timeout - elapsed)") auto

declare await_task.simps [simp del]

definition await_start :: "(nat \<Rightarrow> tasks) \<Rightarrow> string \<Rightarrow> nat \<Rightarrow> task res \<times> nat" where
  "await_start snap tid timeout = await_task snap tid timeout 0 0 1"

end
