(* ===== verification/Task_Safety.thy ===== *)
theory Task_Safety
  imports Task_Runner
begin

text \<open>The task runner as a step relation, and its invariant.\<close>

section \<open>Steps\<close>

text \<open>
  One step of anything that touches the table or the runner.  The rules \<open>other_create\<close> and
  \<open>other_update\<close> are the services that keep artifactless tasks in the same table; \<open>outside\<close> is any
  change of the artifacts by somebody else.
\<close>

inductive runner_step :: "runner_env \<Rightarrow> runner_state \<Rightarrow> runner_state \<Rightarrow> bool" for re where
  applied: "runner_step re s (snd (start_apply tid ts i who s))"
| checked: "request_check rq (rs_tasks s) = Inr () \<Longrightarrow> runner_step re s (s\<lparr>rs_requests := rq # rs_requests s\<rparr>)"
| created: "rq \<in> set (rs_requests s) \<Longrightarrow>
    runner_step re s (snd (request_create tid ts rq (s\<lparr>rs_requests := remove1 rq (rs_requests s)\<rparr>)))"
| begun: "j \<in> set (rs_jobs s) \<Longrightarrow> jb_phase j = Created \<Longrightarrow> runner_step re s (begin_job now j s)"
| worked: "j \<in> set (rs_jobs s) \<Longrightarrow> jb_phase j = Begun \<Longrightarrow> runner_step re s (work_job re j s)"
| ended: "j \<in> set (rs_jobs s) \<Longrightarrow> jb_phase j = Ended oc \<Longrightarrow> runner_step re s (end_job now j oc s)"
| cancelled: "runner_step re s (snd (cancel_run now tid s))"
| outcome_recorded: "runner_step re s (s\<lparr>rs_tasks := snd (record_cancel_outcome tid result err (rs_tasks s))\<rparr>)"
| restarted: "runner_step re s (restart now s)"
| other_create: "create_task tid ts None action (rs_tasks s) = Inr (t, tab) \<Longrightarrow> runner_step re s (s\<lparr>rs_tasks := tab\<rparr>)"
| other_update: "t \<in> set (rs_tasks s) \<Longrightarrow> tk_artifact t = None \<Longrightarrow> st \<noteq> T_cancelled \<Longrightarrow>
    runner_step re s (s\<lparr>rs_tasks := update_task_status now (tk_id t) st err result (rs_tasks s)\<rparr>)"
| outside: "runner_step re s (s\<lparr>rs_x := x\<rparr>)"

inductive runner_reach :: "runner_env \<Rightarrow> runner_state \<Rightarrow> bool" for re where
  start: "runner_reach re \<lparr>rs_x = x, rs_tasks = [], rs_jobs = [], rs_requests = []\<rparr>"
| step: "runner_reach re s \<Longrightarrow> runner_step re s s' \<Longrightarrow> runner_reach re s'"

section \<open>The invariant\<close>

definition job_fits :: "job \<Rightarrow> task \<Rightarrow> bool" where
  "job_fits j t =
     (tk_id t = jb_task j \<and> tk_artifact t = Some (jb_artifact j) \<and> tk_action t = job_action (jb_kind j)
      \<and> tk_status t = (if jb_phase j = Created then T_pending else T_running)
      \<and> (\<forall>oc. jb_phase j = Ended oc \<longrightarrow> oc_status oc \<in> {T_succeeded, T_failed}))"

definition one_apply :: "tasks \<Rightarrow> bool" where
  "one_apply tab = (\<forall>i. length (filter (\<lambda>t. live_on i t \<and> tk_action t = ''apply'') tab) \<le> 1)"

definition accounted :: "tasks \<Rightarrow> job list \<Rightarrow> bool" where
  "accounted tab jobs =
     (distinct (map jb_task jobs) \<and> (\<forall>j\<in>set jobs. \<exists>t\<in>set tab. job_fits j t)
      \<and> (\<forall>t\<in>set tab. live t \<longrightarrow> tk_artifact t \<noteq> None \<longrightarrow> tk_id t \<in> jb_task ` set jobs))"

definition runner_inv :: "runner_state \<Rightarrow> bool" where
  "runner_inv s = (wf_tasks (rs_tasks s) \<and> accounted (rs_tasks s) (rs_jobs s) \<and> one_apply (rs_tasks s))"

text \<open>A change of one row that revives nothing and keeps what the row is about.\<close>

lemma one_apply_on_task:
  assumes "one_apply tab" and "\<And>t. tk_artifact (f t) = tk_artifact t \<and> tk_action (f t) = tk_action t"
    and "\<And>t. t \<in> set tab \<Longrightarrow> tk_id t = tid \<Longrightarrow> tk_artifact t \<noteq> None \<Longrightarrow> live (f t) \<Longrightarrow> live t"
  shows "one_apply (on_task tid f tab)"
proof -
  have "length (filter (\<lambda>t. live_on i t \<and> tk_action t = ''apply'') (on_task tid f tab))
      \<le> length (filter (\<lambda>t. live_on i t \<and> tk_action t = ''apply'') tab)" for i
    using assms(2,3) by (induction tab) (auto simp: on_task_def live_on_def)
  then show ?thesis using assms(1) unfolding one_apply_def by (meson order_trans)
qed

lemma one_apply_insert:
  assumes "one_apply tab" and "tk_action t = ''apply'' \<Longrightarrow> tk_artifact t = Some i \<Longrightarrow> \<not> has_active_task tab i"
    and "tk_artifact t = Some i \<or> tk_artifact t = None"
  shows "one_apply (tab @ [t])"
proof -
  have "length (filter (\<lambda>t. live_on k t \<and> tk_action t = ''apply'') (tab @ [t])) \<le> 1" for k
  proof (cases "live_on k t \<and> tk_action t = ''apply''")
    case True
    then have "k = i" "\<not> has_active_task tab k" using assms(2,3) by (auto simp: live_on_def)
    then have "filter (\<lambda>t. live_on k t \<and> tk_action t = ''apply'') tab = []"
      by (auto simp: has_active_task_def list_ex_iff filter_empty_conv)
    then show ?thesis using True by simp
  next
    case False
    then show ?thesis using assms(1) by (auto simp: one_apply_def)
  qed
  then show ?thesis by (simp add: one_apply_def)
qed

lemma job_action_valid [simp]: "validate_action (job_action k) (Some i) = Inr ()"
  by (cases k) (simp_all add: validate_action_def valid_actions_def artifactless_actions_def)

lemma accountedD:
  "accounted tab jobs \<Longrightarrow> j \<in> set jobs \<Longrightarrow> \<exists>t. t \<in> set tab \<and> job_fits j t"
  "accounted tab jobs \<Longrightarrow> t \<in> set tab \<Longrightarrow> live t \<Longrightarrow> tk_artifact t \<noteq> None \<Longrightarrow> tk_id t \<in> jb_task ` set jobs"
  "accounted tab jobs \<Longrightarrow> j \<in> set jobs \<Longrightarrow> k \<in> set jobs \<Longrightarrow> jb_task k = jb_task j \<Longrightarrow> k = j"
  unfolding accounted_def by (blast, blast, metis distinct_map inj_onD)

lemma job_fits_id: "job_fits j t \<Longrightarrow> tk_id t = jb_task j"
  by (simp add: job_fits_def)

lemma in_on_task: "t \<in> set tab \<Longrightarrow> (if tk_id t = tid then f t else t) \<in> set (on_task tid f tab)"
  by (auto simp: set_on_task)

text \<open>A new task with its job.\<close>

lemma runner_inv_start_job:
  assumes "runner_inv s" and "insert_task tid ts (Some i) (job_action k) (rs_tasks s) = Inr tab"
    and "job_action k = ''apply'' \<Longrightarrow> \<not> has_active_task (rs_tasks s) i"
  shows "runner_inv (snd (start_job tid i k tab s))"
proof -
  obtain t where t: "tab = rs_tasks s @ [t]" "tid \<notin> tk_id ` set (rs_tasks s)" "tk_id t = tid" "tk_artifact t = Some i"
    "tk_action t = job_action k" "tk_status t = T_pending"
    using assms(2) by (auto simp: insert_task_Inr)
  have "wf_tasks tab" using assms(1) wf_insert [OF _ job_action_valid assms(2)] by (simp add: runner_inv_def)
  moreover have "one_apply tab"
    unfolding t(1) using assms(1,3) t by (intro one_apply_insert [where i = i]) (auto simp: runner_inv_def)
  moreover have "tid \<notin> jb_task ` set (rs_jobs s)"
  proof
    assume "tid \<in> jb_task ` set (rs_jobs s)"
    then obtain j u where u: "jb_task j = tid" "u \<in> set (rs_tasks s)" "job_fits j u"
      using assms(1) accountedD(1) by (fastforce simp: runner_inv_def)
    show False using imageI [OF u(2), of tk_id] t(2) job_fits_id [OF u(3)] u(1) by simp
  qed
  then have "accounted tab (rs_jobs s @ [\<lparr>jb_task = tid, jb_artifact = i, jb_kind = k, jb_phase = Created\<rparr>])"
    using assms(1) t by (auto simp: runner_inv_def accounted_def job_fits_def)
  ultimately show ?thesis by (simp add: runner_inv_def start_job_def)
qed

text \<open>A row that is not live any more loses its job.\<close>

lemma accounted_leave:
  assumes a: "accounted tab jobs" and id: "\<And>t. tk_id (f t) = tk_id t"
    and dead: "\<And>t. t \<in> set tab \<Longrightarrow> tk_id t = tid \<Longrightarrow> live (f t) \<Longrightarrow> tk_artifact (f t) = None"
  shows "accounted (on_task tid f tab) (filter (\<lambda>k. jb_task k \<noteq> tid) jobs)"
  unfolding accounted_def
proof (intro conjI ballI impI)
  show "distinct (map jb_task (filter (\<lambda>k. jb_task k \<noteq> tid) jobs))"
    using a by (simp add: accounted_def distinct_map_filter)
next
  fix j assume j: "j \<in> set (filter (\<lambda>k. jb_task k \<noteq> tid) jobs)"
  then obtain t where t: "t \<in> set tab" "job_fits j t" using accountedD(1) [OF a] by auto
  then have "tk_id t \<noteq> tid" using j by (auto dest: job_fits_id)
  then show "\<exists>t\<in>set (on_task tid f tab). job_fits j t"
    using in_on_task [OF t(1), of tid f] t(2) by auto
next
  fix t assume t: "t \<in> set (on_task tid f tab)" "live t" "tk_artifact t \<noteq> None"
  then obtain u where u: "u \<in> set tab" "t = (if tk_id u = tid then f u else u)" by (auto simp: set_on_task)
  then have n: "tk_id u \<noteq> tid" using dead t by auto
  then have "tk_id u \<in> jb_task ` set jobs" using u t accountedD(2) [OF a u(1)] by simp
  then show "tk_id t \<in> jb_task ` set (filter (\<lambda>k. jb_task k \<noteq> tid) jobs)" using u n by auto
qed

lemma accounted_on_task:
  assumes "accounted tab jobs" and "\<And>t. tk_id (f t) = tk_id t" and "tid \<notin> jb_task ` set jobs"
    and "\<And>t. t \<in> set tab \<Longrightarrow> tk_id t = tid \<Longrightarrow> live (f t) \<Longrightarrow> tk_artifact (f t) = None"
  shows "accounted (on_task tid f tab) jobs"
proof -
  have "filter (\<lambda>k. jb_task k \<noteq> tid) jobs = jobs" using assms(3) by (auto simp: filter_id_conv)
  moreover have "accounted (on_task tid f tab) (filter (\<lambda>k. jb_task k \<noteq> tid) jobs)"
    by (rule accounted_leave) (use assms in auto)
  ultimately show ?thesis by simp
qed

text \<open>A job moves on: its row with it.\<close>

lemma accounted_job:
  assumes a: "accounted tab jobs" and j: "j \<in> set jobs"
    and id: "\<And>t. tk_id (f t) = tk_id t" "jb_task j' = jb_task j"
    and fits: "\<And>t. t \<in> set tab \<Longrightarrow> job_fits j t \<Longrightarrow> job_fits j' (f t)"
  shows "accounted (on_task (jb_task j) f tab) (map (\<lambda>k. if k = j then j' else k) jobs)"
proof -
  have ids: "map jb_task (map (\<lambda>k. if k = j then j' else k) jobs) = map jb_task jobs" using id(2) by simp
  have image: "jb_task ` set (map (\<lambda>k. if k = j then j' else k) jobs) = jb_task ` set jobs"
    using arg_cong [OF ids, of set] by (simp only: set_map)
  show ?thesis
    unfolding accounted_def ids image
  proof (intro conjI ballI impI)
    show "distinct (map jb_task jobs)" using a by (simp add: accounted_def)
  next
    fix k' assume "k' \<in> set (map (\<lambda>k. if k = j then j' else k) jobs)"
    then obtain k where k: "k \<in> set jobs" "k' = (if k = j then j' else k)" by auto
    obtain t where t: "t \<in> set tab" "job_fits k t" using accountedD(1) [OF a k(1)] by blast
    have "tk_id t = jb_task j \<longleftrightarrow> k = j"
      using job_fits_id [OF t(2)] accountedD(3) [OF a j k(1)] by auto
    then show "\<exists>t\<in>set (on_task (jb_task j) f tab). job_fits k' t"
      using in_on_task [OF t(1), of "jb_task j" f] fits [OF t(1)] t(2) k(2) by (cases "k = j") auto
  next
    fix t assume t: "t \<in> set (on_task (jb_task j) f tab)" "live t" "tk_artifact t \<noteq> None"
    then obtain u where u: "u \<in> set tab" "t = (if tk_id u = jb_task j then f u else u)" by (auto simp: set_on_task)
    show "tk_id t \<in> jb_task ` set jobs"
    proof (cases "tk_id u = jb_task j")
      case True
      then show ?thesis using u(2) j id(1) by simp
    next
      case False
      then show ?thesis using u t accountedD(2) [OF a u(1)] by simp
    qed
  qed
qed

section \<open>Preservation\<close>

lemma inv_start_apply: "runner_inv s \<Longrightarrow> runner_inv (snd (start_apply tid ts i who s))"
  using runner_inv_start_job [of s _ ts i "J_apply who"]
  by (auto simp: start_apply_def create_task_if_no_active_def bind_res_def split: sum.splits option.splits if_splits)

lemma inv_request_create: "runner_inv s \<Longrightarrow> runner_inv (snd (request_create tid ts rq s))"
  using runner_inv_start_job [of s _ ts "request_artifact rq" "request_kind rq"]
  by (cases rq) (auto simp: request_create_def create_task_def bind_res_def Let_def split: sum.splits)

lemma inv_requests [simp]: "runner_inv (s\<lparr>rs_requests := q\<rparr>) = runner_inv s" "runner_inv (s\<lparr>rs_x := x\<rparr>) = runner_inv s"
  by (simp_all add: runner_inv_def)

lemma inv_begin:
  assumes "runner_inv s" and j: "j \<in> set (rs_jobs s)" "jb_phase j = Created"
  shows "runner_inv (begin_job now j s)"
proof -
  have a: "accounted (rs_tasks s) (rs_jobs s)" and w: "wf_tasks (rs_tasks s)" using assms(1) by (simp_all add: runner_inv_def)
  obtain u where u: "u \<in> set (rs_tasks s)" "job_fits j u" using accountedD(1) [OF a j(1)] by blast
  have same: "t = u" if "t \<in> set (rs_tasks s)" "tk_id t = jb_task j" for t
    using task_unique [OF w that(1) u(1)] that(2) job_fits_id [OF u(2)] by simp
  have "live u" using u(2) j(2) by (simp add: job_fits_def live_def)
  then have "one_apply (update_task_status now (jb_task j) T_running None None (rs_tasks s))"
    using assms(1) same unfolding update_task_status_def
    by (intro one_apply_on_task) (auto simp: runner_inv_def)
  moreover have "accounted (update_task_status now (jb_task j) T_running None None (rs_tasks s))
      (map (\<lambda>k. if k = j then j\<lparr>jb_phase := Begun\<rparr> else k) (rs_jobs s))"
    unfolding update_task_status_def
    by (rule accounted_job [OF a j(1)]) (auto simp: job_fits_def)
  ultimately show ?thesis using w wf_update_status by (simp add: runner_inv_def begin_job_def)
qed

lemma job_work_status:
  "oc_status (fst (job_work re j x)) \<in> {T_succeeded, T_failed}"
  by (auto simp: job_work_def apply_work_def replay_work_def revoke_work_def record_outcome_def failed_with_def
      apply_failure_def Let_def split: job_kind.splits prod.splits sum.splits)

lemma on_task_id [simp]: "on_task tid (\<lambda>t. t) tab = tab"
  by (simp add: on_task_def)

lemma inv_work:
  assumes "runner_inv s" and j: "j \<in> set (rs_jobs s)" "jb_phase j = Begun"
  shows "runner_inv (work_job re j s)"
proof -
  obtain oc x where o: "job_work re j (rs_x s) = (oc, x)" by fastforce
  have st: "oc_status oc \<in> {T_succeeded, T_failed}" using job_work_status [of re j "rs_x s"] o by simp
  have "accounted (on_task (jb_task j) (\<lambda>t. t) (rs_tasks s))
      (map (\<lambda>k. if k = j then j\<lparr>jb_phase := Ended oc\<rparr> else k) (rs_jobs s))"
    by (rule accounted_job) (use assms st in \<open>auto simp: runner_inv_def job_fits_def\<close>)
  then show ?thesis using assms(1) by (simp add: runner_inv_def work_job_def o)
qed

lemma jobs_without:
  assumes "accounted tab jobs" and "j \<in> set jobs"
  shows "filter (\<lambda>k. k \<noteq> j) jobs = filter (\<lambda>k. jb_task k \<noteq> jb_task j) jobs"
  using accountedD(3) [OF assms] by (auto intro!: filter_cong)

lemma inv_end:
  assumes "runner_inv s" and j: "j \<in> set (rs_jobs s)" "jb_phase j = Ended oc"
  shows "runner_inv (end_job now j oc s)"
proof -
  have a: "accounted (rs_tasks s) (rs_jobs s)" and w: "wf_tasks (rs_tasks s)" using assms(1) by (simp_all add: runner_inv_def)
  have st: "oc_status oc \<in> {T_succeeded, T_failed}"
    using accountedD(1) [OF a j(1)] j(2) by (auto simp: job_fits_def)
  have "accounted (update_task_status now (jb_task j) (oc_status oc) (oc_error oc) (oc_result oc) (rs_tasks s))
      (filter (\<lambda>k. jb_task k \<noteq> jb_task j) (rs_jobs s))"
    unfolding update_task_status_def
    by (rule accounted_leave [OF a]) (use st in \<open>auto simp: live_def\<close>)
  moreover have "one_apply (update_task_status now (jb_task j) (oc_status oc) (oc_error oc) (oc_result oc) (rs_tasks s))"
    unfolding update_task_status_def
    by (rule one_apply_on_task) (use assms(1) st in \<open>auto simp: runner_inv_def live_def\<close>)
  moreover have "oc_status oc \<noteq> T_cancelled" using st by auto
  ultimately show ?thesis using wf_update_status [OF w] by (simp add: runner_inv_def end_job_def jobs_without [OF a j(1)])
qed

lemma inv_cancel:
  assumes "runner_inv s"
  shows "runner_inv (snd (cancel_run now tid s))"
proof -
  define f where "f = (\<lambda>t. if live t then t\<lparr>tk_status := T_cancelled, tk_finished := Some now\<rparr> else t :: task)"
  have a: "accounted (rs_tasks s) (rs_jobs s)" and w: "wf_tasks (rs_tasks s)" and o: "one_apply (rs_tasks s)"
    using assms by (simp_all add: runner_inv_def)
  have f: "tk_id (f t) = tk_id t" "tk_artifact (f t) = tk_artifact t \<and> tk_action (f t) = tk_action t" "\<not> live (f t)" for t
    by (simp_all add: f_def live_def)
  have acc: "accounted (on_task tid f (rs_tasks s)) (filter (\<lambda>k. jb_task k \<noteq> tid) (rs_jobs s))"
    by (rule accounted_leave [OF a]) (simp_all add: f)
  have one: "one_apply (on_task tid f (rs_tasks s))" by (rule one_apply_on_task [OF o]) (simp_all add: f)
  have same: "on_task tid f (rs_tasks s) = rs_tasks s"
    if "\<And>t. t \<in> set (rs_tasks s) \<Longrightarrow> tk_id t = tid \<Longrightarrow> \<not> live t"
    using that by (auto simp: on_task_def f_def intro!: map_idI)
  have t: "snd (cancel_task now tid (rs_tasks s)) = on_task tid f (rs_tasks s)"
  proof (cases "get_task (rs_tasks s) tid")
    case None
    then have "tid \<notin> tk_id ` set (rs_tasks s)" by (simp add: get_task_None)
    then have "on_task tid f (rs_tasks s) = rs_tasks s" by (intro same) auto
    then show ?thesis using None by (simp add: cancel_task_def)
  next
    case (Some t)
    then have t: "t \<in> set (rs_tasks s)" "tk_id t = tid" using get_task_Some [OF w] by auto
    show ?thesis
    proof (cases "live t")
      case True
      then show ?thesis using Some by (simp add: cancel_task_def f_def Let_def)
    next
      case False
      then have "on_task tid f (rs_tasks s) = rs_tasks s"
        using task_unique [OF w t(1)] t(2) by (intro same) auto
      then show ?thesis using Some False by (simp add: cancel_task_def)
    qed
  qed
  have "wf_tasks (on_task tid f (rs_tasks s))" using wf_cancel [OF w] unfolding t [symmetric] .
  then show ?thesis using acc one t by (auto simp: runner_inv_def cancel_run_def split: prod.splits)
qed

lemma inv_outcome:
  assumes "runner_inv s"
  shows "runner_inv (s\<lparr>rs_tasks := snd (record_cancel_outcome tid result err (rs_tasks s))\<rparr>)"
proof -
  define f where "f = (\<lambda>t. if tk_status t = T_cancelled then t\<lparr>tk_result := result, tk_error := err\<rparr> else t :: task)"
  have f: "tk_id (f t) = tk_id t" "tk_artifact (f t) = tk_artifact t \<and> tk_action (f t) = tk_action t"
    "live (f t) = live t" "task_ok (f t) = task_ok t" "job_fits j (f t) = job_fits j t" for t j
    by (auto simp: f_def live_def task_ok_def job_fits_def)
  have a: "accounted (rs_tasks s) (rs_jobs s)" and w: "wf_tasks (rs_tasks s)" and o: "one_apply (rs_tasks s)"
    using assms by (simp_all add: runner_inv_def)
  have "\<exists>u\<in>set (on_task tid f (rs_tasks s)). job_fits j u" if "j \<in> set (rs_jobs s)" for j
  proof -
    obtain t where t: "t \<in> set (rs_tasks s)" "job_fits j t" using accountedD(1) [OF a \<open>j \<in> set (rs_jobs s)\<close>] by blast
    show ?thesis
      by (rule bexI [OF _ in_on_task [OF t(1)]]) (use t(2) in \<open>simp add: f(5)\<close>)
  qed
  then have "accounted (on_task tid f (rs_tasks s)) (rs_jobs s)"
    using a f(1-3) by (auto simp: accounted_def set_on_task)
  moreover have "one_apply (on_task tid f (rs_tasks s))" by (rule one_apply_on_task [OF o]) (simp_all add: f)
  moreover have "wf_tasks (on_task tid f (rs_tasks s))"
    by (rule wf_on_task [OF w]) (use w in \<open>auto simp: f wf_tasks_def\<close>)
  ultimately show ?thesis by (simp add: runner_inv_def record_cancel_outcome_def Let_def f_def)
qed

lemma inv_restart: "runner_inv s \<Longrightarrow> runner_inv (restart now s)"
proof -
  assume i: "runner_inv s"
  have dead: "\<not> live t" if "t \<in> set (snd (fail_orphaned_tasks now (rs_tasks s)))" for t
    using that by (auto simp: fail_orphaned_tasks_def live_def split: if_splits)
  then have "filter (\<lambda>t. live_on i t \<and> P t) (snd (fail_orphaned_tasks now (rs_tasks s))) = []" for i P
    by (auto simp: filter_empty_conv live_on_def)
  then show ?thesis
    using i dead wf_orphans by (auto simp: runner_inv_def restart_def accounted_def one_apply_def)
qed

lemma inv_other_create:
  assumes "runner_inv s" and "create_task tid ts None action (rs_tasks s) = Inr (t, tab)"
  shows "runner_inv (s\<lparr>rs_tasks := tab\<rparr>)"
proof -
  have v: "validate_action action None = Inr ()" and ins: "insert_task tid ts None action (rs_tasks s) = Inr tab"
    using assms(2) by (auto simp: create_task_def bind_res_def split: sum.splits)
  obtain u where u: "tab = rs_tasks s @ [u]" "tk_artifact u = None" using ins by (auto simp: insert_task_Inr)
  have "one_apply tab" unfolding u(1) using assms(1) u(2) by (intro one_apply_insert) (auto simp: runner_inv_def)
  moreover have "accounted tab (rs_jobs s)" using assms(1) u by (auto simp: runner_inv_def accounted_def)
  ultimately show ?thesis using assms(1) wf_insert [OF _ v ins] by (simp add: runner_inv_def)
qed

lemma inv_other_update:
  assumes "runner_inv s" and t: "t \<in> set (rs_tasks s)" "tk_artifact t = None" and st: "st \<noteq> T_cancelled"
  shows "runner_inv (s\<lparr>rs_tasks := update_task_status now (tk_id t) st err result (rs_tasks s)\<rparr>)"
proof -
  have a: "accounted (rs_tasks s) (rs_jobs s)" and w: "wf_tasks (rs_tasks s)" and o: "one_apply (rs_tasks s)"
    using assms by (simp_all add: runner_inv_def)
  have u: "u = t" if "u \<in> set (rs_tasks s)" "tk_id u = tk_id t" for u using task_unique [OF w that(1) t(1) that(2)] .
  have "tk_id t \<notin> jb_task ` set (rs_jobs s)"
  proof
    assume "tk_id t \<in> jb_task ` set (rs_jobs s)"
    then obtain j v where "v \<in> set (rs_tasks s)" "job_fits j v" "tk_id v = tk_id t"
      using accountedD(1) [OF a] job_fits_id by fastforce
    then show False using u t(2) by (auto simp: job_fits_def)
  qed
  then have "accounted (update_task_status now (tk_id t) st err result (rs_tasks s)) (rs_jobs s)"
    unfolding update_task_status_def by (intro accounted_on_task [OF a]) (use u t in auto)
  moreover have "one_apply (update_task_status now (tk_id t) st err result (rs_tasks s))"
    unfolding update_task_status_def
    by (rule one_apply_on_task [OF o]) (use t in \<open>auto dest: u\<close>)
  ultimately show ?thesis using wf_update_status [OF w st] by (simp add: runner_inv_def)
qed

lemma runner_step_inv: "runner_step re s s' \<Longrightarrow> runner_inv s \<Longrightarrow> runner_inv s'"
  by (induction rule: runner_step.induct)
    (auto intro: inv_start_apply inv_request_create inv_begin inv_work inv_end inv_cancel inv_outcome inv_restart
      inv_other_create inv_other_update)

lemma runner_reach_inv: "runner_reach re s \<Longrightarrow> runner_inv s"
proof (induction rule: runner_reach.induct)
  case (start x)
  then show ?case by (simp add: runner_inv_def wf_tasks_def accounted_def one_apply_def)
qed (rule runner_step_inv)

section \<open>Bringing a job to its end\<close>

definition finish_job :: "runner_env \<Rightarrow> string \<Rightarrow> job \<Rightarrow> runner_state \<Rightarrow> runner_state" where
  "finish_job re now j s =
     (case jb_phase j of
        Created \<Rightarrow> run_job re now j s
      | Begun \<Rightarrow> end_work re now j s
      | Ended oc \<Rightarrow> end_job now j oc s)"

lemma end_job_row:
  assumes "t \<in> set (rs_tasks s)" and "tk_id t = jb_task j" and "oc_status oc \<in> {T_succeeded, T_failed}"
  shows "\<exists>u\<in>set (rs_tasks (end_job now j oc s)). tk_id u = jb_task j \<and> tk_status u \<in> {T_succeeded, T_failed}
    \<and> tk_finished u = Some now"
proof -
  let ?f = "\<lambda>t. t\<lparr>tk_status := oc_status oc,
    tk_finished := (if oc_status oc = T_succeeded \<or> oc_status oc = T_failed then Some now else None),
    tk_error := oc_error oc, tk_result := oc_result oc\<rparr>"
  have "?f t \<in> set (rs_tasks (end_job now j oc s))"
    using in_on_task [OF assms(1), of "jb_task j" ?f] assms(2) by (simp add: end_job_def update_task_status_def)
  then show ?thesis by (rule bexI [rotated]) (use assms(2,3) in auto)
qed

lemma dead_row_no_job:
  assumes "runner_inv s" and "u \<in> set (rs_tasks s)" and "\<not> live u"
  shows "tk_id u \<notin> jb_task ` set (rs_jobs s)"
proof
  assume "tk_id u \<in> jb_task ` set (rs_jobs s)"
  then obtain j where j: "j \<in> set (rs_jobs s)" "jb_task j = tk_id u" by auto
  obtain t where t: "t \<in> set (rs_tasks s)" "job_fits j t"
    using assms(1) accountedD(1) [OF _ j(1)] unfolding runner_inv_def by blast
  then have "t = u" using assms(1,2) j(2) task_unique [of "rs_tasks s" t u] job_fits_id [OF t(2)] by (simp add: runner_inv_def)
  then show False using t(2) assms(3) by (auto simp: job_fits_def live_def split: if_splits)
qed

lemma work_job_facts:
  "rs_tasks (work_job re j s) = rs_tasks s"
  "j \<in> set (rs_jobs s) \<Longrightarrow> j\<lparr>jb_phase := Ended (fst (job_work re j (rs_x s)))\<rparr> \<in> set (rs_jobs (work_job re j s))"
  by (auto simp: work_job_def split: prod.splits)

lemma begin_job_facts:
  "j \<in> set (rs_jobs s) \<Longrightarrow> j\<lparr>jb_phase := Begun\<rparr> \<in> set (rs_jobs (begin_job now j s))"
  "map tk_id (rs_tasks (begin_job now j s)) = map tk_id (rs_tasks s)"
  by (auto simp: begin_job_def update_task_status_def)

lemma end_work_steps:
  assumes "j \<in> set (rs_jobs s)" and "jb_phase j = Begun"
  shows "(runner_step re)\<^sup>*\<^sup>* s (end_work re now j s)"
proof -
  have "runner_step re s (work_job re j s)" using assms by (rule worked)
  moreover have "runner_step re (work_job re j s) (end_work re now j s)"
    unfolding end_work_def Let_def using work_job_facts(2) [OF assms(1)] by (rule ended) simp
  ultimately show ?thesis by (rule converse_rtranclp_into_rtranclp [OF _ r_into_rtranclp])
qed

lemma end_work_row:
  assumes "t \<in> set (rs_tasks s)" and "tk_id t = jb_task j"
  shows "\<exists>u\<in>set (rs_tasks (end_work re now j s)). tk_id u = jb_task j \<and> tk_status u \<in> {T_succeeded, T_failed}
    \<and> tk_finished u = Some now"
proof -
  have "t \<in> set (rs_tasks (work_job re j s))" using assms(1) by (simp add: work_job_facts)
  from end_job_row [OF this, of "j\<lparr>jb_phase := Ended (fst (job_work re j (rs_x s)))\<rparr>"]
  show ?thesis using assms(2) job_work_status by (simp add: end_work_def Let_def)
qed

lemma finish_job_ends:
  assumes "j \<in> set (rs_jobs s)" and "t \<in> set (rs_tasks s)" and "job_fits j t"
  shows "(runner_step re)\<^sup>*\<^sup>* s (finish_job re now j s)
    \<and> (\<exists>u\<in>set (rs_tasks (finish_job re now j s)). tk_id u = tk_id t \<and> tk_status u \<in> {T_succeeded, T_failed}
         \<and> tk_finished u = Some now)"
proof (cases "jb_phase j")
  case Created
  let ?s = "begin_job now j s" and ?j = "j\<lparr>jb_phase := Begun\<rparr>"
  have "runner_step re s ?s" using assms(1) Created by (rule begun)
  moreover have "(runner_step re)\<^sup>*\<^sup>* ?s (end_work re now ?j ?s)"
    by (rule end_work_steps) (use begin_job_facts(1) [OF assms(1)] in simp_all)
  moreover have "tk_id t \<in> set (map tk_id (rs_tasks ?s))" using assms(2) by (simp only: begin_job_facts(2) set_map imageI)
  then obtain v where "v \<in> set (rs_tasks ?s)" "tk_id v = tk_id t" by auto
  ultimately show ?thesis
    using end_work_row [of v ?s ?j] job_fits_id [OF assms(3)] Created
    by (simp add: finish_job_def run_job_def converse_rtranclp_into_rtranclp)
next
  case Begun
  then show ?thesis
    using end_work_steps [OF assms(1) Begun] end_work_row [OF assms(2), of j] job_fits_id [OF assms(3)]
    by (simp add: finish_job_def)
next
  case (Ended oc)
  then have "oc_status oc \<in> {T_succeeded, T_failed}" using assms(3) by (simp add: job_fits_def)
  then show ?thesis
    using end_job_row [OF assms(2), of j oc] job_fits_id [OF assms(3)] Ended
      r_into_rtranclp [of "runner_step re", OF ended [OF assms(1) Ended]]
    by (simp add: finish_job_def)
qed

section \<open>Terminal rows\<close>

lemma on_task_kept:
  assumes "t \<in> set tab" and "tk_id t = tid \<Longrightarrow> f t = t"
  shows "t \<in> set (on_task tid f tab)"
  using in_on_task [OF assms(1), of tid f] assms(2) by (cases "tk_id t = tid") auto

lemma start_keeps: "t \<in> set (rs_tasks s) \<Longrightarrow> t \<in> set (rs_tasks (snd (start_apply tid ts i who s)))"
  and request_keeps: "t \<in> set (rs_tasks s) \<Longrightarrow> t \<in> set (rs_tasks (snd (request_create tid ts rq s)))"
  by (auto simp: start_apply_def create_task_if_no_active_def request_create_def create_task_def bind_res_def
      start_job_def insert_task_def Let_def split: sum.splits option.splits if_splits)

lemma job_row_kept:
  assumes "runner_inv s" and "j \<in> set (rs_jobs s)" and "t \<in> set (rs_tasks s)" and "\<not> live t"
  shows "t \<in> set (update_task_status now (jb_task j) st err result (rs_tasks s))"
  using dead_row_no_job [OF assms(1,3,4)] assms(2,3) unfolding update_task_status_def by (intro on_task_kept) auto

lemma terminal_kept:
  assumes "runner_step re s s'" and "runner_inv s" and t: "t \<in> set (rs_tasks s)" "\<not> live t" "tk_artifact t \<noteq> None"
  shows "\<exists>u\<in>set (rs_tasks s'). tk_id u = tk_id t \<and> tk_status u = tk_status t \<and> tk_finished u = tk_finished t
    \<and> (tk_status t \<noteq> T_cancelled \<longrightarrow> u = t)"
  using assms(1)
proof cases
  case (applied tid ts i who)
  then show ?thesis using start_keeps [OF t(1)] by blast
next
  case (created rq tid ts)
  then show ?thesis using request_keeps [of t "s\<lparr>rs_requests := remove1 rq (rs_requests s)\<rparr>"] t(1) by auto
next
  case (begun j now)
  then show ?thesis using job_row_kept [OF assms(2) begun(2) t(1,2)] by (auto simp: begin_job_def)
next
  case (worked j)
  then show ?thesis using t(1) by (auto simp: work_job_facts)
next
  case (ended j oc now)
  then show ?thesis using job_row_kept [OF assms(2) ended(2) t(1,2)] by (auto simp: end_job_def)
next
  case (cancelled now tid)
  have "t \<in> set (snd (cancel_task now tid (rs_tasks s)))"
    using t(1,2) by (auto simp: cancel_task_def Let_def intro: on_task_kept split: option.splits)
  then show ?thesis using cancelled by (auto simp: cancel_run_def split: prod.splits)
next
  case (outcome_recorded tid result err)
  let ?f = "\<lambda>t. if tk_status t = T_cancelled then t\<lparr>tk_result := result, tk_error := err\<rparr> else t"
  have "(if tk_id t = tid then ?f t else t) \<in> set (rs_tasks s')"
    using in_on_task [OF t(1), of tid ?f] outcome_recorded by (simp add: record_cancel_outcome_def Let_def)
  then show ?thesis by (rule bexI [rotated]) auto
next
  case (restarted now)
  then show ?thesis using t(1,2) by (force simp: restart_def fail_orphaned_tasks_def)
next
  case (other_create tid ts action u tab)
  then have "t \<in> set tab" using t(1) by (auto simp: create_task_def bind_res_def insert_task_def split: sum.splits if_splits)
  then show ?thesis using other_create by auto
next
  case (other_update u st now err result)
  then have "tk_id t \<noteq> tk_id u" using task_unique [OF _ t(1) other_update(2)] assms(2) t(3) by (auto simp: runner_inv_def)
  then have "t \<in> set (rs_tasks s')"
    using t(1) other_update(1) by (auto simp: update_task_status_def intro: on_task_kept)
  then show ?thesis by blast
qed (use t(1) in auto)

lemma apply_single_success:
  "apply_single xe n who i s = (Inr r, s') \<Longrightarrow> ar_success r \<Longrightarrow> \<exists>x. exec_apply xe n who i s = (Inr x, s') \<and> er_success x"
  by (auto simp: apply_single_def bind_x_eq catch_x_def raise_x_def split: prod.splits sum.splits if_splits)

lemma apply_single_by: "guarded (x_env xe) (apply_single xe n who i)"
  unfolding guarded_def
proof (intro allI impI)
  fix s r s' assume a: "apply_single xe n who i s = (r, s')"
  obtain x s1 where x: "exec_apply xe n who i s = (x, s1)" by fastforce
  have first: "by_approval (x_env xe) s s1" using guardedD [OF exec_apply_guarded x] .
  have "by_approval (x_env xe) s1 s'"
  proof (cases x)
    case (Inr y)
    then show ?thesis using a x by (simp add: apply_single_def)
  next
    case (Inl e)
    have "by_approval (x_env xe) s1 s2" if "audit_x xe ''apply_failed'' i who d s1 = (y, s2)" for y s2 d
      using guardedD [OF guarded_marks(3) that] .
    then show ?thesis using a x Inl
      by (auto simp: apply_single_def bind_x_eq catch_x_def raise_x_def return_x_def split: if_splits prod.splits sum.splits)
  qed
  with first show "by_approval (x_env xe) s s'" by (rule by_approval_trans)
qed

lemma apply_failure_by: "apply_failure re i e s = (oc, s') \<Longrightarrow> by_approval env s s'"
  using guardedD [OF guarded_marks(2) prod.collapse [symmetric]] by (auto simp: apply_failure_def)

lemma apply_work_by:
  assumes "apply_work re who i s = (oc, s')"
  shows "by_approval (x_env (re_x re)) s s'"
proof -
  have run: "by_approval (x_env (re_x re)) s s'"
    if m: "guarded (x_env (re_x re)) m" and r: "m s = (x, s1)"
      and e: "case x of Inl e \<Rightarrow> apply_failure re i e s1 = (oc, s') | Inr _ \<Rightarrow> s' = s1" for m :: "'b xop" and x s1
    using guardedD [OF m r] e by (cases x) (auto intro: by_approval_trans apply_failure_by)
  show ?thesis
    using assms run [OF apply_single_by] run [OF exec_apply_guarded]
    by (auto simp: apply_work_def split: if_splits prod.splits sum.splits)
qed

end
