(* ===== verification/Task_Properties.thy ===== *)
theory Task_Properties
  imports Task_Safety
begin

text \<open>The properties of the task runner, with their witnesses.\<close>

section \<open>A sample run\<close>

definition sample_runner :: runner_env where
  "sample_runner = \<lparr>re_x = sample_xenv, re_depth = 2, re_executor = True, re_reconciler = True\<rparr>"

definition runner_start :: runner_state where
  "runner_start = \<lparr>rs_x = sample_xstate, rs_tasks = [], rs_jobs = [], rs_requests = []\<rparr>"

definition one_task :: runner_state where
  "one_task = snd (start_apply ''t1'' ''2026-01-02T00:00:00Z'' ''2026-01-02-leaf'' ''op'' runner_start)"

lemma runner_start_reach: "runner_reach re runner_start"
  unfolding runner_start_def by (rule runner_reach.start)

lemma one_task_reach: "runner_reach re one_task"
  unfolding one_task_def by (rule runner_reach.step [OF runner_start_reach applied])

lemma one_task_row:
  "rs_tasks one_task = [\<lparr>tk_id = ''t1'', tk_artifact = Some ''2026-01-02-leaf'', tk_action = ''apply'',
     tk_status = T_pending, tk_created = ''2026-01-02T00:00:00Z'', tk_finished = None, tk_error = None, tk_result = None\<rparr>]"
  by code_simp

section \<open>Properties\<close>





text \<open>
  a finished task stays as it ended.  No step changes the status or the time of a row of an
  artifact that is succeeded, failed or cancelled, nor, unless it is cancelled, anything else of it.
\<close>

theorem finished_task_stays:
  assumes "runner_reach re s" and "runner_step re s s'"
    and "t \<in> set (rs_tasks s)" and "\<not> live t" and "tk_artifact t \<noteq> None"
  shows "\<exists>u\<in>set (rs_tasks s'). tk_id u = tk_id t \<and> tk_status u = tk_status t \<and> tk_finished u = tk_finished t
    \<and> (tk_status t \<noteq> T_cancelled \<longrightarrow> u = t)"
  using terminal_kept [OF assms(2) runner_reach_inv [OF assms(1)] assms(3-5)] .

theorem finished_task_stays_witness:
  "\<exists>u\<in>set (rs_tasks (restart ''later'' (snd (cancel_run ''now'' ''t1'' one_task)))). tk_id u = ''t1''
     \<and> tk_status u = T_cancelled \<and> tk_finished u = Some ''now''"
proof -
  have r: "rs_tasks (snd (cancel_run ''now'' ''t1'' one_task)) = [\<lparr>tk_id = ''t1'', tk_artifact = Some ''2026-01-02-leaf'',
      tk_action = ''apply'', tk_status = T_cancelled, tk_created = ''2026-01-02T00:00:00Z'', tk_finished = Some ''now'',
      tk_error = None, tk_result = None\<rparr>]"
    by (simp add: cancel_run_def one_task_row cancel_task_def get_task_def on_task_def live_def)
  show ?thesis
    using finished_task_stays [OF runner_reach.step [OF one_task_reach [of sample_runner] cancelled [of sample_runner one_task "''now''" "''t1''"]]
        restarted [of sample_runner _ "''later''"], of "hd (rs_tasks (snd (cancel_run ''now'' ''t1'' one_task)))"]
    by (simp add: r live_def)
qed

text \<open>
  an apply task tells the truth.  It is recorded as succeeded only when the artifact is applied (or
  is a kb-note), it changes only artifacts that were approved, which end applied or failed, and without
  an executor it is recorded as failed and nothing is touched.
\<close>

theorem apply_task_truthful:
  assumes "apply_work re who i s = (oc, s')"
  shows "oc_status oc \<in> {T_succeeded, T_failed}
    \<and> (oc_status oc = T_succeeded \<longrightarrow>
        (\<exists>fm b. map_of (xfiles s') i = Some (fm, b) \<and> (fm_status fm = APPLIED \<or> fm_kind fm = KB_NOTE)))
    \<and> retires (xfiles s) (xfiles s')
    \<and> (\<not> re_reconciler re \<and> \<not> re_executor re \<longrightarrow> oc_status oc = T_failed \<and> s' = s)"
proof -
  have good: "oc_status (record_outcome b l r) = T_succeeded \<longleftrightarrow> b" for b l r
    by (simp add: record_outcome_def Let_def)
  have "\<exists>fm b. map_of (xfiles s') i = Some (fm, b) \<and> (fm_status fm = APPLIED \<or> fm_kind fm = KB_NOTE)"
    if "oc_status oc = T_succeeded"
  proof -
    have "\<exists>x. exec_apply (re_x re) (re_depth re) who i s = (Inr x, s') \<and> er_success x"
      using assms that
      by (auto simp: apply_work_def apply_failure_def failed_with_def good dest: apply_single_success
          split: if_splits prod.splits sum.splits)
    then show ?thesis using exec_apply_success by blast
  qed
  moreover have "oc_status oc \<in> {T_succeeded, T_failed}"
    using job_work_status [of re "\<lparr>jb_task = [], jb_artifact = i, jb_kind = J_apply who, jb_phase = Begun\<rparr>" s] assms
    by (simp add: job_work_def)
  moreover have "retires (xfiles s) (xfiles s')" using apply_work_by [OF assms] by (simp add: by_approval_def)
  ultimately show ?thesis using assms by (auto simp: apply_work_def failed_with_def)
qed

theorem apply_task_truthful_witness:
  "\<exists>fm b. map_of (xfiles (snd (apply_work sample_runner ''op'' ''2026-01-02-leaf'' sample_xstate))) ''2026-01-02-leaf'' = Some (fm, b)
     \<and> (fm_status fm = APPLIED \<or> fm_kind fm = KB_NOTE)"
proof -
  have "oc_status (fst (apply_work sample_runner ''op'' ''2026-01-02-leaf'' sample_xstate)) = T_succeeded" by code_simp
  then show ?thesis using apply_task_truthful [OF prod.collapse [symmetric]] by blast
qed

definition replay_request :: request where
  "replay_request = Req_replay ''2026-01-02-leaf''"

definition both_checked :: runner_state where
  "both_checked = runner_start\<lparr>rs_requests := [replay_request, replay_request]\<rparr>"

definition one_replay :: runner_state where
  "one_replay = snd (request_create ''t1'' ''now'' replay_request (both_checked\<lparr>rs_requests := [replay_request]\<rparr>))"

definition two_replays :: runner_state where
  "two_replays = snd (request_create ''t2'' ''now'' replay_request (one_replay\<lparr>rs_requests := []\<rparr>))"

lemma both_checked_reach: "runner_reach sample_runner both_checked"
proof -
  have c: "request_check replay_request [] = Inr ()" by code_simp
  have "runner_step sample_runner runner_start (runner_start\<lparr>rs_requests := [replay_request]\<rparr>)"
    using checked [of replay_request runner_start sample_runner] c by (simp add: runner_start_def)
  moreover have "runner_step sample_runner (runner_start\<lparr>rs_requests := [replay_request]\<rparr>) both_checked"
    using checked [of replay_request "runner_start\<lparr>rs_requests := [replay_request]\<rparr>" sample_runner] c
    by (simp add: runner_start_def both_checked_def)
  ultimately show ?thesis by (blast intro: runner_reach.step runner_start_reach)
qed

lemma replay_allowed: "read_status (xfiles sample_xstate) ''2026-01-02-leaf'' {APPROVED, APPLIED} ''replay'' = Inr ()"
  by code_simp

definition replay_row :: "string \<Rightarrow> task" where
  "replay_row tid = \<lparr>tk_id = tid, tk_artifact = Some ''2026-01-02-leaf'', tk_action = ''replay'', tk_status = T_pending,
     tk_created = ''now'', tk_finished = None, tk_error = None, tk_result = None\<rparr>"

definition replay_job :: "string \<Rightarrow> job" where
  "replay_job tid = \<lparr>jb_task = tid, jb_artifact = ''2026-01-02-leaf'', jb_kind = J_replay, jb_phase = Created\<rparr>"

lemma replay_created:
  assumes "rs_x s = sample_xstate" and "tid \<notin> tk_id ` set (rs_tasks s)"
  shows "snd (request_create tid ''now'' replay_request s)
    = s\<lparr>rs_tasks := rs_tasks s @ [replay_row tid], rs_jobs := rs_jobs s @ [replay_job tid]\<rparr>"
proof -
  have "create_task tid ''now'' (Some ''2026-01-02-leaf'') ''replay'' (rs_tasks s) = Inr (tid, rs_tasks s @ [replay_row tid])"
    using assms(2) job_action_valid [of J_replay] by (simp add: create_task_def insert_task_def replay_row_def)
  then show ?thesis
    using assms(1) replay_allowed by (simp add: request_create_def replay_request_def start_job_def replay_job_def Let_def)
qed

lemma replays_eq:
  "one_replay = \<lparr>rs_x = sample_xstate, rs_tasks = [replay_row ''t1''], rs_jobs = [replay_job ''t1''],
     rs_requests = [replay_request]\<rparr>"
  "two_replays = \<lparr>rs_x = sample_xstate, rs_tasks = [replay_row ''t1'', replay_row ''t2''],
     rs_jobs = [replay_job ''t1'', replay_job ''t2''], rs_requests = []\<rparr>"
proof -
  show one: "one_replay = \<lparr>rs_x = sample_xstate, rs_tasks = [replay_row ''t1''], rs_jobs = [replay_job ''t1''],
     rs_requests = [replay_request]\<rparr>"
    using replay_created by (simp add: one_replay_def both_checked_def runner_start_def)
  have "''t2'' \<notin> tk_id ` set [replay_row ''t1'']" by (simp add: replay_row_def)
  then show "two_replays = \<lparr>rs_x = sample_xstate, rs_tasks = [replay_row ''t1'', replay_row ''t2''],
     rs_jobs = [replay_job ''t1'', replay_job ''t2''], rs_requests = []\<rparr>"
    using replay_created by (simp add: two_replays_def one)
qed

text \<open>
  replays are not serialised.  The check for an active task and the insert of the new one are two
  statements, so two replays of one artifact that are requested together both start, and the handler
  can run twice at the same time on the same host.
\<close>

theorem replays_not_serialised:
  "\<exists>s. runner_reach sample_runner s \<and> map jb_kind (rs_jobs s) = [J_replay, J_replay]
     \<and> length (filter (live_on ''2026-01-02-leaf'') (rs_tasks s)) = 2"
proof -
  have "runner_step sample_runner both_checked one_replay"
    using created [of replay_request both_checked sample_runner "''t1''" "''now''"]
    by (simp add: one_replay_def both_checked_def)
  moreover have "runner_step sample_runner one_replay two_replays"
    using created [of replay_request one_replay sample_runner "''t2''" "''now''"]
    by (simp add: replays_eq(1) two_replays_def)
  ultimately have reach: "runner_reach sample_runner two_replays"
    by (blast intro: runner_reach.step both_checked_reach)
  have both: "map jb_kind (rs_jobs two_replays) = [J_replay, J_replay]
      \<and> length (filter (live_on ''2026-01-02-leaf'') (rs_tasks two_replays)) = 2"
    unfolding replays_eq(2) by (simp add: replay_row_def replay_job_def live_on_def live_def)
  show ?thesis by (rule exI [of _ two_replays], rule conjI [OF reach both])
qed

section \<open>Waiting for a task\<close>

definition settled :: "task \<Rightarrow> bool" where
  "settled t = (tk_status t = T_succeeded \<or> tk_status t = T_failed)"

text \<open>The polls that are left: at most four before the interval has grown to ten seconds.\<close>

fun ramp :: "nat \<Rightarrow> nat" where
  "ramp i = (if i = 1 then 4 else if i = 2 then 3 else if i = 4 then 2 else if i = 8 then 1 else 0)"

lemma ramp_step:
  assumes "i \<in> {1, 2, 4, 8, 10}" and "0 < a"
  shows "Suc (ramp (min (i * 2) 10)) + (a - i + 9) div 10 \<le> ramp i + (a + 9) div 10"
proof (cases "i = 10")
  case True
  have "Suc ((a - 10 + 9) div 10) \<le> (a + 9) div 10"
  proof (cases "10 \<le> a")
    case True
    then have "a + 9 = (a - 10 + 9) + 10" by linarith
    then show ?thesis using div_add_self2 [of 10 "a - 10 + 9"] by (simp only: numeral_neq_zero not_False_eq_True)
  next
    case False
    then have "a - 10 + 9 = 9" by simp
    then show ?thesis using div_le_mono [of 10 "a + 9" 10] assms(2) by simp
  qed
  then show ?thesis using True by simp
next
  case False
  have "(a - i + 9) div 10 \<le> (a + 9) div 10" by (rule div_le_mono) simp
  moreover have "Suc (ramp (min (i * 2) 10)) = ramp i" using assms(1) False by auto
  ultimately show ?thesis by (metis add_le_cancel_left)
qed

lemma ramp_1: "ramp 1 = 4"
  by simp

declare ramp.simps [simp del]

lemma await_task_bound:
  "await_task snap tid timeout n elapsed i = (r, m) \<Longrightarrow> i \<in> {1, 2, 4, 8, 10} \<Longrightarrow>
     n \<le> m \<and> m \<le> n + ramp i + (timeout - elapsed + 9) div 10
     \<and> (\<forall>t. r = Inr t \<longrightarrow> get_task (snap m) tid = Some t \<and> (settled t \<or> timeout + n * 10 \<le> elapsed + m * 10))
     \<and> (\<forall>k. n \<le> k \<longrightarrow> k < m \<longrightarrow> (\<exists>t. get_task (snap k) tid = Some t \<and> \<not> settled t))"
proof (induction snap tid timeout n elapsed i rule: await_task.induct)
  case (1 snap tid timeout n elapsed i)
  show ?case
  proof (cases "get_task (snap n) tid")
    case None
    then show ?thesis using 1(2) by (auto simp: await_task.simps)
  next
    case (Some t)
    show ?thesis
    proof (cases "timeout \<le> elapsed \<or> settled t")
      case True
      then show ?thesis using 1(2) Some by (auto simp: await_task.simps [of snap tid timeout n] settled_def)
    next
      case False
      then have go: "await_task snap tid timeout (Suc n) (elapsed + i) (min (i * 2) 10) = (r, m)"
        and c: "\<not> (timeout \<le> elapsed \<or> tk_status t = T_succeeded \<or> tk_status t = T_failed \<or> i = 0)"
        using 1(2,3) Some by (auto simp: await_task.simps [of snap tid timeout n] settled_def)
      have next_i: "min (i * 2) 10 \<in> {1, 2, 4, 8, 10}" using 1(3) by auto
      note IH = 1(1) [OF Some c go next_i]
      have b: "Suc n + ramp (min (i * 2) 10) + (timeout - (elapsed + i) + 9) div 10
          \<le> n + ramp i + (timeout - elapsed + 9) div 10"
        using ramp_step [OF 1(3), of "timeout - elapsed"] c by (simp add: diff_diff_left)
      have i: "i \<le> 10" using 1(3) by auto
      have early: "\<exists>t. get_task (snap k) tid = Some t \<and> \<not> settled t" if "n \<le> k" "k < m" for k
        using IH that Some False by (cases "k = n") auto
      have last: "get_task (snap m) tid = Some t \<and> (settled t \<or> timeout + n * 10 \<le> elapsed + m * 10)"
        if "r = Inr t" for t
        using IH that i by fastforce
      have "n \<le> m" and "m \<le> n + ramp i + (timeout - elapsed + 9) div 10" using IH b by linarith+
      then show ?thesis using early last by blast
    qed
  qed
qed

text \<open>
  C31: waiting ends.  \<open>await_task\<close> returns after at most four polls and one per ten seconds of the
  timeout, with the row its last poll saw; it returns a row early only when that is succeeded or failed
  - a cancelled task, though it is over, is waited for until the timeout.
\<close>

theorem await_returns:
  assumes "await_start snap tid timeout = (r, m)"
  shows "m \<le> 4 + (timeout + 9) div 10
    \<and> (\<forall>t. r = Inr t \<longrightarrow> get_task (snap m) tid = Some t \<and> (settled t \<or> timeout \<le> m * 10))
    \<and> (\<forall>k<m. \<exists>t. get_task (snap k) tid = Some t \<and> \<not> settled t)"
  using await_task_bound [OF assms [unfolded await_start_def]] unfolding ramp_1 by auto

theorem await_returns_witness:
  "snd (await_start (\<lambda>_. rs_tasks (snd (cancel_run ''now'' ''t1'' one_task))) ''t1'' 30) \<le> 7"
  using await_returns [OF prod.collapse [symmetric], of "\<lambda>_. rs_tasks (snd (cancel_run ''now'' ''t1'' one_task))" "''t1''" 30]
  by simp

section \<open>The auto-apply reconciler\<close>

lemma apply_single_applied:
  assumes "map_of (xfiles s) i = Some (fm, b)" and "fm_status fm = APPLIED" and "fm_kind fm \<noteq> KB_NOTE" and "id_prefix i"
    and "apply_single xe (Suc n) who i s = (r, s')"
  shows "isl r"
proof -
  have "store_read (xfiles s) i = Inr (fm, b)" using assms(1,4) by (simp add: store_read_Inr)
  then have "\<exists>m. exec_apply xe (Suc n) who i s = (Inl (ExecutorError m), s)" using assms(2,3) by simp
  then obtain m where "exec_apply xe (Suc n) who i s = (Inl (ExecutorError m), s)" ..
  then have "(r, s') = bind_x (catch_x (audit_x xe ''apply_failed'' i who [(''reason'', JStr m)])
      (\<lambda>a. if audit_swallowed a then return_x () else raise_x a)) (\<lambda>_. raise_x (ExecutorError m)) s"
    using assms(5) by (simp add: apply_single_def is_executor_error_def)
  then show ?thesis by (auto simp: bind_x_def raise_x_def split: prod.splits sum.splits)
qed

lemma reconcile_loop_applied:
  assumes "fm_status fm = APPLIED" and "fm_kind fm \<noteq> KB_NOTE" and "id_prefix i"
  shows "reconcile_loop xe (Suc n) is results s = (Inr out, s') \<Longrightarrow> map_of (xfiles s) i = Some (fm, b) \<Longrightarrow>
     set results \<subseteq> set out \<and> (i \<in> set is \<longrightarrow> (i, False) \<in> set out)"
proof (induction "is" arbitrary: results s)
  case (Cons j js)
  obtain r s1 where a: "apply_single xe (Suc n) ''auto-apply'' j s = (r, s1)" by fastforce
  have "by_approval (x_env xe) s s1" using guardedD [OF apply_single_by a] .
  then have kept: "map_of (xfiles s1) i = Some (fm, b)"
    using Cons.prems(2) assms(1) retires_kept by (fastforce simp: by_approval_def)
  have failed: "j = i \<Longrightarrow> isl r" using apply_single_applied [OF Cons.prems(2) assms _] a by blast
  show ?case
  proof (cases r)
    case (Inl e)
    then have "reconcile_loop xe (Suc n) js (results @ [(j, False)]) s1 = (Inr out, s')"
      using Cons.prems(1) a by (auto split: if_splits)
    from Cons.IH [OF this kept] show ?thesis by auto
  next
    case (Inr x)
    then have "reconcile_loop xe (Suc n) js (results @ [(j, ar_success x)]) s1 = (Inr out, s')"
      using Cons.prems(1) a by simp
    from Cons.IH [OF this kept] show ?thesis using failed Inr by auto
  qed
qed simp

text \<open>
  An auto-apply run counts success as failure.  When a composite comes before one of its artifacts in
  the list of approved artifacts, applying it applies that artifact too; the run then tries the artifact
  itself, which is refused because it is applied, and the whole run is reported as failed.
\<close>

theorem auto_apply_misreports:
  assumes "approved_artifacts (xfiles s) = c # rest" and "i \<in> set rest"
    and "apply_single xe (Suc n) ''auto-apply'' c s = (Inr r, s1)"
    and "map_of (xfiles s1) i = Some (fm, b)" and "fm_status fm = APPLIED" and "fm_kind fm \<noteq> KB_NOTE" and "id_prefix i"
    and "reconcile_run xe (Suc n) True s = (Inr rr, s')"
  shows "\<not> rc_success rr"
proof -
  obtain out where out: "reconcile_loop xe (Suc n) rest [(c, ar_success r)] s1 = (Inr out, s')"
    and rr: "rc_success rr = (filter (\<lambda>r. \<not> snd r) out = [])"
    using assms(1,3,8) by (auto simp: reconcile_run_def bind_x_eq)
  have "(i, False) \<in> set out" using reconcile_loop_applied [OF assms(5-7) out assms(4)] assms(2) by blast
  then show ?thesis unfolding rr by (force simp: filter_empty_conv)
qed

end
