(* ===== verification/Agent_Registry.thy ===== *)
theory Agent_Registry
  imports Replay_Guard Composite_Order
begin

text \<open>
  The registry of connected agents: \<^verbatim>\<open>agent_hub/registry.py\<close>.

  The state holds the agents by identifier, the hostname index, the connections that are closed and
  the waiters: one entry per call of \<open>wait_for_result\<close> with the request it waits for and its future.
  A registration makes a new agent object; \<open>ag_obj\<close> is its identity, which a waiter keeps, so that
  its clean-up only touches the object it registered with.  A connection is named by its identifier.
  Persisting and auditing are effects outside the registry and are left out.
\<close>

section \<open>State\<close>

record agent =
  ag_obj :: nat
  ag_host :: string
  ag_info :: dict
  ag_state :: dict
  ag_writer :: "string option"
  ag_conn :: "string option"
  ag_futures :: "(string \<times> nat) list"
  ag_actions :: "(string \<times> string) list"
  ag_echoes :: bool

text \<open>Where a result came from: a frame of the agent (and whether it had declared that it echoes
  actions), or the hub itself.\<close>

datatype origin = Frame bool | Hub_made

datatype future = Waiting | Result dict origin | Failed_with string

record waiter =
  wt_agent :: string
  wt_obj :: nat
  wt_request :: string
  wt_action :: string
  wt_future :: future

record registry =
  rg_agents :: "(string \<times> agent) list"
  rg_hosts :: "(string \<times> string) list"
  rg_closed :: "string list"
  rg_objects :: nat
  rg_waiters :: "waiter list"

definition empty_registry :: registry where
  "empty_registry = \<lparr>rg_agents = [], rg_hosts = [], rg_closed = [], rg_objects = 0, rg_waiters = []\<rparr>"

definition conn_is_live :: "registry \<Rightarrow> agent \<Rightarrow> bool" where
  "conn_is_live rg ag = (case ag_writer ag of None \<Rightarrow> False | Some w \<Rightarrow> w \<notin> set (rg_closed rg))"

section \<open>Registration\<close>

definition host_held :: "registry \<Rightarrow> string \<Rightarrow> string \<Rightarrow> bool" where
  "host_held rg agent_id hostname =
     (case map_of (rg_hosts rg) hostname of
        None \<Rightarrow> False
      | Some holder \<Rightarrow> holder \<noteq> agent_id \<and>
          (case map_of (rg_agents rg) holder of None \<Rightarrow> False | Some ag \<Rightarrow> conn_is_live rg ag))"

definition id_elsewhere :: "registry \<Rightarrow> string \<Rightarrow> string \<Rightarrow> bool" where
  "id_elsewhere rg agent_id hostname =
     (case map_of (rg_agents rg) agent_id of
        None \<Rightarrow> False
      | Some ag \<Rightarrow> ag_host ag \<noteq> hostname \<and> conn_is_live rg ag)"

text \<open>Drop an index entry that points at \<open>agent_id\<close>.\<close>

definition drop_host :: "string \<Rightarrow> string \<Rightarrow> (string \<times> string) list \<Rightarrow> (string \<times> string) list" where
  "drop_host agent_id hostname hosts = (if map_of hosts hostname = Some agent_id then AList.delete hostname hosts else hosts)"

definition register ::
  "string \<Rightarrow> string \<Rightarrow> dict \<Rightarrow> string option \<Rightarrow> string option \<Rightarrow> registry \<Rightarrow> bool \<times> registry" where
  "register agent_id hostname info writer conn rg =
     (if host_held rg agent_id hostname \<or> id_elsewhere rg agent_id hostname then (False, rg)
      else
        let hosts = (case map_of (rg_agents rg) agent_id of
                       None \<Rightarrow> rg_hosts rg
                     | Some ag \<Rightarrow> if ag_host ag \<noteq> hostname then drop_host agent_id (ag_host ag) (rg_hosts rg) else rg_hosts rg);
            ag = \<lparr>ag_obj = rg_objects rg, ag_host = hostname, ag_info = info, ag_state = [], ag_writer = writer,
                  ag_conn = conn, ag_futures = [], ag_actions = [], ag_echoes = False\<rparr>
        in (True, rg\<lparr>rg_agents := AList.update agent_id ag (rg_agents rg),
                     rg_hosts := AList.update hostname agent_id hosts, rg_objects := Suc (rg_objects rg)\<rparr>))"

section \<open>Disconnection\<close>

definition resolve_waiter :: "nat \<Rightarrow> future \<Rightarrow> waiter list \<Rightarrow> waiter list" where
  "resolve_waiter n f ws =
     (if n < length ws \<and> wt_future (ws ! n) = Waiting then ws[n := (ws ! n)\<lparr>wt_future := f\<rparr>] else ws)"

definition disconnect_detail :: "string \<Rightarrow> string option \<Rightarrow> string" where
  "disconnect_detail agent_id reason =
     ''agent '' @ agent_id @ '' disconnected'' @ (case nonempty reason of None \<Rightarrow> [] | Some r \<Rightarrow> '': '' @ r)"

definition unregister :: "string \<Rightarrow> string option \<Rightarrow> string option \<Rightarrow> registry \<Rightarrow> registry" where
  "unregister agent_id conn reason rg =
     (case map_of (rg_agents rg) agent_id of
        None \<Rightarrow> rg
      | Some ag \<Rightarrow>
          (if conn \<noteq> None \<and> ag_conn ag \<noteq> None \<and> ag_conn ag \<noteq> conn then rg
           else rg\<lparr>rg_agents := AList.delete agent_id (rg_agents rg),
                  rg_hosts := drop_host agent_id (ag_host ag) (rg_hosts rg),
                  rg_waiters := foldl (\<lambda>ws (_, n). resolve_waiter n (Failed_with (disconnect_detail agent_id reason)) ws)
                    (rg_waiters rg) (ag_futures ag)\<rparr>))"

definition close_writer :: "string \<Rightarrow> registry \<Rightarrow> registry" where
  "close_writer w rg = rg\<lparr>rg_closed := w # rg_closed rg\<rparr>"

definition disconnect :: "string \<Rightarrow> string \<Rightarrow> registry \<Rightarrow> bool \<times> registry" where
  "disconnect agent_id reason rg =
     (case map_of (rg_agents rg) agent_id of
        None \<Rightarrow> (False, rg)
      | Some ag \<Rightarrow>
          (let rg' = unregister agent_id None (Some reason) rg in
           case ag_writer ag of
             None \<Rightarrow> (False, rg')
           | Some w \<Rightarrow> if conn_is_live rg ag then (True, close_writer w rg') else (False, rg')))"

section \<open>Queries\<close>

definition get_agent :: "registry \<Rightarrow> string \<Rightarrow> agent option" where
  "get_agent rg agent_id = map_of (rg_agents rg) agent_id"

definition get_by_hostname :: "registry \<Rightarrow> string \<Rightarrow> agent option" where
  "get_by_hostname rg hostname =
     (case map_of (rg_hosts rg) hostname of
        None \<Rightarrow> None
      | Some agent_id \<Rightarrow> if agent_id = [] then None else map_of (rg_agents rg) agent_id)"

definition is_connected :: "registry \<Rightarrow> string \<Rightarrow> bool" where
  "is_connected rg hostname = (map_of (rg_hosts rg) hostname \<noteq> None)"

definition on_agent :: "string \<Rightarrow> (agent \<Rightarrow> agent) \<Rightarrow> registry \<Rightarrow> registry" where
  "on_agent agent_id f rg =
     (case map_of (rg_agents rg) agent_id of
        None \<Rightarrow> rg
      | Some ag \<Rightarrow> rg\<lparr>rg_agents := AList.update agent_id (f ag) (rg_agents rg)\<rparr>)"

definition update_state :: "string \<Rightarrow> dict \<Rightarrow> registry \<Rightarrow> registry" where
  "update_state agent_id new =
     on_agent agent_id (\<lambda>ag. ag\<lparr>ag_state := foldl (\<lambda>st (k, v). AList.update k v st) (ag_state ag) new\<rparr>)"

section \<open>Results\<close>

text \<open>\<open>str(msg.get("for_action") or "")\<close>.\<close>

definition echoed_action :: "dict \<Rightarrow> string" where
  "echoed_action msg = str_or_empty (dget ''for_action'' msg)"

definition answers :: "agent \<Rightarrow> string \<Rightarrow> dict \<Rightarrow> bool" where
  "answers ag request_id msg =
     (case map_of (ag_actions ag) request_id of
        None \<Rightarrow> True
      | Some issued \<Rightarrow> issued = [] \<or> echoed_action msg = issued \<or> (echoed_action msg = [] \<and> \<not> ag_echoes ag))"

definition forget_request :: "string \<Rightarrow> agent \<Rightarrow> agent" where
  "forget_request request_id ag =
     ag\<lparr>ag_futures := AList.delete request_id (ag_futures ag), ag_actions := AList.delete request_id (ag_actions ag)\<rparr>"

definition deliver :: "string \<Rightarrow> agent \<Rightarrow> string \<Rightarrow> future \<Rightarrow> registry \<Rightarrow> registry" where
  "deliver agent_id ag request_id f rg =
     rg\<lparr>rg_agents := AList.update agent_id (forget_request request_id ag) (rg_agents rg),
        rg_waiters := (case map_of (ag_futures ag) request_id of
                         None \<Rightarrow> rg_waiters rg
                       | Some n \<Rightarrow> resolve_waiter n f (rg_waiters rg))\<rparr>"

text \<open>A request identifier that cannot be a key of a dict raises; any other that is no string is not
  among the pending ones.\<close>

definition store_command_result :: "string \<Rightarrow> dict \<Rightarrow> bool \<Rightarrow> registry \<Rightarrow> registry res" where
  "store_command_result agent_id msg verify_action rg =
     (case map_of (rg_agents rg) agent_id of
        None \<Rightarrow> Inr rg
      | Some ag \<Rightarrow>
          (let rq = dget_or ''request_id'' (JStr []) msg in
           if \<not> truthy rq then Inr rg
           else case rq of
             JStr request_id \<Rightarrow>
               (if verify_action \<and> \<not> answers ag request_id msg then Inr rg
                else Inr (deliver agent_id ag request_id
                       (Result msg (if verify_action then Frame (ag_echoes ag) else Hub_made)) rg))
           | _ \<Rightarrow> (if hash_key rq = None then Inl (TypeError ''unhashable type'') else Inr rg)))"

definition wait_for_result :: "string \<Rightarrow> string \<Rightarrow> string \<Rightarrow> registry \<Rightarrow> nat res \<times> registry" where
  "wait_for_result agent_id request_id action rg =
     (case map_of (rg_agents rg) agent_id of
        None \<Rightarrow> (Inl (ConnectionError (''agent '' @ agent_id @ '' not connected'')), rg)
      | Some ag \<Rightarrow>
          (let n = length (rg_waiters rg);
               w = \<lparr>wt_agent = agent_id, wt_obj = ag_obj ag, wt_request = request_id, wt_action = action, wt_future = Waiting\<rparr>;
               ag' = ag\<lparr>ag_futures := AList.update request_id n (ag_futures ag),
                        ag_actions := (if action = [] then ag_actions ag else AList.update request_id action (ag_actions ag))\<rparr>
           in (Inr n, rg\<lparr>rg_agents := AList.update agent_id ag' (rg_agents rg), rg_waiters := rg_waiters rg @ [w]\<rparr>)))"

text \<open>The \<open>finally\<close> of the waiting call, after its result, its error or its timeout.\<close>

definition end_wait :: "waiter \<Rightarrow> registry \<Rightarrow> registry" where
  "end_wait w rg =
     (case map_of (rg_agents rg) (wt_agent w) of
        None \<Rightarrow> rg
      | Some ag \<Rightarrow>
          (if ag_obj ag = wt_obj w
           then rg\<lparr>rg_agents := AList.update (wt_agent w) (forget_request (wt_request w) ag) (rg_agents rg)\<rparr>
           else rg))"

section \<open>Steps\<close>

text \<open>
  What the hub does with its registry.  A request identifier is a fresh UUID, and the flag of the
  echo is set when the agent registers.
\<close>

inductive registry_step :: "registry \<Rightarrow> registry \<Rightarrow> bool" where
  registered: "registry_step rg (snd (register agent_id hostname info writer conn rg))"
| echo_declared: "registry_step rg (on_agent agent_id (\<lambda>ag. ag\<lparr>ag_echoes := e\<rparr>) rg)"
| unregistered: "registry_step rg (unregister agent_id conn reason rg)"
| disconnected: "registry_step rg (snd (disconnect agent_id reason rg))"
| closed: "registry_step rg (close_writer w rg)"
| stated: "registry_step rg (update_state agent_id new rg)"
| result_frame: "store_command_result agent_id msg True rg = Inr rg' \<Longrightarrow> registry_step rg rg'"
| result_made: "store_command_result agent_id msg False rg = Inr rg' \<Longrightarrow> registry_step rg rg'"
| waited: "request_id \<notin> wt_request ` set (rg_waiters rg) \<Longrightarrow>
    registry_step rg (snd (wait_for_result agent_id request_id action rg))"
| wait_ended: "w \<in> set (rg_waiters rg) \<Longrightarrow> registry_step rg (end_wait w rg)"

inductive registry_reach :: "registry \<Rightarrow> bool" where
  start: "registry_reach empty_registry"
| step: "registry_reach rg \<Longrightarrow> registry_step rg rg' \<Longrightarrow> registry_reach rg'"

end
