(* ===== verification/Registry_Properties.thy ===== *)
theory Registry_Properties
  imports Agent_Registry
begin

text \<open>The invariant of the agent registry and its properties.\<close>

section \<open>The invariant\<close>

text \<open>The hostname index points at registered agents of that name, and every live agent is indexed.\<close>

definition hosts_ok :: "registry \<Rightarrow> bool" where
  "hosts_ok rg =
     ((\<forall>h a. map_of (rg_hosts rg) h = Some a \<longrightarrow> (\<exists>ag. map_of (rg_agents rg) a = Some ag \<and> ag_host ag = h))
      \<and> (\<forall>a ag. map_of (rg_agents rg) a = Some ag \<longrightarrow> conn_is_live rg ag \<longrightarrow> map_of (rg_hosts rg) (ag_host ag) = Some a))"

definition linked :: "waiter list \<Rightarrow> string \<Rightarrow> agent \<Rightarrow> bool" where
  "linked ws a ag =
     (\<forall>r n. map_of (ag_futures ag) r = Some n \<longrightarrow>
        n < length ws \<and> wt_agent (ws ! n) = a \<and> wt_request (ws ! n) = r
        \<and> map_of (ag_actions ag) r = (if wt_action (ws ! n) = [] then None else Some (wt_action (ws ! n))))"

definition known_actions :: "waiter list \<Rightarrow> agent \<Rightarrow> bool" where
  "known_actions ws ag = (\<forall>r. map_of (ag_actions ag) r \<noteq> None \<longrightarrow> r \<in> wt_request ` set ws)"

definition pending_ok :: "registry \<Rightarrow> bool" where
  "pending_ok rg = (\<forall>a ag. map_of (rg_agents rg) a = Some ag \<longrightarrow>
     linked (rg_waiters rg) a ag \<and> known_actions (rg_waiters rg) ag)"

definition answered :: "waiter \<Rightarrow> bool" where
  "answered w =
     (case wt_future w of
        Result msg org \<Rightarrow>
          dget ''request_id'' msg = JStr (wt_request w) \<and>
          (case org of
             Hub_made \<Rightarrow> True
           | Frame echoes \<Rightarrow> wt_action w = [] \<or> echoed_action msg = wt_action w \<or> (echoed_action msg = [] \<and> \<not> echoes))
      | _ \<Rightarrow> True)"

definition registry_inv :: "registry \<Rightarrow> bool" where
  "registry_inv rg = (hosts_ok rg \<and> pending_ok rg \<and> (\<forall>w\<in>set (rg_waiters rg). answered w))"

lemma hosts_okI:
  "(\<And>h a. map_of (rg_hosts rg) h = Some a \<Longrightarrow> \<exists>ag. map_of (rg_agents rg) a = Some ag \<and> ag_host ag = h) \<Longrightarrow>
   (\<And>a ag. map_of (rg_agents rg) a = Some ag \<Longrightarrow> conn_is_live rg ag \<Longrightarrow> map_of (rg_hosts rg) (ag_host ag) = Some a) \<Longrightarrow>
   hosts_ok rg"
  unfolding hosts_ok_def by blast

lemma hosts_okD:
  "hosts_ok rg \<Longrightarrow> map_of (rg_hosts rg) h = Some a \<Longrightarrow> \<exists>ag. map_of (rg_agents rg) a = Some ag \<and> ag_host ag = h"
  "hosts_ok rg \<Longrightarrow> map_of (rg_agents rg) a = Some ag \<Longrightarrow> conn_is_live rg ag \<Longrightarrow> map_of (rg_hosts rg) (ag_host ag) = Some a"
  unfolding hosts_ok_def by blast+

section \<open>Waiters\<close>

definition same_request :: "waiter list \<Rightarrow> waiter list \<Rightarrow> bool" where
  "same_request ws ws' = (map (\<lambda>w. w\<lparr>wt_future := Waiting\<rparr>) ws' = map (\<lambda>w. w\<lparr>wt_future := Waiting\<rparr>) ws)"

lemma same_requestD:
  assumes "same_request ws ws'"
  shows "length ws' = length ws" and "wt_request ` set ws' = wt_request ` set ws"
    and "n < length ws \<Longrightarrow> wt_agent (ws' ! n) = wt_agent (ws ! n) \<and> wt_request (ws' ! n) = wt_request (ws ! n)
      \<and> wt_action (ws' ! n) = wt_action (ws ! n)"
proof -
  have e: "map (\<lambda>w. w\<lparr>wt_future := Waiting\<rparr>) ws' = map (\<lambda>w. w\<lparr>wt_future := Waiting\<rparr>) ws"
    using assms by (simp add: same_request_def)
  show l: "length ws' = length ws" using arg_cong [OF e, of length] by simp
  show "wt_request ` set ws' = wt_request ` set ws"
    using arg_cong [OF e, of "\<lambda>xs. wt_request ` set xs"] by (simp add: image_image)
  assume n: "n < length ws"
  have "(ws' ! n)\<lparr>wt_future := Waiting\<rparr> = (ws ! n)\<lparr>wt_future := Waiting\<rparr>"
    using arg_cong [OF e, of "\<lambda>xs. xs ! n"] n l by simp
  then show "wt_agent (ws' ! n) = wt_agent (ws ! n) \<and> wt_request (ws' ! n) = wt_request (ws ! n)
      \<and> wt_action (ws' ! n) = wt_action (ws ! n)"
    by (metis waiter.ext_inject waiter.surjective waiter.update_convs(5))
qed

lemma same_request_refl [simp]: "same_request ws ws"
  by (simp add: same_request_def)

lemma same_request_trans: "same_request ws ws1 \<Longrightarrow> same_request ws1 ws2 \<Longrightarrow> same_request ws ws2"
  by (simp add: same_request_def)

lemma same_request_resolve: "same_request ws (resolve_waiter n f ws)"
  by (auto simp: same_request_def resolve_waiter_def map_update intro!: nth_equalityI simp: nth_list_update)

lemma same_request_foldl:
  "same_request ws (foldl (\<lambda>ws (x, n). resolve_waiter n f ws) ws ps)"
proof (induction ps arbitrary: ws)
  case (Cons p ps)
  then show ?case using same_request_trans [OF same_request_resolve Cons] by (cases p) simp
qed simp

lemma answered_resolve:
  assumes "\<forall>w\<in>set ws. answered w" and "n < length ws \<Longrightarrow> wt_future (ws ! n) = Waiting \<Longrightarrow> answered ((ws ! n)\<lparr>wt_future := f\<rparr>)"
  shows "\<forall>w\<in>set (resolve_waiter n f ws). answered w"
proof
  fix w assume w: "w \<in> set (resolve_waiter n f ws)"
  show "answered w"
  proof (cases "n < length ws \<and> wt_future (ws ! n) = Waiting")
    case True
    then have "w = (ws ! n)\<lparr>wt_future := f\<rparr> \<or> w \<in> set ws"
      using w set_update_subset_insert [of ws n] by (auto simp: resolve_waiter_def)
    then show ?thesis using assms True by blast
  next
    case False
    then have "resolve_waiter n f ws = ws" by (auto simp: resolve_waiter_def)
    then show ?thesis using assms(1) w by simp
  qed
qed

lemma answered_foldl:
  "\<forall>w\<in>set ws. answered w \<Longrightarrow> \<forall>w\<in>set (foldl (\<lambda>ws (x, n). resolve_waiter n (Failed_with d) ws) ws ps). answered w"
proof (induction ps arbitrary: ws)
  case (Cons p ps)
  have "\<forall>w\<in>set (resolve_waiter (snd p) (Failed_with d) ws). answered w"
    by (rule answered_resolve [OF Cons.prems]) (simp add: answered_def)
  then show ?case using Cons.IH by (cases p) simp
qed simp

lemma linked_same:
  assumes "same_request ws ws'"
  shows "linked ws a ag \<Longrightarrow> linked ws' a ag" and "known_actions ws ag \<Longrightarrow> known_actions ws' ag"
  using same_requestD [OF assms] by (simp_all add: linked_def known_actions_def)

lemma linked_append:
  "linked ws a ag \<Longrightarrow> linked (ws @ [w]) a ag" "known_actions ws ag \<Longrightarrow> known_actions (ws @ [w]) ag"
  by (auto simp: linked_def known_actions_def nth_append less_Suc_eq)

lemma linked_forget: "linked ws a ag \<Longrightarrow> linked ws a (forget_request r ag)"
  "known_actions ws ag \<Longrightarrow> known_actions ws (forget_request r ag)"
  by (auto simp: linked_def known_actions_def forget_request_def)

section \<open>The hostname index\<close>

lemma map_of_drop_host: "map_of (drop_host a h hosts) = (if map_of hosts h = Some a then (map_of hosts)(h := None) else map_of hosts)"
  by (simp add: drop_host_def)

lemma conn_is_live_simps [simp]:
  "conn_is_live (rg\<lparr>rg_agents := x\<rparr>) ag = conn_is_live rg ag"
  "conn_is_live (rg\<lparr>rg_hosts := y\<rparr>) ag = conn_is_live rg ag"
  "conn_is_live (rg\<lparr>rg_waiters := ws\<rparr>) ag = conn_is_live rg ag"
  "conn_is_live (rg\<lparr>rg_objects := n\<rparr>) ag = conn_is_live rg ag"
  by (simp_all add: conn_is_live_def split: option.split)

lemma conn_is_live_cong: "ag_writer ag' = ag_writer ag \<Longrightarrow> conn_is_live rg ag' = conn_is_live rg ag"
  by (simp add: conn_is_live_def)

text \<open>One agent changes, keeping its host and its connection.\<close>

lemma hosts_update_agent:
  assumes "hosts_ok rg" and "map_of (rg_agents rg) a = Some ag" and "ag_host ag' = ag_host ag" and "ag_writer ag' = ag_writer ag"
  shows "hosts_ok (rg\<lparr>rg_agents := AList.update a ag' (rg_agents rg), rg_waiters := ws\<rparr>)"
proof (rule hosts_okI)
  fix h b assume "map_of (rg_hosts (rg\<lparr>rg_agents := AList.update a ag' (rg_agents rg), rg_waiters := ws\<rparr>)) h = Some b"
  then show "\<exists>x. map_of (rg_agents (rg\<lparr>rg_agents := AList.update a ag' (rg_agents rg), rg_waiters := ws\<rparr>)) b = Some x \<and> ag_host x = h"
    using hosts_okD(1) [OF assms(1), of h b] assms(2,3) by auto
next
  fix b x
  assume "map_of (rg_agents (rg\<lparr>rg_agents := AList.update a ag' (rg_agents rg), rg_waiters := ws\<rparr>)) b = Some x"
    and l: "conn_is_live (rg\<lparr>rg_agents := AList.update a ag' (rg_agents rg), rg_waiters := ws\<rparr>) x"
  then have "b = a \<and> x = ag' \<or> map_of (rg_agents rg) b = Some x" by (auto split: if_splits)
  then show "map_of (rg_hosts (rg\<lparr>rg_agents := AList.update a ag' (rg_agents rg), rg_waiters := ws\<rparr>)) (ag_host x) = Some b"
    using hosts_okD(2) [OF assms(1)] assms(2,3) conn_is_live_cong [OF assms(4)] l by auto
qed

lemma hosts_register:
  assumes "hosts_ok rg"
  shows "hosts_ok (snd (register a h info w c rg))"
proof (cases "host_held rg a h \<or> id_elsewhere rg a h")
  case True
  then show ?thesis using assms by (simp add: register_def)
next
  case False
  define hosts where "hosts = (case map_of (rg_agents rg) a of None \<Rightarrow> rg_hosts rg
      | Some ag \<Rightarrow> if ag_host ag \<noteq> h then drop_host a (ag_host ag) (rg_hosts rg) else rg_hosts rg)"
  define new where "new = \<lparr>ag_obj = rg_objects rg, ag_host = h, ag_info = info, ag_state = [], ag_writer = w, ag_conn = c,
      ag_futures = [], ag_actions = [], ag_echoes = False\<rparr>"
  have r: "snd (register a h info w c rg) = rg\<lparr>rg_agents := AList.update a new (rg_agents rg),
      rg_hosts := AList.update h a hosts, rg_objects := Suc (rg_objects rg)\<rparr>"
    using False by (simp add: register_def hosts_def new_def Let_def)
  have keep: "map_of hosts k = map_of (rg_hosts rg) k" if "map_of (rg_hosts rg) k \<noteq> Some a" for k
    using that by (auto simp: hosts_def map_of_drop_host split: option.splits)
  have mine: "map_of hosts k = Some a \<Longrightarrow> k = h" for k
    using assms by (fastforce simp: hosts_def map_of_drop_host hosts_ok_def split: option.splits if_splits)
  have sub: "map_of hosts k = Some b \<Longrightarrow> map_of (rg_hosts rg) k = Some b" for k b
    by (auto simp: hosts_def map_of_drop_host split: option.splits if_splits)
  have index: "\<exists>ag. map_of ((AList.update a new (rg_agents rg))) b = Some ag \<and> ag_host ag = k"
    if "map_of (AList.update h a hosts) k = Some b" for k b
  proof (cases "k = h")
    case True
    then show ?thesis using that by (simp add: new_def)
  next
    case False
    then have m: "map_of hosts k = Some b" using that by simp
    then have "b \<noteq> a" using mine False by blast
    then show ?thesis using sub [OF m] assms by (auto simp: hosts_ok_def)
  qed
  have live: "map_of (AList.update h a hosts) (ag_host ag) = Some b"
    if b: "map_of (AList.update a new (rg_agents rg)) b = Some ag" and l: "conn_is_live rg ag" for b ag
  proof (cases "b = a")
    case True
    then show ?thesis using b by (auto simp: new_def)
  next
    case other: False
    then have bm: "map_of (rg_agents rg) b = Some ag" using b by simp
    then have i: "map_of (rg_hosts rg) (ag_host ag) = Some b" using assms l by (simp add: hosts_ok_def)
    have "ag_host ag \<noteq> h" using False other i bm l by (auto simp: host_held_def)
    then show ?thesis using keep [of "ag_host ag"] i other by simp
  qed
  show ?thesis unfolding r hosts_ok_def using index live by simp
qed

lemma hosts_unregister:
  assumes "hosts_ok rg"
  shows "hosts_ok (unregister a c why rg)"
proof (cases "map_of (rg_agents rg) a")
  case None
  then show ?thesis using assms by (simp add: unregister_def)
next
  case (Some ag)
  let ?hosts = "drop_host a (ag_host ag) (rg_hosts rg)"
  have index: "\<exists>ag. map_of (AList.delete a (rg_agents rg)) b = Some ag \<and> ag_host ag = k" if "map_of ?hosts k = Some b" for k b
  proof -
    have m: "map_of (rg_hosts rg) k = Some b" using that by (auto simp: map_of_drop_host split: if_splits)
    then obtain bg where bg: "map_of (rg_agents rg) b = Some bg" "ag_host bg = k" using assms by (auto simp: hosts_ok_def)
    have "b \<noteq> a" using that m bg Some by (auto simp: map_of_drop_host split: if_splits)
    then show ?thesis using bg by simp
  qed
  have live: "map_of ?hosts (ag_host bg) = Some b" if "map_of (AList.delete a (rg_agents rg)) b = Some bg" "conn_is_live rg bg" for b bg
  proof -
    have "b \<noteq> a" "map_of (rg_agents rg) b = Some bg" using that(1) by (auto split: if_splits)
    then show ?thesis using hosts_okD(2) [OF assms, of b bg] that(2) by (auto simp: map_of_drop_host)
  qed
  have "hosts_ok (rg\<lparr>rg_agents := AList.delete a (rg_agents rg), rg_hosts := ?hosts, rg_waiters := ws\<rparr>)" for ws
    unfolding hosts_ok_def using index live by simp
  then show ?thesis using Some assms by (simp add: unregister_def)
qed

lemma hosts_close: "hosts_ok rg \<Longrightarrow> hosts_ok (close_writer w rg)"
  by (auto simp: hosts_ok_def close_writer_def conn_is_live_def split: option.splits)

section \<open>Preservation\<close>

lemma inv_register:
  assumes "registry_inv rg"
  shows "registry_inv (snd (register a h info w c rg))"
proof -
  have "pending_ok (snd (register a h info w c rg)) \<and> rg_waiters (snd (register a h info w c rg)) = rg_waiters rg"
    using assms
    by (auto simp: registry_inv_def register_def pending_ok_def linked_def known_actions_def Let_def split: if_splits)
  then show ?thesis using assms hosts_register by (simp add: registry_inv_def)
qed

lemma inv_unregister:
  assumes "registry_inv rg"
  shows "registry_inv (unregister a c why rg)"
proof (cases "map_of (rg_agents rg) a")
  case None
  then show ?thesis using assms by (simp add: unregister_def)
next
  case (Some ag)
  let ?ws = "foldl (\<lambda>ws (x, n). resolve_waiter n (Failed_with (disconnect_detail a why)) ws) (rg_waiters rg) (ag_futures ag)"
  have "\<forall>w\<in>set ?ws. answered w" by (rule answered_foldl) (use assms in \<open>simp add: registry_inv_def\<close>)
  moreover have "pending_ok (rg\<lparr>rg_agents := AList.delete a (rg_agents rg),
      rg_hosts := drop_host a (ag_host ag) (rg_hosts rg), rg_waiters := ?ws\<rparr>)"
    using assms linked_same [OF same_request_foldl [of "rg_waiters rg" "Failed_with (disconnect_detail a why)" "ag_futures ag"]]
    by (auto simp: registry_inv_def pending_ok_def)
  ultimately show ?thesis
    using assms hosts_unregister [of rg a c why] Some by (auto simp: registry_inv_def unregister_def split: if_splits)
qed

text \<open>An agent changes without a change of its host, its connection or its requests.\<close>

lemma inv_on_agent:
  assumes "registry_inv rg"
    and "\<And>ag. ag_host (f ag) = ag_host ag \<and> ag_writer (f ag) = ag_writer ag \<and> ag_futures (f ag) = ag_futures ag
      \<and> ag_actions (f ag) = ag_actions ag"
  shows "registry_inv (on_agent a f rg)"
proof (cases "map_of (rg_agents rg) a")
  case None
  then show ?thesis using assms by (simp add: on_agent_def)
next
  case (Some ag)
  have "hosts_ok (rg\<lparr>rg_agents := AList.update a (f ag) (rg_agents rg), rg_waiters := rg_waiters rg\<rparr>)"
    by (rule hosts_update_agent) (use assms Some in \<open>auto simp: registry_inv_def\<close>)
  moreover have "pending_ok (rg\<lparr>rg_agents := AList.update a (f ag) (rg_agents rg)\<rparr>)"
    using assms Some by (auto simp: registry_inv_def pending_ok_def linked_def known_actions_def)
  ultimately show ?thesis using assms(1) Some by (simp add: registry_inv_def on_agent_def)
qed

lemma inv_deliver:
  assumes "registry_inv rg" and ag: "map_of (rg_agents rg) a = Some ag"
    and ok: "\<And>n. map_of (ag_futures ag) r = Some n \<Longrightarrow> answered ((rg_waiters rg ! n)\<lparr>wt_future := f\<rparr>)"
  shows "registry_inv (deliver a ag r f rg)"
proof -
  define ws where "ws = (case map_of (ag_futures ag) r of None \<Rightarrow> rg_waiters rg | Some n \<Rightarrow> resolve_waiter n f (rg_waiters rg))"
  have same: "same_request (rg_waiters rg) ws" by (simp add: ws_def same_request_resolve split: option.split)
  have "\<forall>w\<in>set ws. answered w"
  proof (cases "map_of (ag_futures ag) r")
    case (Some n)
    then show ?thesis
      using answered_resolve [of "rg_waiters rg" n f] ok [OF Some] assms(1) by (simp add: ws_def registry_inv_def)
  qed (use assms(1) in \<open>simp add: ws_def registry_inv_def\<close>)
  moreover have "hosts_ok (rg\<lparr>rg_agents := AList.update a (forget_request r ag) (rg_agents rg), rg_waiters := ws\<rparr>)"
    by (rule hosts_update_agent) (use assms(1) ag in \<open>auto simp: registry_inv_def forget_request_def\<close>)
  moreover have "pending_ok (rg\<lparr>rg_agents := AList.update a (forget_request r ag) (rg_agents rg), rg_waiters := ws\<rparr>)"
    using assms(1) ag linked_same [OF same] linked_forget
    by (auto simp: registry_inv_def pending_ok_def)
  ultimately show ?thesis by (simp add: registry_inv_def deliver_def ws_def)
qed

lemma inv_result:
  assumes "registry_inv rg" and "store_command_result a msg v rg = Inr rg'"
  shows "registry_inv rg'"
proof (cases "rg' = rg")
  case False
  then obtain ag r where ag: "map_of (rg_agents rg) a = Some ag" and r: "dget ''request_id'' msg = JStr r"
    and v: "\<not> (v \<and> \<not> answers ag r msg)"
    and rg': "rg' = deliver a ag r (Result msg (if v then Frame (ag_echoes ag) else Hub_made)) rg"
    using assms(2)
    by (auto simp: store_command_result_def Let_def dget_or_def dget_def split: option.splits if_splits jval.splits)
  show ?thesis
    unfolding rg'
  proof (rule inv_deliver [OF assms(1) ag])
    fix n assume n: "map_of (ag_futures ag) r = Some n"
    then have l: "wt_request (rg_waiters rg ! n) = r"
      "map_of (ag_actions ag) r = (if wt_action (rg_waiters rg ! n) = [] then None else Some (wt_action (rg_waiters rg ! n)))"
      using assms(1) ag by (auto simp: registry_inv_def pending_ok_def linked_def)
    then show "answered ((rg_waiters rg ! n)\<lparr>wt_future := Result msg (if v then Frame (ag_echoes ag) else Hub_made)\<rparr>)"
      using v r by (auto simp: answered_def answers_def split: if_splits)
  qed
qed (use assms in simp)

lemma inv_wait:
  assumes "registry_inv rg" and fresh: "r \<notin> wt_request ` set (rg_waiters rg)"
  shows "registry_inv (snd (wait_for_result a r act rg))"
proof (cases "map_of (rg_agents rg) a")
  case None
  then show ?thesis using assms by (simp add: wait_for_result_def)
next
  case (Some ag)
  let ?w = "\<lparr>wt_agent = a, wt_obj = ag_obj ag, wt_request = r, wt_action = act, wt_future = Waiting\<rparr>"
  let ?ws = "rg_waiters rg @ [?w]"
  let ?ag = "ag\<lparr>ag_futures := AList.update r (length (rg_waiters rg)) (ag_futures ag),
    ag_actions := (if act = [] then ag_actions ag else AList.update r act (ag_actions ag))\<rparr>"
  have l: "linked (rg_waiters rg) a ag" "known_actions (rg_waiters rg) ag"
    using assms(1) Some by (auto simp: registry_inv_def pending_ok_def)
  have none: "map_of (ag_actions ag) r = None" using l(2) fresh by (auto simp: known_actions_def)
  have "linked ?ws a ?ag" using linked_append(1) [OF l(1), of ?w] none by (auto simp: linked_def)
  moreover have "known_actions ?ws ?ag" using linked_append(2) [OF l(2), of ?w] by (auto simp: known_actions_def)
  ultimately have "pending_ok (rg\<lparr>rg_agents := AList.update a ?ag (rg_agents rg), rg_waiters := ?ws\<rparr>)"
    using assms(1) linked_append by (auto simp: registry_inv_def pending_ok_def)
  moreover have "hosts_ok (rg\<lparr>rg_agents := AList.update a ?ag (rg_agents rg), rg_waiters := ?ws\<rparr>)"
    by (rule hosts_update_agent) (use assms(1) Some in \<open>auto simp: registry_inv_def\<close>)
  moreover have "\<forall>w\<in>set ?ws. answered w" using assms(1) by (auto simp: registry_inv_def answered_def)
  ultimately show ?thesis using Some by (simp add: registry_inv_def wait_for_result_def Let_def)
qed

lemma inv_end_wait:
  assumes "registry_inv rg"
  shows "registry_inv (end_wait w rg)"
proof (cases "map_of (rg_agents rg) (wt_agent w)")
  case (Some ag)
  have "hosts_ok (rg\<lparr>rg_agents := AList.update (wt_agent w) (forget_request (wt_request w) ag) (rg_agents rg),
      rg_waiters := rg_waiters rg\<rparr>)"
    by (rule hosts_update_agent) (use assms Some in \<open>auto simp: registry_inv_def forget_request_def\<close>)
  moreover have "pending_ok (rg\<lparr>rg_agents := AList.update (wt_agent w) (forget_request (wt_request w) ag) (rg_agents rg)\<rparr>)"
    using assms Some linked_forget by (auto simp: registry_inv_def pending_ok_def)
  ultimately show ?thesis using assms Some by (simp add: registry_inv_def end_wait_def)
qed (use assms in \<open>simp add: end_wait_def\<close>)

lemma inv_close: "registry_inv rg \<Longrightarrow> registry_inv (close_writer w rg)"
  using hosts_close [of rg w] by (simp add: registry_inv_def pending_ok_def close_writer_def)

lemma inv_disconnect: "registry_inv rg \<Longrightarrow> registry_inv (snd (disconnect a why rg))"
  using inv_unregister [of rg a None "Some why"] inv_close
  by (auto simp: disconnect_def Let_def split: option.splits)

lemma inv_step: "registry_step rg rg' \<Longrightarrow> registry_inv rg \<Longrightarrow> registry_inv rg'"
  by (induction rule: registry_step.induct)
    (auto intro: inv_register inv_on_agent inv_unregister inv_disconnect inv_close inv_result inv_wait inv_end_wait
      simp: update_state_def)

lemma inv_reach: "registry_reach rg \<Longrightarrow> registry_inv rg"
proof (induction rule: registry_reach.induct)
  case start
  then show ?case by (simp add: registry_inv_def hosts_ok_def pending_ok_def empty_registry_def)
qed (rule inv_step)

section \<open>Properties\<close>

text \<open>
  C32: one live connection per name.  In every reachable registry no two live agents share a hostname,
  a live agent is the one its hostname finds, the index holds only registered agents of that name, and
  the end of a connection never removes an agent that has registered again on another one.
\<close>

theorem one_live_connection:
  assumes "registry_reach rg"
  shows "(\<forall>a b x y. map_of (rg_agents rg) a = Some x \<longrightarrow> map_of (rg_agents rg) b = Some y \<longrightarrow> conn_is_live rg x \<longrightarrow>
        conn_is_live rg y \<longrightarrow> ag_host x = ag_host y \<longrightarrow> a = b)
    \<and> (\<forall>a x. map_of (rg_agents rg) a = Some x \<longrightarrow> conn_is_live rg x \<longrightarrow> a \<noteq> [] \<longrightarrow> get_by_hostname rg (ag_host x) = Some x)
    \<and> (\<forall>h a. map_of (rg_hosts rg) h = Some a \<longrightarrow> (\<exists>x. map_of (rg_agents rg) a = Some x \<and> ag_host x = h))
    \<and> (\<forall>a x c c'. map_of (rg_agents rg) a = Some x \<longrightarrow> ag_conn x = Some c \<longrightarrow> c' \<noteq> c \<longrightarrow>
        unregister a (Some c') why rg = rg)"
proof -
  have h: "hosts_ok rg" using inv_reach [OF assms] by (simp add: registry_inv_def)
  have "a = b" if "map_of (rg_agents rg) a = Some x" "map_of (rg_agents rg) b = Some y" "conn_is_live rg x" "conn_is_live rg y"
    "ag_host x = ag_host y" for a b x y
    using hosts_okD(2) [OF h that(1,3)] hosts_okD(2) [OF h that(2,4)] that(5) by simp
  moreover have "get_by_hostname rg (ag_host x) = Some x"
    if "map_of (rg_agents rg) a = Some x" "conn_is_live rg x" "a \<noteq> []" for a x
    using hosts_okD(2) [OF h that(1,2)] that by (simp add: get_by_hostname_def)
  ultimately show ?thesis using hosts_okD(1) [OF h] by (auto simp: unregister_def)
qed

text \<open>
  a result answers the request it is delivered for.  In every reachable registry, a waiter that has a
  result has one that carries its own request identifier and, unless the hub made it, names the action
  the request was issued as - or names none, from an agent that never declared that it echoes actions.
\<close>

theorem results_answer_requests:
  assumes "registry_reach rg" and "w \<in> set (rg_waiters rg)" and "wt_future w = Result msg org"
  shows "dget ''request_id'' msg = JStr (wt_request w)
    \<and> (\<forall>echoes. org = Frame echoes \<longrightarrow> wt_action w \<noteq> [] \<longrightarrow>
        echoed_action msg = wt_action w \<or> (echoed_action msg = [] \<and> \<not> echoes))"
  using inv_reach [OF assms(1)] assms(2,3) by (auto simp: registry_inv_def answered_def)

definition before_reconnect :: registry where
  "before_reconnect =
     snd (wait_for_result ''a1'' ''r1'' ''exec'' (snd (register ''a1'' ''web'' [] (Some ''c1'') (Some ''c1'') empty_registry)))"

definition after_reconnect :: registry where
  "after_reconnect = unregister ''a1'' (Some ''c1'') (Some ''connection closed'')
     (snd (register ''a1'' ''web'' [] (Some ''c2'') (Some ''c2'') before_reconnect))"

lemma before_reconnect_reach: "registry_reach before_reconnect"
  unfolding before_reconnect_def
  by (rule registry_reach.step [OF registry_reach.step [OF registry_reach.start registered] waited])
    (simp add: register_def empty_registry_def Let_def host_held_def id_elsewhere_def)

theorem one_live_connection_witness:
  "get_by_hostname before_reconnect ''web'' = map_of (rg_agents before_reconnect) ''a1''"
proof -
  have "\<exists>x. map_of (rg_agents before_reconnect) ''a1'' = Some x \<and> ag_host x = ''web'' \<and> conn_is_live before_reconnect x"
    by (simp add: before_reconnect_def register_def empty_registry_def host_held_def id_elsewhere_def wait_for_result_def
        conn_is_live_def Let_def)
  then obtain x where x: "map_of (rg_agents before_reconnect) ''a1'' = Some x" "ag_host x = ''web''"
    "conn_is_live before_reconnect x" by blast
  show ?thesis
    using one_live_connection [OF before_reconnect_reach, of None, THEN conjunct2, THEN conjunct1, rule_format, OF x(1,3)] x
    by simp
qed

definition answered_once :: registry where
  "answered_once = (case store_command_result ''a1'' [(''request_id'', JStr ''r1''), (''for_action'', JStr ''exec'')] True
       before_reconnect of Inr rg \<Rightarrow> rg | Inl _ \<Rightarrow> before_reconnect)"

theorem results_answer_requests_witness:
  "\<exists>w\<in>set (rg_waiters answered_once). \<exists>msg org. wt_future w = Result msg org \<and> dget ''request_id'' msg = JStr (wt_request w)"
proof -
  let ?msg = "[(''request_id'', JStr ''r1''), (''for_action'', JStr ''exec'')]"
  have s: "store_command_result ''a1'' ?msg True before_reconnect = Inr answered_once"
    and w: "rg_waiters answered_once = [\<lparr>wt_agent = ''a1'', wt_obj = 0, wt_request = ''r1'', wt_action = ''exec'',
      wt_future = Result ?msg (Frame False)\<rparr>]"
    by code_simp+
  have r: "registry_reach answered_once"
    by (rule registry_reach.step [OF before_reconnect_reach result_frame [OF s]])
  show ?thesis using results_answer_requests [OF r, of "hd (rg_waiters answered_once)"] w by auto
qed

text \<open>
  A reconnect leaves the callers of the old connection waiting.  The new registration replaces the agent
  object with its futures, the end of the old connection is skipped as stale, and no later frame can
  reach the waiter: it ends only by its own timeout, with no word of the lost connection.
\<close>

theorem reconnect_orphans_waiters:
  "map wt_future (rg_waiters after_reconnect) = [Waiting]
   \<and> (store_command_result ''a1'' msg v after_reconnect = Inr rg' \<longrightarrow> rg_waiters rg' = rg_waiters after_reconnect)"
proof -
  have "map wt_future (rg_waiters after_reconnect) = [Waiting]
      \<and> (\<exists>ag. map_of (rg_agents after_reconnect) ''a1'' = Some ag \<and> ag_futures ag = [])"
    by (simp add: after_reconnect_def before_reconnect_def register_def empty_registry_def host_held_def id_elsewhere_def
        wait_for_result_def conn_is_live_def unregister_def Let_def)
  then show ?thesis
    by (auto simp: store_command_result_def deliver_def Let_def split: if_splits jval.splits)
qed

end
