(* ===== verification/Hub_Auth.thy ===== *)
theory Hub_Auth
  imports Agent_Registry
begin

text \<open>
  Who may join the fleet: the register path of \<^verbatim>\<open>agent_hub/server.py\<close> up to the acknowledgement, the
  bootstrap tokens (\<^verbatim>\<open>agent_hub/tokens.py\<close>), the enrolment window (\<^verbatim>\<open>agent_hub/enrolment_window.py\<close>) and
  the credential columns of the agents table (\<^verbatim>\<open>db/repository.py\<close>).

  A register frame is the record of the fields the hub reads; each is absent or a string, as the agent
  sends them.  Hashing is a parameter, random tokens and identifiers and the clocks are arguments.  Times
  are whole seconds; the window's expiry is kept as the moment its text denotes.  The hub handles one
  register frame at a time here, up to the acknowledgement.
\<close>

section \<open>The agents table\<close>

record cred =
  cr_host :: string
  cr_hash :: "string option"
  cr_set_at :: "string option"
  cr_revoked :: "string option"

type_synonym creds = "(string \<times> cred) list"

definition get_agent_credential :: "creds \<Rightarrow> string \<Rightarrow> cred option" where
  "get_agent_credential = map_of"

definition count_agents :: "creds \<Rightarrow> nat" where
  "count_agents = length"

definition agent_hostname_known :: "creds \<Rightarrow> string \<Rightarrow> bool" where
  "agent_hostname_known cs h = (h \<noteq> [] \<and> list_ex (\<lambda>(_, c). cr_host c = h) cs)"

text \<open>Live credentials of a host, newest first; a missing time sorts last.\<close>

definition get_agent_credentials_by_hostname :: "creds \<Rightarrow> string \<Rightarrow> creds" where
  "get_agent_credentials_by_hostname cs h =
     (if h = [] then []
      else rev (sort_key (\<lambda>(_, c). case cr_set_at c of None \<Rightarrow> [] | Some t \<Rightarrow> t)
             (rev (filter (\<lambda>(_, c). cr_host c = h \<and> cr_hash c \<noteq> None \<and> cr_revoked c = None) cs))))"

definition set_agent_credential :: "string \<Rightarrow> string \<Rightarrow> string \<Rightarrow> string \<Rightarrow> creds \<Rightarrow> creds" where
  "set_agent_credential a h hash ts =
     AList.update a \<lparr>cr_host = h, cr_hash = Some hash, cr_set_at = Some ts, cr_revoked = None\<rparr>"

definition upsert_agent :: "string \<Rightarrow> string \<Rightarrow> creds \<Rightarrow> creds" where
  "upsert_agent a h cs =
     AList.update a (case map_of cs a of
         None \<Rightarrow> \<lparr>cr_host = h, cr_hash = None, cr_set_at = None, cr_revoked = None\<rparr>
       | Some c \<Rightarrow> c\<lparr>cr_host := h\<rparr>) cs"

definition rebind_agent_credential :: "string \<Rightarrow> string \<Rightarrow> creds \<Rightarrow> bool \<times> creds" where
  "rebind_agent_credential old_id new_id cs =
     (if old_id = [] \<or> new_id = [] \<or> old_id = new_id then (False, cs)
      else case map_of cs old_id of
        None \<Rightarrow> (False, cs)
      | Some old \<Rightarrow>
          (if nonempty (cr_hash old) = None then (False, cs)
           else case map_of cs new_id of
             None \<Rightarrow> (True, map (\<lambda>(a, c). (if a = old_id then new_id else a, c)) cs)
           | Some row \<Rightarrow>
               (True, AList.update old_id (old\<lparr>cr_hash := None, cr_set_at := None\<rparr>)
                  (AList.update new_id \<lparr>cr_host = cr_host old, cr_hash = cr_hash old, cr_set_at = cr_set_at old,
                     cr_revoked = None\<rparr> cs))))"

definition revoke_agent_credential :: "string \<Rightarrow> string \<Rightarrow> creds \<Rightarrow> bool \<times> creds" where
  "revoke_agent_credential ts a cs =
     (case map_of cs a of
        Some c \<Rightarrow> (if cr_hash c \<noteq> None \<and> cr_revoked c = None
                   then (True, AList.update a (c\<lparr>cr_revoked := Some ts\<rparr>) cs) else (False, cs))
      | None \<Rightarrow> (False, cs))"

definition delete_agent :: "string \<Rightarrow> creds \<Rightarrow> bool \<times> creds" where
  "delete_agent a cs = (map_of cs a \<noteq> None, AList.delete a cs)"

section \<open>Bootstrap tokens\<close>

definition token_expiry_seconds :: int where
  "token_expiry_seconds = 86400"

record token_store =
  ts_cache :: "(string \<times> int) list"
  ts_rows :: "(string \<times> int) list"
  ts_db :: bool

definition create_token :: "(string \<Rightarrow> string) \<Rightarrow> int \<Rightarrow> string \<Rightarrow> token_store \<Rightarrow> token_store" where
  "create_token H now raw st =
     (let e = now + token_expiry_seconds in
      st\<lparr>ts_cache := AList.update (H raw) e (ts_cache st),
         ts_rows := (if ts_db st then ts_rows st @ [(H raw, e)] else ts_rows st)\<rparr>)"

definition verify_token :: "(string \<Rightarrow> string) \<Rightarrow> int \<Rightarrow> string \<Rightarrow> token_store \<Rightarrow> bool \<times> token_store" where
  "verify_token H now raw st =
     (case map_of (ts_cache st) (H raw) of
        None \<Rightarrow> (False, st)
      | Some e \<Rightarrow> (if now > e then (False, st\<lparr>ts_cache := AList.delete (H raw) (ts_cache st)\<rparr>) else (True, st)))"

definition consume :: "(string \<Rightarrow> string) \<Rightarrow> int \<Rightarrow> string \<Rightarrow> token_store \<Rightarrow> bool \<times> token_store" where
  "consume H now raw st =
     (case verify_token H now raw st of
        (False, st1) \<Rightarrow> (False, st1)
      | (True, st1) \<Rightarrow>
          (True, st1\<lparr>ts_cache := AList.delete (H raw) (ts_cache st1),
                    ts_rows := (if ts_db st1 then filter (\<lambda>(h, _). h \<noteq> H raw) (ts_rows st1) else ts_rows st1)\<rparr>))"

definition cleanup :: "int \<Rightarrow> token_store \<Rightarrow> token_store" where
  "cleanup now st = st\<lparr>ts_cache := filter (\<lambda>(_, e). \<not> now > e) (ts_cache st)\<rparr>"

definition cleanup_db :: "int \<Rightarrow> token_store \<Rightarrow> token_store" where
  "cleanup_db now st = (if ts_db st then st\<lparr>ts_rows := filter (\<lambda>(_, e). \<not> e \<le> now) (ts_rows st)\<rparr> else st)"

text \<open>The startup: expired rows are deleted, the others enter the cache.\<close>

definition load_from_db :: "int \<Rightarrow> token_store \<Rightarrow> token_store" where
  "load_from_db now st =
     (if \<not> ts_db st then st
      else let alive = filter (\<lambda>(_, e). \<not> e \<le> now) (ts_rows st) in
        st\<lparr>ts_cache := foldl (\<lambda>c (h, e). AList.update h e c) (ts_cache st) alive, ts_rows := alive\<rparr>)"

section \<open>The enrolment window\<close>

definition max_window_minutes :: int where
  "max_window_minutes = 24 * 60"

definition normalise_minutes :: "int \<Rightarrow> int" where
  "normalise_minutes m = max 1 (min m max_window_minutes)"

definition open_window :: "int \<Rightarrow> int \<Rightarrow> int option" where
  "open_window now minutes = Some (now + 60 * normalise_minutes minutes)"

definition close_window :: "int option" where
  "close_window = None"

definition window_is_open :: "int option \<Rightarrow> int \<Rightarrow> bool" where
  "window_is_open w now = (case w of None \<Rightarrow> False | Some e \<Rightarrow> e - now > 0)"

section \<open>Authentication\<close>

record register_frame =
  rf_token :: "string option"
  rf_agent :: "string option"
  rf_host :: "string option"
  rf_action :: string
  rf_info :: dict
  rf_replay :: bool
  rf_echoes :: bool
  rf_body :: dict

record hub_env =
  he_hash :: "string \<Rightarrow> string"
  he_shared :: string
  he_repo :: bool

record hub_state =
  hs_creds :: creds
  hs_tokens :: token_store
  hs_window :: "int option"
  hs_failures :: "(string \<times> nat) list"
  hs_bans :: "(string \<times> int) list"
  hs_nonces :: nonce_cache
  hs_registry :: registry

datatype auth_kind = Per_agent | Shared | Bootstrap

record denial =
  dn_reason :: string
  dn_wire :: string

definition generic_auth_error :: string where
  "generic_auth_error = ''invalid auth_token''"

definition deny :: "string \<Rightarrow> denial" where
  "deny reason = \<lparr>dn_reason = reason, dn_wire = generic_auth_error\<rparr>"

definition field :: "string option \<Rightarrow> string" where
  "field o' = (case o' of None \<Rightarrow> [] | Some s \<Rightarrow> s)"

fun rebind_loop :: "(string \<Rightarrow> string) \<Rightarrow> string \<Rightarrow> string \<Rightarrow> creds \<Rightarrow> creds \<Rightarrow> bool \<times> creds" where
  "rebind_loop H token claimed [] cs = (False, cs)"
| "rebind_loop H token claimed ((prior, row) # rows) cs =
     (if nonempty (cr_hash row) = None \<or> prior = claimed \<or> cr_hash row \<noteq> Some (H token)
      then rebind_loop H token claimed rows cs
      else case rebind_agent_credential prior claimed cs of
             (True, cs') \<Rightarrow> (True, cs')
           | (False, cs') \<Rightarrow> rebind_loop H token claimed rows cs')"

definition rebind_by_hostname :: "(string \<Rightarrow> string) \<Rightarrow> string \<Rightarrow> string \<Rightarrow> string \<Rightarrow> creds \<Rightarrow> bool \<times> creds" where
  "rebind_by_hostname H token claimed_agent claimed_host cs =
     (if claimed_host = [] \<or> claimed_agent = [] then (False, cs)
      else rebind_loop H token claimed_agent (get_agent_credentials_by_hostname cs claimed_host) cs)"

definition enrolment_allowed :: "hub_env \<Rightarrow> int \<Rightarrow> string \<Rightarrow> hub_state \<Rightarrow> denial option" where
  "enrolment_allowed env now hostname hs =
     (if \<not> he_repo env then None
      else if count_agents (hs_creds hs) = 0 then None
      else if hostname \<noteq> [] \<and> agent_hostname_known (hs_creds hs) hostname then None
      else if window_is_open (hs_window hs) now then None
      else Some \<lparr>dn_reason = ''shared-token enrolment refused: no enrolment window is open'',
                 dn_wire = ''enrolment window closed''\<rparr>)"

text \<open>\<open>hmac.compare_digest\<close> on two strings: it raises unless both are ASCII.\<close>

definition compare_digest :: "string \<Rightarrow> string \<Rightarrow> bool res" where
  "compare_digest a b =
     (if list_all (\<lambda>c. (of_char c :: nat) < 128) (a @ b) then Inr (a = b)
      else Inl (TypeError ''comparing strings with non-ASCII characters is not supported''))"

text \<open>The fleet-wide token, then a bootstrap token.\<close>

definition verify_enrolment :: "hub_env \<Rightarrow> int \<Rightarrow> string \<Rightarrow> string \<Rightarrow> hub_state \<Rightarrow> (denial + auth_kind) res \<times> hub_state" where
  "verify_enrolment env now token host hs =
     (case (if he_shared env = [] then Inr False else compare_digest token (he_shared env)) of
        Inl e \<Rightarrow> (Inl e, hs)
      | Inr True \<Rightarrow>
          (Inr (case enrolment_allowed env now host hs of Some d \<Rightarrow> Inl d | None \<Rightarrow> Inr Shared), hs)
      | Inr False \<Rightarrow>
          (case consume (he_hash env) now token (hs_tokens hs) of
             (True, st) \<Rightarrow> (Inr (Inr Bootstrap), hs\<lparr>hs_tokens := st\<rparr>)
           | (False, st) \<Rightarrow>
               (Inr (Inl (deny ''auth token matched no per-agent credential, the shared token or a bootstrap token'')),
                hs\<lparr>hs_tokens := st\<rparr>)))"

definition own_credential :: "hub_env \<Rightarrow> string \<Rightarrow> string \<Rightarrow> hub_state \<Rightarrow> cred option" where
  "own_credential env token agent hs =
     (case get_agent_credential (hs_creds hs) agent of
        None \<Rightarrow> None
      | Some c \<Rightarrow> if nonempty (cr_hash c) \<noteq> None \<and> cr_hash c = Some (he_hash env token) then Some c else None)"

definition verify_auth :: "hub_env \<Rightarrow> int \<Rightarrow> register_frame \<Rightarrow> hub_state \<Rightarrow> (denial + auth_kind) res \<times> hub_state" where
  "verify_auth env now fr hs =
     (let token = field (rf_token fr); agent = field (rf_agent fr); host = field (rf_host fr) in
      if token = [] then (Inr (Inl (deny ''register carried no auth token'')), hs)
      else if \<not> he_repo env \<or> agent = [] then verify_enrolment env now token host hs
      else case own_credential env token agent hs of
        Some c \<Rightarrow>
          (Inr (if cr_revoked c \<noteq> None
                then Inl (deny ''credential revoked by an operator; re-enrol this host to restore it'')
                else if cr_host c \<noteq> [] \<and> host \<noteq> [] \<and> cr_host c \<noteq> host
                then Inl (deny (''credential is bound to host '' @ cr_host c @ '' but was presented from '' @ host))
                else Inr Per_agent), hs)
      | None \<Rightarrow>
          (case rebind_by_hostname (he_hash env) token agent host (hs_creds hs) of
             (True, cs) \<Rightarrow> (Inr (Inr Per_agent), hs\<lparr>hs_creds := cs\<rparr>)
           | (False, cs) \<Rightarrow> verify_enrolment env now token host (hs\<lparr>hs_creds := cs\<rparr>)))"

section \<open>The register path\<close>

definition max_auth_failures :: nat where
  "max_auth_failures = 5"

definition auth_ban_seconds :: int where
  "auth_ban_seconds = 60"

definition max_preauth_connections :: nat where
  "max_preauth_connections = 50"

definition record_auth_failure :: "string \<Rightarrow> int \<Rightarrow> hub_state \<Rightarrow> hub_state" where
  "record_auth_failure peer clock hs =
     (let n = (case map_of (hs_failures hs) peer of None \<Rightarrow> 0 | Some k \<Rightarrow> k) + 1 in
      if n \<ge> max_auth_failures
      then hs\<lparr>hs_bans := AList.update peer (clock + auth_ban_seconds) (hs_bans hs),
              hs_failures := AList.delete peer (hs_failures hs)\<rparr>
      else hs\<lparr>hs_failures := AList.update peer n (hs_failures hs)\<rparr>)"

text \<open>A connection: the two clocks, the peer, what is random, and how many others are not authenticated.\<close>

record connection =
  cn_now :: int
  cn_mono :: int
  cn_stamp :: string
  cn_peer :: string
  cn_id :: string
  cn_fresh_agent :: string
  cn_mint :: string
  cn_preauth :: nat
  cn_frame :: register_frame

datatype verdict =
    Banned
  | Too_many
  | Denied denial
  | Not_registering
  | Nameless
  | Stale string
  | Claimed
  | Registered auth_kind string string "string option"
  | Crashed exn

definition is_banned :: "string \<Rightarrow> int \<Rightarrow> hub_state \<Rightarrow> bool" where
  "is_banned peer clock hs = (case map_of (hs_bans hs) peer of None \<Rightarrow> False | Some t \<Rightarrow> clock < t)"

definition register_agent :: "hub_env \<Rightarrow> connection \<Rightarrow> auth_kind \<Rightarrow> string \<Rightarrow> string \<Rightarrow> hub_state \<Rightarrow> verdict \<times> hub_state" where
  "register_agent env cn kind agent host hs =
     (case register agent host (rf_info (cn_frame cn)) (Some (cn_id cn)) (Some (cn_id cn)) (hs_registry hs) of
        (False, _) \<Rightarrow> (Claimed, hs)
      | (True, rg) \<Rightarrow>
          (let mints = (kind \<noteq> Per_agent \<and> he_repo env);
               cs = (if he_repo env then upsert_agent agent host (hs_creds hs) else hs_creds hs)
           in (Registered kind agent host (if mints then Some (cn_mint cn) else None),
               hs\<lparr>hs_registry := on_agent agent (\<lambda>ag. ag\<lparr>ag_echoes := rf_echoes (cn_frame cn)\<rparr>) rg,
                  hs_creds := (if mints then set_agent_credential agent host (he_hash env (cn_mint cn)) (cn_stamp cn) cs
                               else cs)\<rparr>)))"

definition frame_host :: "register_frame \<Rightarrow> string" where
  "frame_host fr = (case rf_host fr of None \<Rightarrow> ''unknown'' | Some h \<Rightarrow> h)"

definition frame_agent :: "connection \<Rightarrow> string" where
  "frame_agent cn = (case rf_agent (cn_frame cn) of None \<Rightarrow> cn_fresh_agent cn | Some a \<Rightarrow> a)"

definition freshness :: "connection \<Rightarrow> auth_kind \<Rightarrow> nonce_cache \<Rightarrow> string option \<times> nonce_cache" where
  "freshness cn kind seen =
     (if rf_replay (cn_frame cn) \<and> kind = Per_agent
      then check_register_freshness (cn_now cn) seen (frame_agent cn) (rf_body (cn_frame cn)) else (None, seen))"

definition handle_register :: "hub_env \<Rightarrow> connection \<Rightarrow> hub_state \<Rightarrow> verdict \<times> hub_state" where
  "handle_register env cn hs =
     (if is_banned (cn_peer cn) (cn_mono cn) hs then (Banned, hs)
      else if cn_preauth cn \<ge> max_preauth_connections then (Too_many, hs)
      else case verify_auth env (cn_now cn) (cn_frame cn) hs of
        (Inl e, hs1) \<Rightarrow> (Crashed e, hs1)
      | (Inr (Inl d), hs1) \<Rightarrow> (Denied d, record_auth_failure (cn_peer cn) (cn_mono cn) hs1)
      | (Inr (Inr kind), hs1) \<Rightarrow>
          (let hs2 = hs1\<lparr>hs_failures := AList.delete (cn_peer cn) (hs_failures hs1)\<rparr> in
           if rf_action (cn_frame cn) \<noteq> ''register'' then (Not_registering, hs2)
           else if py_strip (frame_host (cn_frame cn)) = [] then (Nameless, hs2)
           else case freshness cn kind (hs_nonces hs2) of
             (Some why, seen) \<Rightarrow> (Stale why, hs2\<lparr>hs_nonces := seen\<rparr>)
           | (None, seen) \<Rightarrow>
               register_agent env cn kind (frame_agent cn) (frame_host (cn_frame cn)) (hs2\<lparr>hs_nonces := seen\<rparr>)))"

text \<open>What else changes the hub's state: the operator's actions, the token store's upkeep, the registry.
  The hash \<open>h\<close> is one that no newly made token has.\<close>

inductive hub_step :: "hub_env \<Rightarrow> string \<Rightarrow> hub_state \<Rightarrow> hub_state \<Rightarrow> bool" for env h where
  connected: "he_hash env (cn_mint cn) \<noteq> h \<Longrightarrow> hub_step env h hs (snd (handle_register env cn hs))"
| revoked: "hub_step env h hs (hs\<lparr>hs_creds := snd (revoke_agent_credential ts a (hs_creds hs))\<rparr>)"
| deleted: "hub_step env h hs (hs\<lparr>hs_creds := snd (delete_agent a (hs_creds hs))\<rparr>)"
| window_changed: "hub_step env h hs (hs\<lparr>hs_window := w\<rparr>)"
| token_created: "he_hash env raw \<noteq> h \<Longrightarrow> hub_step env h hs (hs\<lparr>hs_tokens := create_token (he_hash env) now raw (hs_tokens hs)\<rparr>)"
| tokens_cleaned: "hub_step env h hs (hs\<lparr>hs_tokens := cleanup_db now (cleanup now (hs_tokens hs))\<rparr>)"
| tokens_loaded: "hub_step env h hs (hs\<lparr>hs_tokens := load_from_db now (hs_tokens hs)\<rparr>)"
| registry_changed: "hub_step env h hs (hs\<lparr>hs_registry := rg\<rparr>)"

end
