(* ===== verification/Hub_Properties.thy ===== *)
theory Hub_Properties
  imports Hub_Auth
begin

text \<open>Who may join the fleet: lemmas and properties.\<close>

section \<open>Credentials\<close>

lemma by_hostname_iff:
  "(a, c) \<in> set (get_agent_credentials_by_hostname cs h) \<longleftrightarrow>
     h \<noteq> [] \<and> (a, c) \<in> set cs \<and> cr_host c = h \<and> cr_hash c \<noteq> None \<and> cr_revoked c = None"
  by (auto simp: get_agent_credentials_by_hostname_def)

lemma nonempty_Some: "nonempty l = Some x \<longleftrightarrow> l = Some x \<and> x \<noteq> []"
  by (auto simp: nonempty_def split: option.splits list.splits)

lemma map_of_rename:
  "new \<notin> fst ` set cs \<Longrightarrow> old \<noteq> new \<Longrightarrow>
   map_of (map (\<lambda>(a, c). (if a = old then new else a, c)) cs) x
     = (if x = new then map_of cs old else if x = old then None else map_of cs x)"
proof (induction cs)
  case (Cons p cs)
  obtain a c where p: "p = (a, c)" by fastforce
  have n: "new \<noteq> a" "new \<notin> fst ` set cs" using Cons.prems(1) p by auto
  note IH = Cons.IH [OF n(2) Cons.prems(2)]
  show ?case
  proof (cases "a = old")
    case True
    then show ?thesis using IH Cons.prems(2) p by simp
  next
    case False
    then show ?thesis using IH n(1) p Cons.prems(2) by (cases "x = old"; cases "x = new"; simp)
  qed
qed simp

lemma distinct_rename:
  assumes "distinct (map fst cs)" and "new \<notin> fst ` set cs"
  shows "distinct (map fst (map (\<lambda>(a, c). (if a = old then new else a, c)) cs))"
proof -
  have "map fst (map (\<lambda>(a, c). (if a = old then new else a, c)) cs) = map (\<lambda>a. if a = old then new else a) (map fst cs)"
    by (induction cs) auto
  moreover have "inj_on (\<lambda>a. if a = old then new else a) (set (map fst cs))"
    using assms(2) by (auto simp: inj_on_def)
  ultimately show ?thesis using assms(1) by (simp only: distinct_map)
qed

text \<open>What a rebind leaves: the credential of the old identity under the new one.\<close>

lemma rebind_spec:
  assumes "rebind_agent_credential old_id new_id cs = (True, cs')"
  shows "\<exists>old. map_of cs old_id = Some old \<and> old_id \<noteq> new_id \<and>
    (\<forall>x c. map_of cs' x = Some c \<longrightarrow>
       cr_hash c = None \<or> (x = new_id \<and> cr_hash c = cr_hash old) \<or> map_of cs x = Some c)"
proof -
  obtain old where old: "map_of cs old_id = Some old" "old_id \<noteq> new_id"
    using assms by (auto simp: rebind_agent_credential_def split: if_splits option.splits)
  have "cr_hash c = None \<or> (x = new_id \<and> cr_hash c = cr_hash old) \<or> map_of cs x = Some c" if "map_of cs' x = Some c" for x c
  proof (cases "map_of cs new_id")
    case None
    then have "cs' = map (\<lambda>(a, c). (if a = old_id then new_id else a, c)) cs"
      using assms old by (auto simp: rebind_agent_credential_def split: if_splits)
    then show ?thesis
      using that old None map_of_rename [of new_id cs old_id x] by (auto simp: map_of_eq_None_iff split: if_splits)
  next
    case (Some row)
    then show ?thesis using assms old that by (auto simp: rebind_agent_credential_def split: if_splits)
  qed
  then show ?thesis using old by blast
qed

lemma rebind_distinct:
  "distinct (map fst cs) \<Longrightarrow> distinct (map fst (snd (rebind_agent_credential a b cs)))"
  using distinct_rename [of cs b a]
  by (auto simp: rebind_agent_credential_def map_of_eq_None_iff distinct_update split: option.splits)

lemma rebind_unchanged: "rebind_agent_credential prior claimed cs = (False, x) \<Longrightarrow> x = cs"
  by (auto simp: rebind_agent_credential_def split: if_splits option.splits)

lemma rebind_loop_spec:
  "rebind_loop H tok claimed rows cs = (ok, cs') \<Longrightarrow>
     (\<not> ok \<and> cs' = cs)
     \<or> (ok \<and> (\<exists>prior row. (prior, row) \<in> set rows \<and> prior \<noteq> claimed \<and> cr_hash row = Some (H tok)
            \<and> rebind_agent_credential prior claimed cs = (True, cs')))"
proof (induction rows)
  case (Cons p rows)
  obtain prior row where p: "p = (prior, row)" by fastforce
  obtain b x where r: "rebind_agent_credential prior claimed cs = (b, x)" by fastforce
  show ?case
  proof (cases "\<not> (nonempty (cr_hash row) = None \<or> prior = claimed \<or> cr_hash row \<noteq> Some (H tok)) \<and> b")
    case True
    then obtain y where "nonempty (Some (H tok)) = Some y" by auto
    then have "ok \<and> cs' = x" using Cons.prems p r True by simp
    then show ?thesis using True p r by auto
  next
    case False
    then have "rebind_loop H tok claimed rows cs = (ok, cs')"
      using Cons.prems p r rebind_unchanged [of prior claimed cs x] by (auto split: if_splits)
    then show ?thesis using Cons.IH p by auto
  qed
qed simp

lemma rebind_by_hostname_spec:
  assumes "rebind_by_hostname H tok claimed h cs = (ok, cs')"
  shows "(\<not> ok \<and> cs' = cs)
    \<or> (ok \<and> h \<noteq> [] \<and> (\<exists>prior row. (prior, row) \<in> set cs \<and> prior \<noteq> claimed \<and> cr_hash row = Some (H tok) \<and> cr_host row = h
           \<and> cr_revoked row = None \<and> rebind_agent_credential prior claimed cs = (True, cs')))"
proof (cases "h = [] \<or> claimed = []")
  case True
  then show ?thesis using assms by (auto simp: rebind_by_hostname_def)
next
  case False
  then have "rebind_loop H tok claimed (get_agent_credentials_by_hostname cs h) cs = (ok, cs')"
    using assms by (simp add: rebind_by_hostname_def)
  from rebind_loop_spec [OF this] show ?thesis using False by (auto simp: by_hostname_iff)
qed

section \<open>Authentication\<close>

definition may_enrol :: "hub_env \<Rightarrow> int \<Rightarrow> string \<Rightarrow> hub_state \<Rightarrow> bool" where
  "may_enrol env now host hs =
     (\<not> he_repo env \<or> hs_creds hs = [] \<or> agent_hostname_known (hs_creds hs) host \<or> window_is_open (hs_window hs) now)"

definition authorised :: "hub_env \<Rightarrow> int \<Rightarrow> register_frame \<Rightarrow> hub_state \<Rightarrow> auth_kind \<Rightarrow> bool" where
  "authorised env now fr hs kind =
     (let tok = field (rf_token fr); agent = field (rf_agent fr); host = field (rf_host fr) in
      case kind of
        Per_agent \<Rightarrow>
          (\<exists>owner c. map_of (hs_creds hs) owner = Some c \<and> cr_hash c = Some (he_hash env tok) \<and> cr_revoked c = None
             \<and> (owner = agent \<and> (cr_host c = [] \<or> host = [] \<or> cr_host c = host) \<or> owner \<noteq> agent \<and> cr_host c = host \<and> host \<noteq> []))
      | Shared \<Rightarrow> tok = he_shared env \<and> he_shared env \<noteq> [] \<and> may_enrol env now host hs
      | Bootstrap \<Rightarrow> (\<exists>e. map_of (ts_cache (hs_tokens hs)) (he_hash env tok) = Some e \<and> now \<le> e))"

lemma consume_spec:
  "consume H now raw st = (ok, st') \<Longrightarrow>
     (ok \<longrightarrow> (\<exists>e. map_of (ts_cache st) (H raw) = Some e \<and> now \<le> e) \<and> map_of (ts_cache st') (H raw) = None)
     \<and> (\<forall>x. map_of (ts_cache st) x = None \<longrightarrow> map_of (ts_cache st') x = None) \<and> set (ts_rows st') \<subseteq> set (ts_rows st)"
  by (auto simp: consume_def verify_token_def split: option.splits if_splits prod.splits bool.splits)

lemma verify_enrolment_spec:
  assumes "verify_enrolment env now tok host hs = (r, hs')" and "r = Inr (Inr kind)"
  shows "(kind = Shared \<and> tok = he_shared env \<and> he_shared env \<noteq> [] \<and> may_enrol env now host hs \<and> hs' = hs)
    \<or> (kind = Bootstrap \<and> (\<exists>e. map_of (ts_cache (hs_tokens hs)) (he_hash env tok) = Some e \<and> now \<le> e)
        \<and> map_of (ts_cache (hs_tokens hs')) (he_hash env tok) = None)"
  using assms
  by (auto simp: verify_enrolment_def compare_digest_def may_enrol_def enrolment_allowed_def count_agents_def
      dest!: consume_spec split: if_splits option.splits sum.splits bool.splits prod.splits)

lemma verify_auth_spec:
  assumes "verify_auth env now fr hs = (Inr (Inr kind), hs')" and d: "distinct (map fst (hs_creds hs))"
  shows "field (rf_token fr) \<noteq> [] \<and> authorised env now fr hs kind
    \<and> (kind = Bootstrap \<longrightarrow> map_of (ts_cache (hs_tokens hs')) (he_hash env (field (rf_token fr))) = None)
    \<and> (kind = Per_agent \<longrightarrow> field (rf_agent fr) \<noteq> [])"
proof -
  let ?tok = "field (rf_token fr)" and ?a = "field (rf_agent fr)" and ?h = "field (rf_host fr)"
  have tok: "?tok \<noteq> []" using assms(1) by (auto simp: verify_auth_def Let_def split: if_splits)
  have enrol: ?thesis if "verify_enrolment env now ?tok ?h (hs\<lparr>hs_creds := hs_creds hs\<rparr>) = (Inr (Inr kind), hs')"
    using verify_enrolment_spec [OF that refl] tok by (auto simp: authorised_def may_enrol_def Let_def)
  show ?thesis
  proof (cases "\<not> he_repo env \<or> ?a = []")
    case True
    then show ?thesis using assms(1) tok enrol by (simp add: verify_auth_def Let_def)
  next
    case False
    show ?thesis
    proof (cases "own_credential env ?tok ?a hs")
      case (Some c)
      then have c: "map_of (hs_creds hs) ?a = Some c" "cr_hash c = Some (he_hash env ?tok)"
        by (auto simp: own_credential_def get_agent_credential_def split: option.splits if_splits)
      have "kind = Per_agent \<and> cr_revoked c = None \<and> (cr_host c = [] \<or> ?h = [] \<or> cr_host c = ?h)"
        using assms(1) tok False Some by (auto simp: verify_auth_def Let_def split: if_splits)
      then show ?thesis using c tok False by (auto simp: authorised_def Let_def)
    next
      case None
      obtain b cs where r: "rebind_by_hostname (he_hash env) ?tok ?a ?h (hs_creds hs) = (b, cs)" by fastforce
      show ?thesis
      proof (cases b)
        case True
        then obtain prior row where p: "(prior, row) \<in> set (hs_creds hs)" "prior \<noteq> ?a" "?h \<noteq> []"
          "cr_hash row = Some (he_hash env ?tok)" "cr_host row = ?h" "cr_revoked row = None"
          using rebind_by_hostname_spec [OF r] by blast
        have m: "map_of (hs_creds hs) prior = Some row" using p(1) d by simp
        have "kind = Per_agent" using assms(1) tok False None r True by (simp add: verify_auth_def Let_def)
        then show ?thesis using m p tok False by (auto simp: authorised_def Let_def)
      next
        case f: False
        then have "cs = hs_creds hs" using rebind_by_hostname_spec [OF r] by blast
        then show ?thesis using enrol assms(1) tok False None r f by (simp add: verify_auth_def Let_def)
      qed
    qed
  qed
qed

section \<open>A hash that opens nothing\<close>

definition dead :: "string \<Rightarrow> hub_state \<Rightarrow> bool" where
  "dead h hs =
     (distinct (map fst (hs_creds hs))
      \<and> (\<forall>a c. map_of (hs_creds hs) a = Some c \<longrightarrow> cr_hash c = Some h \<longrightarrow> cr_revoked c \<noteq> None)
      \<and> map_of (ts_cache (hs_tokens hs)) h = None \<and> h \<notin> fst ` set (ts_rows (hs_tokens hs)))"

lemma deadD: "dead h hs \<Longrightarrow> map_of (hs_creds hs) a = Some c \<Longrightarrow> cr_hash c = Some h \<Longrightarrow> cr_revoked c \<noteq> None"
  by (simp only: dead_def) blast

lemma dead_cache: "dead h hs \<Longrightarrow> map_of (ts_cache (hs_tokens hs)) h = None"
  and dead_distinct: "dead h hs \<Longrightarrow> distinct (map fst (hs_creds hs))"
  by (simp_all only: dead_def)

lemma deadI:
  "distinct (map fst (hs_creds hs)) \<Longrightarrow>
   (\<And>a c. map_of (hs_creds hs) a = Some c \<Longrightarrow> cr_hash c = Some h \<Longrightarrow> cr_revoked c \<noteq> None) \<Longrightarrow>
   map_of (ts_cache (hs_tokens hs)) h = None \<Longrightarrow> h \<notin> fst ` set (ts_rows (hs_tokens hs)) \<Longrightarrow> dead h hs"
  by (simp only: dead_def) blast

lemma dead_denied:
  assumes "dead (he_hash env tok) hs" and "tok \<noteq> he_shared env" and "field (rf_token fr) = tok"
    and "verify_auth env now fr hs = (r, hs')"
  shows "\<forall>kind. r \<noteq> Inr (Inr kind)"
proof (intro allI notI)
  fix kind assume "r = Inr (Inr kind)"
  then have au: "authorised env now fr hs kind"
    using verify_auth_spec [of env now fr hs kind hs'] assms(4) dead_distinct [OF assms(1)] by simp
  show False
  proof (cases kind)
    case Per_agent
    then obtain owner c where c: "map_of (hs_creds hs) owner = Some c"
      "cr_hash c = Some (he_hash env tok)" "cr_revoked c = None"
      using au assms(3) by (auto simp: authorised_def Let_def simp del: map_of_eq_Some_iff)
    then show ?thesis using deadD [OF assms(1) c(1,2)] by simp
  next
    case Bootstrap
    then show ?thesis using au assms(3) dead_cache [OF assms(1)] by (auto simp: authorised_def Let_def)
  qed (use au assms(2,3) in \<open>simp add: authorised_def Let_def\<close>)
qed

lemma dead_rebind:
  assumes "dead h hs" and r: "rebind_by_hostname H tok a k (hs_creds hs) = (ok, cs)"
  shows "dead h (hs\<lparr>hs_creds := cs\<rparr>)"
  using rebind_by_hostname_spec [OF r]
proof (elim disjE conjE exE)
  assume "cs = hs_creds hs"
  then show ?thesis using assms(1) by (simp add: dead_def)
next
  fix prior row
  assume p: "(prior, row) \<in> set (hs_creds hs)" "cr_hash row = Some (H tok)" "cr_revoked row = None"
    and b: "rebind_agent_credential prior a (hs_creds hs) = (True, cs)"
  have d: "distinct (map fst (hs_creds hs))" using assms(1) by (simp add: dead_def)
  have m: "map_of (hs_creds hs) prior = Some row" using p(1) d by simp
  have n: "cr_hash row \<noteq> Some h" using deadD [OF assms(1) m] p(3) by blast
  have "distinct (map fst cs)" using rebind_distinct [OF d, of prior a] b by simp
  moreover have "cr_revoked c \<noteq> None" if c: "map_of cs x = Some c" "cr_hash c = Some h" for x c
  proof -
    have "cr_hash c = None \<or> (x = a \<and> cr_hash c = cr_hash row) \<or> map_of (hs_creds hs) x = Some c"
      using rebind_spec [OF b] m c(1) by auto
    then show ?thesis using c(2) n deadD [OF assms(1), of x c] by auto
  qed
  ultimately show ?thesis using assms(1) by (intro deadI) (simp_all add: dead_def)
qed

lemma dead_enrolment:
  assumes "dead h hs" and "verify_enrolment env now tok host hs = (r, hs')"
  shows "dead h hs'"
proof -
  have "hs' = hs \<or> (\<exists>ok st. consume (he_hash env) now tok (hs_tokens hs) = (ok, st) \<and> hs' = hs\<lparr>hs_tokens := st\<rparr>)"
    using assms(2) by (auto simp: verify_enrolment_def split: sum.splits bool.splits prod.splits)
  then show ?thesis
  proof (elim disjE exE conjE)
    fix ok st
    assume c: "consume (he_hash env) now tok (hs_tokens hs) = (ok, st)" and e: "hs' = hs\<lparr>hs_tokens := st\<rparr>"
    have "map_of (ts_cache st) h = None" "set (ts_rows st) \<subseteq> set (ts_rows (hs_tokens hs))"
      using consume_spec [OF c] dead_cache [OF assms(1)] by simp_all
    moreover have "h \<notin> fst ` set (ts_rows (hs_tokens hs))" using assms(1) by (simp only: dead_def) blast
    ultimately show ?thesis using e dead_distinct [OF assms(1)] deadD [OF assms(1)] by (intro deadI) auto
  qed (use assms(1) in simp)
qed

lemma dead_verify:
  assumes "dead h hs" and "verify_auth env now fr hs = (r, hs')"
  shows "dead h hs'"
proof -
  let ?tok = "field (rf_token fr)" and ?a = "field (rf_agent fr)" and ?h = "field (rf_host fr)"
  obtain b cs where rb: "rebind_by_hostname (he_hash env) ?tok ?a ?h (hs_creds hs) = (b, cs)" by fastforce
  note d = dead_rebind [OF assms(1) rb]
  have "hs' = hs \<or> hs' = hs\<lparr>hs_creds := cs\<rparr> \<or> verify_enrolment env now ?tok ?h hs = (r, hs')
      \<or> verify_enrolment env now ?tok ?h (hs\<lparr>hs_creds := cs\<rparr>) = (r, hs')"
    using assms(2) rb by (auto simp: verify_auth_def Let_def split: if_splits option.splits bool.splits)
  then show ?thesis using assms(1) d dead_enrolment by auto
qed

lemma dead_update:
  assumes "dead h hs" and "cr_hash c = Some h \<Longrightarrow> cr_revoked c \<noteq> None"
  shows "dead h (hs\<lparr>hs_creds := AList.update a c (hs_creds hs)\<rparr>)"
  using assms by (auto simp: dead_def distinct_update)

lemma dead_upsert:
  assumes "dead h hs"
  shows "dead h (hs\<lparr>hs_creds := upsert_agent a k (hs_creds hs)\<rparr>)"
proof (cases "map_of (hs_creds hs) a")
  case None
  then show ?thesis
    using dead_update [OF assms, of "\<lparr>cr_host = k, cr_hash = None, cr_set_at = None, cr_revoked = None\<rparr>" a]
    by (simp add: upsert_agent_def)
next
  case (Some c)
  then show ?thesis
    using dead_update [OF assms, of "c\<lparr>cr_host := k\<rparr>" a] deadD [OF assms Some] by (simp add: upsert_agent_def)
qed

lemma dead_other [simp]:
  "dead h (hs\<lparr>hs_registry := rg\<rparr>) = dead h hs" "dead h (hs\<lparr>hs_nonces := n\<rparr>) = dead h hs"
  "dead h (hs\<lparr>hs_window := w\<rparr>) = dead h hs" "dead h (hs\<lparr>hs_failures := f\<rparr>) = dead h hs"
  "dead h (hs\<lparr>hs_bans := b\<rparr>) = dead h hs"
  by (simp_all add: dead_def)

lemma dead_creds_only: "dead h (hs\<lparr>hs_registry := rg, hs_creds := cs\<rparr>) = dead h (hs\<lparr>hs_creds := cs\<rparr>)"
  by (simp add: dead_def)

lemma dead_failure [simp]: "dead h (record_auth_failure p clock hs) = dead h hs"
  by (simp add: record_auth_failure_def Let_def)

lemma dead_register:
  assumes "dead h hs" and "he_hash env (cn_mint cn) \<noteq> h"
  shows "dead h (snd (register_agent env cn kind agent host hs))"
proof -
  let ?cs = "if he_repo env then upsert_agent agent host (hs_creds hs) else hs_creds hs"
  have up: "dead h (hs\<lparr>hs_creds := ?cs\<rparr>)" using dead_upsert [OF assms(1)] assms(1) by simp
  have "dead h (hs\<lparr>hs_creds := set_agent_credential agent host (he_hash env (cn_mint cn)) (cn_stamp cn) ?cs\<rparr>)"
    using dead_update [OF up, of "\<lparr>cr_host = host, cr_hash = Some (he_hash env (cn_mint cn)), cr_set_at = Some (cn_stamp cn),
      cr_revoked = None\<rparr>" agent] assms(2) by (simp add: set_agent_credential_def)
  then show ?thesis using up assms(1)
    by (auto simp: register_agent_def Let_def dead_creds_only split: prod.splits bool.splits)
qed

lemma register_path_spec:
  assumes "handle_register env cn hs = (v, hs')"
  shows "hs' = hs
    \<or> (\<exists>r hs1. verify_auth env (cn_now cn) (cn_frame cn) hs = (r, hs1)
        \<and> (hs' = hs1 \<or> hs' = record_auth_failure (cn_peer cn) (cn_mono cn) hs1
           \<or> (\<exists>f n kind agent host.
                hs' = hs1\<lparr>hs_failures := f\<rparr> \<or> hs' = hs1\<lparr>hs_failures := f, hs_nonces := n\<rparr>
                \<or> r = Inr (Inr kind) \<and> (v, hs') = register_agent env cn kind agent host (hs1\<lparr>hs_failures := f, hs_nonces := n\<rparr>))))"
proof -
  obtain r hs1 where va: "verify_auth env (cn_now cn) (cn_frame cn) hs = (r, hs1)" by fastforce
  show ?thesis
  proof (cases "\<exists>kind. r = Inr (Inr kind)")
    case False
    then show ?thesis using assms va
      by (cases r) (auto simp: handle_register_def split: sum.splits if_splits)
  next
    case True
    then obtain kind where r: "r = Inr (Inr kind)" by blast
    let ?hs2 = "hs1\<lparr>hs_failures := AList.delete (cn_peer cn) (hs_failures hs1)\<rparr>"
    obtain why n where f: "freshness cn kind (hs_nonces ?hs2) = (why, n)" by fastforce
    have "hs' = hs \<or> hs' = ?hs2 \<or> hs' = ?hs2\<lparr>hs_nonces := n\<rparr>
        \<or> (v, hs') = register_agent env cn kind (frame_agent cn) (frame_host (cn_frame cn)) (?hs2\<lparr>hs_nonces := n\<rparr>)"
      using assms va r f by (cases why) (auto simp: handle_register_def Let_def split: if_split_asm)
    then show ?thesis using va r by blast
  qed
qed

lemma dead_connection:
  assumes "dead h hs" and "he_hash env (cn_mint cn) \<noteq> h"
  shows "dead h (snd (handle_register env cn hs))"
proof -
  obtain v hs' where hr: "handle_register env cn hs = (v, hs')" by fastforce
  from register_path_spec [OF hr] show ?thesis
  proof (elim disjE exE conjE)
    fix r hs1 f n kind agent host
    assume v: "verify_auth env (cn_now cn) (cn_frame cn) hs = (r, hs1)"
      and e: "(v, hs') = register_agent env cn kind agent host (hs1\<lparr>hs_failures := f, hs_nonces := n\<rparr>)"
    have "dead h (hs1\<lparr>hs_failures := f, hs_nonces := n\<rparr>)" using dead_verify [OF assms(1) v] by simp
    from dead_register [where env = env and cn = cn, OF this assms(2)] show ?thesis using e hr by (metis snd_conv)
  qed (use assms(1) hr dead_verify in \<open>auto\<close>)
qed

lemma dead_loaded:
  assumes "h \<notin> fst ` set rows" and "map_of c h = None"
  shows "map_of (foldl (\<lambda>c (k, e). AList.update k e c) c rows) h = None"
  using assms by (induction rows arbitrary: c) auto

lemma map_of_filter_none: "map_of xs h = None \<Longrightarrow> map_of (filter P xs) h = None"
  by (auto simp: map_of_eq_None_iff)

lemma dead_step: "hub_step env h hs hs' \<Longrightarrow> dead h hs \<Longrightarrow> dead h hs'"
proof (induction rule: hub_step.induct)
  case (revoked hs ts a)
  then show ?case
    by (auto simp: revoke_agent_credential_def intro!: dead_update split: option.splits)
next
  case (deleted hs a)
  then show ?case by (auto simp: dead_def delete_agent_def distinct_delete)
next
  case (token_created raw hs now)
  then show ?case by (auto simp: dead_def create_token_def Let_def)
next
  case (tokens_cleaned hs now)
  then show ?case by (auto simp: dead_def cleanup_def cleanup_db_def map_of_filter_none)
next
  case (tokens_loaded hs now)
  then show ?case by (auto simp: dead_def load_from_db_def Let_def intro!: dead_loaded)
qed (auto intro: dead_connection)

lemma dead_steps: "(hub_step env h)\<^sup>*\<^sup>* hs hs' \<Longrightarrow> dead h hs \<Longrightarrow> dead h hs'"
  by (induction rule: rtranclp_induct) (auto dest: dead_step)

section \<open>Failures from one peer\<close>

lemma rebind_keeps_guards:
  assumes "verify_auth env now fr hs = (r, hs')"
  shows "hs_failures hs' = hs_failures hs" and "hs_bans hs' = hs_bans hs" and "hs_registry hs' = hs_registry hs"
proof -
  have e: "verify_enrolment env now tok host x = (r, hs') \<Longrightarrow>
      hs_failures hs' = hs_failures x \<and> hs_bans hs' = hs_bans x \<and> hs_registry hs' = hs_registry x" for tok host x
    by (auto simp: verify_enrolment_def split: sum.splits bool.splits prod.splits)
  have "hs_failures hs' = hs_failures hs \<and> hs_bans hs' = hs_bans hs \<and> hs_registry hs' = hs_registry hs"
    using assms by (auto simp: verify_auth_def Let_def dest!: e split: if_splits option.splits bool.splits prod.splits)
  then show "hs_failures hs' = hs_failures hs" "hs_bans hs' = hs_bans hs" "hs_registry hs' = hs_registry hs" by simp_all
qed

definition failures :: "string \<Rightarrow> hub_state \<Rightarrow> nat" where
  "failures p hs = (case map_of (hs_failures hs) p of None \<Rightarrow> 0 | Some n \<Rightarrow> n)"

lemma denied_step:
  assumes "handle_register env cn hs = (Denied d, hs')"
  shows "if failures (cn_peer cn) hs + 1 \<ge> max_auth_failures
    then map_of (hs_bans hs') (cn_peer cn) = Some (cn_mono cn + auth_ban_seconds)
    else failures (cn_peer cn) hs' = failures (cn_peer cn) hs + 1"
proof -
  obtain r hs1 where v: "verify_auth env (cn_now cn) (cn_frame cn) hs = (r, hs1)" by fastforce
  have "hs' = record_auth_failure (cn_peer cn) (cn_mono cn) hs1"
    using assms by (auto simp: handle_register_def v register_agent_def Let_def
      split: if_splits sum.splits option.splits prod.splits bool.splits)
  then show ?thesis
    using rebind_keeps_guards [OF v]
    by (auto simp: record_auth_failure_def failures_def Let_def split: option.splits)
qed

fun connections :: "hub_env \<Rightarrow> connection list \<Rightarrow> hub_state \<Rightarrow> hub_state" where
  "connections env [] hs = hs"
| "connections env (cn # cns) hs = connections env cns (snd (handle_register env cn hs))"

fun all_denied :: "hub_env \<Rightarrow> connection list \<Rightarrow> hub_state \<Rightarrow> bool" where
  "all_denied env [] hs = True"
| "all_denied env (cn # cns) hs =
     ((\<exists>d. fst (handle_register env cn hs) = Denied d) \<and> all_denied env cns (snd (handle_register env cn hs)))"

lemma denied_run:
  "all_denied env cns hs \<Longrightarrow> \<forall>cn\<in>set cns. cn_peer cn = p \<Longrightarrow> cns \<noteq> [] \<Longrightarrow>
     failures p hs + length cns = max_auth_failures \<Longrightarrow>
     map_of (hs_bans (connections env cns hs)) p = Some (cn_mono (last cns) + auth_ban_seconds)"
proof (induction cns arbitrary: hs)
  case (Cons cn cns)
  obtain d hs1 where h: "handle_register env cn hs = (Denied d, hs1)"
    using Cons.prems(1) by (cases "handle_register env cn hs") auto
  have p: "cn_peer cn = p" using Cons.prems(2) by simp
  show ?case
  proof (cases cns)
    case Nil
    then show ?thesis using denied_step [OF h] Cons.prems(4) h p by simp
  next
    case c: (Cons x xs)
    then have "failures p hs1 = failures p hs + 1" using denied_step [OF h] Cons.prems(4) p by (auto split: if_splits)
    then have "map_of (hs_bans (connections env cns hs1)) p = Some (cn_mono (last cns) + auth_ban_seconds)"
      by (intro Cons.IH) (use Cons.prems h c in auto)
    then show ?thesis using h c by simp
  qed
qed simp

section \<open>Properties\<close>

lemma registered_spec:
  assumes "handle_register env cn hs = (Registered kind agent host minted, hs')"
  shows "\<exists>hs1 f n. \<not> is_banned (cn_peer cn) (cn_mono cn) hs
    \<and> verify_auth env (cn_now cn) (cn_frame cn) hs = (Inr (Inr kind), hs1)
    \<and> agent = frame_agent cn \<and> host = frame_host (cn_frame cn) \<and> py_strip host \<noteq> []
    \<and> register_agent env cn kind agent host (hs1\<lparr>hs_failures := f, hs_nonces := n\<rparr>) = (Registered kind agent host minted, hs')"
proof -
  obtain r hs1 where va: "verify_auth env (cn_now cn) (cn_frame cn) hs = (r, hs1)" by fastforce
  have b: "\<not> is_banned (cn_peer cn) (cn_mono cn) hs \<and> \<not> max_preauth_connections \<le> cn_preauth cn"
    using assms by (auto simp: handle_register_def split: if_splits)
  obtain k where r: "r = Inr (Inr k)"
    using assms va b by (cases r) (auto simp: handle_register_def split: sum.splits)
  let ?hs2 = "hs1\<lparr>hs_failures := AList.delete (cn_peer cn) (hs_failures hs1)\<rparr>"
  obtain why n where f: "freshness cn k (hs_nonces ?hs2) = (why, n)" by fastforce
  have w: "why = None" "py_strip (frame_host (cn_frame cn)) \<noteq> []"
    and g: "register_agent env cn k (frame_agent cn) (frame_host (cn_frame cn)) (?hs2\<lparr>hs_nonces := n\<rparr>)
      = (Registered kind agent host minted, hs')"
    using assms va r b f by (auto simp: handle_register_def Let_def split: if_split_asm option.split_asm)
  have e: "k = kind" "frame_agent cn = agent" "frame_host (cn_frame cn) = host"
    using g by (auto simp: register_agent_def Let_def split: prod.splits bool.splits)
  show ?thesis using va r b w g e by blast
qed

lemma register_agent_registry:
  assumes "register_agent env cn kind agent host hs = (Registered kind agent host minted, hs')"
  shows "\<exists>rg. register agent host (rf_info (cn_frame cn)) (Some (cn_id cn)) (Some (cn_id cn)) (hs_registry hs) = (True, rg)"
    and "hs_tokens hs' = hs_tokens hs"
    and "minted = (if kind \<noteq> Per_agent \<and> he_repo env then Some (cn_mint cn) else None)"
  using assms by (auto simp: register_agent_def Let_def split: prod.splits bool.splits)

definition sample_env :: hub_env where
  "sample_env = \<lparr>he_hash = (\<lambda>t. CHR ''#'' # t), he_shared = ''fleet'', he_repo = True\<rparr>"

definition sample_hub :: "creds \<Rightarrow> hub_state" where
  "sample_hub cs = \<lparr>hs_creds = cs, hs_tokens = \<lparr>ts_cache = [], ts_rows = [], ts_db = False\<rparr>, hs_window = None,
     hs_failures = [], hs_bans = [], hs_nonces = [], hs_registry = empty_registry\<rparr>"

definition sample_frame :: "string \<Rightarrow> string option \<Rightarrow> register_frame" where
  "sample_frame tok host = \<lparr>rf_token = Some tok, rf_agent = Some ''a1'', rf_host = host, rf_action = ''register'',
     rf_info = [], rf_replay = False, rf_echoes = True, rf_body = []\<rparr>"

definition sample_connection :: "string \<Rightarrow> string option \<Rightarrow> connection" where
  "sample_connection tok host = \<lparr>cn_now = 1000, cn_mono = 50, cn_stamp = ''t1'', cn_peer = ''p1'', cn_id = ''c1'',
     cn_fresh_agent = ''u1'', cn_mint = ''m1'', cn_preauth = 0, cn_frame = sample_frame tok host\<rparr>"

definition sample_creds :: creds where
  "sample_creds = [(''a1'', \<lparr>cr_host = ''web'', cr_hash = Some ''#tok'', cr_set_at = Some ''t0'', cr_revoked = None\<rparr>)]"

lemmas sample_defs = sample_env_def sample_hub_def sample_frame_def sample_connection_def sample_creds_def

text \<open>C15: Every host that joins was let in by one of the three kinds of token, and took nobody's place.  A
  register frame that is acknowledged came from a peer that is not banned and carried a token that is
  either the unrevoked credential of the claimed agent (presented from the host it is bound to, when the
  frame names one) or of the same host under an earlier identity, or the fleet-wide token while
  enrolment was allowed, or an unexpired bootstrap token, which is spent; its host has a name, no other
  live connection holds the name or the identity, and a new credential is handed out exactly when the
  host did not come with its own.\<close>

theorem registered_is_authorised:
  assumes "handle_register env cn hs = (Registered kind agent host minted, hs')"
    and "distinct (map fst (hs_creds hs))"
  shows "\<not> is_banned (cn_peer cn) (cn_mono cn) hs \<and> field (rf_token (cn_frame cn)) \<noteq> []
    \<and> authorised env (cn_now cn) (cn_frame cn) hs kind
    \<and> (kind = Bootstrap \<longrightarrow>
        map_of (ts_cache (hs_tokens hs')) (he_hash env (field (rf_token (cn_frame cn)))) = None)
    \<and> py_strip host \<noteq> [] \<and> \<not> host_held (hs_registry hs) agent host \<and> \<not> id_elsewhere (hs_registry hs) agent host
    \<and> minted = (if kind \<noteq> Per_agent \<and> he_repo env then Some (cn_mint cn) else None)"
proof -
  obtain hs1 f n where s: "\<not> is_banned (cn_peer cn) (cn_mono cn) hs"
    "verify_auth env (cn_now cn) (cn_frame cn) hs = (Inr (Inr kind), hs1)" "py_strip host \<noteq> []"
    "register_agent env cn kind agent host (hs1\<lparr>hs_failures := f, hs_nonces := n\<rparr>) = (Registered kind agent host minted, hs')"
    using registered_spec [OF assms(1)] by blast
  have g: "hs_registry hs1 = hs_registry hs" using rebind_keeps_guards [OF s(2)] by simp
  obtain rg where "register agent host (rf_info (cn_frame cn)) (Some (cn_id cn)) (Some (cn_id cn)) (hs_registry hs) = (True, rg)"
    using register_agent_registry(1) [OF s(4)] g by auto
  then have "\<not> host_held (hs_registry hs) agent host \<and> \<not> id_elsewhere (hs_registry hs) agent host"
    by (auto simp: register_def split: if_splits)
  moreover have "hs_tokens hs' = hs_tokens hs1" using register_agent_registry(2) [OF s(4)] by simp
  ultimately show ?thesis
    using s(1,3) verify_auth_spec [OF s(2) assms(2)] register_agent_registry(3) [OF s(4)] by simp
qed

theorem registered_is_authorised_witness:
  "authorised sample_env 1000 (sample_frame ''fleet'' (Some ''web'')) (sample_hub []) Shared"
proof -
  let ?cn = "sample_connection ''fleet'' (Some ''web'')"
  have r: "fst (handle_register sample_env ?cn (sample_hub [])) = Registered Shared ''a1'' ''web'' (Some ''m1'')"
    by code_simp
  then have "handle_register sample_env ?cn (sample_hub [])
      = (Registered Shared ''a1'' ''web'' (Some ''m1''), snd (handle_register sample_env ?cn (sample_hub [])))"
    by (metis prod.collapse)
  from registered_is_authorised [OF this] show ?thesis by (simp add: sample_defs)
qed

definition sole_credential :: "hub_env \<Rightarrow> string \<Rightarrow> string \<Rightarrow> hub_state \<Rightarrow> bool" where
  "sole_credential env tok a hs =
     (distinct (map fst (hs_creds hs)) \<and> list_all (\<lambda>(b, c). cr_hash c = Some (he_hash env tok) \<longrightarrow> b = a) (hs_creds hs)
      \<and> map_of (ts_cache (hs_tokens hs)) (he_hash env tok) = None
      \<and> he_hash env tok \<notin> fst ` set (ts_rows (hs_tokens hs)) \<and> tok \<noteq> he_shared env)"

definition revoke :: "string \<Rightarrow> string \<Rightarrow> hub_state \<Rightarrow> hub_state" where
  "revoke ts a hs = hs\<lparr>hs_creds := snd (revoke_agent_credential ts a (hs_creds hs))\<rparr>"

lemma revoke_dead:
  assumes "sole_credential env tok a hs"
  shows "dead (he_hash env tok) (revoke ts a hs)"
proof (rule deadI)
  let ?h = "he_hash env tok"
  have d: "distinct (map fst (hs_creds hs))" using assms by (simp only: sole_credential_def)
  then show "distinct (map fst (hs_creds (revoke ts a hs)))"
    by (auto simp: revoke_def revoke_agent_credential_def distinct_update split: option.splits)
  show "map_of (ts_cache (hs_tokens (revoke ts a hs))) ?h = None" using assms by (simp add: revoke_def sole_credential_def)
  show "?h \<notin> fst ` set (ts_rows (hs_tokens (revoke ts a hs)))" using assms by (simp add: revoke_def sole_credential_def)
  fix b c assume m: "map_of (hs_creds (revoke ts a hs)) b = Some c" and c: "cr_hash c = Some ?h"
  have only: "map_of (hs_creds hs) b = Some c \<Longrightarrow> b = a"
    using assms c by (auto simp: sole_credential_def list_all_iff)
  show "cr_revoked c \<noteq> None"
    using m only c by (auto simp: revoke_def revoke_agent_credential_def split: option.splits if_splits simp del: map_of_eq_Some_iff)
qed

text \<open>C16: A revoked credential stays dead.  Once an operator has revoked the one credential a token opens, no
  sequence of connections (of this host or others), revocations, deletions, window changes, token store
  upkeep or registry events brings it back: a register frame that presents the token is never
  acknowledged.\<close>

theorem revoked_token_dead:
  assumes "sole_credential env tok a hs"
    and "(hub_step env (he_hash env tok))\<^sup>*\<^sup>* (revoke ts a hs) hs'"
    and "field (rf_token (cn_frame cn)) = tok"
  shows "fst (handle_register env cn hs') \<noteq> Registered kind agent host minted"
proof
  assume r: "fst (handle_register env cn hs') = Registered kind agent host minted"
  have d: "dead (he_hash env tok) hs'" using dead_steps [OF assms(2) revoke_dead [OF assms(1)]] .
  have "handle_register env cn hs' = (Registered kind agent host minted, snd (handle_register env cn hs'))"
    using r by (metis prod.collapse)
  then obtain hs1 where "verify_auth env (cn_now cn) (cn_frame cn) hs' = (Inr (Inr kind), hs1)"
    using registered_spec by blast
  then show False
    using dead_denied [OF d _ assms(3)] assms(1) by (auto simp: sole_credential_def)
qed

theorem revoked_token_dead_witness:
  "fst (handle_register sample_env (sample_connection ''tok'' (Some ''web''))
     ((revoke ''t2'' ''a1'' (sample_hub sample_creds))\<lparr>hs_window := open_window 1000 30\<rparr>)) \<noteq> Registered Per_agent ''a1'' ''web'' None"
  by (rule revoked_token_dead [where tok = "''tok''" and a = "''a1''" and hs = "sample_hub sample_creds" and ts = "''t2''"])
    (auto simp: sole_credential_def sample_defs field_def intro: r_into_rtranclp hub_step.window_changed)

text \<open>Guessing is limited.  When a peer's refused registrations reach five in a row, its next connection before
  the ban ends (a minute after the last of them) is closed before its frame is read, and changes nothing.\<close>

theorem five_failures_ban:
  assumes "all_denied env cns hs" and "\<forall>cn\<in>set cns. cn_peer cn = p" and "cns \<noteq> []"
    and "failures p hs + length cns = max_auth_failures"
    and "cn_peer next_cn = p" and "cn_mono next_cn < cn_mono (last cns) + 60"
  shows "handle_register env next_cn (connections env cns hs) = (Banned, connections env cns hs)"
  using denied_run [OF assms(1-4)] assms(5,6) by (simp add: handle_register_def is_banned_def auth_ban_seconds_def)

theorem five_failures_ban_witness:
  "fst (handle_register sample_env (sample_connection ''tok'' (Some ''web''))
     (connections sample_env (replicate 5 (sample_connection ''guess'' (Some ''web''))) (sample_hub sample_creds))) = Banned"
proof -
  let ?cns = "replicate 5 (sample_connection ''guess'' (Some ''web''))"
  have d: "all_denied sample_env ?cns (sample_hub sample_creds)"
    by (simp add: eval_nat_numeral handle_register_def is_banned_def max_preauth_connections_def verify_auth_def Let_def
        own_credential_def get_agent_credential_def rebind_by_hostname_def get_agent_credentials_by_hostname_def nonempty_def
        verify_enrolment_def compare_digest_def consume_def verify_token_def record_auth_failure_def max_auth_failures_def
        sample_defs field_def)
  have f: "failures ''p1'' (sample_hub sample_creds) + length ?cns = max_auth_failures"
    by (simp add: failures_def sample_defs max_auth_failures_def)
  show ?thesis
    using five_failures_ban [OF d _ _ f, of "sample_connection ''tok'' (Some ''web'')"] by (simp add: sample_connection_def)
qed

text \<open>A frame without a hostname slips past the host binding and rewrites it.  A stolen credential presented
  from anywhere in a frame that leaves the hostname out is acknowledged as the host "unknown" (while the
  real host is not connected), the credential's recorded host becomes "unknown", and from then on the
  real host is refused with its own token.\<close>

theorem nameless_register_accepted:
  assumes "get_agent_credential (hs_creds hs) a = Some c" and "cr_hash c = Some (he_hash env tok)"
    and "he_hash env tok \<noteq> []" and "cr_revoked c = None" and "cr_host c = h" and "h \<noteq> []" and "h \<noteq> ''unknown''"
    and "a \<noteq> []" and "tok \<noteq> []" and "he_repo env"
    and "rf_token fr = Some tok" and "rf_agent fr = Some a" and "rf_host fr = None" and "rf_action fr = ''register''"
    and "\<not> rf_replay fr" and "cn_frame cn = fr" and "\<not> is_banned (cn_peer cn) (cn_mono cn) hs"
    and "cn_preauth cn < max_preauth_connections"
    and "\<not> host_held (hs_registry hs) a ''unknown''" and "\<not> id_elsewhere (hs_registry hs) a ''unknown''"
    and "rf_token real = Some tok" and "rf_agent real = Some a" and "rf_host real = Some h"
  shows "\<exists>hs' d. handle_register env cn hs = (Registered Per_agent a ''unknown'' None, hs')
    \<and> get_agent_credential (hs_creds hs') a = Some (c\<lparr>cr_host := ''unknown''\<rparr>)
    \<and> fst (verify_auth env now real hs') = Inr (Inl d)"
proof -
  have ne: "nonempty (cr_hash c) \<noteq> None" using assms(2,3) by (auto simp: nonempty_def split: list.splits)
  have own: "own_credential env tok a hs = Some c" using assms(1,2) ne by (simp add: own_credential_def)
  have va: "verify_auth env (cn_now cn) fr hs = (Inr (Inr Per_agent), hs)"
    using own assms by (simp add: verify_auth_def Let_def field_def)
  let ?hs2 = "hs\<lparr>hs_failures := AList.delete (cn_peer cn) (hs_failures hs), hs_nonces := hs_nonces hs\<rparr>"
  have st: "py_strip ''unknown'' \<noteq> []" by code_simp
  have hr: "handle_register env cn hs = register_agent env cn Per_agent a ''unknown'' ?hs2"
    using va assms st by (simp add: handle_register_def freshness_def frame_host_def frame_agent_def Let_def)
  obtain rg where rg: "register a ''unknown'' (rf_info fr) (Some (cn_id cn)) (Some (cn_id cn)) (hs_registry hs) = (True, rg)"
    using assms(19,20) by (simp add: register_def Let_def)
  obtain hs' where ra: "register_agent env cn Per_agent a ''unknown'' ?hs2 = (Registered Per_agent a ''unknown'' None, hs')"
    and cs: "hs_creds hs' = upsert_agent a ''unknown'' (hs_creds hs)"
    using rg assms(10,16) by (simp add: register_agent_def Let_def)
  have g: "get_agent_credential (hs_creds hs') a = Some (c\<lparr>cr_host := ''unknown''\<rparr>)"
    using cs assms(1) by (simp add: get_agent_credential_def upsert_agent_def)
  have "own_credential env tok a hs' = Some (c\<lparr>cr_host := ''unknown''\<rparr>)"
    using g assms(2) ne by (simp add: own_credential_def)
  then have "\<exists>d. fst (verify_auth env now real hs') = Inr (Inl d)"
    using assms by (simp add: verify_auth_def Let_def field_def)
  then show ?thesis using hr ra g by auto
qed

theorem nameless_register_accepted_witness:
  "\<exists>hs'. handle_register sample_env (sample_connection ''tok'' None) (sample_hub sample_creds)
     = (Registered Per_agent ''a1'' ''unknown'' None, hs')"
  using nameless_register_accepted [of "sample_hub sample_creds" "''a1''" "\<lparr>cr_host = ''web'', cr_hash = Some ''#tok'',
      cr_set_at = Some ''t0'', cr_revoked = None\<rparr>" sample_env "''tok''" "''web''" "sample_frame ''tok'' None"
      "sample_connection ''tok'' None" "sample_frame ''tok'' (Some ''web'')" 1000]
  by (simp add: sample_defs get_agent_credential_def is_banned_def max_preauth_connections_def host_held_def id_elsewhere_def
      empty_registry_def)
    blast

end
