(* ===== verification/Fence_Verify.thy ===== *)
theory Fence_Verify
  imports Guest_Network
begin

text \<open>
  Is the fence around a guest established or only written: \<^verbatim>\<open>provision/fence_verify.py\<close>.

  A guest is asked to open connections to addresses inside the isolated ranges and to addresses outside,
  and the verdict is read off what it prints.  The shell text of the probe is built by the service and
  run by the guest, so it is a parameter of the world; name resolution is one too.  Addresses are IPv4;
  a text that is an IPv6 address counts as no address.
\<close>

section \<open>Probes\<close>

datatype fence_verdict = Verified | Breached | Unverified

record probe_target =
  tg_host :: string
  tg_port :: nat
  tg_role :: string
  tg_label :: string

definition endpoint :: "probe_target \<Rightarrow> string" where
  "endpoint t = tg_host t @ '':'' @ digits_nat (tg_port t)"

record probe_result =
  rs_target :: probe_target
  rs_outcome :: string

definition reached :: "probe_result \<Rightarrow> bool" where
  "reached r = (rs_outcome r \<in> {''CONNECTED'', ''REFUSED''})"

definition as_record :: "probe_result \<Rightarrow> jval" where
  "as_record r = JObj [(''target'', JStr (endpoint (rs_target r))), (''what'', JStr (tg_label (rs_target r))),
     (''outcome'', JStr (rs_outcome r))]"

section \<open>What the guest printed\<close>

text \<open>\<open>str.splitlines()\<close>.\<close>

definition line_break :: "char \<Rightarrow> bool" where
  "line_break c = (let n = (of_char c :: nat) in (10 \<le> n \<and> n \<le> 13) \<or> (28 \<le> n \<and> n \<le> 30) \<or> n = 133)"

fun splitlines_from :: "string \<Rightarrow> string \<Rightarrow> string list" where
  "splitlines_from acc [] = (if acc = [] then [] else [rev acc])"
| "splitlines_from acc (c # cs) =
     (if \<not> line_break c then splitlines_from (c # acc) cs
      else rev acc # splitlines_from [] (if c = cr \<and> cs \<noteq> [] \<and> hd cs = nl then tl cs else cs))"

definition splitlines :: "string \<Rightarrow> string list" where
  "splitlines = splitlines_from []"

text \<open>\<open>line.strip().split(None, 1)\<close>, where it gives two parts; the second is stripped again.\<close>

definition endpoint_token :: "string \<Rightarrow> (string \<times> string) option" where
  "endpoint_token line =
     (let s = py_strip line; w = takeWhile (\<lambda>c. \<not> py_isspace c) s;
          r = py_strip (dropWhile (\<lambda>c. \<not> py_isspace c) s)
      in if w = [] \<or> r = [] then None else Some (w, r))"

fun said :: "string list \<Rightarrow> (string \<times> string) list \<Rightarrow> (string \<times> string) list" where
  "said [] out = out"
| "said (line # ls) out =
     (case endpoint_token line of
        None \<Rightarrow> said ls out
      | Some (w, r) \<Rightarrow> said ls (if map_of out w = None then out @ [(w, r)] else out))"

definition head_token :: "string \<Rightarrow> string" where
  "head_token s = takeWhile (\<lambda>c. c \<noteq> CHR '':'') s"

definition known_tokens :: "string list" where
  "known_tokens = [''CONNECTED'', ''REFUSED'', ''TIMEOUT'', ''EPERM'', ''UNREACH'', ''NOTOOL'']"

definition probe_token :: "string option \<Rightarrow> string" where
  "probe_token t =
     (case t of
        None \<Rightarrow> ''OTHER:the guest printed nothing for this target''
      | Some s \<Rightarrow> if head_token s \<notin> set known_tokens then ''OTHER:'' @ take 120 s else s)"

definition parse_probe_output :: "string \<Rightarrow> probe_target list \<Rightarrow> probe_result list" where
  "parse_probe_output out targets =
     (let m = said (splitlines out) [] in
      map (\<lambda>t. \<lparr>rs_target = t, rs_outcome = probe_token (map_of m (endpoint t))\<rparr>) targets)"

section \<open>What to probe\<close>

text \<open>\<open>ip_network(text, strict=False)\<close>: host bits are cleared.\<close>

definition parse_net_loose :: "string \<Rightarrow> ipv4_net option" where
  "parse_net_loose s =
     (case split_on (CHR ''/'') s of
        [a] \<Rightarrow> map_option (\<lambda>i. \<lparr>net_addr = i, net_len = 32\<rparr>) (parse_ipv4 a)
      | [a, m] \<Rightarrow>
          (case (parse_ipv4 a, parse_mask m) of
             (Some i, Some p) \<Rightarrow> Some \<lparr>net_addr = i - i mod 2 ^ (32 - p), net_len = p\<rparr>
           | _ \<Rightarrow> None)
      | _ \<Rightarrow> None)"

definition inside :: "string \<Rightarrow> string list \<Rightarrow> bool" where
  "inside address cidrs =
     (case parse_ipv4 address of
        None \<Rightarrow> False
      | Some ip \<Rightarrow> list_ex (\<lambda>c. case parse_net_loose c of None \<Rightarrow> False | Some n \<Rightarrow> in_net ip n) cidrs)"

text \<open>A literal address comes back as it is; a name goes to the resolver.\<close>

definition resolve_ipv4 :: "(string \<Rightarrow> string option) \<Rightarrow> string \<Rightarrow> string option" where
  "resolve_ipv4 resolver host = (case parse_ipv4 host of Some ip \<Rightarrow> Some (str_ipv4 ip) | None \<Rightarrow> resolver host)"

definition isolated_targets ::
  "(string \<Rightarrow> string option) \<Rightarrow> string option \<Rightarrow> nat \<Rightarrow> string list \<Rightarrow> probe_target list" where
  "isolated_targets resolver host port cidrs =
     (case host of
        None \<Rightarrow> []
      | Some h \<Rightarrow>
          if h = [] then [] else
          (case resolve_ipv4 resolver h of
             None \<Rightarrow> []
           | Some a \<Rightarrow>
               (if \<not> inside a cidrs then []
                else \<lparr>tg_host = a, tg_port = port, tg_role = ''isolated'', tg_label = ''the Proxmox host''\<rparr>
                  # (if port = 53 then []
                     else [\<lparr>tg_host = a, tg_port = 53, tg_role = ''isolated'', tg_label = ''the Proxmox host, dns port''\<rparr>]))))"

definition control_targets :: "string \<Rightarrow> string \<Rightarrow> string list \<Rightarrow> probe_target list" where
  "control_targets gateway nameserver cidrs =
     (if gateway = [] then []
      else [\<lparr>tg_host = gateway, tg_port = 53, tg_role = ''control'', tg_label = ''the guest gateway''\<rparr>])
     @ (if nameserver = [] \<or> nameserver = gateway \<or> inside nameserver cidrs \<or> parse_ipv4 nameserver = None then []
        else [\<lparr>tg_host = nameserver, tg_port = 53, tg_role = ''control'', tg_label = ''the guest's nameserver''\<rparr>])"

section \<open>The verdict\<close>

definition listed :: "probe_result list \<Rightarrow> string" where
  "listed rs = join '', '' (map (\<lambda>r. endpoint (rs_target r) @ '' '' @ rs_outcome r) rs)"

definition named :: "probe_result \<Rightarrow> string" where
  "named r = endpoint (rs_target r) @ '' ('' @ tg_label (rs_target r) @ '')''"

text \<open>\<open>heads[token]\<close>: the last isolated result whose outcome begins with the token.\<close>

definition last_with :: "string \<Rightarrow> probe_result list \<Rightarrow> probe_result option" where
  "last_with token rs = find (\<lambda>r. head_token (rs_outcome r) = token) (rev rs)"

definition judge :: "probe_result list \<Rightarrow> fence_verdict \<times> string" where
  "judge results =
     (let isolated = filter (\<lambda>r. tg_role (rs_target r) = ''isolated'') results;
          controls = filter (\<lambda>r. tg_role (rs_target r) = ''control'') results
      in if isolated = []
         then (Unverified, ''No address HomePilot knows to be alive lies inside the isolated ranges, so nothing could be probed.'')
         else case find reached isolated of
           Some hit \<Rightarrow>
             (Breached, ''The guest reached '' @ named hit @ '' inside the isolated range: the connection ''
                @ (if rs_outcome hit = ''CONNECTED'' then ''completed a TCP handshake'' else ''answered with a reset'')
                @ ''. The fence does not hold.'')
         | None \<Rightarrow>
           (case find (\<lambda>r. rs_outcome r = ''TIMEOUT'') isolated of
              Some probe \<Rightarrow>
                (case find reached controls of
                   Some ctrl \<Rightarrow> (Verified, ''From inside the guest, '' @ named probe @ '' gave no answer in 4s while ''
                      @ named ctrl @ '' answered. The fence holds.'')
                 | None \<Rightarrow>
                     if controls = []
                     then (Unverified, named probe @ '' gave no answer, but there was no address outside the fence to compare against, ''
                       @ ''so a guest with no network yet would look the same.'')
                     else (Unverified, named probe @ '' gave no answer, but neither did anything outside the fence ('' @ listed controls
                       @ ''). The guest may have no network yet; silence on both sides proves nothing about the fence.''))
            | None \<Rightarrow>
                if last_with ''NOTOOL'' isolated \<noteq> None
                then (Unverified, ''The guest has neither python3 nor bash, so nothing inside it could open a connection to check the fence.'')
                else if last_with ''UNREACH'' isolated \<noteq> None \<and> controls \<noteq> [] \<and> \<not> list_ex reached controls
                then (Unverified, ''The guest had no route to anything it was asked to reach ('' @ listed results
                  @ ''): its network was not up when the probe ran, so nothing about the fence was established.'')
                else if last_with ''EPERM'' isolated \<noteq> None
                then (Unverified, ''The guest forbade the probe before a packet left it (EPERM on ''
                   @ join '', '' (map (endpoint \<circ> rs_target) (filter (\<lambda>r. rs_outcome r = ''EPERM'') isolated))
                  @ '') - on an SELinux-enforcing image qemu-guest-agent runs confined and may not open ''
                  @ ''arbitrary ports. That is a limit of the agent, not evidence about the wire.'')
                else (case last_with ''UNREACH'' isolated of
                   Some probe \<Rightarrow> (Unverified, ''The guest reported no route towards '' @ named probe
                     @ ''. A missing route is not the tap fence, so nothing about the fence was established.'')
                 | None \<Rightarrow> (Unverified, ''The probe towards '' @ named (hd isolated) @ '' ended with '' @ [CHR 0x27]
                     @ (let o' = rs_outcome (hd isolated) in if CHR '':'' \<in> set o' then tl (dropWhile (\<lambda>c. c \<noteq> CHR '':'') o') else o')
                     @ [CHR 0x27] @ '', which is neither an answer nor a silence HomePilot can read.''))))"

definition nothing_answered :: "probe_result list \<Rightarrow> bool" where
  "nothing_answered rs =
     (rs \<noteq> [] \<and> \<not> list_ex reached rs \<and> \<not> list_all (\<lambda>r. rs_outcome r = ''NOTOOL'') rs)"

section \<open>What a verdict means\<close>

lemma judge_verdict:
  "fst (judge rs) =
     (let iso = filter (\<lambda>r. tg_role (rs_target r) = ''isolated'') rs;
          ctl = filter (\<lambda>r. tg_role (rs_target r) = ''control'') rs
      in if list_ex reached iso then Breached
         else if list_ex (\<lambda>r. rs_outcome r = ''TIMEOUT'') iso \<and> list_ex reached ctl then Verified else Unverified)"
proof -
  let ?iso = "filter (\<lambda>r. tg_role (rs_target r) = ''isolated'') rs"
  let ?ctl = "filter (\<lambda>r. tg_role (rs_target r) = ''control'') rs"
  have ex: "find P xs \<noteq> None \<longleftrightarrow> list_ex P xs" for P :: "probe_result \<Rightarrow> bool" and xs
    by (auto simp: find_None_iff list_ex_iff)
  show ?thesis
  proof (cases "find reached ?iso")
    case (Some hit)
    then have "?iso \<noteq> []" "list_ex reached ?iso" using ex [of reached ?iso] by auto
    then show ?thesis using Some by (simp add: judge_def Let_def)
  next
    case None
    then have n: "\<not> list_ex reached ?iso" using ex [of reached ?iso] by simp
    show ?thesis
    proof (cases "find (\<lambda>r. rs_outcome r = ''TIMEOUT'') ?iso")
      case t: None
      then have "\<not> list_ex (\<lambda>r. rs_outcome r = ''TIMEOUT'') ?iso" using ex [of "\<lambda>r. rs_outcome r = ''TIMEOUT''" ?iso] by simp
      then show ?thesis using n None t by (simp add: judge_def Let_def option.case_eq_if)
    next
      case (Some probe)
      then have t: "?iso \<noteq> []" "list_ex (\<lambda>r. rs_outcome r = ''TIMEOUT'') ?iso" using ex [of "\<lambda>r. rs_outcome r = ''TIMEOUT''" ?iso] by auto
      have c: "list_ex reached ?ctl \<longleftrightarrow> find reached ?ctl \<noteq> None" by (simp only: ex)
      show ?thesis using n None Some t c by (cases "find reached ?ctl") (simp_all add: judge_def Let_def)
    qed
  qed
qed

lemma said_spec:
  "map_of (said ls out) w =
     (case map_of out w of Some r \<Rightarrow> Some r | None \<Rightarrow> map_of (List.map_filter endpoint_token ls) w)"
  by (induction ls arbitrary: out) (auto simp: List.map_filter_simps map_add_def split: option.splits)

text \<open>The guest printed, for this target, a line with this token, and no other line for it before.\<close>

definition printed :: "string \<Rightarrow> probe_target \<Rightarrow> string \<Rightarrow> bool" where
  "printed out t token = (map_of (List.map_filter endpoint_token (splitlines out)) (endpoint t) = Some token)"

lemma parse_outcome:
  assumes "r \<in> set (parse_probe_output out targets)" and "rs_outcome r \<in> set known_tokens"
  shows "rs_target r \<in> set targets \<and> printed out (rs_target r) (rs_outcome r)"
proof -
  obtain t where t: "t \<in> set targets" "rs_target r = t"
    and o': "rs_outcome r = probe_token (map_of (List.map_filter endpoint_token (splitlines out)) (endpoint t))"
    using assms(1) by (auto simp: parse_probe_output_def said_spec)
  let ?x = "map_of (List.map_filter endpoint_token (splitlines out)) (endpoint t)"
  have "\<exists>s. ?x = Some s \<and> rs_outcome r = s"
    using assms(2) o' by (auto simp: probe_token_def known_tokens_def split: option.splits if_splits)
  then show ?thesis using t by (auto simp: printed_def)
qed

lemma isolated_targets_spec:
  "t \<in> set (isolated_targets resolver host port cidrs) \<Longrightarrow>
     tg_role t = ''isolated'' \<and> inside (tg_host t) cidrs"
proof -
  assume t: "t \<in> set (isolated_targets resolver host port cidrs)"
  obtain h where h: "host = Some h" "h \<noteq> []" using t by (cases host) (auto simp: isolated_targets_def split: if_split_asm)
  obtain a where a: "resolve_ipv4 resolver h = Some a"
    using t h by (cases "resolve_ipv4 resolver h") (simp_all add: isolated_targets_def)
  have "inside a cidrs" using t h a by (cases "inside a cidrs") (simp_all add: isolated_targets_def)
  then show ?thesis using t h a by (auto simp: isolated_targets_def split: if_split_asm)
qed

lemma control_targets_spec:
  "t \<in> set (control_targets gateway nameserver cidrs) \<Longrightarrow>
     tg_role t = ''control'' \<and> (tg_host t = gateway \<or> \<not> inside (tg_host t) cidrs)"
  by (auto simp: control_targets_def split: if_splits)

text \<open>C13: A verdict about the fence rests on what the guest said.  When the guest's output is judged for the
  targets of a provision, \<open>Verified\<close> means it printed a timeout for an address inside the isolated ranges and
  an answer (a handshake or a reset) for one that is the gateway or outside them, and no answer from inside;
  \<open>Breached\<close> holds exactly when it printed an answer for an address inside the isolated ranges.\<close>

theorem verdict_rests_on_output:
  fixes resolver host port cidrs gateway nameserver out
  defines "targets \<equiv> isolated_targets resolver host port cidrs @ control_targets gateway nameserver cidrs"
  defines "verdict \<equiv> fst (judge (parse_probe_output out targets))"
  shows "(verdict = Verified \<longrightarrow>
      (\<exists>t\<in>set targets. inside (tg_host t) cidrs \<and> printed out t ''TIMEOUT'')
      \<and> (\<exists>t\<in>set targets. (tg_host t = gateway \<or> \<not> inside (tg_host t) cidrs)
            \<and> (printed out t ''CONNECTED'' \<or> printed out t ''REFUSED'')))
    \<and> (verdict = Breached \<longleftrightarrow>
      (\<exists>t\<in>set (isolated_targets resolver host port cidrs). inside (tg_host t) cidrs
            \<and> (printed out t ''CONNECTED'' \<or> printed out t ''REFUSED'')))"
proof -
  let ?rs = "parse_probe_output out targets"
  have role: "tg_role t = ''isolated'' \<longleftrightarrow> t \<in> set (isolated_targets resolver host port cidrs)" if "t \<in> set targets" for t
    using that isolated_targets_spec [of t resolver host port cidrs] control_targets_spec [of t gateway nameserver cidrs]
    by (auto simp: targets_def)
  have ctl: "t \<in> set (control_targets gateway nameserver cidrs)" if "t \<in> set targets" "tg_role t = ''control''" for t
    using that isolated_targets_spec [of t resolver host port cidrs] by (auto simp: targets_def)
  have out: "r \<in> set ?rs \<Longrightarrow> rs_outcome r \<in> set known_tokens \<Longrightarrow>
      rs_target r \<in> set targets \<and> printed out (rs_target r) (rs_outcome r)" for r
    by (rule parse_outcome)
  have reach: "printed out (rs_target r) ''CONNECTED'' \<or> printed out (rs_target r) ''REFUSED''"
    if "r \<in> set ?rs" "reached r" for r
    using out [OF that(1)] that(2) by (auto simp: reached_def known_tokens_def)
  have mem: "r \<in> set ?rs \<Longrightarrow> rs_target r \<in> set targets" for r by (auto simp: parse_probe_output_def)
  have answered: "\<exists>r\<in>set ?rs. rs_target r = t \<and> reached r" if "t \<in> set targets" "printed out t tok" "tok \<in> {''CONNECTED'', ''REFUSED''}" for t tok
  proof
    have tok: "probe_token (Some tok) = tok" using that(3) by (auto simp: probe_token_def known_tokens_def head_token_def)
    have m: "map_of (said (splitlines out) []) (endpoint t) = Some tok" using that(2) by (simp add: said_spec printed_def)
    show "\<lparr>rs_target = t, rs_outcome = tok\<rparr> \<in> set ?rs"
      using that(1) tok m by (auto simp: parse_probe_output_def intro!: image_eqI [of _ _ t])
  qed (use that(3) in \<open>simp add: reached_def\<close>)
  have br: "verdict = Breached \<longleftrightarrow> (\<exists>r\<in>set ?rs. tg_role (rs_target r) = ''isolated'' \<and> reached r)"
    by (auto simp: verdict_def judge_verdict Let_def list_ex_iff)
  have ve: "verdict = Verified \<Longrightarrow> (\<exists>r\<in>set ?rs. tg_role (rs_target r) = ''isolated'' \<and> rs_outcome r = ''TIMEOUT'')
      \<and> (\<exists>r\<in>set ?rs. tg_role (rs_target r) = ''control'' \<and> reached r)"
    by (auto simp: verdict_def judge_verdict Let_def list_ex_iff split: if_splits)
  show ?thesis
  proof (intro conjI impI)
    assume v: "verdict = Verified"
    obtain r where r: "r \<in> set ?rs" "tg_role (rs_target r) = ''isolated''" "rs_outcome r = ''TIMEOUT''" using ve [OF v] by blast
    have "rs_target r \<in> set targets \<and> printed out (rs_target r) ''TIMEOUT''" using out [OF r(1)] r(3) by (simp add: known_tokens_def)
    then show "\<exists>t\<in>set targets. inside (tg_host t) cidrs \<and> printed out t ''TIMEOUT''"
      using role r(2) isolated_targets_spec by blast
    obtain q where q: "q \<in> set ?rs" "tg_role (rs_target q) = ''control''" "reached q" using ve [OF v] by blast
    show "\<exists>t\<in>set targets. (tg_host t = gateway \<or> \<not> inside (tg_host t) cidrs)
        \<and> (printed out t ''CONNECTED'' \<or> printed out t ''REFUSED'')"
      using control_targets_spec [OF ctl [OF mem [OF q(1)] q(2)]] reach [OF q(1,3)] mem [OF q(1)] by blast
  next
    show "verdict = Breached \<longleftrightarrow> (\<exists>t\<in>set (isolated_targets resolver host port cidrs). inside (tg_host t) cidrs
            \<and> (printed out t ''CONNECTED'' \<or> printed out t ''REFUSED''))" (is "_ \<longleftrightarrow> ?R")
    proof
      assume "verdict = Breached"
      then obtain r where r: "r \<in> set ?rs" "tg_role (rs_target r) = ''isolated''" "reached r" using br by blast
      then show ?R using reach [OF r(1,3)] role [OF mem [OF r(1)]] isolated_targets_spec by blast
    next
      assume ?R
      then obtain t where t: "t \<in> set (isolated_targets resolver host port cidrs)"
        "printed out t ''CONNECTED'' \<or> printed out t ''REFUSED''" by blast
      then have "t \<in> set targets" by (simp add: targets_def)
      then obtain r where "r \<in> set ?rs" "rs_target r = t" "reached r" using t(2) answered by blast
      then show "verdict = Breached" using br role t(1) \<open>t \<in> set targets\<close> by blast
    qed
  qed
qed

definition sample_targets :: "probe_target list" where
  "sample_targets = isolated_targets (\<lambda>_. None) (Some ''192.168.1.2'') 53 [''192.168.1.0/24'']
     @ control_targets ''10.9.0.1'' [] [''192.168.1.0/24'']"

definition sample_output :: string where
  "sample_output = ''192.168.1.2:53 TIMEOUT'' @ [nl] @ ''10.9.0.1:53 REFUSED''"

lemma sample_addresses:
  "parse_ipv4 ''192.168.1.2'' = Some 3232235778" "parse_ipv4 ''10.9.0.1'' = Some 168361985"
  "parse_net_loose ''192.168.1.0/24'' = Some \<lparr>net_addr = 3232235776, net_len = 24\<rparr>"
  "str_ipv4 3232235778 = ''192.168.1.2''"
  by (simp_all add: parse_ipv4_def parse_octet_def is_digit_def nat_of_digits_def Let_def parse_net_loose_def parse_mask_def
      str_ipv4_def digits_nat.simps char_of_def bit_Suc_0_iff)

lemma sample_targets_eq:
  "sample_targets =
     [\<lparr>tg_host = ''192.168.1.2'', tg_port = 53, tg_role = ''isolated'', tg_label = ''the Proxmox host''\<rparr>,
      \<lparr>tg_host = ''10.9.0.1'', tg_port = 53, tg_role = ''control'', tg_label = ''the guest gateway''\<rparr>]"
  by (simp add: sample_targets_def isolated_targets_def control_targets_def resolve_ipv4_def inside_def sample_addresses
      in_net_def net_size_def)

lemma sample_outcomes:
  "map rs_outcome (parse_probe_output sample_output sample_targets) = [''TIMEOUT'', ''REFUSED'']"
proof -
  have e: "map endpoint sample_targets = [''192.168.1.2:53'', ''10.9.0.1:53'']"
    by (simp add: sample_targets_eq endpoint_def digits_nat.simps char_of_def bit_Suc_0_iff)
  have m: "said (splitlines sample_output) [] = [(''192.168.1.2:53'', ''TIMEOUT''), (''10.9.0.1:53'', ''REFUSED'')]"
    by code_simp
  have "map rs_outcome (parse_probe_output sample_output sample_targets)
      = map (probe_token \<circ> map_of (said (splitlines sample_output) [])) (map endpoint sample_targets)"
    by (simp add: parse_probe_output_def Let_def)
  also have "\<dots> = [''TIMEOUT'', ''REFUSED'']"
    unfolding e m by (simp add: probe_token_def known_tokens_def head_token_def)
  finally show ?thesis .
qed

theorem verdict_rests_on_output_witness:
  "\<exists>t\<in>set sample_targets. inside (tg_host t) [''192.168.1.0/24''] \<and> printed sample_output t ''TIMEOUT''"
proof -
  have "map rs_target (parse_probe_output sample_output sample_targets) = sample_targets"
    by (simp add: parse_probe_output_def Let_def comp_def)
  then have "fst (judge (parse_probe_output sample_output sample_targets)) = Verified"
    using sample_outcomes unfolding sample_targets_eq
    by (auto simp: judge_verdict Let_def map_eq_Cons_conv reached_def)
  then show ?thesis
    using verdict_rests_on_output [where out = sample_output] unfolding sample_targets_def by blast
qed

end
