(* ===== verification/Provision_Request.thy ===== *)
theory Provision_Request
  imports Fence_Verify Address_Allocation
begin

text \<open>
  What a guest is built from: the request (\<^verbatim>\<open>provision/models.py\<close>) and the defaults of the instance that
  fill its gaps (\<^verbatim>\<open>provision/defaults.py\<close>).

  A request is the record of its typed fields.  Validation gives the names of the fields it refuses, where
  pydantic collects their errors.  The settings store is a parameter: for each key the value it resolves
  to, or an exception, and the value the registry parses out of the empty text.
\<close>

section \<open>Defaults\<close>

record provision_defaults =
  pd_node :: string
  pd_template :: int
  pd_pool :: string
  pd_storage :: string
  pd_bridge :: string
  pd_vlan :: int
  pd_ipconfig :: string
  pd_vmid_range :: string
  pd_install :: bool
  pd_ip_mode :: string
  pd_nameserver :: string

definition no_defaults :: provision_defaults where
  "no_defaults = \<lparr>pd_node = [], pd_template = 0, pd_pool = [], pd_storage = [], pd_bridge = [], pd_vlan = 0,
     pd_ipconfig = [], pd_vmid_range = [], pd_install = True, pd_ip_mode = ''static'', pd_nameserver = []\<rparr>"

definition allocates_addresses :: "provision_defaults \<Rightarrow> bool" where
  "allocates_addresses d = (py_lower (py_strip (if pd_ip_mode d = [] then ''static'' else pd_ip_mode d)) \<noteq> ''dhcp'')"

definition net0 :: "provision_defaults \<Rightarrow> string option" where
  "net0 d =
     (if pd_bridge d = [] then None
      else Some (''virtio,bridge='' @ pd_bridge d @ (if pd_vlan d \<noteq> 0 then '',tag='' @ str_int (pd_vlan d) else [])))"

definition int_or_zero :: "jval \<Rightarrow> int res" where
  "int_or_zero v =
     (if \<not> truthy v then Inr 0
      else case py_int v of Some i \<Rightarrow> Inr i | None \<Rightarrow> Inl (ValueError ''invalid literal for int()''))"

definition install_flag :: "jval \<Rightarrow> bool res" where
  "install_flag v =
     (if v = JNull then Inr True
      else case py_int v of Some i \<Rightarrow> Inr (i \<noteq> 0) | None \<Rightarrow> Inl (ValueError ''invalid literal for int()''))"

definition setting :: "(string \<Rightarrow> jval) \<Rightarrow> (string \<Rightarrow> jval res) \<Rightarrow> string \<Rightarrow> jval" where
  "setting parse_empty resolver key = (case resolver key of Inr v \<Rightarrow> v | Inl _ \<Rightarrow> parse_empty key)"

definition provisioning_defaults ::
  "(string \<Rightarrow> jval) \<Rightarrow> (string \<Rightarrow> jval res) option \<Rightarrow> provision_defaults res" where
  "provisioning_defaults parse_empty source =
     (case source of
        None \<Rightarrow> Inr no_defaults
      | Some resolver \<Rightarrow>
          (let val = setting parse_empty resolver in
           bind_res (int_or_zero (val ''provision_default_template_vmid'')) (\<lambda>template.
           bind_res (int_or_zero (val ''provision_default_vlan_tag'')) (\<lambda>vlan.
           bind_res (install_flag (val ''provision_tailscale_install'')) (\<lambda>install.
             Inr \<lparr>pd_node = str_or_empty (val ''provision_default_node''), pd_template = template,
               pd_pool = str_or_empty (val ''provision_default_pool''),
               pd_storage = str_or_empty (val ''provision_default_storage''),
               pd_bridge = str_or_empty (val ''provision_default_bridge''), pd_vlan = vlan,
               pd_ipconfig = str_or_empty (val ''provision_default_ipconfig''),
               pd_vmid_range = str_or_empty (val ''provision_vmid_range''), pd_install = install,
               pd_ip_mode = (if truthy (val ''provision_ip_mode'') then py_str (val ''provision_ip_mode'') else ''static''),
               pd_nameserver = str_or_empty (val ''provision_default_nameserver'')\<rparr>)))))"

section \<open>Filling the gaps\<close>

definition or_empty :: "string option \<Rightarrow> string" where
  "or_empty s = (case s of None \<Rightarrow> [] | Some t \<Rightarrow> t)"

definition or_none :: "string \<Rightarrow> string option" where
  "or_none s = (if s = [] then None else Some s)"

definition given_or :: "string option \<Rightarrow> string \<Rightarrow> string" where
  "given_or given dflt = (let g = py_strip (or_empty given) in if g = [] then dflt else g)"

definition missing_default :: "string \<Rightarrow> string \<Rightarrow> exn" where
  "missing_default field_name setting_name =
     ValueError (''No '' @ field_name @ '' given and no default is set. Set '' @ setting_name)"

definition resolve_node :: "string option \<Rightarrow> provision_defaults \<Rightarrow> string res" where
  "resolve_node given d =
     (let node = given_or given (pd_node d) in
      if node = [] then Inl (missing_default ''node'' ''provision_default_node'') else Inr node)"

definition resolve_template_vmid :: "int option \<Rightarrow> provision_defaults \<Rightarrow> int res" where
  "resolve_template_vmid given d =
     (let g = (case given of None \<Rightarrow> 0 | Some v \<Rightarrow> v); vmid = (if g \<noteq> 0 then g else pd_template d) in
      if vmid = 0 then Inl (missing_default ''template_vmid'' ''provision_default_template_vmid'') else Inr vmid)"

definition resolve_pool :: "string option \<Rightarrow> provision_defaults \<Rightarrow> string option" where
  "resolve_pool given d = or_none (given_or given (pd_pool d))"

definition resolve_storage :: "string option \<Rightarrow> provision_defaults \<Rightarrow> string option" where
  "resolve_storage given d = or_none (given_or given (pd_storage d))"

definition resolve_ipconfig :: "string option \<Rightarrow> provision_defaults \<Rightarrow> string" where
  "resolve_ipconfig given d =
     (let ipconfig = py_strip (or_empty given) in
      if ipconfig \<noteq> [] \<and> ipconfig \<noteq> ''ip=dhcp'' then ipconfig
      else if pd_ipconfig d \<noteq> [] then pd_ipconfig d else if ipconfig \<noteq> [] then ipconfig else ''ip=dhcp'')"

section \<open>Fields\<close>

text \<open>The whole text in front of the dollar: three to 63 lowercase letters, digits and inner hyphens.\<close>

definition guest_name_full :: "string \<Rightarrow> bool" where
  "guest_name_full s =
     (3 \<le> length s \<and> length s \<le> 63 \<and> list_all slug_char s \<and> hd s \<noteq> CHR ''-'' \<and> last s \<noteq> CHR ''-'')"

definition guest_name_ok :: "string \<Rightarrow> bool" where
  "guest_name_ok = dollar guest_name_full"

definition disk_full :: "string \<Rightarrow> bool" where
  "disk_full s = list_ex (\<lambda>p. prefix p s \<and> (let ds = drop (length p) s in
       1 \<le> length ds \<and> length ds \<le> 2 \<and> list_all is_digit ds)) [''scsi'', ''virtio'', ''sata'', ''ide'']"

definition disk_ok :: "string \<Rightarrow> bool" where
  "disk_ok = dollar disk_full"

definition storage_full :: "string \<Rightarrow> bool" where
  "storage_full s =
     (s \<noteq> [] \<and> (is_lower (hd s) \<or> is_upper (hd s)) \<and> length s \<le> 63
      \<and> list_all (\<lambda>c. is_alnum c \<or> c \<in> set ''._-'') (tl s))"

definition check_storage :: "string option \<Rightarrow> string option option" where
  "check_storage v =
     (let s = py_strip (or_empty v) in
      if s = [] then Some None else if dollar storage_full s then Some (Some s) else None)"

definition key_type_ok :: "string \<Rightarrow> bool" where
  "key_type_ok s =
     (s = ''ssh-ed25519'' \<or> s = ''ssh-rsa''
      \<or> list_ex (\<lambda>p. prefix p s \<and> drop (length p) s \<noteq> []
             \<and> list_all (\<lambda>c. is_alnum c \<or> c \<in> set ''.@-'') (drop (length p) s)) [''ecdsa-sha2-'', ''sk-''])"

text \<open>\<open>base64.b64decode(body, validate=True)\<close>: the number of bytes it decodes to.\<close>

definition b64_bytes :: "string \<Rightarrow> nat option" where
  "b64_bytes body =
     (let d = takeWhile (\<lambda>c. c \<noteq> CHR ''='') body; p = dropWhile (\<lambda>c. c \<noteq> CHR ''='') body in
      if list_all (\<lambda>c. is_alnum c \<or> c \<in> set ''+/'') d
         \<and> p = replicate (if length d mod 4 = 0 then 0 else 4 - length d mod 4) (CHR ''='') \<and> length d mod 4 \<noteq> 1
      then Some (length d * 3 div 4) else None)"

definition validate_ssh_authorized_key :: "string \<Rightarrow> string option" where
  "validate_ssh_authorized_key v =
     (if nl \<in> set v \<or> cr \<in> set v then None
      else case words_by py_isspace [] (py_strip v) of
        t # body # _ \<Rightarrow>
          (if \<not> key_type_ok t then None
           else case b64_bytes body of None \<Rightarrow> None | Some n \<Rightarrow> if n = 0 then None else Some (py_strip v))
      | _ \<Rightarrow> None)"

definition tailscale_key_shape :: "string \<Rightarrow> bool" where
  "tailscale_key_shape s =
     (prefix ''tskey-'' s \<and> list_all (\<lambda>w. w \<noteq> [] \<and> list_all is_alnum w) (split_on (CHR ''-'') (drop 6 s)))"

definition validate_tailscale_auth_key :: "string \<Rightarrow> string option" where
  "validate_tailscale_auth_key v =
     (let s = py_strip v in
      if 16 \<le> length s \<and> length s \<le> 200 \<and> tailscale_key_shape s then Some s else None)"

section \<open>Requests\<close>

record provision_request =
  rq_name :: string
  rq_node :: string
  rq_template :: int
  rq_cores :: "int option"
  rq_memory :: "int option"
  rq_disk_gb :: "int option"
  rq_disk :: string
  rq_ciuser :: string
  rq_ssh_key :: "string option"
  rq_ts_key :: "string option"
  rq_ipconfig0 :: string
  rq_owner :: "string option"
  rq_pool :: "string option"
  rq_storage :: "string option"
  rq_full :: bool

definition within :: "int \<Rightarrow> int \<Rightarrow> int option \<Rightarrow> bool" where
  "within lo hi v = (case v of None \<Rightarrow> True | Some i \<Rightarrow> lo \<le> i \<and> i \<le> hi)"

definition optionally :: "(string \<Rightarrow> string option) \<Rightarrow> string option \<Rightarrow> string option option" where
  "optionally f v = (case v of None \<Rightarrow> Some None | Some s \<Rightarrow> map_option Some (f s))"

definition refused_fields :: "provision_request \<Rightarrow> string list" where
  "refused_fields r =
     concat (map (\<lambda>(name, ok). if ok then [] else [name])
       [(''name'', guest_name_ok (rq_name r)), (''node'', rq_node r \<noteq> []), (''template_vmid'', 0 < rq_template r),
        (''cores'', within 1 32 (rq_cores r)), (''memory_mb'', within 256 65536 (rq_memory r)),
        (''disk_gb'', within 1 2000 (rq_disk_gb r)), (''disk'', disk_ok (rq_disk r)), (''ciuser'', guest_name_ok (rq_ciuser r)),
        (''ssh_authorized_key'', optionally validate_ssh_authorized_key (rq_ssh_key r) \<noteq> None),
        (''tailscale_auth_key'', optionally validate_tailscale_auth_key (rq_ts_key r) \<noteq> None),
        (''owner'', length (or_empty (rq_owner r)) \<le> 64), (''storage'', check_storage (rq_storage r) \<noteq> None)])"

definition normalised :: "provision_request \<Rightarrow> provision_request" where
  "normalised r = r\<lparr>rq_ssh_key := the (optionally validate_ssh_authorized_key (rq_ssh_key r)),
     rq_ts_key := the (optionally validate_tailscale_auth_key (rq_ts_key r)),
     rq_storage := the (check_storage (rq_storage r))\<rparr>"

definition validate_request :: "provision_request \<Rightarrow> string list + provision_request" where
  "validate_request r = (if refused_fields r = [] then Inr (normalised r) else Inl (refused_fields r))"

text \<open>\<open>ProvisionRequestIn.resolve\<close>: the gaps are filled, then the strict request is validated.\<close>

definition resolve_request :: "provision_request \<Rightarrow> provision_defaults \<Rightarrow> (exn + string list) + provision_request" where
  "resolve_request r d =
     (case resolve_node (Some (rq_node r)) d of
        Inl e \<Rightarrow> Inl (Inl e)
      | Inr node \<Rightarrow>
          (case resolve_template_vmid (Some (rq_template r)) d of
             Inl e \<Rightarrow> Inl (Inl e)
           | Inr template \<Rightarrow>
               (case validate_request (r\<lparr>rq_node := node, rq_template := template, rq_pool := resolve_pool (rq_pool r) d,
                    rq_storage := resolve_storage (rq_storage r) d, rq_ipconfig0 := resolve_ipconfig (Some (rq_ipconfig0 r)) d\<rparr>) of
                  Inl fs \<Rightarrow> Inl (Inr fs)
                | Inr q \<Rightarrow> Inr q)))"

section \<open>What a valid request is\<close>

lemma refused_iff:
  "refused_fields r = [] \<longleftrightarrow>
     guest_name_ok (rq_name r) \<and> rq_node r \<noteq> [] \<and> 0 < rq_template r \<and> within 1 32 (rq_cores r)
     \<and> within 256 65536 (rq_memory r) \<and> within 1 2000 (rq_disk_gb r) \<and> disk_ok (rq_disk r) \<and> guest_name_ok (rq_ciuser r)
     \<and> optionally validate_ssh_authorized_key (rq_ssh_key r) \<noteq> None
     \<and> optionally validate_tailscale_auth_key (rq_ts_key r) \<noteq> None
     \<and> length (or_empty (rq_owner r)) \<le> 64 \<and> check_storage (rq_storage r) \<noteq> None"
  by (simp add: refused_fields_def)

lemma ssh_key_again:
  assumes "validate_ssh_authorized_key v = Some k"
  shows "validate_ssh_authorized_key k = Some k \<and> nl \<notin> set k \<and> cr \<notin> set k"
proof -
  have v: "nl \<notin> set v" "cr \<notin> set v" using assms by (auto simp: validate_ssh_authorized_key_def split: if_splits)
  have k: "k = py_strip v"
    using assms v by (auto simp: validate_ssh_authorized_key_def split: list.splits if_splits option.splits)
  have "set k \<subseteq> set v" unfolding k py_strip_def using set_py_rstrip by (fastforce simp: py_lstrip_def dest: set_dropWhileD)
  then have n: "nl \<notin> set k" "cr \<notin> set k" using v by auto
  have "validate_ssh_authorized_key k = validate_ssh_authorized_key v"
    using v n unfolding validate_ssh_authorized_key_def k py_strip_idem by simp
  then show ?thesis using assms n by simp
qed

lemma ts_key_again: "validate_tailscale_auth_key v = Some k \<Longrightarrow> validate_tailscale_auth_key k = Some k"
  by (auto simp: validate_tailscale_auth_key_def Let_def split: if_splits)

lemma storage_again: "check_storage v = Some w \<Longrightarrow> check_storage w = Some w"
proof -
  assume "check_storage v = Some w"
  then have "w = None \<or> w = Some (py_strip (or_empty v)) \<and> py_strip (or_empty v) \<noteq> [] \<and> dollar storage_full (py_strip (or_empty v))"
    by (auto simp: check_storage_def Let_def split: if_splits)
  moreover have "py_strip (or_empty None) = []" by (simp add: or_empty_def py_strip_def py_lstrip_def)
  moreover have "or_empty (Some (py_strip s)) = py_strip s" for s by (simp add: or_empty_def)
  ultimately show ?thesis by (auto simp: check_storage_def Let_def)
qed

lemma optionally_again:
  "(\<And>s k. f s = Some k \<Longrightarrow> f k = Some k) \<Longrightarrow> optionally f v = Some w \<Longrightarrow> optionally f w = Some w"
  by (auto simp: optionally_def split: option.splits)

lemma validate_again:
  assumes "validate_request r = Inr q"
  shows "validate_request q = Inr q"
proof -
  have ok: "refused_fields r = []" and q: "q = normalised r" using assms by (auto simp: validate_request_def split: if_splits)
  obtain s t w where k: "optionally validate_ssh_authorized_key (rq_ssh_key r) = Some s"
    "optionally validate_tailscale_auth_key (rq_ts_key r) = Some t" "check_storage (rq_storage r) = Some w"
    using ok by (auto simp: refused_iff)
  have a: "optionally validate_ssh_authorized_key s = Some s" "optionally validate_tailscale_auth_key t = Some t"
    "check_storage w = Some w"
    using optionally_again [OF _ k(1)] optionally_again [OF _ k(2)] ssh_key_again ts_key_again storage_again [OF k(3)] by blast+
  have "refused_fields q = []" using ok a by (simp add: refused_iff q normalised_def k)
  moreover have "normalised q = q" using a by (simp add: q normalised_def k)
  ultimately show ?thesis by (simp add: validate_request_def)
qed

text \<open>The characters a shell reads as themselves.\<close>

definition plain :: "char \<Rightarrow> bool" where
  "plain c = (is_alnum c \<or> c = CHR ''-'')"

lemma split_on_members: "c \<in> set s \<Longrightarrow> c = d \<or> (\<exists>w\<in>set (split_on d s). c \<in> set w)"
proof (induction s)
  case (Cons a s)
  obtain w ws where w: "split_on d s = w # ws" by (cases "split_on d s") auto
  then show ?case using Cons by auto
qed simp

lemma ts_key_plain: "validate_tailscale_auth_key v = Some k \<Longrightarrow> list_all plain k"
proof -
  assume "validate_tailscale_auth_key v = Some k"
  then have s: "tailscale_key_shape k" by (auto simp: validate_tailscale_auth_key_def Let_def split: if_splits)
  then obtain t where k: "k = ''tskey-'' @ t" by (auto simp: tailscale_key_shape_def prefix_def)
  then have w: "\<forall>w\<in>set (split_on (CHR ''-'') t). \<forall>c\<in>set w. is_alnum c"
    using s by (simp add: tailscale_key_shape_def list_all_iff)
  have "\<forall>c\<in>set t. plain c" using w split_on_members [of _ t "CHR ''-''"] unfolding plain_def by blast
  then show ?thesis by (simp add: k list_all_iff plain_def is_alnum_def is_lower_def)
qed

lemma guest_name_plain: "guest_name_full s \<Longrightarrow> list_all plain s"
  by (auto simp: guest_name_full_def list_all_iff plain_def slug_char_def is_alnum_def)

text \<open>What a resolved provision request is made of.  Its node and template come from the request, or else
  from the settings, and exist; its sizes lie within the documented bounds; the SSH key is one line and the
  Tailscale key holds nothing a shell would interpret; and validating it again changes nothing.\<close>

theorem resolved_request_sound:
  assumes "resolve_request r d = Inr q"
  shows "validate_request q = Inr q
    \<and> rq_node q = given_or (Some (rq_node r)) (pd_node d) \<and> rq_node q \<noteq> []
    \<and> rq_template q = (if rq_template r \<noteq> 0 then rq_template r else pd_template d) \<and> 0 < rq_template q
    \<and> within 1 32 (rq_cores q) \<and> within 256 65536 (rq_memory q) \<and> within 1 2000 (rq_disk_gb q)
    \<and> (\<forall>k. rq_ssh_key q = Some k \<longrightarrow> nl \<notin> set k \<and> cr \<notin> set k)
    \<and> (\<forall>k. rq_ts_key q = Some k \<longrightarrow> list_all plain k)
    \<and> rq_ipconfig0 q = resolve_ipconfig (Some (rq_ipconfig0 r)) d"
proof -
  obtain node template where n: "resolve_node (Some (rq_node r)) d = Inr node"
    "resolve_template_vmid (Some (rq_template r)) d = Inr template"
    using assms by (auto simp: resolve_request_def split: sum.splits)
  let ?r = "r\<lparr>rq_node := node, rq_template := template, rq_pool := resolve_pool (rq_pool r) d,
      rq_storage := resolve_storage (rq_storage r) d, rq_ipconfig0 := resolve_ipconfig (Some (rq_ipconfig0 r)) d\<rparr>"
  have v: "validate_request ?r = Inr q" using assms n by (simp add: resolve_request_def split: sum.splits)
  then have ok: "refused_fields ?r = []" and q: "q = normalised ?r" by (auto simp: validate_request_def split: if_splits)
  obtain s t where k: "optionally validate_ssh_authorized_key (rq_ssh_key r) = Some s"
    "optionally validate_tailscale_auth_key (rq_ts_key r) = Some t"
    using ok by (auto simp: refused_iff)
  have s: "\<forall>x. s = Some x \<longrightarrow> nl \<notin> set x \<and> cr \<notin> set x"
    using k(1) ssh_key_again by (auto simp: optionally_def split: option.splits)
  have t: "\<forall>x. t = Some x \<longrightarrow> list_all plain x"
    using k(2) ts_key_plain by (auto simp: optionally_def split: option.splits)
  have nt: "node = given_or (Some (rq_node r)) (pd_node d)" "template = (if rq_template r \<noteq> 0 then rq_template r else pd_template d)"
    using n by (auto simp: resolve_node_def resolve_template_vmid_def Let_def split: if_splits)
  have f: "rq_node q = node" "rq_template q = template" "rq_cores q = rq_cores r" "rq_memory q = rq_memory r"
    "rq_disk_gb q = rq_disk_gb r" "rq_ssh_key q = s" "rq_ts_key q = t"
    "rq_ipconfig0 q = resolve_ipconfig (Some (rq_ipconfig0 r)) d"
    by (simp_all add: q normalised_def k)
  show ?thesis using validate_again [OF v] ok s t nt unfolding f by (simp add: refused_iff)
qed

definition sample_request :: provision_request where
  "sample_request = \<lparr>rq_name = ''web'', rq_node = [], rq_template = 0, rq_cores = Some 2, rq_memory = None, rq_disk_gb = None,
     rq_disk = ''scsi0'', rq_ciuser = ''friend'', rq_ssh_key = None, rq_ts_key = Some ''tskey-auth-abcdef'',
     rq_ipconfig0 = ''ip=dhcp'', rq_owner = None, rq_pool = None, rq_storage = None, rq_full = True\<rparr>"

definition sample_defaults :: provision_defaults where
  "sample_defaults = no_defaults\<lparr>pd_node := ''pve1'', pd_template := 9000\<rparr>"

theorem resolved_request_sound_witness:
  "\<exists>q. resolve_request sample_request sample_defaults = Inr q \<and> rq_node q = ''pve1'' \<and> 0 < rq_template q"
proof -
  have "validate_tailscale_auth_key ''tskey-auth-abcdef'' = Some ''tskey-auth-abcdef''"
    by (simp add: validate_tailscale_auth_key_def Let_def py_strip_no_space py_isspace_def tailscale_key_shape_def is_alnum_def
        is_lower_def)
  then obtain q where q: "resolve_request sample_request sample_defaults = Inr q"
    by (simp add: resolve_request_def resolve_node_def resolve_template_vmid_def sample_request_def sample_defaults_def
        no_defaults_def given_or_def or_empty_def or_none_def resolve_pool_def resolve_storage_def resolve_ipconfig_def Let_def
        validate_request_def refused_iff guest_name_ok_def disk_ok_def dollar_def guest_name_full_def disk_full_def slug_char_def
        is_lower_def is_digit_def within_def optionally_def check_storage_def py_strip_def py_lstrip_def)
  show ?thesis
    using resolved_request_sound [OF q] q
    by (auto simp: given_or_def or_empty_def sample_request_def sample_defaults_def no_defaults_def py_strip_def py_lstrip_def Let_def)
qed

text \<open>The dollar of the name pattern lets a trailing newline through, into the name of the guest.\<close>

lemma newline_name_accepted: "guest_name_ok (''web'' @ [nl])"
  by (simp add: guest_name_ok_def dollar_def guest_name_full_def slug_char_def is_lower_def)

end
