(* ===== verification/Provision_World.thy ===== *)
theory Provision_World
  imports Provision_Request Secrets
begin

text \<open>
  How the provisioning code is modelled.

  The code talks to the cluster, the guest and the database through awaited calls.  Here each call is a
  value of \<open>call\<close>; what it answers is a function of everything that was called before (\<open>world\<close>), so a
  theorem about every world is a theorem about every behaviour of the outside.  A computation carries the
  log of its calls, newest first, and the variables of the run.  A cancellation arrives at one await, as
  \<open>asyncio\<close> delivers it: the number of awaits left until then is part of the state, and the call it hits may
  or may not have taken effect.  \<open>except Exception\<close> does not catch it.  All calls of a run go to one node,
  \<open>w_node\<close>, which is left out of them, as is the template in the URL of a clone.
\<close>

section \<open>Calls\<close>

datatype fault =
    Proxmox_error "int option" string
  | Timed_out string
  | Alloc_fault alloc_error
  | Fault exn

fun fault_str :: "fault \<Rightarrow> string" where
  "fault_str (Proxmox_error _ m) = m"
| "fault_str (Timed_out m) = m"
| "fault_str (Alloc_fault (AddressAllocationError m)) = m"
| "fault_str (Alloc_fault (SubnetExhaustedError m)) = m"
| "fault_str (Alloc_fault (AddressValueError m)) = m"
| "fault_str (Fault e) = exn_str e"

datatype guest_script =
    Tailscale_probe
  | Tailscale_install
  | Cloud_init_wait
  | Fence_probe "probe_target list"
  | Command string

datatype call =
    Set_running
  | Read_defaults
  | Read_network
  | Scan_cluster
  | Next_id
  | Cluster_ids
  | Clone int dict
  | Wait_task string
  | Configure int dict
  | Fw_options int
  | Fw_rule int dict
  | Get_config int
  | Resize int string string
  | Start int
  | Agent_network int
  | Ping int
  | Guest_status int
  | Resolve_name
  | Run_in int guest_script
  | Write_file int string string
  | Stop int
  | Delete int
  | Stop_task string
  | Create_host int "string option"
  | Set_succeeded dict
  | Set_failed string dict
  | Cancel_outcome dict "string option"
  | Write_audit string dict
  | Pause

datatype outcome = Did | Refused fault | Cut

type_synonym log = "(call \<times> outcome) list"

type_synonym 'a answer = "log \<Rightarrow> call \<Rightarrow> fault + 'a"

record world =
  w_configured :: bool
  w_node :: string
  w_unit :: "unit answer"
  w_text :: "string answer"
  w_int :: "int answer"
  w_ints :: "int list answer"
  w_bool :: "bool answer"
  w_json :: "jval answer"
  w_cmd :: "(int \<times> string \<times> string) answer"
  w_defaults :: "provision_defaults answer"
  w_network :: "desired_network option answer"
  w_cluster :: "log \<Rightarrow> proxmox_reads"
  w_resolver :: "string \<Rightarrow> string option"
  w_api_host :: "string option"
  w_api_port :: nat
  w_delay :: "log \<Rightarrow> nat"

section \<open>Computations\<close>

record pstate =
  ps_log :: log
  ps_fuse :: "nat option"
  ps_joining :: "(string \<times> int) list"
  ps_step :: string
  ps_vmid :: "int option"
  ps_cloned :: bool
  ps_upid :: "string option"
  ps_unwound :: bool
  ps_cleanup :: string

datatype 'a stop = Finished 'a | Raised fault | Cancelled

type_synonym 'a run = "pstate \<Rightarrow> 'a stop \<times> pstate"

definition ret :: "'a \<Rightarrow> 'a run" where
  "ret x s = (Finished x, s)"

definition throw :: "fault \<Rightarrow> 'a run" where
  "throw e s = (Raised e, s)"

definition andthen :: "'a run \<Rightarrow> ('a \<Rightarrow> 'b run) \<Rightarrow> 'b run" where
  "andthen m f s =
     (case m s of
        (Finished x, s') \<Rightarrow> f x s'
      | (Raised e, s') \<Rightarrow> (Raised e, s')
      | (Cancelled, s') \<Rightarrow> (Cancelled, s'))"

text \<open>\<open>try: m except Exception as e: h e\<close>\<close>

definition try_except :: "'a run \<Rightarrow> (fault \<Rightarrow> 'a run) \<Rightarrow> 'a run" where
  "try_except m h s =
     (case m s of
        (Finished x, s') \<Rightarrow> (Finished x, s')
      | (Raised e, s') \<Rightarrow> h e s'
      | (Cancelled, s') \<Rightarrow> (Cancelled, s'))"

text \<open>\<open>try: m finally: f\<close>, where \<open>f\<close> only assigns.\<close>

definition finally_do :: "'a run \<Rightarrow> (pstate \<Rightarrow> pstate) \<Rightarrow> 'a run" where
  "finally_do m f s = (case m s of (r, s') \<Rightarrow> (r, f s'))"

definition assign :: "(pstate \<Rightarrow> pstate) \<Rightarrow> unit run" where
  "assign f s = (Finished (), f s)"

definition logged :: "call \<Rightarrow> outcome \<Rightarrow> pstate \<Rightarrow> pstate" where
  "logged c o' s = s\<lparr>ps_log := (c, o') # ps_log s\<rparr>"

definition tick :: "pstate \<Rightarrow> pstate" where
  "tick s = s\<lparr>ps_fuse := map_option (\<lambda>n. n - 1) (ps_fuse s)\<rparr>"

definition ask :: "'a answer \<Rightarrow> call \<Rightarrow> 'a run" where
  "ask f c s =
     (if ps_fuse s = Some 0 then (Cancelled, logged c Cut (s\<lparr>ps_fuse := None\<rparr>))
      else case f (ps_log s) c of
        Inl e \<Rightarrow> (Raised e, logged c (Refused e) (tick s))
      | Inr x \<Rightarrow> (Finished x, logged c Did (tick s)))"

definition fresh_run :: "nat option \<Rightarrow> (string \<times> int) list \<Rightarrow> pstate" where
  "fresh_run fuse joining = \<lparr>ps_log = [], ps_fuse = fuse, ps_joining = joining, ps_step = ''start'', ps_vmid = None,
     ps_cloned = False, ps_upid = None, ps_unwound = False, ps_cleanup = []\<rparr>"

section \<open>What a computation may log\<close>

text \<open>\<open>calls P m\<close>: whatever \<open>m\<close> does, it only adds calls in \<open>P\<close> to the log.  \<open>emits P m\<close>: and it leaves the
  variables alone that the handlers of a run decide by.\<close>

named_theorems calls_intro \<open>rules for the calls a computation makes\<close>
named_theorems emits_intro \<open>rules for the calls of a computation that assigns no variable\<close>

definition locals :: "pstate \<Rightarrow> bool \<times> int option \<times> bool \<times> string" where
  "locals s = (ps_cloned s, ps_vmid s, ps_unwound s, ps_cleanup s)"

definition adds :: "(call \<Rightarrow> bool) \<Rightarrow> pstate \<Rightarrow> pstate \<Rightarrow> bool" where
  "adds P s s' \<longleftrightarrow> (\<exists>new. ps_log s' = new @ ps_log s \<and> (\<forall>e\<in>set new. P (fst e)))"

text \<open>A cancellation arrives only when one is pending, and only once.\<close>

definition cut_once :: "'a run \<Rightarrow> bool" where
  "cut_once m \<longleftrightarrow> (\<forall>s. (ps_fuse s = None \<longrightarrow> fst (m s) \<noteq> Cancelled \<and> ps_fuse (snd (m s)) = None)
     \<and> (fst (m s) = Cancelled \<longrightarrow> ps_fuse (snd (m s)) = None))"

definition calls :: "(call \<Rightarrow> bool) \<Rightarrow> 'a run \<Rightarrow> bool" where
  "calls P m \<longleftrightarrow> cut_once m \<and> (\<forall>s. adds P s (snd (m s)))"

definition emits :: "(call \<Rightarrow> bool) \<Rightarrow> 'a run \<Rightarrow> bool" where
  "emits P m \<longleftrightarrow> cut_once m \<and> (\<forall>s. adds P s (snd (m s)) \<and> locals (snd (m s)) = locals s)"

lemma cut_onceD:
  "cut_once m \<Longrightarrow> m s = (r, s') \<Longrightarrow> ps_fuse s = None \<Longrightarrow> r \<noteq> Cancelled \<and> ps_fuse s' = None"
  "cut_once m \<Longrightarrow> m s = (Cancelled, s') \<Longrightarrow> ps_fuse s' = None"
  unfolding cut_once_def by (metis fst_conv snd_conv)+

lemma cut_onceI:
  "(\<And>s r s'. m s = (r, s') \<Longrightarrow> (ps_fuse s = None \<longrightarrow> r \<noteq> Cancelled \<and> ps_fuse s' = None) \<and> (r = Cancelled \<longrightarrow> ps_fuse s' = None))
   \<Longrightarrow> cut_once m"
  unfolding cut_once_def by (metis prod.collapse)

lemma cut_once_simple:
  "cut_once (ret x)" "cut_once (throw e)" "cut_once (ask f c)"
  by (auto simp: cut_once_def ret_def throw_def ask_def logged_def tick_def split: sum.splits)

lemma cut_once_assign: "(\<And>s. ps_fuse (f s) = ps_fuse s) \<Longrightarrow> cut_once (assign f)"
  by (simp add: cut_once_def assign_def)

lemma cut_once_andthen: "cut_once m \<Longrightarrow> (\<And>x. cut_once (f x)) \<Longrightarrow> cut_once (andthen m f)"
  unfolding cut_once_def andthen_def by (auto split: prod.splits stop.splits) (metis fst_conv snd_conv)+

lemma cut_once_try: "cut_once m \<Longrightarrow> (\<And>e. cut_once (h e)) \<Longrightarrow> cut_once (try_except m h)"
  unfolding cut_once_def try_except_def by (auto split: prod.splits stop.splits) (metis fst_conv snd_conv)+

lemma cut_once_finally: "cut_once m \<Longrightarrow> (\<And>s. ps_fuse (f s) = ps_fuse s) \<Longrightarrow> cut_once (finally_do m f)"
  unfolding cut_once_def finally_do_def by (auto split: prod.splits) (metis fst_conv snd_conv)+

lemma cut_once_state: "(\<And>s. cut_once (f s)) \<Longrightarrow> cut_once (\<lambda>s. f s s)"
  unfolding cut_once_def by blast

lemmas cut_once_rules = cut_once_simple cut_once_assign cut_once_andthen cut_once_try cut_once_finally

lemma emits_cut_once: "emits P m \<Longrightarrow> cut_once m"
  and calls_cut_once: "calls P m \<Longrightarrow> cut_once m"
  by (simp_all add: emits_def calls_def)

lemma adds_refl [simp]: "ps_log s' = ps_log s \<Longrightarrow> adds P s s'"
  unfolding adds_def by (intro exI [of _ "[]"]) simp

lemma adds_trans: "adds P s t \<Longrightarrow> adds P t u \<Longrightarrow> adds P s u"
proof -
  assume "adds P s t" and "adds P t u"
  then obtain a b where "ps_log t = a @ ps_log s" "\<forall>e\<in>set a. P (fst e)" "ps_log u = b @ ps_log t" "\<forall>e\<in>set b. P (fst e)"
    unfolding adds_def by blast
  then show ?thesis unfolding adds_def by (intro exI [of _ "b @ a"]) auto
qed

lemma adds_logged [simp]: "P c \<Longrightarrow> ps_log s = ps_log t \<Longrightarrow> adds P t (logged c o' s)"
  unfolding adds_def by (intro exI [of _ "[(c, o')]"]) (simp add: logged_def)

lemma locals_simps [simp]:
  "locals (logged c o' s) = locals s" "locals (tick s) = locals s" "locals (s\<lparr>ps_fuse := fu\<rparr>) = locals s"
  "locals (s\<lparr>ps_joining := jn\<rparr>) = locals s" "locals (s\<lparr>ps_step := st\<rparr>) = locals s" "locals (s\<lparr>ps_upid := u\<rparr>) = locals s"
  by (simp_all add: locals_def logged_def tick_def)

lemma callsD: "calls P m \<Longrightarrow> m s = (r, s') \<Longrightarrow> \<exists>new. ps_log s' = new @ ps_log s \<and> (\<forall>e\<in>set new. P (fst e))"
  unfolding calls_def adds_def by (metis snd_conv)

lemma emitsD: "emits P m \<Longrightarrow> m s = (r, s') \<Longrightarrow> \<exists>new. ps_log s' = new @ ps_log s \<and> (\<forall>e\<in>set new. P (fst e))"
  unfolding emits_def adds_def by (metis snd_conv)

lemma emits_locals: "emits P m \<Longrightarrow> m s = (r, s') \<Longrightarrow> locals s' = locals s"
  unfolding emits_def by (metis snd_conv)

lemma emits_calls: "emits P m \<Longrightarrow> calls P m"
  by (simp add: emits_def calls_def)

lemma emitsI:
  "cut_once m \<Longrightarrow> (\<And>s r s'. m s = (r, s') \<Longrightarrow> (\<exists>new. ps_log s' = new @ ps_log s \<and> (\<forall>e\<in>set new. P (fst e))) \<and> locals s' = locals s)
   \<Longrightarrow> emits P m"
  unfolding emits_def adds_def by (metis prod.collapse)

lemma emits_mono: "emits P m \<Longrightarrow> (\<And>c. P c \<Longrightarrow> Q c) \<Longrightarrow> emits Q m"
  unfolding emits_def adds_def by meson

lemma calls_mono: "calls P m \<Longrightarrow> (\<And>c. P c \<Longrightarrow> Q c) \<Longrightarrow> calls Q m"
  unfolding calls_def adds_def by meson

lemma emits_ret [emits_intro]: "emits P (ret x)"
  and emits_throw [emits_intro]: "emits P (throw e)"
  and calls_ret [calls_intro]: "calls P (ret x)"
  and calls_throw [calls_intro]: "calls P (throw e)"
  by (simp_all add: emits_def calls_def cut_once_simple) (simp_all add: ret_def throw_def)

lemma emits_assign [emits_intro]: "(\<And>s. ps_log (f s) = ps_log s \<and> locals (f s) = locals s \<and> ps_fuse (f s) = ps_fuse s) \<Longrightarrow> emits P (assign f)"
  and calls_assign [calls_intro]: "(\<And>s. ps_log (f s) = ps_log s \<and> ps_fuse (f s) = ps_fuse s) \<Longrightarrow> calls P (assign f)"
  by (simp_all add: emits_def calls_def cut_once_assign) (simp_all add: assign_def)

lemma emits_ask [emits_intro]: "P c \<Longrightarrow> emits P (ask f c)"
  unfolding emits_def by (simp add: cut_once_simple) (auto simp: ask_def tick_def split: sum.splits)

lemma calls_ask [calls_intro]: "P c \<Longrightarrow> calls P (ask f c)"
  by (rule emits_calls) (rule emits_ask)

lemma emits_andthen [emits_intro]: "emits P m \<Longrightarrow> (\<And>x. emits P (f x)) \<Longrightarrow> emits P (andthen m f)"
  unfolding emits_def
  by (simp add: cut_once_rules) (auto simp: andthen_def split: prod.splits stop.splits, (metis adds_trans snd_conv)+)

lemma calls_andthen [calls_intro]: "calls P m \<Longrightarrow> (\<And>x. calls P (f x)) \<Longrightarrow> calls P (andthen m f)"
  unfolding calls_def
  by (simp add: cut_once_rules) (auto simp: andthen_def split: prod.splits stop.splits, (metis adds_trans snd_conv)+)

lemma emits_try [emits_intro]: "emits P m \<Longrightarrow> (\<And>e. emits P (h e)) \<Longrightarrow> emits P (try_except m h)"
  unfolding emits_def
  by (simp add: cut_once_rules) (auto simp: try_except_def split: prod.splits stop.splits, (metis adds_trans snd_conv)+)

lemma calls_try [calls_intro]: "calls P m \<Longrightarrow> (\<And>e. calls P (h e)) \<Longrightarrow> calls P (try_except m h)"
  unfolding calls_def
  by (simp add: cut_once_rules) (auto simp: try_except_def split: prod.splits stop.splits, (metis adds_trans snd_conv)+)

lemma emits_finally [emits_intro]:
  "emits P m \<Longrightarrow> (\<And>s. ps_log (f s) = ps_log s \<and> locals (f s) = locals s \<and> ps_fuse (f s) = ps_fuse s) \<Longrightarrow> emits P (finally_do m f)"
  unfolding emits_def
  by (simp add: cut_once_rules) (auto simp: finally_do_def split: prod.splits, (metis adds_refl adds_trans snd_conv)+)

lemma emits_if [emits_intro]: "(b \<Longrightarrow> emits P m) \<Longrightarrow> (\<not> b \<Longrightarrow> emits P n) \<Longrightarrow> emits P (if b then m else n)"
  and calls_if [calls_intro]: "(b \<Longrightarrow> calls P m) \<Longrightarrow> (\<not> b \<Longrightarrow> calls P n) \<Longrightarrow> calls P (if b then m else n)"
  by simp_all

text \<open>A computation whose text depends on the state it runs in.\<close>

lemma emits_state: "(\<And>s. emits P (f s)) \<Longrightarrow> emits P (\<lambda>s. f s s)"
  and calls_state: "(\<And>s. calls P (f s)) \<Longrightarrow> calls P (\<lambda>s. f s s)"
  unfolding emits_def calls_def using cut_once_state [of f] by blast+

section \<open>Results of a sequence\<close>

lemma andthen_Finished:
  "andthen m f s = (Finished y, s') \<longleftrightarrow> (\<exists>x t. m s = (Finished x, t) \<and> f x t = (Finished y, s'))"
  by (auto simp: andthen_def split: prod.splits stop.splits)

lemma andthen_cases:
  assumes "andthen m f s = (r, s')"
  obtains (next_step) x t where "m s = (Finished x, t)" "f x t = (r, s')"
    | (failed) e where "m s = (Raised e, s')" "r = Raised e"
    | (cancelled) "m s = (Cancelled, s')" "r = Cancelled"
proof -
  obtain q t where m: "m s = (q, t)" by fastforce
  then show thesis using assms that by (cases q) (auto simp: andthen_def)
qed

lemma ask_Finished:
  "ask f c s = (Finished x, s') \<longleftrightarrow> ps_fuse s \<noteq> Some 0 \<and> f (ps_log s) c = Inr x \<and> s' = logged c Did (tick s)"
  by (auto simp: ask_def split: sum.splits)

lemma ask_log:
  "ask f c s = (r, s') \<Longrightarrow> \<exists>o'. ps_log s' = (c, o') # ps_log s"
  by (auto simp: ask_def logged_def tick_def split: if_splits sum.splits)

lemma ret_apply [simp]: "ret x s = (Finished x, s)"
  and throw_apply [simp]: "throw e s = (Raised e, s)"
  and assign_apply [simp]: "assign f s = (Finished (), f s)"
  by (simp_all add: ret_def throw_def assign_def)

lemma andthen_apply:
  "m s = (Finished x, t) \<Longrightarrow> andthen m f s = f x t"
  "m s = (Raised e, t) \<Longrightarrow> andthen m f s = (Raised e, t)"
  "m s = (Cancelled, t) \<Longrightarrow> andthen m f s = (Cancelled, t)"
  by (simp_all add: andthen_def)

lemma andthen_assoc: "andthen (andthen m f) g = andthen m (\<lambda>x. andthen (f x) g)"
  by (rule ext) (simp add: andthen_def split: prod.split stop.split)

lemma andthen_assign: "andthen (assign f) g s = g () (f s)"
  by (simp add: andthen_def)

lemma try_apply:
  "m s = (Finished x, t) \<Longrightarrow> try_except m h s = (Finished x, t)"
  "m s = (Raised e, t) \<Longrightarrow> try_except m h s = h e t"
  "m s = (Cancelled, t) \<Longrightarrow> try_except m h s = (Cancelled, t)"
  by (simp_all add: try_except_def)

text \<open>\<open>try: x = m except Exception as e: return h e\<close>, as the code above writes it.\<close>

lemma try_ask:
  "m s = (Finished x, t) \<Longrightarrow> try_except (andthen m (\<lambda>x. ret (g x))) h s = (Finished (g x), t)"
  "m s = (Raised e, t) \<Longrightarrow> try_except (andthen m (\<lambda>x. ret (g x))) h s = h e t"
  "m s = (Cancelled, t) \<Longrightarrow> try_except (andthen m (\<lambda>x. ret (g x))) h s = (Cancelled, t)"
  by (simp_all add: try_except_def andthen_def)

lemma logged_simps [simp]:
  "ps_log (logged c o' s) = (c, o') # ps_log s" "ps_log (tick s) = ps_log s"
  by (simp_all add: logged_def tick_def)

text \<open>Without a pending cancellation nothing is cancelled.\<close>

definition uncut :: "'a run \<Rightarrow> bool" where
  "uncut m \<longleftrightarrow> (\<forall>s. ps_fuse s = None \<longrightarrow> fst (m s) \<noteq> Cancelled \<and> ps_fuse (snd (m s)) = None)"

named_theorems uncut_intro \<open>rules for computations that only a pending cancellation can cut\<close>

lemma uncutD: "uncut m \<Longrightarrow> ps_fuse s = None \<Longrightarrow> m s = (r, s') \<Longrightarrow> r \<noteq> Cancelled \<and> ps_fuse s' = None"
  unfolding uncut_def by (metis fst_conv snd_conv)

lemma uncut_ret [uncut_intro]: "uncut (ret x)"
  and uncut_throw [uncut_intro]: "uncut (throw e)"
  by (simp_all add: uncut_def ret_def throw_def)

lemma uncut_assign [uncut_intro]: "(\<And>s. ps_fuse (f s) = ps_fuse s) \<Longrightarrow> uncut (assign f)"
  by (simp add: uncut_def assign_def)

lemma uncut_ask [uncut_intro]: "uncut (ask f c)"
  by (auto simp: uncut_def ask_def logged_def tick_def split: sum.splits)

lemma uncut_andthen [uncut_intro]: "uncut m \<Longrightarrow> (\<And>x. uncut (f x)) \<Longrightarrow> uncut (andthen m f)"
  unfolding uncut_def andthen_def by (auto split: prod.splits stop.splits) (metis fst_conv snd_conv)+

lemma uncut_try [uncut_intro]: "uncut m \<Longrightarrow> (\<And>e. uncut (h e)) \<Longrightarrow> uncut (try_except m h)"
  unfolding uncut_def try_except_def by (auto split: prod.splits stop.splits) (metis fst_conv snd_conv)+

lemma uncut_if [uncut_intro]: "uncut m \<Longrightarrow> uncut n \<Longrightarrow> uncut (if b then m else n)"
  by simp

section \<open>What a computation returns\<close>

named_theorems yields_intro \<open>rules for the values a computation returns\<close>

definition yields :: "('a \<Rightarrow> bool) \<Rightarrow> 'a run \<Rightarrow> bool" where
  "yields Q m \<longleftrightarrow> (\<forall>s x s'. m s = (Finished x, s') \<longrightarrow> Q x)"

lemma yieldsD: "yields Q m \<Longrightarrow> m s = (Finished x, s') \<Longrightarrow> Q x"
  unfolding yields_def by blast

lemma yields_ret [yields_intro]: "Q x \<Longrightarrow> yields Q (ret x)"
  and yields_throw [yields_intro]: "yields Q (throw e)"
  by (simp_all add: yields_def)

lemma yields_andthen [yields_intro]: "(\<And>x. yields Q (f x)) \<Longrightarrow> yields Q (andthen m f)"
  by (auto simp: yields_def andthen_Finished)

lemma yields_andthen_if: "yields P m \<Longrightarrow> (\<And>x. P x \<Longrightarrow> yields Q (f x)) \<Longrightarrow> yields Q (andthen m f)"
  by (fastforce simp: yields_def andthen_Finished)

lemma yields_try [yields_intro]: "yields Q m \<Longrightarrow> (\<And>e. yields Q (h e)) \<Longrightarrow> yields Q (try_except m h)"
  unfolding yields_def try_except_def by (auto split: prod.splits stop.splits)

lemma yields_if [yields_intro]: "(b \<Longrightarrow> yields Q m) \<Longrightarrow> (\<not> b \<Longrightarrow> yields Q n) \<Longrightarrow> yields Q (if b then m else n)"
  by simp

end
