(* ===== verification/Tailnet_Join.thy ===== *)
theory Tailnet_Join
  imports Provision_World
begin

text \<open>
  Joining a guest to a tailnet: the guest-agent half of \<^verbatim>\<open>provision/service.py\<close>.

  The key of the requester goes into a file of the guest, which the joining shell reads and deletes, and
  nowhere else; every text a guest says is scrubbed before it is shown.  The result is one of three: the
  join happened, it failed, or nothing was established.  The shell texts of the probe, the installer and
  the wait for cloud-init are constants of the code and stand as constructors; the texts of the two
  commands that name the key file are written out.  Longer explanations are cut to their first sentence.
\<close>

section \<open>Scrubbing\<close>

definition tskey_char :: "char \<Rightarrow> bool" where
  "tskey_char c = (is_alnum c \<or> c = CHR ''-'')"

definition scrubbed :: string where
  "scrubbed = ''<redacted>''"

definition tskey_here :: "string \<Rightarrow> bool" where
  "tskey_here s = (prefix ''tskey-'' s \<and> drop 6 s \<noteq> [] \<and> tskey_char (hd (drop 6 s)))"

function sub_tskeys :: "string \<Rightarrow> string" where
  "sub_tskeys s =
     (if s = [] then []
      else if tskey_here s then scrubbed @ sub_tskeys (dropWhile tskey_char (drop 6 s))
      else hd s # sub_tskeys (tl s))"
  by auto

termination sub_tskeys
proof (relation "measure length")
  fix s :: string assume "s \<noteq> []" "tskey_here s"
  then have "6 < length s" by (auto simp: tskey_here_def)
  moreover have "length (dropWhile tskey_char (drop 6 s)) \<le> length (drop 6 s)" by (rule length_dropWhile_le)
  ultimately show "(dropWhile tskey_char (drop 6 s), s) \<in> measure length" by simp
qed auto

declare sub_tskeys.simps [simp del]

definition detail_limit :: nat where
  "detail_limit = 700"

definition safe_detail :: "string \<Rightarrow> string option \<Rightarrow> string" where
  "safe_detail t key =
     (let cleaned = (case key of Some (k # ks) \<Rightarrow> py_replace (k # ks) scrubbed t | _ \<Rightarrow> t);
          line = join '' '' (words_by py_isspace [] (sub_tskeys cleaned))
      in if length line \<le> detail_limit then line else ''...'' @ drop (length line - detail_limit) line)"

section \<open>The guest agent\<close>

text \<open>Three minutes of pings, three seconds apart; \<open>left\<close> is the time to the deadline.\<close>

definition agent_wait :: nat where
  "agent_wait = 180"

function wait_for_agent :: "world \<Rightarrow> int \<Rightarrow> nat \<Rightarrow> bool run" where
  "wait_for_agent w v left =
     andthen (ask (w_bool w) (Ping v)) (\<lambda>answers.
       if answers then ret True
       else (\<lambda>s. (if left - w_delay w (ps_log s) = 0 then ret False
          else andthen (ask (w_unit w) Pause) (\<lambda>_. wait_for_agent w v (left - w_delay w (ps_log s) - 3))) s))"
  by auto

termination wait_for_agent
  by (relation "measure (\<lambda>(_, _, left). left)") auto

declare wait_for_agent.simps [simp del]

definition wait_for_cloud_init :: "world \<Rightarrow> int \<Rightarrow> unit run" where
  "wait_for_cloud_init w v =
     try_except (andthen (ask (w_cmd w) (Run_in v Cloud_init_wait)) (\<lambda>_. ret ())) (\<lambda>_. ret ())"

text \<open>\<open>(current.get("data") or current).get("status")\<close> as a text.\<close>

definition status_of :: "jval \<Rightarrow> string res" where
  "status_of current =
     (case current of
        JObj kvs \<Rightarrow>
          (case (if truthy (dget ''data'' kvs) then dget ''data'' kvs else current) of
             JObj m \<Rightarrow> Inr (str_or_empty (dget ''status'' m))
           | _ \<Rightarrow> Inl (AttributeError ''get''))
      | _ \<Rightarrow> Inl (AttributeError ''get''))"

definition not_asked_why :: "fault \<Rightarrow> string" where
  "not_asked_why e = ''The guest's qemu-guest-agent never answered, and the cluster could not be asked why ('' @ fault_str e @ '').''"

definition why_no_agent :: "world \<Rightarrow> int \<Rightarrow> string run" where
  "why_no_agent w v =
     andthen
       (try_except (andthen (ask (w_json w) (Guest_status v)) (\<lambda>cur. ret (Inr cur)))
          (\<lambda>e. ret (Inl (case e of
             Proxmox_error (Some code) _ \<Rightarrow>
               (if code \<in> {404, 500, 501, 595} then ''This machine no longer exists on '' @ w_node w @ '' - there is nothing to join to a tailnet. If you expected ''
                  @ ''it to be here, ask the operator; a new invite gets you a fresh machine.'' else not_asked_why e)
           | _ \<Rightarrow> not_asked_why e))))
       (\<lambda>r. case r of
          Inl words' \<Rightarrow> ret words'
        | Inr cur \<Rightarrow>
            (case status_of cur of
               Inl e \<Rightarrow> throw (Fault e)
             | Inr st \<Rightarrow>
                 (let status = py_strip st in
                  if status \<noteq> [] \<and> status \<noteq> ''running''
                  then ret (''This machine is '' @ status @ '', so nothing inside it can be reached. Start it and try again.'')
                  else ret (''The guest's qemu-guest-agent never answered, so HomePilot could not run anything inside it. ''
                    @ ''The machine is running, so the template needs qemu-guest-agent installed, started, and allowed to run ''
                    @ ''commands.''))))"

section \<open>Installing\<close>

datatype tailnet = Joined | Join_failed | Join_unknown

definition rc_no_downloader :: int where "rc_no_downloader = 90"
definition rc_download_failed :: int where "rc_download_failed = 91"
definition rc_dns_failed :: int where "rc_dns_failed = 92"
definition rc_installed_nothing :: int where "rc_installed_nothing = 93"
definition rc_package_manager_busy :: int where "rc_package_manager_busy = 94"
definition rc_agent_confined :: int where "rc_agent_confined = 94"

definition confined_text :: string where
  "confined_text = ''The guest's qemu-guest-agent is confined by SELinux (domain virt_qemu_ga_t) and is not allowed to open ''
     @ ''http/https, so it cannot fetch the tailscale installer. The guest's own network is fine - this is a guest policy ''
     @ ''limit, not a route. Put tailscale in the image, or install it in the guest yourself; every SELinux-enforcing ''
     @ ''distribution (Fedora, RHEL, Rocky, Alma, CentOS) confines the agent this way.''"

text \<open>What an exit code of the installer means; \<open>None\<close> lets the join go on.\<close>

definition install_verdict :: "int \<Rightarrow> string \<Rightarrow> tailnet option \<times> string" where
  "install_verdict rc err =
     (let reason = safe_detail err None; because = (if reason = [] then [] else '' The guest said: '' @ reason) in
      if rc = rc_no_downloader then (Some Join_failed, ''The guest has no curl, wget or python3, so the tailscale installer could not be ''
        @ ''fetched. Install one of them in the guest, or use an image that ships tailscale.'')
      else if rc = rc_agent_confined then (Some Join_failed, confined_text @ because)
      else if rc = rc_dns_failed then (Some Join_failed, ''The guest could not resolve tailscale.com: it has no working DNS. ''
        @ ''Check the guest's nameserver (a static address with no resolver does this).'' @ because)
      else if rc = rc_download_failed then (Some Join_failed, ''The guest could not download the tailscale installer. ''
        @ ''Name resolution was not shown to be the problem, so the route out is the thing to look at.'' @ because)
      else if rc = rc_installed_nothing then (Some Join_failed, ''The tailscale installer ran and exited cleanly, but `tailscale` is still ''
        @ ''not on the guest's PATH. Nothing here says why - the vendor installer may not support this distribution, or the ''
        @ ''guest's own PATH may be wrong.'')
      else if rc \<noteq> 0 then (Some Join_failed, ''Installing tailscale exited '' @ str_int rc @ (if reason = [] then ''.'' else '': '' @ reason))
      else (None, []))"

definition install_tailscale :: "world \<Rightarrow> int \<Rightarrow> (tailnet option \<times> string) run" where
  "install_tailscale w v =
     andthen (wait_for_cloud_init w v) (\<lambda>_.
     andthen
       (try_except (andthen (ask (w_cmd w) (Run_in v Tailscale_install)) (\<lambda>x. ret (Inr x)))
          (\<lambda>e. ret (Inl (case e of
             Timed_out _ \<Rightarrow> (Some Join_unknown, ''Installing tailscale had not finished after 300s. It may still be running in the guest.'')
           | _ \<Rightarrow> (Some Join_unknown, ''The guest agent would not run the tailscale installer.'')))))
       (\<lambda>r. case r of Inl verdict \<Rightarrow> ret verdict | Inr (rc, _, err) \<Rightarrow> ret (install_verdict rc err)))"

definition probe_tailscale :: "world \<Rightarrow> int \<Rightarrow> bool \<Rightarrow> (tailnet option \<times> string) run" where
  "probe_tailscale w v install_allowed =
     andthen
       (try_except (andthen (ask (w_cmd w) (Run_in v Tailscale_probe)) (\<lambda>x. ret (Inr x)))
          (\<lambda>e. ret (Inl (safe_detail (''The guest agent answered a ping but would not run a command: '' @ fault_str e
             @ ''. Some images ship qemu-guest-agent with guest-exec disabled.'') None))))
       (\<lambda>r. case r of
          Inl words' \<Rightarrow> ret (Some Join_unknown, words')
        | Inr (rc, _, _) \<Rightarrow>
            if rc = 0 then ret (None, [])
            else if \<not> install_allowed
            then ret (Some Join_failed, ''The guest has no tailscale and installing it is switched off (provision_tailscale_install).'')
            else install_tailscale w v)"

definition ensure_tailscale :: "world \<Rightarrow> int \<Rightarrow> bool \<Rightarrow> bool option \<Rightarrow> (tailnet option \<times> string) run" where
  "ensure_tailscale w v install_allowed answered =
     andthen (case answered of None \<Rightarrow> wait_for_agent w v agent_wait | Some b \<Rightarrow> ret b) (\<lambda>up.
       if \<not> up then andthen (why_no_agent w v) (\<lambda>words'. ret (Some Join_unknown, words'))
       else probe_tailscale w v install_allowed)"

section \<open>The join\<close>

definition key_path :: string where
  "key_path = ''/run/hp-tailscale.key''"

definition up_script :: "string \<Rightarrow> guest_script" where
  "up_script hostname = Command (''set -e; TS_AUTHKEY=\"$(cat '' @ key_path @ '')\"; rm -f '' @ key_path
     @ ''; tailscale up --auth-key=\"$TS_AUTHKEY\" --hostname=\"'' @ hostname @ ''\"'')"

definition shred_script :: guest_script where
  "shred_script = Command (''rm -f '' @ key_path)"

definition shred_key_file :: "world \<Rightarrow> int \<Rightarrow> unit run" where
  "shred_key_file w v = try_except (andthen (ask (w_cmd w) (Run_in v shred_script)) (\<lambda>_. ret ())) (\<lambda>_. ret ())"

definition run_up :: "world \<Rightarrow> int \<Rightarrow> string \<Rightarrow> string \<Rightarrow> (tailnet \<times> string) run" where
  "run_up w v hostname key =
     andthen
       (try_except (andthen (ask (w_cmd w) (Run_in v (up_script hostname))) (\<lambda>x. ret (Inr x)))
          (\<lambda>e. andthen (shred_key_file w v) (\<lambda>_. ret (Inl (case e of
             Timed_out _ \<Rightarrow> (Join_unknown, ''`tailscale up` had not finished after 120s. It may still be running inside the ''
               @ ''guest; check the machine before sending a new key.'')
           | _ \<Rightarrow> (Join_unknown, ''The guest agent would not run `tailscale up`, so nothing was tried.''))))))
       (\<lambda>r. case r of
          Inl verdict \<Rightarrow> ret verdict
        | Inr (rc, out, err) \<Rightarrow>
            if rc \<noteq> 0
            then andthen (shred_key_file w v) (\<lambda>_.
              (let reason = safe_detail (if err \<noteq> [] then err else out) (Some key) in
               ret (Join_failed, ''`tailscale up` exited '' @ str_int rc @ (if reason = [] then '' and said nothing.'' else '': '' @ reason))))
            else ret (Joined, []))"

definition stage_key :: "world \<Rightarrow> int \<Rightarrow> string \<Rightarrow> string \<Rightarrow> (tailnet \<times> string) run" where
  "stage_key w v hostname key =
     andthen
       (try_except (andthen (ask (w_unit w) (Write_file v key_path key)) (\<lambda>_. ret True)) (\<lambda>_. ret False))
       (\<lambda>written. if written then run_up w v hostname key
          else ret (Join_unknown, ''The auth key could not be written into the guest, so the join never ran.''))"

definition join_tailnet :: "world \<Rightarrow> int \<Rightarrow> string \<Rightarrow> string \<Rightarrow> bool option \<Rightarrow> (tailnet \<times> string) run" where
  "join_tailnet w v hostname key answered =
     (if \<not> w_configured w then ret (Join_unknown, ''Proxmox is not configured on this HomePilot.'')
      else andthen (ask (w_defaults w) Read_defaults) (\<lambda>d.
        andthen (ensure_tailscale w v (pd_install d) answered) (\<lambda>(verdict, detail).
          case verdict of Some t \<Rightarrow> ret (t, detail) | None \<Rightarrow> stage_key w v hostname key)))"

section \<open>One join per guest\<close>

definition reserve_join :: "string \<Rightarrow> int \<Rightarrow> pstate \<Rightarrow> bool \<times> pstate" where
  "reserve_join node v s =
     (if (node, v) \<in> set (ps_joining s) then (False, s) else (True, s\<lparr>ps_joining := (node, v) # ps_joining s\<rparr>))"

definition release_join :: "string \<Rightarrow> int \<Rightarrow> pstate \<Rightarrow> pstate" where
  "release_join node v s = s\<lparr>ps_joining := filter (\<lambda>t. t \<noteq> (node, v)) (ps_joining s)\<rparr>"

definition tailnet_text :: "tailnet \<Rightarrow> string" where
  "tailnet_text t = (case t of Joined \<Rightarrow> ''joined'' | Join_failed \<Rightarrow> ''failed'' | Join_unknown \<Rightarrow> ''unknown'')"

text \<open>The join inside a provision: nothing but a cancellation leaves it.\<close>

definition provision_join ::
  "world \<Rightarrow> provision_request \<Rightarrow> int \<Rightarrow> bool option \<Rightarrow> (tailnet option \<times> string) run" where
  "provision_join w rq v answered =
     (case rq_ts_key rq of
        None \<Rightarrow> ret (None, [])
      | Some key \<Rightarrow> (\<lambda>s.
          (case reserve_join (rq_node rq) v s of
             (False, s') \<Rightarrow> (Finished (Some Join_failed, ''A tailnet join is already running for this guest.''), s')
           | (True, s') \<Rightarrow>
               finally_do
                 (try_except (andthen (join_tailnet w v (rq_name rq) key answered) (\<lambda>(t, d). ret (Some t, d)))
                    (\<lambda>e. ret (Some Join_unknown,
                       safe_detail (''The tailnet join could not be completed: '' @ fault_str e) (Some key))))
                 (release_join (rq_node rq) v) s')))"

text \<open>The tracked body of a re-join.\<close>

definition rejoin_result :: "int \<Rightarrow> string \<Rightarrow> string \<Rightarrow> dict" where
  "rejoin_result v node hostname = [(''vmid'', JInt v), (''node'', JStr node), (''name'', JStr hostname)]"

definition suppressed :: "unit run \<Rightarrow> unit run" where
  "suppressed m = try_except m (\<lambda>_. ret ())"

definition run_tailnet_join :: "world \<Rightarrow> string \<Rightarrow> int \<Rightarrow> string \<Rightarrow> string \<Rightarrow> unit run" where
  "run_tailnet_join w node v hostname key = (\<lambda>s.
     (let result = rejoin_result v node hostname in
      case join_tailnet w v hostname key None s of
        (Cancelled, s1) \<Rightarrow>
          (case suppressed (ask (w_unit w) (Cancel_outcome (result @ [(''cancelled'', JBool True)]) None)) s1 of
             (_, s2) \<Rightarrow> (Cancelled, release_join node v s2))
      | (Raised e, s1) \<Rightarrow>
          finally_do (suppressed (ask (w_unit w) (Set_failed (safe_detail (fault_str e) (Some key))
              (result @ [(''tailnet'', JStr ''unknown''),
                 (''tailnet_detail'', JStr (let d = safe_detail (fault_str e) (Some key) in
                    if d = [] then ''The re-join could not be run.'' else d))]))))
            (release_join node v) s1
      | (Finished (t, detail), s1) \<Rightarrow>
          andthen (ask (w_unit w) (Set_succeeded (result @ [(''tailnet'', JStr (tailnet_text t)),
              (''tailnet_detail'', if detail = [] then JNull else JStr detail)])))
            (\<lambda>_. suppressed (ask (w_unit w) (Write_audit ''tailnet_join''
              [(''node'', JStr node), (''vmid'', JInt v), (''tailnet'', JStr (tailnet_text t))])))
            (release_join node v s1)))"

section \<open>Scrubbed text holds no key\<close>

lemma sublist_sep: "sublist p (a @ d # b) \<Longrightarrow> d \<notin> set p \<Longrightarrow> sublist p a \<or> sublist p b"
  by (auto simp: sublist_append sublist_Cons_right prefix_Cons suffix_imp_sublist prefix_imp_sublist)

lemma sublist_join:
  "sublist p (join [d] ws) \<Longrightarrow> d \<notin> set p \<Longrightarrow> p \<noteq> [] \<Longrightarrow> \<exists>w\<in>set ws. sublist p w"
proof (induction ws)
  case (Cons w ws)
  show ?case
  proof (cases "ws = []")
    case False
    then have "sublist p (w @ d # join [d] ws)" using Cons.prems(1) by (simp add: join_Cons)
    then have "sublist p w \<or> sublist p (join [d] ws)" using sublist_sep Cons.prems(2) by metis
    then show ?thesis using Cons.IH Cons.prems(2,3) by auto
  qed (use Cons.prems in auto)
qed auto

lemma words_by_sublist: "w \<in> set (words_by P acc s) \<Longrightarrow> sublist w (rev acc @ s)"
proof (induction s arbitrary: acc)
  case (Cons c s)
  have tail: "sublist w (rev acc @ c # s)" if "sublist w s" for acc
    using that by (simp add: sublist_append sublist_Cons_right)
  show ?case
  proof (cases "P c")
    case True
    then have "w \<in> set (words_by P [] s) \<or> (acc \<noteq> [] \<and> w = rev acc)" using Cons.prems by (auto split: if_splits)
    then show ?thesis using Cons.IH [of "[]"] tail by (auto simp: sublist_append_rightI)
  next
    case False
    then show ?thesis using Cons.IH [of "c # acc"] Cons.prems by simp
  qed
qed (auto split: if_splits)

lemma prefix_sub_tskeys: "prefix p (sub_tskeys s) \<Longrightarrow> CHR ''<'' \<notin> set p \<Longrightarrow> prefix p s"
proof (induction p arbitrary: s)
  case (Cons a p)
  have ne: "s \<noteq> []" using Cons.prems(1) by (auto simp: sub_tskeys.simps [of s] split: if_splits)
  have "\<not> tskey_here s" using Cons.prems by (auto simp: sub_tskeys.simps [of s] scrubbed_def split: if_splits)
  then have "sub_tskeys s = hd s # sub_tskeys (tl s)" using ne by (simp add: sub_tskeys.simps [of s])
  then have "a = hd s" "prefix p (sub_tskeys (tl s))" using Cons.prems(1) by auto
  then show ?case using Cons.IH Cons.prems(2) ne by (cases s) auto
qed simp

lemma sub_tskeys_clean:
  assumes "tskey_char c"
  shows "\<not> sublist (''tskey-'' @ [c]) (sub_tskeys s)"
proof (induction s rule: sub_tskeys.induct)
  case (1 s)
  have lt: "c \<noteq> CHR ''<''" using assms by (auto simp: tskey_char_def is_alnum_def is_lower_def is_upper_def is_digit_def)
  show ?case
  proof (cases "s = []")
    case True
    then show ?thesis by (simp add: sub_tskeys.simps)
  next
    case ne: False
    show ?thesis
    proof (cases "tskey_here s")
      case True
      then have "\<not> sublist (''tskey-'' @ [c]) (sub_tskeys (dropWhile tskey_char (drop 6 s)))" using 1(1) ne by blast
      then show ?thesis using ne True by (simp add: sub_tskeys.simps [of s] scrubbed_def sublist_Cons_right)
    next
      case False
      then have e: "sub_tskeys s = hd s # sub_tskeys (tl s)" using ne by (simp add: sub_tskeys.simps [of s])
      have "\<not> prefix (''tskey-'' @ [c]) (sub_tskeys s)"
      proof
        assume "prefix (''tskey-'' @ [c]) (sub_tskeys s)"
        then have "prefix (''tskey-'' @ [c]) s" by (rule prefix_sub_tskeys) (use lt in simp)
        then show False using False assms by (auto simp: tskey_here_def prefix_def)
      qed
      moreover have "\<not> sublist (''tskey-'' @ [c]) (sub_tskeys (tl s))" using 1(2) ne False by blast
      ultimately show ?thesis unfolding e by (simp add: sublist_Cons_right)
    qed
  qed
qed

lemma safe_detail_clean:
  assumes "tskey_char c"
  shows "\<not> sublist (''tskey-'' @ [c]) (safe_detail t key)"
proof
  define cleaned where "cleaned = (case key of Some (k # ks) \<Rightarrow> py_replace (k # ks) scrubbed t | _ \<Rightarrow> t)"
  define line where "line = join '' '' (words_by py_isspace [] (sub_tskeys cleaned))"
  have sp: "CHR '' '' \<notin> set (''tskey-'' @ [c])"
    using assms by (auto simp: tskey_char_def is_alnum_def is_lower_def is_upper_def is_digit_def)
  assume "sublist (''tskey-'' @ [c]) (safe_detail t key)"
  then have "sublist (''tskey-'' @ [c]) line \<or> sublist (''tskey-'' @ [c]) (drop (length line - detail_limit) line)"
    unfolding safe_detail_def Let_def cleaned_def [symmetric] line_def [symmetric]
    by (auto simp: sublist_Cons_right split: if_splits)
  then have "sublist (''tskey-'' @ [c]) line" by (metis sublist_drop sublist_order.order_trans)
  then obtain x where "x \<in> set (words_by py_isspace [] (sub_tskeys cleaned))" "sublist (''tskey-'' @ [c]) x"
    using sublist_join sp unfolding line_def by (metis append_is_Nil_conv list.distinct(1))
  then have "sublist (''tskey-'' @ [c]) (sub_tskeys cleaned)"
    using words_by_sublist [of x py_isspace "[]"] sublist_order.order_trans by fastforce
  then show False using sub_tskeys_clean [OF assms] by blast
qed

text \<open>So neither the key that was sent nor any other is in a scrubbed text.\<close>

lemma safe_detail_keyless:
  assumes "validate_tailscale_auth_key v = Some k"
  shows "\<not> sublist k (safe_detail t key)"
proof
  have "tailscale_key_shape k \<and> 16 \<le> length k" using assms by (auto simp: validate_tailscale_auth_key_def Let_def split: if_splits)
  then obtain c r where k: "k = ''tskey-'' @ c # r" by (cases "drop 6 k") (auto simp: tailscale_key_shape_def prefix_def)
  have "tskey_char c" using ts_key_plain [OF assms] by (simp add: k plain_def tskey_char_def)
  moreover have "sublist (''tskey-'' @ [c]) k" unfolding k by (auto simp: sublist_def)
  moreover assume "sublist k (safe_detail t key)"
  ultimately show False using safe_detail_clean sublist_order.order_trans by blast
qed

section \<open>Where the key goes\<close>

definition asking :: "int \<Rightarrow> call \<Rightarrow> bool" where
  "asking v c = (c \<in> {Read_defaults, Ping v, Pause, Guest_status v, Run_in v Tailscale_probe, Run_in v Tailscale_install,
     Run_in v Cloud_init_wait})"

definition joining :: "int \<Rightarrow> string \<Rightarrow> string \<Rightarrow> call \<Rightarrow> bool" where
  "joining v hostname key c =
     (c \<in> {Write_file v key_path key, Run_in v (up_script hostname), Run_in v shred_script})"

lemma emits_wait_for_agent: "emits (asking v) (wait_for_agent w v left)"
proof (induction w v left rule: wait_for_agent.induct)
  case (1 w v left)
  have r: "emits (asking v) (\<lambda>s. (if left - w_delay w (ps_log s) = 0 then ret False
      else andthen (ask (w_unit w) Pause) (\<lambda>_. wait_for_agent w v (left - w_delay w (ps_log s) - 3))) s)"
    by (rule emits_state, intro emits_if emits_ret emits_andthen emits_ask "1") (simp add: asking_def)
  show ?case
    unfolding wait_for_agent.simps [of w v left]
    by (intro emits_intro r) (simp add: asking_def)
qed

lemma emits_why_no_agent: "emits (asking v) (why_no_agent w v)"
  unfolding why_no_agent_def
  by (intro emits_intro) (auto simp: asking_def Let_def intro!: emits_intro split: sum.split)

lemma emits_wait_for_cloud_init: "emits (asking v) (wait_for_cloud_init w v)"
  unfolding wait_for_cloud_init_def by (intro emits_intro) (simp add: asking_def)

lemma emits_ensure: "emits (asking v) (ensure_tailscale w v allowed answered)"
  unfolding ensure_tailscale_def probe_tailscale_def install_tailscale_def
  by (intro emits_intro)
    (auto simp: asking_def intro!: emits_intro emits_wait_for_agent emits_why_no_agent emits_wait_for_cloud_init
      split: option.split sum.split)

lemma emits_run_up: "emits (joining v hostname key) (run_up w v hostname key)"
  unfolding run_up_def shred_key_file_def
  by (intro emits_intro) (auto simp: joining_def Let_def intro!: emits_intro split: sum.split)

lemma emits_stage_key: "emits (joining v hostname key) (stage_key w v hostname key)"
  unfolding stage_key_def by (intro emits_intro emits_run_up) (simp add: joining_def)

text \<open>How staging the key and running the join can end.\<close>

lemma shred_log:
  "shred_key_file w v s = (Finished x, s') \<Longrightarrow> \<exists>o'. ps_log s' = (Run_in v shred_script, o') # ps_log s"
  by (auto simp: shred_key_file_def try_except_def andthen_def ask_def logged_def tick_def
      split: if_splits sum.splits)

lemma run_up_asked:
  assumes "ask (w_cmd w) (Run_in v (up_script h)) s = (r, s1)"
  shows "run_up w v h key s =
    (case r of
       Cancelled \<Rightarrow> (Cancelled, s1)
     | Raised e \<Rightarrow> andthen (shred_key_file w v) (\<lambda>_. ret (Join_unknown,
         case e of Timed_out _ \<Rightarrow> ''`tailscale up` had not finished after 120s. It may still be running inside the ''
             @ ''guest; check the machine before sending a new key.''
         | _ \<Rightarrow> ''The guest agent would not run `tailscale up`, so nothing was tried.'')) s1
     | Finished (rc, out, err) \<Rightarrow>
         if rc = 0 then (Finished (Joined, []), s1)
         else andthen (shred_key_file w v) (\<lambda>_. ret (Join_failed, ''`tailscale up` exited '' @ str_int rc
           @ (let reason = safe_detail (if err \<noteq> [] then err else out) (Some key) in
              if reason = [] then '' and said nothing.'' else '': '' @ reason))) s1)"
proof (cases r)
  case (Raised e)
  obtain q s2 where q: "shred_key_file w v s1 = (q, s2)" by fastforce
  show ?thesis
    using assms Raised q by (cases q) (auto simp: run_up_def andthen_def try_except_def split: fault.split)
qed (use assms in \<open>auto simp: run_up_def andthen_def try_except_def Let_def split: prod.split stop.split\<close>)

lemma run_up_end:
  assumes "run_up w v h key s = (Finished (t, d), s')"
  shows "if t = Joined
    then ps_log s' = (Run_in v (up_script h), Did) # ps_log s
       \<and> (\<exists>out err. w_cmd w (ps_log s) (Run_in v (up_script h)) = Inr (0, out, err))
    else fst (hd (ps_log s')) = Run_in v shred_script"
proof -
  obtain r s1 where a: "ask (w_cmd w) (Run_in v (up_script h)) s = (r, s1)" by fastforce
  note e = assms [unfolded run_up_asked [OF a]]
  show ?thesis
  proof (cases r)
    case (Finished x)
    obtain rc out err where x: "x = (rc, out, err)" by (cases x)
    show ?thesis
    proof (cases "rc = 0")
      case True
      then show ?thesis using e a Finished x by (auto simp: ask_Finished)
    next
      case False
      then obtain y where "shred_key_file w v s1 = (Finished y, s')" "t \<noteq> Joined"
        using e Finished x by (auto simp: andthen_Finished)
      then show ?thesis using shred_log by fastforce
    qed
  next
    case (Raised f)
    then obtain y where "shred_key_file w v s1 = (Finished y, s')" "t \<noteq> Joined"
      using e by (auto simp: andthen_Finished)
    then show ?thesis using shred_log by fastforce
  qed (use e in simp)
qed

lemma no_t_append: "CHR ''t'' \<notin> set u \<Longrightarrow> \<not> sublist (''tskey-'' @ [c]) z \<Longrightarrow> \<not> sublist (''tskey-'' @ [c]) (u @ z)"
  by (induction u) (auto simp: sublist_Cons_right)

lemma run_up_detail:
  assumes "run_up w v h key s = (Finished (t, d), s')" and "tskey_char c"
  shows "\<not> sublist (''tskey-'' @ [c]) d"
proof -
  obtain r s1 where a: "ask (w_cmd w) (Run_in v (up_script h)) s = (r, s1)" by fastforce
  note e = assms(1) [unfolded run_up_asked [OF a]]
  have "CHR ''t'' \<notin> set (str_int rc)" for rc
    using digits_nat_no_char [of "CHR ''t''"] by (auto simp: str_int_def is_digit_def)
  then have cl: "\<not> sublist (''tskey-'' @ [c]) (''`tailscale up` exited '' @ str_int rc @ z)" if "\<not> sublist (''tskey-'' @ [c]) z" for rc z
    using no_t_append [OF _ that] by (simp add: sublist_Cons_right)
  have "\<not> sublist (''tskey-'' @ [c]) (let reason = safe_detail o' k in if reason = [] then '' and said nothing.'' else '': '' @ reason)" for o' k
    using safe_detail_clean [OF assms(2)] by (simp add: sublist_Cons_right Let_def)
  note said = cl [OF this]
  show ?thesis
  proof (cases r)
    case (Finished x)
    obtain rc out err where x: "x = (rc, out, err)" by (cases x)
    show ?thesis
    proof (cases "rc = 0")
      case False
      then obtain o' where "d = ''`tailscale up` exited '' @ str_int rc
           @ (let reason = safe_detail o' (Some key) in if reason = [] then '' and said nothing.'' else '': '' @ reason)"
        using e Finished x by (auto simp: andthen_Finished)
      then show ?thesis using said by blast
    qed (use e Finished x in simp)
  next
    case (Raised f)
    then show ?thesis using e by (auto simp: andthen_Finished sublist_Cons_right split: fault.splits)
  qed (use e in simp)
qed

lemma stage_key_end:
  assumes "stage_key w v h key s = (Finished (t, d), s')"
  shows "(t = Join_unknown \<and> (\<exists>e. ps_log s' = (Write_file v key_path key, Refused e) # ps_log s))
    \<or> (\<exists>s1. ps_log s1 = (Write_file v key_path key, Did) # ps_log s \<and> run_up w v h key s1 = (Finished (t, d), s'))"
proof -
  obtain r s1 where a: "ask (w_unit w) (Write_file v key_path key) s = (r, s1)" by fastforce
  show ?thesis
  proof (cases r)
    case (Finished x)
    then have "ps_log s1 = (Write_file v key_path key, Did) # ps_log s" using a by (auto simp: ask_Finished)
    moreover have "run_up w v h key s1 = (Finished (t, d), s')"
      using assms a Finished by (simp add: stage_key_def andthen_def try_except_def)
    ultimately show ?thesis by blast
  next
    case (Raised e)
    then have "t = Join_unknown \<and> s' = s1" using assms a by (simp add: stage_key_def andthen_def try_except_def)
    moreover have "ps_log s1 = (Write_file v key_path key, Refused e) # ps_log s"
      using a Raised by (auto simp: ask_def split: if_splits sum.splits)
    ultimately show ?thesis by blast
  qed (use assms a in \<open>simp add: stage_key_def andthen_def try_except_def\<close>)
qed

lemma ensure_not_joined: "yields (\<lambda>x. fst x \<noteq> Some Joined) (ensure_tailscale w v allowed answered)"
proof -
  have i: "fst (install_verdict rc err) \<noteq> Some Joined" for rc err by (simp add: install_verdict_def Let_def)
  have "yields (\<lambda>x. fst x \<noteq> Some Joined) (install_tailscale w v)"
    unfolding install_tailscale_def
    by (intro yields_andthen yields_andthen_if [where P = "\<lambda>r. case r of Inl x \<Rightarrow> fst x \<noteq> Some Joined | Inr _ \<Rightarrow> True"])
      (auto simp: i intro!: yields_intro split: sum.split fault.split)
  then have p: "yields (\<lambda>x. fst x \<noteq> Some Joined) (probe_tailscale w v allowed)"
    unfolding probe_tailscale_def by (intro yields_andthen) (auto intro!: yields_intro split: sum.split)
  show ?thesis unfolding ensure_tailscale_def by (intro yields_intro p) simp
qed

lemma join_steps:
  assumes "join_tailnet w v h key answered s = (r, s')"
  shows "\<exists>asked s1. ps_log s1 = asked @ ps_log s \<and> (\<forall>e\<in>set asked. asking v (fst e))
    \<and> (stage_key w v h key s1 = (r, s') \<or> s' = s1 \<and> (\<forall>t d. r = Finished (t, d) \<longrightarrow> t \<noteq> Joined))"
proof (cases "w_configured w")
  case False
  then show ?thesis using assms by (intro exI [of _ "[]"] exI [of _ s]) (auto simp: join_tailnet_def)
next
  case True
  define m where "m = andthen (ask (w_defaults w) Read_defaults) (\<lambda>d. ensure_tailscale w v (pd_install d) answered)"
  have em: "emits (asking v) m" unfolding m_def by (intro emits_intro emits_ensure) (simp add: asking_def)
  obtain q s1 where q: "m s = (q, s1)" by fastforce
  obtain asked where l: "ps_log s1 = asked @ ps_log s" "\<forall>e\<in>set asked. asking v (fst e)" using emitsD [OF em q] by blast
  have j: "join_tailnet w v h key answered s = andthen m (\<lambda>(verdict, detail).
      case verdict of Some t \<Rightarrow> ret (t, detail) | None \<Rightarrow> stage_key w v h key) s"
    using True by (auto simp: join_tailnet_def m_def andthen_def split: prod.splits stop.splits)
  show ?thesis
  proof (cases q)
    case (Finished x)
    obtain verdict detail where x: "x = (verdict, detail)" by (cases x)
    show ?thesis
    proof (cases verdict)
      case None
      then have "stage_key w v h key s1 = (r, s')" using assms j q Finished x by (simp add: andthen_def)
      then show ?thesis using l by blast
    next
      case (Some t)
      have "yields (\<lambda>x. fst x \<noteq> Some Joined) m" unfolding m_def by (intro yields_intro ensure_not_joined)
      then have "t \<noteq> Joined" using q Finished x Some yieldsD by fastforce
      then show ?thesis using assms j q Finished x Some l by (auto simp: andthen_def)
    qed
  qed (use assms j q l in \<open>auto simp: andthen_def\<close>)
qed


text \<open>A world in which every call answers.\<close>

definition sample_world :: world where
  "sample_world = \<lparr>w_configured = True, w_node = ''pve1'', w_unit = (\<lambda>_ _. Inr ()), w_text = (\<lambda>_ _. Inr ''UPID:1''), w_int = (\<lambda>_ _. Inr 101),
     w_ints = (\<lambda>_ _. Inr []), w_bool = (\<lambda>_ _. Inr True), w_json = (\<lambda>_ _. Inr JNull), w_cmd = (\<lambda>_ _. Inr (0, [], [])),
     w_defaults = (\<lambda>_ _. Inr no_defaults), w_network = (\<lambda>_ _. Inr None),
     w_cluster = (\<lambda>_. bare_cluster), w_resolver = (\<lambda>_. None), w_api_host = None, w_api_port = 8006, w_delay = (\<lambda>_. 0)\<rparr>"

definition sample_key :: string where
  "sample_key = ''tskey-auth-abcdef''"

lemma sample_key_valid: "validate_tailscale_auth_key sample_key = Some sample_key"
  by (simp add: sample_key_def validate_tailscale_auth_key_def Let_def py_strip_no_space py_isspace_def tailscale_key_shape_def
      is_alnum_def is_lower_def)

lemma sample_join:
  "join_tailnet sample_world 101 ''web'' sample_key (Some True) (fresh_run None []) =
     (Finished (Joined, []), (fresh_run None [])\<lparr>ps_log := [(Run_in 101 (up_script ''web''), Did),
        (Write_file 101 key_path sample_key, Did), (Run_in 101 Tailscale_probe, Did), (Read_defaults, Did)]\<rparr>)"
  by (simp add: join_tailnet_def ensure_tailscale_def probe_tailscale_def stage_key_def run_up_def andthen_def try_except_def
      ask_def logged_def tick_def sample_world_def fresh_run_def)


text \<open>A busy package manager is reported as SELinux confinement.  The installer's exit for a package lock that
  stayed taken is the exit for a confined guest agent, so a guest that was still finishing its own boot is
  explained as one whose agent is forbidden to reach the network.\<close>

theorem busy_reported_confined:
  "fst (install_verdict rc_package_manager_busy err) = Some Join_failed
   \<and> prefix confined_text (snd (install_verdict rc_package_manager_busy err))"
  by (simp add: install_verdict_def Let_def rc_package_manager_busy_def rc_no_downloader_def rc_agent_confined_def)

text \<open>A join that is cancelled while \<open>tailscale up\<close> runs leaves the staged file to the guest: nothing removes it.\<close>

lemma cancelled_join_keeps_file:
  "ps_fuse s = Some 0 \<Longrightarrow> run_up w v h key s = (Cancelled, logged (Run_in v (up_script h)) Cut (s\<lparr>ps_fuse := None\<rparr>))"
  by (simp add: run_up_def andthen_def try_except_def ask_def)

end
