(* ===== verification/Provision_Run.thy ===== *)
theory Provision_Run
  imports Tailnet_Join
begin

text \<open>
  Building a guest: \<open>ProvisionService._run\<close> of \<^verbatim>\<open>provision/service.py\<close> with its unwinding.

  A run reads everything that can refuse it, clones a template, configures and fences the guest, starts
  it, asks it about the fence, records it and joins it to a tailnet.  Whatever raises or is cancelled on the
  way is unwound and recorded.  The variables of the run that the handlers read (the step, the number of the guest,
  whether the clone was issued, the task in flight, whether the guest was already taken back) are part of
  the state.
\<close>

section \<open>Addresses and numbers\<close>

definition step :: "string \<Rightarrow> unit run" where
  "step name = assign (\<lambda>s. s\<lparr>ps_step := name\<rparr>)"

definition resolve_fence :: "world \<Rightarrow> provision_defaults \<Rightarrow> desired_network option run" where
  "resolve_fence w d =
     andthen (ask (w_network w) Read_network) (\<lambda>desired. case desired of
       None \<Rightarrow> ret None
     | Some g \<Rightarrow>
         if py_strip (pd_bridge d) \<noteq> dg_vnet g then ret None
         else if dg_isolate_cidrs g = []
         then throw (Fault (ValueError (''refusing to provision onto the guest vnet '' @ repr_str (dg_vnet g)
           @ '' with no isolation CIDRs configured - set guest_network_isolate_cidrs (typically the operator LAN) before ''
           @ ''provisioning guests, or provision onto another bridge'')))
         else ret (Some g))"

definition allocation_answer :: "world \<Rightarrow> desired_network \<Rightarrow> string \<Rightarrow> allocated_address answer" where
  "allocation_answer w g nameserver l c =
     (case allocate_address (Some (w_cluster w l)) g nameserver of Inl e \<Rightarrow> Inl (Alloc_fault e) | Inr a \<Rightarrow> Inr a)"

definition allocate_for_run ::
  "world \<Rightarrow> provision_request \<Rightarrow> provision_defaults \<Rightarrow> desired_network option \<Rightarrow> allocated_address option run" where
  "allocate_for_run w rq d fence =
     (if py_strip (rq_ipconfig0 rq) \<noteq> ''ip=dhcp'' \<or> \<not> allocates_addresses d then ret None
      else case fence of
        None \<Rightarrow> ret None
      | Some g \<Rightarrow> andthen (ask (allocation_answer w g (pd_nameserver d)) Scan_cluster) (\<lambda>a. ret (Some a)))"

definition span_bounds :: "string \<Rightarrow> (int \<times> int) option" where
  "span_bounds span =
     (case (int_of_str (takeWhile (\<lambda>c. c \<noteq> CHR ''-'') span), int_of_str (tl (dropWhile (\<lambda>c. c \<noteq> CHR ''-'') span))) of
        (Some low, Some high) \<Rightarrow> Some (low, high)
      | _ \<Rightarrow> None)"

definition next_in_range :: "int \<Rightarrow> int \<Rightarrow> int list \<Rightarrow> int option" where
  "next_in_range low high taken =
     (let used = filter (\<lambda>v. low \<le> v \<and> v \<le> high) taken;
          candidate = (if used = [] then low else Max (set used) + 1)
      in if candidate > high then None else Some candidate)"

text \<open>The text of the refusal computes \<open>max(used)\<close>, which raises when nothing is used.\<close>

definition range_full :: "string \<Rightarrow> int list \<Rightarrow> exn" where
  "range_full span used =
     (if used = [] then ValueError ''max() iterable argument is empty''
      else RuntimeError (''the guest VMID range '' @ span @ '' is full: '' @ digits_nat (length used)
        @ '' id(s) in use and the highest is '' @ str_int (Max (set used))
        @ ''. Widen provision_vmid_range before provisioning another guest.''))"

definition next_vmid :: "world \<Rightarrow> provision_defaults \<Rightarrow> int run" where
  "next_vmid w d =
     (let span = py_strip (pd_vmid_range d) in
      if span = [] then ask (w_int w) Next_id
      else case span_bounds span of
        None \<Rightarrow> throw (Fault (ValueError ''invalid literal for int()''))
      | Some (low, high) \<Rightarrow>
          andthen (ask (w_ints w) Cluster_ids) (\<lambda>taken. case next_in_range low high taken of
            None \<Rightarrow> throw (Fault (range_full span (filter (\<lambda>v. low \<le> v \<and> v \<le> high) taken)))
          | Some v \<Rightarrow> ret v))"

section \<open>The guest\<close>

definition clone_body :: "provision_request \<Rightarrow> int \<Rightarrow> dict" where
  "clone_body rq v =
     [(''newid'', JInt v), (''name'', JStr (rq_name rq)), (''full'', JInt (if rq_full rq then 1 else 0))]
     @ (case rq_pool rq of Some (p # ps) \<Rightarrow> [(''pool'', JStr (p # ps))] | _ \<Rightarrow> [])
     @ (case rq_storage rq of Some (p # ps) \<Rightarrow> [(''storage'', JStr (p # ps))] | _ \<Rightarrow> [])"

definition never_ran :: "fault \<Rightarrow> bool" where
  "never_ran e = (case e of Proxmox_error (Some code) _ \<Rightarrow> code \<in> {401, 403} | _ \<Rightarrow> False)"

definition in_flight :: "string option \<Rightarrow> unit run" where
  "in_flight u = assign (\<lambda>s. s\<lparr>ps_upid := u\<rparr>)"

definition wait_for :: "world \<Rightarrow> string \<Rightarrow> unit run" where
  "wait_for w upid = andthen (in_flight (Some upid)) (\<lambda>_. andthen (ask (w_unit w) (Wait_task upid)) (\<lambda>_. in_flight None))"

definition clone_guest :: "world \<Rightarrow> provision_request \<Rightarrow> int \<Rightarrow> unit run" where
  "clone_guest w rq v =
     andthen (assign (\<lambda>s. s\<lparr>ps_cloned := True\<rparr>)) (\<lambda>_.
     andthen
       (try_except (ask (w_text w) (Clone v (clone_body rq v)))
          (\<lambda>e. if never_ran e then andthen (assign (\<lambda>s. s\<lparr>ps_cloned := False\<rparr>)) (\<lambda>_. throw e) else throw e))
       (wait_for w))"

definition opt_entry :: "string \<Rightarrow> jval option \<Rightarrow> dict" where
  "opt_entry k v = (case v of None \<Rightarrow> [] | Some x \<Rightarrow> [(k, x)])"

definition build_config ::
  "provision_request \<Rightarrow> provision_defaults \<Rightarrow> bool \<Rightarrow> allocated_address option \<Rightarrow> dict" where
  "build_config rq d fenced allocation =
     [(''name'', JStr (rq_name rq)), (''ciuser'', JStr (rq_ciuser rq)),
      (''ipconfig0'', JStr (case allocation of None \<Rightarrow> rq_ipconfig0 rq | Some a \<Rightarrow> ipconfig0 a))]
     @ (case allocation of Some a \<Rightarrow> if aa_nameserver a \<noteq> [] then [(''nameserver'', JStr (aa_nameserver a))] else [] | None \<Rightarrow> [])
     @ opt_entry ''net0'' (map_option (\<lambda>n. JStr (if fenced then n @ '',firewall=1'' else n)) (net0 d))
     @ opt_entry ''sshkeys'' (map_option JStr (rq_ssh_key rq))
     @ opt_entry ''cores'' (map_option JInt (rq_cores rq))
     @ opt_entry ''memory'' (map_option JInt (rq_memory rq))"

fun write_rules :: "world \<Rightarrow> int \<Rightarrow> (nat \<times> dict) list \<Rightarrow> unit run" where
  "write_rules w v [] = ret ()"
| "write_rules w v ((_, body) # writes) = andthen (ask (w_unit w) (Fw_rule v body)) (\<lambda>_. write_rules w v writes)"

definition fence_guest :: "world \<Rightarrow> int \<Rightarrow> desired_network \<Rightarrow> unit run" where
  "fence_guest w v g =
     andthen (ask (w_unit w) (Fw_options v)) (\<lambda>_. write_rules w v (fence_rule_writes g ''out''))"

definition delete_and_wait :: "world \<Rightarrow> int \<Rightarrow> unit run" where
  "delete_and_wait w v =
     andthen (ask (w_text w) (Delete v)) (\<lambda>upid. if upid \<noteq> [] then ask (w_unit w) (Wait_task upid) else ret ())"

definition guest_destroyed :: string where
  "guest_destroyed = ''the half-made guest was destroyed''"

definition breacher_destroyed :: string where
  "breacher_destroyed = ''the guest was stopped and destroyed''"

definition destroy_unfenced :: "world \<Rightarrow> provision_request \<Rightarrow> int \<Rightarrow> string run" where
  "destroy_unfenced w rq v =
     try_except (andthen (delete_and_wait w v) (\<lambda>_. ret guest_destroyed))
       (\<lambda>e. ret (''and the guest could NOT be destroyed ('' @ fault_str e @ ''); vmid '' @ str_int v
         @ '' may still be on '' @ rq_node rq @ '', unfenced''))"

definition stop_if_running :: "world \<Rightarrow> int \<Rightarrow> unit run" where
  "stop_if_running w v =
     try_except
       (andthen (ask (w_json w) (Guest_status v)) (\<lambda>cur. case status_of cur of
          Inl e \<Rightarrow> throw (Fault e)
        | Inr st \<Rightarrow>
            if st = ''running''
            then andthen (ask (w_text w) (Stop v)) (\<lambda>upid. suppressed (ask (w_unit w) (Wait_task upid)))
            else ret ()))
       (\<lambda>_. ret ())"

definition stop_then_destroy :: "world \<Rightarrow> int \<Rightarrow> unit run" where
  "stop_then_destroy w v = andthen (stop_if_running w v) (\<lambda>_. delete_and_wait w v)"

definition destroy_breached :: "world \<Rightarrow> provision_request \<Rightarrow> int \<Rightarrow> string run" where
  "destroy_breached w rq v =
     try_except (andthen (stop_then_destroy w v) (\<lambda>_. ret breacher_destroyed))
       (\<lambda>e. ret (''and the guest could NOT be destroyed ('' @ fault_str e @ ''); vmid '' @ str_int v
         @ '' may still be running on '' @ rq_node rq @ '' with the isolated range in reach''))"

definition destroy_after_failure :: "world \<Rightarrow> provision_request \<Rightarrow> int \<Rightarrow> (string \<times> string) run" where
  "destroy_after_failure w rq v =
     try_except (andthen (stop_then_destroy w v) (\<lambda>_. ret (''deleted'', ''destroyed guest vmid '' @ str_int v)))
       (\<lambda>e. ret (''failed'', ''cleanup FAILED ('' @ fault_str e @ ''), vmid '' @ str_int v @ '' may remain on node '' @ rq_node rq))"

section \<open>The disk\<close>

definition unit_bytes :: "char \<Rightarrow> nat option" where
  "unit_bytes c =
     (if c = CHR ''K'' then Some 1024 else if c = CHR ''M'' then Some (1024 ^ 2)
      else if c = CHR ''G'' then Some (1024 ^ 3) else if c = CHR ''T'' then Some (1024 ^ 4) else None)"

text \<open>The first \<open>size=<digits><unit>\<close> that starts a word; the flag says whether a word character came before.\<close>

fun size_in_spec :: "bool \<Rightarrow> string \<Rightarrow> nat option" where
  "size_in_spec inword [] = None"
| "size_in_spec inword (c # cs) =
     (let rest = drop 5 (c # cs); ds = takeWhile is_digit rest; after = dropWhile is_digit rest in
      if \<not> inword \<and> prefix ''size='' (c # cs) \<and> ds \<noteq> []
      then Some (nat_of_digits ds * (case after of [] \<Rightarrow> 1 | u # _ \<Rightarrow> (case unit_bytes u of None \<Rightarrow> 1 | Some n \<Rightarrow> n)))
      else size_in_spec (word_char c) cs)"

definition disk_size_bytes :: "world \<Rightarrow> int \<Rightarrow> string \<Rightarrow> nat option run" where
  "disk_size_bytes w v disk =
     andthen (try_except (andthen (ask (w_json w) (Get_config v)) (\<lambda>c. ret (Some c))) (\<lambda>_. ret None))
       (\<lambda>config. case config of
          None \<Rightarrow> ret None
        | Some (JObj kvs) \<Rightarrow>
            (case dget_or ''data'' (JObj kvs) kvs of
               JObj m \<Rightarrow> ret (size_in_spec False (str_or_empty (dget disk m)))
             | data \<Rightarrow> if truthy data then throw (Fault (AttributeError ''get'')) else ret None)
        | Some _ \<Rightarrow> ret None)"

definition upid_of :: "jval \<Rightarrow> string option" where
  "upid_of r =
     (case (case r of JObj kvs \<Rightarrow> dget_or ''data'' r kvs | _ \<Rightarrow> r) of
        JStr s \<Rightarrow> if prefix ''UPID:'' s then Some s else None
      | _ \<Rightarrow> None)"

definition resize_disk :: "world \<Rightarrow> provision_request \<Rightarrow> int \<Rightarrow> int \<Rightarrow> unit run" where
  "resize_disk w rq v gb =
     andthen (disk_size_bytes w v (rq_disk rq)) (\<lambda>current.
       if (case current of None \<Rightarrow> False | Some b \<Rightarrow> gb * 1024 * 1024 * 1024 \<le> int b) then ret ()
       else andthen (ask (w_json w) (Resize v (rq_disk rq) (str_int gb @ ''G''))) (\<lambda>r.
         case upid_of r of None \<Rightarrow> ret () | Some u \<Rightarrow> ask (w_unit w) (Wait_task u)))"

section \<open>The address the guest reports\<close>

fun first_address :: "jval list \<Rightarrow> string option" where
  "first_address [] = None"
| "first_address (a # as) =
     (case a of
        JObj m \<Rightarrow>
          (let ip = py_str (dget_or ''ip-address'' (JStr []) m) in
           if ip \<noteq> [] \<and> CHR '':'' \<notin> set ip \<and> \<not> prefix ''127.'' ip then Some ip else first_address as)
      | _ \<Rightarrow> first_address as)"

fun first_of_interfaces :: "jval list \<Rightarrow> string option" where
  "first_of_interfaces [] = None"
| "first_of_interfaces (i # is) =
     (case i of
        JObj m \<Rightarrow>
          (if dget ''name'' m = JStr ''lo'' then first_of_interfaces is
           else case first_address (jlist (dget ''ip-addresses'' m)) of
             Some ip \<Rightarrow> Some ip
           | None \<Rightarrow> first_of_interfaces is)
      | _ \<Rightarrow> first_of_interfaces is)"

definition first_ipv4 :: "jval \<Rightarrow> string option" where
  "first_ipv4 payload =
     (case payload of
        JObj kvs \<Rightarrow>
          (if kvs = [] then None
           else case (case dget_or ''data'' payload kvs of JObj m \<Rightarrow> dget_or ''result'' (JObj m) m | x \<Rightarrow> x) of
             JList is \<Rightarrow> first_of_interfaces is
           | _ \<Rightarrow> None)
      | _ \<Rightarrow> None)"

definition ip_wait :: nat where
  "ip_wait = 60"

function discover_ip :: "world \<Rightarrow> int \<Rightarrow> nat \<Rightarrow> string option run" where
  "discover_ip w v left =
     andthen (ask (w_json w) (Agent_network v)) (\<lambda>data.
       case first_ipv4 data of
         Some ip \<Rightarrow> ret (Some ip)
       | None \<Rightarrow> (\<lambda>s. (if left - w_delay w (ps_log s) = 0 then ret None
           else andthen (ask (w_unit w) Pause) (\<lambda>_. discover_ip w v (left - w_delay w (ps_log s) - 3))) s))"
  by auto

termination discover_ip
  by (relation "measure (\<lambda>(_, _, left). left)") auto

declare discover_ip.simps [simp del]

section \<open>Asking the guest about its fence\<close>

type_synonym fence_report = "fence_verdict \<times> string \<times> jval list \<times> bool option"

definition fence_probe_retries :: nat where
  "fence_probe_retries = 5"

fun probe_loop :: "world \<Rightarrow> int \<Rightarrow> probe_target list \<Rightarrow> nat \<Rightarrow> fence_report run" where
  "probe_loop w v targets retries =
     andthen
       (try_except (andthen (ask (w_cmd w) (Run_in v (Fence_probe targets))) (\<lambda>x. ret (Inr x)))
          (\<lambda>e. ret (Inl (case e of
             Timed_out _ \<Rightarrow> (Unverified, ''The fence probe had not finished after 60s inside the guest.'', [], Some True)
           | _ \<Rightarrow> (Unverified, safe_detail (''The guest agent answered a ping but would not run the fence probe: '' @ fault_str e
               @ ''. Some images ship qemu-guest-agent with guest-exec disabled.'') None,
                   [], Some True)))))
       (\<lambda>r. case r of
          Inl report \<Rightarrow> ret report
        | Inr (_, out, _) \<Rightarrow>
            (let results = parse_probe_output out targets in
             if nothing_answered results \<and> retries \<noteq> 0
             then andthen (ask (w_unit w) Pause) (\<lambda>_. probe_loop w v targets (retries - 1))
             else let attempts = Suc (fence_probe_retries - retries); (verdict, detail) = judge results in
               ret (verdict, (if attempts > 1 then detail @ '' (probed '' @ digits_nat attempts @ '' times)'' else detail),
                    map as_record results, Some True)))"

declare probe_loop.simps [simp del]

definition targets_answer :: "world \<Rightarrow> string list \<Rightarrow> probe_target list run" where
  "targets_answer w cidrs =
     (let ts = isolated_targets (w_resolver w) (w_api_host w) (w_api_port w) cidrs in
      case w_api_host w of
        None \<Rightarrow> ret ts
      | Some h \<Rightarrow> if h = [] \<or> parse_ipv4 h \<noteq> None then ret ts else ask (\<lambda>_ _. Inr ts) Resolve_name)"

definition probe_fence :: "world \<Rightarrow> int \<Rightarrow> desired_network \<Rightarrow> provision_defaults \<Rightarrow> fence_report run" where
  "probe_fence w v g d =
     andthen (targets_answer w (dg_isolate_cidrs g)) (\<lambda>isolated.
       if isolated = [] then (let (verdict, detail) = judge [] in ret (verdict, detail, [], None))
       else andthen (wait_for_agent w v agent_wait) (\<lambda>up.
         if \<not> up
         then andthen (why_no_agent w v) (\<lambda>why.
           ret (Unverified, ''Nothing could be run inside the guest to check the fence. '' @ why, [], Some False))
         else andthen (wait_for_cloud_init w v) (\<lambda>_.
           probe_loop w v (isolated @ control_targets (dg_gateway g) (pd_nameserver d) (dg_isolate_cidrs g)) fence_probe_retries)))"

definition verify_fence :: "world \<Rightarrow> int \<Rightarrow> desired_network \<Rightarrow> provision_defaults \<Rightarrow> fence_report run" where
  "verify_fence w v g d =
     try_except (probe_fence w v g d)
       (\<lambda>e. ret (Unverified, ''The fence check itself failed before it could ask the guest: '' @ fault_str e, [], None))"

definition verdict_text :: "fence_verdict \<Rightarrow> string" where
  "verdict_text v = (case v of Verified \<Rightarrow> ''verified'' | Breached \<Rightarrow> ''breached'' | Unverified \<Rightarrow> ''unverified'')"

section \<open>The run\<close>

text \<open>What can refuse the run, all of it before the clone.\<close>

record run_plan =
  rp_defaults :: provision_defaults
  rp_fence :: "desired_network option"
  rp_allocation :: "allocated_address option"
  rp_vmid :: int

definition plan_run :: "world \<Rightarrow> provision_request \<Rightarrow> run_plan run" where
  "plan_run w rq =
     andthen (ask (w_unit w) Set_running) (\<lambda>_.
     if \<not> w_configured w then throw (Fault (RuntimeError ''Proxmox not configured''))
     else
     andthen (step ''settings'') (\<lambda>_.
     andthen (ask (w_defaults w) Read_defaults) (\<lambda>d.
     andthen (resolve_fence w d) (\<lambda>fence.
     andthen (step ''allocate_ip'') (\<lambda>_.
     andthen (allocate_for_run w rq d fence) (\<lambda>allocation.
     andthen (step ''next_vmid'') (\<lambda>_.
     andthen (next_vmid w d) (\<lambda>v.
       ret \<lparr>rp_defaults = d, rp_fence = fence, rp_allocation = allocation, rp_vmid = v\<rparr>))))))))"

definition unwound :: "string \<Rightarrow> unit run" where
  "unwound cleanup = assign (\<lambda>s. s\<lparr>ps_unwound := True, ps_cleanup := cleanup\<rparr>)"

definition fence_stage :: "world \<Rightarrow> provision_request \<Rightarrow> run_plan \<Rightarrow> unit run" where
  "fence_stage w rq p =
     (case rp_fence p of
        None \<Rightarrow> ret ()
      | Some g \<Rightarrow>
          andthen (step ''fence'') (\<lambda>_.
          try_except (fence_guest w (rp_vmid p) g)
            (\<lambda>e. andthen (destroy_unfenced w rq (rp_vmid p)) (\<lambda>outcome.
              andthen (unwound (if outcome = guest_destroyed then ''deleted'' else ''failed'')) (\<lambda>_.
              throw (Fault (RuntimeError (''could not write the guest firewall rules ('' @ fault_str e @ ''); '' @ outcome))))))))"

definition prepare_guest :: "world \<Rightarrow> provision_request \<Rightarrow> run_plan \<Rightarrow> unit run" where
  "prepare_guest w rq p =
     andthen (step ''clone'') (\<lambda>_.
     andthen (clone_guest w rq (rp_vmid p)) (\<lambda>_.
     andthen (step ''configure'') (\<lambda>_.
     andthen (ask (w_unit w) (Configure (rp_vmid p)
       (build_config rq (rp_defaults p) (rp_fence p \<noteq> None) (rp_allocation p)))) (\<lambda>_.
     andthen (fence_stage w rq p) (\<lambda>_.
       case rq_disk_gb rq of None \<Rightarrow> ret ()
       | Some gb \<Rightarrow> andthen (step ''resize_disk'') (\<lambda>_. resize_disk w rq (rp_vmid p) gb))))))"

definition start_guest :: "world \<Rightarrow> run_plan \<Rightarrow> unit run" where
  "start_guest w p = andthen (step ''start_vm'') (\<lambda>_. andthen (ask (w_text w) (Start (rp_vmid p))) (wait_for w))"

definition verify_stage :: "world \<Rightarrow> provision_request \<Rightarrow> run_plan \<Rightarrow> fence_report option run" where
  "verify_stage w rq p =
     (case rp_fence p of
        None \<Rightarrow> ret None
      | Some g \<Rightarrow>
          andthen (step ''verify_fence'') (\<lambda>_.
          andthen (verify_fence w (rp_vmid p) g (rp_defaults p)) (\<lambda>report.
            if fst report = Breached
            then andthen (destroy_breached w rq (rp_vmid p)) (\<lambda>outcome.
              andthen (unwound (if outcome = breacher_destroyed then ''deleted'' else ''failed'')) (\<lambda>_.
              throw (Fault (RuntimeError (''the fence was written but the guest reached the isolated range - ''
                @ fst (snd report) @ '' '' @ outcome)))))
            else ret (Some report))))"

definition text_or_null :: "string option \<Rightarrow> jval" where
  "text_or_null t = (case t of None \<Rightarrow> JNull | Some s \<Rightarrow> if s = [] then JNull else JStr s)"

definition fence_record :: "run_plan \<Rightarrow> fence_report option \<Rightarrow> jval" where
  "fence_record p report =
     (case rp_fence p of
        None \<Rightarrow> JNull
      | Some g \<Rightarrow> JObj [(''vnet'', JStr (dg_vnet g)),
          (''rules'', JList (map JObj (rev (map snd (fence_rule_writes g ''out''))))),
          (''verification'', (case report of None \<Rightarrow> JNull | Some (v, d, probes, _) \<Rightarrow>
             JObj [(''verdict'', JStr (verdict_text v)), (''detail'', JStr d), (''probes'', JList probes)]))])"

definition run_result ::
  "provision_request \<Rightarrow> run_plan \<Rightarrow> string option \<Rightarrow> string \<Rightarrow> tailnet option \<Rightarrow> string \<Rightarrow> fence_report option \<Rightarrow> dict" where
  "run_result rq p ip host_id tn detail report =
     [(''vmid'', JInt (rp_vmid p)), (''name'', JStr (rq_name rq)), (''node'', JStr (rq_node rq)),
      (''ip'', (case ip of None \<Rightarrow> JNull | Some a \<Rightarrow> JStr a)),
      (''ipconfig0'', JStr (case rp_allocation p of None \<Rightarrow> rq_ipconfig0 rq | Some a \<Rightarrow> ipconfig0 a)),
      (''host_id'', JStr host_id), (''ciuser'', JStr (rq_ciuser rq)),
      (''tailnet'', (case tn of None \<Rightarrow> JNull | Some t \<Rightarrow> JStr (tailnet_text t))),
      (''tailnet_detail'', text_or_null (Some detail)),
      (''fence'', (case report of None \<Rightarrow> JNull | Some (v, _) \<Rightarrow> JStr (verdict_text v))),
      (''fence_detail'', (case report of None \<Rightarrow> JNull | Some (_, d, _) \<Rightarrow> text_or_null (Some d))),
      (''guest_network_fence'', fence_record p report)]"

definition hand_over :: "world \<Rightarrow> provision_request \<Rightarrow> run_plan \<Rightarrow> dict run" where
  "hand_over w rq p =
     andthen (step ''discover_ip'') (\<lambda>_.
     andthen (case rp_allocation p of Some a \<Rightarrow> ret (Some (aa_address a)) | None \<Rightarrow> discover_ip w (rp_vmid p) ip_wait) (\<lambda>ip.
     andthen (verify_stage w rq p) (\<lambda>report.
     andthen (step ''record_host'') (\<lambda>_.
     andthen (ask (w_text w) (Create_host (rp_vmid p) ip)) (\<lambda>host_id.
     andthen (step ''tailscale_join'') (\<lambda>_.
     andthen (provision_join w rq (rp_vmid p) (case report of None \<Rightarrow> None | Some (_, _, _, answered) \<Rightarrow> answered)) (\<lambda>(tn, detail).
       ret (run_result rq p ip host_id tn detail report))))))))"

definition write_audit :: "world \<Rightarrow> provision_request \<Rightarrow> string \<Rightarrow> dict \<Rightarrow> unit run" where
  "write_audit w rq action details =
     suppressed (ask (w_unit w) (Write_audit action ((''node'', JStr (rq_node rq)) # details)))"

definition run_main :: "world \<Rightarrow> provision_request \<Rightarrow> unit run" where
  "run_main w rq =
     andthen (plan_run w rq) (\<lambda>p.
     andthen (assign (\<lambda>s. s\<lparr>ps_vmid := Some (rp_vmid p)\<rparr>)) (\<lambda>_.
     andthen (prepare_guest w rq p) (\<lambda>_.
     andthen (start_guest w p) (\<lambda>_.
     andthen (hand_over w rq p) (\<lambda>result.
     andthen (ask (w_unit w) (Set_succeeded result)) (\<lambda>_.
       write_audit w rq ''provision'' result))))))"

section \<open>Failure and cancellation\<close>

definition failed_outcome :: "string \<Rightarrow> int option \<Rightarrow> string \<Rightarrow> dict" where
  "failed_outcome at v cleanup =
     [(''failed'', JBool True), (''step'', JStr at)] @ opt_entry ''vmid'' (map_option JInt v) @ [(''cleanup'', JStr cleanup)]"

definition record_failure :: "world \<Rightarrow> provision_request \<Rightarrow> string \<Rightarrow> dict \<Rightarrow> unit run" where
  "record_failure w rq err out =
     suppressed (andthen (ask (w_unit w) (Set_failed err out)) (\<lambda>_.
       write_audit w rq ''provision_failed'' ((''error'', JStr err) # out)))"

text \<open>What the handler does, decided by the variables of the state \<open>s\<close> it was entered in.\<close>

definition failure_unwinding :: "world \<Rightarrow> provision_request \<Rightarrow> fault \<Rightarrow> pstate \<Rightarrow> unit run" where
  "failure_unwinding w rq e s =
     (let err = ''failed at '' @ ps_step s @ '': '' @ fault_str e in
      case (if ps_cloned s \<and> \<not> ps_unwound s then ps_vmid s else None) of
        Some v \<Rightarrow>
          andthen (destroy_after_failure w rq v) (\<lambda>(cleanup, note).
            record_failure w rq (err @ ''; '' @ note) (failed_outcome (ps_step s) (Some v) cleanup))
      | None \<Rightarrow>
          record_failure w rq err
            (if ps_unwound s
             then failed_outcome (ps_step s) (ps_vmid s) (if ps_cleanup s = [] then ''failed'' else ps_cleanup s)
             else failed_outcome (ps_step s) None ''nothing_created''))"

definition after_failure :: "world \<Rightarrow> provision_request \<Rightarrow> fault \<Rightarrow> unit run" where
  "after_failure w rq e = (\<lambda>s. failure_unwinding w rq e s s)"

text \<open>With the clone never issued only the cleanup is reported, else also the number and the stop of the task.\<close>

definition cancelled_outcome :: "(int option \<times> string) option \<Rightarrow> string \<Rightarrow> dict" where
  "cancelled_outcome issued cleanup =
     [(''cancelled'', JBool True)]
     @ (case issued of None \<Rightarrow> []
        | Some (v, stop_task) \<Rightarrow>
            [(''vmid'', (case v of None \<Rightarrow> JNull | Some n \<Rightarrow> JInt n)), (''stop_task'', JStr stop_task)])
     @ [(''cleanup'', JStr cleanup)]"

definition record_cancel :: "world \<Rightarrow> provision_request \<Rightarrow> dict \<Rightarrow> string option \<Rightarrow> unit run" where
  "record_cancel w rq out err =
     andthen (suppressed (ask (w_unit w) (Cancel_outcome out err))) (\<lambda>_. write_audit w rq ''provision_cancelled'' out)"

definition stop_inflight :: "world \<Rightarrow> string option \<Rightarrow> string run" where
  "stop_inflight w upid =
     (case upid of
        None \<Rightarrow> ret ''not_needed''
      | Some u \<Rightarrow> try_except (andthen (ask (w_unit w) (Stop_task u)) (\<lambda>_. ret ''stopped'')) (\<lambda>_. ret ''failed''))"

definition cleanup_error :: "provision_request \<Rightarrow> int \<Rightarrow> fault \<Rightarrow> string" where
  "cleanup_error rq v e =
     ''cancelled but cleanup failed at delete_vm: '' @ fault_str e @ ''; guest vmid '' @ str_int v @ '' may remain on '' @ rq_node rq"

definition cancel_unwinding :: "world \<Rightarrow> provision_request \<Rightarrow> pstate \<Rightarrow> unit run" where
  "cancel_unwinding w rq s =
     (if \<not> ps_cloned s \<or> \<not> w_configured w then record_cancel w rq (cancelled_outcome None ''nothing_created'') None
      else andthen (stop_inflight w (ps_upid s)) (\<lambda>stop_task.
        case ps_vmid s of
          None \<Rightarrow> record_cancel w rq (cancelled_outcome (Some (None, stop_task)) ''nothing_created'') None
        | Some v \<Rightarrow>
            andthen (try_except (andthen (stop_then_destroy w v) (\<lambda>_. ret None)) (\<lambda>e. ret (Some e))) (\<lambda>e.
              case e of
                None \<Rightarrow> record_cancel w rq (cancelled_outcome (Some (Some v, stop_task)) ''deleted'') None
              | Some e \<Rightarrow> record_cancel w rq (cancelled_outcome (Some (Some v, stop_task)) ''failed'')
                  (Some (cleanup_error rq v e)))))"

definition cleanup_after_cancel :: "world \<Rightarrow> provision_request \<Rightarrow> unit run" where
  "cleanup_after_cancel w rq = (\<lambda>s. cancel_unwinding w rq s s)"

text \<open>\<open>_run\<close>: a cancellation that hits the failure handler is not handled again.\<close>

definition provision :: "world \<Rightarrow> provision_request \<Rightarrow> unit run" where
  "provision w rq = (\<lambda>s.
     case run_main w rq s of
       (Finished _, s') \<Rightarrow> (Finished (), s')
     | (Raised e, s') \<Rightarrow> after_failure w rq e s'
     | (Cancelled, s') \<Rightarrow> (Cancelled, snd (cleanup_after_cancel w rq s')))"

section \<open>One run per name\<close>

definition start_provision :: "string \<Rightarrow> string list \<Rightarrow> exn option \<Rightarrow> (exn + unit) \<times> string list" where
  "start_provision name inflight create_task_fails =
     (if name \<in> set inflight
      then (Inl (OtherError (''A provision for '' @ name @ '' is already in flight'')), inflight)
      else case create_task_fails of
        Some e \<Rightarrow> (Inl e, inflight)
      | None \<Rightarrow> (Inr (), name # inflight))"

definition end_provision :: "string \<Rightarrow> string list \<Rightarrow> string list" where
  "end_provision name inflight = filter (\<lambda>n. n \<noteq> name) inflight"

section \<open>The guest a re-join runs in\<close>

definition resolve_join_target ::
  "(string option \<times> string option) option \<Rightarrow> provision_defaults \<Rightarrow> string option \<Rightarrow> string option \<Rightarrow> (string \<times> string) res" where
  "resolve_join_target host d node hostname =
     (let ask_row = (node = None \<or> hostname = None);
          row = (if ask_row then host else None);
          pick = (\<lambda>given f. case given of Some (x # xs) \<Rightarrow> given
                  | _ \<Rightarrow> (case row of None \<Rightarrow> given | Some r \<Rightarrow> or_none (or_empty (f r))));
          n = pick node fst; h = pick hostname snd;
          n' = (if n = None then or_none (pd_node d) else n)
      in case n' of
           None \<Rightarrow> Inl (OtherError ''No node known for the VMID'')
         | Some nn \<Rightarrow> (case h of None \<Rightarrow> Inl (OtherError ''No hostname known for the VMID'') | Some hh \<Rightarrow> Inr (nn, hh)))"

end
