(* ===== verification/Provision_Properties.thy ===== *)
theory Provision_Properties
  imports Provision_Run
begin

text \<open>Building a guest: lemmas and properties.\<close>

section \<open>Calls of the stages\<close>

text \<open>Calls that change nothing on the cluster.\<close>

definition reading :: "call \<Rightarrow> bool" where
  "reading c = (c \<in> {Set_running, Read_defaults, Read_network, Scan_cluster, Next_id, Cluster_ids})"

lemma emits_step [emits_intro]: "emits P (step n)"
  unfolding step_def by (intro emits_intro) simp

lemma emits_in_flight [emits_intro]: "emits P (in_flight u)"
  unfolding in_flight_def by (intro emits_intro) simp

lemma calls_unwound [calls_intro]: "calls P (unwound u)"
  unfolding unwound_def by (intro calls_intro) simp

lemma emits_suppressed [emits_intro]: "emits P m \<Longrightarrow> emits P (suppressed m)"
  unfolding suppressed_def by (intro emits_intro)

lemma emits_resolve_fence: "emits reading (resolve_fence w d)"
  unfolding resolve_fence_def
  by (intro emits_intro) (auto simp: reading_def intro!: emits_intro split: option.split)

lemma emits_allocate: "emits reading (allocate_for_run w rq d fence)"
  unfolding allocate_for_run_def
  by (cases fence) (auto simp: reading_def intro!: emits_intro)

lemma emits_next_vmid: "emits reading (next_vmid w d)"
  unfolding next_vmid_def Let_def
  by (auto simp: reading_def intro!: emits_intro split: option.split)

lemma emits_plan: "emits reading (plan_run w rq)"
  unfolding plan_run_def
  by (intro emits_intro emits_resolve_fence emits_allocate emits_next_vmid) (auto simp: reading_def)

text \<open>Calls other than those that create or start a guest or report success.\<close>

definition harmless :: "call \<Rightarrow> bool" where
  "harmless c = ((\<forall>v b. c \<noteq> Clone v b) \<and> (\<forall>v. c \<noteq> Start v) \<and> (\<forall>r. c \<noteq> Set_succeeded r))"

lemma reading_harmless: "reading c \<Longrightarrow> harmless c"
  and asking_harmless: "asking v c \<Longrightarrow> harmless c"
  and joining_harmless: "joining v h k c \<Longrightarrow> harmless c"
  by (auto simp: reading_def asking_def joining_def harmless_def)

lemma harmless_simps [simp]:
  "harmless (Wait_task u)" "harmless (Configure v cfg)" "harmless (Fw_options v)" "harmless (Fw_rule v b)" "harmless (Get_config v)"
  "harmless (Resize v d z)" "harmless (Agent_network v)" "harmless (Guest_status v)" "harmless Resolve_name"
  "harmless (Run_in v sc)" "harmless (Stop v)" "harmless (Delete v)" "harmless (Stop_task u)" "harmless (Create_host v ip)"
  "harmless (Set_failed e r)" "harmless (Cancel_outcome r e')" "harmless (Write_audit a r)" "harmless Pause"
  "\<not> harmless (Clone v b)" "\<not> harmless (Start v)" "\<not> harmless (Set_succeeded r)"
  by (simp_all add: harmless_def)

lemma harmless_delete: "emits harmless (delete_and_wait w v)"
  unfolding delete_and_wait_def by (intro emits_intro) simp_all

lemma harmless_stop: "emits harmless (stop_if_running w v)"
  unfolding stop_if_running_def by (intro emits_intro) (auto intro!: emits_intro split: sum.split)

lemma harmless_stop_then_destroy: "emits harmless (stop_then_destroy w v)"
  unfolding stop_then_destroy_def by (intro emits_intro harmless_stop harmless_delete)

lemma harmless_destroys:
  "emits harmless (destroy_unfenced w rq v)" "emits harmless (destroy_breached w rq v)" "emits harmless (destroy_after_failure w rq v)"
  unfolding destroy_unfenced_def destroy_breached_def destroy_after_failure_def
  by (intro emits_intro harmless_delete harmless_stop_then_destroy)+

lemma harmless_write_rules: "emits harmless (write_rules w v writes)"
proof (induction writes)
  case Nil
  show ?case unfolding write_rules.simps by (rule emits_ret)
next
  case (Cons x writes)
  then show ?case by (cases x) (simp add: emits_andthen emits_ask)
qed

lemma harmless_fence_guest: "emits harmless (fence_guest w v g)"
  unfolding fence_guest_def by (intro emits_intro harmless_write_rules) simp

lemma harmless_fence_stage: "calls harmless (fence_stage w rq p)"
  unfolding fence_stage_def
  by (cases "rp_fence p")
    (auto intro!: calls_intro emits_calls [OF harmless_fence_guest] emits_calls [OF emits_step] emits_calls [OF harmless_destroys(1)])

lemma harmless_resize: "emits harmless (resize_disk w rq v gb)"
  unfolding resize_disk_def disk_size_bytes_def
  by (intro emits_intro) (auto intro!: emits_intro split: option.split jval.split)

lemma harmless_wait_for: "emits harmless (wait_for w u)"
  unfolding wait_for_def by (intro emits_intro) simp

lemma harmless_discover: "emits harmless (discover_ip w v left)"
proof (induction w v left rule: discover_ip.induct)
  case (1 w v left)
  have r: "emits harmless (\<lambda>s. (if left - w_delay w (ps_log s) = 0 then ret None
      else andthen (ask (w_unit w) Pause) (\<lambda>_. discover_ip w v (left - w_delay w (ps_log s) - 3))) s)"
    if "first_ipv4 data = None" for data
    by (rule emits_state, intro emits_if emits_ret emits_andthen emits_ask "1" [OF that]) simp_all
  show ?case
    unfolding discover_ip.simps [of w v left]
  proof (intro emits_andthen emits_ask)
    fix data
    show "emits harmless (case first_ipv4 data of
         Some ip \<Rightarrow> ret (Some ip)
       | None \<Rightarrow> (\<lambda>s. (if left - w_delay w (ps_log s) = 0 then ret None
           else andthen (ask (w_unit w) Pause) (\<lambda>_. discover_ip w v (left - w_delay w (ps_log s) - 3))) s))"
      by (cases "first_ipv4 data") (simp only: option.case r, simp only: option.case emits_ret)
  qed simp
qed

lemma harmless_probe_loop: "emits harmless (probe_loop w v targets n)"
proof (induction n)
  case 0
  show ?case unfolding probe_loop.simps [of w v targets 0]
    by (intro emits_intro) (auto intro!: emits_intro simp: Let_def split: sum.split prod.split)
next
  case (Suc n)
  show ?case unfolding probe_loop.simps [of w v targets "Suc n"]
    by (intro emits_intro) (auto intro!: emits_intro Suc simp: Let_def split: sum.split prod.split)
qed

lemma harmless_verify: "emits harmless (verify_fence w v g d)"
proof -
  have "emits harmless (probe_fence w v g d)"
    unfolding probe_fence_def targets_answer_def Let_def
    by (intro emits_andthen emits_if)
      (auto intro!: emits_intro harmless_probe_loop emits_mono [OF emits_wait_for_agent asking_harmless]
        emits_mono [OF emits_why_no_agent asking_harmless] emits_mono [OF emits_wait_for_cloud_init asking_harmless]
        split: option.split prod.split)
  then show ?thesis unfolding verify_fence_def by (intro emits_intro)
qed

lemma harmless_join: "emits harmless (join_tailnet w v h key answered)"
proof -
  have "emits harmless (stage_key w v h key)" by (rule emits_mono [OF emits_stage_key joining_harmless])
  then show ?thesis
    unfolding join_tailnet_def
    by (intro emits_intro emits_mono [OF emits_ensure asking_harmless])
      (auto simp: harmless_def intro!: emits_intro split: option.split prod.split)
qed

lemma harmless_provision_join: "emits harmless (provision_join w rq v answered)"
proof (cases "rq_ts_key rq")
  case (Some key)
  let ?m = "finally_do (try_except (andthen (join_tailnet w v (rq_name rq) key answered) (\<lambda>(t, d). ret (Some t, d)))
      (\<lambda>e. ret (Some Join_unknown, safe_detail (''The tailnet join could not be completed: '' @ fault_str e) (Some key))))
    (release_join (rq_node rq) v)"
  have m: "emits harmless ?m"
    by (intro emits_intro harmless_join) (auto simp: release_join_def intro!: emits_intro)
  have c: "cut_once (provision_join w rq v answered)"
  proof (rule cut_onceI)
    fix s r s' assume a: "provision_join w rq v answered s = (r, s')"
    show "(ps_fuse s = None \<longrightarrow> r \<noteq> Cancelled \<and> ps_fuse s' = None) \<and> (r = Cancelled \<longrightarrow> ps_fuse s' = None)"
    proof (cases "(rq_node rq, v) \<in> set (ps_joining s)")
      case True
      then show ?thesis using a Some by (auto simp: provision_join_def reserve_join_def)
    next
      case False
      then have "?m (s\<lparr>ps_joining := (rq_node rq, v) # ps_joining s\<rparr>) = (r, s')"
        using a Some by (simp add: provision_join_def reserve_join_def)
      with cut_onceD [OF emits_cut_once [OF m], of "s\<lparr>ps_joining := (rq_node rq, v) # ps_joining s\<rparr>"] show ?thesis by auto
    qed
  qed
  show ?thesis
  proof (rule emitsI [OF c])
    fix s r s' assume a: "provision_join w rq v answered s = (r, s')"
    show "(\<exists>new. ps_log s' = new @ ps_log s \<and> (\<forall>e\<in>set new. harmless (fst e))) \<and> locals s' = locals s"
    proof (cases "(rq_node rq, v) \<in> set (ps_joining s)")
      case True
      then show ?thesis using a Some by (simp add: provision_join_def reserve_join_def)
    next
      case False
      then have "?m (s\<lparr>ps_joining := (rq_node rq, v) # ps_joining s\<rparr>) = (r, s')"
        using a Some by (simp add: provision_join_def reserve_join_def)
      from emitsD [OF m this] emits_locals [OF m this] show ?thesis by simp
    qed
  qed
qed (simp add: provision_join_def emits_ret)

lemma harmless_verify_stage: "calls harmless (verify_stage w rq p)"
  unfolding verify_stage_def
  by (cases "rp_fence p")
    (auto intro!: calls_intro emits_calls [OF harmless_verify] emits_calls [OF emits_step] emits_calls [OF harmless_destroys(2)])

lemma harmless_hand_over: "calls harmless (hand_over w rq p)"
  unfolding hand_over_def
  by (intro calls_intro harmless_verify_stage emits_calls [OF harmless_provision_join] emits_calls [OF emits_step])
    (auto intro!: calls_intro emits_calls [OF harmless_discover] split: option.split prod.split)

lemma harmless_audit: "emits harmless (write_audit w rq a r)"
  unfolding write_audit_def by (intro emits_intro) simp

lemma harmless_record_failure: "emits harmless (record_failure w rq err out)"
  unfolding record_failure_def by (intro emits_intro harmless_audit) simp

lemma harmless_record_cancel: "emits harmless (record_cancel w rq out err)"
  unfolding record_cancel_def by (intro emits_intro harmless_audit) simp

lemma harmless_failure_unwinding: "emits harmless (failure_unwinding w rq e t)"
  unfolding failure_unwinding_def Let_def
  by (auto intro!: emits_intro harmless_destroys harmless_record_failure split: option.split prod.split)

lemma harmless_cancel_unwinding: "emits harmless (cancel_unwinding w rq t)"
  unfolding cancel_unwinding_def stop_inflight_def
  by (auto intro!: emits_intro harmless_stop_then_destroy harmless_record_cancel split: option.split)

lemma harmless_after_failure: "emits harmless (after_failure w rq e)"
  unfolding after_failure_def by (rule emits_state) (rule harmless_failure_unwinding)

lemma harmless_cleanup: "emits harmless (cleanup_after_cancel w rq)"
  unfolding cleanup_after_cancel_def by (rule emits_state) (rule harmless_cancel_unwinding)

section \<open>The order of the log\<close>

lemma start_split:
  assumes "new @ l = later @ (c, o') # earlier" and "\<forall>e\<in>set new. fst e \<noteq> c"
  shows "\<exists>later'. l = later' @ (c, o') # earlier"
  using assms
proof (induction new arbitrary: later)
  case (Cons x new)
  show ?case
  proof (cases later)
    case Nil
    then show ?thesis using Cons.prems by auto
  next
    case (Cons y ys)
    then show ?thesis using Cons.IH [of ys] Cons.prems by auto
  qed
qed auto

lemma calls_split:
  assumes "calls P m" and "m s = (r, s')" and "ps_log s' = later @ (c, o') # earlier" and "\<not> P c"
  shows "\<exists>later'. ps_log s = later' @ (c, o') # earlier"
proof -
  obtain new where n: "ps_log s' = new @ ps_log s" "\<forall>e\<in>set new. P (fst e)" using callsD [OF assms(1,2)] by blast
  then show ?thesis using start_split [of new "ps_log s"] assms(3,4) by metis
qed

text \<open>The chain on a guest whose cluster prepends every new rule: the rules written, newest first.\<close>

definition rule_of :: "int \<Rightarrow> call \<times> outcome \<Rightarrow> dict option" where
  "rule_of v e = (case e of (Fw_rule v' b, Did) \<Rightarrow> if v' = v then Some b else None | _ \<Rightarrow> None)"

definition guest_chain :: "int \<Rightarrow> log \<Rightarrow> dict list" where
  "guest_chain v l = List.map_filter (rule_of v) l"

lemma guest_chain_Nil [simp]: "guest_chain v [] = []"
  by (simp add: guest_chain_def map_filter_simps)

lemma guest_chain_append: "guest_chain v (a @ b) = guest_chain v a @ guest_chain v b"
  by (simp add: guest_chain_def map_filter_def)

lemma guest_chain_other:
  assumes "calls (\<lambda>c. \<forall>b. c \<noteq> Fw_rule v b) m" and "m s = (r, s')"
  shows "guest_chain v (ps_log s') = guest_chain v (ps_log s)"
proof -
  obtain new where n: "ps_log s' = new @ ps_log s" "\<forall>e\<in>set new. \<forall>b. fst e \<noteq> Fw_rule v b" using callsD [OF assms] by blast
  then have "\<forall>e\<in>set new. rule_of v e = None" by (auto simp: rule_of_def split: call.splits outcome.splits)
  then have "guest_chain v new = []" by (simp add: guest_chain_def map_filter_def)
  then show ?thesis by (simp add: n(1) guest_chain_append)
qed

lemma write_rules_log:
  "write_rules w v writes s = (Finished (), s') \<Longrightarrow>
     ps_log s' = rev (map (\<lambda>(_, b). (Fw_rule v b, Did)) writes) @ ps_log s"
proof (induction writes arbitrary: s)
  case (Cons x writes)
  obtain n b where x: "x = (n, b)" by fastforce
  obtain t where t: "ask (w_unit w) (Fw_rule v b) s = (Finished (), t)" "write_rules w v writes t = (Finished (), s')"
    using Cons.prems x by (auto simp: andthen_Finished)
  then have "ps_log t = (Fw_rule v b, Did) # ps_log s" by (auto simp: ask_Finished)
  then show ?case using Cons.IH [OF t(2)] x by simp
qed simp

lemma fence_guest_chain:
  assumes "fence_guest w v g s = (Finished (), s')" and "guest_chain v (ps_log s) = []"
  shows "guest_chain v (ps_log s') = post_rules [] (fence_rule_writes g ''out'')" and "(Fw_options v, Did) \<in> set (ps_log s')"
proof -
  obtain t where t: "ask (w_unit w) (Fw_options v) s = (Finished (), t)"
    "write_rules w v (fence_rule_writes g ''out'') t = (Finished (), s')"
    using assms(1) by (auto simp: fence_guest_def andthen_Finished)
  have l: "ps_log t = (Fw_options v, Did) # ps_log s" using t(1) by (auto simp: ask_Finished)
  note wr = write_rules_log [OF t(2)]
  show "(Fw_options v, Did) \<in> set (ps_log s')" using l wr by simp
  have "guest_chain v (ps_log t) = []" using l assms(2) by (simp add: guest_chain_def rule_of_def map_filter_simps)
  moreover have one: "guest_chain v [(Fw_rule v b, Did)] = [b]" for b by (simp add: guest_chain_def rule_of_def map_filter_simps)
  moreover have "guest_chain v (rev (map (\<lambda>(_, b). (Fw_rule v b, Did)) ws)) = rev (map snd ws)" for ws :: "(nat \<times> dict) list"
    by (induction ws) (auto simp: guest_chain_append one)
  ultimately have "guest_chain v (ps_log s') = rev (map snd (fence_rule_writes g ''out''))"
    by (simp add: wr guest_chain_append)
  then show "guest_chain v (ps_log s') = post_rules [] (fence_rule_writes g ''out'')"
    using post_rules_rev [of "[]" "rev (fence_rule_writes g ''out'')"] by (simp add: rev_map)
qed

section \<open>A guest starts behind its fence\<close>

lemma calls_wait_for: "calls P (wait_for w u)" if "P (Wait_task u)"
  unfolding wait_for_def using that by (intro calls_intro emits_calls [OF emits_in_flight]) simp_all

lemma calls_clone: "calls (\<lambda>c. (\<exists>b. c = Clone v b) \<or> (\<exists>u. c = Wait_task u)) (clone_guest w rq v)"
  unfolding clone_guest_def by (intro calls_intro calls_wait_for) auto

lemma calls_prepare: "calls (\<lambda>c. (\<exists>v b. c = Clone v b) \<or> harmless c) (prepare_guest w rq p)"
proof -
  have h: "calls harmless m \<Longrightarrow> calls (\<lambda>c. (\<exists>v b. c = Clone v b) \<or> harmless c) m" for m :: "'x run"
    by (erule calls_mono) blast
  have c: "calls (\<lambda>c. (\<exists>v b. c = Clone v b) \<or> harmless c) (clone_guest w rq (rp_vmid p))"
    by (rule calls_mono [OF calls_clone]) auto
  show ?thesis
    unfolding prepare_guest_def
    by (intro calls_intro c h [OF harmless_fence_stage] emits_calls [OF emits_step])
      (auto intro!: calls_intro h [OF emits_calls [OF harmless_resize]] emits_calls [OF emits_step] split: option.split)
qed

definition chained :: "world \<Rightarrow> provision_request \<Rightarrow> run_plan \<Rightarrow> log \<Rightarrow> bool" where
  "chained w rq p l \<longleftrightarrow>
     (Configure (rp_vmid p) (build_config rq (rp_defaults p) (rp_fence p \<noteq> None) (rp_allocation p)), Did) \<in> set l
     \<and> (\<forall>g. rp_fence p = Some g \<longrightarrow> (Fw_options (rp_vmid p), Did) \<in> set l
          \<and> guest_chain (rp_vmid p) l = post_rules [] (fence_rule_writes g ''out''))"

lemma calls_resize_other: "calls (\<lambda>c. \<forall>b. c \<noteq> Fw_rule v b) (resize_disk w rq v gb)"
  unfolding resize_disk_def disk_size_bytes_def
  by (intro calls_intro) (auto intro!: calls_intro split: option.split jval.split)

lemma prepare_chained:
  assumes "prepare_guest w rq p s = (Finished (), s')" and "guest_chain (rp_vmid p) (ps_log s) = []"
  shows "chained w rq p (ps_log s')"
proof -
  let ?v = "rp_vmid p" and ?cfg = "build_config rq (rp_defaults p) (rp_fence p \<noteq> None) (rp_allocation p)"
  obtain s1 s2 s3 s4 s5 where st: "step ''clone'' s = (Finished (), s1)" "clone_guest w rq ?v s1 = (Finished (), s2)"
    "step ''configure'' s2 = (Finished (), s3)" "ask (w_unit w) (Configure ?v ?cfg) s3 = (Finished (), s4)"
    "fence_stage w rq p s4 = (Finished (), s5)"
    and r: "(case rq_disk_gb rq of None \<Rightarrow> ret ()
       | Some gb \<Rightarrow> andthen (step ''resize_disk'') (\<lambda>_. resize_disk w rq ?v gb)) s5 = (Finished (), s')"
    using assms(1) by (auto simp: prepare_guest_def andthen_Finished)
  have l: "ps_log s1 = ps_log s" "ps_log s3 = ps_log s2" "ps_log s4 = (Configure ?v ?cfg, Did) # ps_log s3"
    using st by (auto simp: step_def ask_Finished)
  have cc: "calls (\<lambda>c. \<forall>b. c \<noteq> Fw_rule ?v b) (clone_guest w rq ?v)" by (rule calls_mono [OF calls_clone]) auto
  have "guest_chain ?v (ps_log s2) = []" using guest_chain_other [OF cc st(2)] l assms(2) by simp
  then have c4: "guest_chain ?v (ps_log s4) = []" by (simp add: l guest_chain_def rule_of_def map_filter_simps)
  obtain n5 where n5: "ps_log s5 = n5 @ ps_log s4" using callsD [OF harmless_fence_stage st(5)] by blast
  have rc: "calls (\<lambda>c. \<forall>b. c \<noteq> Fw_rule ?v b) (case rq_disk_gb rq of None \<Rightarrow> ret ()
       | Some gb \<Rightarrow> andthen (step ''resize_disk'') (\<lambda>_. resize_disk w rq ?v gb))"
    by (auto intro!: calls_intro calls_resize_other emits_calls [OF emits_step] split: option.split)
  obtain n6 where n6: "ps_log s' = n6 @ ps_log s5" using callsD [OF rc r] by blast
  have cfg: "(Configure ?v ?cfg, Did) \<in> set (ps_log s')" by (simp add: n6 n5 l)
  have "(Fw_options ?v, Did) \<in> set (ps_log s') \<and> guest_chain ?v (ps_log s') = post_rules [] (fence_rule_writes g ''out'')"
    if g: "rp_fence p = Some g" for g
  proof -
    obtain t where t: "step ''fence'' s4 = (Finished (), t)" "fence_guest w ?v g t = (Finished (), s5)"
    proof -
      obtain t where t: "step ''fence'' s4 = (Finished (), t)" by (simp add: step_def)
      obtain q u where q: "fence_guest w ?v g t = (q, u)" by fastforce
      have "q = Finished () \<and> u = s5"
        using st(5) g t q
        by (cases q) (auto simp: fence_stage_def andthen_def try_except_def unwound_def split: prod.splits stop.splits)
      then show thesis using that t q by blast
    qed
    have "guest_chain ?v (ps_log t) = []" using c4 t(1) by (auto simp: step_def)
    note f = fence_guest_chain [OF t(2) this]
    show ?thesis using f guest_chain_other [OF rc r] by (simp add: n6)
  qed
  then show ?thesis using cfg by (simp add: chained_def)
qed

lemma provision_extends:
  assumes "run_main w rq s = (q, t)" and "provision w rq s = (r, s')"
  shows "\<exists>new. ps_log s' = new @ ps_log t \<and> (\<forall>e\<in>set new. harmless (fst e))"
proof (cases q)
  case (Raised e)
  then have "after_failure w rq e t = (r, s')" using assms by (simp add: provision_def)
  from emitsD [OF harmless_after_failure this] show ?thesis .
next
  case Cancelled
  then have "cleanup_after_cancel w rq t = (fst (cleanup_after_cancel w rq t), s')" using assms by (auto simp: provision_def)
  from emitsD [OF harmless_cleanup this] show ?thesis .
qed (use assms in \<open>auto simp: provision_def\<close>)

text \<open>Which part of a sequence made a call that is on the log.\<close>

definition made :: "call \<Rightarrow> outcome \<Rightarrow> log \<Rightarrow> pstate \<Rightarrow> bool" where
  "made c o' earlier s \<longleftrightarrow> (\<exists>later. ps_log s = later @ (c, o') # earlier)"

lemma made_later:
  assumes "andthen m f s = (r, s')" and "made c o' earlier s'" and "\<not> made c o' earlier s" and "calls P m" and "\<not> P c"
  obtains x t where "m s = (Finished x, t)" "f x t = (r, s')" "\<not> made c o' earlier t"
proof -
  have n: "\<not> made c o' earlier t" if "m s = (q, t)" for q t
    using calls_split [OF assms(4) that _ assms(5)] assms(3) by (auto simp: made_def)
  from assms(1) show thesis
  proof (cases rule: andthen_cases)
    case (next_step x t)
    then show ?thesis using that n by blast
  qed (use n assms(2) in blast)+
qed

lemma made_here:
  assumes "andthen (ask f c') g s = (r, s')" and "made c o' earlier s'" and "\<not> made c o' earlier s"
    and "\<And>u. calls P (g u)" and "\<not> P c"
  shows "c' = c \<and> earlier = ps_log s"
proof -
  obtain q t where q: "ask f c' s = (q, t)" by fastforce
  obtain oo where l: "ps_log t = (c', oo) # ps_log s" using ask_log [OF q] by blast
  have "made c o' earlier t"
  proof (cases q)
    case (Finished u)
    then have "g u t = (r, s')" using assms(1) q by (simp add: andthen_apply(1))
    from calls_split [OF assms(4) this _ assms(5)] show ?thesis using assms(2) by (auto simp: made_def)
  qed (use assms(1,2) q in \<open>auto simp: andthen_def\<close>)
  then obtain later where "(c', oo) # ps_log s = later @ (c, o') # earlier" using l by (auto simp: made_def)
  then show ?thesis using assms(3) by (cases later) (auto simp: made_def)
qed

text \<open>What a run does once the guest was told to start.\<close>

definition after_start :: "world \<Rightarrow> provision_request \<Rightarrow> run_plan \<Rightarrow> string \<Rightarrow> unit run" where
  "after_start w rq p u = andthen (wait_for w u) (\<lambda>_. andthen (hand_over w rq p) (\<lambda>result.
      andthen (ask (w_unit w) (Set_succeeded result)) (\<lambda>_. write_audit w rq ''provision'' result)))"

lemma calls_after_start: "calls (\<lambda>c. \<forall>v. c \<noteq> Start v) (after_start w rq p u)"
proof -
  have h: "calls harmless m \<Longrightarrow> calls (\<lambda>c. \<forall>v. c \<noteq> Start v) m" for m :: "'x run"
    by (erule calls_mono) (auto simp: harmless_def)
  show ?thesis
    unfolding after_start_def
    by (intro calls_intro calls_wait_for h [OF harmless_hand_over] h [OF emits_calls [OF harmless_audit]]) simp_all
qed

lemma run_from_start:
  assumes "plan_run w rq s = (Finished p, s1)" and "prepare_guest w rq p (s1\<lparr>ps_vmid := Some (rp_vmid p)\<rparr>) = (Finished (), s2)"
  shows "run_main w rq s = andthen (ask (w_text w) (Start (rp_vmid p))) (after_start w rq p) (s2\<lparr>ps_step := ''start_vm''\<rparr>)"
  using assms
  by (simp add: run_main_def andthen_apply(1) [where x = p] andthen_apply(1) [where x = "()"] andthen_assign start_guest_def
      step_def andthen_assoc after_start_def [abs_def])

text \<open>Where the run is when it starts the guest.\<close>

lemma run_prepared:
  assumes "provision w rq (fresh_run fuse jn) = (r, s')" and "ps_log s' = later @ (c, o') # earlier"
    and "\<not> harmless c" and "\<And>v b. c \<noteq> Clone v b"
  obtains p s1 s2 q t where "plan_run w rq (fresh_run fuse jn) = (Finished p, s1)"
    "prepare_guest w rq p (s1\<lparr>ps_vmid := Some (rp_vmid p)\<rparr>) = (Finished (), s2)" "\<not> made c o' earlier s2"
    "andthen (ask (w_text w) (Start (rp_vmid p))) (after_start w rq p) (s2\<lparr>ps_step := ''start_vm''\<rparr>) = (q, t)" "made c o' earlier t"
proof -
  let ?s0 = "fresh_run fuse jn"
  obtain q t where q: "run_main w rq ?s0 = (q, t)" by fastforce
  obtain new where new: "ps_log s' = new @ ps_log t" "\<forall>e\<in>set new. harmless (fst e)" using provision_extends [OF q assms(1)] by blast
  then have t: "made c o' earlier t" using start_split [of new "ps_log t" later c o' earlier] assms(2,3) by (auto simp: made_def)
  have pl: "calls harmless (plan_run w rq)"
    by (rule calls_mono [OF emits_calls [OF emits_plan]]) (rule reading_harmless)
  have "\<not> made c o' earlier ?s0" by (simp add: made_def fresh_run_def)
  from made_later [OF q [unfolded run_main_def] t this pl assms(3)]
  obtain p s1 where p: "plan_run w rq ?s0 = (Finished p, s1)" "\<not> made c o' earlier s1"
    and r1: "andthen (assign (\<lambda>s. s\<lparr>ps_vmid := Some (rp_vmid p)\<rparr>)) (\<lambda>_.
     andthen (prepare_guest w rq p) (\<lambda>_. andthen (start_guest w p) (\<lambda>_. andthen (hand_over w rq p) (\<lambda>result.
     andthen (ask (w_unit w) (Set_succeeded result)) (\<lambda>_. write_audit w rq ''provision'' result))))) s1 = (q, t)" by blast
  let ?s1 = "s1\<lparr>ps_vmid := Some (rp_vmid p)\<rparr>"
  have s1: "\<not> made c o' earlier ?s1" using p(2) by (simp add: made_def)
  have c: "\<not> ((\<exists>v b. c = Clone v b) \<or> harmless c)" using assms(3,4) by blast
  from made_later [OF r1 [unfolded andthen_assign] t s1 calls_prepare c]
  obtain s2 where s2: "prepare_guest w rq p ?s1 = (Finished (), s2)" "\<not> made c o' earlier s2" by auto
  have "andthen (ask (w_text w) (Start (rp_vmid p))) (after_start w rq p) (s2\<lparr>ps_step := ''start_vm''\<rparr>) = (q, t)"
    using run_from_start [OF p(1) s2(1)] q by simp
  from that [OF p(1) s2 this t] show thesis .
qed

lemma run_start:
  assumes "provision w rq (fresh_run fuse jn) = (r, s')" and "ps_log s' = later @ (Start v, o') # earlier"
  shows "\<exists>p s1 s2. plan_run w rq (fresh_run fuse jn) = (Finished p, s1)
     \<and> prepare_guest w rq p (s1\<lparr>ps_vmid := Some (rp_vmid p)\<rparr>) = (Finished (), s2)
     \<and> earlier = ps_log s2 \<and> v = rp_vmid p"
proof -
  obtain p s1 s2 q t where p: "plan_run w rq (fresh_run fuse jn) = (Finished p, s1)"
    "prepare_guest w rq p (s1\<lparr>ps_vmid := Some (rp_vmid p)\<rparr>) = (Finished (), s2)" "\<not> made (Start v) o' earlier s2"
    "andthen (ask (w_text w) (Start (rp_vmid p))) (after_start w rq p) (s2\<lparr>ps_step := ''start_vm''\<rparr>) = (q, t)"
    "made (Start v) o' earlier t"
    by (rule run_prepared [OF assms]) (simp, simp, rule that, assumption+)
  have "\<not> made (Start v) o' earlier (s2\<lparr>ps_step := ''start_vm''\<rparr>)" using p(3) by (simp add: made_def)
  from made_here [OF p(4,5) this calls_after_start] p(1,2) show ?thesis by auto
qed

text \<open>Where it is when it reports success.\<close>

lemma run_success:
  assumes "provision w rq (fresh_run fuse jn) = (r, s')" and "ps_log s' = later @ (Set_succeeded result, o') # earlier"
  shows "\<exists>p s1 s2 s3 s4. plan_run w rq (fresh_run fuse jn) = (Finished p, s1)
     \<and> prepare_guest w rq p (s1\<lparr>ps_vmid := Some (rp_vmid p)\<rparr>) = (Finished (), s2)
     \<and> hand_over w rq p s3 = (Finished result, s4) \<and> earlier = ps_log s4"
proof -
  let ?c = "Set_succeeded result"
  obtain p s1 s2 q t where p: "plan_run w rq (fresh_run fuse jn) = (Finished p, s1)"
    "prepare_guest w rq p (s1\<lparr>ps_vmid := Some (rp_vmid p)\<rparr>) = (Finished (), s2)" "\<not> made ?c o' earlier s2"
    "andthen (ask (w_text w) (Start (rp_vmid p))) (after_start w rq p) (s2\<lparr>ps_step := ''start_vm''\<rparr>) = (q, t)" "made ?c o' earlier t"
    by (rule run_prepared [OF assms]) (simp, simp, rule that, assumption+)
  have n: "\<not> made ?c o' earlier (s2\<lparr>ps_step := ''start_vm''\<rparr>)" using p(3) by (simp add: made_def)
  obtain u s3 where s3: "after_start w rq p u s3 = (q, t)" "\<not> made ?c o' earlier s3"
    by (rule made_later [OF p(4,5) n calls_ask [where P = "\<lambda>c. \<forall>r. c \<noteq> Set_succeeded r"]])
      (simp, simp, rule that, assumption+)
  from made_later [OF s3(1) [unfolded after_start_def] p(5) s3(2) emits_calls [OF harmless_wait_for]]
  obtain s4 where s4: "andthen (hand_over w rq p) (\<lambda>result.
      andthen (ask (w_unit w) (Set_succeeded result)) (\<lambda>_. write_audit w rq ''provision'' result)) s4 = (q, t)" "\<not> made ?c o' earlier s4"
    by auto
  obtain x s5 where s5: "hand_over w rq p s4 = (Finished x, s5)"
    "andthen (ask (w_unit w) (Set_succeeded x)) (\<lambda>_. write_audit w rq ''provision'' x) s5 = (q, t)" "\<not> made ?c o' earlier s5"
    by (rule made_later [OF s4(1) p(5) s4(2) harmless_hand_over]) (simp, rule that, assumption+)
  from made_here [OF s5(2) p(5) s5(3) emits_calls [OF harmless_audit]] have "x = result" "earlier = ps_log s5" by auto
  then show ?thesis using p(1,2) s5(1) by blast
qed

lemma resolve_fence_isolates: "yields (\<lambda>f. \<forall>g. f = Some g \<longrightarrow> dg_isolate_cidrs g \<noteq> []) (resolve_fence w d)"
  unfolding resolve_fence_def
  by (intro yields_andthen) (auto intro!: yields_intro split: option.split)

lemma plan_fence: "plan_run w rq s = (Finished p, s') \<Longrightarrow> rp_fence p = Some g \<Longrightarrow> dg_isolate_cidrs g \<noteq> []"
proof -
  have "yields (\<lambda>p. \<forall>g. rp_fence p = Some g \<longrightarrow> dg_isolate_cidrs g \<noteq> []) (plan_run w rq)"
    unfolding plan_run_def
    by (intro yields_andthen yields_if yields_throw yields_andthen_if [OF resolve_fence_isolates]) (auto intro: yields_ret)
  then show "plan_run w rq s = (Finished p, s') \<Longrightarrow> rp_fence p = Some g \<Longrightarrow> dg_isolate_cidrs g \<noteq> []"
    using yieldsD by fastforce
qed

text \<open>Conversely, a run that prepared its guest issues the start.\<close>

lemma start_issued:
  assumes "provision w rq s = (r, s')" and "plan_run w rq s = (Finished p, s1)"
    and "prepare_guest w rq p (s1\<lparr>ps_vmid := Some (rp_vmid p)\<rparr>) = (Finished (), s2)"
  shows "\<exists>later o'. ps_log s' = later @ (Start (rp_vmid p), o') # ps_log s2"
proof -
  let ?a = "ask (w_text w) (Start (rp_vmid p))" and ?s2 = "s2\<lparr>ps_step := ''start_vm''\<rparr>"
  obtain q t where q: "run_main w rq s = (q, t)" by fastforce
  have main: "andthen ?a (after_start w rq p) ?s2 = (q, t)"
    using q run_from_start [OF assms(2,3)] by simp
  obtain aq s3 where aq: "?a ?s2 = (aq, s3)" by fastforce
  obtain oo where l3: "ps_log s3 = (Start (rp_vmid p), oo) # ps_log s2" using ask_log [OF aq] by auto
  have "\<exists>l. ps_log t = l @ ps_log s3"
  proof (cases aq)
    case (Finished u)
    then have "after_start w rq p u s3 = (q, t)" using main aq by (simp add: andthen_def)
    from callsD [OF calls_after_start this] show ?thesis by blast
  qed (use main aq in \<open>auto simp: andthen_def\<close>)
  moreover obtain l' where "ps_log s' = l' @ ps_log t" using provision_extends [OF q assms(1)] by (elim exE conjE) (rule that)
  ultimately show ?thesis using l3 by (metis append.assoc)
qed

text \<open>C10: A guest starts only behind its fence.  Whatever the cluster answers and wherever the run is cancelled, when the
  start of a guest is issued, the guest has been configured, and if it is fenced, the firewall was switched
  on and exactly the rules of the fence were accepted before, in the order in which they read, so that the
  chain decides packets as the fence demands; the guest is put on the wire with the firewall on its NIC.\<close>

theorem guest_starts_fenced:
  assumes "provision w rq (fresh_run fuse jn) = (r, s')" and "ps_log s' = later @ (Start v, o') # earlier"
  shows "\<exists>p s1. plan_run w rq (fresh_run fuse jn) = (Finished p, s1) \<and> rp_vmid p = v
    \<and> (\<exists>cfg. (Configure v cfg, Did) \<in> set earlier
        \<and> (rp_fence p \<noteq> None \<longrightarrow> pd_bridge (rp_defaults p) \<noteq> [] \<longrightarrow>
            (\<exists>nic. map_of cfg ''net0'' = Some (JStr (nic @ '',firewall=1'')))))
    \<and> (\<forall>g. rp_fence p = Some g \<longrightarrow> dg_isolate_cidrs g \<noteq> [] \<and> (Fw_options v, Did) \<in> set earlier
        \<and> guest_chain v earlier = post_rules [] (fence_rule_writes g ''out''))"
proof -
  obtain p s1 s2 where a: "plan_run w rq (fresh_run fuse jn) = (Finished p, s1)"
    "prepare_guest w rq p (s1\<lparr>ps_vmid := Some (rp_vmid p)\<rparr>) = (Finished (), s2)" "earlier = ps_log s2" "v = rp_vmid p"
    using run_start [OF assms] by (elim exE conjE) (rule that)
  have "calls (\<lambda>c. \<forall>b. c \<noteq> Fw_rule (rp_vmid p) b) (plan_run w rq)"
    by (rule calls_mono [OF emits_calls [OF emits_plan]]) (auto simp: reading_def)
  from guest_chain_other [OF this a(1)] have "guest_chain (rp_vmid p) (ps_log s1) = []" by (simp add: fresh_run_def)
  then have ch: "chained w rq p (ps_log s2)" using prepare_chained [OF a(2)] by simp
  let ?cfg = "build_config rq (rp_defaults p) (rp_fence p \<noteq> None) (rp_allocation p)"
  have "\<exists>nic. map_of ?cfg ''net0'' = Some (JStr (nic @ '',firewall=1''))"
    if h: "rp_fence p \<noteq> None" "pd_bridge (rp_defaults p) \<noteq> []"
  proof -
    obtain n where "net0 (rp_defaults p) = Some n" using h(2) by (auto simp: net0_def)
    then show ?thesis using h(1) by (auto simp: build_config_def opt_entry_def map_of_append split: option.split)
  qed
  moreover have "dg_isolate_cidrs g \<noteq> []" if "rp_fence p = Some g" for g
    using plan_fence [OF a(1) that] .
  ultimately show ?thesis
    using a ch unfolding chained_def by (intro exI [of _ p] exI [of _ s1]) auto
qed

text \<open>A cluster on which everything works, with the guest network configured and the guest put on it.\<close>

definition fenced_world :: world where
  "fenced_world = sample_world\<lparr>w_delay := (\<lambda>_. 200), w_network := (\<lambda>_ _. Inr (Some example_network)),
     w_defaults := (\<lambda>_ _. Inr (no_defaults\<lparr>pd_bridge := ''guestnet''\<rparr>))\<rparr>"

definition static_request :: provision_request where
  "static_request = sample_request\<lparr>rq_ts_key := None, rq_ipconfig0 := ''ip=10.9.0.20/24''\<rparr>"

lemma ask_ok:
  "ps_fuse s = None \<Longrightarrow> f (ps_log s) c = Inr x \<Longrightarrow> ask f c s = (Finished x, s\<lparr>ps_log := (c, Did) # ps_log s\<rparr>)"
  by (cases s) (simp add: ask_def logged_def tick_def)

lemma write_rules_ok:
  "ps_fuse s = None \<Longrightarrow> (\<And>l c. w_unit w l c = Inr ()) \<Longrightarrow>
     write_rules w v writes s = (Finished (), s\<lparr>ps_log := rev (map (\<lambda>(_, b). (Fw_rule v b, Did)) writes) @ ps_log s\<rparr>)"
proof (induction writes arbitrary: s)
  case (Cons x writes)
  then show ?case by (cases x) (simp add: andthen_def ask_ok)
qed simp

lemma fenced_world_simps:
  "w_configured fenced_world" "w_unit fenced_world l c = Inr ()" "w_text fenced_world l c = Inr ''UPID:1''"
  "w_int fenced_world l c = Inr 101" "w_json fenced_world l c = Inr JNull" "w_delay fenced_world l = 200"
  "w_defaults fenced_world l c = Inr (no_defaults\<lparr>pd_bridge := ''guestnet''\<rparr>)"
  "w_network fenced_world l c = Inr (Some example_network)" "w_api_host fenced_world = None"
  by (simp_all add: fenced_world_def sample_world_def)

lemma fenced_plan:
  "plan_run fenced_world static_request (fresh_run None []) =
     (Finished \<lparr>rp_defaults = no_defaults\<lparr>pd_bridge := ''guestnet''\<rparr>, rp_fence = Some example_network, rp_allocation = None,
        rp_vmid = 101\<rparr>,
      (fresh_run None [])\<lparr>ps_log := [(Next_id, Did), (Read_network, Did), (Read_defaults, Did), (Set_running, Did)],
        ps_step := ''next_vmid''\<rparr>)"
proof -
  have s: "py_strip ''guestnet'' = ''guestnet''" "py_strip ''ip=10.9.0.20/24'' = ''ip=10.9.0.20/24''" "py_strip [] = []"
    by (simp_all add: py_strip_no_space py_isspace_def)
  show ?thesis
    by (simp add: plan_run_def step_def resolve_fence_def allocate_for_run_def next_vmid_def andthen_def ask_ok fenced_world_simps
        fresh_run_def static_request_def no_defaults_def example_network_def s)
qed

lemma static_request_simps:
  "rq_disk_gb static_request = None" "rq_node static_request = rq_node sample_request"
  by (simp_all add: static_request_def sample_request_def)

lemma fenced_prepare:
  assumes "ps_fuse s = None" and "rp_fence p = Some g"
  shows "\<exists>s2. prepare_guest fenced_world static_request p s = (Finished (), s2)"
  by (simp add: prepare_guest_def clone_guest_def step_def wait_for_def in_flight_def try_except_def andthen_def ask_ok
      fenced_world_simps fence_stage_def fence_guest_def write_rules_ok static_request_simps assms)

theorem guest_starts_fenced_witness:
  "\<exists>later o' earlier. ps_log (snd (provision fenced_world static_request (fresh_run None []))) = later @ (Start 101, o') # earlier
     \<and> guest_chain 101 earlier = post_rules [] (fence_rule_writes example_network ''out'')"
proof -
  let ?p = "\<lparr>rp_defaults = no_defaults\<lparr>pd_bridge := ''guestnet''\<rparr>, rp_fence = Some example_network, rp_allocation = None,
        rp_vmid = 101\<rparr> :: run_plan"
  let ?s1 = "(fresh_run None [])\<lparr>ps_log := [(Next_id, Did), (Read_network, Did), (Read_defaults, Did), (Set_running, Did)],
        ps_step := ''next_vmid''\<rparr>"
  obtain r s' where run: "provision fenced_world static_request (fresh_run None []) = (r, s')" by fastforce
  obtain s2 where "prepare_guest fenced_world static_request ?p (?s1\<lparr>ps_vmid := Some (rp_vmid ?p)\<rparr>) = (Finished (), s2)"
    using fenced_prepare [of "?s1\<lparr>ps_vmid := Some (rp_vmid ?p)\<rparr>" ?p example_network] by (auto simp: fresh_run_def)
  from start_issued [OF run fenced_plan this]
  obtain l o' u where s: "ps_log s' = l @ (Start 101, o') # u" by auto
  obtain p s1 where "plan_run fenced_world static_request (fresh_run None []) = (Finished p, s1)"
    and c: "\<forall>g. rp_fence p = Some g \<longrightarrow> dg_isolate_cidrs g \<noteq> [] \<and> (Fw_options 101, Did) \<in> set u
        \<and> guest_chain 101 u = post_rules [] (fence_rule_writes g ''out'')"
    using guest_starts_fenced [OF run s] by (elim exE conjE) (rule that)
  then have "p = ?p" by (simp add: fenced_plan)
  then have "guest_chain 101 u = post_rules [] (fence_rule_writes example_network ''out'')" using c by simp
  then show ?thesis using run s by (intro exI [of _ l] exI [of _ o'] exI [of _ u]) simp
qed

end
