(* ===== verification/Provision_Unwind.thy ===== *)
theory Provision_Unwind
  imports Provision_Properties
begin

text \<open>
  How a run ends: what its record says was left on the cluster is what the calls did.
\<close>

section \<open>What was created and what was taken back\<close>

text \<open>No clone was accepted or may have been: every one was refused before it ran.\<close>

definition never_cloned :: "log \<Rightarrow> bool" where
  "never_cloned l = (\<forall>(c, o')\<in>set l. case c of
       Clone _ _ \<Rightarrow> (case o' of Refused e \<Rightarrow> never_ran e | _ \<Rightarrow> False)
     | _ \<Rightarrow> True)"

text \<open>The destruction of a guest was accepted and, where it became a task, the task was waited for and succeeded.\<close>

definition destroyed :: "world \<Rightarrow> int \<Rightarrow> log \<Rightarrow> bool" where
  "destroyed w v l = (\<exists>later earlier u. l = later @ (Delete v, Did) # earlier \<and> w_text w earlier (Delete v) = Inr u
     \<and> (u = [] \<or> (Wait_task u, Did) \<in> set later))"

lemma never_cloned_Cons [simp]:
  "never_cloned ((c, o') # l) \<longleftrightarrow> never_cloned l \<and> (\<forall>v b. c = Clone v b \<longrightarrow> (\<exists>e. o' = Refused e \<and> never_ran e))"
  by (auto simp: never_cloned_def split: call.splits outcome.splits)

lemma never_cloned_append [simp]: "never_cloned (a @ b) \<longleftrightarrow> never_cloned a \<and> never_cloned b"
  by (auto simp: never_cloned_def)

lemma never_cloned_Nil [simp]: "never_cloned []"
  by (simp add: never_cloned_def)

definition no_clone :: "call \<Rightarrow> bool" where
  "no_clone c = (\<forall>v b. c \<noteq> Clone v b)"

lemma never_cloned_other: "\<forall>e\<in>set l. no_clone (fst e) \<Longrightarrow> never_cloned l"
  by (auto simp: never_cloned_def no_clone_def split: call.splits)

lemma harmless_no_clone: "harmless c \<Longrightarrow> no_clone c"
  by (simp add: harmless_def no_clone_def)

lemma never_cloned_harmless: "\<forall>e\<in>set l. harmless (fst e) \<Longrightarrow> never_cloned l"
  by (rule never_cloned_other) (auto intro: harmless_no_clone)

lemma destroyed_append: "destroyed w v l \<Longrightarrow> destroyed w v (new @ l)"
  unfolding destroyed_def by (metis append.assoc Un_iff set_append)

section \<open>What the variables of a run say\<close>

definition accounted :: "world \<Rightarrow> int \<Rightarrow> pstate \<Rightarrow> bool" where
  "accounted w v s \<longleftrightarrow> ps_vmid s = Some v
     \<and> (\<not> ps_cloned s \<longrightarrow> never_cloned (ps_log s))
     \<and> (ps_unwound s \<longrightarrow> ps_cleanup s \<in> {''deleted'', ''failed''} \<and> (ps_cleanup s = ''deleted'' \<longrightarrow> destroyed w v (ps_log s)))"

definition keeps :: "world \<Rightarrow> int \<Rightarrow> 'a run \<Rightarrow> bool" where
  "keeps w v m \<longleftrightarrow> (\<forall>s r s'. accounted w v s \<longrightarrow> m s = (r, s') \<longrightarrow> accounted w v s')"

named_theorems keeps_intro \<open>rules for computations that keep the account\<close>

lemma keepsD: "keeps w v m \<Longrightarrow> m s = (r, s') \<Longrightarrow> accounted w v s \<Longrightarrow> accounted w v s'"
  unfolding keeps_def by blast

lemma keeps_emits: "emits no_clone m \<Longrightarrow> keeps w v m"
  unfolding keeps_def
proof (intro allI impI)
  fix s r s' assume e: "emits no_clone m" and a: "accounted w v s" and m: "m s = (r, s')"
  obtain new where n: "ps_log s' = new @ ps_log s" "\<forall>e\<in>set new. no_clone (fst e)" using emitsD [OF e m] by blast
  have l: "ps_cloned s' = ps_cloned s" "ps_vmid s' = ps_vmid s" "ps_unwound s' = ps_unwound s" "ps_cleanup s' = ps_cleanup s"
    using emits_locals [OF e m] by (simp_all add: locals_def)
  then show "accounted w v s'"
    using a n never_cloned_other [OF n(2)] by (auto simp: accounted_def destroyed_append)
qed

lemma keeps_harmless: "emits harmless m \<Longrightarrow> keeps w v m"
  by (rule keeps_emits) (erule emits_mono, rule harmless_no_clone)

lemma keeps_ret [keeps_intro]: "keeps w v (ret x)"
  and keeps_throw [keeps_intro]: "keeps w v (throw e)"
  by (simp_all add: keeps_def)

lemma keeps_andthen [keeps_intro]: "keeps w v m \<Longrightarrow> (\<And>x. keeps w v (f x)) \<Longrightarrow> keeps w v (andthen m f)"
proof (unfold keeps_def [of w v "andthen m f"], intro allI impI)
  fix s r s' assume k: "keeps w v m" "\<And>x. keeps w v (f x)" and a: "accounted w v s" and m: "andthen m f s = (r, s')"
  from m show "accounted w v s'"
  proof (cases rule: andthen_cases)
    case (next_step x t)
    then show ?thesis using keepsD [OF k(2) next_step(2)] keepsD [OF k(1) next_step(1) a] by simp
  qed (rule keepsD [OF k(1) _ a], assumption)+
qed

lemma keeps_try [keeps_intro]: "keeps w v m \<Longrightarrow> (\<And>e. keeps w v (h e)) \<Longrightarrow> keeps w v (try_except m h)"
proof (unfold keeps_def [of w v "try_except m h"], intro allI impI)
  fix s r s' assume k: "keeps w v m" "\<And>e. keeps w v (h e)" and a: "accounted w v s" and m: "try_except m h s = (r, s')"
  obtain q t where q: "m s = (q, t)" by fastforce
  then have t: "accounted w v t" using keepsD [OF k(1) q a] by simp
  show "accounted w v s'"
  proof (cases q)
    case (Raised e)
    then show ?thesis using keepsD [OF k(2) _ t] m q by (simp add: try_except_def)
  qed (use m q t in \<open>auto simp: try_except_def\<close>)
qed

lemma if_keeps [keeps_intro]: "(b \<Longrightarrow> keeps w v m) \<Longrightarrow> (\<not> b \<Longrightarrow> keeps w v n) \<Longrightarrow> keeps w v (if b then m else n)"
  by simp

lemma keeps_step [keeps_intro]: "keeps w v (step n)"
  by (rule keeps_harmless) (rule emits_step)

lemma keeps_ask [keeps_intro]: "no_clone c \<Longrightarrow> keeps w v (ask f c)"
  by (rule keeps_emits) (rule emits_ask)

section \<open>Destroying\<close>

lemma delete_and_wait_destroys:
  assumes "delete_and_wait w v s = (Finished (), s')"
  shows "destroyed w v (ps_log s')"
proof -
  obtain u t where u: "ask (w_text w) (Delete v) s = (Finished u, t)"
    "(if u \<noteq> [] then ask (w_unit w) (Wait_task u) else ret ()) t = (Finished (), s')"
    using assms by (auto simp: delete_and_wait_def andthen_Finished)
  then have "w_text w (ps_log s) (Delete v) = Inr u" "ps_log t = (Delete v, Did) # ps_log s" by (simp_all add: ask_Finished)
  moreover have "ps_log s' = (if u \<noteq> [] then [(Wait_task u, Did)] else []) @ ps_log t"
    using u(2) by (auto simp: ask_Finished split: if_splits)
  ultimately show ?thesis unfolding destroyed_def
    by (intro exI [of _ "if u \<noteq> [] then [(Wait_task u, Did)] else []"] exI [of _ "ps_log s"] exI [of _ u]) auto
qed

lemma stop_then_destroy_destroys: "stop_then_destroy w v s = (Finished (), s') \<Longrightarrow> destroyed w v (ps_log s')"
  by (auto simp: stop_then_destroy_def andthen_Finished intro: delete_and_wait_destroys)

lemma try_report:
  assumes "try_except (andthen m (\<lambda>_. ret a)) (\<lambda>e. ret (f e)) s = (Finished x, s')" and "\<And>e. f e \<noteq> a" and "x = a"
  shows "\<exists>y. m s = (Finished y, s')"
  using assms by (auto simp: try_except_def andthen_def split: prod.splits stop.splits)

lemma destroy_unfenced_destroys: "destroy_unfenced w rq v s = (Finished guest_destroyed, s') \<Longrightarrow> destroyed w v (ps_log s')"
  unfolding destroy_unfenced_def
  by (drule try_report) (auto simp: guest_destroyed_def dest: delete_and_wait_destroys)

lemma destroy_breached_destroys: "destroy_breached w rq v s = (Finished breacher_destroyed, s') \<Longrightarrow> destroyed w v (ps_log s')"
  unfolding destroy_breached_def
  by (drule try_report) (auto simp: breacher_destroyed_def dest: stop_then_destroy_destroys)

lemma destroy_after_failure_destroys:
  assumes "destroy_after_failure w rq v s = (Finished (c, note), s')"
  shows "c \<in> {''deleted'', ''failed''}" and "c = ''deleted'' \<Longrightarrow> destroyed w v (ps_log s')"
  using assms
  by (auto simp: destroy_after_failure_def try_except_def andthen_def dest: stop_then_destroy_destroys
      split: prod.splits stop.splits)

section \<open>The stages keep the account\<close>

text \<open>A guest that was taken back: its destruction is on the log when it is reported.\<close>

lemma keeps_take_back:
  assumes "emits harmless d" and "\<And>s s'. d s = (Finished gone, s') \<Longrightarrow> destroyed w v (ps_log s')"
  shows "keeps w v (andthen d (\<lambda>outcome. andthen (unwound (if outcome = gone then ''deleted'' else ''failed'')) (\<lambda>_. throw (e outcome))))"
  unfolding keeps_def
proof (intro allI impI)
  fix s r s'
  assume a: "accounted w v s"
    and m: "andthen d (\<lambda>outcome. andthen (unwound (if outcome = gone then ''deleted'' else ''failed'')) (\<lambda>_. throw (e outcome))) s = (r, s')"
  from m show "accounted w v s'"
  proof (cases rule: andthen_cases)
    case (next_step x t)
    then have "s' = t\<lparr>ps_unwound := True, ps_cleanup := (if x = gone then ''deleted'' else ''failed'')\<rparr>"
      by (simp add: unwound_def andthen_def)
    then show ?thesis using keepsD [OF keeps_harmless [OF assms(1)] next_step(1) a] assms(2) next_step(1)
      by (auto simp: accounted_def)
  qed (use a keepsD [OF keeps_harmless [OF assms(1)]] in blast)+
qed

lemma keeps_fence_stage: "rp_vmid p = v \<Longrightarrow> keeps w v (fence_stage w rq p)"
  unfolding fence_stage_def
proof (cases "rp_fence p")
  case (Some g)
  assume v: "rp_vmid p = v"
  show "keeps w v (case rp_fence p of None \<Rightarrow> ret () | Some g \<Rightarrow> andthen (step ''fence'') (\<lambda>_.
          try_except (fence_guest w (rp_vmid p) g)
            (\<lambda>e. andthen (destroy_unfenced w rq (rp_vmid p)) (\<lambda>outcome.
              andthen (unwound (if outcome = guest_destroyed then ''deleted'' else ''failed'')) (\<lambda>_.
              throw (Fault (RuntimeError (''could not write the guest firewall rules ('' @ fault_str e @ ''); '' @ outcome))))))))"
    unfolding Some option.case v
    by (intro keeps_andthen [OF keeps_step] keeps_try keeps_harmless [OF harmless_fence_guest] keeps_take_back harmless_destroys(1)
        destroy_unfenced_destroys)
qed (simp add: keeps_ret)

lemma keeps_verify_stage: "rp_vmid p = v \<Longrightarrow> keeps w v (verify_stage w rq p)"
  unfolding verify_stage_def
proof (cases "rp_fence p")
  case (Some g)
  assume v: "rp_vmid p = v"
  show "keeps w v (case rp_fence p of None \<Rightarrow> ret None | Some g \<Rightarrow> andthen (step ''verify_fence'') (\<lambda>_.
          andthen (verify_fence w (rp_vmid p) g (rp_defaults p)) (\<lambda>report.
            if fst report = Breached
            then andthen (destroy_breached w rq (rp_vmid p)) (\<lambda>outcome.
              andthen (unwound (if outcome = breacher_destroyed then ''deleted'' else ''failed'')) (\<lambda>_.
              throw (Fault (RuntimeError (''the fence was written but the guest reached the isolated range - ''
                @ fst (snd report) @ '' '' @ outcome)))))
            else ret (Some report))))"
    unfolding Some option.case v
    by (intro keeps_andthen [OF keeps_step] keeps_andthen [OF keeps_harmless [OF harmless_verify]] if_keeps keeps_ret keeps_take_back
        harmless_destroys(2) destroy_breached_destroys)
qed (simp add: keeps_ret)

lemma keeps_hand_over: "rp_vmid p = v \<Longrightarrow> keeps w v (hand_over w rq p)"
  unfolding hand_over_def
  by (intro keeps_intro keeps_verify_stage)
    (auto simp: no_clone_def intro!: keeps_intro keeps_harmless [OF harmless_discover] keeps_harmless [OF harmless_provision_join]
      split: option.split prod.split)

section \<open>The run keeps the account\<close>

lemma accounted_Cons: "accounted w v s \<Longrightarrow> ps_cloned t \<Longrightarrow> locals t = (True, Some v, ps_unwound s, ps_cleanup s)
   \<Longrightarrow> ps_log t = new @ ps_log s \<Longrightarrow> accounted w v t"
  by (auto simp: accounted_def locals_def destroyed_append)

lemma clone_accounts:
  assumes "accounted w v s" and "\<not> ps_cloned s" and "clone_guest w rq v s = (r, s')"
  shows "accounted w v s'"
proof -
  let ?s = "s\<lparr>ps_cloned := True\<rparr>" and ?c = "Clone v (clone_body rq v)"
  let ?h = "\<lambda>e. if never_ran e then andthen (assign (\<lambda>s. s\<lparr>ps_cloned := False\<rparr>)) (\<lambda>_. throw e) else throw e"
  have k: "keeps w v (wait_for w u)" for u by (rule keeps_harmless) (rule harmless_wait_for)
  have m: "andthen (try_except (ask (w_text w) ?c) ?h) (wait_for w) ?s = (r, s')"
    using assms(3) by (simp add: clone_guest_def andthen_assign)
  have v: "ps_vmid s = Some v" using assms(1) by (simp add: accounted_def)
  obtain q t where q: "ask (w_text w) ?c ?s = (q, t)" by fastforce
  obtain oo where l: "ps_log t = (?c, oo) # ps_log s" using ask_log [OF q] by auto
  have loc: "locals t = (True, Some v, ps_unwound s, ps_cleanup s)"
    using emits_locals [OF emits_ask [of "\<lambda>_. True"] q] v by (simp add: locals_def)
  then have acc: "accounted w v t" using accounted_Cons [OF assms(1), of t "[(?c, oo)]"] l by (simp add: locals_def)
  show ?thesis
  proof (cases q)
    case (Finished u)
    then have "wait_for w u t = (r, s')" using m q by (simp add: andthen_apply(1) try_apply(1))
    then show ?thesis using keepsD [OF k] acc by blast
  next
    case (Raised e)
    then have oo: "oo = Refused e" using q l by (auto simp: ask_def split: if_splits sum.splits)
    have "s' = (if never_ran e then t\<lparr>ps_cloned := False\<rparr> else t)"
      using m q Raised by (auto simp: try_apply(2) andthen_def split: if_splits)
    then show ?thesis using acc assms(1,2) oo l by (auto simp: accounted_def)
  next
    case Cancelled
    then have "s' = t" using m q by (simp add: try_apply(3) andthen_apply(3))
    then show ?thesis using acc by simp
  qed
qed

lemma prepare_accounts:
  assumes "accounted w v s" and "\<not> ps_cloned s" and "rp_vmid p = v" and "prepare_guest w rq p s = (r, s')"
  shows "accounted w v s'"
proof -
  define rest where "rest = andthen (step ''configure'') (\<lambda>_.
     andthen (ask (w_unit w) (Configure v (build_config rq (rp_defaults p) (rp_fence p \<noteq> None) (rp_allocation p)))) (\<lambda>_.
     andthen (fence_stage w rq p) (\<lambda>_.
       case rq_disk_gb rq of None \<Rightarrow> ret ()
       | Some gb \<Rightarrow> andthen (step ''resize_disk'') (\<lambda>_. resize_disk w rq v gb))))"
  have k: "keeps w v rest"
    unfolding rest_def
    by (intro keeps_intro keeps_fence_stage assms(3))
      (auto simp: no_clone_def intro!: keeps_intro keeps_harmless [OF harmless_resize] split: option.split)
  let ?s = "s\<lparr>ps_step := ''clone''\<rparr>"
  have s: "accounted w v ?s" "\<not> ps_cloned ?s" using assms(1,2) by (simp_all add: accounted_def)
  have "andthen (clone_guest w rq v) (\<lambda>_. rest) ?s = (r, s')"
    using assms(4) unfolding assms(3) [symmetric] rest_def prepare_guest_def step_def by (simp add: andthen_assign)
  then show ?thesis
  proof (cases rule: andthen_cases)
    case (next_step x t)
    then show ?thesis using keepsD [OF k next_step(2)] clone_accounts [OF s next_step(1)] by blast
  qed (use clone_accounts [OF s] in blast)+
qed

lemma plan_configured: "plan_run w rq s = (Finished p, s') \<Longrightarrow> w_configured w"
  by (auto simp: plan_run_def andthen_Finished split: if_splits)

text \<open>What the handlers of a run find.\<close>

definition handled :: "world \<Rightarrow> pstate \<Rightarrow> bool" where
  "handled w t \<longleftrightarrow> (w_configured w \<and> (\<exists>v. accounted w v t))
     \<or> (\<not> ps_cloned t \<and> \<not> ps_unwound t \<and> never_cloned (ps_log t))"

lemma run_accounts:
  assumes "run_main w rq (fresh_run fuse jn) = (q, t)"
  shows "handled w t"
proof -
  let ?s = "fresh_run fuse jn"
  have p: "\<not> ps_cloned t \<and> \<not> ps_unwound t \<and> never_cloned (ps_log t)" if pl: "plan_run w rq ?s = (x, t)" for x t
  proof -
    have "emits harmless (plan_run w rq)" by (rule emits_mono [OF emits_plan]) (rule reading_harmless)
    from emitsD [OF this pl] have "never_cloned (ps_log t)" by (auto simp: fresh_run_def intro: never_cloned_harmless)
    then show ?thesis using emits_locals [OF emits_plan pl] by (simp add: locals_def fresh_run_def)
  qed
  from assms [unfolded run_main_def] show ?thesis
  proof (cases rule: andthen_cases)
    case (next_step p s1)
    let ?v = "rp_vmid p" and ?s1 = "s1\<lparr>ps_vmid := Some (rp_vmid p)\<rparr>"
    define rest where "rest = andthen (start_guest w p) (\<lambda>_. andthen (hand_over w rq p) (\<lambda>result.
       andthen (ask (w_unit w) (Set_succeeded result)) (\<lambda>_. write_audit w rq ''provision'' result)))"
    have s1: "accounted w ?v ?s1" "\<not> ps_cloned ?s1" using p [OF next_step(1)] by (auto simp: accounted_def)
    have k: "keeps w ?v rest"
      unfolding rest_def start_guest_def
      by (intro keeps_intro keeps_hand_over keeps_harmless [OF harmless_wait_for] keeps_harmless [OF harmless_audit])
        (simp_all add: no_clone_def)
    have "andthen (prepare_guest w rq p) (\<lambda>_. rest) ?s1 = (q, t)"
      using next_step(2) by (simp add: andthen_assign rest_def)
    then have "accounted w ?v t"
    proof (cases rule: andthen_cases)
      case (next_step x u)
      then show ?thesis using keepsD [OF k next_step(2)] prepare_accounts [OF s1 refl next_step(1)] by blast
    qed (use prepare_accounts [OF s1 refl] in blast)+
    then show ?thesis using plan_configured [OF next_step(1)] by (auto simp: handled_def)
  qed (use p in \<open>auto simp: handled_def\<close>)
qed

section \<open>The last word\<close>

text \<open>The last thing written to the row of the task; after it only the audit log is written.\<close>

definition last_record :: "call \<Rightarrow> outcome \<Rightarrow> log \<Rightarrow> bool" where
  "last_record c o' l \<longleftrightarrow> (\<exists>later earlier. l = later @ (c, o') # earlier \<and> (\<forall>e\<in>set later. \<exists>a d. fst e = Write_audit a d))"

text \<open>What a recorded outcome says of the cluster is so.\<close>

definition truthful :: "world \<Rightarrow> log \<Rightarrow> dict \<Rightarrow> bool" where
  "truthful w l out \<longleftrightarrow>
     (map_of out ''cleanup'' = Some (JStr ''nothing_created'') \<and> never_cloned l)
     \<or> (\<exists>v. map_of out ''vmid'' = Some (JInt v)
          \<and> (map_of out ''cleanup'' = Some (JStr ''deleted'') \<and> destroyed w v l
             \<or> map_of out ''cleanup'' = Some (JStr ''failed'')))"

lemma truthful_append: "truthful w l out \<Longrightarrow> \<forall>e\<in>set new. harmless (fst e) \<Longrightarrow> truthful w (new @ l) out"
  by (auto simp: truthful_def destroyed_append never_cloned_harmless)

lemma truthful_emits: "emits harmless m \<Longrightarrow> m s = (r, s') \<Longrightarrow> truthful w (ps_log s) out \<Longrightarrow> truthful w (ps_log s') out"
  using emitsD truthful_append by metis

lemma audit_log: "write_audit w rq a d s = (r, s') \<Longrightarrow> \<exists>new. ps_log s' = new @ ps_log s \<and> (\<forall>e\<in>set new. \<exists>a d. fst e = Write_audit a d)"
proof -
  assume m: "write_audit w rq a d s = (r, s')"
  have "emits (\<lambda>c. \<exists>a d. c = Write_audit a d) (write_audit w rq a d)"
    unfolding write_audit_def by (intro emits_intro) auto
  from emitsD [OF this m] show ?thesis by blast
qed

lemma not_raised:
  "suppressed m s = (r, s') \<Longrightarrow> r = Finished () \<or> r = Cancelled"
  by (auto simp: suppressed_def try_except_def split: prod.splits stop.splits)

lemma record_failure_last:
  assumes "record_failure w rq err out s = (r, s')"
  shows "\<exists>o'. last_record (Set_failed err out) o' (ps_log s')" and "r = Finished () \<or> r = Cancelled"
proof -
  let ?m = "andthen (ask (w_unit w) (Set_failed err out)) (\<lambda>_. write_audit w rq ''provision_failed'' ((''error'', JStr err) # out))"
  show "r = Finished () \<or> r = Cancelled" using assms not_raised unfolding record_failure_def by blast
  obtain q where q: "?m s = (q, s')"
    using assms by (auto simp: record_failure_def suppressed_def try_except_def split: prod.splits stop.splits)
  then show "\<exists>o'. last_record (Set_failed err out) o' (ps_log s')"
  proof (cases rule: andthen_cases)
    case (next_step x t)
    then show ?thesis using ask_log [OF next_step(1)] audit_log [OF next_step(2)] by (fastforce simp: last_record_def)
  next
    case (failed e)
    then show ?thesis using ask_log by (fastforce simp: last_record_def)
  next
    case cancelled
    then show ?thesis using ask_log by (fastforce simp: last_record_def)
  qed
qed

lemma record_cancel_last:
  assumes "record_cancel w rq out err s = (r, s')" and "ps_fuse s = None"
  shows "\<exists>o'. last_record (Cancel_outcome out err) o' (ps_log s')"
proof -
  let ?a = "ask (w_unit w) (Cancel_outcome out err)"
  obtain q t where q: "?a s = (q, t)" by fastforce
  obtain oo where l: "ps_log t = (Cancel_outcome out err, oo) # ps_log s" using ask_log [OF q] by blast
  have "q \<noteq> Cancelled" using cut_onceD(1) [OF cut_once_simple(3) q assms(2)] by blast
  then have "suppressed ?a s = (Finished (), t)" using q by (cases q) (auto simp: suppressed_def try_except_def)
  then have "write_audit w rq ''provision_cancelled'' out t = (r, s')" using assms(1) by (simp add: record_cancel_def andthen_apply(1))
  from audit_log [OF this] l show ?thesis by (fastforce simp: last_record_def)
qed

section \<open>The handlers\<close>

lemma map_of_failed:
  "map_of (failed_outcome at v c) ''cleanup'' = Some (JStr c)"
  "map_of (failed_outcome at v c) ''vmid'' = map_option JInt v"
  by (simp_all add: failed_outcome_def opt_entry_def split: option.split)

lemma map_of_cancelled:
  "map_of (cancelled_outcome issued c) ''cleanup'' = Some (JStr c)"
  "map_of (cancelled_outcome (Some (Some v, st)) c) ''vmid'' = Some (JInt v)"
  by (simp_all add: cancelled_outcome_def split: option.split)

lemma failure_recorded:
  assumes "handled w s" and "failure_unwinding w rq e s s = (r, s')"
  shows "(r = Finished () \<and> (\<exists>err out o'. last_record (Set_failed err out) o' (ps_log s') \<and> truthful w (ps_log s') out))
    \<or> (r = Cancelled \<and> ps_fuse s \<noteq> None)"
proof -
  have cut: "ps_fuse s \<noteq> None" if "r = Cancelled"
    using cut_onceD(1) [OF emits_cut_once [OF harmless_failure_unwinding] assms(2)] that by blast
  have rec: ?thesis
    if "record_failure w rq err out t = (r, s')" and "truthful w (ps_log t) out" for err out t
    using record_failure_last [OF that(1)] truthful_emits [OF harmless_record_failure that(1,2)] cut by blast
  let ?at = "ps_step s" and ?err = "''failed at '' @ ps_step s @ '': '' @ fault_str e"
  consider (alive) v where "accounted w v s" "ps_cloned s" "\<not> ps_unwound s"
    | (unwound) v where "accounted w v s" "ps_unwound s"
    | (bare) "\<not> ps_cloned s" "\<not> ps_unwound s" "never_cloned (ps_log s)"
    using assms(1) by (auto simp: handled_def accounted_def)
  then show ?thesis
  proof cases
    case (alive v)
    then have v: "ps_vmid s = Some v" by (simp add: accounted_def)
    have "andthen (destroy_after_failure w rq v) (\<lambda>(cleanup, note).
            record_failure w rq (?err @ ''; '' @ note) (failed_outcome ?at (Some v) cleanup)) s = (r, s')"
      using assms(2) alive v by (simp add: failure_unwinding_def)
    then show ?thesis
    proof (cases rule: andthen_cases)
      case (next_step x t)
      obtain c m where x: "x = (c, m)" by fastforce
      have "truthful w (ps_log t) (failed_outcome ?at (Some v) c)"
        using destroy_after_failure_destroys [OF next_step(1) [unfolded x]] by (auto simp: truthful_def map_of_failed)
      then show ?thesis using rec next_step(2) x by simp
    next
      case (failed e')
      then show ?thesis by (auto simp: destroy_after_failure_def try_except_def split: prod.splits stop.splits)
    next
      case cancelled
      then show ?thesis using cut by simp
    qed
  next
    case (unwound v)
    then have v: "ps_vmid s = Some v" and c: "ps_cleanup s \<in> {''deleted'', ''failed''}"
      and d: "ps_cleanup s = ''deleted'' \<Longrightarrow> destroyed w v (ps_log s)"
      by (auto simp: accounted_def)
    have "record_failure w rq ?err (failed_outcome ?at (Some v) (ps_cleanup s)) s = (r, s')"
      using assms(2) unwound(2) v c by (auto simp: failure_unwinding_def)
    moreover have "truthful w (ps_log s) (failed_outcome ?at (Some v) (ps_cleanup s))"
      using c d by (auto simp: truthful_def map_of_failed)
    ultimately show ?thesis by (rule rec)
  next
    case bare
    then have "record_failure w rq ?err (failed_outcome ?at None ''nothing_created'') s = (r, s')"
      using assms(2) by (simp add: failure_unwinding_def)
    moreover have "truthful w (ps_log s) (failed_outcome ?at None ''nothing_created'')"
      using bare by (simp add: truthful_def map_of_failed)
    ultimately show ?thesis by (rule rec)
  qed
qed

lemma cancel_recorded:
  assumes "handled w s" and "ps_fuse s = None" and "cancel_unwinding w rq s s = (r, s')"
  shows "\<exists>out err o'. last_record (Cancel_outcome out err) o' (ps_log s') \<and> truthful w (ps_log s') out"
proof -
  have rec: ?thesis
    if "record_cancel w rq out err t = (r, s')" and "truthful w (ps_log t) out" and "ps_fuse t = None" for out err t
    using record_cancel_last [OF that(1,3)] truthful_emits [OF harmless_record_cancel that(1,2)] by blast
  show ?thesis
  proof (cases "ps_cloned s")
    case False
    then have "never_cloned (ps_log s)" using assms(1) by (auto simp: handled_def accounted_def)
    then show ?thesis
      using rec [of "cancelled_outcome None ''nothing_created''" None s] assms(2,3) False
      by (simp add: cancel_unwinding_def truthful_def map_of_cancelled)
  next
    case True
    then obtain v where v: "accounted w v s" "w_configured w" using assms(1) by (auto simp: handled_def)
    define att where "att = try_except (andthen (stop_then_destroy w v) (\<lambda>_. ret None)) (\<lambda>e. ret (Some e))"
    obtain st s1 where s1: "stop_inflight w (ps_upid s) s = (Finished st, s1)" "ps_fuse s1 = None"
    proof -
      obtain q t where q: "stop_inflight w (ps_upid s) s = (q, t)" by fastforce
      have "emits harmless (stop_inflight w (ps_upid s))"
        unfolding stop_inflight_def by (auto intro!: emits_intro split: option.split)
      from cut_onceD(1) [OF emits_cut_once [OF this] q assms(2)] have "q \<noteq> Cancelled" "ps_fuse t = None" by auto
      moreover have "q \<noteq> Raised e" for e
        using q by (auto simp: stop_inflight_def try_except_def split: option.splits prod.splits stop.splits)
      ultimately show thesis using that q by (cases q) auto
    qed
    obtain q s2 where q: "att s1 = (q, s2)" by fastforce
    have "emits harmless att" unfolding att_def by (intro emits_intro harmless_stop_then_destroy)
    from cut_onceD(1) [OF emits_cut_once [OF this] q s1(2)] have s2: "q \<noteq> Cancelled" "ps_fuse s2 = None" by auto
    then obtain e where e: "q = Finished e" and d: "e = None \<Longrightarrow> destroyed w v (ps_log s2)"
      using q by (auto simp: att_def try_except_def andthen_def split: prod.splits stop.splits dest: stop_then_destroy_destroys)
    have run: "(case e of
                None \<Rightarrow> record_cancel w rq (cancelled_outcome (Some (Some v, st)) ''deleted'') None
              | Some e \<Rightarrow> record_cancel w rq (cancelled_outcome (Some (Some v, st)) ''failed'')
                  (Some (cleanup_error rq v e))) s2 = (r, s')"
      using assms(3) True v s1 q e
      by (simp add: cancel_unwinding_def andthen_apply(1) accounted_def flip: att_def)
    show ?thesis
    proof (cases e)
      case None
      then show ?thesis using run rec [OF _ _ s2(2)] d by (simp add: truthful_def map_of_cancelled)
    next
      case (Some f)
      then show ?thesis using run rec [OF _ _ s2(2)] by (simp add: truthful_def map_of_cancelled)
    qed
  qed
qed

section \<open>Every run ends on the record\<close>

lemma calls_run: "calls (\<lambda>_. True) (run_main w rq)"
  unfolding run_main_def start_guest_def
  by (intro calls_intro calls_mono [OF emits_calls [OF emits_plan]] calls_mono [OF calls_prepare] calls_wait_for
      calls_mono [OF harmless_hand_over] emits_calls [OF emits_step] calls_mono [OF emits_calls [OF harmless_audit]]) simp_all

text \<open>C11: Every run ends on the record, and the record is true.  Whatever the cluster, the guest and the database answer, and
  wherever a cancellation lands, a run never raises; its last write to the task is a success that was
  accepted, or a failure or a cancellation whose outcome is so: \<open>nothing_created\<close> is said only when no clone was
  accepted and every refused one was refused before it ran, \<open>deleted\<close> only when the destruction of the guest was accepted
  and waited for, and otherwise the guest that may remain is named.  Only a cancellation that hits the failure
  handler itself ends a run without a word.\<close>

theorem run_on_record:
  assumes "provision w rq (fresh_run fuse jn) = (r, s')"
  shows "(r = Finished () \<and> (\<exists>result. last_record (Set_succeeded result) Did (ps_log s')))
    \<or> (r = Finished () \<and> (\<exists>err out o'. last_record (Set_failed err out) o' (ps_log s') \<and> truthful w (ps_log s') out))
    \<or> (r = Cancelled \<and> (\<exists>out err o'. last_record (Cancel_outcome out err) o' (ps_log s') \<and> truthful w (ps_log s') out))
    \<or> (r = Cancelled \<and> (\<exists>e t. run_main w rq (fresh_run fuse jn) = (Raised e, t) \<and> ps_fuse t \<noteq> None))"
proof -
  obtain q t where q: "run_main w rq (fresh_run fuse jn) = (q, t)" by fastforce
  note h = run_accounts [OF q]
  show ?thesis
  proof (cases q)
    case (Finished x)
    then have "r = Finished ()" "s' = t" using assms q by (auto simp: provision_def)
    moreover have "\<exists>result. last_record (Set_succeeded result) Did (ps_log t)"
    proof -
      obtain result u u' where "ask (w_unit w) (Set_succeeded result) u = (Finished (), u')"
        "write_audit w rq ''provision'' result u' = (Finished x, t)"
        using q Finished by (auto simp: run_main_def andthen_Finished)
      then show ?thesis using audit_log [of w rq "''provision''" result u'] by (fastforce simp: ask_Finished last_record_def)
    qed
    ultimately show ?thesis by blast
  next
    case (Raised e)
    then have "failure_unwinding w rq e t t = (r, s')" using assms q by (simp add: provision_def after_failure_def)
    from failure_recorded [OF h this] show ?thesis using q Raised by blast
  next
    case Cancelled
    then have r: "r = Cancelled" and c: "cancel_unwinding w rq t t = (fst (cancel_unwinding w rq t t), s')"
      using assms q by (auto simp: provision_def cleanup_after_cancel_def)
    have "cut_once (run_main w rq)" by (rule calls_cut_once [OF calls_run])
    from cut_onceD(2) [OF this] q Cancelled have "ps_fuse t = None" by blast
    from cancel_recorded [OF h this c] show ?thesis using r by blast
  qed
qed

text \<open>A cluster that clones and then refuses the configuration; a run there takes the guest back and says so.\<close>

definition refusing_world :: world where
  "refusing_world = sample_world\<lparr>w_unit := (\<lambda>_ c. case c of
     Configure _ _ \<Rightarrow> Inl (Proxmox_error (Some 500) ''refused'') | _ \<Rightarrow> Inr ())\<rparr>"

lemma refusing_world_simps:
  "w_configured refusing_world" "w_text refusing_world l c = Inr ''UPID:1''"
  "w_int refusing_world l c = Inr 101" "w_json refusing_world l c = Inr JNull" "w_defaults refusing_world l c = Inr no_defaults"
  "w_network refusing_world l c = Inr None" "w_unit refusing_world l (Configure v cfg) = Inl (Proxmox_error (Some 500) ''refused'')"
  "(\<And>v cfg. c \<noteq> Configure v cfg) \<Longrightarrow> w_unit refusing_world l c = Inr ()"
  by (auto simp: refusing_world_def sample_world_def split: call.split)

lemma refusing_main:
  "fuse \<in> {None, Some 7} \<Longrightarrow>
   \<exists>t. run_main refusing_world static_request (fresh_run fuse []) = (Raised (Proxmox_error (Some 500) ''refused''), t)
     \<and> ps_fuse t = map_option (\<lambda>n. n - 7) fuse \<and> ps_cloned t \<and> \<not> ps_unwound t \<and> ps_vmid t = Some 101
     \<and> (\<forall>result. (Set_succeeded result, Did) \<notin> set (ps_log t))"
  by (auto simp: run_main_def plan_run_def step_def resolve_fence_def allocate_for_run_def next_vmid_def andthen_def ask_def
      logged_def tick_def refusing_world_simps fresh_run_def no_defaults_def py_strip_def py_lstrip_def prepare_guest_def clone_guest_def
      try_except_def wait_for_def in_flight_def)

theorem run_on_record_witness:
  "\<exists>s' err out o'. provision refusing_world static_request (fresh_run None []) = (Finished (), s')
     \<and> last_record (Set_failed err out) o' (ps_log s') \<and> truthful refusing_world (ps_log s') out"
proof -
  obtain t where t: "run_main refusing_world static_request (fresh_run None []) = (Raised (Proxmox_error (Some 500) ''refused''), t)"
    "ps_fuse t = None" and n: "\<forall>result. (Set_succeeded result, Did) \<notin> set (ps_log t)"
    using refusing_main [of None] by auto
  obtain r s' where r: "provision refusing_world static_request (fresh_run None []) = (r, s')" by fastforce
  obtain new where new: "ps_log s' = new @ ps_log t" "\<forall>e\<in>set new. harmless (fst e)" using provision_extends [OF t(1) r] by blast
  have "\<not> last_record (Set_succeeded result) Did (ps_log s')" for result
  proof
    assume "last_record (Set_succeeded result) Did (ps_log s')"
    then have "(Set_succeeded result, Did) \<in> set (ps_log s')" by (auto simp: last_record_def)
    then have "(Set_succeeded result, Did) \<in> set new" using new(1) n by auto
    then show False using new(2) by fastforce
  qed
  moreover have "r \<noteq> Cancelled"
    using cut_onceD(1) [OF emits_cut_once [OF harmless_after_failure] _ t(2)] r t(1) by (auto simp: provision_def)
  ultimately show ?thesis using run_on_record [OF r] r by auto
qed

section \<open>A guest that is handed over\<close>

text \<open>The guest was asked about the fence, and what it answered is judged as holding.\<close>

definition guest_verified :: "world \<Rightarrow> int \<Rightarrow> probe_target list \<Rightarrow> log \<Rightarrow> bool" where
  "guest_verified w v targets l \<longleftrightarrow> (\<exists>later earlier rc out err. l = later @ (Run_in v (Fence_probe targets), Did) # earlier
     \<and> w_cmd w earlier (Run_in v (Fence_probe targets)) = Inr (rc, out, err)
     \<and> fst (judge (parse_probe_output out targets)) = Verified)"

lemma guest_verified_append: "guest_verified w v targets l \<Longrightarrow> guest_verified w v targets (new @ l)"
  unfolding guest_verified_def by (metis append.assoc)

lemma guest_verified_later:
  "guest_verified w v targets (ps_log s) \<Longrightarrow> emits P m \<Longrightarrow> m s = (r, s') \<Longrightarrow> guest_verified w v targets (ps_log s')"
  using emitsD guest_verified_append by metis

lemma probe_asked:
  assumes "try_except (andthen (ask f c) (\<lambda>x. ret (Inr x))) (\<lambda>e. ret (Inl (h e))) s = (Finished r, t)"
  shows "(\<exists>e. r = Inl (h e)) \<or> (\<exists>x. r = Inr x \<and> f (ps_log s) c = Inr x \<and> ps_log t = (c, Did) # ps_log s)"
  using assms by (auto simp: try_except_def andthen_def ask_def logged_def tick_def split: if_splits sum.splits)

lemma probe_loop_verified:
  "probe_loop w v targets n s = (Finished report, s') \<Longrightarrow> fst report = Verified \<Longrightarrow> guest_verified w v targets (ps_log s')"
proof (induction n arbitrary: s rule: less_induct)
  case (less n s)
  let ?c = "Run_in v (Fence_probe targets)"
  obtain r t where r: "try_except (andthen (ask (w_cmd w) ?c) (\<lambda>x. ret (Inr x)))
          (\<lambda>e. ret (Inl (case e of
             Timed_out _ \<Rightarrow> (Unverified, ''The fence probe had not finished after 60s inside the guest.'', [], Some True)
           | _ \<Rightarrow> (Unverified, safe_detail (''The guest agent answered a ping but would not run the fence probe: '' @ fault_str e
               @ ''. Some images ship qemu-guest-agent with guest-exec disabled.'') None, [], Some True)))) s = (Finished r, t)"
    and k: "(case r of
          Inl report \<Rightarrow> ret report
        | Inr (_, out, _) \<Rightarrow>
            (let results = parse_probe_output out targets in
             if nothing_answered results \<and> n \<noteq> 0
             then andthen (ask (w_unit w) Pause) (\<lambda>_. probe_loop w v targets (n - 1))
             else let attempts = Suc (fence_probe_retries - n); (verdict, detail) = judge results in
               ret (verdict, (if attempts > 1 then detail @ '' (probed '' @ digits_nat attempts @ '' times)'' else detail),
                    map as_record results, Some True))) t = (Finished report, s')"
    using less.prems(1) unfolding probe_loop.simps [of w v targets n] andthen_Finished by blast
  have "\<exists>x. r = Inr x \<and> w_cmd w (ps_log s) ?c = Inr x \<and> ps_log t = (?c, Did) # ps_log s"
  proof (rule disjE [OF probe_asked [OF r]])
    assume "\<exists>e. r = Inl (case e of
             Timed_out _ \<Rightarrow> (Unverified, ''The fence probe had not finished after 60s inside the guest.'', [], Some True)
           | _ \<Rightarrow> (Unverified, safe_detail (''The guest agent answered a ping but would not run the fence probe: '' @ fault_str e
               @ ''. Some images ship qemu-guest-agent with guest-exec disabled.'') None, [], Some True))"
    then obtain rep where "r = Inl rep" "fst rep = Unverified" by (elim exE) (rule that, assumption, simp split: fault.split)
    then show ?thesis using k less.prems(2) by simp
  qed
  then obtain rc out err where x: "r = Inr (rc, out, err)" "w_cmd w (ps_log s) ?c = Inr (rc, out, err)"
    "ps_log t = (?c, Did) # ps_log s" by auto
  let ?rs = "parse_probe_output out targets"
  show ?case
  proof (cases "nothing_answered ?rs \<and> n \<noteq> 0")
    case True
    then obtain u where "probe_loop w v targets (n - 1) u = (Finished report, s')"
      using k x(1) by (auto simp: andthen_Finished)
    then show ?thesis using less.IH [of "n - 1" u] less.prems(2) True by simp
  next
    case False
    then have "s' = t" "fst report = fst (judge ?rs)"
      using k x(1) by (auto simp: Let_def split: prod.splits if_splits)
    then show ?thesis using x less.prems(2) unfolding guest_verified_def
      by (intro exI [of _ "[]"] exI [of _ "ps_log s"] exI [of _ rc] exI [of _ out] exI [of _ err]) simp
  qed
qed

lemma verify_fence_verified:
  assumes "verify_fence w v g d s = (Finished report, s')" and "fst report = Verified"
  shows "guest_verified w v (isolated_targets (w_resolver w) (w_api_host w) (w_api_port w) (dg_isolate_cidrs g)
     @ control_targets (dg_gateway g) (pd_nameserver d) (dg_isolate_cidrs g)) (ps_log s')"
proof -
  have "probe_fence w v g d s = (Finished report, s')"
    using assms by (auto simp: verify_fence_def try_except_def split: prod.splits stop.splits)
  then obtain iso t where iso: "targets_answer w (dg_isolate_cidrs g) s = (Finished iso, t)"
    and k: "(if iso = [] then (let (verdict, detail) = judge [] in ret (verdict, detail, [], None))
       else andthen (wait_for_agent w v agent_wait) (\<lambda>up.
         if \<not> up
         then andthen (why_no_agent w v) (\<lambda>why.
           ret (Unverified, ''Nothing could be run inside the guest to check the fence. '' @ why, [], Some False))
         else andthen (wait_for_cloud_init w v) (\<lambda>_.
           probe_loop w v (iso @ control_targets (dg_gateway g) (pd_nameserver d) (dg_isolate_cidrs g)) fence_probe_retries))) t
       = (Finished report, s')"
    unfolding probe_fence_def andthen_Finished by blast
  have "iso = isolated_targets (w_resolver w) (w_api_host w) (w_api_port w) (dg_isolate_cidrs g)"
    using iso by (auto simp: targets_answer_def Let_def ask_Finished split: option.splits if_splits)
  moreover have "iso \<noteq> []" using k assms(2) by (auto simp: judge_def)
  then obtain u where "probe_loop w v (iso @ control_targets (dg_gateway g) (pd_nameserver d) (dg_isolate_cidrs g)) fence_probe_retries u
      = (Finished report, s')"
    using k assms(2) by (auto simp: andthen_Finished split: if_splits)
  ultimately show ?thesis using probe_loop_verified assms(2) by blast
qed


lemma static_request_no_key: "rq_ts_key static_request = None"
  by (simp add: static_request_def)

lemma fenced_hand_over:
  assumes "ps_fuse s = None" and "rp_fence p = Some g" and "rp_allocation p = None"
  shows "\<exists>result s'. hand_over fenced_world static_request p s = (Finished result, s') \<and> ps_fuse s' = None"
  by (simp add: hand_over_def step_def andthen_def ask_ok fenced_world_simps assms discover_ip.simps first_ipv4_def ip_wait_def
      verify_stage_def verify_fence_def probe_fence_def targets_answer_def isolated_targets_def judge_def try_except_def
      provision_join_def static_request_no_key)

lemma fenced_success:
  "\<exists>r s' result earlier later. provision fenced_world static_request (fresh_run None []) = (r, s')
     \<and> ps_log s' = later @ (Set_succeeded result, Did) # earlier"
proof -
  let ?p = "\<lparr>rp_defaults = no_defaults\<lparr>pd_bridge := ''guestnet''\<rparr>, rp_fence = Some example_network, rp_allocation = None,
        rp_vmid = 101\<rparr> :: run_plan"
  let ?s1 = "(fresh_run None [])\<lparr>ps_log := [(Next_id, Did), (Read_network, Did), (Read_defaults, Did), (Set_running, Did)],
        ps_step := ''next_vmid''\<rparr>"
  have f1: "ps_fuse (?s1\<lparr>ps_vmid := Some (rp_vmid ?p)\<rparr>) = None" by (simp add: fresh_run_def)
  obtain s2 where s2: "prepare_guest fenced_world static_request ?p (?s1\<lparr>ps_vmid := Some (rp_vmid ?p)\<rparr>) = (Finished (), s2)"
    using fenced_prepare [OF f1, of ?p example_network] by auto
  have f2: "ps_fuse s2 = None" using cut_onceD(1) [OF calls_cut_once [OF calls_prepare] s2 f1] by blast
  let ?s3 = "s2\<lparr>ps_step := ''start_vm'', ps_log := (Start 101, Did) # ps_log s2\<rparr>"
  obtain s4 where s4: "wait_for fenced_world ''UPID:1'' ?s3 = (Finished (), s4)" "ps_fuse s4 = None"
    by (simp add: wait_for_def in_flight_def andthen_def ask_ok fenced_world_simps f2)
  obtain result s5 where s5: "hand_over fenced_world static_request ?p s4 = (Finished result, s5)" "ps_fuse s5 = None"
    using fenced_hand_over [OF s4(2), of ?p example_network] by auto
  have "run_main fenced_world static_request (fresh_run None [])
      = andthen (ask (w_unit fenced_world) (Set_succeeded result)) (\<lambda>_. write_audit fenced_world static_request ''provision'' result) s5"
    unfolding run_from_start [OF fenced_plan s2]
    using s4(1) s5(1) by (simp add: after_start_def andthen_def ask_ok fenced_world_simps f2)
  then have "run_main fenced_world static_request (fresh_run None []) = (Finished (), s5\<lparr>ps_log :=
      (Write_audit ''provision'' ((''node'', JStr (rq_node static_request)) # result), Did) # (Set_succeeded result, Did) # ps_log s5\<rparr>)"
    (is "_ = (_, ?s6)")
    by (simp add: andthen_def ask_ok fenced_world_simps s5(2) write_audit_def suppressed_def try_except_def)
  then have "provision fenced_world static_request (fresh_run None []) = (Finished (), ?s6)" by (simp add: provision_def)
  moreover have "ps_log ?s6 = [(Write_audit ''provision'' ((''node'', JStr (rq_node static_request)) # result), Did)]
      @ (Set_succeeded result, Did) # ps_log s5" by simp
  ultimately show ?thesis by blast
qed


section \<open>A cancellation during the unwinding of a failure\<close>



section \<open>Numbers\<close>

text \<open>A number taken from the configured range lies in it and above every number in use there, and the range is refused only
  when none is left above them.  It is not true that a number is never used again: destroying the guest
  that was given one makes the next guest get it.\<close>

theorem range_number_bounds:
  "(case next_in_range low high taken of
      Some v \<Rightarrow> low \<le> v \<and> v \<le> high \<and> v \<notin> set taken \<and> list_all (\<lambda>u. u < low \<or> high < u \<or> u < v) taken
        \<and> next_in_range low high (filter (\<lambda>u. u \<noteq> v) (v # taken)) = Some v
    | None \<Rightarrow> high < low \<or> high \<in> set taken)"
proof -
  let ?used = "filter (\<lambda>v. low \<le> v \<and> v \<le> high) taken"
  have m: "u \<le> Max (set ?used)" if "u \<in> set taken" "low \<le> u" "u \<le> high" for u
    by (rule Max_ge) (use that in auto)
  show ?thesis
  proof (cases "?used = []")
    case True
    then have n: "\<forall>u\<in>set taken. \<not> (low \<le> u \<and> u \<le> high)" by (auto simp: filter_empty_conv)
    show ?thesis
    proof (cases "low \<le> high")
      case True
      with n have "filter (\<lambda>u. u \<noteq> low) taken = taken" by (auto simp: filter_id_conv)
      then show ?thesis using n True \<open>?used = []\<close> by (auto simp: next_in_range_def list_all_iff)
    qed (simp add: next_in_range_def \<open>?used = []\<close>)
  next
    case False
    then have "set ?used \<noteq> {}" unfolding set_empty .
    from Max_in [OF finite_set this] have "Max (set ?used) \<in> set ?used" .
    then have mx: "Max (set ?used) \<in> set taken" "low \<le> Max (set ?used)" "Max (set ?used) \<le> high" by auto
    let ?v = "Max (set ?used) + 1"
    show ?thesis
    proof (cases "?v \<le> high")
      case True
      have v: "?v \<notin> set taken" using m [of ?v] True mx by force
      then have "filter (\<lambda>u. u \<noteq> ?v) taken = taken" by (auto simp: filter_id_conv)
      moreover have "list_all (\<lambda>u. u < low \<or> high < u \<or> u < ?v) taken"
        unfolding list_all_iff
      proof
        fix u assume "u \<in> set taken"
        with m [of u] show "u < low \<or> high < u \<or> u < ?v" by (cases "low \<le> u \<and> u \<le> high") auto
      qed
      moreover have "next_in_range low high taken = Some ?v" using False True by (simp add: next_in_range_def Let_def)
      ultimately show ?thesis using True mx(2) v by simp
    next
      case no: False
      then have "Max (set ?used) = high" using mx(3) by simp
      then show ?thesis using False no mx by (simp add: next_in_range_def)
    qed
  qed
qed

end
