(* ===== verification/Host_Provision.thy ===== *)
theory Host_Provision
  imports Executor
begin

text \<open>
  The handler of host-provision artifacts: \<^verbatim>\<open>executor/host_provision.py\<close>.

  It talks to the agent on one host: read-only commands, reading a file, and the three verbs that change
  something.  Its state is the list of calls made so far, newest last, each with the host it went to; what the agent
  answers is an argument, a function of the calls made before.
\<close>

section \<open>The agent\<close>

datatype agent_call =
    Exec_readonly string
  | Read_file string
  | Install_package string
  | Manage_service string string
  | Write_config string string string

type_synonym hp_trace = "(string \<times> agent_call) list"

record hp_agent =
  hpa_exec :: "string \<Rightarrow> string \<Rightarrow> hp_trace \<Rightarrow> (int \<times> string \<times> string) res"
  hpa_read :: "string \<Rightarrow> string \<Rightarrow> hp_trace \<Rightarrow> string res"
  hpa_do :: "string \<Rightarrow> agent_call \<Rightarrow> hp_trace \<Rightarrow> dict res"

type_synonym 'a hp_run = "hp_trace \<Rightarrow> 'a res \<times> hp_trace"

definition hp_ret :: "'a \<Rightarrow> 'a hp_run" where
  "hp_ret x tr = (Inr x, tr)"

definition hp_bind :: "'a hp_run \<Rightarrow> ('a \<Rightarrow> 'b hp_run) \<Rightarrow> 'b hp_run" where
  "hp_bind m f tr = (case m tr of (Inl e, tr') \<Rightarrow> (Inl e, tr') | (Inr x, tr') \<Rightarrow> f x tr')"

definition exec_readonly :: "hp_agent \<Rightarrow> string \<Rightarrow> string \<Rightarrow> (int \<times> string \<times> string) hp_run" where
  "exec_readonly ag host cmd tr = (hpa_exec ag host cmd tr, tr @ [(host, Exec_readonly cmd)])"

text \<open>Reading a file inside a \<open>try\<close>: the exception is a value.\<close>

definition try_read :: "hp_agent \<Rightarrow> string \<Rightarrow> string \<Rightarrow> (exn + string) hp_run" where
  "try_read ag host path tr = (Inr (hpa_read ag host path tr), tr @ [(host, Read_file path)])"

definition change :: "hp_agent \<Rightarrow> string \<Rightarrow> agent_call \<Rightarrow> dict hp_run" where
  "change ag host c tr = (hpa_do ag host c tr, tr @ [(host, c)])"

fun hp_traverse :: "('a \<Rightarrow> 'b hp_run) \<Rightarrow> 'a list \<Rightarrow> 'b list hp_run" where
  "hp_traverse f [] = hp_ret []"
| "hp_traverse f (x # xs) = hp_bind (f x) (\<lambda>y. hp_bind (hp_traverse f xs) (\<lambda>ys. hp_ret (y # ys)))"

section \<open>The target\<close>

text \<open>\<open>str(target.get("host") or target.get("node", ""))\<close>\<close>

definition resolve_host :: "dict \<Rightarrow> string" where
  "resolve_host tgt = py_str (if truthy (dget ''host'' tgt) then dget ''host'' tgt else dget_or ''node'' (JStr []) tgt)"

definition pve_guard :: "string \<Rightarrow> string list \<Rightarrow> string option" where
  "pve_guard host pve_nodes =
     (if \<exists>n\<in>set pve_nodes. py_strip (py_lower host) = py_strip (py_lower n)
      then Some (''host-provision forbidden for PVE node '' @ CHR 0x27 # host @ [CHR 0x27]) else None)"

fun state_value :: "service_state \<Rightarrow> string" where
  "state_value STARTED = ''started''"
| "state_value STOPPED = ''stopped''"
| "state_value RESTARTED = ''restarted''"
| "state_value ENABLED = ''enabled''"
| "state_value DISABLED = ''disabled''"

section \<open>What the host looks like\<close>

definition dpkg_query :: "string \<Rightarrow> string" where "dpkg_query name = ''dpkg -s '' @ name"
definition active_query :: "string \<Rightarrow> string" where "active_query name = ''systemctl is-active '' @ name"
definition enabled_query :: "string \<Rightarrow> string" where "enabled_query name = ''systemctl is-enabled '' @ name"
definition mode_query :: "string \<Rightarrow> string" where "mode_query path = ''stat -c %a '' @ path"

definition package_installed :: "hp_agent \<Rightarrow> string \<Rightarrow> string \<Rightarrow> bool option hp_run" where
  "package_installed ag host name =
     hp_bind (exec_readonly ag host (dpkg_query name)) (\<lambda>(rc, out, err). hp_ret
       (if rc = 0 then Some (py_in ''install ok installed'' out)
        else if py_in ''not installed'' (py_lower (out @ err)) then Some False else None))"

definition read_says_absent :: "exn \<Rightarrow> bool" where
  "read_says_absent e = py_in ''file not found'' (py_lower (exn_str e))"

definition tri :: "bool option \<Rightarrow> jval" where
  "tri b = (case b of None \<Rightarrow> JNull | Some x \<Rightarrow> JBool x)"

definition capture_package :: "hp_agent \<Rightarrow> string \<Rightarrow> string \<Rightarrow> dict hp_run" where
  "capture_package ag host name =
     hp_bind (package_installed ag host name) (\<lambda>installed.
       hp_ret [(''kind'', JStr ''package''), (''name'', JStr name), (''was_installed'', tri installed)])"

definition capture_service :: "hp_agent \<Rightarrow> string \<Rightarrow> hp_service \<Rightarrow> dict hp_run" where
  "capture_service ag host svc =
     hp_bind (exec_readonly ag host (active_query (svc_name svc))) (\<lambda>(_, active_out, _).
     hp_bind (exec_readonly ag host (enabled_query (svc_name svc))) (\<lambda>(_, enabled_out, _).
       hp_ret [(''kind'', JStr ''service''), (''name'', JStr (svc_name svc)), (''desired'', JStr (state_value (svc_state svc))),
               (''was_active'', JStr (py_strip active_out)), (''was_enabled'', JStr (py_strip enabled_out))]))"

text \<open>The command for the mode is inside the \<open>try\<close>, so its exception counts as one of the read.\<close>

definition config_unread :: "string \<Rightarrow> exn \<Rightarrow> dict" where
  "config_unread path e =
     [(''kind'', JStr ''config''), (''name'', JStr path), (''prior_content'', JNull), (''prior_mode'', JNull)]
     @ (if read_says_absent e then [(''existed'', JBool False)]
        else [(''existed'', JNull), (''read_error'', JStr (take 300 (exn_str e)))])"

definition capture_config :: "hp_agent \<Rightarrow> string \<Rightarrow> hp_config_file \<Rightarrow> dict hp_run" where
  "capture_config ag host cfg =
     hp_bind (try_read ag host (cf_path cfg)) (\<lambda>r. case r of
       Inl e \<Rightarrow> hp_ret (config_unread (cf_path cfg) e)
     | Inr content \<Rightarrow> (\<lambda>tr.
         (case exec_readonly ag host (mode_query (cf_path cfg)) tr of
            (Inl e, tr') \<Rightarrow>
              (Inr (config_unread (cf_path cfg) e), tr')
          | (Inr (rc, out, _), tr') \<Rightarrow>
              (Inr [(''kind'', JStr ''config''), (''name'', JStr (cf_path cfg)), (''prior_content'', JStr content),
                    (''existed'', JBool True), (''prior_mode'', if rc = 0 then JStr (py_strip out) else JNull)], tr'))))"

definition capture_pre_state :: "hp_agent \<Rightarrow> string \<Rightarrow> hp_spec \<Rightarrow> dict list hp_run" where
  "capture_pre_state ag host spec =
     hp_bind (hp_traverse (capture_package ag host) (hps_packages spec)) (\<lambda>ps.
     hp_bind (hp_traverse (capture_service ag host) (hps_services spec)) (\<lambda>ss.
     hp_bind (hp_traverse (capture_config ag host) (hps_config_files spec)) (\<lambda>cs.
       hp_ret (ps @ ss @ cs))))"

section \<open>Applying\<close>

text \<open>\<open>_resolve_spec_secrets\<close>\<close>

fun resolve_configs :: "(string \<Rightarrow> secret res) option \<Rightarrow> hp_config_file list \<Rightarrow> (hp_config_file list \<times> string list) res" where
  "resolve_configs vault [] = Inr ([], [])"
| "resolve_configs vault (c # cs) =
     bind_res (resolve (cf_content c) vault) (\<lambda>(resolved, found).
     bind_res (resolve_configs vault cs) (\<lambda>(cs', values).
       Inr ((if found \<noteq> [] then c\<lparr>cf_content := resolved\<rparr> else c) # cs', found @ values)))"

definition resolve_spec_secrets :: "(string \<Rightarrow> secret res) option \<Rightarrow> hp_spec \<Rightarrow> (hp_spec \<times> string list) res" where
  "resolve_spec_secrets vault spec =
     bind_res (resolve_configs vault (hps_config_files spec)) (\<lambda>(cs, values).
       Inr (spec\<lparr>hps_config_files := cs\<rparr>, values))"

definition changed_text :: "dict \<Rightarrow> string" where
  "changed_text d = ''changed='' @ py_str (dget ''changed'' d) @ '' '' @ py_str (dget_or ''detail'' (JStr []) d)"

text \<open>The calls of \<open>_apply_spec\<close> in order, each with the line it logs.\<close>

definition apply_calls :: "hp_spec \<Rightarrow> (agent_call \<times> (dict \<Rightarrow> string)) list" where
  "apply_calls spec =
     map (\<lambda>n. (Install_package n, \<lambda>d. py_rstrip (''package '' @ n @ '': '' @ changed_text d))) (hps_packages spec)
     @ map (\<lambda>s. (Manage_service (svc_name s) (state_value (svc_state s)),
           \<lambda>d. py_rstrip (''service '' @ svc_name s @ '' -> '' @ state_value (svc_state s) @ '': '' @ changed_text d))) (hps_services spec)
     @ map (\<lambda>c. (Write_config (cf_path c) (cf_content c) (cf_mode c),
           \<lambda>d. py_rstrip (''config '' @ cf_path c @ '' (mode '' @ cf_mode c @ ''): '' @ changed_text d))) (hps_config_files spec)"

fun apply_spec :: "hp_agent \<Rightarrow> string \<Rightarrow> (agent_call \<times> (dict \<Rightarrow> string)) list \<Rightarrow> string list \<Rightarrow> hp_trace
    \<Rightarrow> exn option \<times> string list \<times> hp_trace" where
  "apply_spec ag host [] log tr = (None, log, tr)"
| "apply_spec ag host ((c, line) # cs) log tr =
     (case change ag host c tr of
        (Inl e, tr') \<Rightarrow> (Some e, log, tr')
      | (Inr d, tr') \<Rightarrow> apply_spec ag host cs (log @ [line d]) tr')"

definition hp_refuse :: "string \<Rightarrow> string \<Rightarrow> handler_result" where
  "hp_refuse log why = \<lparr>hr_success = False, hr_log = log, hr_reason = Some why, hr_pre_state = None\<rparr>"

section \<open>Rolling back\<close>

text \<open>What to do for an item, and what cannot be undone.\<close>

definition service_wanted :: "dict \<Rightarrow> string list" where
  "service_wanted item =
     (let active = str_or_empty (dget ''was_active'' item); enabled = str_or_empty (dget ''was_enabled'' item) in
      (if active = [] then [] else [if active = ''active'' then ''started'' else ''stopped''])
      @ (if enabled \<in> {''enabled'', ''disabled''} then [enabled] else []))"

datatype undo = Undo agent_call "dict \<Rightarrow> string" | Note string | Keep string

definition undo_item :: "dict \<Rightarrow> undo list" where
  "undo_item item =
     (let kind = dget ''kind'' item; name = py_str (dget_or ''name'' (JStr []) item) in
      if kind = JStr ''package'' then
        (if truthy (dget ''was_installed'' item) then [Note (''package '' @ name @ '': was already installed, left in place'')]
         else [Keep (''package '' @ name @ '' (installed by this artifact)'')])
      else if kind = JStr ''service'' then
        map (\<lambda>w. Undo (Manage_service name w)
          (\<lambda>d. py_rstrip (''service '' @ name @ '' -> '' @ w @ '': changed='' @ py_str (dget ''changed'' d)))) (service_wanted item)
      else if kind = JStr ''config'' then
        (if truthy (dget ''existed'' item) \<and> dget ''prior_content'' item \<noteq> JNull then
           (let content = py_str (dget ''prior_content'' item);
                mode = (if truthy (dget ''prior_mode'' item) then py_str (dget ''prior_mode'' item) else ''0644'') in
            [Undo (Write_config name content mode)
               (\<lambda>d. ''config '' @ name @ '': restored '' @ digits_nat (length content) @ '' bytes'')])
         else if dget ''existed'' item = JNull then
           [Keep (''config '' @ name @ '' (its prior content was never established: ''
              @ (if truthy (dget ''read_error'' item) then py_str (dget ''read_error'' item) else ''the prior content was never read'') @ '')'')]
         else [Keep (''config '' @ name @ '' (created by this artifact)'')])
      else [])"

fun undo_all :: "hp_agent \<Rightarrow> string \<Rightarrow> undo list \<Rightarrow> string list \<Rightarrow> string list \<Rightarrow> (string list \<times> string list) hp_run" where
  "undo_all ag host [] log kept = hp_ret (log, kept)"
| "undo_all ag host (Note l # us) log kept = undo_all ag host us (log @ [l]) kept"
| "undo_all ag host (Keep k # us) log kept = undo_all ag host us log (kept @ [k])"
| "undo_all ag host (Undo c line # us) log kept =
     hp_bind (change ag host c) (\<lambda>d. undo_all ag host us (log @ [line d]) kept)"

definition hp_rollback :: "hp_agent \<Rightarrow> dict \<Rightarrow> dict list \<Rightarrow> string list \<Rightarrow> handler_result hp_run" where
  "hp_rollback ag tgt pre_state pve_nodes =
     (let host = resolve_host tgt in
      if pre_state = [] then hp_ret (hp_refuse ''no pre-apply state was captured for this artifact'' ''nothing captured to roll back to'')
      else if host = [] then hp_ret (hp_refuse ''No target host resolved'' ''missing host'')
      else case pve_guard host pve_nodes of
        Some forbidden \<Rightarrow> hp_ret (hp_refuse forbidden ''forbidden target'')
      | None \<Rightarrow>
          hp_bind (undo_all ag host (concat (map undo_item pre_state)) [] []) (\<lambda>(log, kept). hp_ret
            (if kept \<noteq> []
             then hp_refuse (join [nl] (log @ [''NOT reversed: '' @ join ''; '' kept]))
                    (''the agent has no verb to undo these: '' @ join ''; '' kept)
             else \<lparr>hr_success = True, hr_log = join [nl] log, hr_reason = None, hr_pre_state = None\<rparr>)))"

section \<open>The handler\<close>

definition hp_execute ::
  "hp_agent \<Rightarrow> (string \<Rightarrow> jval res) \<Rightarrow> (string \<Rightarrow> secret res) option \<Rightarrow> string \<Rightarrow> string \<Rightarrow> dict \<Rightarrow> string list \<Rightarrow> handler_result hp_run" where
  "hp_execute ag yaml vault duration body tgt pve_nodes =
     (case parse_host_provision_spec yaml body of
        Inl (ValueError m) \<Rightarrow> hp_ret (hp_refuse (''spec error: '' @ m) m)
      | Inl e \<Rightarrow> (\<lambda>tr. (Inl e, tr))
      | Inr spec0 \<Rightarrow>
          if dget ''kind'' tgt \<in> {JStr ''node'', JStr ''cluster''}
          then hp_ret (hp_refuse (''host-provision forbidden for target.kind='' @ py_str (dget ''kind'' tgt))
                 ''host-provision cannot target PVE nodes or cluster'')
          else let host = resolve_host tgt in
            if host = [] then hp_ret (hp_refuse ''No target host resolved'' ''missing host'')
            else case pve_guard host pve_nodes of
              Some forbidden \<Rightarrow> hp_ret (hp_refuse forbidden ''forbidden target'')
            | None \<Rightarrow>
                (case resolve_spec_secrets vault spec0 of
                   Inl e \<Rightarrow> hp_ret (hp_refuse (exn_str e) (exn_str e))
                 | Inr (spec, values) \<Rightarrow>
                     hp_bind (capture_pre_state ag host spec) (\<lambda>captured tr.
                       case apply_spec ag host (apply_calls spec) [] tr of
                         (Some e, log, tr') \<Rightarrow>
                           (Inr \<lparr>hr_success = False, hr_log = redact (join [nl] (log @ [''FAILED: '' @ exn_str e])) values,
                                 hr_reason = Some (redact (exn_str e) values), hr_pre_state = Some (JList (map JObj captured))\<rparr>, tr')
                       | (None, log, tr') \<Rightarrow>
                           (Inr \<lparr>hr_success = True, hr_log = redact (join [nl] (log @ [''duration='' @ duration @ ''s''])) values,
                                 hr_reason = None, hr_pre_state = Some (JList (map JObj captured))\<rparr>, tr'))))"

section \<open>Comparing\<close>

record hp_item =
  hi_id :: string
  hi_changes :: bool
  hi_established :: bool
  hi_observed :: string
  hi_desired :: string
  hi_log :: string

definition probe_package :: "hp_agent \<Rightarrow> string \<Rightarrow> string \<Rightarrow> hp_item hp_run" where
  "probe_package ag host name =
     hp_bind (package_installed ag host name) (\<lambda>installed. hp_ret
       \<lparr>hi_id = ''package:'' @ name, hi_changes = (installed \<noteq> Some True), hi_established = (installed \<noteq> None),
        hi_observed = (case installed of None \<Rightarrow> ''could not be read'' | Some True \<Rightarrow> ''installed'' | Some False \<Rightarrow> ''absent''),
        hi_desired = ''installed'', hi_log = ''package '' @ name @ '': installed='' @ py_str (tri installed)\<rparr>)"

definition probe_service :: "hp_agent \<Rightarrow> string \<Rightarrow> hp_service \<Rightarrow> hp_item hp_run" where
  "probe_service ag host svc =
     (let name = svc_name svc; state = state_value (svc_state svc);
          item = (\<lambda>observed ok log. \<lparr>hi_id = ''service:'' @ name, hi_changes = (\<not> ok), hi_established = (observed \<noteq> []),
            hi_observed = (if observed = [] then ''could not be read'' else observed), hi_desired = state, hi_log = log\<rparr>) in
      if svc_state svc \<in> {STARTED, RESTARTED, STOPPED}
      then hp_bind (exec_readonly ag host (active_query name)) (\<lambda>(_, out, _).
        let observed = py_strip out in
        hp_ret (item observed ((observed = ''active'') = (svc_state svc \<noteq> STOPPED))
          (''service '' @ name @ '' is-active='' @ observed @ '' want='' @ state)))
      else hp_bind (exec_readonly ag host (enabled_query name)) (\<lambda>(_, out, _).
        let observed = py_strip out in
        hp_ret (item observed (observed = state) (''service '' @ name @ '' is-enabled='' @ observed @ '' want='' @ state))))"

definition probe_config :: "hp_agent \<Rightarrow> string \<Rightarrow> hp_config_file \<Rightarrow> hp_item hp_run" where
  "probe_config ag host cfg =
     hp_bind (try_read ag host (cf_path cfg)) (\<lambda>r.
       let matches = (r = Inr (cf_content cfg));
           observed = (case r of
              Inr _ \<Rightarrow> if matches then ''matches'' else ''differs''
            | Inl e \<Rightarrow> if read_says_absent e then ''absent'' else ''could not be read: '' @ take 120 (exn_str e)) in
       hp_ret \<lparr>hi_id = ''config:'' @ cf_path cfg, hi_changes = (\<not> matches),
         hi_established = (case r of Inr _ \<Rightarrow> True | Inl e \<Rightarrow> read_says_absent e),
         hi_observed = observed, hi_desired = digits_nat (length (cf_content cfg)) @ '' bytes, mode '' @ cf_mode cfg,
         hi_log = ''config '' @ cf_path cfg @ '': '' @ observed\<rparr>)"

definition hp_probe :: "hp_agent \<Rightarrow> string \<Rightarrow> hp_spec \<Rightarrow> hp_item list hp_run" where
  "hp_probe ag host spec =
     hp_bind (hp_traverse (probe_package ag host) (hps_packages spec)) (\<lambda>ps.
     hp_bind (hp_traverse (probe_service ag host) (hps_services spec)) (\<lambda>ss.
     hp_bind (hp_traverse (probe_config ag host) (hps_config_files spec)) (\<lambda>cs.
       hp_ret (ps @ ss @ cs))))"

text \<open>The drifted items, the unknown ones, and the log.\<close>

definition check_drift :: "hp_agent \<Rightarrow> string \<Rightarrow> hp_spec \<Rightarrow> (string list \<times> string list \<times> string) hp_run" where
  "check_drift ag host spec =
     hp_bind (hp_probe ag host spec) (\<lambda>items. hp_ret
       (map hi_id (filter (\<lambda>i. hi_changes i \<and> hi_established i) items),
        map hi_id (filter (\<lambda>i. \<not> hi_established i) items), join [nl] (map hi_log items)))"

end
