(* ===== verification/Drift_Verify.thy ===== *)
theory Drift_Verify
  imports Host_Provision Proxmox_Sequence Http_Sequence
begin

text \<open>
  Drift verification: \<^verbatim>\<open>reconciler/verify.py\<close>.

  A verification reads an artifact from the store and compares what it says with the cluster, the services
  and the hosts.  Its state is what it sent to each of them so far; what they answer is an argument, as in the handlers.
  A composite verifies its steps through the same function: the natural number is the depth that is left,
  so \<open>verify_artifact\<close> starts with eleven and zero is the depth the code refuses.
\<close>

section \<open>State and verdicts\<close>

datatype drift_state = IN_SPEC | DRIFTED | UNKNOWN

record verify_result =
  vr_state :: drift_state
  vr_log :: string
  vr_details :: dict

text \<open>\<open>__post_init__\<close>: the flag never disagrees with the state.\<close>

definition vr_drifted :: "verify_result \<Rightarrow> bool" where
  "vr_drifted r = (vr_state r = DRIFTED)"

text \<open>What the store holds of an artifact: kind and status as text, the frontmatter and the body.\<close>

record stored =
  sd_kind :: string
  sd_status :: string
  sd_fm :: frontmatter
  sd_body :: string

record verify_env =
  v_read :: "jval \<Rightarrow> stored res"
  v_executor :: bool
  v_seq :: seq_env
  v_pve :: pve_answers
  v_http :: http_env
  v_agent :: hp_agent
  v_pve_nodes :: "string list"
  v_gateway :: "pve_reads option"
  v_defaults :: "desired_network option res"
  v_probe_failed :: "exn \<Rightarrow> bool"

record vworld =
  vw_pve :: "pve_request list"
  vw_http :: "http_request list"
  vw_host :: hp_trace

type_synonym 'a vrun = "vworld \<Rightarrow> 'a res \<times> vworld"

definition not_established :: "string \<Rightarrow> string \<Rightarrow> verify_result" where
  "not_established log reason = \<lparr>vr_state = UNKNOWN, vr_log = log, vr_details = [(''reason'', JStr reason)]\<rparr>"

fun not_found :: "exn \<Rightarrow> bool" where
  "not_found (FileNotFoundError _) = True"
| "not_found _ = False"

definition v_yaml :: "verify_env \<Rightarrow> string \<Rightarrow> jval res" where
  "v_yaml env = x_yaml (q_ext (v_seq env))"

text \<open>\<open>_HOSTNAME_RE\<close>.\<close>

definition hostname_re :: "string \<Rightarrow> bool" where
  "hostname_re = dollar (\<lambda>s. s \<noteq> [] \<and> is_alnum (hd s) \<and> list_all (\<lambda>c. is_alnum c \<or> c = CHR ''.'' \<or> c = CHR ''-'') (tl s))"

section \<open>Ansible playbooks\<close>

definition verify_ansible :: "verify_env \<Rightarrow> frontmatter \<Rightarrow> string \<Rightarrow> verify_result" where
  "verify_ansible env fm body =
     (let host = resolve_host (target_data fm) in
      if find_fence ''ansible-spec'' body = None then not_established ''no ansible-spec found'' ''no_spec''
      else if host = [] then not_established ''no target host resolved'' ''no_host''
      else if \<not> hostname_re host then not_established (''invalid hostname: '' @ repr_str host) ''invalid_host''
      else case pve_guard host (v_pve_nodes env) of
        Some _ \<Rightarrow> not_established (''PVE node '' @ CHR 0x27 # host @ CHR 0x27 # '' - use the Proxmox API instead'') ''forbidden_host''
      | None \<Rightarrow> not_established ''ansible drift checking is not implemented'' ''ansible_unverifiable'')"

section \<open>Sequences\<close>

text \<open>What looking at one step came to.\<close>

datatype look = Differs | Passed_over | Look_raises exn

text \<open>\<open>except _PROBE_FAILED\<close>\<close>

definition probe_raises :: "verify_env \<Rightarrow> exn \<Rightarrow> look" where
  "probe_raises env e = (if v_probe_failed env e then Passed_over else Look_raises e)"

definition pve_ask :: "verify_env \<Rightarrow> dict \<Rightarrow> dict \<Rightarrow> string \<Rightarrow> string \<Rightarrow> pve_request list \<Rightarrow> look \<times> pve_request list" where
  "pve_ask env tgt pc m path tr =
     ((case v_pve env (Precheck m path) tr of
         Inl (ProxmoxError _ _) \<Rightarrow> Passed_over
       | Inl (Pve_raises e) \<Rightarrow> probe_raises env e
       | Inr resp \<Rightarrow>
           (case decide (v_seq env) (dget ''skip_if'' pc) (make_pve_response_proxy 200 (pv resp)) tgt of
              Skip_it \<Rightarrow> Passed_over
            | Run_it \<Rightarrow> Differs
            | Undecided_because _ \<Rightarrow> Passed_over
            | Raises e \<Rightarrow> probe_raises env e)), tr @ [Precheck m path])"

definition pve_look :: "verify_env \<Rightarrow> interp \<Rightarrow> dict \<Rightarrow> dict \<Rightarrow> pve_request list \<Rightarrow> look \<times> pve_request list" where
  "pve_look env ctx tgt st tr =
     (case dget_or ''method'' (JStr ''GET'') st of
        JStr m \<Rightarrow>
          (if \<not> truthy (dget ''precheck'' st) then (Passed_over, tr)
           else case dget ''precheck'' st of
             JObj pc \<Rightarrow>
               (case dget_or ''method'' (JStr ''GET'') pc of
                  JStr pm \<Rightarrow>
                    (if \<not> truthy (dget ''skip_if'' pc) \<or> py_upper pm \<noteq> ''GET'' then (Passed_over, tr)
                     else case interpolate (v_seq env) ctx (dget_or ''path'' (JStr []) pc) of
                       Inl e \<Rightarrow> (probe_raises env e, tr)
                     | Inr (Inl _) \<Rightarrow> (Passed_over, tr)
                     | Inr (Inr path) \<Rightarrow> pve_ask env tgt pc (py_upper pm) path tr)
                | _ \<Rightarrow> (Look_raises (AttributeError ''object has no attribute upper''), tr))
           | _ \<Rightarrow> (Look_raises (AttributeError ''object has no attribute get''), tr))
      | _ \<Rightarrow> (Look_raises (AttributeError ''object has no attribute upper''), tr))"

definition http_ask :: "verify_env \<Rightarrow> dict \<Rightarrow> dict \<Rightarrow> jval \<Rightarrow> string \<Rightarrow> string \<Rightarrow> http_state \<Rightarrow> look \<times> http_state" where
  "http_ask env tgt pc name m path s =
     (case client_for (v_http env) name s of
        (Inl e, s1) \<Rightarrow> (Look_raises e, s1)
      | (Inr (Inl _), s1) \<Rightarrow> (Passed_over, s1)
      | (Inr (Inr client), s1) \<Rightarrow>
          (case send_request (v_http env) (Probe client m path) s1 of
             (Inl (Http_raises e), s2) \<Rightarrow> (Look_raises e, s2)
           | (Inl (HTTPError _), s2) \<Rightarrow> (Passed_over, s2)
           | (Inr resp, s2) \<Rightarrow>
               ((case decide (v_seq env) (dget ''skip_if'' pc) (http_proxy resp) tgt of
                   Skip_it \<Rightarrow> Passed_over
                 | Run_it \<Rightarrow> Differs
                 | Undecided_because m \<Rightarrow> Look_raises (OtherError m)
                 | Raises e \<Rightarrow> Look_raises e), s2)))"

definition http_look :: "verify_env \<Rightarrow> interp \<Rightarrow> dict \<Rightarrow> dict \<Rightarrow> http_state \<Rightarrow> look \<times> http_state" where
  "http_look env ctx tgt st s =
     (if \<not> truthy (dget ''precheck'' st) then (Passed_over, s)
      else case dget ''precheck'' st of
        JObj pc \<Rightarrow>
          (case dget_or ''method'' (JStr ''GET'') pc of
             JStr pm \<Rightarrow>
               (if \<not> truthy (dget ''skip_if'' pc) then (Passed_over, s)
                else case interpolate (v_seq env) ctx (dget_or ''path'' (JStr []) pc) of
                  Inl e \<Rightarrow> (Look_raises e, s)
                | Inr (Inl _) \<Rightarrow> (Passed_over, s)
                | Inr (Inr path) \<Rightarrow>
                    (if py_upper pm \<noteq> ''GET'' then (Passed_over, s)
                     else http_ask env tgt pc (dget_or ''name'' (step_cred st) pc) (py_upper pm) path s))
           | _ \<Rightarrow> (Look_raises (AttributeError ''object has no attribute upper''), s))
      | _ \<Rightarrow> (Look_raises (AttributeError ''object has no attribute get''), s))"

text \<open>The loop of both verifiers: a step lands in one of the two lists.\<close>

fun look_all :: "(dict \<Rightarrow> 's \<Rightarrow> look \<times> 's) \<Rightarrow> jval list \<Rightarrow> jval list \<Rightarrow> jval list \<Rightarrow> 's
    \<Rightarrow> (jval list \<times> jval list) res \<times> 's" where
  "look_all f [] drifted skipped s = (Inr (drifted, skipped), s)"
| "look_all f (JObj st # steps) drifted skipped s =
     (let i = dget_or ''id'' (JStr ''unknown'') st in
      case f st s of
        (Differs, s') \<Rightarrow> look_all f steps (drifted @ [i]) skipped s'
      | (Passed_over, s') \<Rightarrow> look_all f steps drifted (skipped @ [i]) s'
      | (Look_raises e, s') \<Rightarrow> (Inl e, s'))"
| "look_all f (_ # steps) drifted skipped s = (Inl (AttributeError ''object has no attribute get''), s)"

definition evaluated :: "jval list \<Rightarrow> jval list \<Rightarrow> jval list \<Rightarrow> bool" where
  "evaluated drifted skipped steps = (0 < length drifted \<or> length skipped < length steps)"

definition sequence_result :: "jval list \<Rightarrow> jval list \<Rightarrow> jval list \<Rightarrow> verify_result" where
  "sequence_result drifted skipped steps =
     (let log = take 2000 (''drifted_steps='' @ py_repr (JList drifted) @ '', skipped_steps='' @ py_repr (JList skipped));
          lists = [(''drifted_steps'', JList drifted), (''skipped_steps'', JList skipped)] in
      if drifted = [] \<and> \<not> evaluated drifted skipped steps
      then \<lparr>vr_state = UNKNOWN, vr_log = log, vr_details = (''reason'', JStr ''nothing_evaluated'') # lists\<rparr>
      else \<lparr>vr_state = (if drifted \<noteq> [] then DRIFTED else IN_SPEC), vr_log = log, vr_details = lists\<rparr>)"

text \<open>The target of a cluster artifact, with a node when one could be found.\<close>

definition verify_target :: "verify_env \<Rightarrow> dict \<Rightarrow> pve_request list \<Rightarrow> dict res \<times> pve_request list" where
  "verify_target env tgt tr =
     (case pve_target (v_pve env) tgt tr of
        (Inl e, tr') \<Rightarrow> (if v_probe_failed env e then Inr tgt else Inl e, tr')
      | r \<Rightarrow> r)"

definition verify_proxmox_api :: "verify_env \<Rightarrow> frontmatter \<Rightarrow> string \<Rightarrow> verify_result vrun" where
  "verify_proxmox_api env fm body w =
     (case extract_steps (v_yaml env) body ''proxmox-api-spec'' of
        Inl e \<Rightarrow> (Inl e, w)
      | Inr None \<Rightarrow> (Inr (not_established ''no proxmox-api-spec found'' ''no_spec''), w)
      | Inr (Some steps) \<Rightarrow>
          (case verify_target env (target_data fm) (vw_pve w) of
             (Inl e, tr) \<Rightarrow> (Inl e, w\<lparr>vw_pve := tr\<rparr>)
           | (Inr tgt, tr) \<Rightarrow>
               (case iter_steps steps of
                  Inl e \<Rightarrow> (Inl e, w\<lparr>vw_pve := tr\<rparr>)
                | Inr sts \<Rightarrow>
                    (case look_all (pve_look env (interpolation_context (x_now (q_ext (v_seq env))) (Some tgt) fm) tgt) sts [] [] tr of
                       (Inl e, tr') \<Rightarrow> (Inl e, w\<lparr>vw_pve := tr'\<rparr>)
                     | (Inr (drifted, skipped), tr') \<Rightarrow> (Inr (sequence_result drifted skipped sts), w\<lparr>vw_pve := tr'\<rparr>)))))"

definition verify_http_sequence :: "verify_env \<Rightarrow> frontmatter \<Rightarrow> string \<Rightarrow> verify_result vrun" where
  "verify_http_sequence env fm body w =
     (case extract_steps (v_yaml env) body ''http-spec'' of
        Inl e \<Rightarrow> (Inl e, w)
      | Inr None \<Rightarrow> (Inr (not_established ''no http-spec found'' ''no_spec''), w)
      | Inr (Some steps) \<Rightarrow>
          (case iter_steps steps of
             Inl e \<Rightarrow> (Inl e, w)
           | Inr sts \<Rightarrow>
               (let tgt = target_data fm in
                case look_all (http_look env (interpolation_context (x_now (q_ext (v_seq env))) (Some tgt) fm) tgt) sts [] []
                       \<lparr>hs_clients = [], hs_trace = vw_http w\<rparr> of
                  (Inl e, s) \<Rightarrow> (Inl e, w\<lparr>vw_http := hs_trace s\<rparr>)
                | (Inr (drifted, skipped), s) \<Rightarrow> (Inr (sequence_result drifted skipped sts), w\<lparr>vw_http := hs_trace s\<rparr>))))"

section \<open>Hosts and guest networks\<close>

definition verify_host_provision :: "verify_env \<Rightarrow> frontmatter \<Rightarrow> string \<Rightarrow> verify_result vrun" where
  "verify_host_provision env fm body w =
     (case parse_host_provision_spec (v_yaml env) body of
        Inl (ValueError m) \<Rightarrow> (Inr (not_established (''no valid host-provision-spec: '' @ m) ''no_spec''), w)
      | Inl e \<Rightarrow> (Inl e, w)
      | Inr spec \<Rightarrow>
          (let host = resolve_host (target_data fm) in
           if host = [] then (Inr (not_established ''no target host resolved'' ''no_host''), w)
           else if \<not> hostname_re host then (Inr (not_established (''invalid hostname: '' @ repr_str host) ''invalid_host''), w)
           else case pve_guard host (v_pve_nodes env) of
             Some forbidden \<Rightarrow> (Inr (not_established forbidden ''forbidden_host''), w)
           | None \<Rightarrow>
               (case check_drift (v_agent env) host spec (vw_host w) of
                  (Inl e, tr) \<Rightarrow> (Inl e, w\<lparr>vw_host := tr\<rparr>)
                | (Inr (drifted, unknown, log), tr) \<Rightarrow>
                    (Inr \<lparr>vr_state = (if drifted \<noteq> [] then DRIFTED else if unknown \<noteq> [] then UNKNOWN else IN_SPEC),
                          vr_log = take 2000 (if log \<noteq> [] then log else ''all items in desired state''),
                          vr_details = [(''drifted_items'', JList (map JStr drifted)), (''unknown_items'', JList (map JStr unknown))]\<rparr>,
                     w\<lparr>vw_host := tr\<rparr>))))"

text \<open>The desired network of the instance; a combination that cannot work counts as none.\<close>

definition network_defaults :: "verify_env \<Rightarrow> desired_network option res" where
  "network_defaults env = (case v_defaults env of Inl (ValueError _) \<Rightarrow> Inr None | r \<Rightarrow> r)"

definition network_verdict :: "gn_plan \<Rightarrow> verify_result" where
  "network_verdict p =
     (if converged p
      then \<lparr>vr_state = IN_SPEC, vr_log = ''the cluster matches the desired guest network'',
            vr_details = [(''steps'', JList []), (''blockers'', JList [])]\<rparr>
      else \<lparr>vr_state = DRIFTED, vr_log = take 2000 (join ''; '' (map st_description (pl_steps p) @ pl_blockers p)),
            vr_details = [(''steps'', JList (map (\<lambda>s. JStr (st_id s)) (pl_steps p))), (''blockers'', JList (map JStr (pl_blockers p)))]\<rparr>)"

definition verify_guest_network :: "verify_env \<Rightarrow> frontmatter \<Rightarrow> string \<Rightarrow> verify_result res" where
  "verify_guest_network env fm body =
     (case v_gateway env of
        None \<Rightarrow> Inr (not_established ''no Proxmox client: the guest network could not be checked'' ''no_proxmox'')
      | Some gw \<Rightarrow>
          bind_res (network_defaults env) (\<lambda>defaults.
            case parse_guest_network_spec (v_yaml env) body defaults of
              Inl (ValueError m) \<Rightarrow> Inr (not_established (''no usable guest-network-spec: '' @ m) ''no_spec'')
            | Inl e \<Rightarrow> Inl e
            | Inr desired \<Rightarrow>
                (let current = survey gw desired (str_or_empty (dget ''node'' (target_data fm))) in
                 if sv_errors current \<noteq> [] \<and> sv_zones current = [] \<and> sv_vnets current = []
                 then Inr \<lparr>vr_state = UNKNOWN, vr_log = take 2000 (join ''; '' (sv_errors current)),
                           vr_details = [(''reason'', JStr ''nothing_read''), (''errors'', JList (map JStr (sv_errors current)))]\<rparr>
                 else bind_res (plan desired current) (\<lambda>p. Inr (network_verdict p)))))"

section \<open>Composites\<close>

record sub_lists =
  sl_drifted :: "jval list"
  sl_skipped :: "jval list"
  sl_unknown :: "jval list"

fun verify_subs :: "verify_env \<Rightarrow> (jval \<Rightarrow> verify_result vrun) \<Rightarrow> jval list \<Rightarrow> sub_lists \<Rightarrow> sub_lists vrun" where
  "verify_subs env sub [] l w = (Inr l, w)"
| "verify_subs env sub (JObj st # steps) l w =
     (let a = dget_or ''artifact'' (JStr []) st in
      if \<not> truthy a then verify_subs env sub steps (l\<lparr>sl_skipped := sl_skipped l @ [dget_or ''id'' (JStr ''unknown'') st]\<rparr>) w
      else case sub a w of
        (Inl e, w') \<Rightarrow>
          (if not_found e \<or> v_probe_failed env e
           then verify_subs env sub steps (l\<lparr>sl_skipped := sl_skipped l @ [a]\<rparr>) w' else (Inl e, w'))
      | (Inr r, w') \<Rightarrow>
          (case vr_state r of
             DRIFTED \<Rightarrow> verify_subs env sub steps (l\<lparr>sl_drifted := sl_drifted l @ [a]\<rparr>) w'
           | UNKNOWN \<Rightarrow> verify_subs env sub steps (l\<lparr>sl_unknown := sl_unknown l @ [a]\<rparr>) w'
           | IN_SPEC \<Rightarrow> verify_subs env sub steps l w'))"
| "verify_subs env sub (_ # steps) l w = (Inl (AttributeError ''object has no attribute get''), w)"

definition composite_verdict :: "sub_lists \<Rightarrow> verify_result" where
  "composite_verdict l =
     \<lparr>vr_state = (if sl_drifted l \<noteq> [] then DRIFTED else if sl_unknown l \<noteq> [] \<or> sl_skipped l \<noteq> [] then UNKNOWN else IN_SPEC),
      vr_log = take 2000 (''drifted_subs='' @ py_repr (JList (sl_drifted l)) @ '', unknown_subs='' @ py_repr (JList (sl_unknown l))
        @ '', skipped_subs='' @ py_repr (JList (sl_skipped l))),
      vr_details = [(''drifted_subs'', JList (sl_drifted l)), (''unknown_subs'', JList (sl_unknown l)), (''skipped_subs'', JList (sl_skipped l))]\<rparr>"

definition verify_composite :: "verify_env \<Rightarrow> (jval \<Rightarrow> verify_result vrun) \<Rightarrow> string \<Rightarrow> verify_result vrun" where
  "verify_composite env sub body w =
     (case extract_composite_steps (v_yaml env) body of
        Inl e \<Rightarrow> (Inl e, w)
      | Inr steps \<Rightarrow>
          (if \<not> truthy steps then (Inr (not_established ''no composite-spec found'' ''no_spec''), w)
           else case iter_steps steps of
             Inl e \<Rightarrow> (Inl e, w)
           | Inr sts \<Rightarrow>
               (case verify_subs env sub sts \<lparr>sl_drifted = [], sl_skipped = [], sl_unknown = []\<rparr> w of
                  (Inl e, w') \<Rightarrow> (Inl e, w')
                | (Inr l, w') \<Rightarrow> (Inr (composite_verdict l), w'))))"

section \<open>The verifier\<close>

text \<open>The \<open>try\<close> over the kinds.\<close>

definition verify_kind :: "verify_env \<Rightarrow> (jval \<Rightarrow> verify_result vrun) \<Rightarrow> artifact_kind \<Rightarrow> stored \<Rightarrow> verify_result vrun" where
  "verify_kind env sub k d w =
     (case k of
        ANSIBLE_PLAYBOOK \<Rightarrow> (Inr (verify_ansible env (sd_fm d) (sd_body d)), w)
      | PROXMOX_API_SEQUENCE \<Rightarrow> verify_proxmox_api env (sd_fm d) (sd_body d) w
      | HTTP_SEQUENCE \<Rightarrow> verify_http_sequence env (sd_fm d) (sd_body d) w
      | COMPOSITE \<Rightarrow> verify_composite env sub (sd_body d) w
      | SHELL_SCRIPT \<Rightarrow> (Inr (not_established ''shell-script: unverifiable'' ''shell_script_unverifiable''), w)
      | HOST_PROVISION \<Rightarrow> verify_host_provision env (sd_fm d) (sd_body d) w
      | GUEST_NETWORK \<Rightarrow> (verify_guest_network env (sd_fm d) (sd_body d), w)
      | KB_NOTE \<Rightarrow> (Inr (not_established ''unhandled kind: kb-note'' ''unknown_kind''), w))"

definition check_failed :: "exn \<Rightarrow> verify_result" where
  "check_failed e = \<lparr>vr_state = UNKNOWN, vr_log = take 2000 (''the drift check itself failed: '' @ exn_str e),
     vr_details = [(''reason'', JStr ''check_failed''), (''error'', JStr (take 500 (exn_str e)))]\<rparr>"

definition status_of_value :: "string \<Rightarrow> artifact_status option" where
  "status_of_value s =
     find (\<lambda>st. status_value st = s) [PROPOSED, APPROVED, REJECTED, APPLIED, FAILED, SUPERSEDED, REVOKED]"

definition verify_stored :: "verify_env \<Rightarrow> (jval \<Rightarrow> verify_result vrun) \<Rightarrow> stored \<Rightarrow> verify_result vrun" where
  "verify_stored env sub d w =
     (case kind_of_value (sd_kind d) of
        None \<Rightarrow> (Inr (not_established (''unknown kind: '' @ sd_kind d) ''unknown_kind''), w)
      | Some k \<Rightarrow>
          (case status_of_value (sd_status d) of
             None \<Rightarrow> (Inr (not_established (''unknown status: '' @ sd_status d) ''unknown_status''), w)
           | Some st \<Rightarrow>
               (if st \<noteq> APPLIED then (Inr (not_established (''not applied (status='' @ sd_status d @ '')'') ''not_applied''), w)
                else if k = KB_NOTE then (Inr (not_established ''kb-note: unverifiable, skipped'' ''kb_note_skipped''), w)
                else if \<not> v_executor env then (Inr (not_established ''no executor available'' ''no_executor''), w)
                else case verify_kind env sub k d w of
                  (Inl e, w') \<Rightarrow> (if not_found e then Inl e else Inr (check_failed e), w')
                | (Inr r, w') \<Rightarrow> (Inr r, w'))))"

fun verify_at :: "verify_env \<Rightarrow> nat \<Rightarrow> jval \<Rightarrow> verify_result vrun" where
  "verify_at env 0 i w = (Inr (not_established ''max recursion depth exceeded'' ''max_depth''), w)"
| "verify_at env (Suc n) i w =
     (case v_read env i of
        Inl e \<Rightarrow> (Inl e, w)
      | Inr d \<Rightarrow> verify_stored env (verify_at env n) d w)"

definition max_verify_depth :: nat where
  "max_verify_depth = 10"

definition verify_artifact :: "verify_env \<Rightarrow> string \<Rightarrow> verify_result vrun" where
  "verify_artifact env i = verify_at env (Suc max_verify_depth) (JStr i)"

end
