(* ===== verification/Host_Effects.thy ===== *)
theory Host_Effects
  imports Host_Provision
begin

text \<open>
  What host-provision promises of a host: the apply brings it to the spec, the rollback brings it back.

  The host is files, services and packages.  \<open>behaves\<close> says of the agent what \<^verbatim>\<open>agent/go/provision.go\<close> and
  \<^verbatim>\<open>agent/go/fileops.go\<close> do: a verb it accepts has its effect, one it refuses has none, and the queries answer
  what is there.
\<close>

section \<open>A host\<close>

record host_state =
  h_files :: "string \<Rightarrow> (string \<times> string) option"
  h_active :: "string \<Rightarrow> bool"
  h_enabled :: "string \<Rightarrow> bool"
  h_packages :: "string set"

definition runs_after :: "string \<Rightarrow> bool option" where
  "runs_after w = (if w = ''started'' \<or> w = ''restarted'' then Some True else if w = ''stopped'' then Some False else None)"

definition boots_after :: "string \<Rightarrow> bool option" where
  "boots_after w = (if w = ''enabled'' then Some True else if w = ''disabled'' then Some False else None)"

fun effect :: "agent_call \<Rightarrow> host_state \<Rightarrow> host_state" where
  "effect (Install_package n) h = h\<lparr>h_packages := insert n (h_packages h)\<rparr>"
| "effect (Manage_service n w) h =
     h\<lparr>h_active := (case runs_after w of None \<Rightarrow> h_active h | Some b \<Rightarrow> (h_active h)(n := b)),
       h_enabled := (case boots_after w of None \<Rightarrow> h_enabled h | Some b \<Rightarrow> (h_enabled h)(n := b))\<rparr>"
| "effect (Write_config p c m) h = h\<lparr>h_files := (h_files h)(p \<mapsto> (c, m))\<rparr>"
| "effect _ h = h"

text \<open>The host after a run of calls: only a call the agent accepted has its effect.\<close>

fun reads_only :: "agent_call \<Rightarrow> bool" where
  "reads_only (Exec_readonly _) = True"
| "reads_only (Read_file _) = True"
| "reads_only _ = False"

fun host_from :: "hp_agent \<Rightarrow> host_state \<Rightarrow> hp_trace \<Rightarrow> hp_trace \<Rightarrow> host_state" where
  "host_from ag h before [] = h"
| "host_from ag h before ((host, c) # tr) =
     host_from ag (case hpa_do ag host c before of Inl _ \<Rightarrow> h | Inr _ \<Rightarrow> effect c h) (before @ [(host, c)]) tr"

definition host_after :: "hp_agent \<Rightarrow> host_state \<Rightarrow> hp_trace \<Rightarrow> host_state" where
  "host_after ag h tr = host_from ag h [] tr"

lemma host_from_append: "host_from ag h bef (tr @ tr') = host_from ag (host_from ag h bef tr) (bef @ tr) tr'"
  by (induction tr arbitrary: h bef) auto

lemma host_after_Nil [simp]: "host_after ag h [] = h"
  by (simp add: host_after_def)

lemma host_after_snoc:
  "host_after ag h (tr @ [(host, c)]) =
     (case hpa_do ag host c tr of Inl _ \<Rightarrow> host_after ag h tr | Inr _ \<Rightarrow> effect c (host_after ag h tr))"
  by (simp add: host_after_def host_from_append split: sum.splits)

lemma host_after_read [simp]: "reads_only c \<Longrightarrow> host_after ag h (tr @ [(host, c)]) = host_after ag h tr"
  by (cases c) (auto simp: host_after_snoc split: sum.splits)

definition says_active :: "host_state \<Rightarrow> string \<Rightarrow> string" where
  "says_active h n = (if h_active h n then ''active'' else ''inactive'')"

definition says_enabled :: "host_state \<Rightarrow> string \<Rightarrow> string" where
  "says_enabled h n = (if h_enabled h n then ''enabled'' else ''disabled'')"

definition bare_mode :: "string \<Rightarrow> bool" where
  "bare_mode s = (s \<noteq> [] \<and> py_strip s = s)"

text \<open>The modes on the host are words without spaces, as \<open>stat -c %a\<close> prints them.\<close>

definition plain_modes :: "host_state \<Rightarrow> bool" where
  "plain_modes h = (\<forall>p c m. h_files h p = Some (c, m) \<longrightarrow> bare_mode m)"

definition agent_says :: "hp_agent \<Rightarrow> string \<Rightarrow> host_state \<Rightarrow> hp_trace \<Rightarrow> string \<Rightarrow> bool" where
  "agent_says ag host h tr n =
     ((\<exists>rc err. hpa_exec ag host (active_query n) tr = Inr (rc, says_active h n @ [nl], err))
      \<and> (\<exists>rc err. hpa_exec ag host (enabled_query n) tr = Inr (rc, says_enabled h n @ [nl], err))
      \<and> (\<exists>rc out err. hpa_exec ag host (dpkg_query n) tr = Inr (rc, out, err)
           \<and> (if n \<in> h_packages h then rc = 0 \<and> py_in ''install ok installed'' out
              else rc \<noteq> 0 \<and> py_in ''not installed'' (py_lower (out @ err))))
      \<and> (case h_files h n of
           None \<Rightarrow> (\<exists>e. hpa_read ag host n tr = Inl e \<and> read_says_absent e)
         | Some (c, m) \<Rightarrow> hpa_read ag host n tr = Inr c
             \<and> (\<exists>err. hpa_exec ag host (mode_query n) tr = Inr (0, m @ [nl], err))))"

definition behaves :: "hp_agent \<Rightarrow> string \<Rightarrow> host_state \<Rightarrow> bool" where
  "behaves ag host h0 = (\<forall>tr n. agent_says ag host (host_after ag h0 tr) tr n)"

lemma behaves_answers: "behaves ag host h0 \<Longrightarrow> host_after ag h0 tr = h \<Longrightarrow> agent_says ag host h tr n"
  by (auto simp: behaves_def)

lemma answers_active: "agent_says ag host h tr n \<Longrightarrow> \<exists>rc err. hpa_exec ag host (active_query n) tr = Inr (rc, says_active h n @ [nl], err)"
  by (simp add: agent_says_def)

lemma answers_enabled: "agent_says ag host h tr n \<Longrightarrow> \<exists>rc err. hpa_exec ag host (enabled_query n) tr = Inr (rc, says_enabled h n @ [nl], err)"
  by (simp add: agent_says_def)

lemma answers_dpkg: "agent_says ag host h tr n \<Longrightarrow> \<exists>rc out err. hpa_exec ag host (dpkg_query n) tr = Inr (rc, out, err)
          \<and> (if n \<in> h_packages h then rc = 0 \<and> py_in ''install ok installed'' out
             else rc \<noteq> 0 \<and> py_in ''not installed'' (py_lower (out @ err)))"
  unfolding agent_says_def by (elim conjE) assumption

lemma answers_absent: "agent_says ag host h tr n \<Longrightarrow> h_files h n = None
    \<Longrightarrow> \<exists>e. hpa_read ag host n tr = Inl e \<and> read_says_absent e"
  by (simp add: agent_says_def)

lemma answers_file: "agent_says ag host h tr n \<Longrightarrow> h_files h n = Some (c, m)
    \<Longrightarrow> hpa_read ag host n tr = Inr c \<and> (\<exists>err. hpa_exec ag host (mode_query n) tr = Inr (0, m @ [nl], err))"
  by (simp add: agent_says_def)

section \<open>Looking changes nothing\<close>

lemma hp_traverse_steady:
  assumes "\<And>x tr. x \<in> set xs \<Longrightarrow> I tr \<Longrightarrow> \<exists>tr'. m x tr = (Inr (f x), tr') \<and> I tr'"
  shows "I tr \<Longrightarrow> \<exists>tr'. hp_traverse m xs tr = (Inr (map f xs), tr') \<and> I tr'"
  using assms
proof (induction xs arbitrary: tr)
  case Nil
  then show ?case by (simp add: hp_ret_def)
next
  case (Cons x xs)
  obtain tr1 where 1: "m x tr = (Inr (f x), tr1)" "I tr1" using Cons.prems by fastforce
  obtain tr2 where 2: "hp_traverse m xs tr1 = (Inr (map f xs), tr2)" "I tr2"
    using Cons.IH [OF 1(2)] Cons.prems(2) by fastforce
  show ?case using 1 2 by (simp add: hp_bind_def hp_ret_def)
qed

lemma py_strip_answer [simp]:
  "py_strip (says_active h n @ [nl]) = says_active h n" "py_strip (says_enabled h n @ [nl]) = says_enabled h n"
  by (simp_all add: says_active_def says_enabled_def py_strip_def py_lstrip_def py_rstrip_def py_isspace_def)

lemma package_installed_answer:
  assumes "behaves ag host h0" "host_after ag h0 tr = h"
  shows "\<exists>tr'. package_installed ag host n tr = (Inr (Some (n \<in> h_packages h)), tr') \<and> host_after ag h0 tr' = h"
proof -
  obtain rc out err where a: "hpa_exec ag host (dpkg_query n) tr = Inr (rc, out, err)"
    "if n \<in> h_packages h then rc = 0 \<and> py_in ''install ok installed'' out
     else rc \<noteq> 0 \<and> py_in ''not installed'' (py_lower (out @ err))"
    using answers_dpkg [OF behaves_answers [OF assms], of n] by (elim exE conjE) (rule that)
  show ?thesis using a assms(2)
    by (cases "n \<in> h_packages h") (simp_all add: package_installed_def hp_bind_def exec_readonly_def hp_ret_def)
qed

lemma queries_steady:
  assumes "behaves ag host h0" "host_after ag h0 tr = h"
  shows "\<exists>rc err tr'. exec_readonly ag host (active_query n) tr = (Inr (rc, says_active h n @ [nl], err), tr') \<and> host_after ag h0 tr' = h"
    and "\<exists>rc err tr'. exec_readonly ag host (enabled_query n) tr = (Inr (rc, says_enabled h n @ [nl], err), tr') \<and> host_after ag h0 tr' = h"
  using answers_active [OF behaves_answers [OF assms], of n] answers_enabled [OF behaves_answers [OF assms], of n] assms(2)
  by (auto simp: exec_readonly_def)

text \<open>What is captured of a host.\<close>

definition package_entry :: "host_state \<Rightarrow> string \<Rightarrow> dict" where
  "package_entry h n = [(''kind'', JStr ''package''), (''name'', JStr n), (''was_installed'', JBool (n \<in> h_packages h))]"

definition service_entry :: "host_state \<Rightarrow> hp_service \<Rightarrow> dict" where
  "service_entry h s =
     [(''kind'', JStr ''service''), (''name'', JStr (svc_name s)), (''desired'', JStr (state_value (svc_state s))),
      (''was_active'', JStr (says_active h (svc_name s))), (''was_enabled'', JStr (says_enabled h (svc_name s)))]"

definition config_entry :: "host_state \<Rightarrow> hp_config_file \<Rightarrow> dict" where
  "config_entry h c =
     (case h_files h (cf_path c) of
        None \<Rightarrow> [(''kind'', JStr ''config''), (''name'', JStr (cf_path c)), (''prior_content'', JNull), (''prior_mode'', JNull),
                  (''existed'', JBool False)]
      | Some (content, m) \<Rightarrow> [(''kind'', JStr ''config''), (''name'', JStr (cf_path c)), (''prior_content'', JStr content),
                  (''existed'', JBool True), (''prior_mode'', JStr (py_strip m))])"

lemma space_nl: "py_isspace nl"
  by (simp add: py_isspace_def)

lemma py_strip_nl: "py_strip (m @ [nl]) = py_strip m"
proof (cases "\<forall>c\<in>set m. py_isspace c")
  case True
  then have "\<forall>c\<in>set (m @ [nl]). py_isspace c" by (simp add: space_nl)
  with True have d: "dropWhile py_isspace m = []" "dropWhile py_isspace (m @ [nl]) = []"
    unfolding dropWhile_eq_Nil_conv by blast+
  show ?thesis unfolding py_strip_def py_lstrip_def d ..
next
  case False
  then have "py_lstrip (m @ [nl]) = py_lstrip m @ [nl]" by (auto simp: py_lstrip_def dropWhile_append1)
  then show ?thesis by (simp add: py_strip_def py_rstrip_append_space space_nl)
qed

lemma captures:
  assumes b: "behaves ag host h0" and h: "host_after ag h0 tr = h"
  shows "\<exists>tr'. capture_package ag host n tr = (Inr (package_entry h n), tr') \<and> host_after ag h0 tr' = h"
    and "\<exists>tr'. capture_service ag host s tr = (Inr (service_entry h s), tr') \<and> host_after ag h0 tr' = h"
    and "\<exists>tr'. capture_config ag host c tr = (Inr (config_entry h c), tr') \<and> host_after ag h0 tr' = h"
proof -
  show "\<exists>tr'. capture_package ag host n tr = (Inr (package_entry h n), tr') \<and> host_after ag h0 tr' = h"
    using package_installed_answer [OF b h, of n]
    by (auto simp: capture_package_def hp_bind_def hp_ret_def package_entry_def tri_def)
  obtain rc err tr1 where 1: "exec_readonly ag host (active_query (svc_name s)) tr = (Inr (rc, says_active h (svc_name s) @ [nl], err), tr1)"
    "host_after ag h0 tr1 = h" using queries_steady(1) [OF b h, of "svc_name s"] by (elim exE conjE) (rule that)
  obtain rc' err' tr2 where 2: "exec_readonly ag host (enabled_query (svc_name s)) tr1 = (Inr (rc', says_enabled h (svc_name s) @ [nl], err'), tr2)"
    "host_after ag h0 tr2 = h" using queries_steady(2) [OF b 1(2), of "svc_name s"] by (elim exE conjE) (rule that)
  show "\<exists>tr'. capture_service ag host s tr = (Inr (service_entry h s), tr') \<and> host_after ag h0 tr' = h"
    using 1 2 by (simp add: capture_service_def hp_bind_def hp_ret_def service_entry_def)
  let ?p = "cf_path c" let ?tr = "tr @ [(host, Read_file (cf_path c))]"
  have r: "host_after ag h0 ?tr = h" using h by simp
  show "\<exists>tr'. capture_config ag host c tr = (Inr (config_entry h c), tr') \<and> host_after ag h0 tr' = h"
  proof (cases "h_files h ?p")
    case None
    then obtain e where "hpa_read ag host ?p tr = Inl e" "read_says_absent e"
      using answers_absent [OF behaves_answers [OF b h]] by blast
    then show ?thesis using None r
      by (simp add: capture_config_def hp_bind_def try_read_def config_unread_def hp_ret_def config_entry_def)
  next
    case (Some cm)
    obtain content m where cm: "cm = (content, m)" by (cases cm)
    have f: "h_files h ?p = Some (content, m)" using Some cm by simp
    obtain err where "hpa_exec ag host (mode_query ?p) ?tr = Inr (0, m @ [nl], err)"
      using answers_file [OF behaves_answers [OF b r] f] by blast
    moreover have "hpa_read ag host ?p tr = Inr content" using answers_file [OF behaves_answers [OF b h] f] by blast
    moreover have "host_after ag h0 (?tr @ [(host, Exec_readonly (mode_query ?p))]) = h" using r by (subst host_after_read) simp_all
    ultimately show ?thesis using f
      by (simp add: capture_config_def hp_bind_def try_read_def exec_readonly_def config_entry_def py_strip_nl)
  qed
qed

definition capture_of :: "host_state \<Rightarrow> hp_spec \<Rightarrow> dict list" where
  "capture_of h spec =
     map (package_entry h) (hps_packages spec) @ map (service_entry h) (hps_services spec)
     @ map (config_entry h) (hps_config_files spec)"

lemma hp_three:
  assumes "\<exists>tr'. m1 tr = (Inr a, tr') \<and> I tr'" "\<And>tr. I tr \<Longrightarrow> \<exists>tr'. m2 tr = (Inr b, tr') \<and> I tr'"
    "\<And>tr. I tr \<Longrightarrow> \<exists>tr'. m3 tr = (Inr c, tr') \<and> I tr'"
  shows "\<exists>tr'. hp_bind m1 (\<lambda>x. hp_bind m2 (\<lambda>y. hp_bind m3 (\<lambda>z. hp_ret (x @ y @ z)))) tr = (Inr (a @ b @ c), tr') \<and> I tr'"
proof -
  obtain tr1 where 1: "m1 tr = (Inr a, tr1)" "I tr1" using assms(1) by blast
  obtain tr2 where 2: "m2 tr1 = (Inr b, tr2)" "I tr2" using assms(2) [OF 1(2)] by blast
  obtain tr3 where 3: "m3 tr2 = (Inr c, tr3)" "I tr3" using assms(3) [OF 2(2)] by blast
  show ?thesis using 1 2 3 by (simp add: hp_bind_def hp_ret_def)
qed

lemma capture_pre_state_of:
  assumes "behaves ag host h0" "host_after ag h0 tr = h"
  shows "\<exists>tr'. capture_pre_state ag host spec tr = (Inr (capture_of h spec), tr') \<and> host_after ag h0 tr' = h"
  unfolding capture_pre_state_def capture_of_def
  by (rule hp_three [where I = "\<lambda>tr. host_after ag h0 tr = h"]; rule hp_traverse_steady [where I = "\<lambda>tr. host_after ag h0 tr = h"])
     (simp_all add: captures [OF assms(1)] assms(2))

section \<open>What the verbs add up to\<close>

abbreviation all_effects :: "agent_call list \<Rightarrow> host_state \<Rightarrow> host_state" where
  "all_effects cs h \<equiv> fold effect cs h"

lemma files_after:
  "(\<forall>c m. Write_config p c m \<in> set cs \<longrightarrow> Some (c, m) = v) \<Longrightarrow> h_files h p = v \<or> (\<exists>c m. Write_config p c m \<in> set cs)
    \<Longrightarrow> h_files (all_effects cs h) p = v"
proof (induction cs arbitrary: h)
  case (Cons c cs)
  show ?case
  proof (cases "\<exists>x m. c = Write_config p x m")
    case True
    then show ?thesis using Cons.prems(1) by (auto intro!: Cons.IH)
  next
    case False
    then have "h_files (effect c h) p = h_files h p" by (cases c) auto
    then show ?thesis using Cons.prems False by (auto intro!: Cons.IH)
  qed
qed simp

lemma active_after:
  "(\<forall>w b. Manage_service n w \<in> set cs \<and> runs_after w = Some b \<longrightarrow> b = v)
    \<Longrightarrow> h_active h n = v \<or> (\<exists>w b. Manage_service n w \<in> set cs \<and> runs_after w = Some b) \<Longrightarrow> h_active (all_effects cs h) n = v"
proof (induction cs arbitrary: h)
  case (Cons c cs)
  show ?case
  proof (cases "\<exists>w b. c = Manage_service n w \<and> runs_after w = Some b")
    case True
    then obtain w b where w: "c = Manage_service n w" "runs_after w = Some b" by blast
    then have "b = v" using Cons.prems(1) by auto
    then have "h_active (effect c h) n = v" using w by simp
    then show ?thesis using Cons.IH [of "effect c h"] Cons.prems(1) unfolding list.set fold_simps by blast
  next
    case False
    then have "h_active (effect c h) n = h_active h n" by (cases c) (auto split: option.splits)
    then show ?thesis using Cons.prems False by (auto intro!: Cons.IH)
  qed
qed simp

lemma enabled_after:
  "(\<forall>w b. Manage_service n w \<in> set cs \<and> boots_after w = Some b \<longrightarrow> b = v)
    \<Longrightarrow> h_enabled h n = v \<or> (\<exists>w b. Manage_service n w \<in> set cs \<and> boots_after w = Some b) \<Longrightarrow> h_enabled (all_effects cs h) n = v"
proof (induction cs arbitrary: h)
  case (Cons c cs)
  show ?case
  proof (cases "\<exists>w b. c = Manage_service n w \<and> boots_after w = Some b")
    case True
    then obtain w b where w: "c = Manage_service n w" "boots_after w = Some b" by blast
    then have "b = v" using Cons.prems(1) by auto
    then have "h_enabled (effect c h) n = v" using w by simp
    then show ?thesis using Cons.IH [of "effect c h"] Cons.prems(1) unfolding list.set fold_simps by blast
  next
    case False
    then have "h_enabled (effect c h) n = h_enabled h n" by (cases c) (auto split: option.splits)
    then show ?thesis using Cons.prems False by (auto intro!: Cons.IH)
  qed
qed simp

lemma packages_after: "h_packages (all_effects cs h) = h_packages h \<union> {n. Install_package n \<in> set cs}"
proof (induction cs arbitrary: h)
  case (Cons c cs)
  then show ?case by (cases c) auto
qed simp

section \<open>The apply\<close>

lemma apply_spec_effects:
  "apply_spec ag host cls log tr = (e, log', tr')
    \<Longrightarrow> \<exists>cs. set cs \<subseteq> set (map fst cls) \<and> host_after ag h0 tr' = all_effects cs (host_after ag h0 tr)
         \<and> (e = None \<longrightarrow> cs = map fst cls)"
proof (induction cls arbitrary: log tr)
  case Nil
  then show ?case by simp
next
  case (Cons cl cls)
  obtain c line where cl: "cl = (c, line)" by (cases cl)
  show ?case
  proof (cases "hpa_do ag host c tr")
    case (Inl x)
    then have "host_after ag h0 tr' = all_effects [] (host_after ag h0 tr) \<and> e \<noteq> None"
      using Cons.prems by (auto simp: cl change_def host_after_snoc)
    then show ?thesis by (metis empty_subsetI list.set(1))
  next
    case (Inr d)
    then have a: "apply_spec ag host cls (log @ [line d]) (tr @ [(host, c)]) = (e, log', tr')"
      using Cons.prems by (simp add: cl change_def)
    obtain cs where cs: "set cs \<subseteq> set (map fst cls)" "host_after ag h0 tr' = all_effects cs (host_after ag h0 (tr @ [(host, c)]))"
      "e = None \<longrightarrow> cs = map fst cls" using Cons.IH [OF a] by (elim exE conjE) (rule that)
    have "set (c # cs) \<subseteq> set (map fst (cl # cls))" using cs(1) by (auto simp: cl)
    moreover have "host_after ag h0 tr' = all_effects (c # cs) (host_after ag h0 tr)"
      using cs(2) Inr by (simp add: host_after_snoc)
    ultimately show ?thesis using cs(3) cl by (intro exI [of _ "c # cs"]) simp
  qed
qed

lemma hp_execute_applies:
  assumes "hp_execute ag yaml vault duration body tgt pve tr0 = (Inr r, tr1)" "hr_pre_state r = Some v"
  obtains spec0 spec secrets captured tr e log where
    "parse_host_provision_spec yaml body = Inr spec0" "resolve_spec_secrets vault spec0 = Inr (spec, secrets)"
    "resolve_host tgt \<noteq> []" "pve_guard (resolve_host tgt) pve = None"
    "capture_pre_state ag (resolve_host tgt) spec tr0 = (Inr captured, tr)" "v = JList (map JObj captured)"
    "apply_spec ag (resolve_host tgt) (apply_calls spec) [] tr = (e, log, tr1)" "hr_success r = (e = None)"
proof -
  obtain spec0 where p: "parse_host_provision_spec yaml body = Inr spec0"
    using assms by (cases "parse_host_provision_spec yaml body")
      (auto simp: hp_execute_def hp_ret_def hp_refuse_def split: exn.splits)
  have k: "dget ''kind'' tgt \<notin> {JStr ''node'', JStr ''cluster''}" "resolve_host tgt \<noteq> []" "pve_guard (resolve_host tgt) pve = None"
    using assms p by (auto simp: hp_execute_def hp_ret_def hp_refuse_def Let_def split: if_splits option.splits)
  obtain spec secrets where s: "resolve_spec_secrets vault spec0 = Inr (spec, secrets)"
    using assms p k by (cases "resolve_spec_secrets vault spec0")
      (auto simp: hp_execute_def hp_ret_def hp_refuse_def Let_def)
  obtain captured tr where c: "capture_pre_state ag (resolve_host tgt) spec tr0 = (Inr captured, tr)"
    using assms p k s by (cases "capture_pre_state ag (resolve_host tgt) spec tr0")
      (auto simp: hp_execute_def hp_bind_def Let_def split: sum.splits)
  obtain e log tr' where a: "apply_spec ag (resolve_host tgt) (apply_calls spec) [] tr = (e, log, tr')"
    by (cases "apply_spec ag (resolve_host tgt) (apply_calls spec) [] tr") auto
  have "tr' = tr1" "hr_success r = (e = None)" "v = JList (map JObj captured)"
    using assms p k s c a by (auto simp: hp_execute_def hp_bind_def Let_def split: option.splits)
  then show ?thesis using that p k s c a by blast
qed

section \<open>The rollback\<close>

definition undo_calls :: "undo list \<Rightarrow> agent_call list" where
  "undo_calls us = concat (map (\<lambda>u. case u of Undo c _ \<Rightarrow> [c] | _ \<Rightarrow> []) us)"

definition undo_kept :: "undo list \<Rightarrow> string list" where
  "undo_kept us = concat (map (\<lambda>u. case u of Keep k \<Rightarrow> [k] | _ \<Rightarrow> []) us)"

lemma undo_lists [simp]:
  "undo_calls (us @ vs) = undo_calls us @ undo_calls vs" "undo_kept (us @ vs) = undo_kept us @ undo_kept vs"
  "undo_calls [] = []" "undo_kept [] = []"
  "undo_calls (Undo c line # us) = c # undo_calls us" "undo_calls (Note l # us) = undo_calls us" "undo_calls (Keep k # us) = undo_calls us"
  "undo_kept (Undo c line # us) = undo_kept us" "undo_kept (Note l # us) = undo_kept us" "undo_kept (Keep k # us) = k # undo_kept us"
  by (simp_all add: undo_calls_def undo_kept_def)

lemma undo_all_effects:
  "undo_all ag host us log kept tr = (Inr (l, k), tr')
    \<Longrightarrow> host_after ag h0 tr' = all_effects (undo_calls us) (host_after ag h0 tr) \<and> k = kept @ undo_kept us"
proof (induction us arbitrary: log kept tr)
  case Nil
  then show ?case by (simp add: hp_ret_def)
next
  case (Cons u us)
  show ?case
  proof (cases u)
    case (Undo c line)
    then show ?thesis using Cons.prems Cons.IH
      by (cases "hpa_do ag host c tr") (auto simp: hp_bind_def change_def host_after_snoc)
  qed (use Cons.prems Cons.IH in fastforce)+
qed

lemma undo_package:
  "undo_calls (undo_item (package_entry h n)) = []" "undo_kept (undo_item (package_entry h n)) = [] \<longleftrightarrow> n \<in> h_packages h"
  by (simp_all add: undo_item_def package_entry_def dget_def dget_or_def Let_def)

lemma undo_service:
  "undo_calls (undo_item (service_entry h s)) =
     [Manage_service (svc_name s) (if h_active h (svc_name s) then ''started'' else ''stopped''),
      Manage_service (svc_name s) (says_enabled h (svc_name s))]"
  "undo_kept (undo_item (service_entry h s)) = []"
  by (simp_all add: undo_item_def service_entry_def dget_def dget_or_def Let_def service_wanted_def
      says_active_def says_enabled_def str_or_empty_def)

lemma undo_config:
  assumes "plain_modes h"
  shows "undo_calls (undo_item (config_entry h c)) =
      (case h_files h (cf_path c) of None \<Rightarrow> [] | Some (content, m) \<Rightarrow> [Write_config (cf_path c) content m])"
    and "undo_kept (undo_item (config_entry h c)) = [] \<longleftrightarrow> h_files h (cf_path c) \<noteq> None"
proof -
  have "py_strip m = m \<and> m \<noteq> []" if "h_files h (cf_path c) = Some (content, m)" for content m
    using assms that unfolding plain_modes_def bare_mode_def by blast
  then have "\<exists>content m. h_files h (cf_path c) = Some (content, m) \<and> py_strip m = m \<and> m \<noteq> []" if "h_files h (cf_path c) \<noteq> None"
    using that by auto
  then show "undo_calls (undo_item (config_entry h c)) =
      (case h_files h (cf_path c) of None \<Rightarrow> [] | Some (content, m) \<Rightarrow> [Write_config (cf_path c) content m])"
    "undo_kept (undo_item (config_entry h c)) = [] \<longleftrightarrow> h_files h (cf_path c) \<noteq> None"
    by (cases "h_files h (cf_path c)"; auto simp: undo_item_def config_entry_def dget_def dget_or_def Let_def)+
qed

lemma undo_concat:
  "undo_calls (concat uss) = concat (map undo_calls uss)" "undo_kept (concat uss) = [] \<longleftrightarrow> (\<forall>us\<in>set uss. undo_kept us = [])"
  by (induction uss) auto

definition undo_of :: "host_state \<Rightarrow> hp_spec \<Rightarrow> undo list" where
  "undo_of h spec = concat (map undo_item (capture_of h spec))"

lemma undo_of_calls:
  assumes "plain_modes h"
  shows "set (undo_calls (undo_of h spec)) =
    (\<Union>s\<in>set (hps_services spec). {Manage_service (svc_name s) (if h_active h (svc_name s) then ''started'' else ''stopped''),
       Manage_service (svc_name s) (says_enabled h (svc_name s))})
    \<union> {Write_config p c m | p c m. p \<in> cf_path ` set (hps_config_files spec) \<and> h_files h p = Some (c, m)}"
proof -
  have "set (undo_calls (undo_item (config_entry h c))) = {Write_config (cf_path c) x m | x m. h_files h (cf_path c) = Some (x, m)}" for c
    by (cases "h_files h (cf_path c)") (auto simp: undo_config [OF assms])
  then show ?thesis unfolding undo_of_def capture_of_def undo_concat
    by (simp add: undo_package undo_service) blast
qed

lemma undo_of_kept:
  assumes "plain_modes h"
  shows "undo_kept (undo_of h spec) = []
    \<longleftrightarrow> set (hps_packages spec) \<subseteq> h_packages h \<and> cf_path ` set (hps_config_files spec) \<subseteq> dom (h_files h)"
proof -
  have "undo_kept (undo_of h spec) = [] \<longleftrightarrow>
      (\<forall>n\<in>set (hps_packages spec). undo_kept (undo_item (package_entry h n)) = [])
      \<and> (\<forall>s\<in>set (hps_services spec). undo_kept (undo_item (service_entry h s)) = [])
      \<and> (\<forall>c\<in>set (hps_config_files spec). undo_kept (undo_item (config_entry h c)) = [])"
    unfolding undo_of_def capture_of_def undo_concat by (simp add: ball_Un)
  then show ?thesis unfolding undo_package(2) undo_service(2) undo_config(2) [OF assms] subset_iff image_iff dom_def
    by auto
qed

lemma set_apply_calls:
  "set (map fst (apply_calls spec)) = Install_package ` set (hps_packages spec)
     \<union> (\<lambda>s. Manage_service (svc_name s) (state_value (svc_state s))) ` set (hps_services spec)
     \<union> (\<lambda>c. Write_config (cf_path c) (cf_content c) (cf_mode c)) ` set (hps_config_files spec)"
  by (auto simp: apply_calls_def image_iff)

lemma runs_boots [simp]:
  "runs_after ''started'' = Some True" "runs_after ''stopped'' = Some False"
  "boots_after ''started'' = None" "boots_after ''stopped'' = None"
  "runs_after ''enabled'' = None" "runs_after ''disabled'' = None"
  "runs_after (says_enabled h n) = None" "boots_after (says_enabled h n) = Some (h_enabled h n)"
  by (simp_all add: runs_after_def boots_after_def says_enabled_def)

lemma undone:
  assumes m: "plain_modes h" and cs: "set cs \<subseteq> set (map fst (apply_calls spec))"
    and h2: "h2 = all_effects (undo_calls (undo_of h spec)) (all_effects cs h)"
  shows "h_files h \<subseteq>\<^sub>m h_files h2" "h_active h2 = h_active h" "h_enabled h2 = h_enabled h"
    "h_packages h2 = h_packages h \<union> {n. Install_package n \<in> set cs}"
    "p \<notin> cf_path ` set (hps_config_files spec) \<Longrightarrow> h_files h2 p = h_files h p"
proof -
  note calls = undo_of_calls [OF m, of spec]
  have cs': "Install_package n \<in> set cs \<Longrightarrow> n \<in> set (hps_packages spec)"
    "Manage_service n w \<in> set cs \<Longrightarrow> n \<in> svc_name ` set (hps_services spec)"
    "Write_config q c md \<in> set cs \<Longrightarrow> q \<in> cf_path ` set (hps_config_files spec)" for n w q c md
    using cs unfolding set_apply_calls by auto
  show off: "h_files h2 p = h_files h p" if p: "p \<notin> cf_path ` set (hps_config_files spec)" for p
  proof -
    have "h_files (all_effects cs h) p = h_files h p" by (rule files_after) (use cs'(3) p in blast)+
    then show ?thesis unfolding h2 by (intro files_after) (use p in \<open>auto simp: calls\<close>)
  qed
  have "h_files h2 p = Some v" if v: "h_files h p = Some v" for p v
  proof (cases "p \<in> cf_path ` set (hps_config_files spec)")
    case True
    obtain c md where cm: "v = (c, md)" by (cases v)
    have "Write_config p c md \<in> set (undo_calls (undo_of h spec))" unfolding calls using True v cm by blast
    moreover have "\<forall>c md. Write_config p c md \<in> set (undo_calls (undo_of h spec)) \<longrightarrow> Some (c, md) = Some v"
      unfolding calls using v by auto
    ultimately show ?thesis unfolding h2 by (intro files_after) blast+
  qed (simp add: off v)
  then show "h_files h \<subseteq>\<^sub>m h_files h2" by (auto simp: map_le_def)
  show "h_packages h2 = h_packages h \<union> {n. Install_package n \<in> set cs}"
    unfolding h2 packages_after by (auto simp: calls)
  show "h_active h2 = h_active h"
  proof
    fix n
    have in_undo: "runs_after w = Some b \<Longrightarrow> Manage_service n w \<in> set (undo_calls (undo_of h spec)) \<Longrightarrow> b = h_active h n" for w b
      unfolding calls by (auto simp: says_enabled_def split: if_splits)
    show "h_active h2 n = h_active h n"
    proof (cases "n \<in> svc_name ` set (hps_services spec)")
      case True
      then have "Manage_service n (if h_active h n then ''started'' else ''stopped'') \<in> set (undo_calls (undo_of h spec))"
        unfolding calls by auto
      moreover have "runs_after (if h_active h n then ''started'' else ''stopped'') = Some (h_active h n)" by simp
      ultimately show ?thesis unfolding h2 using in_undo by (intro active_after) blast+
    next
      case False
      then have "h_active (all_effects cs h) n = h_active h n" by (intro active_after) (use cs'(2) in blast)+
      then show ?thesis unfolding h2 using in_undo by (intro active_after) blast+
    qed
  qed
  show "h_enabled h2 = h_enabled h"
  proof
    fix n
    have in_undo: "boots_after w = Some b \<Longrightarrow> Manage_service n w \<in> set (undo_calls (undo_of h spec)) \<Longrightarrow> b = h_enabled h n" for w b
      unfolding calls by (auto split: if_splits)
    show "h_enabled h2 n = h_enabled h n"
    proof (cases "n \<in> svc_name ` set (hps_services spec)")
      case True
      then have "Manage_service n (says_enabled h n) \<in> set (undo_calls (undo_of h spec))" unfolding calls by auto
      then show ?thesis unfolding h2 using in_undo runs_boots(8) by (intro enabled_after) blast+
    next
      case False
      then have "h_enabled (all_effects cs h) n = h_enabled h n" by (intro enabled_after) (use cs'(2) in blast)+
      then show ?thesis unfolding h2 using in_undo by (intro enabled_after) blast+
    qed
  qed
qed

lemma hp_rollback_effects:
  assumes "hp_rollback ag tgt captured pve tr1 = (Inr r', tr2)" "resolve_host tgt \<noteq> []" "pve_guard (resolve_host tgt) pve = None"
  shows "host_after ag h0 tr2 = all_effects (undo_calls (concat (map undo_item captured))) (host_after ag h0 tr1)
    \<and> hr_success r' = (captured \<noteq> [] \<and> undo_kept (concat (map undo_item captured)) = [])"
proof (cases "captured = []")
  case True
  then show ?thesis using assms by (auto simp: hp_rollback_def hp_ret_def hp_refuse_def Let_def)
next
  case False
  then obtain log kept where u: "undo_all ag (resolve_host tgt) (concat (map undo_item captured)) [] [] tr1 = (Inr (log, kept), tr2)"
    and r: "hr_success r' = (kept = [])"
    using assms by (auto simp: hp_rollback_def hp_ret_def hp_refuse_def hp_bind_def Let_def split: prod.splits sum.splits if_splits)
  show ?thesis using undo_all_effects [OF u, of h0] r False by simp
qed

lemma resolve_configs_paths:
  "resolve_configs vault cs = Inr (cs', vs) \<Longrightarrow> map cf_path cs' = map cf_path cs"
proof (induction cs arbitrary: cs' vs)
  case (Cons c cs)
  then show ?case by (auto simp: bind_res_def split: sum.splits prod.splits if_splits)
qed simp

section \<open>The spec and the host\<close>

text \<open>Nothing in the spec contradicts another part of it.\<close>

definition agree_on :: "(string \<Rightarrow> bool option) \<Rightarrow> hp_service \<Rightarrow> hp_service \<Rightarrow> bool" where
  "agree_on f s s' =
     (case f (state_value (svc_state s)) of None \<Rightarrow> True
      | Some b \<Rightarrow> (case f (state_value (svc_state s')) of None \<Rightarrow> True | Some b' \<Rightarrow> b = b'))"

definition consistent :: "hp_spec \<Rightarrow> bool" where
  "consistent spec = (distinct (map cf_path (hps_config_files spec))
     \<and> (\<forall>s\<in>set (hps_services spec). \<forall>s'\<in>set (hps_services spec).
          svc_name s = svc_name s' \<longrightarrow> agree_on runs_after s s' \<and> agree_on boots_after s s'))"

definition in_spec :: "host_state \<Rightarrow> hp_spec \<Rightarrow> bool" where
  "in_spec h spec =
     (set (hps_packages spec) \<subseteq> h_packages h
      \<and> (\<forall>s\<in>set (hps_services spec).
           (case runs_after (state_value (svc_state s)) of None \<Rightarrow> True | Some b \<Rightarrow> h_active h (svc_name s) = b)
         \<and> (case boots_after (state_value (svc_state s)) of None \<Rightarrow> True | Some b \<Rightarrow> h_enabled h (svc_name s) = b))
      \<and> (\<forall>c\<in>set (hps_config_files spec). h_files h (cf_path c) = Some (cf_content c, cf_mode c)))"

lemma applied_in_spec:
  assumes "consistent spec"
  shows "in_spec (all_effects (map fst (apply_calls spec)) h) spec"
  unfolding in_spec_def
proof (intro conjI ballI)
  note calls = set_apply_calls [of spec]
  show "set (hps_packages spec) \<subseteq> h_packages (all_effects (map fst (apply_calls spec)) h)"
    unfolding packages_after calls by auto
  fix s assume s: "s \<in> set (hps_services spec)"
  have m: "Manage_service (svc_name s) (state_value (svc_state s)) \<in> set (map fst (apply_calls spec))" unfolding calls using s by blast
  have a: "agree_on runs_after s s'" "agree_on boots_after s s'" if "s' \<in> set (hps_services spec)" "svc_name s = svc_name s'" for s'
    using assms s that by (auto simp: consistent_def)
  show "case runs_after (state_value (svc_state s)) of None \<Rightarrow> True
      | Some b \<Rightarrow> h_active (all_effects (map fst (apply_calls spec)) h) (svc_name s) = b"
  proof (cases "runs_after (state_value (svc_state s))")
    case (Some b)
    have "b' = b" if c: "Manage_service (svc_name s) w \<in> set (map fst (apply_calls spec)) \<and> runs_after w = Some b'" for w b'
    proof -
      obtain s' where s': "s' \<in> set (hps_services spec)" "svc_name s = svc_name s'" "w = state_value (svc_state s')"
        using c unfolding calls by auto
      then show ?thesis using a(1) [OF s'(1,2)] Some c by (simp add: agree_on_def)
    qed
    then have "h_active (all_effects (map fst (apply_calls spec)) h) (svc_name s) = b"
      using m Some by (intro active_after) blast+
    then show ?thesis using Some by simp
  qed simp
  show "case boots_after (state_value (svc_state s)) of None \<Rightarrow> True
      | Some b \<Rightarrow> h_enabled (all_effects (map fst (apply_calls spec)) h) (svc_name s) = b"
  proof (cases "boots_after (state_value (svc_state s))")
    case (Some b)
    have "b' = b" if c: "Manage_service (svc_name s) w \<in> set (map fst (apply_calls spec)) \<and> boots_after w = Some b'" for w b'
    proof -
      obtain s' where s': "s' \<in> set (hps_services spec)" "svc_name s = svc_name s'" "w = state_value (svc_state s')"
        using c unfolding calls by auto
      then show ?thesis using a(2) [OF s'(1,2)] Some c by (simp add: agree_on_def)
    qed
    then have "h_enabled (all_effects (map fst (apply_calls spec)) h) (svc_name s) = b"
      using m Some by (intro enabled_after) blast+
    then show ?thesis using Some by simp
  qed simp
next
  fix c assume c: "c \<in> set (hps_config_files spec)"
  have d: "distinct (map cf_path (hps_config_files spec))" using assms by (simp add: consistent_def)
  have "c' = c" if "c' \<in> set (hps_config_files spec)" "cf_path c' = cf_path c" for c'
    using d c that by (auto simp: distinct_map inj_on_def)
  then have "Write_config (cf_path c) x m \<in> set (map fst (apply_calls spec)) \<Longrightarrow> Some (x, m) = Some (cf_content c, cf_mode c)" for x m
    unfolding set_apply_calls by auto
  moreover have "Write_config (cf_path c) (cf_content c) (cf_mode c) \<in> set (map fst (apply_calls spec))"
    unfolding set_apply_calls using c by blast
  ultimately show "h_files (all_effects (map fst (apply_calls spec)) h) (cf_path c) = Some (cf_content c, cf_mode c)"
    by (intro files_after) blast+
qed

section \<open>Probing\<close>

lemma says_states [simp]:
  "says_active h n = ''active'' \<longleftrightarrow> h_active h n" "says_enabled h n = ''enabled'' \<longleftrightarrow> h_enabled h n"
  "says_enabled h n = ''disabled'' \<longleftrightarrow> \<not> h_enabled h n" "says_active h n \<noteq> []" "says_enabled h n \<noteq> []"
  by (simp_all add: says_active_def says_enabled_def)

text \<open>An item of the probe, as far as drift looks at it.\<close>

definition item_settles :: "hp_item \<Rightarrow> string \<Rightarrow> bool \<Rightarrow> bool" where
  "item_settles item i changes = (hi_established item \<and> hi_id item = i \<and> hi_changes item = changes)"

lemma probes:
  assumes b: "behaves ag host h0" and h: "host_after ag h0 tr = h"
  shows "\<exists>tr' item. probe_package ag host n tr = (Inr item, tr') \<and> host_after ag h0 tr' = h
           \<and> item_settles item (''package:'' @ n) (n \<notin> h_packages h)"
    and "\<exists>tr' item. probe_service ag host s tr = (Inr item, tr') \<and> host_after ag h0 tr' = h
           \<and> item_settles item (''service:'' @ svc_name s)
               (\<not> (case runs_after (state_value (svc_state s)) of None \<Rightarrow> True | Some b \<Rightarrow> h_active h (svc_name s) = b)
                \<or> \<not> (case boots_after (state_value (svc_state s)) of None \<Rightarrow> True | Some b \<Rightarrow> h_enabled h (svc_name s) = b))"
    and "\<exists>tr' item. probe_config ag host c tr = (Inr item, tr') \<and> host_after ag h0 tr' = h
           \<and> item_settles item (''config:'' @ cf_path c) (map_option fst (h_files h (cf_path c)) \<noteq> Some (cf_content c))"
proof -
  show "\<exists>tr' item. probe_package ag host n tr = (Inr item, tr') \<and> host_after ag h0 tr' = h
           \<and> item_settles item (''package:'' @ n) (n \<notin> h_packages h)"
    using package_installed_answer [OF b h, of n]
    by (auto simp: probe_package_def hp_bind_def hp_ret_def item_settles_def)
  obtain rc err tr1 where 1: "exec_readonly ag host (active_query (svc_name s)) tr = (Inr (rc, says_active h (svc_name s) @ [nl], err), tr1)"
    "host_after ag h0 tr1 = h" using queries_steady(1) [OF b h, of "svc_name s"] by (elim exE conjE) (rule that)
  obtain rc' err' tr2 where 2: "exec_readonly ag host (enabled_query (svc_name s)) tr = (Inr (rc', says_enabled h (svc_name s) @ [nl], err'), tr2)"
    "host_after ag h0 tr2 = h" using queries_steady(2) [OF b h, of "svc_name s"] by (elim exE conjE) (rule that)
  show "\<exists>tr' item. probe_service ag host s tr = (Inr item, tr') \<and> host_after ag h0 tr' = h
           \<and> item_settles item (''service:'' @ svc_name s)
               (\<not> (case runs_after (state_value (svc_state s)) of None \<Rightarrow> True | Some b \<Rightarrow> h_active h (svc_name s) = b)
                \<or> \<not> (case boots_after (state_value (svc_state s)) of None \<Rightarrow> True | Some b \<Rightarrow> h_enabled h (svc_name s) = b))"
    using 1 2 by (cases "svc_state s") (simp_all add: probe_service_def hp_bind_def hp_ret_def Let_def item_settles_def runs_after_def boots_after_def)
  have r: "host_after ag h0 (tr @ [(host, Read_file (cf_path c))]) = h" using h by simp
  show "\<exists>tr' item. probe_config ag host c tr = (Inr item, tr') \<and> host_after ag h0 tr' = h
           \<and> item_settles item (''config:'' @ cf_path c) (map_option fst (h_files h (cf_path c)) \<noteq> Some (cf_content c))"
  proof (cases "h_files h (cf_path c)")
    case None
    then obtain e where "hpa_read ag host (cf_path c) tr = Inl e" "read_says_absent e"
      using answers_absent [OF behaves_answers [OF b h]] by blast
    then show ?thesis using None r
      by (simp add: probe_config_def hp_bind_def try_read_def hp_ret_def Let_def item_settles_def)
  next
    case (Some cm)
    then show ?thesis using answers_file [OF behaves_answers [OF b h], of "cf_path c" "fst cm" "snd cm"] r
      by (auto simp: probe_config_def hp_bind_def try_read_def hp_ret_def Let_def item_settles_def)
  qed
qed

text \<open>One after the other, each item with what it settles.\<close>

lemma hp_traverse_settles:
  assumes "\<And>x tr. x \<in> set xs \<Longrightarrow> I tr \<Longrightarrow> \<exists>tr' item. m x tr = (Inr item, tr') \<and> I tr' \<and> item_settles item (i x) (ch x)"
  shows "I tr \<Longrightarrow> \<exists>tr' items. hp_traverse m xs tr = (Inr items, tr') \<and> I tr' \<and> (\<forall>it\<in>set items. hi_established it)
      \<and> map hi_id (filter (\<lambda>it. hi_changes it \<and> hi_established it) items) = map i (filter ch xs)"
  using assms
proof (induction xs arbitrary: tr)
  case Nil
  then show ?case by (simp add: hp_ret_def)
next
  case (Cons x xs)
  obtain tr1 item where 1: "m x tr = (Inr item, tr1)" "I tr1" "item_settles item (i x) (ch x)"
    using Cons.prems(2) [of x tr] Cons.prems(1) by auto
  obtain tr2 items where 2: "hp_traverse m xs tr1 = (Inr items, tr2)" "I tr2" "\<forall>it\<in>set items. hi_established it"
      "map hi_id (filter (\<lambda>it. hi_changes it \<and> hi_established it) items) = map i (filter ch xs)"
    using Cons.IH [OF 1(2)] Cons.prems(2) by (auto simp: conj_assoc)
  show ?case using 1 2 by (simp add: hp_bind_def hp_ret_def item_settles_def)
qed

text \<open>On a host that behaves, what drift reports is what is out of spec.\<close>

definition out_of_spec :: "host_state \<Rightarrow> hp_spec \<Rightarrow> string list" where
  "out_of_spec h spec =
     map (\<lambda>n. ''package:'' @ n) (filter (\<lambda>n. n \<notin> h_packages h) (hps_packages spec))
     @ map (\<lambda>s. ''service:'' @ svc_name s) (filter (\<lambda>s.
         \<not> (case runs_after (state_value (svc_state s)) of None \<Rightarrow> True | Some b \<Rightarrow> h_active h (svc_name s) = b)
         \<or> \<not> (case boots_after (state_value (svc_state s)) of None \<Rightarrow> True | Some b \<Rightarrow> h_enabled h (svc_name s) = b)) (hps_services spec))
     @ map (\<lambda>c. ''config:'' @ cf_path c)
         (filter (\<lambda>c. map_option fst (h_files h (cf_path c)) \<noteq> Some (cf_content c)) (hps_config_files spec))"

lemma check_drift_settles:
  assumes b: "behaves ag host h0" and h: "host_after ag h0 tr = h"
  shows "\<exists>tr' log. check_drift ag host spec tr = (Inr (out_of_spec h spec, [], log), tr') \<and> host_after ag h0 tr' = h"
proof -
  let ?I = "\<lambda>tr. host_after ag h0 tr = h"
  have "\<exists>tr' items. hp_traverse (probe_package ag host) (hps_packages spec) tr = (Inr items, tr') \<and> ?I tr' \<and> (\<forall>it\<in>set items. hi_established it)
      \<and> map hi_id (filter (\<lambda>it. hi_changes it \<and> hi_established it) items) = map (\<lambda>n. ''package:'' @ n) (filter (\<lambda>n. n \<notin> h_packages h) (hps_packages spec))"
    by (rule hp_traverse_settles [where I = ?I, OF _ h]) (rule probes(1) [OF b], assumption)
  then obtain tr1 ps where 1: "hp_traverse (probe_package ag host) (hps_packages spec) tr = (Inr ps, tr1)" "?I tr1" "\<forall>it\<in>set ps. hi_established it"
      "map hi_id (filter (\<lambda>it. hi_changes it \<and> hi_established it) ps) = map (\<lambda>n. ''package:'' @ n) (filter (\<lambda>n. n \<notin> h_packages h) (hps_packages spec))"
    by (elim exE conjE) (rule that)
  have "\<exists>tr' items. hp_traverse (probe_service ag host) (hps_services spec) tr1 = (Inr items, tr') \<and> ?I tr' \<and> (\<forall>it\<in>set items. hi_established it)
      \<and> map hi_id (filter (\<lambda>it. hi_changes it \<and> hi_established it) items) = map (\<lambda>s. ''service:'' @ svc_name s) (filter (\<lambda>s.
         \<not> (case runs_after (state_value (svc_state s)) of None \<Rightarrow> True | Some b \<Rightarrow> h_active h (svc_name s) = b)
         \<or> \<not> (case boots_after (state_value (svc_state s)) of None \<Rightarrow> True | Some b \<Rightarrow> h_enabled h (svc_name s) = b)) (hps_services spec))"
    by (rule hp_traverse_settles [where I = ?I, OF _ 1(2)]) (rule probes(2) [OF b], assumption)
  then obtain tr2 ss where 2: "hp_traverse (probe_service ag host) (hps_services spec) tr1 = (Inr ss, tr2)" "?I tr2" "\<forall>it\<in>set ss. hi_established it"
      "map hi_id (filter (\<lambda>it. hi_changes it \<and> hi_established it) ss) = map (\<lambda>s. ''service:'' @ svc_name s) (filter (\<lambda>s.
         \<not> (case runs_after (state_value (svc_state s)) of None \<Rightarrow> True | Some b \<Rightarrow> h_active h (svc_name s) = b)
         \<or> \<not> (case boots_after (state_value (svc_state s)) of None \<Rightarrow> True | Some b \<Rightarrow> h_enabled h (svc_name s) = b)) (hps_services spec))"
    by (elim exE conjE) (rule that)
  have "\<exists>tr' items. hp_traverse (probe_config ag host) (hps_config_files spec) tr2 = (Inr items, tr') \<and> ?I tr' \<and> (\<forall>it\<in>set items. hi_established it)
      \<and> map hi_id (filter (\<lambda>it. hi_changes it \<and> hi_established it) items) = map (\<lambda>c. ''config:'' @ cf_path c) (filter (\<lambda>c. map_option fst (h_files h (cf_path c)) \<noteq> Some (cf_content c)) (hps_config_files spec))"
    by (rule hp_traverse_settles [where I = ?I, OF _ 2(2)]) (rule probes(3) [OF b], assumption)
  then obtain tr3 cs where 3: "hp_traverse (probe_config ag host) (hps_config_files spec) tr2 = (Inr cs, tr3)" "?I tr3" "\<forall>it\<in>set cs. hi_established it"
      "map hi_id (filter (\<lambda>it. hi_changes it \<and> hi_established it) cs) = map (\<lambda>c. ''config:'' @ cf_path c) (filter (\<lambda>c. map_option fst (h_files h (cf_path c)) \<noteq> Some (cf_content c)) (hps_config_files spec))"
    by (elim exE conjE) (rule that)
  have "hp_probe ag host spec tr = (Inr (ps @ ss @ cs), tr3)" using 1(1) 2(1) 3(1) by (simp add: hp_probe_def hp_bind_def hp_ret_def)
  moreover have "map hi_id (filter (\<lambda>it. hi_changes it \<and> hi_established it) (ps @ ss @ cs)) = out_of_spec h spec"
    unfolding filter_append map_append 1(4) 2(4) 3(4) out_of_spec_def ..
  moreover have "filter (\<lambda>it. \<not> hi_established it) (ps @ ss @ cs) = []" using 1(3) 2(3) 3(3) by (simp add: filter_empty_conv ball_Un)
  ultimately show ?thesis using 3(2) by (simp add: check_drift_def hp_bind_def hp_ret_def)
qed

lemma filter_zip:
  "length xs = length ys \<Longrightarrow> (\<And>x y. (x, y) \<in> set (zip xs ys) \<Longrightarrow> P x = Q x y)
    \<Longrightarrow> map g (filter P xs) = map (\<lambda>(x, y). g x) (filter (\<lambda>(x, y). Q x y) (zip xs ys))"
  by (induction xs ys rule: list_induct2) auto

section \<open>An agent over a host\<close>

text \<open>What the agent does, over the host the calls so far have made of \<open>h0\<close>.\<close>

definition plain_agent :: "host_state \<Rightarrow> hp_agent" where
  "plain_agent h0 =
     (let after = (\<lambda>tr. all_effects (map snd tr) h0) in
      \<lparr>hpa_exec = (\<lambda>host cmd tr.
         if prefix (active_query []) cmd then Inr (0, says_active (after tr) (drop 20 cmd) @ [nl], [])
         else if prefix (enabled_query []) cmd then Inr (0, says_enabled (after tr) (drop 21 cmd) @ [nl], [])
         else if prefix (dpkg_query []) cmd then
           (if drop 8 cmd \<in> h_packages (after tr) then Inr (0, ''install ok installed'', []) else Inr (1, [], ''not installed''))
         else (case h_files (after tr) (drop 11 cmd) of Some (_, m) \<Rightarrow> Inr (0, m @ [nl], []) | None \<Rightarrow> Inr (1, [], ''no such file''))),
       hpa_read = (\<lambda>host path tr. case h_files (after tr) path of Some (c, _) \<Rightarrow> Inr c
         | None \<Rightarrow> Inl (OtherError ''file not found'')),
       hpa_do = (\<lambda>host c tr. Inr [(''changed'', JBool True)])\<rparr>)"

lemma plain_agent_host: "host_after (plain_agent h0) h0 tr = all_effects (map snd tr) h0"
proof (induction tr rule: rev_induct)
  case (snoc x tr)
  then show ?case by (cases x) (simp add: host_after_snoc plain_agent_def Let_def)
qed simp

lemma plain_agent_behaves: "behaves (plain_agent h0) host h0"
  unfolding behaves_def plain_agent_host
proof (intro allI)
  fix tr :: hp_trace and n
  have "py_in ''install ok installed'' ''install ok installed''" "py_in ''not installed'' (py_lower ''not installed'')"
    "read_says_absent (OtherError ''file not found'')" by code_simp+
  then show "agent_says (plain_agent h0) host (all_effects (map snd tr) h0) tr n"
    by (auto simp: agent_says_def plain_agent_def Let_def active_query_def enabled_query_def dpkg_query_def mode_query_def split: option.splits)
qed

end
