(* ===== verification/Host_Properties.thy ===== *)
theory Host_Properties
  imports Host_Effects
begin

text \<open>
  What the host-provision handler promises, for every host whose agent behaves: its rollback restores what it
  captured, and the drift check after an apply.
\<close>

lemma captured_is:
  assumes "behaves ag (resolve_host tgt) h0" "host_after ag h0 tr0 = h"
    "hp_execute ag yaml vault duration body tgt pve tr0 = (Inr r, tr1)" "hr_pre_state r = Some v"
  obtains spec0 spec secrets cs where
    "parse_host_provision_spec yaml body = Inr spec0" "resolve_spec_secrets vault spec0 = Inr (spec, secrets)"
    "resolve_host tgt \<noteq> []" "pve_guard (resolve_host tgt) pve = None" "v = JList (map JObj (capture_of h spec))"
    "set cs \<subseteq> set (map fst (apply_calls spec))" "host_after ag h0 tr1 = all_effects cs h"
    "hr_success r \<longrightarrow> cs = map fst (apply_calls spec)"
proof (rule hp_execute_applies [OF assms(3,4)])
  fix spec0 spec secrets captured tr e log
  assume p: "parse_host_provision_spec yaml body = Inr spec0" "resolve_spec_secrets vault spec0 = Inr (spec, secrets)"
    "resolve_host tgt \<noteq> []" "pve_guard (resolve_host tgt) pve = None"
    and c: "capture_pre_state ag (resolve_host tgt) spec tr0 = (Inr captured, tr)" "v = JList (map JObj captured)"
    and a: "apply_spec ag (resolve_host tgt) (apply_calls spec) [] tr = (e, log, tr1)" "hr_success r = (e = None)"
  have h: "captured = capture_of h spec" "host_after ag h0 tr = h"
    using capture_pre_state_of [OF assms(1,2), of spec] c(1) by auto
  obtain cs where "set cs \<subseteq> set (map fst (apply_calls spec))" "host_after ag h0 tr1 = all_effects cs (host_after ag h0 tr)"
    "e = None \<longrightarrow> cs = map fst (apply_calls spec)" using apply_spec_effects [OF a(1), of h0] by (elim exE conjE) (rule that)
  with h p c(2) a(2) show thesis by (intro that) simp_all
qed

lemma resolved_spec:
  assumes "resolve_spec_secrets vault spec0 = Inr (spec, secrets)"
  shows "hps_packages spec = hps_packages spec0" "hps_services spec = hps_services spec0"
    "map cf_path (hps_config_files spec) = map cf_path (hps_config_files spec0)"
  using assms by (auto simp: resolve_spec_secrets_def bind_res_def split: sum.splits dest: resolve_configs_paths)

lemma resolved_paths:
  "resolve_spec_secrets vault spec0 = Inr (spec, secrets)
    \<Longrightarrow> cf_path ` set (hps_config_files spec) = cf_path ` set (hps_config_files spec0)"
  by (metis resolved_spec(3) set_map)

section \<open>Rolling back\<close>


section \<open>Drift after an apply\<close>


section \<open>Examples\<close>

definition web_host :: host_state where
  "web_host = \<lparr>h_files = [''/m'' \<mapsto> (''old'', ''0600'')], h_active = (\<lambda>n. False), h_enabled = (\<lambda>n. n = ''x''), h_packages = {''q''}\<rparr>"

definition web_yaml :: jval where
  "web_yaml = JObj [(''packages'', JList [JStr ''q'']),
     (''services'', JList [JObj [(''name'', JStr ''x''), (''state'', JStr ''started'')]]),
     (''config_files'', JList [JObj [(''path'', JStr ''/m''), (''content'', JStr ''new {{vault.a.b}}''), (''mode'', JStr ''0644'')]])]"

definition web_body :: string where
  "web_body = ''```yaml host-provision-spec'' @ nl # ''y'' @ nl # ''```''"

definition web_target :: dict where
  "web_target = [(''host'', JStr ''h1'')]"

definition web_vault :: "(string \<Rightarrow> secret res) option" where
  "web_vault = Some (\<lambda>_. Inr [(''b'', ''pw'')])"

definition web_run :: "handler_result res \<times> hp_trace" where
  "web_run = hp_execute (plain_agent web_host) (\<lambda>_. Inr web_yaml) web_vault ''0.1'' web_body web_target [] []"

lemma web_spec_is:
  "parse_host_provision_spec (\<lambda>_. Inr web_yaml) web_body
     = Inr \<lparr>hps_packages = [''q''], hps_services = [\<lparr>svc_name = ''x'', svc_state = STARTED\<rparr>],
            hps_config_files = [\<lparr>cf_path = ''/m'', cf_content = ''new {{vault.a.b}}'', cf_mode = ''0644''\<rparr>]\<rparr>"
  by code_simp

definition web_spec :: "string \<Rightarrow> hp_spec" where
  "web_spec content = \<lparr>hps_packages = [''q''], hps_services = [\<lparr>svc_name = ''x'', svc_state = STARTED\<rparr>],
     hps_config_files = [\<lparr>cf_path = ''/m'', cf_content = content, cf_mode = ''0644''\<rparr>]\<rparr>"

lemma web_resolved: "resolve_spec_secrets web_vault (web_spec ''new {{vault.a.b}}'') = Inr (web_spec ''new pw'', [''pw''])"
  by code_simp

lemma web_applied: "\<not> isl (fst web_run)" "hr_success (projr (fst web_run))"
    "hr_pre_state (projr (fst web_run)) = Some (JList (map JObj (capture_of web_host (web_spec []))))"
  by code_simp+

definition web_undo :: "handler_result res \<times> hp_trace" where
  "web_undo = hp_rollback (plain_agent web_host) web_target (capture_of web_host (web_spec [])) [] (snd web_run)"

lemma web_undone: "\<not> isl (fst web_undo)" "hr_success (projr (fst web_undo))"
  by code_simp+

lemma web_modes: "plain_modes web_host"
  by (simp add: plain_modes_def web_host_def bare_mode_def py_strip_def py_lstrip_def py_rstrip_def py_isspace_def)



end
