(* ===== verification/Drift_Properties.thy ===== *)
theory Drift_Properties
  imports Drift_Verify Host_Properties
begin

text \<open>
  What a drift verification promises: it only reads, it answers, and it says in spec only what was
  established; and what it cannot say of a sequence.
\<close>

section \<open>Only reads\<close>

fun pve_reads_only :: "pve_request \<Rightarrow> bool" where
  "pve_reads_only Nodes = True"
| "pve_reads_only (Precheck m _) = (m = ''GET'')"
| "pve_reads_only _ = False"

fun http_reads_only :: "http_request \<Rightarrow> bool" where
  "http_reads_only (Probe _ m _) = (m = ''GET'')"
| "http_reads_only _ = False"

text \<open>What was sent from one world to the next is reads.\<close>

definition only_reads :: "vworld \<Rightarrow> vworld \<Rightarrow> bool" where
  "only_reads w w' =
     (\<exists>ps hs as. vw_pve w' = vw_pve w @ ps \<and> list_all pve_reads_only ps
        \<and> vw_http w' = vw_http w @ hs \<and> list_all http_reads_only hs
        \<and> vw_host w' = vw_host w @ as \<and> list_all (reads_only \<circ> snd) as)"

lemma only_reads_refl [simp]: "only_reads w w"
  by (simp add: only_reads_def)

lemma only_reads_trans: "only_reads w1 w2 \<Longrightarrow> only_reads w2 w3 \<Longrightarrow> only_reads w1 w3"
  unfolding only_reads_def by (elim exE conjE) simp

lemma only_reads_pve: "tr' = vw_pve w @ ps \<Longrightarrow> list_all pve_reads_only ps \<Longrightarrow> only_reads w (w\<lparr>vw_pve := tr'\<rparr>)"
  by (simp add: only_reads_def)

lemma only_reads_http: "tr' = vw_http w @ hs \<Longrightarrow> list_all http_reads_only hs \<Longrightarrow> only_reads w (w\<lparr>vw_http := tr'\<rparr>)"
  by (simp add: only_reads_def)

lemma only_reads_host: "tr' = vw_host w @ as \<Longrightarrow> list_all (reads_only \<circ> snd) as \<Longrightarrow> only_reads w (w\<lparr>vw_host := tr'\<rparr>)"
  by (simp add: only_reads_def)

subsection \<open>Steps\<close>

lemma pve_look_sends:
  "pve_look env ctx tgt st tr = (l, tr') \<Longrightarrow> \<exists>ps. tr' = tr @ ps \<and> list_all pve_reads_only ps"
  by (auto simp: pve_look_def pve_ask_def split: jval.splits if_splits sum.splits)

lemma http_look_sends:
  assumes "http_look env ctx tgt st s = (l, s')"
  shows "\<exists>hs. hs_trace s' = hs_trace s @ hs \<and> list_all http_reads_only hs"
proof -
  have ask: "\<exists>hs. hs_trace s' = hs_trace s @ hs \<and> list_all http_reads_only hs"
    if a: "http_ask env tgt pc name ''GET'' path s = (l, s')" for pc name path
  proof (cases "client_for (v_http env) name s")
    case (Pair r s1)
    then show ?thesis using a client_for_trace [OF Pair]
      by (auto simp: http_ask_def send_request_def split: sum.splits http_error.splits)
  qed
  show ?thesis using assms ask
    by (auto simp: http_look_def split: jval.splits if_splits sum.splits)
qed

text \<open>The loop keeps what every look keeps.\<close>

lemma look_all_keeps:
  assumes "\<And>st s l s'. f st s = (l, s') \<Longrightarrow> K s s'" and refl: "\<And>s. K s s" and trans: "\<And>a b c. K a b \<Longrightarrow> K b c \<Longrightarrow> K a c"
  shows "look_all f steps drifted skipped s = (r, s') \<Longrightarrow> K s s'"
proof (induction steps arbitrary: drifted skipped s)
  case (Cons a steps)
  show ?case
  proof (cases a)
    case (JObj st)
    obtain l s1 where l: "f st s = (l, s1)" by (cases "f st s")
    then show ?thesis using Cons JObj assms(1) [OF l] by (cases l) (auto intro: trans)
  qed (use Cons.prems refl in simp_all)
qed (simp add: refl)

lemma look_all_sends:
  "look_all (pve_look env ctx tgt) steps [] [] tr = (r, tr') \<Longrightarrow> \<exists>ps. tr' = tr @ ps \<and> list_all pve_reads_only ps"
  "look_all (http_look env ctx tgt) steps [] [] s = (r, s') \<Longrightarrow> \<exists>hs. hs_trace s' = hs_trace s @ hs \<and> list_all http_reads_only hs"
proof -
  show "look_all (pve_look env ctx tgt) steps [] [] tr = (r, tr') \<Longrightarrow> \<exists>ps. tr' = tr @ ps \<and> list_all pve_reads_only ps"
    by (rule look_all_keeps [where K = "\<lambda>tr tr'. \<exists>ps. tr' = tr @ ps \<and> list_all pve_reads_only ps", OF pve_look_sends])
      (assumption | simp | (elim exE conjE, simp))+
  show "look_all (http_look env ctx tgt) steps [] [] s = (r, s') \<Longrightarrow> \<exists>hs. hs_trace s' = hs_trace s @ hs \<and> list_all http_reads_only hs"
    by (rule look_all_keeps [where K = "\<lambda>s s'. \<exists>hs. hs_trace s' = hs_trace s @ hs \<and> list_all http_reads_only hs", OF http_look_sends])
      (assumption | simp | (elim exE conjE, simp))+
qed

subsection \<open>Hosts\<close>

definition host_reads :: "'a hp_run \<Rightarrow> bool" where
  "host_reads m = (\<forall>tr r tr'. m tr = (r, tr') \<longrightarrow> (\<exists>as. tr' = tr @ as \<and> list_all (reads_only \<circ> snd) as))"

lemma host_readsD: "host_reads m \<Longrightarrow> m tr = (r, tr') \<Longrightarrow> \<exists>as. tr' = tr @ as \<and> list_all (reads_only \<circ> snd) as"
  by (simp add: host_reads_def)

lemma host_reads_basic: "host_reads (hp_ret x)" "host_reads (exec_readonly ag host cmd)" "host_reads (try_read ag host path)"
  by (auto simp: host_reads_def hp_ret_def exec_readonly_def try_read_def)

lemma host_reads_bind:
  assumes m: "host_reads m" and f: "\<And>x. host_reads (f x)"
  shows "host_reads (hp_bind m f)"
  unfolding host_reads_def
proof (intro allI impI)
  fix tr r tr' assume b: "hp_bind m f tr = (r, tr')"
  obtain r1 tr1 where 1: "m tr = (r1, tr1)" by (cases "m tr")
  obtain as where as: "tr1 = tr @ as" "list_all (reads_only \<circ> snd) as" using host_readsD [OF m 1] by blast
  show "\<exists>as. tr' = tr @ as \<and> list_all (reads_only \<circ> snd) as"
  proof (cases r1)
    case (Inl e)
    then have "tr' = tr @ as" using b 1 as by (simp add: hp_bind_def)
    then show ?thesis using as(2) by blast
  next
    case (Inr x)
    then have "f x tr1 = (r, tr')" using b 1 by (simp add: hp_bind_def)
    then obtain bs where "tr' = tr1 @ bs" "list_all (reads_only \<circ> snd) bs" using host_readsD [OF f] by blast
    then show ?thesis using as by simp
  qed
qed

lemma host_reads_traverse: "(\<And>x. host_reads (m x)) \<Longrightarrow> host_reads (hp_traverse m xs)"
  by (induction xs) (auto intro!: host_reads_bind host_reads_basic)

lemma host_reads_probes:
  "host_reads (probe_package ag host n)" "host_reads (probe_service ag host s)" "host_reads (probe_config ag host c)"
  by (auto simp: probe_package_def package_installed_def probe_service_def probe_config_def Let_def
      intro!: host_reads_bind host_reads_basic split: prod.splits)

lemma host_reads_drift: "host_reads (check_drift ag host spec)"
  unfolding check_drift_def hp_probe_def
  by (intro host_reads_bind host_reads_traverse host_reads_probes host_reads_basic)

subsection \<open>The verifier\<close>

lemma verify_target_sends: "verify_target env tgt tr = (r, tr') \<Longrightarrow> \<exists>ps. tr' = tr @ ps \<and> list_all pve_reads_only ps"
  by (auto simp: verify_target_def pve_target_def pick_cluster_node_def split: if_splits prod.splits sum.splits pve_error.splits)

lemma verify_proxmox_reads:
  assumes "verify_proxmox_api env fm body w = (r, w')"
  shows "only_reads w w'"
proof (cases "\<exists>steps. extract_steps (v_yaml env) body ''proxmox-api-spec'' = Inr (Some steps)")
  case False
  then show ?thesis using assms by (auto simp: verify_proxmox_api_def split: sum.splits option.splits)
next
  case True
  then obtain steps where s: "extract_steps (v_yaml env) body ''proxmox-api-spec'' = Inr (Some steps)" by blast
  obtain t tr where t: "verify_target env (target_data fm) (vw_pve w) = (t, tr)" by fastforce
  obtain ps where ps: "tr = vw_pve w @ ps" "list_all pve_reads_only ps" using verify_target_sends [OF t] by blast
  show ?thesis
  proof (cases "\<exists>tgt sts. t = Inr tgt \<and> iter_steps steps = Inr sts")
    case False
    then have "w' = w\<lparr>vw_pve := tr\<rparr>" using assms s t by (auto simp: verify_proxmox_api_def split: sum.splits)
    then show ?thesis using only_reads_pve [OF ps] by simp
  next
    case True
    then obtain tgt sts where i: "t = Inr tgt" "iter_steps steps = Inr sts" by blast
    obtain l tr' where l: "look_all (pve_look env (interpolation_context (x_now (q_ext (v_seq env))) (Some tgt) fm) tgt) sts [] [] tr = (l, tr')"
      by fastforce
    have "w' = w\<lparr>vw_pve := tr'\<rparr>" using assms s t i l by (auto simp: verify_proxmox_api_def split: sum.splits)
    moreover obtain qs where "tr' = tr @ qs" "list_all pve_reads_only qs" using look_all_sends(1) [OF l] by blast
    ultimately show ?thesis using ps by (simp add: only_reads_def)
  qed
qed

lemma verify_http_reads:
  assumes "verify_http_sequence env fm body w = (r, w')"
  shows "only_reads w w'"
proof (cases "\<exists>steps sts. extract_steps (v_yaml env) body ''http-spec'' = Inr (Some steps) \<and> iter_steps steps = Inr sts")
  case False
  then show ?thesis using assms by (auto simp: verify_http_sequence_def split: sum.splits option.splits)
next
  case True
  then obtain steps sts where s: "extract_steps (v_yaml env) body ''http-spec'' = Inr (Some steps)" "iter_steps steps = Inr sts" by blast
  obtain l s' where l: "look_all (http_look env (interpolation_context (x_now (q_ext (v_seq env))) (Some (target_data fm)) fm) (target_data fm))
      sts [] [] \<lparr>hs_clients = [], hs_trace = vw_http w\<rparr> = (l, s')" by fastforce
  have "w' = w\<lparr>vw_http := hs_trace s'\<rparr>" using assms s l by (auto simp: verify_http_sequence_def Let_def split: sum.splits)
  moreover obtain hs where "hs_trace s' = vw_http w @ hs" "list_all http_reads_only hs" using look_all_sends(2) [OF l] by auto
  ultimately show ?thesis by (simp add: only_reads_def)
qed

lemma verify_host_reads:
  assumes "verify_host_provision env fm body w = (r, w')"
  shows "only_reads w w'"
proof -
  have "w' = w \<or> (\<exists>host spec x tr. check_drift (v_agent env) host spec (vw_host w) = (x, tr) \<and> w' = w\<lparr>vw_host := tr\<rparr>)"
    using assms by (auto simp: verify_host_provision_def Let_def split: sum.splits exn.splits if_splits option.splits prod.splits)
  then show ?thesis
  proof (elim disjE exE conjE)
    fix host spec x tr assume c: "check_drift (v_agent env) host spec (vw_host w) = (x, tr)" and w: "w' = w\<lparr>vw_host := tr\<rparr>"
    obtain as where "tr = vw_host w @ as" "list_all (reads_only \<circ> snd) as" using host_readsD [OF host_reads_drift c] by blast
    then show ?thesis using w by (simp add: only_reads_def)
  qed simp
qed

lemma verify_subs_reads:
  assumes sub: "\<And>a w r w'. sub a w = (r, w') \<Longrightarrow> only_reads w w'"
  shows "verify_subs env sub steps l w = (r, w') \<Longrightarrow> only_reads w w'"
proof (induction steps arbitrary: l w)
  case (Cons st steps)
  show ?case
  proof (cases st)
    case (JObj kvs)
    let ?a = "dget_or ''artifact'' (JStr []) kvs"
    obtain x w1 where x: "sub ?a w = (x, w1)" by (cases "sub ?a w")
    show ?thesis
    proof (cases "truthy ?a")
      case True
      then have "w' = w1 \<or> (\<exists>l'. verify_subs env sub steps l' w1 = (r, w'))"
        using Cons.prems JObj x by (auto simp: Let_def split: sum.splits if_splits drift_state.splits)
      then show ?thesis using Cons.IH sub [OF x] only_reads_trans by blast
    next
      case False
      then show ?thesis using Cons JObj by (simp add: Let_def)
    qed
  qed (use Cons.prems in simp_all)
qed simp

lemma verify_composite_reads:
  assumes "\<And>a w r w'. sub a w = (r, w') \<Longrightarrow> only_reads w w'" "verify_composite env sub body w = (r, w')"
  shows "only_reads w w'"
  using assms(2) verify_subs_reads [OF assms(1)]
  by (auto simp: verify_composite_def split: sum.splits if_splits prod.splits)

lemma verify_stored_reads:
  assumes "\<And>a w r w'. sub a w = (r, w') \<Longrightarrow> only_reads w w'" "verify_stored env sub d w = (r, w')"
  shows "only_reads w w'"
proof -
  have "w' = w \<or> (\<exists>k x. verify_kind env sub k d w = (x, w'))"
    using assms(2) by (auto simp: verify_stored_def split: option.splits if_splits prod.splits sum.splits)
  then show ?thesis
  proof (elim disjE exE)
    fix k x assume k: "verify_kind env sub k d w = (x, w')"
    show ?thesis
      using k verify_composite_reads [OF assms(1)] verify_host_reads verify_http_reads verify_proxmox_reads
      by (cases k) (auto simp: verify_kind_def)
  qed simp
qed

lemma verify_at_reads: "verify_at env n i w = (r, w') \<Longrightarrow> only_reads w w'"
proof (induction n arbitrary: i w r w')
  case (Suc n)
  then show ?case using verify_stored_reads [of "verify_at env n" env] by (auto split: sum.splits)
qed simp

section \<open>Verdicts\<close>

lemma look_all_counts:
  "look_all f steps drifted skipped s = (Inr (drifted', skipped'), s')
    \<Longrightarrow> length drifted' + length skipped' = length drifted + length skipped + length steps"
proof (induction steps arbitrary: drifted skipped s)
  case (Cons a steps)
  show ?case
  proof (cases a)
    case (JObj st)
    obtain l s1 where "f st s = (l, s1)" by (cases "f st s")
    then show ?thesis using Cons JObj by (cases l) (auto dest!: Cons.IH simp: Let_def)
  qed (use Cons.prems in simp_all)
qed simp

lemma sequence_not_in_spec:
  "look_all f steps [] [] s = (Inr (drifted, skipped), s') \<Longrightarrow> vr_state (sequence_result drifted skipped steps) \<noteq> IN_SPEC"
  by (drule look_all_counts) (auto simp: sequence_result_def evaluated_def Let_def)

lemma not_established_unknown [simp]: "vr_state (not_established log reason) = UNKNOWN"
  by (simp add: not_established_def)

lemma sequences_not_in_spec:
  "verify_proxmox_api env fm body w = (Inr r, w') \<Longrightarrow> vr_state r \<noteq> IN_SPEC"
  "verify_http_sequence env fm body w = (Inr r, w') \<Longrightarrow> vr_state r \<noteq> IN_SPEC"
  by (auto simp: verify_proxmox_api_def verify_http_sequence_def Let_def split: sum.splits option.splits prod.splits
      dest: sequence_not_in_spec)

section \<open>What a verdict rests on\<close>

definition applied_as :: "verify_env \<Rightarrow> jval \<Rightarrow> artifact_kind \<Rightarrow> stored \<Rightarrow> bool" where
  "applied_as env i k d =
     (v_read env i = Inr d \<and> kind_of_value (sd_kind d) = Some k \<and> status_of_value (sd_status d) = Some APPLIED)"

text \<open>
  An artifact is established when it is applied and everything it says was looked at and found: every item of a
  host, the plan of a guest network, or, for a composite, every step.
\<close>

inductive established :: "verify_env \<Rightarrow> jval \<Rightarrow> bool" for env where
  host_matches: "\<lbrakk>applied_as env i HOST_PROVISION d; parse_host_provision_spec (v_yaml env) (sd_body d) = Inr spec;
     hp_probe (v_agent env) (resolve_host (target_data (sd_fm d))) spec tr = (Inr items, tr');
     \<forall>it\<in>set items. hi_established it \<and> \<not> hi_changes it\<rbrakk> \<Longrightarrow> established env i"
| network_matches: "\<lbrakk>applied_as env i GUEST_NETWORK d; v_gateway env = Some gw; network_defaults env = Inr defaults;
     parse_guest_network_spec (v_yaml env) (sd_body d) defaults = Inr desired;
     plan desired (survey gw desired (str_or_empty (dget ''node'' (target_data (sd_fm d))))) = Inr p; converged p\<rbrakk>
     \<Longrightarrow> established env i"
| parts_match: "\<lbrakk>applied_as env i COMPOSITE d; extract_composite_steps (v_yaml env) (sd_body d) = Inr steps; truthy steps;
     iter_steps steps = Inr sts;
     \<forall>st\<in>set sts. \<exists>kvs. st = JObj kvs \<and> truthy (dget_or ''artifact'' (JStr []) kvs)
        \<and> established env (dget_or ''artifact'' (JStr []) kvs)\<rbrakk> \<Longrightarrow> established env i"

inductive_cases established_cases: "established env i"

lemma host_earned:
  assumes "applied_as env i HOST_PROVISION d" "verify_host_provision env (sd_fm d) (sd_body d) w = (Inr r, w')" "vr_state r = IN_SPEC"
  shows "established env i"
proof -
  obtain spec items log tr where p: "parse_host_provision_spec (v_yaml env) (sd_body d) = Inr spec"
    and c: "check_drift (v_agent env) (resolve_host (target_data (sd_fm d))) spec (vw_host w) = (Inr ([], [], log), tr)"
    using assms(2,3) by (auto simp: verify_host_provision_def Let_def split: sum.splits exn.splits if_splits option.splits prod.splits)
  obtain x where x: "hp_probe (v_agent env) (resolve_host (target_data (sd_fm d))) spec (vw_host w) = x" by blast
  obtain items where items: "hp_probe (v_agent env) (resolve_host (target_data (sd_fm d))) spec (vw_host w) = (Inr items, tr)"
    "filter (\<lambda>i. hi_changes i \<and> hi_established i) items = []" "filter (\<lambda>i. \<not> hi_established i) items = []"
    using c by (auto simp: check_drift_def hp_bind_def hp_ret_def split: prod.splits sum.splits)
  have "\<forall>it\<in>set items. hi_established it \<and> \<not> hi_changes it"
    using items(2,3) unfolding filter_empty_conv by blast
  with assms(1) p items(1) show ?thesis by (rule host_matches)
qed

lemma network_earned:
  assumes "applied_as env i GUEST_NETWORK d" "verify_guest_network env (sd_fm d) (sd_body d) = Inr r" "vr_state r = IN_SPEC"
  shows "established env i"
proof -
  obtain gw where g: "v_gateway env = Some gw"
    using assms(2,3) by (auto simp: verify_guest_network_def split: option.splits)
  obtain defaults where d: "network_defaults env = Inr defaults"
    using assms(2) g by (auto simp: verify_guest_network_def bind_res_def split: sum.splits)
  obtain desired where p: "parse_guest_network_spec (v_yaml env) (sd_body d) defaults = Inr desired"
    using assms(2,3) g d by (auto simp: verify_guest_network_def bind_res_def split: sum.splits exn.splits)
  let ?current = "survey gw desired (str_or_empty (dget ''node'' (target_data (sd_fm d))))"
  obtain q where q: "plan desired ?current = Inr q" "r = network_verdict q"
    using assms(2,3) g d p
    by (cases "plan desired ?current") (auto simp: verify_guest_network_def bind_res_def Let_def split: if_splits)
  have "converged q" using assms(3) q(2) by (auto simp: network_verdict_def split: if_splits)
  with assms(1) g d p q(1) show ?thesis by (rule network_matches)
qed

lemma subs_earned:
  assumes sub: "\<And>a w r w'. sub a w = (Inr r, w') \<Longrightarrow> vr_state r = IN_SPEC \<Longrightarrow> established env a"
  shows "verify_subs env sub steps l w = (Inr l', w') \<Longrightarrow> sl_drifted l' = [] \<Longrightarrow> sl_unknown l' = [] \<Longrightarrow> sl_skipped l' = []
    \<Longrightarrow> sl_drifted l = [] \<and> sl_unknown l = [] \<and> sl_skipped l = []
       \<and> (\<forall>st\<in>set steps. \<exists>kvs. st = JObj kvs \<and> truthy (dget_or ''artifact'' (JStr []) kvs)
            \<and> established env (dget_or ''artifact'' (JStr []) kvs))"
proof (induction steps arbitrary: l w)
  case (Cons st steps)
  show ?case
  proof (cases st)
    case (JObj kvs)
    let ?a = "dget_or ''artifact'' (JStr []) kvs"
    show ?thesis
    proof (cases "truthy ?a")
      case False
      then have "verify_subs env sub steps (l\<lparr>sl_skipped := sl_skipped l @ [dget_or ''id'' (JStr ''unknown'') kvs]\<rparr>) w = (Inr l', w')"
        using Cons.prems(1) JObj by (simp add: Let_def)
      from Cons.IH [OF this Cons.prems(2-4)] show ?thesis by simp
    next
      case True
      obtain x w1 where x: "sub ?a w = (x, w1)" by (cases "sub ?a w")
      show ?thesis
      proof (cases x)
        case (Inl e)
        then have "verify_subs env sub steps (l\<lparr>sl_skipped := sl_skipped l @ [?a]\<rparr>) w1 = (Inr l', w')"
          using Cons.prems(1) JObj True x by (auto simp: Let_def split: if_splits)
        from Cons.IH [OF this Cons.prems(2-4)] show ?thesis by simp
      next
        case (Inr r)
        show ?thesis
        proof (cases "vr_state r")
          case IN_SPEC
          then have "verify_subs env sub steps l w1 = (Inr l', w')" "established env ?a"
            using Cons.prems(1) JObj True x Inr sub by (auto simp: Let_def)
          then show ?thesis using Cons.IH Cons.prems(2-4) JObj True by auto
        next
          case DRIFTED
          then have "verify_subs env sub steps (l\<lparr>sl_drifted := sl_drifted l @ [?a]\<rparr>) w1 = (Inr l', w')"
            using Cons.prems(1) JObj True x Inr by (simp add: Let_def)
          from Cons.IH [OF this Cons.prems(2-4)] show ?thesis by simp
        next
          case UNKNOWN
          then have "verify_subs env sub steps (l\<lparr>sl_unknown := sl_unknown l @ [?a]\<rparr>) w1 = (Inr l', w')"
            using Cons.prems(1) JObj True x Inr by (simp add: Let_def)
          from Cons.IH [OF this Cons.prems(2-4)] show ?thesis by simp
        qed
      qed
    qed
  qed (use Cons.prems in simp_all)
qed simp

lemma composite_earned:
  assumes sub: "\<And>a w r w'. sub a w = (Inr r, w') \<Longrightarrow> vr_state r = IN_SPEC \<Longrightarrow> established env a"
    and "applied_as env i COMPOSITE d" "verify_composite env sub (sd_body d) w = (Inr r, w')" "vr_state r = IN_SPEC"
  shows "established env i"
proof -
  obtain steps where s: "extract_composite_steps (v_yaml env) (sd_body d) = Inr steps" "truthy steps"
    using assms(3,4) by (auto simp: verify_composite_def split: sum.splits if_splits)
  obtain sts where i: "iter_steps steps = Inr sts"
    using assms(3) s by (auto simp: verify_composite_def split: sum.splits)
  obtain l where l: "verify_subs env sub sts \<lparr>sl_drifted = [], sl_skipped = [], sl_unknown = []\<rparr> w = (Inr l, w')" "r = composite_verdict l"
    using assms(3) s i by (auto simp: verify_composite_def split: sum.splits prod.splits)
  have "sl_drifted l = []" "sl_unknown l = []" "sl_skipped l = []"
    using assms(4) l(2) by (auto simp: composite_verdict_def split: if_splits)
  then have "\<forall>st\<in>set sts. \<exists>kvs. st = JObj kvs \<and> truthy (dget_or ''artifact'' (JStr []) kvs)
      \<and> established env (dget_or ''artifact'' (JStr []) kvs)"
    using subs_earned [of sub env sts _ w l w', OF _ l(1)] sub by simp
  with assms(2) s i show ?thesis by (rule parts_match)
qed

lemma verify_stored_cases:
  assumes "verify_stored env sub d w = (Inr r, w')" "vr_state r \<noteq> UNKNOWN"
  obtains k where "kind_of_value (sd_kind d) = Some k" "status_of_value (sd_status d) = Some APPLIED"
    "verify_kind env sub k d w = (Inr r, w')"
  using assms by (auto simp: verify_stored_def check_failed_def split: option.splits if_splits prod.splits sum.splits)

lemma verify_at_earned: "verify_at env n i w = (Inr r, w') \<Longrightarrow> vr_state r = IN_SPEC \<Longrightarrow> established env i"
proof (induction n arbitrary: i w r w')
  case (Suc n)
  obtain d where d: "v_read env i = Inr d" and v: "verify_stored env (verify_at env n) d w = (Inr r, w')"
    using Suc.prems by (auto split: sum.splits)
  obtain k where k: "kind_of_value (sd_kind d) = Some k" "status_of_value (sd_status d) = Some APPLIED"
    "verify_kind env (verify_at env n) k d w = (Inr r, w')" using verify_stored_cases [OF v] Suc.prems(2) by auto
  have a: "applied_as env i k d" using d k by (simp add: applied_as_def)
  show ?case
  proof (cases k)
    case HOST_PROVISION
    then show ?thesis using host_earned a k(3) Suc.prems(2) by (simp add: verify_kind_def)
  next
    case GUEST_NETWORK
    then show ?thesis using network_earned a k(3) Suc.prems(2) by (simp add: verify_kind_def)
  next
    case COMPOSITE
    then show ?thesis using composite_earned [OF Suc.IH] a k(3) Suc.prems(2) by (simp add: verify_kind_def)
  qed (use k(3) Suc.prems(2) sequences_not_in_spec in \<open>auto simp: verify_kind_def verify_ansible_def Let_def split: option.splits if_splits\<close>)
qed simp

section \<open>The properties\<close>

text \<open>
  C7: a verification only reads.  Whatever an artifact says, whichever kind it and its steps have and however the
  check ends, everything it sends to the cluster and to the services is a GET and everything it asks a host is a
  read.  In particular the requests of the steps are never sent, only their prechecks, and those only if they are GETs.
\<close>

theorem verify_reads_only:
  "verify_artifact env i w = (r, w') \<Longrightarrow>
    \<exists>ps hs as. vw_pve w' = vw_pve w @ ps \<and> list_all pve_reads_only ps
      \<and> vw_http w' = vw_http w @ hs \<and> list_all http_reads_only hs
      \<and> vw_host w' = vw_host w @ as \<and> list_all (reads_only \<circ> snd) as"
  using verify_at_reads unfolding verify_artifact_def only_reads_def by blast

text \<open>
  C8: in spec is earned.  When a verification answers that an artifact is in spec, the artifact is established: it is
  applied and every item of its host answered and needs no change, or the plan of its guest network is
  empty, or it is a composite each of whose steps is established in turn.  No other kind can be established.
\<close>

theorem in_spec_is_earned:
  "verify_artifact env i w = (Inr r, w') \<Longrightarrow> vr_state r = IN_SPEC \<Longrightarrow> established env (JStr i)"
  unfolding verify_artifact_def by (rule verify_at_earned)

text \<open>
  a sequence is never in spec.  Both sequence verifiers file a step whose precheck says that nothing has to be
  done under the skipped steps, with the steps nobody could look at, and count a sequence whose steps are all skipped as
  not evaluated.  So the verdict for a proxmox or http sequence is never in spec, whatever the target answers.
\<close>

theorem sequence_never_in_spec:
  assumes "v_read env (JStr i) = Inr d" "kind_of_value (sd_kind d) = Some k" "k = PROXMOX_API_SEQUENCE \<or> k = HTTP_SEQUENCE"
    and "verify_artifact env i w = (Inr r, w')"
  shows "vr_state r \<noteq> IN_SPEC"
proof
  assume "vr_state r = IN_SPEC"
  then have "established env (JStr i)" using assms(4) verify_at_earned unfolding verify_artifact_def by blast
  then show False by (rule established_cases) (use assms(1-3) in \<open>auto simp: applied_as_def\<close>)
qed

text \<open>
  A verification answers: once the store has returned the artifact, the check ends with a verdict or with the error
  for a missing file; every other exception of a verifier becomes the verdict unknown, so the previous verdict of the
  artifact does not stand.
\<close>

lemma verify_answers:
  assumes "v_read env (JStr i) = Inr d" "verify_artifact env i w = (Inl e, w')"
  shows "not_found e"
  using assms unfolding verify_artifact_def
  by (auto simp: verify_stored_def split: option.splits if_splits prod.splits sum.splits)

section \<open>Examples\<close>

definition web_fm :: "artifact_kind \<Rightarrow> frontmatter" where
  "web_fm k = \<lparr>fm_id = ''2026-01-02-web'', fm_kind = k, fm_intent = ''serve'', fm_status = APPLIED, fm_mutating = True,
     fm_produced_by = \<lparr>pb_session = ''s'', pb_agent = ''a'', pb_user = ''u'', pb_at = ''t''\<rparr>, fm_hash = ''h'',
     fm_target = Some web_target, fm_idempotence = None,
     fm_approved_by = None, fm_applied_at = None, fm_failed_at = None, fm_failure_reason = None, fm_supersedes = None,
     fm_superseded_by = None, fm_rejected_by = None, fm_revoked_by = None, fm_tags = None, fm_rollback = None,
     fm_replay_safe = None, fm_requires_snapshot = None, fm_note_kind = None, fm_skip_if = None\<rparr>"

definition web_env :: "artifact_kind \<Rightarrow> string \<Rightarrow> seq_env \<Rightarrow> pve_answers \<Rightarrow> host_state \<Rightarrow> verify_env" where
  "web_env k body seq pve h = \<lparr>v_read = (\<lambda>_. Inr \<lparr>sd_kind = kind_value k, sd_status = ''applied'', sd_fm = web_fm k, sd_body = body\<rparr>),
     v_executor = True, v_seq = seq, v_pve = pve, v_http = sample_http_env, v_agent = plain_agent h,
     v_pve_nodes = [''pve1''], v_gateway = None, v_defaults = Inr None, v_probe_failed = (\<lambda>_. False)\<rparr>"

definition web_seq :: seq_env where
  "web_seq = sample_seq_env\<lparr>q_ext := (q_ext sample_seq_env)\<lparr>x_yaml := (\<lambda>_. Inr web_yaml)\<rparr>\<rparr>"

text \<open>The host after the spec was written to it as it stands.\<close>

definition web_done :: host_state where
  "web_done = \<lparr>h_files = [''/m'' \<mapsto> (''new {{vault.a.b}}'', ''0644'')], h_active = (\<lambda>n. n = ''x''), h_enabled = (\<lambda>n. True), h_packages = {''q''}\<rparr>"

definition web_nothing :: vworld where
  "web_nothing = \<lparr>vw_pve = [], vw_http = [], vw_host = []\<rparr>"

definition web_check :: "verify_result res \<times> vworld" where
  "web_check = verify_artifact (web_env HOST_PROVISION web_body web_seq sample_answers web_done) ''2026-01-02-web'' web_nothing"

lemma web_checked: "\<not> isl (fst web_check)" "vr_state (projr (fst web_check)) = IN_SPEC"
  by code_simp+

lemma web_check_is:
  "verify_artifact (web_env HOST_PROVISION web_body web_seq sample_answers web_done) ''2026-01-02-web'' web_nothing
     = (Inr (projr (fst web_check)), snd web_check)"
  using web_checked(1) unfolding web_check_def [symmetric] by (cases "fst web_check") (auto simp: prod_eq_iff)

theorem verify_reads_only_witness: "vw_host (snd web_check) \<noteq> [] \<and> list_all (reads_only \<circ> snd) (vw_host (snd web_check))"
proof -
  have "vw_host web_nothing = []" "vw_host (snd web_check) \<noteq> []" by code_simp+
  then show ?thesis using verify_reads_only [OF web_check_is] by auto
qed

theorem in_spec_is_earned_witness:
  "established (web_env HOST_PROVISION web_body web_seq sample_answers web_done) (JStr ''2026-01-02-web'')"
  by (rule in_spec_is_earned [OF web_check_is web_checked(2)])

text \<open>The guest of the sequence runs, and its precheck says so.\<close>

definition running_check :: "verify_result res \<times> vworld" where
  "running_check = verify_artifact (web_env PROXMOX_API_SEQUENCE sample_body sample_seq_env (\<lambda>_ _. Inr (JObj [])) web_done)
     ''2026-01-02-web'' web_nothing"

theorem sequence_never_in_spec_witness:
  "vw_pve (snd running_check) = [Precheck ''GET'' ''/nodes/pve1/qemu/101/status/current''] \<and> vr_state (projr (fst running_check)) \<noteq> IN_SPEC"
proof
  show "vw_pve (snd running_check) = [Precheck ''GET'' ''/nodes/pve1/qemu/101/status/current'']" by code_simp
  have "\<not> isl (fst running_check)" by code_simp
  then have "verify_artifact (web_env PROXMOX_API_SEQUENCE sample_body sample_seq_env (\<lambda>_ _. Inr (JObj [])) web_done)
      ''2026-01-02-web'' web_nothing = (Inr (projr (fst running_check)), snd running_check)"
    unfolding running_check_def [symmetric] by (cases "fst running_check") (auto simp: prod_eq_iff)
  then show "vr_state (projr (fst running_check)) \<noteq> IN_SPEC"
    by (rule sequence_never_in_spec [where k = PROXMOX_API_SEQUENCE
          and d = "\<lparr>sd_kind = kind_value PROXMOX_API_SEQUENCE, sd_status = ''applied'', sd_fm = web_fm PROXMOX_API_SEQUENCE, sd_body = sample_body\<rparr>", rotated 3])
      (simp_all add: web_env_def del: kind_value.simps)
qed

end
