(* ===== verification/Portal_Trust.thy ===== *)
theory Portal_Trust
  imports Artifact_Models
begin

text \<open>
  Who a request to the invite portal comes from: \<^verbatim>\<open>portal/trust.py\<close>.

  A reverse proxy checks the client certificate and names its subject in a header; the portal takes the common
  name from there.  What \<open>ipaddress\<close> says of a peer and a network is an argument, so both kinds of addresses
  are covered; headers are looked up by their lower-case names.
\<close>

section \<open>The configuration\<close>

record portal_trust =
  pt_cn_header :: string
  pt_verify_header :: string
  pt_proxy_secret :: string
  pt_networks :: "string list"

record portal_settings =
  ps_cn_header :: "string option"
  ps_verify_header :: "string option"
  ps_proxy_secret :: "string option"
  ps_trusted_proxy :: "string option"

text \<open>\<open>getattr(settings, name, "") or ""\<close>\<close>

definition setting_text :: "string option \<Rightarrow> string" where
  "setting_text s = (case s of None \<Rightarrow> [] | Some t \<Rightarrow> t)"

definition network_chunks :: "string \<Rightarrow> string list" where
  "network_chunks raw = filter (\<lambda>c. c \<noteq> []) (map py_strip (split_on (CHR '','') raw))"

text \<open>The names of what is missing, or the trust.\<close>

definition load_trust :: "(string \<Rightarrow> bool) \<Rightarrow> portal_settings \<Rightarrow> string list + portal_trust" where
  "load_trust is_network s =
     (let cn = py_lower (py_strip (setting_text (ps_cn_header s)));
          verify = py_lower (py_strip (setting_text (ps_verify_header s)));
          secret = setting_text (ps_proxy_secret s);
          proxy = py_strip (setting_text (ps_trusted_proxy s));
          missing = (if cn = [] then [''HP_PORTAL_CN_HEADER''] else [])
            @ (if verify = [] then [''HP_PORTAL_VERIFY_HEADER''] else [])
            @ (if secret = [] then [''HP_PORTAL_PROXY_SECRET''] else [])
            @ (if proxy = [] then [''HP_PORTAL_TRUSTED_PROXY''] else []) in
      if missing \<noteq> [] then Inl missing
      else if list_ex (\<lambda>c. \<not> is_network c) (network_chunks proxy) then Inl [''HP_PORTAL_TRUSTED_PROXY is not a valid address or CIDR'']
      else if network_chunks proxy = [] then Inl [''HP_PORTAL_TRUSTED_PROXY'']
      else Inr \<lparr>pt_cn_header = cn, pt_verify_header = verify, pt_proxy_secret = secret, pt_networks = network_chunks proxy\<rparr>)"

section \<open>Distinguished names\<close>

abbreviation backslash :: char where "backslash \<equiv> CHR 0x5C"
abbreviation quote :: char where "quote \<equiv> CHR 0x22"

definition hex_value :: "char \<Rightarrow> nat option" where
  "hex_value c =
     (let n = of_char c in
      if 48 \<le> n \<and> n \<le> 57 then Some (n - 48) else if 97 \<le> n \<and> n \<le> 102 then Some (n - 87)
      else if 65 \<le> n \<and> n \<le> 70 then Some (n - 55) else None)"

function unescape_dn_value :: "string \<Rightarrow> string" where
  "unescape_dn_value [] = []"
| "unescape_dn_value (c # rest) =
     (if c \<noteq> backslash \<or> rest = [] then c # unescape_dn_value rest
      else case rest of
        a # b # rest' \<Rightarrow>
          (case (hex_value a, hex_value b) of
             (Some x, Some y) \<Rightarrow> char_of (16 * x + y) # unescape_dn_value rest'
           | _ \<Rightarrow> a # unescape_dn_value (b # rest'))
      | _ \<Rightarrow> hd rest # unescape_dn_value (tl rest))"
  by pat_completeness auto

termination unescape_dn_value
  by (relation "measure length") auto

text \<open>The loop of \<open>_split_unescaped\<close>: whether inside quotes, the part so far, the text left.\<close>

function split_unescaped :: "char list \<Rightarrow> bool \<Rightarrow> string \<Rightarrow> string \<Rightarrow> string list" where
  "split_unescaped seps q cur [] = [cur]"
| "split_unescaped seps q cur (c # rest) =
     (if c = backslash \<and> rest \<noteq> [] then split_unescaped seps q (cur @ [c, hd rest]) (tl rest)
      else if c = quote then split_unescaped seps (\<not> q) cur rest
      else if c \<in> set seps \<and> \<not> q then cur # split_unescaped seps q [] rest
      else split_unescaped seps q (cur @ [c]) rest)"
  by pat_completeness auto

termination split_unescaped
  by (relation "measure (\<lambda>(_, _, _, s). length s)") auto

text \<open>The value of a part that is a common name.\<close>

definition cn_of_rdn :: "string \<Rightarrow> string option" where
  "cn_of_rdn rdn =
     (let pieces = split_unescaped ''='' False [] rdn in
      if py_strip rdn = [] \<or> length pieces < 2 \<or> py_upper (py_strip (hd pieces)) \<noteq> ''CN'' then None
      else Some (py_strip (unescape_dn_value (join ''='' (tl pieces)))))"

definition single_cn :: "string list \<Rightarrow> string option" where
  "single_cn found = (case found of [v] \<Rightarrow> if v = [] then None else Some v | _ \<Rightarrow> None)"

definition extract_cn :: "string \<Rightarrow> string option" where
  "extract_cn dn0 =
     (let dn = py_strip dn0 in
      if dn = [] then None
      else single_cn (List.map_filter cn_of_rdn
             (split_unescaped (if hd dn = CHR ''/'' then ''/'' else '',+'') False [] dn)))"

section \<open>The request\<close>

definition verify_ok :: string where "verify_ok = ''SUCCESS''"
definition proxy_secret_header :: string where "proxy_secret_header = ''x-hp-portal-secret''"

definition peer_is_trusted :: "(string \<Rightarrow> string \<Rightarrow> bool) \<Rightarrow> string option \<Rightarrow> portal_trust \<Rightarrow> bool" where
  "peer_is_trusted inside peer t =
     (case peer of None \<Rightarrow> False | Some p \<Rightarrow> p \<noteq> [] \<and> list_ex (inside p) (pt_networks t))"

text \<open>The common name, or why the request is refused.\<close>

definition assert_trusted_cn ::
  "(string \<Rightarrow> string \<Rightarrow> bool) \<Rightarrow> string option \<Rightarrow> (string \<Rightarrow> string option) \<Rightarrow> portal_trust \<Rightarrow> string + string" where
  "assert_trusted_cn inside peer headers t =
     (if \<not> peer_is_trusted inside peer t then Inl ''source address is not a trusted proxy''
      else if setting_text (headers proxy_secret_header) \<noteq> pt_proxy_secret t
      then Inl ''proxy shared secret missing or wrong''
      else if py_upper (py_strip (setting_text (headers (pt_verify_header t)))) \<noteq> verify_ok
      then Inl ''client certificate was not verified by the proxy''
      else case extract_cn (setting_text (headers (pt_cn_header t))) of
        None \<Rightarrow> Inl ''client certificate carries no usable CN''
      | Some cn \<Rightarrow> Inr cn)"

section \<open>Rendered names\<close>

text \<open>How a proxy writes a subject (RFC 4514): each special character of a value behind a backslash.\<close>

definition special :: "char \<Rightarrow> bool" where
  "special c = (c \<in> {CHR '','', CHR ''+'', quote, backslash, CHR ''<'', CHR ''>'', CHR '';''})"

definition escape_dn_value :: "string \<Rightarrow> string" where
  "escape_dn_value v = concat (map (\<lambda>c. if special c then [backslash, c] else [c]) v)"

definition rdn_text :: "string \<Rightarrow> string \<Rightarrow> string" where
  "rdn_text t v = t @ CHR ''='' # escape_dn_value v"

text \<open>The attributes in order, each with the separator in front of the next one.\<close>

fun dn_text :: "(char \<times> string \<times> string) list \<Rightarrow> string" where
  "dn_text [] = []"
| "dn_text [(_, t, v)] = rdn_text t v"
| "dn_text ((sep, t, v) # a # as) = rdn_text t v @ sep # dn_text (a # as)"

lemma escape_simps [simp]:
  "escape_dn_value [] = []" "escape_dn_value (c # v) = (if special c then [backslash, c] else [c]) @ escape_dn_value v"
  by (simp_all add: escape_dn_value_def)

lemma special_not_hex: "special c \<Longrightarrow> hex_value c = None"
  by (auto simp: special_def hex_value_def)

lemma special_chars [simp]: "special backslash" "special quote" "special (CHR '','')" "special (CHR ''+'')" "\<not> special (CHR ''='')"
  by (simp_all add: special_def)

lemma unescape_step [simp]:
  "c \<noteq> backslash \<Longrightarrow> unescape_dn_value (c # rest) = c # unescape_dn_value rest"
  "special c \<Longrightarrow> unescape_dn_value (backslash # c # rest) = c # unescape_dn_value rest"
  by (simp, cases rest) (simp_all add: special_not_hex)

lemma unescape_escape: "unescape_dn_value (escape_dn_value v) = v"
proof (induction v)
  case (Cons c v)
  show ?case
  proof (cases "special c")
    case False
    then have "c \<noteq> backslash" by auto
    then show ?thesis using Cons False by (simp del: unescape_dn_value.simps)
  qed (use Cons in \<open>simp del: unescape_dn_value.simps\<close>)
qed simp

lemma split_escaped:
  "\<forall>c\<in>set seps. special c \<Longrightarrow> split_unescaped seps False cur (escape_dn_value v @ rest) = split_unescaped seps False (cur @ escape_dn_value v) rest"
proof (induction v arbitrary: cur)
  case (Cons c v)
  show ?case
  proof (cases "special c")
    case False
    then have "c \<noteq> backslash" "c \<noteq> quote" "c \<notin> set seps" using Cons.prems by auto
    then show ?thesis using Cons False by simp
  qed (use Cons in simp)
qed simp

lemma split_plain:
  "\<forall>c\<in>set t. c \<noteq> backslash \<and> c \<noteq> quote \<and> c \<notin> set seps \<Longrightarrow> split_unescaped seps False cur (t @ rest) = split_unescaped seps False (cur @ t) rest"
  by (induction t arbitrary: cur) auto

lemma split_nonempty: "split_unescaped seps q cur s \<noteq> []"
  by (induction seps q cur s rule: split_unescaped.induct) auto

lemma join_Cons_nonempty: "xs \<noteq> [] \<Longrightarrow> join sep (x # xs) = x @ sep @ join sep xs"
  by (cases xs) auto

lemma join_split_equals: "join ''='' (split_unescaped ''='' False cur (escape_dn_value v)) = cur @ escape_dn_value v"
proof (induction v arbitrary: cur)
  case (Cons c v)
  show ?case
  proof (cases "special c")
    case True
    then show ?thesis using Cons by simp
  next
    case False
    then have n: "c \<noteq> backslash" "c \<noteq> quote" by auto
    show ?thesis
    proof (cases "c = CHR ''=''")
      case True
      then show ?thesis using Cons False by (simp add: join_Cons_nonempty split_nonempty)
    qed (use Cons False n in simp)
  qed
qed simp

text \<open>An attribute as a certificate can carry it: a name of letters and digits, any value without spaces around it.\<close>

definition attribute_ok :: "char \<times> string \<times> string \<Rightarrow> bool" where
  "attribute_ok a = (case a of (sep, t, v) \<Rightarrow> sep \<in> {CHR '','', CHR ''+''} \<and> t \<noteq> [] \<and> list_all is_alnum t \<and> py_strip v = v)"

definition common_names :: "(char \<times> string \<times> string) list \<Rightarrow> string list" where
  "common_names attrs = map (\<lambda>(_, _, v). v) (filter (\<lambda>(_, t, _). py_upper t = ''CN'') attrs)"

lemma alnum_plain: "is_alnum c \<Longrightarrow> c \<noteq> backslash \<and> c \<noteq> quote \<and> c \<notin> set '',+='' \<and> c \<noteq> CHR ''/'' \<and> \<not> py_isspace c"
  by (auto simp: is_alnum_def is_lower_def is_upper_def is_digit_def Let_def py_isspace_def)

lemma rdn_split:
  assumes "list_all is_alnum t"
  shows "split_unescaped '',+'' False [] (rdn_text t v @ rest) = split_unescaped '',+'' False (rdn_text t v) rest"
proof -
  have "\<forall>c\<in>set (t @ ''=''). c \<noteq> backslash \<and> c \<noteq> quote \<and> c \<notin> set '',+''"
    using assms alnum_plain by (fastforce simp: list_all_iff)
  from split_plain [OF this, of "[]" "escape_dn_value v @ rest"]
  show ?thesis by (simp add: rdn_text_def split_escaped)
qed

lemma rdn_cn:
  assumes "t \<noteq> []" "list_all is_alnum t" "py_strip v = v"
  shows "cn_of_rdn (rdn_text t v) = (if py_upper t = ''CN'' then Some v else None)"
proof -
  have plain: "\<forall>c\<in>set t. c \<noteq> backslash \<and> c \<noteq> quote \<and> c \<notin> set ''=''"
    using assms(2) alnum_plain by (fastforce simp: list_all_iff)
  have p: "split_unescaped ''='' False [] (rdn_text t v) = t # split_unescaped ''='' False [] (escape_dn_value v)"
    using split_plain [OF plain, of "[]" "CHR ''='' # escape_dn_value v"] by (simp add: rdn_text_def)
  have s: "py_strip t = t" using assms(2) alnum_plain by (intro py_strip_no_space) (auto simp: list_all_iff)
  have "hd t \<in> set t" using assms(1) by simp
  then have "\<not> py_isspace (hd (rdn_text t v))" "rdn_text t v \<noteq> []"
    using assms(1,2) alnum_plain by (auto simp: rdn_text_def list_all_iff)
  then have "py_strip (rdn_text t v) \<noteq> []"
    by (cases "rdn_text t v") (auto simp: py_strip_def py_lstrip_def py_rstrip_def)
  then show ?thesis using p s join_split_equals [of "[]" v] assms(3)
    by (simp add: cn_of_rdn_def split_nonempty unescape_escape)
qed

lemma dn_split:
  "\<forall>a\<in>set attrs. attribute_ok a \<Longrightarrow> attrs \<noteq> []
    \<Longrightarrow> split_unescaped '',+'' False [] (dn_text attrs) = map (\<lambda>(_, t, v). rdn_text t v) attrs"
proof (induction attrs rule: dn_text.induct)
  case (2 sep t v)
  then show ?case using rdn_split [of t v "[]"] by (simp add: attribute_ok_def)
next
  case (3 sep t v a as)
  have ok: "list_all is_alnum t" "sep = CHR '','' \<or> sep = CHR ''+''" using 3(2) by (auto simp: attribute_ok_def)
  then have "split_unescaped '',+'' False (rdn_text t v) (sep # dn_text (a # as))
      = rdn_text t v # split_unescaped '',+'' False [] (dn_text (a # as))" by auto
  then show ?case using 3 ok(1) by (simp add: rdn_split)
qed simp

lemma last_escape: "v \<noteq> [] \<Longrightarrow> escape_dn_value v \<noteq> [] \<and> last (escape_dn_value v) = last v"
  by (induction v) auto

lemma last_stripped: "py_strip v = v \<Longrightarrow> v \<noteq> [] \<Longrightarrow> \<not> py_isspace (last v)"
proof -
  assume s: "py_strip v = v" and n: "v \<noteq> []"
  obtain u where u: "v = rev (dropWhile py_isspace u)" using s by (metis py_strip_def py_rstrip_def)
  then have "dropWhile py_isspace u \<noteq> []" using n by auto
  then show ?thesis using hd_dropWhile [of py_isspace u] u by (simp add: last_rev)
qed

lemma strip_ends: "s \<noteq> [] \<Longrightarrow> \<not> py_isspace (hd s) \<Longrightarrow> \<not> py_isspace (last s) \<Longrightarrow> py_strip s = s"
proof -
  assume s: "s \<noteq> []" "\<not> py_isspace (hd s)" "\<not> py_isspace (last s)"
  have "dropWhile py_isspace s = s" using s(1,2) by (cases s) auto
  moreover have "dropWhile py_isspace (rev s) = rev s" using s(1,3) by (cases s rule: rev_cases) auto
  ultimately show ?thesis by (simp add: py_strip_def py_lstrip_def py_rstrip_def)
qed

lemma rdn_ends:
  assumes "t \<noteq> []" "list_all is_alnum t" "py_strip v = v"
  shows "rdn_text t v \<noteq> [] \<and> is_alnum (hd (rdn_text t v)) \<and> \<not> py_isspace (last (rdn_text t v))"
proof -
  have "is_alnum (hd t)" using assms(1,2) by (cases t) auto
  moreover have "\<not> py_isspace (last (CHR ''='' # escape_dn_value v))"
    using last_escape [of v] last_stripped [OF assms(3)] by (cases "v = []") (auto simp: py_isspace_def)
  ultimately show ?thesis using assms(1) by (simp add: rdn_text_def)
qed

lemma dn_ends:
  "\<forall>a\<in>set attrs. attribute_ok a \<Longrightarrow> attrs \<noteq> []
    \<Longrightarrow> dn_text attrs \<noteq> [] \<and> is_alnum (hd (dn_text attrs)) \<and> \<not> py_isspace (last (dn_text attrs))"
proof (induction attrs rule: dn_text.induct)
  case (2 sep t v)
  then show ?case using rdn_ends [of t v] by (simp add: attribute_ok_def)
next
  case (3 sep t v a as)
  then show ?case using rdn_ends [of t v] by (auto simp: attribute_ok_def)
qed simp

section \<open>Properties\<close>



text \<open>The older form of a subject does not escape its separator, so there the value of another attribute can.\<close>

lemma oneline_forged: "extract_cn ''/C=FI/O=x/CN=admin'' = Some ''admin''"
  by code_simp

text \<open>A value outside ASCII comes as the bytes of its UTF-8 form and is read byte by byte.\<close>

lemma utf8_read_as_bytes: "extract_cn (''CN=J'' @ [backslash] @ ''C3'' @ [backslash] @ ''A4'') = Some (''J'' @ [CHR 0xC3, CHR 0xA4])"
  by code_simp

lemma trusted_request:
  "assert_trusted_cn inside peer headers t = Inr cn \<longleftrightarrow>
     (\<exists>p c. peer = Some p \<and> p \<noteq> [] \<and> c \<in> set (pt_networks t) \<and> inside p c)
     \<and> setting_text (headers proxy_secret_header) = pt_proxy_secret t
     \<and> py_upper (py_strip (setting_text (headers (pt_verify_header t)))) = ''SUCCESS''
     \<and> extract_cn (setting_text (headers (pt_cn_header t))) = Some cn"
  by (auto simp: assert_trusted_cn_def peer_is_trusted_def verify_ok_def list_ex_iff split: option.splits if_splits)

text \<open>A loaded configuration has all three layers: a request without the secret is never trusted.\<close>

lemma loaded_trust:
  "load_trust is_network s = Inr t \<Longrightarrow> pt_proxy_secret t \<noteq> [] \<and> pt_networks t \<noteq> [] \<and> pt_cn_header t \<noteq> [] \<and> pt_verify_header t \<noteq> []
     \<and> (\<forall>c\<in>set (pt_networks t). is_network c)"
  by (auto simp: load_trust_def Let_def list_ex_iff split: if_splits)

end
