(* ===== verification/Access_Tokens.thy ===== *)
theory Access_Tokens
  imports Artifact_Models
begin

text \<open>
  Who may call what: API tokens and their scopes (\<^verbatim>\<open>auth/tokens.py\<close>, \<^verbatim>\<open>auth/scopes.py\<close>,
  \<^verbatim>\<open>auth/deps.py\<close>), the two gates of \<^verbatim>\<open>auth/router.py\<close> that also take the admin secret, and the
  credential rule and tool tiers of \<^verbatim>\<open>mcp/server.py\<close>.

  The state is the table of tokens.  SHA-256 and the reading of a date (whether it lies in the past, or the
  exception) are arguments.
\<close>

section \<open>Scopes\<close>

definition role_scopes :: "(string \<times> string list) list" where
  "role_scopes = [(''viewer'', [''read'']), (''operator'', [''read'', ''write'']), (''admin'', [''read'', ''write'', ''admin''])]"

definition scopes_for_role :: "string option \<Rightarrow> string list" where
  "scopes_for_role role = (case role of None \<Rightarrow> [] | Some r \<Rightarrow> (case map_of role_scopes r of None \<Rightarrow> [] | Some s \<Rightarrow> s))"

definition scope_parts :: "string \<Rightarrow> string list" where
  "scope_parts s = filter (\<lambda>p. p \<noteq> []) (map py_strip (split_on (CHR '','') s))"

definition normalize_scope :: "string option \<Rightarrow> string option \<Rightarrow> string list" where
  "normalize_scope scope role =
     (case (case role of None \<Rightarrow> None | Some r \<Rightarrow> map_of role_scopes r) of
        Some scopes \<Rightarrow> scopes
      | None \<Rightarrow>
          (let stripped = py_strip (case scope of None \<Rightarrow> [] | Some s \<Rightarrow> s); parts = scope_parts stripped in
           if scope = None \<or> scope = Some [] then []
           else if stripped \<in> {''all'', ''full'', ''*''} then [''*'']
           else if stripped = ''read_only'' then [''read'']
           else if ''admin'' \<in> set parts then sort (remdups (parts @ [''read'', ''write'', ''admin'']))
           else parts))"

definition validate_scope :: "string option \<Rightarrow> string list res" where
  "validate_scope scope =
     (let raw = py_strip (case scope of None \<Rightarrow> [] | Some s \<Rightarrow> s); parts = scope_parts raw in
      if raw = [] then Inl (ValueError ''A token needs a scope'')
      else if raw \<in> {''all'', ''full'', ''*'', ''read_only''} then Inr (normalize_scope (Some raw) None)
      else if list_ex (\<lambda>p. p \<notin> {''read'', ''write'', ''admin''}) parts \<or> parts = [] then Inl (ValueError ''Unknown scope'')
      else Inr (normalize_scope (Some raw) None))"

definition scope_allows :: "string option \<Rightarrow> string \<Rightarrow> string option \<Rightarrow> bool" where
  "scope_allows scope action role =
     (let normalized = normalize_scope scope role in ''*'' \<in> set normalized \<or> action \<in> set normalized)"

definition mcp_tier_for_token :: "string option \<Rightarrow> string option \<Rightarrow> string option" where
  "mcp_tier_for_token scope role =
     (let normalized = set (normalize_scope scope role) in
      if ''*'' \<in> normalized then Some ''admin''
      else if ''admin'' \<in> normalized then Some ''admin''
      else if ''write'' \<in> normalized then Some ''full''
      else if ''read'' \<in> normalized then Some ''read_only'' else None)"

section \<open>Tokens\<close>

definition prefix_length :: nat where "prefix_length = 16"

record token_row =
  tr_id :: string
  tr_user :: string
  tr_prefix :: string
  tr_hash :: string
  tr_scope :: "string option"
  tr_role :: "string option"
  tr_expires :: "string option"

type_synonym token_table = "token_row list"

record token_env =
  tk_sha256 :: "string \<Rightarrow> string"
  tk_past :: "string \<Rightarrow> bool res"

definition validate_token :: "token_env \<Rightarrow> string \<Rightarrow> string \<Rightarrow> bool" where
  "validate_token env token token_hash = (tk_sha256 env token = token_hash)"

text \<open>\<open>generate_api_token\<close>: the token with the drawn part, its prefix and its hash.\<close>

definition generate_api_token :: "token_env \<Rightarrow> string \<Rightarrow> string \<times> string \<times> string" where
  "generate_api_token env raw = (let full = ''hp_'' @ raw in (full, take prefix_length full, tk_sha256 env full))"

definition get_token_by_prefix :: "token_table \<Rightarrow> string \<Rightarrow> token_row option" where
  "get_token_by_prefix tab p = find (\<lambda>r. tr_prefix r = p) tab"

definition delete_token :: "string \<Rightarrow> token_table \<Rightarrow> token_table" where
  "delete_token i tab = filter (\<lambda>r. tr_id r \<noteq> i) tab"

text \<open>Whether a row has expired; a row without a date never does.\<close>

definition row_expired :: "token_env \<Rightarrow> token_row \<Rightarrow> bool res" where
  "row_expired env r = (case tr_expires r of None \<Rightarrow> Inr False | Some [] \<Rightarrow> Inr False | Some d \<Rightarrow> tk_past env d)"

section \<open>Requests\<close>

record http_req =
  rq_method :: string
  rq_authorization :: "string option"
  rq_token_cookie :: "string option"
  rq_csrf_cookie :: "string option"
  rq_header :: "string \<Rightarrow> string option"

datatype http_refusal = Http_status nat string | Crashed exn

type_synonym 'a http_answer = "http_refusal + 'a"

text \<open>What a call learns of its token: the scope and the role decide.\<close>

record token_info =
  ti_user :: "string option"
  ti_id :: string
  ti_scope :: "string option"
  ti_role :: "string option"

definition given :: "string option \<Rightarrow> bool" where
  "given s = (s \<noteq> None \<and> s \<noteq> Some [])"

text \<open>\<open>authorization.split(" ", 1)\<close>, where both parts are there.\<close>

definition split_scheme :: "string \<Rightarrow> (string \<times> string) option" where
  "split_scheme s = (if CHR '' '' \<in> set s then Some (takeWhile (\<lambda>c. c \<noteq> CHR '' '') s, tl (dropWhile (\<lambda>c. c \<noteq> CHR '' '') s)) else None)"

text \<open>The token a request presents, and whether it came in a cookie.\<close>

definition presented_token :: "http_req \<Rightarrow> (string \<times> bool) http_answer" where
  "presented_token rq =
     (if given (rq_authorization rq)
      then (case split_scheme (the (rq_authorization rq)) of
              None \<Rightarrow> Inl (Http_status 401 ''Invalid Authorization header format'')
            | Some (scheme, token) \<Rightarrow>
                (if py_lower scheme \<noteq> ''bearer'' then Inl (Http_status 401 ''Invalid Authorization header format'')
                 else if token = [] then Inl (Http_status 401 ''Missing credentials'')
                 else Inr (token, False)))
      else if given (rq_token_cookie rq) then Inr (the (rq_token_cookie rq), True)
      else Inl (Http_status 401 ''Missing credentials''))"

definition safe_method :: "string \<Rightarrow> bool" where
  "safe_method m = (m \<in> {''GET'', ''HEAD'', ''OPTIONS''})"

text \<open>The check against forged requests, for a cookie and a method that may change something.\<close>

definition csrf_ok :: "http_req \<Rightarrow> unit http_answer" where
  "csrf_ok rq =
     (if \<not> given (rq_csrf_cookie rq) \<or> rq_header rq ''x-csrf-token'' \<noteq> rq_csrf_cookie rq
      then Inl (Http_status 403 ''CSRF token missing or invalid'')
      else if \<not> given (rq_header rq ''x-requested-with'')
      then Inl (Http_status 403 ''Missing X-Requested-With header (CSRF protection)'')
      else Inr ())"

definition require_token :: "token_env \<Rightarrow> token_table \<Rightarrow> http_req \<Rightarrow> token_info http_answer" where
  "require_token env tab rq =
     (case presented_token rq of
        Inl e \<Rightarrow> Inl e
      | Inr (raw, using_cookie) \<Rightarrow>
          (case get_token_by_prefix tab (take prefix_length raw) of
             None \<Rightarrow> Inl (Http_status 401 ''Invalid token'')
           | Some row \<Rightarrow>
               (if \<not> validate_token env raw (tr_hash row) then Inl (Http_status 401 ''Invalid token'')
                else case row_expired env row of
                  Inl e \<Rightarrow> Inl (Crashed e)
                | Inr True \<Rightarrow> Inl (Http_status 401 ''Token expired'')
                | Inr False \<Rightarrow>
                    (case (if using_cookie \<and> \<not> safe_method (rq_method rq) then csrf_ok rq else Inr ()) of
                       Inl e \<Rightarrow> Inl e
                     | Inr _ \<Rightarrow> Inr \<lparr>ti_user = Some (tr_user row), ti_id = tr_id row, ti_scope = tr_scope row, ti_role = tr_role row\<rparr>))))"

definition require_scope :: "string \<Rightarrow> token_info \<Rightarrow> token_info http_answer" where
  "require_scope scope token =
     (let normalized = normalize_scope (ti_scope token) (ti_role token) in
      if normalized = [] then Inl (Http_status 403 (''Token has no scope assigned, requires '' @ scope))
      else if ''*'' \<in> set normalized \<or> scope \<in> set normalized then Inr token
      else Inl (Http_status 403 (''Insufficient scope: requires '' @ scope)))"

section \<open>The admin gates\<close>

definition header_secret :: "http_req \<Rightarrow> string" where
  "header_secret rq =
     (case rq_header rq ''x-hp-admin-secret'' of
        Some (c # cs) \<Rightarrow> c # cs
      | _ \<Rightarrow> (case rq_header rq ''x-admin-secret'' of None \<Rightarrow> [] | Some s \<Rightarrow> s))"

definition secret_caller :: token_info where
  "secret_caller = \<lparr>ti_user = None, ti_id = ''admin-secret'', ti_scope = None, ti_role = None\<rparr>"

definition admin_token :: "token_env \<Rightarrow> token_table \<Rightarrow> http_req \<Rightarrow> token_info http_answer" where
  "admin_token env tab rq =
     (case require_token env tab rq of
        Inl e \<Rightarrow> Inl e
      | Inr token \<Rightarrow>
          (let normalized = set (normalize_scope (ti_scope token) (ti_role token)) in
           if ''*'' \<in> normalized \<or> ''admin'' \<in> normalized then Inr token
           else Inl (Http_status 403 ''Insufficient scope: requires admin'')))"

definition require_admin_or_secret :: "token_env \<Rightarrow> string \<Rightarrow> token_table \<Rightarrow> http_req \<Rightarrow> token_info http_answer" where
  "require_admin_or_secret env admin_secret tab rq =
     (if header_secret rq \<noteq> [] \<and> admin_secret \<noteq> [] \<and> header_secret rq = admin_secret then Inr secret_caller
      else admin_token env tab rq)"

definition authorize_mint :: "token_env \<Rightarrow> string \<Rightarrow> token_table \<Rightarrow> http_req \<Rightarrow> token_info http_answer" where
  "authorize_mint env admin_secret tab rq =
     (let has_token = given (rq_authorization rq) \<or> given (rq_token_cookie rq);
          refused = Inl (Http_status 403 ''Token creation requires an admin'');
          by_token = (if has_token then admin_token env tab rq else refused) in
      if header_secret rq = [] then by_token
      else if admin_secret = []
      then (if has_token then by_token else Inl (Http_status 403 ''HP_ADMIN_SECRET must be configured to use admin token creation''))
      else if header_secret rq = admin_secret then Inr secret_caller
      else if has_token then by_token else Inl (Http_status 403 ''Invalid admin secret''))"

section \<open>MCP\<close>

text \<open>\<open>resolve_api_token_tier\<close>: a date that cannot be read counts as expired here; a naive one raises.\<close>

definition resolve_api_token_tier :: "token_env \<Rightarrow> token_table \<Rightarrow> string \<Rightarrow> (string \<times> string) option res" where
  "resolve_api_token_tier env tab raw =
     (case get_token_by_prefix tab (take prefix_length raw) of
        None \<Rightarrow> Inr None
      | Some row \<Rightarrow>
          (if \<not> validate_token env raw (tr_hash row) then Inr None
           else case row_expired env row of
             Inl (ValueError _) \<Rightarrow> Inr None
           | Inl e \<Rightarrow> Inl e
           | Inr True \<Rightarrow> Inr None
           | Inr False \<Rightarrow> Inr (map_option (\<lambda>tier. (tier, ''mcp-api:'' @ tr_prefix row)) (mcp_tier_for_token (tr_scope row) (tr_role row)))))"

definition resolve_mcp_credential :: "token_env \<Rightarrow> token_table \<Rightarrow> string \<Rightarrow> string \<Rightarrow> string \<Rightarrow> (string \<times> string) option res" where
  "resolve_mcp_credential env tab raw legacy_token legacy_scope =
     (let token = py_strip raw in
      if token = [] then Inr None
      else if prefix ''hp_'' token then resolve_api_token_tier env tab token
      else if legacy_token = [] then Inr None
      else if \<not> list_all (\<lambda>c. (of_char c :: nat) < 128) (token @ legacy_token) then Inl (TypeError ''comparing strings with non-ASCII characters is not supported'')
      else if token = legacy_token then Inr (Some (legacy_scope, ''mcp-http'')) else Inr None)"

text \<open>The tier check of \<open>_handle_tool\<close>; the two sets of tools are arguments.\<close>

definition tool_allowed :: "string set \<Rightarrow> string set \<Rightarrow> string \<Rightarrow> string option \<Rightarrow> bool" where
  "tool_allowed admin_tools mutating_tools name tier =
     (\<not> (name \<in> admin_tools \<and> tier \<noteq> Some ''admin'') \<and> \<not> (name \<in> mutating_tools \<and> tier = Some ''read_only''))"

section \<open>Properties\<close>

text \<open>A live row that opens with the token.\<close>

definition opens :: "token_env \<Rightarrow> token_table \<Rightarrow> string \<Rightarrow> token_row \<Rightarrow> bool" where
  "opens env tab raw row = (row \<in> set tab \<and> tr_hash row = tk_sha256 env raw \<and> row_expired env row = Inr False)"

lemma found_in: "get_token_by_prefix tab p = Some row \<Longrightarrow> row \<in> set tab \<and> tr_prefix row = p"
  unfolding get_token_by_prefix_def find_Some_iff by auto

lemma require_token_opens:
  assumes "require_token env tab rq = Inr info"
  shows "\<exists>raw cookie row. presented_token rq = Inr (raw, cookie) \<and> opens env tab raw row
    \<and> info = \<lparr>ti_user = Some (tr_user row), ti_id = tr_id row, ti_scope = tr_scope row, ti_role = tr_role row\<rparr>
    \<and> (cookie \<and> \<not> safe_method (rq_method rq) \<longrightarrow> csrf_ok rq = Inr ())"
proof -
  obtain raw cookie where p: "presented_token rq = Inr (raw, cookie)"
    using assms by (cases "presented_token rq") (auto simp: require_token_def)
  obtain row where r: "get_token_by_prefix tab (take prefix_length raw) = Some row"
    using assms p by (auto simp: require_token_def split: option.splits)
  have v: "validate_token env raw (tr_hash row)" "row_expired env row = Inr False"
    using assms p r by (auto simp: require_token_def split: if_splits sum.splits bool.splits)
  have c: "(if cookie \<and> \<not> safe_method (rq_method rq) then csrf_ok rq else Inr ()) = Inr ()"
    using assms p r v by (auto simp: require_token_def split: if_splits sum.splits)
  have i: "info = \<lparr>ti_user = Some (tr_user row), ti_id = tr_id row, ti_scope = tr_scope row, ti_role = tr_role row\<rparr>"
    using assms p r v c by (auto simp: require_token_def)
  have "opens env tab raw row" using found_in [OF r] v by (simp add: opens_def validate_token_def)
  then show ?thesis using p i c by (auto split: if_splits)
qed

lemma scoped_request_authorised:
  assumes "require_token env tab rq = Inr info" "require_scope s info = Inr info'"
  shows "\<exists>raw cookie row. presented_token rq = Inr (raw, cookie) \<and> opens env tab raw row
    \<and> scope_allows (tr_scope row) s (tr_role row) \<and> (cookie \<and> \<not> safe_method (rq_method rq) \<longrightarrow> csrf_ok rq = Inr ())"
  using require_token_opens [OF assms(1)] assms(2)
  by (auto simp: require_scope_def scope_allows_def Let_def split: if_splits)

lemma admin_token_opens:
  "admin_token env tab rq = Inr info \<Longrightarrow> \<exists>raw cookie row. presented_token rq = Inr (raw, cookie) \<and> opens env tab raw row
     \<and> scope_allows (tr_scope row) ''admin'' (tr_role row)"
  by (auto simp: admin_token_def Let_def scope_allows_def split: sum.splits if_splits dest!: require_token_opens)

lemma tier_scopes:
  assumes "mcp_tier_for_token scope role = Some tier"
  shows "tier = ''admin'' \<and> scope_allows scope ''admin'' role \<or> tier = ''full'' \<and> scope_allows scope ''write'' role
    \<or> tier = ''read_only'' \<and> scope_allows scope ''read'' role"
  using assms by (auto simp: mcp_tier_for_token_def scope_allows_def Let_def split: if_splits)

text \<open>
  C18: what an MCP credential may do is what its token may do.  A credential that resolves and is let through to a
  tool either is a live API token, whose row allows admin for an admin tool and write or admin for a tool that changes
  something, or it is the configured secret, does not look like an API token, and has the configured tier.  So a token
  that was revoked or has expired opens nothing, whatever the secret is.
\<close>

theorem mcp_call_authorised:
  assumes "resolve_mcp_credential env tab raw legacy_token legacy_scope = Inr (Some (tier, caller))"
    and "tool_allowed admin_tools mutating_tools name (Some tier)"
  shows "(prefix ''hp_'' (py_strip raw)
       \<and> (\<exists>row. opens env tab (py_strip raw) row
            \<and> (name \<in> admin_tools \<longrightarrow> scope_allows (tr_scope row) ''admin'' (tr_role row))
            \<and> (name \<in> mutating_tools \<longrightarrow> scope_allows (tr_scope row) ''write'' (tr_role row) \<or> scope_allows (tr_scope row) ''admin'' (tr_role row))))
    \<or> (\<not> prefix ''hp_'' (py_strip raw) \<and> py_strip raw = legacy_token \<and> legacy_token \<noteq> [] \<and> tier = legacy_scope)"
proof (cases "prefix ''hp_'' (py_strip raw)")
  case False
  then show ?thesis using assms(1) by (auto simp: resolve_mcp_credential_def Let_def split: if_splits)
next
  case True
  let ?t = "py_strip raw"
  have r: "resolve_api_token_tier env tab ?t = Inr (Some (tier, caller))"
    using assms(1) True by (auto simp: resolve_mcp_credential_def Let_def split: if_splits)
  obtain row where row: "get_token_by_prefix tab (take prefix_length ?t) = Some row"
    using r by (auto simp: resolve_api_token_tier_def split: option.splits)
  have v: "validate_token env ?t (tr_hash row)" "row_expired env row = Inr False"
    using r row by (auto simp: resolve_api_token_tier_def split: if_splits sum.splits bool.splits exn.splits)
  have m: "mcp_tier_for_token (tr_scope row) (tr_role row) = Some tier"
    using r row v by (auto simp: resolve_api_token_tier_def)
  have o: "opens env tab ?t row" using found_in [OF row] v by (simp add: opens_def validate_token_def)
  have a: "name \<in> admin_tools \<longrightarrow> scope_allows (tr_scope row) ''admin'' (tr_role row)"
    "name \<in> mutating_tools \<longrightarrow> scope_allows (tr_scope row) ''write'' (tr_role row) \<or> scope_allows (tr_scope row) ''admin'' (tr_role row)"
    using tier_scopes [OF m] assms(2) by (auto simp: tool_allowed_def)
  show ?thesis using True o a by blast
qed

text \<open>A scope that mints is one the gates know, and it grants something.\<close>

lemma minted_scope_usable:
  assumes "validate_scope scope = Inr granted"
  shows "granted \<noteq> [] \<and> set granted \<subseteq> {''*'', ''read'', ''write'', ''admin''} \<and> (\<exists>action. scope_allows scope action None)"
proof -
  have e: "py_strip [] = []" by (simp add: py_strip_def py_lstrip_def)
  obtain s where s: "scope = Some s" "py_strip s \<noteq> []" "s \<noteq> []"
  proof (cases "py_strip (case scope of None \<Rightarrow> [] | Some s \<Rightarrow> s) = []")
    case True
    then show ?thesis using assms by (simp add: validate_scope_def)
  next
    case False
    then obtain s where s: "scope = Some s" using e by (cases scope) simp_all
    then have n: "py_strip s \<noteq> []" using False by simp
    then have "s \<noteq> []" using e by metis
    with s n show ?thesis by (rule that)
  qed
  have g: "granted = normalize_scope (Some (py_strip s)) None"
    using assms s by (auto simp: validate_scope_def Let_def split: if_splits)
  have same: "normalize_scope (Some (py_strip s)) None = normalize_scope scope None"
    using s by (auto simp: normalize_scope_def Let_def)
  let ?raw = "py_strip s" let ?parts = "scope_parts ?raw"
  have "granted \<noteq> [] \<and> set granted \<subseteq> {''*'', ''read'', ''write'', ''admin''}"
  proof (cases "?raw \<in> {''all'', ''full'', ''*'', ''read_only''}")
    case True
    have "normalize_scope (Some ''all'') None = [''*'']" "normalize_scope (Some ''full'') None = [''*'']"
      "normalize_scope (Some ''*'') None = [''*'']" "normalize_scope (Some ''read_only'') None = [''read'']" by code_simp+
    with True g show ?thesis by (elim insertE) simp_all
  next
    case False
    then have ok: "\<not> (list_ex (\<lambda>p. p \<notin> {''read'', ''write'', ''admin''}) ?parts \<or> ?parts = [])"
      using assms s(1,2) by (cases "list_ex (\<lambda>p. p \<notin> {''read'', ''write'', ''admin''}) ?parts \<or> ?parts = []")
        (simp_all only: validate_scope_def Let_def option.case if_True if_False sum.distinct not_False_eq_True)
    have "granted = (if ''admin'' \<in> set ?parts then sort (remdups (?parts @ [''read'', ''write'', ''admin''])) else ?parts)"
      using g False s(2) by (simp add: normalize_scope_def Let_def)
    moreover have "set ?parts \<subseteq> {''read'', ''write'', ''admin''}" "?parts \<noteq> []" using ok by (auto simp: list_ex_iff)
    ultimately show ?thesis by (cases "''admin'' \<in> set ?parts") (auto dest: arg_cong [where f = set])
  qed
  moreover from this obtain a where "a \<in> set (normalize_scope scope None)" using g same hd_in_set [of granted] by metis
  ultimately show ?thesis by (auto simp: scope_allows_def Let_def)
qed

text \<open>The ladder is not closed: a token minted with write alone has the tier that includes the read tools, and is refused every read route.\<close>

lemma write_without_read:
  "validate_scope (Some ''write'') = Inr [''write''] \<and> mcp_tier_for_token (Some ''write'') None = Some ''full''
    \<and> \<not> scope_allows (Some ''write'') ''read'' None"
  by code_simp

text \<open>A credential that is no API token and has a character above 127 raises where a configured secret is compared.\<close>

lemma non_ascii_raises:
  "resolve_mcp_credential env tab [CHR 0xE9] ''secret'' legacy_scope = Inl (TypeError ''comparing strings with non-ASCII characters is not supported'')"
proof -
  have "py_strip [CHR 0xE9] = [CHR 0xE9]" "prefix ''hp_'' [CHR 0xE9] = False" "list_all (\<lambda>c. (of_char c :: nat) < 128) ([CHR 0xE9] @ ''secret'') = False"
    by code_simp+
  then show ?thesis by (simp add: resolve_mcp_credential_def Let_def)
qed

text \<open>A tier that is none of the three, such as a misspelt one, is not read only: the tools that change something are open to it.\<close>

lemma unknown_tier_mutates: "name \<notin> admin_tools \<Longrightarrow> tool_allowed admin_tools mutating_tools name (Some ''readonly'')"
  by (simp add: tool_allowed_def)

section \<open>An example\<close>

definition sample_token :: string where
  "sample_token = ''hp_00000000000000aa''"

definition sample_tokens :: token_table where
  "sample_tokens = [\<lparr>tr_id = ''t1'', tr_user = ''u1'', tr_prefix = ''hp_0000000000000'', tr_hash = sample_token, tr_scope = Some ''read,write'',
     tr_role = None, tr_expires = None\<rparr>]"

definition sample_token_env :: token_env where
  "sample_token_env = \<lparr>tk_sha256 = (\<lambda>s. s), tk_past = (\<lambda>_. Inr True)\<rparr>"

theorem mcp_call_authorised_witness:
  "\<exists>row. opens sample_token_env sample_tokens sample_token row
     \<and> (scope_allows (tr_scope row) ''write'' (tr_role row) \<or> scope_allows (tr_scope row) ''admin'' (tr_role row))"
proof -
  have r: "resolve_mcp_credential sample_token_env sample_tokens sample_token ''s'' ''full'' = Inr (Some (''full'', ''mcp-api:hp_0000000000000''))"
    by code_simp
  have a: "tool_allowed {''provision_guest''} {''apply_artifact''} ''apply_artifact'' (Some ''full'')" by (simp add: tool_allowed_def)
  have t: "py_strip sample_token = sample_token" "prefix ''hp_'' sample_token" by code_simp+
  show ?thesis using mcp_call_authorised [OF r a] unfolding t using t(2) by blast
qed

text \<open>Deleting the row of a token is the end of it.\<close>

lemma revoked_opens_nothing: "opens env (delete_token (tr_id row) tab) raw row' \<Longrightarrow> tr_id row' \<noteq> tr_id row"
  by (auto simp: opens_def delete_token_def)

end
