(* ===== verification/Metric_Alerts.thy ===== *)
theory Metric_Alerts
  imports Complex_Main HP_Prelude "HOL-Library.AList"
begin

text \<open>
  Threshold alerts: \<^verbatim>\<open>metrics/alerts.py\<close> and the samples and alert rows of \<^verbatim>\<open>metrics/repository.py\<close>.

  The state is the rules in the order they were made, the samples of each host and metric, one value a second at
  most, the row of each rule and host, and the events sent.  A date is the number of seconds it stands for, a value a
  rational number; the glob of a rule (\<open>fnmatchcase\<close>) is an argument.  Delivery of an event does not fail here.
\<close>

section \<open>Rules and state\<close>

datatype comparison = Gt | Gte | Lt | Lte

fun breaches :: "comparison \<Rightarrow> rat \<Rightarrow> rat \<Rightarrow> bool" where
  "breaches Gt v t = (t < v)"
| "breaches Gte v t = (t \<le> v)"
| "breaches Lt v t = (v < t)"
| "breaches Lte v t = (v \<le> t)"

definition comparison_of :: "string \<Rightarrow> comparison option" where
  "comparison_of s = map_of [(''gt'', Gt), (''gte'', Gte), (''lt'', Lt), (''lte'', Lte)] s"

record alert_rule =
  al_id :: string
  al_name :: string
  al_metric :: string
  al_host_filter :: string
  al_comparison :: comparison
  al_threshold :: rat
  al_for :: int
  al_enabled :: bool
  al_hosts :: "nat option"

datatype alert_event = Alert_firing string string int rat | Alert_resolved string string int rat

type_synonym series = "(int \<times> rat) list"

record alert_db =
  ad_rules :: "alert_rule list"
  ad_samples :: "((string \<times> string) \<times> series) list"
  ad_state :: "((string \<times> string) \<times> (int option \<times> rat)) list"
  ad_events :: "alert_event list"

definition window_coverage_slack :: int where "window_coverage_slack = 90"
definition window_lookback :: int where "window_lookback = 300"
definition sample_freshness :: int where "sample_freshness = 300"

text \<open>\<open>int(x)\<close>\<close>

definition trunc_int :: "rat \<Rightarrow> int" where
  "trunc_int x = (if 0 \<le> x then \<lfloor>x\<rfloor> else \<lceil>x\<rceil>)"

definition series_of :: "alert_db \<Rightarrow> string \<Rightarrow> string \<Rightarrow> series" where
  "series_of db host metric = (case map_of (ad_samples db) (host, metric) of None \<Rightarrow> [] | Some l \<Rightarrow> l)"

section \<open>Rules\<close>

datatype rule_change =
    Set_name string | Set_metric string | Set_comparison string | Set_threshold rat | Set_for int
  | Set_host_filter string | Set_enabled bool

definition create_rule :: "string \<Rightarrow> string \<Rightarrow> string \<Rightarrow> string \<Rightarrow> rat \<Rightarrow> int \<Rightarrow> string \<Rightarrow> bool \<Rightarrow> alert_db \<Rightarrow> string + alert_db" where
  "create_rule rule_id name metric comparison threshold for_seconds host_filter enabled db =
     (case comparison_of comparison of
        None \<Rightarrow> Inl (''Invalid comparison '' @ comparison)
      | Some c \<Rightarrow>
          if for_seconds < 0 then Inl ''for_seconds must not be negative''
          else Inr (db\<lparr>ad_rules := ad_rules db @ [\<lparr>al_id = rule_id, al_name = name, al_metric = metric,
            al_host_filter = (if host_filter = [] then ''*'' else host_filter), al_comparison = c,
            al_threshold = threshold, al_for = for_seconds, al_enabled = enabled, al_hosts = None\<rparr>]\<rparr>))"

definition get_rule :: "alert_db \<Rightarrow> string \<Rightarrow> alert_rule option" where
  "get_rule db rule_id = find (\<lambda>r. al_id r = rule_id) (ad_rules db)"

definition enabled_rules :: "alert_db \<Rightarrow> alert_rule list" where
  "enabled_rules db = filter al_enabled (ad_rules db)"

definition on_rule :: "string \<Rightarrow> (alert_rule \<Rightarrow> alert_rule) \<Rightarrow> alert_db \<Rightarrow> alert_db" where
  "on_rule rule_id f db = db\<lparr>ad_rules := map (\<lambda>r. if al_id r = rule_id then f r else r) (ad_rules db)\<rparr>"

fun bad_change :: "rule_change \<Rightarrow> string option" where
  "bad_change (Set_comparison c) = (if comparison_of c = None then Some (''Invalid comparison '' @ c) else None)"
| "bad_change (Set_for n) = (if n < 0 then Some ''for_seconds must not be negative'' else None)"
| "bad_change _ = None"

fun change_rule :: "rule_change \<Rightarrow> alert_rule \<Rightarrow> alert_rule" where
  "change_rule (Set_name x) r = r\<lparr>al_name := x\<rparr>"
| "change_rule (Set_metric x) r = r\<lparr>al_metric := x\<rparr>"
| "change_rule (Set_comparison x) r = (case comparison_of x of None \<Rightarrow> r | Some c \<Rightarrow> r\<lparr>al_comparison := c\<rparr>)"
| "change_rule (Set_threshold x) r = r\<lparr>al_threshold := x\<rparr>"
| "change_rule (Set_for x) r = r\<lparr>al_for := x\<rparr>"
| "change_rule (Set_host_filter x) r = r\<lparr>al_host_filter := x\<rparr>"
| "change_rule (Set_enabled x) r = r\<lparr>al_enabled := x\<rparr>"

definition update_rule :: "string \<Rightarrow> rule_change list \<Rightarrow> alert_db \<Rightarrow> string + (alert_rule option \<times> alert_db)" where
  "update_rule rule_id changes db =
     (case List.map_filter bad_change changes of
        e # _ \<Rightarrow> Inl e
      | [] \<Rightarrow> let db' = on_rule rule_id (fold change_rule changes) db in Inr (get_rule db' rule_id, db'))"

text \<open>Deleting a rule deletes its rows; a host that is forgotten loses its own.  No event is sent for either.\<close>

definition delete_rule :: "string \<Rightarrow> alert_db \<Rightarrow> bool \<times> alert_db" where
  "delete_rule rule_id db =
     (get_rule db rule_id \<noteq> None,
      db\<lparr>ad_rules := filter (\<lambda>r. al_id r \<noteq> rule_id) (ad_rules db),
         ad_state := filter (\<lambda>((rid, _), _). rid \<noteq> rule_id) (ad_state db)\<rparr>)"

definition clear_alert_state_for_host :: "string \<Rightarrow> alert_db \<Rightarrow> nat \<times> alert_db" where
  "clear_alert_state_for_host host db =
     (let kept = filter (\<lambda>((_, h), _). h \<noteq> host) (ad_state db) in
      (length (ad_state db) - length kept, db\<lparr>ad_state := kept\<rparr>))"

definition record_rule_coverage :: "string \<Rightarrow> nat \<Rightarrow> alert_db \<Rightarrow> alert_db" where
  "record_rule_coverage rule_id n db = on_rule rule_id (\<lambda>r. r\<lparr>al_hosts := Some n\<rparr>) db"

section \<open>Samples\<close>

text \<open>\<open>INSERT OR REPLACE\<close>: the host, the metric and the second are the key.\<close>

definition insert_sample :: "string \<Rightarrow> string \<times> int \<times> rat \<Rightarrow> alert_db \<Rightarrow> alert_db" where
  "insert_sample host s db = (case s of (metric, ts, v) \<Rightarrow>
     db\<lparr>ad_samples := AList.update (host, metric) (AList.update ts v (series_of db host metric)) (ad_samples db)\<rparr>)"

definition insert_samples :: "string \<Rightarrow> (string \<times> int \<times> rat) list \<Rightarrow> alert_db \<Rightarrow> alert_db" where
  "insert_samples host samples db = fold (insert_sample host) samples db"

definition prune_samples :: "int \<Rightarrow> alert_db \<Rightarrow> alert_db" where
  "prune_samples older_than db = db\<lparr>ad_samples := map (\<lambda>(k, l). (k, filter (\<lambda>(ts, _). older_than \<le> ts) l)) (ad_samples db)\<rparr>"

text \<open>The key holds: a series has one value for a second.\<close>

definition keyed :: "alert_db \<Rightarrow> bool" where
  "keyed db = (\<forall>host metric. distinct (map fst (series_of db host metric)))"

lemma keyed_insert: "keyed db \<Longrightarrow> keyed (insert_sample host s db)"
  by (auto simp: keyed_def insert_sample_def series_of_def update_conv' intro!: distinct_update split: prod.splits option.splits)

lemma keyed_samples: "keyed db \<Longrightarrow> keyed (insert_samples host ss db)"
  unfolding insert_samples_def by (induction ss arbitrary: db) (simp_all add: keyed_insert)

text \<open>The hosts with a sample of the metric since then.\<close>

definition hosts_reporting :: "string \<Rightarrow> int \<Rightarrow> alert_db \<Rightarrow> string list" where
  "hosts_reporting metric since db =
     sort (remdups (map (fst \<circ> fst) (filter (\<lambda>((_, m), l). m = metric \<and> list_ex (\<lambda>(ts, _). since \<le> ts) l) (ad_samples db))))"

text \<open>\<open>breach_window\<close>: the newest sample, its value, and since when the breach it belongs to has held.\<close>

definition last_ok :: "alert_rule \<Rightarrow> int \<Rightarrow> series \<Rightarrow> int list" where
  "last_ok r since l = map fst (filter (\<lambda>(ts, v). since \<le> ts \<and> \<not> breaches (al_comparison r) v (al_threshold r)) l)"

definition breach_floor :: "alert_rule \<Rightarrow> int \<Rightarrow> series \<Rightarrow> int" where
  "breach_floor r since l = (if last_ok r since l = [] then since else Max (set (last_ok r since l)) + 1)"

definition breach_times :: "alert_rule \<Rightarrow> int \<Rightarrow> series \<Rightarrow> int list" where
  "breach_times r since l =
     map fst (filter (\<lambda>(ts, v). breach_floor r since l \<le> ts \<and> breaches (al_comparison r) v (al_threshold r)) l)"

definition breach_window :: "alert_rule \<Rightarrow> int \<Rightarrow> series \<Rightarrow> (int \<times> rat \<times> int option) option" where
  "breach_window r since l =
     (if l = [] then None
      else let newest = Max (set (map fst l)); value = the (map_of l newest) in
        Some (newest, value,
          if \<not> breaches (al_comparison r) value (al_threshold r) \<or> breach_times r since l = [] then None
          else Some (Min (set (breach_times r since l)))))"

section \<open>Evaluation\<close>

definition condition_holds :: "int option \<Rightarrow> int \<Rightarrow> int \<Rightarrow> int \<Rightarrow> bool" where
  "condition_holds breach_start newest_ts window_start for_seconds =
     (case breach_start of None \<Rightarrow> False
      | Some start \<Rightarrow> for_seconds \<le> newest_ts - start \<and> start \<le> window_start + window_coverage_slack)"

definition firing_since :: "alert_db \<Rightarrow> string \<times> string \<Rightarrow> int option" where
  "firing_since db k = (case map_of (ad_state db) k of None \<Rightarrow> None | Some (since, _) \<Rightarrow> since)"

definition set_alert_state :: "string \<times> string \<Rightarrow> int option \<Rightarrow> rat \<Rightarrow> alert_db \<Rightarrow> alert_db" where
  "set_alert_state k since value db = db\<lparr>ad_state := AList.update k (since, value) (ad_state db)\<rparr>"

definition emit :: "alert_event \<Rightarrow> alert_db \<Rightarrow> alert_db" where
  "emit e db = db\<lparr>ad_events := ad_events db @ [e]\<rparr>"

datatype transition = To_firing | To_resolved

definition window_of :: "rat \<Rightarrow> alert_rule \<Rightarrow> string \<Rightarrow> alert_db \<Rightarrow> (int \<times> rat \<times> int option) option" where
  "window_of now r host db =
     breach_window r (trunc_int (now - of_int (al_for r)) - window_lookback) (series_of db host (al_metric r))"

definition evaluate :: "rat \<Rightarrow> alert_rule \<Rightarrow> string \<Rightarrow> alert_db \<Rightarrow> transition option \<times> alert_db" where
  "evaluate now r host db =
     (let k = (al_id r, host); window_start = trunc_int (now - of_int (al_for r)); firing = firing_since db k in
      case window_of now r host db of
        None \<Rightarrow> (None, db)
      | Some (newest, value, start) \<Rightarrow>
          (let fresh = now - of_int newest \<le> of_int sample_freshness in
           case start of
             None \<Rightarrow>
               (case firing of
                  Some since \<Rightarrow>
                    (if fresh then (Some To_resolved, emit (Alert_resolved (al_id r) host since value) (set_alert_state k None value db))
                     else (None, set_alert_state k firing value db))
                | None \<Rightarrow> (None, set_alert_state k None value db))
           | Some s \<Rightarrow>
               (if firing \<noteq> None then (None, set_alert_state k firing value db)
                else if fresh \<and> condition_holds (Some s) newest window_start (al_for r)
                then (Some To_firing, emit (Alert_firing (al_id r) host s value) (set_alert_state k (Some s) value db))
                else (None, set_alert_state k None value db))))"

definition hosts_for :: "(string \<Rightarrow> string \<Rightarrow> bool) \<Rightarrow> rat \<Rightarrow> alert_rule \<Rightarrow> alert_db \<Rightarrow> string list" where
  "hosts_for glob now r db =
     (let reporting = hosts_reporting (al_metric r) (trunc_int (now - of_int (al_for r + sample_freshness))) db;
          wanted = (if al_host_filter r = [] then ''*'' else al_host_filter r) in
      if wanted = ''*'' then reporting else filter (\<lambda>h. glob h wanted) reporting)"

text \<open>One cycle over the enabled rules; the clock is read once for each rule and once for each of its hosts.\<close>

definition evaluate_rule :: "(string \<Rightarrow> string \<Rightarrow> bool) \<Rightarrow> (string \<Rightarrow> rat) \<Rightarrow> (string \<Rightarrow> string \<Rightarrow> rat) \<Rightarrow> alert_rule \<Rightarrow> alert_db \<Rightarrow> alert_db" where
  "evaluate_rule glob now_r now r db =
     (let hosts = hosts_for glob (now_r (al_id r)) r db in
      fold (\<lambda>h db. snd (evaluate (now (al_id r) h) r h db)) hosts (record_rule_coverage (al_id r) (length hosts) db))"

definition run_alerts :: "(string \<Rightarrow> string \<Rightarrow> bool) \<Rightarrow> (string \<Rightarrow> rat) \<Rightarrow> (string \<Rightarrow> string \<Rightarrow> rat) \<Rightarrow> alert_db \<Rightarrow> alert_db" where
  "run_alerts glob now_r now db = fold (evaluate_rule glob now_r now) (enabled_rules db) db"

definition list_firing :: "alert_db \<Rightarrow> (string \<times> string) list" where
  "list_firing db = map fst (filter (\<lambda>((rid, _), (since, _)). since \<noteq> None \<and> get_rule db rid \<noteq> None) (ad_state db))"

section \<open>What happens over time\<close>

definition no_alerts :: alert_db where
  "no_alerts = \<lparr>ad_rules = [], ad_samples = [], ad_state = [], ad_events = []\<rparr>"

text \<open>Anything may happen but that the rule is deleted or the host forgotten.\<close>

inductive alert_run :: "string \<times> string \<Rightarrow> alert_db \<Rightarrow> alert_db \<Rightarrow> bool" for k :: "string \<times> string" and db0 :: alert_db where
  start: "alert_run k db0 db0"
| samples: "alert_run k db0 db \<Longrightarrow> alert_run k db0 (insert_samples host ss db)"
| pruned: "alert_run k db0 db \<Longrightarrow> alert_run k db0 (prune_samples older_than db)"
| cycle: "alert_run k db0 db \<Longrightarrow> alert_run k db0 (run_alerts glob now_r now db)"
| created: "alert_run k db0 db \<Longrightarrow> create_rule i n m c t f h e db = Inr db' \<Longrightarrow> alert_run k db0 db'"
| updated: "alert_run k db0 db \<Longrightarrow> update_rule i cs db = Inr (x, db') \<Longrightarrow> alert_run k db0 db'"
| deleted: "alert_run k db0 db \<Longrightarrow> i \<noteq> fst k \<Longrightarrow> alert_run k db0 (snd (delete_rule i db))"
| forgotten: "alert_run k db0 db \<Longrightarrow> h \<noteq> snd k \<Longrightarrow> alert_run k db0 (snd (clear_alert_state_for_host h db))"

fun event_key :: "alert_event \<Rightarrow> string \<times> string" where
  "event_key (Alert_firing r h _ _) = (r, h)"
| "event_key (Alert_resolved r h _ _) = (r, h)"

text \<open>Reading the events of one rule and host: firing and resolved take turns, and both name the same beginning.\<close>

fun story :: "int option \<Rightarrow> alert_event list \<Rightarrow> int option option" where
  "story since [] = Some since"
| "story None (Alert_firing _ _ s _ # es) = story (Some s) es"
| "story (Some s) (Alert_resolved _ _ s' _ # es) = (if s = s' then story None es else None)"
| "story _ _ = None"

definition events_of :: "alert_db \<Rightarrow> string \<times> string \<Rightarrow> alert_event list" where
  "events_of db k = filter (\<lambda>e. event_key e = k) (ad_events db)"

definition told :: "string \<times> string \<Rightarrow> int option \<Rightarrow> alert_event list \<Rightarrow> alert_db \<Rightarrow> bool" where
  "told k s0 es0 db = (\<exists>es. events_of db k = es0 @ es \<and> story s0 es = Some (firing_since db k))"

lemma story_snoc:
  "story s (es @ [e]) = (case story s es of None \<Rightarrow> None | Some t \<Rightarrow> story t [e])"
  by (induction s es rule: story.induct) (auto split: option.splits)

lemma firing_since_set [simp]: "firing_since (set_alert_state k s v db) k' = (if k' = k then s else firing_since db k')"
  by (simp add: firing_since_def set_alert_state_def update_conv')

lemma firing_since_emit [simp]: "firing_since (emit e db) k = firing_since db k"
  by (simp add: firing_since_def emit_def)

lemma events_set [simp]: "events_of (set_alert_state k s v db) k' = events_of db k'"
  by (simp add: events_of_def set_alert_state_def)

lemma events_emit [simp]: "events_of (emit e db) k = events_of db k @ (if event_key e = k then [e] else [])"
  by (simp add: events_of_def emit_def)

lemma told_same:
  "told k s0 es0 db \<Longrightarrow> firing_since db' k = firing_since db k \<Longrightarrow> events_of db' k = events_of db k \<Longrightarrow> told k s0 es0 db'"
  by (simp add: told_def)

lemma told_event:
  "told k s0 es0 db \<Longrightarrow> events_of db' k = events_of db k @ [e] \<Longrightarrow> story (firing_since db k) [e] = Some (firing_since db' k)
   \<Longrightarrow> told k s0 es0 db'"
  unfolding told_def by (elim exE conjE) (rule_tac x = "es @ [e]" in exI, simp add: story_snoc)

lemma told_evaluate:
  assumes "told k s0 es0 db"
  shows "told k s0 es0 (snd (evaluate now r host db))"
proof (cases "k = (al_id r, host)")
  case False
  then have "firing_since (snd (evaluate now r host db)) k = firing_since db k"
    "events_of (snd (evaluate now r host db)) k = events_of db k"
    by (auto simp: evaluate_def Let_def split: option.splits)
  then show ?thesis using assms told_same by blast
next
  case True
  have "(firing_since (snd (evaluate now r host db)) k = firing_since db k \<and> events_of (snd (evaluate now r host db)) k = events_of db k)
    \<or> (\<exists>e. events_of (snd (evaluate now r host db)) k = events_of db k @ [e]
         \<and> story (firing_since db k) [e] = Some (firing_since (snd (evaluate now r host db)) k))"
    by (auto simp: evaluate_def Let_def True split: option.splits)
  then show ?thesis using assms told_same told_event by blast
qed

lemma told_fold: "(\<And>x db. told k s es db \<Longrightarrow> told k s es (f x db)) \<Longrightarrow> told k s es db \<Longrightarrow> told k s es (fold f xs db)"
  by (induction xs arbitrary: db) auto

lemma told_rows: "told k s es db \<Longrightarrow> ad_state db' = ad_state db \<Longrightarrow> ad_events db' = ad_events db \<Longrightarrow> told k s es db'"
  by (erule told_same) (simp_all add: events_of_def firing_since_def)

lemma told_samples: "told k s es db \<Longrightarrow> told k s es (insert_samples host samples db)"
  unfolding insert_samples_def
  by (rule told_fold) (auto elim: told_rows simp: insert_sample_def split: prod.splits)

lemma told_rule: "told k s es db \<Longrightarrow> told k s es (evaluate_rule glob now_r now r db)"
  unfolding evaluate_rule_def Let_def
  by (intro told_fold told_evaluate) (auto elim!: told_rows simp: record_rule_coverage_def on_rule_def)

lemma state_of_kept_key: "P k \<Longrightarrow> map_of (filter (\<lambda>(k, _). P k) l) k = map_of l k"
  by (induction l) auto

lemma firing_kept:
  "rid \<noteq> i \<Longrightarrow> firing_since (snd (delete_rule i db)) (rid, h) = firing_since db (rid, h)"
  "h \<noteq> i \<Longrightarrow> firing_since (snd (clear_alert_state_for_host i db)) (rid, h) = firing_since db (rid, h)"
  using state_of_kept_key [of "\<lambda>(a, _). a \<noteq> i" "(rid, h)" "ad_state db"] state_of_kept_key [of "\<lambda>(_, a). a \<noteq> i" "(rid, h)" "ad_state db"]
  by (simp_all add: firing_since_def delete_rule_def clear_alert_state_for_host_def Let_def case_prod_unfold)

text \<open>
  C25: alerts take turns.  Whatever samples come and go, whichever rules are made, changed, switched off or deleted and
  whenever they are evaluated: as long as a rule is not deleted nor a host forgotten, the events sent for the two are
  a firing, then a resolved with the same beginning, then a firing and so on, and the stored row is firing exactly
  when the last of them was.  No alert is announced twice and none is resolved that was not announced.
\<close>

theorem alerts_take_turns:
  assumes "alert_run k db0 db"
  shows "\<exists>es. events_of db k = events_of db0 k @ es \<and> story (firing_since db0 k) es = Some (firing_since db k)"
proof -
  have "told k (firing_since db0 k) (events_of db0 k) db"
    using assms
  proof induction
    case start
    then show ?case by (simp add: told_def)
  next
    case (samples db host ss)
    then show ?case by (simp add: told_samples)
  next
    case (pruned db older_than)
    then show ?case by (auto simp: prune_samples_def elim: told_rows)
  next
    case (cycle db glob now_r now)
    then show ?case unfolding run_alerts_def by (intro told_fold told_rule)
  next
    case (created db i n m c t f h e db')
    then show ?case by (auto simp: create_rule_def elim!: told_rows split: option.splits if_splits)
  next
    case (updated db i cs x db')
    then show ?case by (auto simp: update_rule_def on_rule_def Let_def elim!: told_rows split: list.splits)
  next
    case (deleted db i)
    have f: "firing_since (snd (delete_rule i db)) k = firing_since db k"
      using firing_kept(1) [of "fst k" i db "snd k"] deleted.hyps by simp
    show ?case by (rule told_same [OF deleted.IH f]) (simp add: events_of_def delete_rule_def)
  next
    case (forgotten db h)
    have f: "firing_since (snd (clear_alert_state_for_host h db)) k = firing_since db k"
      using firing_kept(2) [of "snd k" h db "fst k"] forgotten.hyps by simp
    show ?case by (rule told_same [OF forgotten.IH f]) (simp add: events_of_def clear_alert_state_for_host_def Let_def)
  qed
  then show ?thesis by (simp add: told_def)
qed

text \<open>A rule that fires and is deleted ends without a resolved event.\<close>

section \<open>What starts and ends an alert\<close>

lemma in_breach:
  assumes "(ts, v) \<in> set l" "breach_floor r since l \<le> ts"
  shows "breaches (al_comparison r) v (al_threshold r)"
proof (rule ccontr)
  assume n: "\<not> breaches (al_comparison r) v (al_threshold r)"
  show False
  proof (cases "last_ok r since l = []")
    case True
    then have "since \<le> ts" using assms(2) by (simp add: breach_floor_def)
    then have "ts \<in> set (last_ok r since l)" using assms(1) n by (force simp: last_ok_def)
    then show False using True by simp
  next
    case False
    have m: "Max (set (last_ok r since l)) \<in> set (last_ok r since l)" using False by (intro Max_in) auto
    then have "since \<le> Max (set (last_ok r since l))" by (auto simp: last_ok_def)
    then have "since \<le> ts" using assms(2) False by (simp add: breach_floor_def)
    then have "ts \<in> set (last_ok r since l)" using assms(1) n by (force simp: last_ok_def)
    then have "ts \<le> Max (set (last_ok r since l))" by simp
    then show False using assms(2) False by (simp add: breach_floor_def)
  qed
qed

definition newest_sample :: "series \<Rightarrow> int \<Rightarrow> rat \<Rightarrow> bool" where
  "newest_sample l ts v = ((ts, v) \<in> set l \<and> (\<forall>(t, _)\<in>set l. t \<le> ts))"

lemma breach_window_newest:
  assumes "breach_window r since l = Some (ts, v, start)"
  shows "newest_sample l ts v"
proof -
  have l: "l \<noteq> []" and n: "ts = Max (set (map fst l))" and v: "v = the (map_of l ts)"
    using assms by (auto simp: breach_window_def Let_def split: if_splits)
  have "ts \<in> fst ` set l" unfolding n set_map [symmetric] using l by (intro Max_in) auto
  then have "map_of l ts \<noteq> None" by (simp add: map_of_eq_None_iff)
  then have "(ts, v) \<in> set l" unfolding v by (auto dest: map_of_SomeD)
  moreover have "t \<le> ts" if "(t, w) \<in> set l" for t w
  proof -
    have "t \<in> set (map fst l)" using that by (force simp: image_iff)
    then show ?thesis unfolding n by (intro Max_ge) simp
  qed
  ultimately show ?thesis unfolding newest_sample_def by blast
qed

lemma breach_window_start:
  assumes "breach_window r since l = Some (ts, v, Some start)"
  shows "\<exists>w. (start, w) \<in> set l" "\<forall>(t, w)\<in>set l. start \<le> t \<longrightarrow> breaches (al_comparison r) w (al_threshold r)"
proof -
  have b: "breach_times r since l \<noteq> []" and s: "start = Min (set (breach_times r since l))"
    using assms by (auto simp: breach_window_def Let_def split: if_splits)
  have "start \<in> set (breach_times r since l)" unfolding s using b by (intro Min_in) auto
  then obtain w where st: "(start, w) \<in> set l" "breach_floor r since l \<le> start" by (auto simp: breach_times_def)
  then show "\<exists>w. (start, w) \<in> set l" by blast
  have "breaches (al_comparison r) w (al_threshold r)" if "(t, w) \<in> set l" "start \<le> t" for t w
    using in_breach [OF that(1), of r since] st(2) that(2) by simp
  then show "\<forall>(t, w)\<in>set l. start \<le> t \<longrightarrow> breaches (al_comparison r) w (al_threshold r)" by blast
qed

text \<open>Within the window a breaching newest sample has a beginning.\<close>

lemma breach_window_none:
  assumes w: "breach_window r since l = Some (ts, v, None)" and s: "since \<le> ts"
    and u: "distinct (map fst l)"
  shows "\<not> breaches (al_comparison r) v (al_threshold r)"
proof
  assume b: "breaches (al_comparison r) v (al_threshold r)"
  have e: "breach_times r since l = []" using w b by (auto simp: breach_window_def Let_def split: if_splits)
  note n = breach_window_newest [OF w]
  have "breach_floor r since l \<le> ts"
  proof (cases "last_ok r since l = []")
    case False
    have m: "Max (set (last_ok r since l)) \<in> set (last_ok r since l)" using False by (intro Max_in) auto
    then obtain x where x: "(Max (set (last_ok r since l)), x) \<in> set l" "\<not> breaches (al_comparison r) x (al_threshold r)"
      by (auto simp: last_ok_def)
    have "Max (set (last_ok r since l)) \<noteq> ts"
    proof
      assume "Max (set (last_ok r since l)) = ts"
      then have "x = v" using x(1) n u by (metis eq_key_imp_eq_value newest_sample_def)
      then show False using x(2) b by simp
    qed
    moreover have "Max (set (last_ok r since l)) \<le> ts" using x(1) n unfolding newest_sample_def by blast
    ultimately have "Max (set (last_ok r since l)) < ts" by linarith
    then show ?thesis using False by (simp add: breach_floor_def del: Max_less_iff)
  qed (use s in \<open>simp add: breach_floor_def\<close>)
  then have "ts \<in> set (breach_times r since l)" using n b by (force simp: breach_times_def newest_sample_def)
  then show False using e by simp
qed

lemma trunc_int_below: "x \<le> of_int n \<Longrightarrow> trunc_int x \<le> n"
  by (auto simp: trunc_int_def floor_le_iff ceiling_le_iff)

text \<open>
  C26: an alert is earned, and so is its end.  When a cycle announces an alert, the newest sample of the host is fresh, the
  breach began at a stored sample at least as long before it as the rule asks for and no later than the window opened
  but for the slack, and every sample from then on breaches.  An alert is resolved only when the newest sample is
  fresh and within limits.
\<close>

theorem alert_is_earned:
  assumes e: "evaluate now r host db = (Some t, db')" and pos: "0 \<le> al_for r"
    and u: "distinct (map fst (series_of db host (al_metric r)))"
  shows "\<exists>ts v. newest_sample (series_of db host (al_metric r)) ts v \<and> now - of_int ts \<le> 300
    \<and> (t = To_firing \<longrightarrow> (\<exists>start. (\<exists>w. (start, w) \<in> set (series_of db host (al_metric r)))
          \<and> al_for r \<le> ts - start \<and> start \<le> trunc_int (now - of_int (al_for r)) + 90
          \<and> (\<forall>(a, w)\<in>set (series_of db host (al_metric r)). start \<le> a \<longrightarrow> breaches (al_comparison r) w (al_threshold r))))
    \<and> (t = To_resolved \<longrightarrow> \<not> breaches (al_comparison r) v (al_threshold r))"
proof -
  let ?w = "trunc_int (now - of_int (al_for r))"
  obtain ts v start where w: "window_of now r host db = Some (ts, v, start)"
    using e by (auto simp: evaluate_def Let_def split: option.splits)
  then have bw: "breach_window r (?w - window_lookback) (series_of db host (al_metric r)) = Some (ts, v, start)"
    by (simp add: window_of_def)
  have f: "now - of_int ts \<le> 300"
    using e w by (auto simp: evaluate_def Let_def sample_freshness_def split: option.splits if_splits)
  have fire: "\<exists>s. start = Some s \<and> condition_holds (Some s) ts ?w (al_for r)" if "t = To_firing"
    using e w that by (cases start) (auto simp: evaluate_def Let_def split: option.splits if_splits)
  have res: "start = None" if "t = To_resolved"
    using e w that by (cases start) (auto simp: evaluate_def Let_def split: option.splits if_splits)
  have "?w - window_lookback \<le> ts"
  proof -
    have "now - of_int (al_for r) \<le> of_int (ts + 300)" using f pos by simp
    then have "?w \<le> ts + 300" by (rule trunc_int_below)
    then show ?thesis unfolding window_lookback_def by simp
  qed
  then have calm: "\<not> breaches (al_comparison r) v (al_threshold r)" if "t = To_resolved"
    using breach_window_none [of r _ _ ts v] bw u res [OF that] by simp
  have "\<exists>start. (\<exists>w. (start, w) \<in> set (series_of db host (al_metric r))) \<and> al_for r \<le> ts - start \<and> start \<le> ?w + 90
    \<and> (\<forall>(a, w)\<in>set (series_of db host (al_metric r)). start \<le> a \<longrightarrow> breaches (al_comparison r) w (al_threshold r))" if t: "t = To_firing"
  proof -
    obtain s where s: "start = Some s" "condition_holds (Some s) ts ?w (al_for r)" using fire [OF t] by blast
    have c: "al_for r \<le> ts - s" "s \<le> ?w + 90" using s(2) by (simp_all add: condition_holds_def window_coverage_slack_def)
    show ?thesis using breach_window_start [OF bw [unfolded s(1)]] c by blast
  qed
  then show ?thesis using breach_window_newest [OF bw] f calm by blast
qed

section \<open>An example\<close>

definition disk_low :: alert_db where
  "disk_low = insert_samples ''h1'' [(''disk.free_gb'', 1000, 4), (''disk.free_gb'', 1060, 3)]
     (case create_rule ''r1'' ''disk'' ''disk.free_gb'' ''lt'' 5 60 ''*'' True no_alerts of Inl _ \<Rightarrow> no_alerts | Inr db \<Rightarrow> db)"

definition disk_fired :: alert_db where
  "disk_fired = run_alerts (\<lambda>_ _. True) (\<lambda>_. 1061) (\<lambda>_ _. 1061) disk_low"

definition disk_rule :: alert_rule where
  "disk_rule = hd (ad_rules disk_low)"

lemma disk_fired_events: "ad_events disk_fired = [Alert_firing ''r1'' ''h1'' 1000 3]"
  by code_simp

text \<open>Deleting a rule that fires ends its alert without an event.\<close>

lemma deleted_unresolved:
  "firing_since disk_fired (''r1'', ''h1'') = Some 1000 \<and> firing_since (snd (delete_rule ''r1'' disk_fired)) (''r1'', ''h1'') = None
   \<and> ad_events (snd (delete_rule ''r1'' disk_fired)) = ad_events disk_fired"
  by code_simp

theorem alerts_take_turns_witness:
  "\<exists>es. events_of disk_fired (''r1'', ''h1'') = events_of disk_low (''r1'', ''h1'') @ es
     \<and> story (firing_since disk_low (''r1'', ''h1'')) es = Some (firing_since disk_fired (''r1'', ''h1''))"
proof -
  have "alert_run (''r1'', ''h1'') disk_low disk_fired" unfolding disk_fired_def by (intro alert_run.intros)
  then show ?thesis by (rule alerts_take_turns)
qed

theorem alert_is_earned_witness:
  "\<exists>ts v. newest_sample (series_of disk_low ''h1'' ''disk.free_gb'') ts v \<and> 1061 - of_int ts \<le> (300 :: rat)
    \<and> (\<exists>start. start \<le> trunc_int (1061 - 60) + 90 \<and> 60 \<le> ts - start)"
proof -
  have t: "fst (evaluate 1061 disk_rule ''h1'' disk_low) = Some To_firing" by code_simp
  have e: "evaluate 1061 disk_rule ''h1'' disk_low = (Some To_firing, snd (evaluate 1061 disk_rule ''h1'' disk_low))"
    unfolding t [symmetric] by simp
  have r: "al_for disk_rule = 60" "al_metric disk_rule = ''disk.free_gb''" by code_simp+
  have u: "distinct (map fst (series_of disk_low ''h1'' (al_metric disk_rule)))" by code_simp
  show ?thesis using alert_is_earned [OF e _ u] unfolding r by auto
qed

end
