(* ===== verification/Claim_Source.thy ===== *)
theory Claim_Source
  imports Net_IPv4
begin

text \<open>
  Whether a claim of the instance came from its own network: \<^verbatim>\<open>claim/trust.py\<close>.

  IPv4 text is read as in \<open>Net_IPv4\<close>; how \<open>ipaddress\<close> reads the text of an IPv6 address is an argument.  An IPv6
  address is the number it stands for.
\<close>

section \<open>Addresses\<close>

datatype ip_addr = V4 ipv4 | V6 nat
datatype ip_net = N4 ipv4_net | N6 nat nat

fun in_network :: "ip_addr \<Rightarrow> ip_net \<Rightarrow> bool" where
  "in_network (V4 a) (N4 n) = in_net a n"
| "in_network (V6 a) (N6 base len) = (a div 2 ^ (128 - len) = base div 2 ^ (128 - len))"
| "in_network _ _ = False"

definition dotted :: "nat \<Rightarrow> nat \<Rightarrow> nat \<Rightarrow> nat \<Rightarrow> nat \<Rightarrow> ip_net" where
  "dotted a b c d len = N4 \<lparr>net_addr = ((a * 256 + b) * 256 + c) * 256 + d, net_len = len\<rparr>"

definition local_networks :: "ip_net list" where
  "local_networks = [dotted 127 0 0 0 8, dotted 10 0 0 0 8, dotted 172 16 0 0 12, dotted 192 168 0 0 16, dotted 100 64 0 0 10,
     dotted 169 254 0 0 16, N6 1 128, N6 (0xFC00 * 2 ^ 112) 7, N6 (0xFE80 * 2 ^ 112) 10]"

definition parse_address :: "(string \<Rightarrow> nat option) \<Rightarrow> string \<Rightarrow> ip_addr option" where
  "parse_address parse6 s =
     (if py_strip s = [] then None
      else case parse_ipv4 (py_strip s) of Some a \<Rightarrow> Some (V4 a) | None \<Rightarrow> map_option V6 (parse6 (py_strip s)))"

definition is_local_address :: "(string \<Rightarrow> nat option) \<Rightarrow> string \<Rightarrow> bool" where
  "is_local_address parse6 s =
     (case parse_address parse6 s of None \<Rightarrow> False | Some a \<Rightarrow> list_ex (in_network a) local_networks)"

section \<open>The source of a request\<close>

definition forward_headers :: "string list" where
  "forward_headers = [''x-forwarded-for'', ''x-real-ip'', ''forwarded'']"

type_synonym http_headers = "string \<Rightarrow> string option"

definition header_text :: "http_headers \<Rightarrow> string \<Rightarrow> string" where
  "header_text h k = (case h k of None \<Rightarrow> [] | Some v \<Rightarrow> v)"

definition forwarded_client :: "(string \<Rightarrow> nat option) \<Rightarrow> http_headers \<Rightarrow> string option" where
  "forwarded_client parse6 h =
     (let xff = header_text h ''x-forwarded-for''; first = py_strip (hd (split_on (CHR '','') xff));
          real_ip = py_strip (header_text h ''x-real-ip'') in
      if xff \<noteq> [] then (if parse_address parse6 first \<noteq> None then Some first else None)
      else if real_ip \<noteq> [] then (if parse_address parse6 real_ip \<noteq> None then Some real_ip else None)
      else None)"

definition trusted_proxy :: "(string \<Rightarrow> nat option) \<Rightarrow> ip_net list \<Rightarrow> string \<Rightarrow> bool" where
  "trusted_proxy parse6 proxies peer =
     (case parse_address parse6 peer of None \<Rightarrow> False | Some a \<Rightarrow> list_ex (in_network a) proxies)"

definition claim_source :: "(string \<Rightarrow> nat option) \<Rightarrow> string option \<Rightarrow> http_headers \<Rightarrow> ip_net list \<Rightarrow> bool \<times> string" where
  "claim_source parse6 peer h proxies =
     (let peer_address = (case peer of None \<Rightarrow> [] | Some p \<Rightarrow> p);
          forwarded = list_ex (\<lambda>k. header_text h k \<noteq> []) forward_headers;
          trusted = trusted_proxy parse6 proxies peer_address in
      if forwarded \<and> \<not> trusted then (False, peer_address)
      else if trusted
      then (case forwarded_client parse6 h of
              None \<Rightarrow> (False, peer_address)
            | Some client \<Rightarrow> (is_local_address parse6 client, client))
      else (is_local_address parse6 peer_address, peer_address))"

section \<open>What it rests on\<close>

text \<open>A source is local only when a local address is the peer of a request nobody forwarded, or what a trusted proxy names.\<close>

lemma nobody_local: "parse_address parse6 [] = None"
  by (simp add: parse_address_def py_strip_def py_lstrip_def py_rstrip_def)

lemma local_source:
  assumes "claim_source parse6 peer h proxies = (True, a)"
  shows "is_local_address parse6 a
    \<and> ((peer = Some a \<and> (\<forall>k\<in>set forward_headers. header_text h k = []))
       \<or> (\<exists>p. peer = Some p \<and> trusted_proxy parse6 proxies p \<and> forwarded_client parse6 h = Some a))"
proof (cases peer)
  case None
  have "\<not> trusted_proxy parse6 proxies []" "\<not> is_local_address parse6 []"
    by (simp_all add: trusted_proxy_def is_local_address_def nobody_local)
  then show ?thesis using assms None by (simp add: claim_source_def Let_def split: if_splits)
next
  case (Some p)
  show ?thesis
  proof (cases "trusted_proxy parse6 proxies p")
    case True
    then show ?thesis using assms Some by (cases "forwarded_client parse6 h") (simp_all add: claim_source_def)
  next
    case False
    then have "is_local_address parse6 p" "p = a" "\<not> list_ex (\<lambda>k. header_text h k \<noteq> []) forward_headers"
      using assms Some by (auto simp: claim_source_def Let_def split: if_splits)
    then show ?thesis using Some by (auto simp: list_ex_iff)
  qed
qed

lemma strip_loopback: "py_strip ''127.0.0.1'' = ''127.0.0.1''"
  by code_simp

lemma loopback_local: "is_local_address parse6 ''127.0.0.1''"
proof -
  have "parse_ipv4 ''127.0.0.1'' = Some 2130706433"
    by (simp add: parse_ipv4_def parse_octet_def nat_of_digits_def is_digit_def)
  moreover have "list_ex (in_network (V4 2130706433)) local_networks"
    by (simp add: local_networks_def dotted_def in_net_def net_size_def)
  ultimately show ?thesis by (simp add: is_local_address_def parse_address_def strip_loopback)
qed

lemma split_on_first: "d \<notin> set u \<Longrightarrow> hd (split_on d (u @ d # v)) = u"
  by (induction u) (auto split: list.splits)

text \<open>
  A proxy that appends the address of its client to the header it received, as the configuration the repository ships
  does, hands on whatever the client wrote there first: every client behind it can pass for the loopback address.
\<close>

lemma forwarded_forgeable:
  assumes "trusted_proxy parse6 proxies peer" "h ''x-forwarded-for'' = Some (''127.0.0.1'' @ '', '' @ client)"
  shows "claim_source parse6 (Some peer) h proxies = (True, ''127.0.0.1'')"
proof -
  have f: "hd (split_on (CHR '','') (''127.0.0.1'' @ '', '' @ client)) = ''127.0.0.1''"
    using split_on_first [of "CHR '',''" "''127.0.0.1''" "CHR '' '' # client"] by simp
  have "parse_address parse6 ''127.0.0.1'' \<noteq> None" using loopback_local [of parse6] by (auto simp: is_local_address_def split: option.splits)
  then have "forwarded_client parse6 h = Some ''127.0.0.1''"
    unfolding forwarded_client_def Let_def header_text_def assms(2) option.case f strip_loopback by simp
  then show ?thesis using assms(1) loopback_local by (simp add: claim_source_def Let_def)
qed

end
