(* ===== verification/Rate_Limiter.thy ===== *)
theory Rate_Limiter
  imports Complex_Main HP_Prelude "HOL-Library.AList"
begin

text \<open>
  The sliding window that limits attempts: \<open>SlidingWindowLimiter\<close> of \<^verbatim>\<open>common.py\<close>.

  The state is the times of the attempts of each key, in the order of the dictionary.  The clock is an argument of
  each call; a time is the number of seconds it stands for.
\<close>

record limiter =
  lm_limit :: nat
  lm_window :: rat
  lm_max_keys :: nat
  lm_hits :: "(string \<times> rat list) list"

definition new_limiter :: "nat \<Rightarrow> rat \<Rightarrow> nat \<Rightarrow> limiter" where
  "new_limiter limit window max_keys = \<lparr>lm_limit = limit, lm_window = window, lm_max_keys = max_keys, lm_hits = []\<rparr>"

definition hits_of :: "limiter \<Rightarrow> string \<Rightarrow> rat list" where
  "hits_of lm key = (case map_of (lm_hits lm) key of None \<Rightarrow> [] | Some ts \<Rightarrow> ts)"

definition recent :: "rat \<Rightarrow> rat \<Rightarrow> rat list \<Rightarrow> rat list" where
  "recent window now ts = filter (\<lambda>t. now - t < window) ts"

text \<open>Above the maximum the keys with the oldest last attempt go; the sort is stable.\<close>

definition stale_keys :: "nat \<Rightarrow> (string \<times> rat list) list \<Rightarrow> string list" where
  "stale_keys max_keys hits = take (length hits - max_keys) (map fst (sort_key (\<lambda>(_, ts). last ts) hits))"

definition drop_stale :: "nat \<Rightarrow> (string \<times> rat list) list \<Rightarrow> (string \<times> rat list) list" where
  "drop_stale max_keys hits =
     (if max_keys < length hits then filter (\<lambda>(k, _). k \<notin> set (stale_keys max_keys hits)) hits else hits)"

definition allow :: "rat \<Rightarrow> string \<Rightarrow> limiter \<Rightarrow> bool \<times> limiter" where
  "allow now key lm =
     (let window = recent (lm_window lm) now (hits_of lm key) in
      if lm_limit lm \<le> length window then (False, lm\<lparr>lm_hits := AList.update key window (lm_hits lm)\<rparr>)
      else (True, lm\<lparr>lm_hits := drop_stale (lm_max_keys lm) (AList.update key (window @ [now]) (lm_hits lm))\<rparr>))"

section \<open>Runs\<close>

text \<open>A run of attempts, each with its key and time: those that were let through, and the limiter at the end.\<close>

fun run_attempts :: "(string \<times> rat) list \<Rightarrow> limiter \<Rightarrow> (string \<times> rat) list \<times> limiter" where
  "run_attempts [] lm = ([], lm)"
| "run_attempts ((key, now) # as) lm =
     (case allow now key lm of
        (ok, lm') \<Rightarrow> (case run_attempts as lm' of (passed, lm'') \<Rightarrow> (if ok then (key, now) # passed else passed, lm'')))"

definition times_of :: "string \<Rightarrow> (string \<times> rat) list \<Rightarrow> rat list" where
  "times_of key as = map snd (filter (\<lambda>(k, _). k = key) as)"

text \<open>What the limiter remembers of a key is, from now on, what was let through for it.\<close>

definition remembers :: "rat \<Rightarrow> (string \<times> rat) list \<Rightarrow> limiter \<Rightarrow> bool" where
  "remembers now passed lm =
     (\<forall>key t. now \<le> t \<longrightarrow> recent (lm_window lm) t (hits_of lm key) = recent (lm_window lm) t (times_of key passed))"

lemma recent_recent: "now \<le> t \<Longrightarrow> recent w t (recent w now ts) = recent w t ts"
  unfolding recent_def filter_filter by (rule filter_cong) auto

lemma recent_append [simp]: "recent w t (xs @ ys) = recent w t xs @ recent w t ys"
  by (simp add: recent_def)

lemma recent_nil [simp]: "recent w t [] = []"
  by (simp add: recent_def)

lemma times_append [simp]: "times_of k (as @ bs) = times_of k as @ times_of k bs"
  by (simp add: times_of_def)

lemma times_one [simp]: "times_of k [(k', t)] = (if k' = k then [t] else [])" "times_of k [] = []"
  by (simp_all add: times_of_def)

lemma hits_update [simp]:
  "hits_of (lm\<lparr>lm_hits := AList.update key ts (lm_hits lm)\<rparr>) k = (if k = key then ts else hits_of lm k)"
  by (simp add: hits_of_def update_conv')

definition small :: "string set \<Rightarrow> limiter \<Rightarrow> bool" where
  "small K lm = (distinct (map fst (lm_hits lm)) \<and> fst ` set (lm_hits lm) \<subseteq> K \<and> finite K \<and> card K \<le> lm_max_keys lm)"

lemma small_length:
  assumes "small K lm" "key \<in> K"
  shows "length (AList.update key ts (lm_hits lm)) \<le> lm_max_keys lm"
proof -
  let ?l = "AList.update key ts (lm_hits lm)"
  have "distinct (map fst ?l)" using assms(1) by (simp add: small_def distinct_update)
  then have "length ?l = card (fst ` set ?l)" using distinct_card [of "map fst ?l"] by simp
  also have "\<dots> \<le> card K"
    using assms dom_update [of key ts "lm_hits lm"] by (intro card_mono) (auto simp: small_def)
  finally show ?thesis using assms(1) by (simp add: small_def)
qed

lemma drop_stale_small: "length hits \<le> n \<Longrightarrow> drop_stale n hits = hits"
  by (simp add: drop_stale_def)

lemma allow_small:
  assumes s: "small K lm" and k: "key \<in> K"
  shows "snd (allow now key lm) = lm\<lparr>lm_hits := AList.update key
      (recent (lm_window lm) now (hits_of lm key) @ (if fst (allow now key lm) then [now] else [])) (lm_hits lm)\<rparr>"
    and "small K (snd (allow now key lm))"
proof -
  show e: "snd (allow now key lm) = lm\<lparr>lm_hits := AList.update key
      (recent (lm_window lm) now (hits_of lm key) @ (if fst (allow now key lm) then [now] else [])) (lm_hits lm)\<rparr>"
    by (simp add: allow_def Let_def drop_stale_small [OF small_length [OF s k]])
  show "small K (snd (allow now key lm))"
    unfolding e using s k by (auto simp: small_def distinct_update dom_update)
qed

lemma allow_remembers:
  assumes m: "remembers t0 passed lm" and t: "t0 \<le> now" and s: "small K lm" and k: "key \<in> K"
  shows "remembers now (passed @ (if fst (allow now key lm) then [(key, now)] else [])) (snd (allow now key lm))"
  unfolding remembers_def
proof (intro allI impI)
  fix k' t assume le: "now \<le> t"
  let ?lm = "snd (allow now key lm)"
  have w: "lm_window ?lm = lm_window lm" using allow_small(1) [OF s k] by simp
  have h: "hits_of ?lm k' = (if k' = key then recent (lm_window lm) now (hits_of lm key) @ (if fst (allow now key lm) then [now] else [])
      else hits_of lm k')"
    by (subst allow_small(1) [OF s k]) simp
  have old: "recent (lm_window lm) t (hits_of lm x) = recent (lm_window lm) t (times_of x passed)" for x
    using m t le unfolding remembers_def by (meson order_trans)
  show "recent (lm_window ?lm) t (hits_of ?lm k')
      = recent (lm_window ?lm) t (times_of k' (passed @ (if fst (allow now key lm) then [(key, now)] else [])))"
    unfolding w h by (simp add: old recent_recent [OF le])
qed

lemma allow_bound:
  assumes m: "remembers t0 passed lm" and t: "t0 \<le> now" and a: "fst (allow now key lm)"
  shows "length (recent (lm_window lm) now (times_of key passed)) < lm_limit lm"
proof -
  have "recent (lm_window lm) now (hits_of lm key) = recent (lm_window lm) now (times_of key passed)"
    using m t unfolding remembers_def by blast
  then show ?thesis using a by (auto simp: allow_def Let_def split: if_splits)
qed

fun monotone_from :: "rat \<Rightarrow> (string \<times> rat) list \<Rightarrow> bool" where
  "monotone_from t [] = True"
| "monotone_from t ((_, now) # as) = (t \<le> now \<and> monotone_from now as)"

lemma attempts_bound:
  assumes "remembers t0 passed lm" "monotone_from t0 as" "small K lm" "fst ` set as \<subseteq> K"
    and "run_attempts as lm = (out, lm')" "out = xs @ (key, t) # ys"
  shows "length (recent (lm_window lm) t (times_of key (passed @ xs))) < lm_limit lm"
  using assms
proof (induction as arbitrary: t0 passed lm out xs)
  case Nil
  then show ?case by simp
next
  case (Cons a as)
  obtain k now where a: "a = (k, now)" by (cases a)
  obtain ok lm1 where al: "allow now k lm = (ok, lm1)" by fastforce
  obtain rest where r: "run_attempts as lm1 = (rest, lm')" "out = (if ok then (k, now) # rest else rest)"
    using Cons.prems(5) al by (auto simp: a split: prod.splits)
  have k: "k \<in> K" and le: "t0 \<le> now" and mono: "monotone_from now as" and sub: "fst ` set as \<subseteq> K"
    using Cons.prems(2,4) by (auto simp: a)
  note s1 = allow_small [OF Cons.prems(3) k, of now]
  have same: "lm_window lm1 = lm_window lm" "lm_limit lm1 = lm_limit lm" using s1(1) al by simp_all
  have m1: "remembers now (passed @ (if ok then [(k, now)] else [])) lm1"
    using allow_remembers [OF Cons.prems(1) le Cons.prems(3) k] al by simp
  have sm: "small K lm1" using s1(2) al by simp
  show ?case
  proof (cases "ok \<and> xs = []")
    case True
    then have "key = k" "t = now" using r(2) Cons.prems(6) by auto
    then show ?thesis using allow_bound [OF Cons.prems(1) le, of k] al True by simp
  next
    case False
    then obtain xs' where x: "rest = xs' @ (key, t) # ys" "(if ok then [(k, now)] else []) @ xs' = xs"
      using r(2) Cons.prems(6) by (cases ok; cases xs) auto
    show ?thesis using Cons.IH [OF m1 mono sm sub r(1) x(1)] unfolding same x(2) [symmetric] by (simp only: append_assoc)
  qed
qed

text \<open>
  C39: a key is let through at most the limit within any window.  For every run of attempts whose clock does not go back
  and whose keys are no more than the limiter keeps, the attempts let through for a key in the window that ends
  with one of them are at most the limit, that one included.
\<close>

theorem limiter_bounds:
  assumes "monotone_from 0 as" "card (fst ` set as) \<le> max_keys"
    and "run_attempts as (new_limiter limit window max_keys) = (xs @ (key, t) # ys, lm)"
  shows "length (recent window t (times_of key xs)) + 1 \<le> limit"
proof -
  let ?lm = "new_limiter limit window max_keys"
  have "remembers 0 [] ?lm" by (simp add: remembers_def new_limiter_def hits_of_def)
  moreover have "small (fst ` set as) ?lm" using assms(2) by (simp add: small_def new_limiter_def)
  ultimately have "length (recent (lm_window ?lm) t (times_of key ([] @ xs))) < lm_limit ?lm"
    using attempts_bound [OF _ assms(1) _ order_refl assms(3) refl] by blast
  then show ?thesis by (simp add: new_limiter_def)
qed

definition burst :: "(string \<times> rat) list" where
  "burst = [(''a'', 1), (''b'', 2), (''a'', 3), (''a'', 4), (''a'', 11)]"

lemma burst_run: "fst (run_attempts burst (new_limiter 2 10 100)) = [(''a'', 1), (''b'', 2), (''a'', 3), (''a'', 11)]"
  by code_simp

theorem limiter_bounds_witness:
  "length (recent 10 11 (times_of ''a'' [(''a'', 1), (''b'', 2), (''a'', 3)])) + 1 \<le> 2"
proof -
  have m: "monotone_from 0 burst" "card (fst ` set burst) \<le> 100" by code_simp+
  have r: "run_attempts burst (new_limiter 2 10 100)
      = ([(''a'', 1), (''b'', 2), (''a'', 3)] @ (''a'', 11) # [], snd (run_attempts burst (new_limiter 2 10 100)))"
    using burst_run by (metis append.simps prod.collapse)
  show ?thesis using limiter_bounds [OF m r] by simp
qed

text \<open>With more keys than the limiter keeps it forgets the oldest: a caller with enough addresses is not limited.\<close>

lemma flooded_forgets:
  "fst (run_attempts [(''a'', 1), (''b'', 2), (''a'', 3)] (new_limiter 1 10 1)) = [(''a'', 1), (''b'', 2), (''a'', 3)]"
  by code_simp

end
