(* ===== verification/Instance_Claim.thy ===== *)
theory Instance_Claim
  imports Claim_Source Rate_Limiter Access_Tokens
begin

text \<open>
  The first-run claim: \<^verbatim>\<open>claim/repository.py\<close>, \<^verbatim>\<open>claim/startup.py\<close>, \<^verbatim>\<open>claim/tokens.py\<close> and the claim of
  \<^verbatim>\<open>claim/router.py\<close>.

  An instance nobody owns hands its first admin token to whoever claims it.  The state is the claim row, the API tokens,
  the saved copy of the code and the limiter.  A claim request is a coroutine: it is at a phase between two awaits, and a
  step is what it does up to the next, with what the database and Proxmox answer as an argument.
  Requests interleave; the process may stop at any point and start again.
\<close>

section \<open>State\<close>

record claim_row =
  cr_prefix :: string
  cr_hash :: string
  cr_claimed :: bool
  cr_label :: "string option"
  cr_minted :: "string option"

record claim_state =
  st_row :: "claim_row option"
  st_tokens :: token_table
  st_file :: "string option"
  st_limiter :: limiter

definition claimed :: "claim_state \<Rightarrow> bool" where
  "claimed s = (case st_row s of None \<Rightarrow> False | Some r \<Rightarrow> cr_claimed r)"

definition has_admin_credential :: "token_table \<Rightarrow> bool" where
  "has_admin_credential tab =
     list_ex (\<lambda>r. let n = set (normalize_scope (tr_scope r) (tr_role r)) in ''*'' \<in> n \<or> ''admin'' \<in> n) tab"

definition install_code :: "string \<Rightarrow> string \<Rightarrow> claim_state \<Rightarrow> claim_state" where
  "install_code p code_hash s =
     s\<lparr>st_row := Some \<lparr>cr_prefix = p, cr_hash = code_hash, cr_claimed = False, cr_label = None, cr_minted = None\<rparr>\<rparr>"

definition take_claim :: "string \<Rightarrow> claim_state \<Rightarrow> bool \<times> claim_state" where
  "take_claim label s =
     (case st_row s of
        None \<Rightarrow> (False, s)
      | Some r \<Rightarrow> if cr_claimed r then (False, s) else (True, s\<lparr>st_row := Some (r\<lparr>cr_claimed := True, cr_label := Some label\<rparr>)\<rparr>))"

definition release :: "claim_state \<Rightarrow> claim_state" where
  "release s =
     (case st_row s of
        None \<Rightarrow> s
      | Some r \<Rightarrow> if cr_minted r = None then s\<lparr>st_row := Some (r\<lparr>cr_claimed := False, cr_label := None\<rparr>)\<rparr> else s)"

definition latch_claimed_externally :: "string \<Rightarrow> claim_state \<Rightarrow> bool \<times> claim_state" where
  "latch_claimed_externally label s =
     take_claim label (case st_row s of None \<Rightarrow> install_code [] [] s | Some _ \<Rightarrow> s)"

definition record_minted_token :: "string \<Rightarrow> claim_state \<Rightarrow> claim_state" where
  "record_minted_token p s = s\<lparr>st_row := map_option (\<lambda>r. r\<lparr>cr_minted := Some p\<rparr>) (st_row s)\<rparr>"

definition is_claimed :: "claim_state \<Rightarrow> bool" where
  "is_claimed s = (has_admin_credential (st_tokens s) \<or> claimed s)"

section \<open>Start-up\<close>

record claim_env =
  ce_tokens :: token_env
  ce_parse6 :: "string \<Rightarrow> nat option"
  ce_proxies :: "ip_net list"
  ce_vault :: bool

definition generate_claim_code :: "claim_env \<Rightarrow> string \<Rightarrow> string \<times> string \<times> string" where
  "generate_claim_code env raw =
     (let code = ''hpc_'' @ raw in (code, take prefix_length code, tk_sha256 (ce_tokens env) code))"

definition read_claim_code :: "claim_state \<Rightarrow> string" where
  "read_claim_code s = (case st_file s of None \<Rightarrow> [] | Some c \<Rightarrow> py_strip c)"

text \<open>Whether the file could be removed or written is an argument: neither failure is reported.\<close>

definition clear_claim_code :: "bool \<Rightarrow> claim_state \<Rightarrow> claim_state" where
  "clear_claim_code ok s = (if ok then s\<lparr>st_file := None\<rparr> else s)"

definition ensure_claim_code :: "claim_env \<Rightarrow> string \<Rightarrow> bool \<Rightarrow> claim_state \<Rightarrow> string option \<times> claim_state" where
  "ensure_claim_code env raw ok s =
     (if has_admin_credential (st_tokens s)
      then (None, clear_claim_code ok (snd (latch_claimed_externally ''pre-claim admin credential'' s)))
      else if claimed s then (None, clear_claim_code ok s)
      else if (case st_row s of None \<Rightarrow> False | Some r \<Rightarrow>
                 read_claim_code s \<noteq> [] \<and> validate_token (ce_tokens env) (read_claim_code s) (cr_hash r))
      then (Some (read_claim_code s), s)
      else case generate_claim_code env raw of
        (code, p, code_hash) \<Rightarrow>
          (let s' = install_code p code_hash s in (Some code, if ok then s'\<lparr>st_file := Some code\<rparr> else s')))"

section \<open>A claim request\<close>

record claim_call =
  cc_peer :: "string option"
  cc_headers :: http_headers
  cc_code :: "string option"
  cc_label :: string
  cc_host :: "string option"
  cc_token :: "string option"

definition presented_code :: "claim_call \<Rightarrow> string" where
  "presented_code c = (case cc_code c of None \<Rightarrow> [] | Some t \<Rightarrow> py_strip t)"

definition call_source :: "claim_env \<Rightarrow> claim_call \<Rightarrow> bool \<times> string" where
  "call_source env c = claim_source (ce_parse6 env) (cc_peer c) (cc_headers c) (ce_proxies env)"

text \<open>The Proxmox half of the body: nothing, half of the pair, or both.\<close>

datatype proxmox_part = No_proxmox | Half_proxmox | Full_proxmox

definition proxmox_part_of :: "claim_call \<Rightarrow> proxmox_part" where
  "proxmox_part_of c =
     (let host = py_strip (case cc_host c of None \<Rightarrow> [] | Some h \<Rightarrow> h); token = py_strip (case cc_token c of None \<Rightarrow> [] | Some t \<Rightarrow> t) in
      if host = [] \<and> token = [] then No_proxmox else if host = [] \<or> token = [] then Half_proxmox else Full_proxmox)"

text \<open>What a step meets: the clock, an exception of the call it awaits, what Proxmox answers, what is drawn.\<close>

record claim_luck =
  lk_now :: rat
  lk_raises :: "exn option"
  lk_proxmox_ok :: bool
  lk_drawn :: string
  lk_ids :: "string \<times> string"
  lk_local_token :: "token_row option"
  lk_file_ok :: bool

datatype claim_phase =
    Arrived | Row_seen bool | Unclaimed | Counted | Credited | Verified_proxmox
  | Latched | Proxmox_saved | User_made string string string | Token_made string string | Recorded string | Releasing exn
  | Claim_done string | Claim_refused nat | Claim_failed exn | Claim_gone

definition raising :: "claim_luck \<Rightarrow> (exn \<Rightarrow> 'a) \<Rightarrow> 'a \<Rightarrow> 'a" where
  "raising lk f x = (case lk_raises lk of None \<Rightarrow> x | Some e \<Rightarrow> f e)"

definition admit :: "claim_env \<Rightarrow> claim_luck \<Rightarrow> claim_call \<Rightarrow> claim_state \<Rightarrow> claim_phase \<times> claim_state" where
  "admit env lk c s =
     (case call_source env c of
        (is_local, client) \<Rightarrow>
          (case allow (lk_now lk) client (st_limiter s) of
             (ok, lm) \<Rightarrow>
               (if \<not> ok then Claim_refused 429
                else if presented_code c \<noteq> [] then Counted
                else if is_local then Credited else Claim_refused 403, s\<lparr>st_limiter := lm\<rparr>)))"

definition minted_row :: "claim_luck \<Rightarrow> string \<Rightarrow> string \<Rightarrow> token_row" where
  "minted_row lk p h = \<lparr>tr_id = snd (lk_ids lk), tr_user = fst (lk_ids lk), tr_prefix = p, tr_hash = h,
     tr_scope = Some ''all'', tr_role = None, tr_expires = None\<rparr>"

fun claim_advance :: "claim_env \<Rightarrow> claim_luck \<Rightarrow> claim_call \<Rightarrow> claim_phase \<Rightarrow> claim_state \<Rightarrow> claim_phase \<times> claim_state" where
  "claim_advance env lk c Arrived s = (raising lk Claim_failed (Row_seen (claimed s)), s)"
| "claim_advance env lk c (Row_seen b) s =
     (raising lk Claim_failed (if has_admin_credential (st_tokens s) \<or> b then Claim_refused 410 else Unclaimed), s)"
| "claim_advance env lk c Unclaimed s = admit env lk c s"
| "claim_advance env lk c Counted s =
     (raising lk Claim_failed
        (case st_row s of
           None \<Rightarrow> Claim_refused 401
         | Some r \<Rightarrow> if validate_token (ce_tokens env) (presented_code c) (cr_hash r) then Credited else Claim_refused 401), s)"
| "claim_advance env lk c Credited s =
     ((case proxmox_part_of c of
         No_proxmox \<Rightarrow> Verified_proxmox
       | Half_proxmox \<Rightarrow> Claim_refused 400
       | Full_proxmox \<Rightarrow>
           (if \<not> ce_vault env then Claim_refused 400
            else raising lk Claim_failed (if lk_proxmox_ok lk then Verified_proxmox else Claim_refused 400))), s)"
| "claim_advance env lk c Verified_proxmox s =
     raising lk (\<lambda>e. (Claim_failed e, s))
       (case take_claim (cc_label c) s of (True, s') \<Rightarrow> (Latched, s') | (False, s') \<Rightarrow> (Claim_refused 410, s'))"
| "claim_advance env lk c Latched s =
     ((if proxmox_part_of c = Full_proxmox
       then raising lk Releasing (if lk_proxmox_ok lk then Proxmox_saved else Releasing (RuntimeError ''storing Proxmox settings failed''))
       else Proxmox_saved), s)"
| "claim_advance env lk c Proxmox_saved s =
     (case generate_api_token (ce_tokens env) (lk_drawn lk) of
        (full, p, h) \<Rightarrow> (raising lk Releasing (User_made full p h), s))"
| "claim_advance env lk c (User_made full p h) s =
     raising lk (\<lambda>e. (Releasing e, s)) (Token_made full p, s\<lparr>st_tokens := st_tokens s @ [minted_row lk p h]\<rparr>)"
| "claim_advance env lk c (Token_made full p) s =
     raising lk (\<lambda>e. (Releasing e, s)) (Recorded full, record_minted_token p s)"
| "claim_advance env lk c (Recorded full) s =
     (Claim_done full, clear_claim_code (lk_file_ok lk)
        (case lk_local_token lk of None \<Rightarrow> s | Some r \<Rightarrow> s\<lparr>st_tokens := st_tokens s @ [r]\<rparr>))"
| "claim_advance env lk c (Releasing e) s = raising lk (\<lambda>e'. (Claim_failed e', s)) (Claim_failed e, release s)"
| "claim_advance env lk c p s = (p, s)"

section \<open>The instance over time\<close>

record claim_sys =
  sy_state :: claim_state
  sy_calls :: "(claim_call \<times> claim_phase) list"

fun is_final :: "claim_phase \<Rightarrow> bool" where
  "is_final (Claim_done _) = True"
| "is_final (Claim_refused _) = True"
| "is_final (Claim_failed _) = True"
| "is_final Claim_gone = True"
| "is_final _ = False"

definition stopped :: "claim_phase \<Rightarrow> claim_phase" where
  "stopped p = (if is_final p then p else Claim_gone)"

definition claim_limiter :: limiter where
  "claim_limiter = new_limiter 5 300 10000"

definition new_instance :: claim_sys where
  "new_instance = \<lparr>sy_state = \<lparr>st_row = None, st_tokens = [], st_file = None, st_limiter = claim_limiter\<rparr>, sy_calls = []\<rparr>"

definition boot :: "claim_env \<Rightarrow> string \<Rightarrow> bool \<Rightarrow> claim_sys \<Rightarrow> claim_sys" where
  "boot env raw ok sy =
     \<lparr>sy_state = snd (ensure_claim_code env raw ok ((sy_state sy)\<lparr>st_limiter := claim_limiter\<rparr>)),
      sy_calls = map (\<lambda>(c, p). (c, stopped p)) (sy_calls sy)\<rparr>"

text \<open>Tokens also come and go by other ways: the console and the command line.\<close>

inductive claim_reach :: "claim_env \<Rightarrow> claim_sys \<Rightarrow> bool" for env where
  fresh: "claim_reach env new_instance"
| booted: "claim_reach env sy \<Longrightarrow> claim_reach env (boot env raw ok sy)"
| arrives: "claim_reach env sy \<Longrightarrow> claim_reach env (sy\<lparr>sy_calls := sy_calls sy @ [(c, Arrived)]\<rparr>)"
| advances: "claim_reach env sy \<Longrightarrow> i < length (sy_calls sy) \<Longrightarrow> sy_calls sy ! i = (c, p)
    \<Longrightarrow> claim_advance env lk c p (sy_state sy) = (p', s')
    \<Longrightarrow> claim_reach env \<lparr>sy_state = s', sy_calls = (sy_calls sy)[i := (c, p')]\<rparr>"
| cancelled: "claim_reach env sy \<Longrightarrow> i < length (sy_calls sy) \<Longrightarrow> sy_calls sy ! i = (c, p)
    \<Longrightarrow> claim_reach env (sy\<lparr>sy_calls := (sy_calls sy)[i := (c, stopped p)]\<rparr>)"
| tokens: "claim_reach env sy \<Longrightarrow> claim_reach env (sy\<lparr>sy_state := (sy_state sy)\<lparr>st_tokens := tab\<rparr>\<rparr>)"

section \<open>The invariant\<close>

fun holds_claim :: "claim_phase \<Rightarrow> bool" where
  "holds_claim Latched = True"
| "holds_claim Proxmox_saved = True"
| "holds_claim (User_made _ _ _) = True"
| "holds_claim (Token_made _ _) = True"
| "holds_claim (Recorded _) = True"
| "holds_claim (Releasing _) = True"
| "holds_claim (Claim_done _) = True"
| "holds_claim _ = False"

definition credited :: "claim_phase \<Rightarrow> bool" where
  "credited p = (p = Credited \<or> p = Verified_proxmox \<or> holds_claim p)"

definition code_hash_of :: "claim_state \<Rightarrow> string option" where
  "code_hash_of s = map_option cr_hash (st_row s)"

text \<open>From the instance's own network without a code, or with the code of the instance.\<close>

definition credential :: "claim_env \<Rightarrow> claim_call \<Rightarrow> claim_state \<Rightarrow> bool" where
  "credential env c s =
     (presented_code c = [] \<and> fst (call_source env c) \<or> code_hash_of s = Some (tk_sha256 (ce_tokens env) (presented_code c)))"

lemmas claim_ops = claimed_def code_hash_of_def take_claim_def release_def record_minted_token_def clear_claim_code_def
  raising_def admit_def credited_def

lemma advance_hash: "claim_advance env lk c p s = (p', s') \<Longrightarrow> code_hash_of s' = code_hash_of s"
  by (cases p) (auto simp: claim_ops map_option.compositionality comp_def split: option.splits if_splits prod.splits bool.splits)

lemma advance_holds:
  "claim_advance env lk c p s = (p', s') \<Longrightarrow> holds_claim p' \<Longrightarrow> (holds_claim p \<and> claimed s' = claimed s) \<or> (\<not> claimed s \<and> claimed s')"
  by (cases p) (auto simp: claim_ops split: option.splits if_splits prod.splits bool.splits proxmox_part.splits)

lemma advance_frees:
  "claim_advance env lk c p s = (p', s') \<Longrightarrow> claimed s \<Longrightarrow> \<not> claimed s' \<Longrightarrow> holds_claim p \<and> \<not> holds_claim p'"
  by (cases p) (auto simp: claim_ops split: option.splits if_splits prod.splits bool.splits)

lemma advance_credited:
  "claim_advance env lk c p s = (p', s') \<Longrightarrow> credited p' \<Longrightarrow> credited p \<or> credential env c s"
  by (cases p) (auto simp: claim_ops credential_def validate_token_def split: option.splits if_splits prod.splits bool.splits proxmox_part.splits)

definition claim_inv :: "claim_env \<Rightarrow> claim_sys \<Rightarrow> bool" where
  "claim_inv env sy =
     ((\<forall>i j c p d q. i < length (sy_calls sy) \<longrightarrow> j < length (sy_calls sy) \<longrightarrow> sy_calls sy ! i = (c, p) \<longrightarrow> sy_calls sy ! j = (d, q)
         \<longrightarrow> holds_claim p \<longrightarrow> holds_claim q \<longrightarrow> i = j)
    \<and> (\<forall>c p. (c, p) \<in> set (sy_calls sy) \<longrightarrow> holds_claim p \<longrightarrow> claimed (sy_state sy))
    \<and> (\<forall>c p. (c, p) \<in> set (sy_calls sy) \<longrightarrow> credited p \<longrightarrow> credential env c (sy_state sy)))"

lemma credential_hash: "code_hash_of s' = code_hash_of s \<Longrightarrow> credential env c s' = credential env c s"
  by (simp add: credential_def)

lemma claim_inv_step:
  assumes inv: "claim_inv env sy" and i: "i < length (sy_calls sy)" "sy_calls sy ! i = (c, p)"
    and h: "code_hash_of s' = code_hash_of (sy_state sy)"
    and one: "holds_claim p' \<Longrightarrow> (holds_claim p \<and> claimed s' = claimed (sy_state sy)) \<or> (\<not> claimed (sy_state sy) \<and> claimed s')"
    and frees: "claimed (sy_state sy) \<Longrightarrow> \<not> claimed s' \<Longrightarrow> holds_claim p \<and> \<not> holds_claim p'"
    and cred: "credited p' \<Longrightarrow> credited p \<or> credential env c (sy_state sy)"
  shows "claim_inv env \<lparr>sy_state = s', sy_calls = (sy_calls sy)[i := (c, p')]\<rparr>"
proof -
  let ?l = "sy_calls sy" and ?s = "sy_state sy" and ?l' = "(sy_calls sy)[i := (c, p')]"
  have uniq: "a = b" if "a < length ?l" "b < length ?l" "holds_claim (snd (?l ! a))" "holds_claim (snd (?l ! b))" for a b
    using inv that unfolding claim_inv_def by (metis prod.collapse)
  have holder: "claimed ?s" if "a < length ?l" "holds_claim (snd (?l ! a))" for a
    using inv that unfolding claim_inv_def by (metis nth_mem prod.collapse)
  have old: "credential env (fst (?l ! a)) ?s" if "a < length ?l" "credited (snd (?l ! a))" for a
    using inv that unfolding claim_inv_def by (metis nth_mem prod.collapse)
  have alone: "\<not> holds_claim (snd (?l ! a))" if "a < length ?l" "a \<noteq> i" "holds_claim p'" for a
  proof
    assume a: "holds_claim (snd (?l ! a))"
    have "holds_claim p" using one [OF that(3)] holder [OF that(1) a] by blast
    then show False using uniq [OF that(1) i(1) a] i(2) that(2) by simp
  qed
  have kept: "claimed s'" if "a < length ?l" "holds_claim (snd (?l' ! a))" for a
  proof (cases "a = i")
    case True
    then have p': "holds_claim p'" using that i(1) by simp
    then show ?thesis using one [OF p'] holder [OF i(1)] i(2) by auto
  next
    case False
    then have a: "holds_claim (snd (?l ! a))" using that by simp
    show ?thesis
    proof (rule ccontr)
      assume "\<not> claimed s'"
      then have "holds_claim p" using frees holder [OF that(1) a] by blast
      then show False using uniq [OF that(1) i(1) a] i(2) False by simp
    qed
  qed
  have new: "credential env (fst (?l' ! a)) s'" if "a < length ?l" "credited (snd (?l' ! a))" for a
    using that old [of a] cred i old [OF i(1)] credential_hash [OF h] by (cases "a = i") auto
  have one': "a = b" if "a < length ?l" "b < length ?l" "holds_claim (snd (?l' ! a))" "holds_claim (snd (?l' ! b))" for a b
    using that uniq [of a b] alone [of a] alone [of b] by (cases "a = i"; cases "b = i") auto
  show ?thesis
    unfolding claim_inv_def using one' kept new
    by (auto simp: in_set_conv_nth) (metis length_list_update prod.sel)+
qed

lemma stopped_holds: "holds_claim (stopped p) \<Longrightarrow> stopped p = p \<and> holds_claim p"
  by (auto simp: stopped_def split: if_splits)

lemma stopped_credited: "credited (stopped p) \<Longrightarrow> stopped p = p \<and> holds_claim p"
  by (cases p) (auto simp: stopped_def credited_def)

text \<open>Starting keeps a claim that was made, and its code.\<close>

lemma ensure_keeps:
  assumes "claimed s" "ensure_claim_code env raw ok s = (code, s')"
  shows "claimed s' \<and> code_hash_of s' = code_hash_of s"
  using assms by (auto simp: ensure_claim_code_def latch_claimed_externally_def claim_ops split: option.splits if_splits)

lemma claim_inv_boot:
  assumes inv: "claim_inv env sy"
  shows "claim_inv env (boot env raw ok sy)"
proof -
  let ?s = "(sy_state sy)\<lparr>st_limiter := claim_limiter\<rparr>" and ?l = "sy_calls sy"
  obtain code s' where e: "ensure_claim_code env raw ok ?s = (code, s')" by fastforce
  have same: "claimed ?s = claimed (sy_state sy)" "code_hash_of ?s = code_hash_of (sy_state sy)"
    by (simp_all add: claimed_def code_hash_of_def)
  have b: "boot env raw ok sy = \<lparr>sy_state = s', sy_calls = map (\<lambda>(c, p). (c, stopped p)) ?l\<rparr>"
    using e by (simp add: boot_def)
  have held: "claimed s' \<and> credential env c s'" if "(c, p) \<in> set ?l" "holds_claim p" for c p
  proof -
    have "claimed (sy_state sy)" "credential env c (sy_state sy)"
      using inv that unfolding claim_inv_def credited_def by blast+
    then show ?thesis using ensure_keeps [OF _ e] credential_hash same by metis
  qed
  have at: "\<exists>p. ?l ! i = (c, p) \<and> q = stopped p" if "i < length ?l" "map (\<lambda>(c, p). (c, stopped p)) ?l ! i = (c, q)" for i c q
    using that by (cases "?l ! i") auto
  have uniq: "i = j" if "i < length ?l" "j < length ?l" "?l ! i = (c, p)" "?l ! j = (d, q)" "holds_claim p" "holds_claim q" for i j c p d q
    using inv that unfolding claim_inv_def by blast
  show ?thesis
    unfolding claim_inv_def b
  proof (intro conjI allI impI)
    fix i j c p d q
    assume a: "i < length (sy_calls \<lparr>sy_state = s', sy_calls = map (\<lambda>(c, p). (c, stopped p)) ?l\<rparr>)"
      "j < length (sy_calls \<lparr>sy_state = s', sy_calls = map (\<lambda>(c, p). (c, stopped p)) ?l\<rparr>)"
      "sy_calls \<lparr>sy_state = s', sy_calls = map (\<lambda>(c, p). (c, stopped p)) ?l\<rparr> ! i = (c, p)"
      "sy_calls \<lparr>sy_state = s', sy_calls = map (\<lambda>(c, p). (c, stopped p)) ?l\<rparr> ! j = (d, q)" "holds_claim p" "holds_claim q"
    obtain p0 where p0: "?l ! i = (c, p0)" "p = stopped p0" using at [of i c p] a by auto
    obtain q0 where q0: "?l ! j = (d, q0)" "q = stopped q0" using at [of j d q] a by auto
    show "i = j" using uniq [of i j c p0 d q0] p0 q0 a stopped_holds by auto
  next
    fix c p assume "(c, p) \<in> set (sy_calls \<lparr>sy_state = s', sy_calls = map (\<lambda>(c, p). (c, stopped p)) ?l\<rparr>)" "holds_claim p"
    then show "claimed (sy_state \<lparr>sy_state = s', sy_calls = map (\<lambda>(c, p). (c, stopped p)) ?l\<rparr>)"
      using held stopped_holds by fastforce
  next
    fix c p assume "(c, p) \<in> set (sy_calls \<lparr>sy_state = s', sy_calls = map (\<lambda>(c, p). (c, stopped p)) ?l\<rparr>)" "credited p"
    then show "credential env c (sy_state \<lparr>sy_state = s', sy_calls = map (\<lambda>(c, p). (c, stopped p)) ?l\<rparr>)"
      using held stopped_credited by fastforce
  qed
qed

lemma claim_inv_reach: "claim_reach env sy \<Longrightarrow> claim_inv env sy"
proof (induction rule: claim_reach.induct)
  case fresh
  then show ?case by (simp add: claim_inv_def new_instance_def)
next
  case (booted sy raw ok)
  then show ?case by (simp add: claim_inv_boot)
next
  case (arrives sy c)
  show ?case using arrives.IH unfolding claim_inv_def by (auto simp: nth_append credited_def split: if_splits)
next
  case (advances sy i c p lk p' s')
  note a = advances.hyps(4)
  show ?case
    by (rule claim_inv_step [OF advances.IH advances.hyps(2,3) advance_hash [OF a]])
      (use advance_holds [OF a] advance_frees [OF a] advance_credited [OF a] in blast)+
next
  case (cancelled sy i c p)
  have "claim_inv env \<lparr>sy_state = sy_state sy, sy_calls = (sy_calls sy)[i := (c, stopped p)]\<rparr>"
  proof (rule claim_inv_step [OF cancelled.IH cancelled.hyps(2,3) refl])
    show "credited (stopped p) \<Longrightarrow> credited p \<or> credential env c (sy_state sy)"
      using stopped_credited by (simp add: credited_def)
  qed (auto dest: stopped_holds)
  then show ?case by (cases sy) simp
next
  case (tokens sy tab)
  then show ?case by (simp add: claim_inv_def claimed_def credential_def code_hash_of_def)
qed

text \<open>
  C17: an instance is handed out once, to someone entitled to it.  However claim requests interleave, whatever of
  the database and of Proxmox fails, and however often the process stops and starts: a request that is answered with a token came
  from the instance's own network without a code or presented the code of the instance, no other request is ever answered with one, and the
  claim path is closed.
\<close>

theorem instance_claimed_once:
  assumes "claim_reach env sy" "i < length (sy_calls sy)" "sy_calls sy ! i = (c, Claim_done t)"
  shows "credential env c (sy_state sy)
    \<and> (\<forall>j d u. j < length (sy_calls sy) \<longrightarrow> sy_calls sy ! j = (d, Claim_done u) \<longrightarrow> j = i)
    \<and> is_claimed (sy_state sy)"
proof -
  have inv: "claim_inv env sy" by (rule claim_inv_reach [OF assms(1)])
  have m: "(c, Claim_done t) \<in> set (sy_calls sy)" using assms(2,3) by (metis nth_mem)
  have "credential env c (sy_state sy)" "claimed (sy_state sy)"
    using inv m unfolding claim_inv_def credited_def by auto
  moreover have "j = i" if "j < length (sy_calls sy)" "sy_calls sy ! j = (d, Claim_done u)" for j d u
    using inv that assms(2,3) unfolding claim_inv_def by (metis holds_claim.simps(7))
  ultimately show ?thesis by (auto simp: is_claimed_def)
qed

section \<open>An example\<close>

definition sample_claim_env :: claim_env where
  "sample_claim_env = \<lparr>ce_tokens = sample_token_env, ce_parse6 = (\<lambda>_. None), ce_proxies = [], ce_vault = False\<rparr>"

definition sample_call :: claim_call where
  "sample_call = \<lparr>cc_peer = Some ''127.0.0.1'', cc_headers = (\<lambda>_. None), cc_code = None, cc_label = ''admin'', cc_host = None, cc_token = None\<rparr>"

definition sample_luck :: claim_luck where
  "sample_luck = \<lparr>lk_now = 1, lk_raises = None, lk_proxmox_ok = True, lk_drawn = ''aa'', lk_ids = (''u1'', ''t1''), lk_local_token = None,
     lk_file_ok = True\<rparr>"

definition one_step :: "claim_sys \<Rightarrow> claim_sys" where
  "one_step sy = (case sy_calls sy ! 0 of (c, p) \<Rightarrow>
     (case claim_advance sample_claim_env sample_luck c p (sy_state sy) of
        (p', s') \<Rightarrow> \<lparr>sy_state = s', sy_calls = (sy_calls sy)[0 := (c, p')]\<rparr>))"

definition claim_begun :: claim_sys where
  "claim_begun = (let sy = boot sample_claim_env ''00'' True new_instance in sy\<lparr>sy_calls := sy_calls sy @ [(sample_call, Arrived)]\<rparr>)"

definition claim_latched :: claim_sys where
  "claim_latched = (one_step ^^ 5) claim_begun"

definition claim_finished :: claim_sys where
  "claim_finished = (one_step ^^ 5) claim_latched"

lemma one_step_reach: "claim_reach sample_claim_env sy \<Longrightarrow> sy_calls sy \<noteq> [] \<Longrightarrow> claim_reach sample_claim_env (one_step sy)"
  by (cases "sy_calls sy ! 0") (auto simp: one_step_def split: prod.splits intro: claim_reach.advances)

lemma one_step_calls: "sy_calls sy \<noteq> [] \<Longrightarrow> sy_calls (one_step sy) \<noteq> []"
  by (simp add: one_step_def split: prod.splits)

lemma steps_reach:
  "claim_reach sample_claim_env sy \<Longrightarrow> sy_calls sy \<noteq> [] \<Longrightarrow> claim_reach sample_claim_env ((one_step ^^ n) sy) \<and> sy_calls ((one_step ^^ n) sy) \<noteq> []"
  by (induction n) (simp_all add: one_step_reach one_step_calls)

lemma sample_reach:
  "claim_reach sample_claim_env claim_latched" "claim_reach sample_claim_env claim_finished"
proof -
  have b: "claim_reach sample_claim_env claim_begun" "sy_calls claim_begun \<noteq> []"
    unfolding claim_begun_def Let_def by (intro claim_reach.intros) simp
  show "claim_reach sample_claim_env claim_latched" "claim_reach sample_claim_env claim_finished"
    using steps_reach [OF b] steps_reach unfolding claim_latched_def claim_finished_def by blast+
qed

lemma sample_local: "call_source sample_claim_env sample_call = (True, ''127.0.0.1'')"
  using loopback_local [of "\<lambda>_. None"]
  by (simp add: call_source_def claim_source_def sample_call_def sample_claim_env_def Let_def trusted_proxy_def header_text_def
      forward_headers_def split: option.splits)

lemmas run_simps = one_step_def Let_def boot_def new_instance_def ensure_claim_code_def has_admin_credential_def claimed_def
  generate_claim_code_def install_code_def sample_luck_def raising_def

lemma claim_begun_eq:
  "claim_begun = \<lparr>sy_state = \<lparr>st_row = Some \<lparr>cr_prefix = ''hpc_00'', cr_hash = ''hpc_00'', cr_claimed = False, cr_label = None, cr_minted = None\<rparr>,
     st_tokens = [], st_file = Some ''hpc_00'', st_limiter = claim_limiter\<rparr>, sy_calls = [(sample_call, Arrived)]\<rparr>"
  by (simp add: claim_begun_def run_simps sample_claim_env_def sample_token_env_def prefix_length_def)

definition after_one :: limiter where
  "after_one = snd (allow 1 ''127.0.0.1'' claim_limiter)"

lemma first_allowed: "allow 1 ''127.0.0.1'' claim_limiter = (True, after_one)"
proof -
  have "fst (allow 1 ''127.0.0.1'' claim_limiter)"
    by (simp add: allow_def Let_def claim_limiter_def new_limiter_def hits_of_def)
  then show ?thesis unfolding after_one_def by (metis prod.collapse)
qed

lemma sample_parts: "presented_code sample_call = []" "proxmox_part_of sample_call = No_proxmox"
  by (simp_all add: presented_code_def proxmox_part_of_def sample_call_def Let_def py_strip_def py_lstrip_def py_rstrip_def)

lemma claim_latched_eq:
  "claim_latched = \<lparr>sy_state = \<lparr>st_row = Some \<lparr>cr_prefix = ''hpc_00'', cr_hash = ''hpc_00'', cr_claimed = True, cr_label = Some ''admin'', cr_minted = None\<rparr>,
     st_tokens = [], st_file = Some ''hpc_00'', st_limiter = after_one\<rparr>, sy_calls = [(sample_call, Latched)]\<rparr>"
proof -
  have five: "(one_step ^^ 5) x = one_step (one_step (one_step (one_step (one_step x))))" for x
    by (simp add: eval_nat_numeral)
  have l: "cc_label sample_call = ''admin''" by (simp add: sample_call_def)
  show ?thesis
    unfolding claim_latched_def five claim_begun_eq
    by (simp add: run_simps admit_def sample_local first_allowed sample_parts take_claim_def l)
qed

lemma claim_finished_eq:
  "sy_calls claim_finished = [(sample_call, Claim_done ''hp_aa'')]"
proof -
  have five: "(one_step ^^ 5) x = one_step (one_step (one_step (one_step (one_step x))))" for x
    by (simp add: eval_nat_numeral)
  show ?thesis
    unfolding claim_finished_def five claim_latched_eq
    by (simp add: run_simps sample_parts generate_api_token_def record_minted_token_def)
qed

text \<open>
  A process that stops between the latch and the token leaves an instance that is claimed and has no token, and starting
  again does not change that: every claim is refused, and nobody holds a credential.
\<close>

lemma stopped_claim_burned:
  "is_claimed (sy_state (boot sample_claim_env raw ok claim_latched)) \<and> st_tokens (sy_state (boot sample_claim_env raw ok claim_latched)) = []
   \<and> sy_calls (boot sample_claim_env raw ok claim_latched) = [(sample_call, Claim_gone)]
   \<and> fst (ensure_claim_code sample_claim_env raw ok (sy_state claim_latched)) = None"
  by (simp add: claim_latched_eq run_simps is_claimed_def stopped_def clear_claim_code_def)

theorem instance_claimed_once_witness:
  "credential sample_claim_env sample_call (sy_state claim_finished) \<and> is_claimed (sy_state claim_finished)"
proof -
  have i: "0 < length (sy_calls claim_finished)" "sy_calls claim_finished ! 0 = (sample_call, Claim_done ''hp_aa'')"
    by (simp_all add: claim_finished_eq)
  show ?thesis using instance_claimed_once [OF sample_reach(2) i] by blast
qed

end
