(* ===== verification/Drift_Cycle.thy ===== *)
theory Drift_Cycle
  imports Drift_Verify "HOL-Library.AList"
begin

text \<open>
  The drift reconciler: \<^verbatim>\<open>reconciler/drift.py\<close>.

  A check verifies an artifact, stores the verdict, writes an audit entry and tells the subscribers when the artifact has
  drifted; a cycle checks every applied artifact.  The state is what was sent, the stored verdicts, the audit entries and
  the events.  Which of the database's calls raise, and whether an event is delivered, are arguments.
\<close>

record drift_world =
  dw_sent :: vworld
  dw_rows :: "(string \<times> (bool \<times> drift_state)) list"
  dw_audit :: "(string \<times> drift_state) list"
  dw_events :: "string list"

record drift_env =
  de_verify :: verify_env
  de_upsert :: "string \<Rightarrow> exn option"
  de_audit :: "string \<Rightarrow> exn option"
  de_delivered :: "string \<Rightarrow> bool"
  de_applied :: "(string \<times> string) list res"
  de_cycle_audit :: "exn option"

text \<open>\<open>except (OSError, RuntimeError, ValueError)\<close>: an error of the database is none of them.\<close>

fun audit_absorbed :: "exn \<Rightarrow> bool" where
  "audit_absorbed (FileNotFoundError _) = True"
| "audit_absorbed (ConnectionError _) = True"
| "audit_absorbed (RuntimeError _) = True"
| "audit_absorbed (ValueError _) = True"
| "audit_absorbed RecursionError = True"
| "audit_absorbed _ = False"

definition emit_drift_event :: "drift_env \<Rightarrow> string \<Rightarrow> drift_world \<Rightarrow> drift_world" where
  "emit_drift_event env i w = (if de_delivered env i then w\<lparr>dw_events := dw_events w @ [i]\<rparr> else w)"

definition upsert_drift_check :: "string \<Rightarrow> verify_result \<Rightarrow> drift_world \<Rightarrow> drift_world" where
  "upsert_drift_check i r w = w\<lparr>dw_rows := AList.update i (vr_drifted r, vr_state r) (dw_rows w)\<rparr>"

definition check_single :: "drift_env \<Rightarrow> string \<Rightarrow> drift_world \<Rightarrow> verify_result res \<times> drift_world" where
  "check_single env i w =
     (case verify_artifact (de_verify env) i (dw_sent w) of
        (Inl e, sent) \<Rightarrow> (Inl e, w\<lparr>dw_sent := sent\<rparr>)
      | (Inr r, sent) \<Rightarrow>
          (let w1 = w\<lparr>dw_sent := sent\<rparr> in
           case de_upsert env i of
             Some e \<Rightarrow> (Inl e, w1)
           | None \<Rightarrow>
               (let w2 = upsert_drift_check i r w1;
                    told = (\<lambda>w. (Inr r, if vr_drifted r then emit_drift_event env i w else w)) in
                case de_audit env i of
                  None \<Rightarrow> told (w2\<lparr>dw_audit := dw_audit w2 @ [(i, vr_state r)]\<rparr>)
                | Some e \<Rightarrow> if audit_absorbed e then told w2 else (Inl e, w2))))"

record cycle_counts =
  cy_checked :: nat
  cy_drifted :: nat
  cy_skipped :: nat
  cy_errors :: nat
  cy_no_executor :: nat
  cy_audit_error :: bool

definition no_counts :: cycle_counts where
  "no_counts = \<lparr>cy_checked = 0, cy_drifted = 0, cy_skipped = 0, cy_errors = 0, cy_no_executor = 0, cy_audit_error = False\<rparr>"

fun check_each :: "drift_env \<Rightarrow> string list \<Rightarrow> cycle_counts \<Rightarrow> drift_world \<Rightarrow> cycle_counts \<times> drift_world" where
  "check_each env [] k w = (k, w)"
| "check_each env (i # is) k w =
     (case check_single env i w of
        (Inl _, w') \<Rightarrow> check_each env is (k\<lparr>cy_errors := cy_errors k + 1\<rparr>) w'
      | (Inr r, w') \<Rightarrow>
          check_each env is (k\<lparr>cy_checked := cy_checked k + 1, cy_drifted := cy_drifted k + (if vr_drifted r then 1 else 0)\<rparr>) w')"

text \<open>A cycle: the counts, or the error it reports, or the exception that leaves it.\<close>

definition drift_run :: "drift_env \<Rightarrow> drift_world \<Rightarrow> (exn + cycle_counts) res \<times> drift_world" where
  "drift_run env w =
     (case de_applied env of
        Inl e \<Rightarrow> (if audit_absorbed e then Inr (Inl e) else Inl e, w)
      | Inr applied \<Rightarrow>
          (let checkable = filter (\<lambda>(_, kind). kind \<noteq> ''kb-note'') applied; skipped = length applied - length checkable in
           if checkable = [] then (Inr (Inr (no_counts\<lparr>cy_skipped := skipped\<rparr>)), w)
           else if \<not> v_executor (de_verify env) then (Inr (Inr (no_counts\<lparr>cy_no_executor := length checkable\<rparr>)), w)
           else case check_each env (map fst checkable) no_counts w of
             (k, w') \<Rightarrow>
               (let k' = k\<lparr>cy_skipped := skipped\<rparr> in
                case de_cycle_audit env of
                  None \<Rightarrow> (Inr (Inr k'), w')
                | Some e \<Rightarrow> (if audit_absorbed e then Inr (Inr (k'\<lparr>cy_audit_error := True\<rparr>)) else Inl e, w'))))"

section \<open>What a cycle does\<close>

text \<open>A check that returns stored its verdict, and an event goes out for a drifted artifact only.\<close>

lemma check_single_records:
  assumes "check_single env i w = (Inr r, w')"
  shows "map_of (dw_rows w') i = Some (vr_state r = DRIFTED, vr_state r)
    \<and> dw_events w' = dw_events w @ (if vr_state r = DRIFTED \<and> de_delivered env i then [i] else [])"
  using assms
  by (auto simp: check_single_def upsert_drift_check_def emit_drift_event_def vr_drifted_def update_conv' Let_def
      split: sum.splits option.splits prod.splits if_splits)

lemma check_single_error:
  assumes "check_single env i w = (Inl e, w')"
  shows "dw_events w' = dw_events w"
  using assms
  by (auto simp: check_single_def upsert_drift_check_def Let_def split: sum.splits option.splits prod.splits if_splits)

lemma check_single_others:
  "j \<noteq> i \<Longrightarrow> map_of (dw_rows (snd (check_single env i w))) j = map_of (dw_rows w) j"
  by (auto simp: check_single_def upsert_drift_check_def emit_drift_event_def update_conv' Let_def split: sum.splits option.splits prod.splits)

lemma check_each_others:
  "j \<notin> set is \<Longrightarrow> map_of (dw_rows (snd (check_each env is k w))) j = map_of (dw_rows w) j"
proof (induction "is" arbitrary: k w)
  case (Cons i "is")
  then show ?case using check_single_others [of j i env w] by (cases "check_single env i w") (auto split: sum.splits)
qed simp

text \<open>One failing check does not stop the others: every artifact is checked or counted as an error.\<close>

lemma check_each_counts:
  "cy_checked (fst (check_each env is k w)) + cy_errors (fst (check_each env is k w)) = cy_checked k + cy_errors k + length is
   \<and> cy_no_executor (fst (check_each env is k w)) = cy_no_executor k"
proof (induction "is" arbitrary: k w)
  case (Cons i "is")
  then show ?case by (cases "check_single env i w") (auto split: sum.splits)
qed simp

lemma check_each_drifted:
  "length (dw_events (snd (check_each env is k w))) \<le> length (dw_events w) + cy_drifted (fst (check_each env is k w)) - cy_drifted k
   \<and> cy_drifted k \<le> cy_drifted (fst (check_each env is k w))"
proof (induction "is" arbitrary: k w)
  case (Cons i "is")
  obtain q w' where c: "check_single env i w = (q, w')" by fastforce
  show ?case
  proof (cases q)
    case (Inl e)
    then show ?thesis using Cons.IH [of "k\<lparr>cy_errors := cy_errors k + 1\<rparr>" w'] c check_single_error by (fastforce simp: Inl)
  next
    case (Inr r)
    let ?k = "k\<lparr>cy_checked := cy_checked k + 1, cy_drifted := cy_drifted k + (if vr_drifted r then 1 else 0)\<rparr>"
    have "length (dw_events w') \<le> length (dw_events w) + (if vr_drifted r then 1 else 0)"
      using check_single_records c by (auto simp: Inr vr_drifted_def)
    then show ?thesis using Cons.IH [of ?k w'] c by (auto simp: Inr split: if_splits)
  qed
qed simp

lemma cycle_accounts:
  assumes "drift_run env w = (Inr (Inr k), w')" "de_applied env = Inr applied"
  shows "cy_checked k + cy_errors k + cy_no_executor k = length (filter (\<lambda>(_, kind). kind \<noteq> ''kb-note'') applied)"
  using assms check_each_counts [of env "map fst (filter (\<lambda>(_, kind). kind \<noteq> ''kb-note'') applied)" no_counts w]
  by (auto simp: drift_run_def Let_def no_counts_def split: if_splits option.splits prod.splits)

text \<open>
  An audit entry the database refuses is meant to be passed over, but its error is not of the classes that are: the drift
  is stored, no event goes out, and the check counts as failed; after the last check it ends the cycle.
\<close>

lemma audit_error_silences:
  assumes "verify_artifact (de_verify env) i (dw_sent w) = (Inr r, sent)" "vr_state r = DRIFTED"
    and "de_upsert env i = None" "de_audit env i = Some (SqliteError m)"
  shows "\<exists>w'. check_single env i w = (Inl (SqliteError m), w') \<and> map_of (dw_rows w') i = Some (True, DRIFTED) \<and> dw_events w' = dw_events w"
  using assms by (simp add: check_single_def upsert_drift_check_def vr_drifted_def Let_def update_conv')

end
